(* ===== verification/Prelude.thy ===== *)
theory Prelude
  imports Complex_Main "HOL-Library.Word" "HOL-Library.Signed_Division"
begin

section \<open>Prelude: machine integers, doubles and shared list facts\<close>

text \<open>
  What every component of the engine shares:
  \<^item> the 64-bit signed integers (\<open>std::int64_t\<close>) as \<^typ>\<open>int\<close> with the range written out
    (\<open>in_i64\<close>) and the two's complement result of an unchecked operation (\<open>wrap_i64\<close>);
    C++ leaves signed overflow undefined, and \<open>wrap_i64\<close> is the value the supported
    compilers store, so that the theorems about unchecked sums say exactly when that
    value is the mathematical one;
  \<^item> the unsigned integers as words (\<open>u64\<close>, \<open>u32\<close>), whose operations wrap as the C++ ones do;
  \<^item> C++ integer division, which truncates towards zero: \<open>sdiv\<close> of the library;
  \<^item> the doubles the engine only reads (a level's size): not-a-number, the infinities and the
    finite values, each finite double being a rational number;
  \<^item> the collections \<open>i64_simps\<close> and \<open>ledger_simps\<close> that carry the component proofs.
\<close>

named_theorems i64_simps \<open>range and wrap-around facts of 64-bit signed integers\<close>
named_theorems ledger_simps \<open>lookup and update facts of the ledgers\<close>

type_synonym i64 = int
type_synonym u64 = "64 word"
type_synonym u32 = "32 word"

subsection \<open>64-bit signed integers\<close>

definition i64_max :: i64 where
  "i64_max = 9223372036854775807"

definition i64_min :: i64 where
  "i64_min = -9223372036854775808"

definition in_i64 :: "int \<Rightarrow> bool" where
  "in_i64 x \<longleftrightarrow> i64_min \<le> x \<and> x \<le> i64_max"

definition wrap_i64 :: "int \<Rightarrow> i64" where
  "wrap_i64 x = (x + 9223372036854775808) mod 18446744073709551616 - 9223372036854775808"

lemmas i64_bounds = i64_max_def i64_min_def

lemma in_i64_0 [simp, i64_simps]: "in_i64 0"
  by (simp add: in_i64_def i64_bounds)

lemma in_i64_wrap [simp, i64_simps]: "in_i64 (wrap_i64 x)"
  unfolding in_i64_def wrap_i64_def i64_bounds
  using pos_mod_bound [of "18446744073709551616 :: int" "x + 9223372036854775808"]
  by simp

lemma wrap_i64_id [i64_simps]: "in_i64 x \<Longrightarrow> wrap_i64 x = x"
  by (simp add: in_i64_def wrap_i64_def i64_bounds)

lemma wrap_i64_idem [simp]: "wrap_i64 (wrap_i64 x) = wrap_i64 x"
  by (simp add: wrap_i64_id)

lemma wrap_i64_eq_iff:
  "wrap_i64 x = wrap_i64 y \<longleftrightarrow> x mod 18446744073709551616 = y mod 18446744073709551616"
  by (simp add: wrap_i64_def mod_eq_dvd_iff)

lemma wrap_i64_mod: "wrap_i64 x mod 18446744073709551616 = x mod 18446744073709551616"
  by (simp add: wrap_i64_def mod_diff_left_eq)

lemma wrap_i64_add_left [simp]: "wrap_i64 (wrap_i64 x + y) = wrap_i64 (x + y)"
  unfolding wrap_i64_eq_iff by (metis wrap_i64_mod mod_add_left_eq)

lemma wrap_i64_add_right [simp]: "wrap_i64 (x + wrap_i64 y) = wrap_i64 (x + y)"
  unfolding wrap_i64_eq_iff by (metis wrap_i64_mod mod_add_right_eq)

lemma wrap_i64_diff_left [simp]: "wrap_i64 (wrap_i64 x - y) = wrap_i64 (x - y)"
  unfolding wrap_i64_eq_iff by (metis wrap_i64_mod mod_diff_left_eq)

lemma wrap_i64_diff_right [simp]: "wrap_i64 (x - wrap_i64 y) = wrap_i64 (x - y)"
  unfolding wrap_i64_eq_iff by (metis wrap_i64_mod mod_diff_right_eq)

lemma in_i64_nonneg: "0 \<le> x \<Longrightarrow> in_i64 x \<longleftrightarrow> x \<le> i64_max"
  by (auto simp: in_i64_def i64_bounds)

subsection \<open>Division that truncates towards zero\<close>

lemma sdiv_nonneg: "0 \<le> a \<Longrightarrow> 0 \<le> b \<Longrightarrow> a sdiv b = a div b" for a b :: int
  by (cases "a = 0"; cases "b = 0") (simp_all add: signed_divide_int_def sgn_if)

lemma sdiv_pos_den: "0 < b \<Longrightarrow> a sdiv b = (if 0 \<le> a then a div b else - ((- a) div b))" for a b :: int
  by (cases "a = 0") (simp_all add: signed_divide_int_def sgn_if)

lemma le_div_iff_mult_le: "0 < d \<Longrightarrow> t \<le> x div d \<longleftrightarrow> t * d \<le> x" for t d x :: int
proof
  assume d: "0 < d" and "t \<le> x div d"
  then have "t * d \<le> (x div d) * d" by simp
  also have "\<dots> \<le> x" using d by (simp add: minus_mod_eq_div_mult [symmetric])
  finally show "t * d \<le> x" .
next
  assume d: "0 < d" and "t * d \<le> x"
  from zdiv_mono1 [OF this(2) d] show "t \<le> x div d" using d by simp
qed

subsection \<open>Doubles that are only read\<close>

datatype dbl = NaN | PosInf | NegInf | Fin rat

text \<open>
  \<open>std::isfinite\<close>, the comparisons with a constant and \<open>std::floor\<close> are exact on the finite
  doubles; a comparison with a NaN is false.
\<close>

fun isfinite :: "dbl \<Rightarrow> bool" where
  "isfinite (Fin _) = True"
| "isfinite _ = False"

subsection \<open>FNV-1a hashing\<close>

text \<open>
  The engine's identifiers are FNV-1a hashes computed with 64-bit wrap-around: over the bytes of
  a string, and over the eight bytes of an integer, least significant first. The same few lines
  are repeated in the anonymous namespaces of many source files; the components refer to these
  two functions.
\<close>

unbundle bit_operations_syntax

definition fnv_offset :: u64 where
  "fnv_offset = 14695981039346656037"

definition fnv_prime :: u64 where
  "fnv_prime = 1099511628211"

definition fnv_byte :: "u64 \<Rightarrow> u64 \<Rightarrow> u64" where
  "fnv_byte hash b = (hash XOR b) * fnv_prime"

definition fnv_string :: "string \<Rightarrow> u64 \<Rightarrow> u64" where
  "fnv_string s hash = foldl (\<lambda>h c. fnv_byte h (of_char c)) hash s"

definition fnv_u64 :: "u64 \<Rightarrow> u64 \<Rightarrow> u64" where
  "fnv_u64 value hash =
     foldl (\<lambda>h shift. fnv_byte h (drop_bit shift value AND 0xFF)) hash [0, 8, 16, 24, 32, 40, 48, 56]"

subsection \<open>Decimal numerals\<close>

text \<open>\<open>std::to_string\<close> of an unsigned integer, and the value of a numeral.\<close>

definition digit_char :: "nat \<Rightarrow> char" where
  "digit_char d = char_of (48 + d)"

fun to_dec :: "nat \<Rightarrow> string" where
  "to_dec n = (if n < 10 then [digit_char n] else to_dec (n div 10) @ [digit_char (n mod 10)])"

definition is_digit :: "char \<Rightarrow> bool" where
  "is_digit c \<longleftrightarrow> 48 \<le> (of_char c :: nat) \<and> (of_char c :: nat) \<le> 57"

definition dec_value :: "string \<Rightarrow> nat" where
  "dec_value s = foldl (\<lambda>n c. 10 * n + (of_char c - 48)) 0 s"

declare to_dec.simps [simp del]

lemma of_digit_char: "d < 10 \<Longrightarrow> (of_char (digit_char d) :: nat) = 48 + d"
  by (simp add: digit_char_def)

lemma to_dec_not_Nil [simp]: "to_dec n \<noteq> []"
  by (subst to_dec.simps) simp

lemma is_digit_char: "d < 10 \<Longrightarrow> is_digit (digit_char d)"
  by (simp add: is_digit_def of_digit_char)

lemma to_dec_digits: "list_all is_digit (to_dec n)"
  by (induction n rule: to_dec.induct) (subst to_dec.simps, simp add: is_digit_char)

lemma dec_value_to_dec [simp]: "dec_value (to_dec n) = n"
proof (induction n rule: to_dec.induct)
  case (1 n)
  show ?case
  proof (cases "n < 10")
    case True
    then show ?thesis by (subst to_dec.simps) (simp add: dec_value_def of_digit_char)
  next
    case False
    with 1 have "dec_value (to_dec (n div 10)) = n div 10" by simp
    with False show ?thesis by (subst to_dec.simps) (simp add: dec_value_def of_digit_char)
  qed
qed

lemma to_dec_inject [simp]: "to_dec m = to_dec n \<longleftrightarrow> m = n"
  by (metis dec_value_to_dec)

subsection \<open>Lists\<close>

lemma sum_list_filter_split:
  "sum_list (map f xs) = sum_list (map f (filter P xs)) + sum_list (map f (filter (\<lambda>x. \<not> P x) xs))"
  for f :: "'a \<Rightarrow> int"
  by (induction xs) simp_all

lemma sum_list_map_nonneg: "(\<And>x. x \<in> set xs \<Longrightarrow> 0 \<le> f x) \<Longrightarrow> 0 \<le> sum_list (map f xs)"
  for f :: "'a \<Rightarrow> int"
  by (induction xs) simp_all

lemma sum_list_map_member_le:
  fixes f :: "'a \<Rightarrow> int"
  assumes "\<And>x. x \<in> set xs \<Longrightarrow> 0 \<le> f x" and "y \<in> set xs"
  shows "f y \<le> sum_list (map f xs)"
proof -
  obtain as bs where xs: "xs = as @ y # bs"
    using assms(2) by (meson split_list)
  have "0 \<le> sum_list (map f as)" and "0 \<le> sum_list (map f bs)"
    using assms(1) xs by (simp_all add: sum_list_map_nonneg)
  with xs show ?thesis by simp
qed

end
