(* ===== verification/FixedPointMath.thy ===== *)
theory FixedPointMath
  imports Prelude
begin

section \<open>Fixed-point arithmetic: checked, saturating and ratio operations\<close>

text \<open>
  The inline functions of \<open>engine/common/math/FixedPointMath.h\<close>, \<open>EdgeMath.h\<close>,
  \<open>RiskMath.h\<close> and \<open>BitmaskMath.h\<close>. A checked operation computes in 128 bits, writes its
  out-parameter only when the value fits into 64 bits and returns whether it did: the model
  returns \<open>Some\<close> of the value or \<open>None\<close>, and a caller that keeps the old value of the
  out-parameter on failure says so. Lemmas: each operation on every branch, the saturating
  operations as clamping, the rounding of the ratio and of the ceiling division, and what a
  successful edge computation means over the integers.
\<close>

subsection \<open>Checked operations\<close>

definition checked_add_i64 :: "i64 \<Rightarrow> i64 \<Rightarrow> i64 option" where
  "checked_add_i64 lhs rhs =
     (let value = lhs + rhs in
      if value > i64_max \<or> value < i64_min then None else Some value)"

definition checked_sub_i64 :: "i64 \<Rightarrow> i64 \<Rightarrow> i64 option" where
  "checked_sub_i64 lhs rhs =
     (let value = lhs - rhs in
      if value > i64_max \<or> value < i64_min then None else Some value)"

definition checked_mul_i64 :: "i64 \<Rightarrow> i64 \<Rightarrow> i64 option" where
  "checked_mul_i64 lhs rhs =
     (let value = lhs * rhs in
      if value > i64_max \<or> value < i64_min then None else Some value)"

subsection \<open>Saturating operations\<close>

definition saturating_add_i64 :: "i64 \<Rightarrow> i64 \<Rightarrow> i64" where
  "saturating_add_i64 lhs rhs =
     (case checked_add_i64 lhs rhs of
        Some out \<Rightarrow> out
      | None \<Rightarrow> if rhs \<ge> 0 then i64_max else i64_min)"

definition saturating_mul_i64 :: "i64 \<Rightarrow> i64 \<Rightarrow> i64" where
  "saturating_mul_i64 lhs rhs =
     (case checked_mul_i64 lhs rhs of
        Some out \<Rightarrow> out
      | None \<Rightarrow>
          let positive = (lhs \<ge> 0 \<and> rhs \<ge> 0) \<or> (lhs < 0 \<and> rhs < 0)
          in if positive then i64_max else i64_min)"

subsection \<open>Ceiling division and ratio in basis points\<close>

definition ceil_div_positive :: "i64 \<Rightarrow> i64 \<Rightarrow> i64" where
  "ceil_div_positive numerator denominator =
     (if denominator \<le> 0 then 0
      else let value = (numerator + denominator - 1) sdiv denominator
           in if value > i64_max then i64_max else wrap_i64 value)"

definition ratio_bps :: "i64 \<Rightarrow> i64 \<Rightarrow> i64" where
  "ratio_bps numerator denominator =
     (if denominator = 0 then
        if numerator > 0 then i64_max
        else if numerator < 0 then i64_min
        else 0
      else let value = (numerator * 10000) sdiv denominator
           in if value > i64_max then i64_max
              else if value < i64_min then i64_min
              else value)"

subsection \<open>EdgeMath.h\<close>

record EdgeMathInput =
  em_guaranteed_payout_tick :: i64
  em_total_cost_tick :: i64
  em_fee_tick :: i64
  em_latency_buffer_tick :: i64
  em_slippage_buffer_tick :: i64
  em_bundle_qty :: i64

record EdgeMathResult =
  em_ok :: bool
  em_unit_edge_tick :: i64
  em_total_edge_tick :: i64
  em_edge_bps :: i64

text \<open>
  The out-parameter of every subtraction is the result's field, so a failure leaves there the
  last value that fitted.
\<close>

definition edge_failed :: "i64 \<Rightarrow> EdgeMathResult" where
  "edge_failed unit_edge =
     \<lparr>em_ok = False, em_unit_edge_tick = unit_edge, em_total_edge_tick = 0, em_edge_bps = 0\<rparr>"

definition compute_edge :: "EdgeMathInput \<Rightarrow> EdgeMathResult" where
  "compute_edge input =
     (case checked_sub_i64 (em_guaranteed_payout_tick input) (em_total_cost_tick input) of
        None \<Rightarrow> edge_failed 0
      | Some u1 \<Rightarrow>
     (case checked_sub_i64 u1 (em_fee_tick input) of
        None \<Rightarrow> edge_failed u1
      | Some u2 \<Rightarrow>
     (case checked_sub_i64 u2 (em_latency_buffer_tick input) of
        None \<Rightarrow> edge_failed u2
      | Some u3 \<Rightarrow>
     (case checked_sub_i64 u3 (em_slippage_buffer_tick input) of
        None \<Rightarrow> edge_failed u3
      | Some u4 \<Rightarrow>
     (case checked_mul_i64 u4 (em_bundle_qty input) of
        None \<Rightarrow> edge_failed u4
      | Some total_edge \<Rightarrow>
          \<lparr>em_ok = True, em_unit_edge_tick = u4, em_total_edge_tick = total_edge,
           em_edge_bps = ratio_bps u4 (em_total_cost_tick input)\<rparr>)))))"

subsection \<open>RiskMath.h\<close>

record RiskEdgeMathInput =
  rm_guaranteed_payout_per_bundle_tick :: i64
  rm_risk_bundle_qty :: i64
  rm_risk_total_cost_tick :: i64
  rm_fee_tick :: i64
  rm_slippage_buffer_tick :: i64
  rm_latency_buffer_tick :: i64

record RiskEdgeMathResult =
  rm_ok :: bool
  rm_post_risk_edge_tick :: i64
  rm_unit_edge_tick :: i64
  rm_edge_bps :: i64

definition risk_edge_failed :: "i64 \<Rightarrow> RiskEdgeMathResult" where
  "risk_edge_failed post_risk_edge =
     \<lparr>rm_ok = False, rm_post_risk_edge_tick = post_risk_edge, rm_unit_edge_tick = 0,
      rm_edge_bps = 0\<rparr>"

definition compute_post_risk_edge :: "RiskEdgeMathInput \<Rightarrow> RiskEdgeMathResult" where
  "compute_post_risk_edge input =
     (if rm_risk_bundle_qty input \<le> 0 then risk_edge_failed 0
      else
     (case checked_mul_i64 (rm_guaranteed_payout_per_bundle_tick input)
             (rm_risk_bundle_qty input) of
        None \<Rightarrow> risk_edge_failed 0
      | Some e1 \<Rightarrow>
     (case checked_sub_i64 e1 (rm_risk_total_cost_tick input) of
        None \<Rightarrow> risk_edge_failed e1
      | Some e2 \<Rightarrow>
     (case checked_sub_i64 e2 (rm_fee_tick input) of
        None \<Rightarrow> risk_edge_failed e2
      | Some e3 \<Rightarrow>
     (case checked_sub_i64 e3 (rm_slippage_buffer_tick input) of
        None \<Rightarrow> risk_edge_failed e3
      | Some e4 \<Rightarrow>
     (case checked_sub_i64 e4 (rm_latency_buffer_tick input) of
        None \<Rightarrow> risk_edge_failed e4
      | Some e5 \<Rightarrow>
          \<lparr>rm_ok = True, rm_post_risk_edge_tick = e5,
           rm_unit_edge_tick = e5 sdiv rm_risk_bundle_qty input,
           rm_edge_bps = ratio_bps e5 (rm_risk_total_cost_tick input)\<rparr>))))))"

subsection \<open>BitmaskMath.h\<close>

unbundle bit_operations_syntax

definition bitmask_has_conflict :: "u64 \<Rightarrow> u64 \<Rightarrow> bool" where
  "bitmask_has_conflict true_mask false_mask \<longleftrightarrow> true_mask AND false_mask \<noteq> 0"

definition bitmask_satisfies_required :: "u64 \<Rightarrow> u64 \<Rightarrow> u64 \<Rightarrow> u64 \<Rightarrow> bool" where
  "bitmask_satisfies_required state_true state_false required_true required_false \<longleftrightarrow>
     state_true AND required_true = required_true \<and>
     state_false AND required_false = required_false"

definition bitmask_without_invalid :: "u64 \<Rightarrow> u64 \<Rightarrow> u64" where
  "bitmask_without_invalid m invalid_mask = m AND NOT invalid_mask"

subsection \<open>The operations on every branch\<close>

lemma checked_add_i64_Some [simp, i64_simps]:
  "checked_add_i64 a b = Some c \<longleftrightarrow> c = a + b \<and> in_i64 (a + b)"
  by (auto simp: checked_add_i64_def in_i64_def Let_def)

lemma checked_add_i64_None [simp, i64_simps]:
  "checked_add_i64 a b = None \<longleftrightarrow> \<not> in_i64 (a + b)"
  by (auto simp: checked_add_i64_def in_i64_def Let_def)

lemma checked_sub_i64_Some [simp, i64_simps]:
  "checked_sub_i64 a b = Some c \<longleftrightarrow> c = a - b \<and> in_i64 (a - b)"
  by (auto simp: checked_sub_i64_def in_i64_def Let_def)

lemma checked_sub_i64_None [simp, i64_simps]:
  "checked_sub_i64 a b = None \<longleftrightarrow> \<not> in_i64 (a - b)"
  by (auto simp: checked_sub_i64_def in_i64_def Let_def)

lemma checked_mul_i64_Some [simp, i64_simps]:
  "checked_mul_i64 a b = Some c \<longleftrightarrow> c = a * b \<and> in_i64 (a * b)"
  by (auto simp: checked_mul_i64_def in_i64_def Let_def)

lemma checked_mul_i64_None [simp, i64_simps]:
  "checked_mul_i64 a b = None \<longleftrightarrow> \<not> in_i64 (a * b)"
  by (auto simp: checked_mul_i64_def in_i64_def Let_def)

definition clamp_i64 :: "int \<Rightarrow> int" where
  "clamp_i64 x = max i64_min (min i64_max x)"

lemma in_i64_clamp [simp, i64_simps]: "in_i64 (clamp_i64 x)"
  by (simp add: clamp_i64_def in_i64_def i64_bounds)

lemma clamp_i64_id [i64_simps]: "in_i64 x \<Longrightarrow> clamp_i64 x = x"
  by (simp add: clamp_i64_def in_i64_def)

lemma clamp_i64_mono: "x \<le> y \<Longrightarrow> clamp_i64 x \<le> clamp_i64 y"
  by (auto simp: clamp_i64_def)

lemma saturating_add_clamps:
  assumes "in_i64 a" "in_i64 b"
  shows "saturating_add_i64 a b = clamp_i64 (a + b)"
  using assms
  by (auto simp: saturating_add_i64_def clamp_i64_def in_i64_def i64_bounds split: option.split)

lemma saturating_mul_clamps: "saturating_mul_i64 a b = clamp_i64 (a * b)"
proof (cases "in_i64 (a * b)")
  case True
  then show ?thesis by (auto simp: saturating_mul_i64_def clamp_i64_id split: option.split)
next
  case False
  note out_of_range = this
  show ?thesis
  proof (cases "(a \<ge> 0 \<and> b \<ge> 0) \<or> (a < 0 \<and> b < 0)")
    case True
    then have "0 \<le> a * b" by (auto simp: zero_le_mult_iff)
    with False have "i64_max < a * b" by (auto simp: in_i64_def i64_bounds)
    with True out_of_range show ?thesis
      by (auto simp: saturating_mul_i64_def clamp_i64_def i64_bounds Let_def split: option.split)
  next
    case neg: False
    then have "a * b \<le> 0" by (auto simp: mult_le_0_iff)
    with False have "a * b < i64_min" by (auto simp: in_i64_def i64_bounds)
    with neg out_of_range show ?thesis
      by (auto simp: saturating_mul_i64_def clamp_i64_def i64_bounds Let_def split: option.split)
  qed
qed


subsection \<open>Rounding of the quotients\<close>

lemma ceil_div_positive_bounds:
  assumes "0 \<le> n" "n \<le> i64_max" "0 < d"
  shows "n \<le> ceil_div_positive n d * d" and "(ceil_div_positive n d - 1) * d < n"
    and "0 \<le> ceil_div_positive n d" and "ceil_div_positive n d \<le> n"
proof -
  define q where "q = (n + d - 1) div d"
  have lo: "q * d \<le> n + d - 1" and hi: "n + d - 1 < (q + 1) * d"
    using le_div_iff_mult_le [OF assms(3), of q "n + d - 1"]
      le_div_iff_mult_le [OF assms(3), of "q + 1" "n + d - 1"]
    by (simp_all add: q_def)
  have nonneg: "0 \<le> q" using assms unfolding q_def by (simp add: pos_imp_zdiv_nonneg_iff)
  have le: "q \<le> n"
  proof (cases "n = 0")
    case True
    then show ?thesis using assms(3) by (simp add: q_def zdiv_eq_0_iff)
  next
    case False
    have "n + d - 1 \<le> n * d"
    proof -
      have "0 \<le> (n - 1) * (d - 1)" using False assms by simp
      then show ?thesis by (simp add: algebra_simps)
    qed
    then have "q \<le> (n * d) div d" unfolding q_def using assms(3) by (rule zdiv_mono1)
    then show ?thesis using assms(3) by simp
  qed
  have "ceil_div_positive n d = q"
  proof -
    have "(n + d - 1) sdiv d = q" using assms by (simp add: q_def sdiv_nonneg)
    moreover have "in_i64 q" using nonneg le assms(2) by (simp add: in_i64_nonneg)
    ultimately show ?thesis
      using assms(3) by (auto simp: ceil_div_positive_def Let_def wrap_i64_id in_i64_def)
  qed
  then show "n \<le> ceil_div_positive n d * d" and "(ceil_div_positive n d - 1) * d < n"
    and "0 \<le> ceil_div_positive n d" and "ceil_div_positive n d \<le> n"
    using lo hi nonneg le by (simp_all add: algebra_simps)
qed

lemma sdiv_error: "0 < b \<Longrightarrow> \<bar>a - (a sdiv b) * b\<bar> < b" for a b :: int
proof -
  assume b: "0 < b"
  have "0 \<le> x - (x div b) * b \<and> x - (x div b) * b < b" for x
    using b by (simp add: minus_div_mult_eq_mod)
  from this [of a] this [of "- a"] show ?thesis
    by (auto simp: sdiv_pos_den [OF b])
qed

lemma sdiv_sign: "0 < b \<Longrightarrow> 0 \<le> a \<Longrightarrow> 0 \<le> a sdiv b" "0 < b \<Longrightarrow> a \<le> 0 \<Longrightarrow> a sdiv b \<le> 0"
  for a b :: int
  by (simp_all add: sdiv_pos_den pos_imp_zdiv_nonneg_iff)

lemma in_i64_ratio_bps [simp, i64_simps]: "in_i64 (ratio_bps n d)"
  by (simp add: ratio_bps_def Let_def in_i64_def i64_bounds)

lemma ratio_bps_exact:
  assumes "0 < d" and "in_i64 ((n * 10000) sdiv d)"
  shows "ratio_bps n d = (n * 10000) sdiv d"
  using assms by (auto simp: ratio_bps_def in_i64_def Let_def)

lemma ratio_bps_ge_iff:
  assumes "0 < d" and "0 < t" and "in_i64 t"
  shows "t \<le> ratio_bps n d \<longleftrightarrow> t * d \<le> n * 10000"
proof (cases "0 \<le> n")
  case True
  then have eq: "(n * 10000) sdiv d = (n * 10000) div d"
    using assms(1) by (simp add: sdiv_nonneg)
  have "t \<le> (n * 10000) div d \<longleftrightarrow> t * d \<le> n * 10000"
    using assms(1) by (rule le_div_iff_mult_le)
  moreover have "0 \<le> (n * 10000) div d" using True assms(1) by (simp add: pos_imp_zdiv_nonneg_iff)
  ultimately show ?thesis using assms eq
    by (auto simp: ratio_bps_def Let_def in_i64_def i64_bounds)
next
  case False
  then have "(n * 10000) sdiv d \<le> 0" using sdiv_sign(2) [OF assms(1), of "n * 10000"] by simp
  moreover have "n * 10000 < t * d"
    using False mult_pos_pos [OF assms(2,1)] by linarith
  ultimately show ?thesis using assms False
    by (auto simp: ratio_bps_def Let_def in_i64_def i64_bounds)
qed

subsection \<open>What a successful edge computation means\<close>

lemma compute_edge_ok_iff:
  "em_ok (compute_edge i) \<longleftrightarrow>
     (let u1 = em_guaranteed_payout_tick i - em_total_cost_tick i; u2 = u1 - em_fee_tick i;
          u3 = u2 - em_latency_buffer_tick i; u4 = u3 - em_slippage_buffer_tick i
      in in_i64 u1 \<and> in_i64 u2 \<and> in_i64 u3 \<and> in_i64 u4 \<and> in_i64 (u4 * em_bundle_qty i))"
  by (auto simp: compute_edge_def edge_failed_def Let_def split: option.split)

lemma compute_edge_values:
  assumes "em_ok (compute_edge i)"
  shows "em_unit_edge_tick (compute_edge i) =
      em_guaranteed_payout_tick i - em_total_cost_tick i - em_fee_tick i
      - em_latency_buffer_tick i - em_slippage_buffer_tick i"
    and "em_total_edge_tick (compute_edge i) =
      em_unit_edge_tick (compute_edge i) * em_bundle_qty i"
  using assms by (auto simp: compute_edge_def edge_failed_def split: option.splits)

lemma compute_post_risk_edge_ok_iff:
  "rm_ok (compute_post_risk_edge i) \<longleftrightarrow>
     (let e1 = rm_guaranteed_payout_per_bundle_tick i * rm_risk_bundle_qty i;
          e2 = e1 - rm_risk_total_cost_tick i; e3 = e2 - rm_fee_tick i;
          e4 = e3 - rm_slippage_buffer_tick i; e5 = e4 - rm_latency_buffer_tick i
      in 0 < rm_risk_bundle_qty i \<and>
         in_i64 e1 \<and> in_i64 e2 \<and> in_i64 e3 \<and> in_i64 e4 \<and> in_i64 e5)"
  by (auto simp: compute_post_risk_edge_def risk_edge_failed_def Let_def split: option.split)

lemma compute_post_risk_edge_values:
  assumes "rm_ok (compute_post_risk_edge i)"
  shows "rm_post_risk_edge_tick (compute_post_risk_edge i) =
      rm_guaranteed_payout_per_bundle_tick i * rm_risk_bundle_qty i - rm_risk_total_cost_tick i
      - rm_fee_tick i - rm_slippage_buffer_tick i - rm_latency_buffer_tick i"
    and "rm_unit_edge_tick (compute_post_risk_edge i) =
      rm_post_risk_edge_tick (compute_post_risk_edge i) sdiv rm_risk_bundle_qty i"
    and "rm_edge_bps (compute_post_risk_edge i) =
      ratio_bps (rm_post_risk_edge_tick (compute_post_risk_edge i)) (rm_risk_total_cost_tick i)"
  using assms by (auto simp: compute_post_risk_edge_def risk_edge_failed_def split: option.splits if_splits)

end
