(* ===== verification/OrderDecisionTypes.thy ===== *)
theory OrderDecisionTypes
  imports RiskTypes
begin

section \<open>Order decisions and approved envelopes\<close>

text \<open>
  \<open>engine/risk/public/ApprovedIntent.h\<close>, \<open>engine/order_decision/public\<close>
  (\<open>OrderDecisionTypes.h\<close>, \<open>OrderDecision.h\<close>, \<open>OrderDecision.cpp\<close>,
  \<open>ApprovedOrderDecisionEnvelope.h\<close>) and the hash mixing of
  \<open>order_decision/math/OrderDecisionMath.h\<close>: the sized decision that leaves the order-decision
  stage, the hash that seals it and the envelope that binds it to the risk approval. An
  enumerator cast to an integer is its position in the enumeration.
\<close>

subsection \<open>Approved intents\<close>

record ApprovedIntent =
  ai_intent :: OpportunityIntent
  ai_decision :: RiskDecision
  ai_reservation_id :: string
  ai_reservation_id_hash :: u64
  ai_approved_at_ns :: u64
  ai_expires_at_ns :: u64

definition has_reservation :: "ApprovedIntent \<Rightarrow> bool" where
  "has_reservation a \<longleftrightarrow> ai_reservation_id_hash a \<noteq> 0 \<or> ai_reservation_id a \<noteq> []"

definition approved_valid :: "ApprovedIntent \<Rightarrow> bool" where
  "approved_valid a \<longleftrightarrow> approved (ai_decision a) \<and> has_reservation a"

subsection \<open>Decisions\<close>

definition kMaxOrderDecisionLegs :: nat where
  "kMaxOrderDecisionLegs = 16"

datatype OrderDecisionType =
    NoTrade | PaperOrderDecision | RejectNoDepth | RejectLowEdge | RejectInvalidBundle
  | RejectUnsupportedSide | RejectRiskBudget | RejectPartialFillRisk | RejectExpiredIntent
  | RejectPriceProtection | RejectInternalError

record OrderDecisionLeg =
  dl_market_id :: string
  dl_asset_id :: string
  dl_market_index :: u32
  dl_asset_index :: u32
  dl_side :: Side
  dl_quantity_lots :: i64
  dl_estimated_vwap_tick :: i64
  dl_limit_price_tick :: i64
  dl_worst_price_tick :: i64
  dl_estimated_cost_tick :: i64

record OrderDecisionLegLite =
  ll_market_index :: u32
  ll_asset_index :: u32
  ll_side :: Side
  ll_quantity_lots :: i64
  ll_estimated_vwap_tick :: i64
  ll_limit_price_tick :: i64
  ll_worst_price_tick :: i64
  ll_estimated_cost_tick :: i64

record OrderDecisionLite =
  ol_decision_id :: u64
  ol_source_intent_id :: u64
  ol_bundle_id :: u64
  ol_type :: OrderDecisionType
  ol_chosen_bundle_qty :: i64
  ol_guaranteed_payout_tick :: i64
  ol_estimated_total_cost_tick :: i64
  ol_estimated_fee_tick :: i64
  ol_latency_buffer_tick :: i64
  ol_slippage_buffer_tick :: i64
  ol_unit_edge_tick :: i64
  ol_total_edge_tick :: i64
  ol_edge_bps :: i64
  ol_leg_count :: nat
  ol_legs :: "OrderDecisionLegLite list"
  ol_snapshot_version_hash :: u64
  ol_oracle_artifact_hash :: u64
  ol_bundle_hash :: u64
  ol_policy_hash :: u64
  ol_created_ts_ns :: u64
  ol_expires_at_ns :: u64
  ol_decision_hash :: u64

record OrderDecision =
  od_decision_id :: u64
  od_source_intent_id :: u64
  od_bundle_id :: u64
  od_type :: OrderDecisionType
  od_chosen_bundle_qty :: i64
  od_guaranteed_payout_tick :: i64
  od_estimated_total_cost_tick :: i64
  od_estimated_fee_tick :: i64
  od_latency_buffer_tick :: i64
  od_slippage_buffer_tick :: i64
  od_unit_edge_tick :: i64
  od_total_edge_tick :: i64
  od_edge_bps :: i64
  od_leg_count :: nat
  od_legs :: "OrderDecisionLeg list"
  od_snapshot_version_hash :: u64
  od_oracle_artifact_hash :: u64
  od_bundle_hash :: u64
  od_policy_hash :: u64
  od_created_ts_ns :: u64
  od_expires_at_ns :: u64
  od_decision_hash :: u64
  od_reason :: string

definition lite_legs :: "OrderDecisionLite \<Rightarrow> OrderDecisionLegLite list" where
  "lite_legs decision = take (ol_leg_count decision) (ol_legs decision)"

definition leg_lite :: "OrderDecisionLeg \<Rightarrow> OrderDecisionLegLite" where
  "leg_lite leg =
     \<lparr>ll_market_index = dl_market_index leg, ll_asset_index = dl_asset_index leg,
      ll_side = dl_side leg, ll_quantity_lots = dl_quantity_lots leg,
      ll_estimated_vwap_tick = dl_estimated_vwap_tick leg,
      ll_limit_price_tick = dl_limit_price_tick leg,
      ll_worst_price_tick = dl_worst_price_tick leg,
      ll_estimated_cost_tick = dl_estimated_cost_tick leg\<rparr>"

definition default_leg_lite :: OrderDecisionLegLite where
  "default_leg_lite =
     \<lparr>ll_market_index = 0, ll_asset_index = 0, ll_side = Buy, ll_quantity_lots = 0,
      ll_estimated_vwap_tick = 0, ll_limit_price_tick = 0, ll_worst_price_tick = 0,
      ll_estimated_cost_tick = 0\<rparr>"

definition to_order_decision_lite :: "OrderDecision \<Rightarrow> OrderDecisionLite" where
  "to_order_decision_lite d =
     \<lparr>ol_decision_id = od_decision_id d, ol_source_intent_id = od_source_intent_id d,
      ol_bundle_id = od_bundle_id d, ol_type = od_type d,
      ol_chosen_bundle_qty = od_chosen_bundle_qty d,
      ol_guaranteed_payout_tick = od_guaranteed_payout_tick d,
      ol_estimated_total_cost_tick = od_estimated_total_cost_tick d,
      ol_estimated_fee_tick = od_estimated_fee_tick d,
      ol_latency_buffer_tick = od_latency_buffer_tick d,
      ol_slippage_buffer_tick = od_slippage_buffer_tick d,
      ol_unit_edge_tick = od_unit_edge_tick d, ol_total_edge_tick = od_total_edge_tick d,
      ol_edge_bps = od_edge_bps d, ol_leg_count = od_leg_count d,
      ol_legs = map leg_lite (take (od_leg_count d) (od_legs d)) @
        replicate (kMaxOrderDecisionLegs - od_leg_count d) default_leg_lite,
      ol_snapshot_version_hash = od_snapshot_version_hash d,
      ol_oracle_artifact_hash = od_oracle_artifact_hash d,
      ol_bundle_hash = od_bundle_hash d, ol_policy_hash = od_policy_hash d,
      ol_created_ts_ns = od_created_ts_ns d, ol_expires_at_ns = od_expires_at_ns d,
      ol_decision_hash = od_decision_hash d\<rparr>"

subsection \<open>Hashes\<close>

fun decision_type_code :: "OrderDecisionType \<Rightarrow> u64" where
  "decision_type_code NoTrade = 0"
| "decision_type_code PaperOrderDecision = 1"
| "decision_type_code RejectNoDepth = 2"
| "decision_type_code RejectLowEdge = 3"
| "decision_type_code RejectInvalidBundle = 4"
| "decision_type_code RejectUnsupportedSide = 5"
| "decision_type_code RejectRiskBudget = 6"
| "decision_type_code RejectPartialFillRisk = 7"
| "decision_type_code RejectExpiredIntent = 8"
| "decision_type_code RejectPriceProtection = 9"
| "decision_type_code RejectInternalError = 10"

fun side_code :: "Side \<Rightarrow> u64" where
  "side_code Buy = 0"
| "side_code Sell = 1"

fun decision_status_code :: "RiskDecisionStatus \<Rightarrow> u64" where
  "decision_status_code DecisionRejected = 0"
| "decision_status_code DecisionApproved = 1"

fun reject_reason_code :: "RiskRejectReason \<Rightarrow> u64" where
  "reject_reason_code RR_None = 0"
| "reject_reason_code NotEvaluated = 1"
| "reject_reason_code RiskDisabled = 2"
| "reject_reason_code KillSwitch = 3"
| "reject_reason_code LowTotalEdge = 4"
| "reject_reason_code LowUnitEdge = 5"
| "reject_reason_code LowEdgeBps = 6"
| "reject_reason_code CostLimit = 7"
| "reject_reason_code SingleMarketExposureLimit = 8"
| "reject_reason_code TotalExposureLimit = 9"
| "reject_reason_code InventoryLimit = 10"
| "reject_reason_code BadMarketState = 11"
| "reject_reason_code StaleBook = 12"
| "reject_reason_code ExpiredIntent = 13"
| "reject_reason_code SnapshotSkew = 14"
| "reject_reason_code CostDrift = 15"
| "reject_reason_code SlippageLimit = 16"
| "reject_reason_code PendingIntentLimit = 17"
| "reject_reason_code ApprovalRateLimit = 18"
| "reject_reason_code MissingReservation = 19"
| "reject_reason_code InvalidIntent = 20"
| "reject_reason_code MissingEvidence = 21"
| "reject_reason_code DuplicateIntent = 22"
| "reject_reason_code DuplicateReservation = 23"
| "reject_reason_code PartialFillRisk = 24"
| "reject_reason_code InternalError = 25"

definition mix_i64 :: "i64 \<Rightarrow> u64 \<Rightarrow> u64" where
  "mix_i64 value hash = fnv_u64 (word_of_int value) hash"

definition nonzero_hash :: "u64 \<Rightarrow> u64" where
  "nonzero_hash hash = (if hash = 0 then 1 else hash)"

definition mix_leg :: "u64 \<Rightarrow> OrderDecisionLegLite \<Rightarrow> u64" where
  "mix_leg hash leg =
     mix_i64 (ll_estimated_cost_tick leg)
     (mix_i64 (ll_worst_price_tick leg)
     (mix_i64 (ll_limit_price_tick leg)
     (mix_i64 (ll_estimated_vwap_tick leg)
     (mix_i64 (ll_quantity_lots leg)
     (fnv_u64 (side_code (ll_side leg))
     (fnv_u64 (ucast (ll_asset_index leg))
     (fnv_u64 (ucast (ll_market_index leg)) hash)))))))"

definition compute_order_decision_hash :: "OrderDecisionLite \<Rightarrow> u64" where
  "compute_order_decision_hash d =
     nonzero_hash
      (foldl mix_leg
        (fnv_u64 (of_nat (ol_leg_count d))
        (fnv_u64 (ol_expires_at_ns d)
        (fnv_u64 (ol_created_ts_ns d)
        (fnv_u64 (ol_policy_hash d)
        (fnv_u64 (ol_bundle_hash d)
        (fnv_u64 (ol_oracle_artifact_hash d)
        (fnv_u64 (ol_snapshot_version_hash d)
        (mix_i64 (ol_edge_bps d)
        (mix_i64 (ol_total_edge_tick d)
        (mix_i64 (ol_unit_edge_tick d)
        (mix_i64 (ol_slippage_buffer_tick d)
        (mix_i64 (ol_latency_buffer_tick d)
        (mix_i64 (ol_estimated_fee_tick d)
        (mix_i64 (ol_estimated_total_cost_tick d)
        (mix_i64 (ol_guaranteed_payout_tick d)
        (mix_i64 (ol_chosen_bundle_qty d)
        (fnv_u64 (decision_type_code (ol_type d))
        (fnv_u64 (ol_bundle_id d)
        (fnv_u64 (ol_source_intent_id d) fnv_offset)))))))))))))))))))
        (lite_legs d))"

definition compute_order_decision_hash_full :: "OrderDecision \<Rightarrow> u64" where
  "compute_order_decision_hash_full d = compute_order_decision_hash (to_order_decision_lite d)"

definition compute_approved_intent_hash :: "ApprovedIntent \<Rightarrow> u64" where
  "compute_approved_intent_hash a =
     nonzero_hash
      (fnv_u64 (ai_expires_at_ns a)
      (fnv_u64 (ai_approved_at_ns a)
      (fnv_u64 (ai_reservation_id_hash a)
      (fnv_u64 (reject_reason_code (rd_reject_reason (ai_decision a)))
      (fnv_u64 (decision_status_code (rd_status (ai_decision a)))
      (fnv_u64 (rd_idempotency_hash (ai_decision a))
      (fnv_u64 (rd_bundle_id (ai_decision a))
      (fnv_u64 (rd_intent_id (ai_decision a))
      (fnv_u64 (rd_decision_id (ai_decision a))
      (fnv_u64 (oi_idempotency_hash (ai_intent a))
      (fnv_u64 (oi_bundle_id (ai_intent a))
      (fnv_u64 (oi_intent_id (ai_intent a)) fnv_offset))))))))))))"

subsection \<open>The envelope\<close>

record ApprovedOrderDecisionEnvelope =
  ae_approved :: ApprovedIntent
  ae_decision :: OrderDecisionLite
  ae_source_intent_id :: u64
  ae_bundle_id :: u64
  ae_decision_hash :: u64
  ae_approval_hash :: u64
  ae_created_ts_ns :: u64

definition make_approved_order_decision_envelope ::
  "ApprovedIntent \<Rightarrow> OrderDecisionLite \<Rightarrow> u64 \<Rightarrow> ApprovedOrderDecisionEnvelope" where
  "make_approved_order_decision_envelope a d created_ts_ns =
     \<lparr>ae_approved = a, ae_decision = d, ae_source_intent_id = ol_source_intent_id d,
      ae_bundle_id = ol_bundle_id d, ae_decision_hash = ol_decision_hash d,
      ae_approval_hash = compute_approved_intent_hash a, ae_created_ts_ns = created_ts_ns\<rparr>"

lemma nonzero_hash_nonzero [simp]: "nonzero_hash h \<noteq> 0"
  by (simp add: nonzero_hash_def)

lemma to_lite_legs:
  "od_leg_count d \<le> length (od_legs d) \<Longrightarrow>
   lite_legs (to_order_decision_lite d) = map leg_lite (take (od_leg_count d) (od_legs d))"
  by (simp add: lite_legs_def to_order_decision_lite_def)

end
