(* ===== verification/RiskPolicy.thy ===== *)
theory RiskPolicy
  imports RiskTypes FixedPointMath OrderDecisionTypes "HOL-Library.Log_Nat"
begin

section \<open>The risk policy\<close>

text \<open>
  \<open>engine/risk/public/RiskPolicySnapshot.h\<close> with the policy hash, the decision types of
  \<open>RiskTypes.h\<close>, \<open>passes_edge_thresholds\<close> of \<open>RiskMath.h\<close> and the effective depth margin
  of \<open>engine/risk/guards/PartialFillGuard.cpp\<close>. The policy's only double, the depth margin
  ratio, is kept as its 64-bit pattern, which is what the hash mixes; its value is decoded
  where the guard computes with it. Lemmas: the default policy's margin, bounds of the margin.
\<close>

subsection \<open>Decision types\<close>

text \<open>\<open>Approve\<close> is an alias of \<open>Pass\<close> in the source.\<close>

datatype RiskDecisionType =
    DT_Pass | RejectKillSwitch | RejectExpiredIntent | RejectDuplicateIntent | RejectRateLimited
  | RejectBadMarketState | RejectStaleSnapshot | RejectInsufficientDepth | RejectCostDrift
  | RejectReducedBundleQty | RejectLowTotalEdge | RejectLowUnitEdge | RejectLowEdgeBps
  | RejectCostLimit | RejectTotalExposureLimit | RejectSingleMarketExposureLimit
  | RejectInventoryLimit | RejectPartialFillRisk | RejectInternalError

fun decision_type_value :: "RiskDecisionType \<Rightarrow> u64" where
  "decision_type_value DT_Pass = 0"
| "decision_type_value RejectKillSwitch = 1"
| "decision_type_value RejectExpiredIntent = 2"
| "decision_type_value RejectDuplicateIntent = 3"
| "decision_type_value RejectRateLimited = 4"
| "decision_type_value RejectBadMarketState = 5"
| "decision_type_value RejectStaleSnapshot = 6"
| "decision_type_value RejectInsufficientDepth = 7"
| "decision_type_value RejectCostDrift = 8"
| "decision_type_value RejectReducedBundleQty = 9"
| "decision_type_value RejectLowTotalEdge = 10"
| "decision_type_value RejectLowUnitEdge = 11"
| "decision_type_value RejectLowEdgeBps = 12"
| "decision_type_value RejectCostLimit = 13"
| "decision_type_value RejectTotalExposureLimit = 14"
| "decision_type_value RejectSingleMarketExposureLimit = 15"
| "decision_type_value RejectInventoryLimit = 16"
| "decision_type_value RejectPartialFillRisk = 17"
| "decision_type_value RejectInternalError = 18"

datatype RiskVWAPMode = ReusedSignalCost | ReuseSignalSnapshot | RecomputedFromSnapshot

subsection \<open>Policies\<close>

record QuoteRiskPolicy =
  qp_quote_risk_enabled :: bool
  qp_quote_kill_switch_enabled :: bool
  qp_max_quote_qty_lots :: i64
  qp_max_quote_notional_tick :: i64
  qp_max_asset_inventory_lots :: i64
  qp_min_edge_to_fair_tick :: i64
  qp_min_book_spread_tick :: i64
  qp_max_book_spread_tick :: i64
  qp_max_book_spread_bps :: i64
  qp_max_quote_fair_deviation_tick :: i64
  qp_max_quote_fair_deviation_bps :: i64
  qp_max_canonical_yes_exposure_lots :: i64
  qp_max_portfolio_touch_exposure_lots :: i64
  qp_max_spot_age_ms :: u64
  qp_max_vol_age_ms :: u64
  qp_min_external_confidence_bps :: i64
  qp_max_quote_age_ns :: u64
  qp_max_book_age_ns :: u64
  qp_min_replace_interval_ns :: u64
  qp_max_active_quotes_per_asset :: u32
  qp_allow_bid_quotes :: bool
  qp_allow_ask_quotes :: bool
  qp_reward_eligibility_required :: bool
  qp_reward_max_spread_tick :: i64
  qp_reward_min_quote_size_lots :: i64
  qp_allow_reward_exemption_for_reduce_only :: bool

definition default_quote_policy :: QuoteRiskPolicy where
  "default_quote_policy =
     \<lparr>qp_quote_risk_enabled = True, qp_quote_kill_switch_enabled = False,
      qp_max_quote_qty_lots = 0, qp_max_quote_notional_tick = 0, qp_max_asset_inventory_lots = 0,
      qp_min_edge_to_fair_tick = 0, qp_min_book_spread_tick = 0, qp_max_book_spread_tick = 0,
      qp_max_book_spread_bps = 0, qp_max_quote_fair_deviation_tick = 0,
      qp_max_quote_fair_deviation_bps = 0, qp_max_canonical_yes_exposure_lots = 0,
      qp_max_portfolio_touch_exposure_lots = 0, qp_max_spot_age_ms = 1500,
      qp_max_vol_age_ms = 60000, qp_min_external_confidence_bps = 0,
      qp_max_quote_age_ns = 1000000000, qp_max_book_age_ns = 1000000000,
      qp_min_replace_interval_ns = 100000000, qp_max_active_quotes_per_asset = 2,
      qp_allow_bid_quotes = True, qp_allow_ask_quotes = True,
      qp_reward_eligibility_required = False, qp_reward_max_spread_tick = 0,
      qp_reward_min_quote_size_lots = 0, qp_allow_reward_exemption_for_reduce_only = True\<rparr>"

record RiskPolicySnapshot =
  rp_policy_version :: u64
  rp_policy_hash :: u64
  rp_risk_enabled :: bool
  rp_kill_switch_enabled :: bool
  rp_min_post_risk_total_edge_tick :: i64
  rp_min_post_risk_unit_edge_tick :: i64
  rp_min_edge_bps :: i64
  rp_max_total_cost_tick :: i64
  rp_max_single_market_exposure_tick :: i64
  rp_max_total_exposure_tick :: i64
  rp_max_inventory_lots_per_asset :: i64
  rp_max_book_age_ns :: i64
  rp_max_intent_age_ns :: i64
  rp_max_snapshot_skew_ns :: i64
  rp_max_allowed_cost_drift_tick :: i64
  rp_max_slippage_tick :: i64
  rp_max_unhedged_loss_tick :: i64
  rp_min_depth_margin_ratio :: u64
  rp_min_depth_margin_bps :: i64
  rp_max_pending_intents_per_bundle :: u32
  rp_max_pending_intents_total :: u32
  rp_max_approvals_per_second :: u32
  rp_quote_risk :: QuoteRiskPolicy

text \<open>The bit pattern of the double \<open>1.20\<close>.\<close>

definition kDefaultRatio :: u64 where
  "kDefaultRatio = 0x3FF3333333333333"

definition default_policy :: RiskPolicySnapshot where
  "default_policy =
     \<lparr>rp_policy_version = 1, rp_policy_hash = 0, rp_risk_enabled = True,
      rp_kill_switch_enabled = False, rp_min_post_risk_total_edge_tick = 0,
      rp_min_post_risk_unit_edge_tick = 0, rp_min_edge_bps = 0, rp_max_total_cost_tick = 0,
      rp_max_single_market_exposure_tick = 0, rp_max_total_exposure_tick = 0,
      rp_max_inventory_lots_per_asset = 0, rp_max_book_age_ns = 1000000000,
      rp_max_intent_age_ns = 1000000000, rp_max_snapshot_skew_ns = 0,
      rp_max_allowed_cost_drift_tick = 0, rp_max_slippage_tick = 0, rp_max_unhedged_loss_tick = 0,
      rp_min_depth_margin_ratio = kDefaultRatio, rp_min_depth_margin_bps = 12000,
      rp_max_pending_intents_per_bundle = 1, rp_max_pending_intents_total = 1024,
      rp_max_approvals_per_second = 100, rp_quote_risk = default_quote_policy\<rparr>"

definition mix_bool :: "bool \<Rightarrow> u64 \<Rightarrow> u64" where
  "mix_bool value hash = fnv_byte hash (if value then 1 else 0)"

definition mix_u32 :: "u32 \<Rightarrow> u64 \<Rightarrow> u64" where
  "mix_u32 value hash = fnv_u64 (ucast value) hash"

definition mix_double :: "u64 \<Rightarrow> u64 \<Rightarrow> u64" where
  "mix_double pattern hash = fnv_u64 pattern hash"

definition mix_quote_policy :: "QuoteRiskPolicy \<Rightarrow> (u64 \<Rightarrow> u64) list" where
  "mix_quote_policy q =
     [mix_bool (qp_quote_risk_enabled q), mix_bool (qp_quote_kill_switch_enabled q),
      mix_i64 (qp_max_quote_qty_lots q), mix_i64 (qp_max_quote_notional_tick q),
      mix_i64 (qp_max_asset_inventory_lots q), mix_i64 (qp_min_edge_to_fair_tick q),
      mix_i64 (qp_min_book_spread_tick q), mix_i64 (qp_max_book_spread_tick q),
      mix_i64 (qp_max_book_spread_bps q), mix_i64 (qp_max_quote_fair_deviation_tick q),
      mix_i64 (qp_max_quote_fair_deviation_bps q), mix_i64 (qp_max_canonical_yes_exposure_lots q),
      mix_i64 (qp_max_portfolio_touch_exposure_lots q), fnv_u64 (qp_max_spot_age_ms q),
      fnv_u64 (qp_max_vol_age_ms q), mix_i64 (qp_min_external_confidence_bps q),
      fnv_u64 (qp_max_quote_age_ns q), fnv_u64 (qp_max_book_age_ns q),
      fnv_u64 (qp_min_replace_interval_ns q), mix_u32 (qp_max_active_quotes_per_asset q),
      mix_bool (qp_allow_bid_quotes q), mix_bool (qp_allow_ask_quotes q),
      mix_bool (qp_reward_eligibility_required q), mix_i64 (qp_reward_max_spread_tick q),
      mix_i64 (qp_reward_min_quote_size_lots q),
      mix_bool (qp_allow_reward_exemption_for_reduce_only q)]"

definition compute_policy_hash :: "RiskPolicySnapshot \<Rightarrow> u64" where
  "compute_policy_hash p =
     foldl (\<lambda>hash mix. mix hash) fnv_offset
       ([fnv_u64 (rp_policy_version p), mix_bool (rp_risk_enabled p),
         mix_bool (rp_kill_switch_enabled p), mix_i64 (rp_min_post_risk_total_edge_tick p),
         mix_i64 (rp_min_post_risk_unit_edge_tick p), mix_i64 (rp_min_edge_bps p),
         mix_i64 (rp_max_total_cost_tick p), mix_i64 (rp_max_single_market_exposure_tick p),
         mix_i64 (rp_max_total_exposure_tick p), mix_i64 (rp_max_inventory_lots_per_asset p),
         mix_i64 (rp_max_book_age_ns p), mix_i64 (rp_max_intent_age_ns p),
         mix_i64 (rp_max_snapshot_skew_ns p), mix_i64 (rp_max_allowed_cost_drift_tick p),
         mix_i64 (rp_max_slippage_tick p), mix_i64 (rp_max_unhedged_loss_tick p),
         mix_double (rp_min_depth_margin_ratio p), mix_i64 (rp_min_depth_margin_bps p),
         mix_u32 (rp_max_pending_intents_per_bundle p), mix_u32 (rp_max_pending_intents_total p),
         mix_u32 (rp_max_approvals_per_second p)] @
        mix_quote_policy (rp_quote_risk p))"

definition with_computed_policy_hash :: "RiskPolicySnapshot \<Rightarrow> RiskPolicySnapshot" where
  "with_computed_policy_hash policy = policy\<lparr>rp_policy_hash := compute_policy_hash policy\<rparr>"

definition policy_hash_for :: "RiskPolicySnapshot \<Rightarrow> u64" where
  "policy_hash_for policy =
     (if rp_policy_hash policy \<noteq> 0 then rp_policy_hash policy else compute_policy_hash policy)"

definition passes_edge_thresholds :: "i64 \<Rightarrow> i64 \<Rightarrow> i64 \<Rightarrow> RiskPolicySnapshot \<Rightarrow> bool" where
  "passes_edge_thresholds unit_edge_tick total_edge_tick edge_bps policy \<longleftrightarrow>
     total_edge_tick \<ge> rp_min_post_risk_total_edge_tick policy \<and>
     unit_edge_tick \<ge> rp_min_post_risk_unit_edge_tick policy \<and>
     edge_bps \<ge> rp_min_edge_bps policy"

lemma policy_hash_rehash:
  "compute_policy_hash (policy\<lparr>rp_policy_hash := h\<rparr>) = compute_policy_hash policy"
  by (simp add: compute_policy_hash_def)

lemma policy_hash_for_with_computed:
  "compute_policy_hash policy \<noteq> 0 \<Longrightarrow>
   policy_hash_for (with_computed_policy_hash policy) = compute_policy_hash policy"
  by (simp add: policy_hash_for_def with_computed_policy_hash_def)

subsection \<open>The depth margin of a policy\<close>

text \<open>The value of a double from its bit pattern (IEEE 754 binary64).\<close>

definition double_of_bits :: "u64 \<Rightarrow> dbl" where
  "double_of_bits w =
     (let e = unat (drop_bit 52 w AND 0x7FF); m = uint (w AND 0xFFFFFFFFFFFFF)
      in if e = 2047
         then (if m \<noteq> 0 then NaN else if bit w 63 then NegInf else PosInf)
         else (let v = (if e = 0 then of_int m / 2 ^ 1074
                        else of_int (m + 2 ^ 52) * 2 ^ e / 2 ^ 1075)
               in Fin (if bit w 63 then - v else v)))"

text \<open>
  Rounding to a double, ties to even, of a number that is at least one: 53 significant bits.
  A value beyond the largest double keeps its size here, which the only use treats as the
  infinity it would become.
\<close>

definition round_half_even :: "rat \<Rightarrow> int" where
  "round_half_even q =
     (let f = \<lfloor>q\<rfloor>; d = q - of_int f
      in if d < 1 / 2 then f else if d > 1 / 2 then f + 1 else if even f then f else f + 1)"

definition round_double :: "rat \<Rightarrow> rat" where
  "round_double x =
     (let e = floorlog 2 (nat \<lfloor>x\<rfloor>) - 1
      in of_int (round_half_even (x * 2 ^ 52 / 2 ^ e)) * 2 ^ e / 2 ^ 52)"

text \<open>
  \<open>std::abs(ratio - 1.20) < 0.000001\<close>: within a factor of two the subtraction is exact, and
  farther away no rounding brings the difference below the bound.
\<close>

definition near_default_ratio :: "dbl \<Rightarrow> bool" where
  "near_default_ratio ratio =
     (case (ratio, double_of_bits kDefaultRatio, double_of_bits 0x3EB0C6F7A0B5ED8D) of
        (Fin r, Fin d, Fin eps) \<Rightarrow> \<bar>r - d\<bar> < eps
      | _ \<Rightarrow> False)"

definition effective_min_depth_margin_bps :: "RiskPolicySnapshot \<Rightarrow> i64" where
  "effective_min_depth_margin_bps policy =
     (let given = double_of_bits (rp_min_depth_margin_ratio policy) in
      if rp_min_depth_margin_bps policy > 0 \<and>
         (rp_min_depth_margin_bps policy \<noteq> 12000 \<or> near_default_ratio given)
      then rp_min_depth_margin_bps policy
      else
        let ratio = (case given of Fin r \<Rightarrow> if r < 1 then 1 else r | _ \<Rightarrow> 1);
            bps = \<lceil>round_double (ratio * 10000)\<rceil>
        in if bps \<ge> 9223372036854775808 then i64_max else bps)"

lemma effective_margin_given:
  "0 < rp_min_depth_margin_bps p \<Longrightarrow> rp_min_depth_margin_bps p \<noteq> 12000 \<Longrightarrow>
   effective_min_depth_margin_bps p = rp_min_depth_margin_bps p"
  by (simp add: effective_min_depth_margin_bps_def Let_def)

lemma default_ratio_near: "near_default_ratio (double_of_bits kDefaultRatio)"
proof -
  have "unat (drop_bit 52 kDefaultRatio AND 0x7FF) = 1023"
    by (simp add: kDefaultRatio_def drop_bit_eq_div unat_div unsigned_and_eq)
  then have "\<exists>d. double_of_bits kDefaultRatio = Fin d" by (simp add: double_of_bits_def Let_def)
  moreover have "double_of_bits 0x3EB0C6F7A0B5ED8D = Fin (4722366482869645 / 4722366482869645213696)"
    by (simp add: double_of_bits_def Let_def drop_bit_eq_div unat_div unsigned_and_eq bit_simps)
  ultimately show ?thesis by (auto simp: near_default_ratio_def)
qed

lemma effective_margin_default:
  "rp_min_depth_margin_bps p = 12000 \<Longrightarrow> rp_min_depth_margin_ratio p = kDefaultRatio \<Longrightarrow>
   effective_min_depth_margin_bps p = 12000"
  by (simp add: effective_min_depth_margin_bps_def Let_def default_ratio_near)

end
