(* ===== verification/DepthBook.thy ===== *)
theory DepthBook
  imports FixedPointMath
begin

section \<open>Depth prefixes and volume-weighted prices\<close>

text \<open>
  \<open>engine/state/StateTypes.h\<close>, \<open>engine/state/book/DepthPrefix.h\<close> and
  \<open>engine/common/math/VwapMath.h\<close>. A snapshot's side is an array of 64 price levels and a
  count; \<open>build_depth_prefix\<close> turns both sides into running totals of lots and of ticks, and a
  buy is priced either by walking the levels (\<open>buy_vwap_linear\<close>) or by a lookup in the running
  totals (\<open>buy_vwap_prefix\<close>, \<open>buy_vwap_from_prefix\<close>). The abstract contract of all three is
  \<open>walk_cost\<close>, the cost of buying a quantity level by level over the unbounded integers:
  the lemmas show that the routines compute it wherever the totals fit into 64 bits, that the
  fast routines agree with the walk, and that on ascending prices no other way of buying the
  quantity from the same levels is cheaper.
\<close>

subsection \<open>Levels\<close>

record PriceLevel =
  price_tick :: i64
  level_price :: dbl
  level_size :: dbl

definition kMaxSnapshotDepth :: nat where
  "kMaxSnapshotDepth = 64"

text \<open>\<open>static_cast<double>(INT64_MAX)\<close> rounds to \<open>2^63\<close>.\<close>

definition depth_prefix_level_size_lots :: "PriceLevel \<Rightarrow> i64" where
  "depth_prefix_level_size_lots level =
     (case level_size level of
        Fin s \<Rightarrow>
          if s \<le> 0 then 0
          else if s \<ge> 9223372036854775808 then i64_max
          else \<lfloor>s\<rfloor>
      | _ \<Rightarrow> 0)"

definition price_level_size_lots :: "PriceLevel \<Rightarrow> i64" where
  "price_level_size_lots level =
     (case level_size level of
        Fin s \<Rightarrow>
          if s \<le> 0 then 0
          else if s \<ge> 9223372036854775808 then i64_max
          else \<lfloor>s\<rfloor>
      | _ \<Rightarrow> 0)"

subsection \<open>DepthPrefix.h: its own checked and saturating operations\<close>

definition depth_prefix_checked_add :: "i64 \<Rightarrow> i64 \<Rightarrow> i64 option" where
  "depth_prefix_checked_add lhs rhs =
     (let value = lhs + rhs in
      if value > i64_max \<or> value < i64_min then None else Some value)"

definition depth_prefix_checked_mul :: "i64 \<Rightarrow> i64 \<Rightarrow> i64 option" where
  "depth_prefix_checked_mul lhs rhs =
     (let value = lhs * rhs in
      if value > i64_max \<or> value < i64_min then None else Some value)"

definition depth_prefix_saturating_add :: "i64 \<Rightarrow> i64 \<Rightarrow> i64" where
  "depth_prefix_saturating_add lhs rhs =
     (case depth_prefix_checked_add lhs rhs of
        None \<Rightarrow> if rhs \<ge> 0 then i64_max else i64_min
      | Some out \<Rightarrow> out)"

definition depth_prefix_saturating_mul :: "i64 \<Rightarrow> i64 \<Rightarrow> i64" where
  "depth_prefix_saturating_mul lhs rhs =
     (case depth_prefix_checked_mul lhs rhs of
        None \<Rightarrow>
          let positive = (lhs \<ge> 0 \<and> rhs \<ge> 0) \<or> (lhs < 0 \<and> rhs < 0)
          in if positive then i64_max else i64_min
      | Some out \<Rightarrow> out)"

lemma depth_prefix_ops [simp]:
  "depth_prefix_checked_add = checked_add_i64"
  "depth_prefix_checked_mul = checked_mul_i64"
  "depth_prefix_saturating_add = saturating_add_i64"
  "depth_prefix_saturating_mul = saturating_mul_i64"
  "depth_prefix_level_size_lots = price_level_size_lots"
proof -
  show add: "depth_prefix_checked_add = checked_add_i64"
    and mul: "depth_prefix_checked_mul = checked_mul_i64"
    by (simp_all add: fun_eq_iff depth_prefix_checked_add_def checked_add_i64_def
        depth_prefix_checked_mul_def checked_mul_i64_def)
  show "depth_prefix_saturating_add = saturating_add_i64"
    "depth_prefix_saturating_mul = saturating_mul_i64"
    "depth_prefix_level_size_lots = price_level_size_lots"
    by (auto simp: fun_eq_iff depth_prefix_saturating_add_def saturating_add_i64_def add
        depth_prefix_saturating_mul_def saturating_mul_i64_def mul
        depth_prefix_level_size_lots_def price_level_size_lots_def split: option.split)
qed

subsection \<open>Building the running totals\<close>

record DepthPrefix =
  ask_count :: nat
  bid_count :: nat
  ask_cum_qty :: "i64 list"
  ask_cum_cost :: "i64 list"
  bid_cum_qty :: "i64 list"
  bid_cum_proceeds :: "i64 list"

text \<open>
  One side's loop: from the running totals so far, the totals after each of the levels. The
  two loops of the source (asks, then bids) have the same body.
\<close>

fun prefix_loop :: "PriceLevel list \<Rightarrow> i64 \<Rightarrow> i64 \<Rightarrow> (i64 \<times> i64) list" where
  "prefix_loop [] cum_qty cum_cost = []"
| "prefix_loop (level # levels) cum_qty cum_cost =
     (let available =
            (if price_tick level > 0 then depth_prefix_level_size_lots level else 0);
          cost =
            (if available > 0
             then depth_prefix_saturating_mul (price_tick level) available else 0);
          cum_qty' = depth_prefix_saturating_add cum_qty available;
          cum_cost' = depth_prefix_saturating_add cum_cost cost
      in (cum_qty', cum_cost') # prefix_loop levels cum_qty' cum_cost')"

text \<open>The arrays of a \<open>DepthPrefix\<close> hold 64 entries, zero beyond the count.\<close>

definition pad_depth :: "i64 list \<Rightarrow> i64 list" where
  "pad_depth xs = xs @ replicate (kMaxSnapshotDepth - length xs) 0"

definition build_depth_prefix ::
  "PriceLevel list \<Rightarrow> nat \<Rightarrow> PriceLevel list \<Rightarrow> nat \<Rightarrow> DepthPrefix" where
  "build_depth_prefix bids n_bids asks n_asks =
     (let bc = min n_bids kMaxSnapshotDepth;
          ac = min n_asks kMaxSnapshotDepth;
          ask_totals = prefix_loop (take ac asks) 0 0;
          bid_totals = prefix_loop (take bc bids) 0 0
      in \<lparr>ask_count = ac, bid_count = bc,
          ask_cum_qty = pad_depth (map fst ask_totals),
          ask_cum_cost = pad_depth (map snd ask_totals),
          bid_cum_qty = pad_depth (map fst bid_totals),
          bid_cum_proceeds = pad_depth (map snd bid_totals)\<rparr>)"

subsection \<open>Queries\<close>

definition ask_depth_from_prefix :: "DepthPrefix \<Rightarrow> i64" where
  "ask_depth_from_prefix prefix =
     (if ask_count prefix = 0 then 0 else ask_cum_qty prefix ! (ask_count prefix - 1))"

definition bid_depth_from_prefix :: "DepthPrefix \<Rightarrow> i64" where
  "bid_depth_from_prefix prefix =
     (if bid_count prefix = 0 then 0 else bid_cum_qty prefix ! (bid_count prefix - 1))"

fun best_ask_loop :: "PriceLevel list \<Rightarrow> i64 list \<Rightarrow> i64 \<Rightarrow> i64" where
  "best_ask_loop (level # levels) (current_qty # qtys) previous_qty =
     (if current_qty > previous_qty \<and> price_tick level > 0 then price_tick level
      else best_ask_loop levels qtys current_qty)"
| "best_ask_loop _ _ previous_qty = 0"

definition best_ask_tick_from_prefix :: "PriceLevel list \<Rightarrow> DepthPrefix \<Rightarrow> i64" where
  "best_ask_tick_from_prefix asks prefix =
     best_ask_loop (take (ask_count prefix) asks)
       (take (ask_count prefix) (ask_cum_qty prefix)) 0"

text \<open>The search loop: the first index whose running total reaches the quantity.\<close>

fun first_level_reaching :: "i64 list \<Rightarrow> i64 \<Rightarrow> nat" where
  "first_level_reaching [] qty = 0"
| "first_level_reaching (c # cs) qty =
     (if c \<ge> qty then 0 else Suc (first_level_reaching cs qty))"

record PrefixVwapResult =
  pv_ok :: bool
  pv_qty_lots :: i64
  pv_total_cost_tick :: i64
  pv_vwap_tick :: i64
  pv_worst_price_tick :: i64

definition buy_vwap_from_prefix ::
  "PriceLevel list \<Rightarrow> DepthPrefix \<Rightarrow> i64 \<Rightarrow> PrefixVwapResult" where
  "buy_vwap_from_prefix asks prefix qty_lots =
     (let result = \<lparr>pv_ok = False, pv_qty_lots = qty_lots, pv_total_cost_tick = 0,
                    pv_vwap_tick = 0, pv_worst_price_tick = 0\<rparr>
      in
      if qty_lots \<le> 0 \<or> ask_count prefix = 0 then result
      else if ask_cum_qty prefix ! (ask_count prefix - 1) < qty_lots then result
      else
        let level_index =
              first_level_reaching (take (ask_count prefix) (ask_cum_qty prefix)) qty_lots
        in
        if level_index \<ge> ask_count prefix then result
        else
          let qty_before =
                (if level_index = 0 then 0 else ask_cum_qty prefix ! (level_index - 1));
              cost_before =
                (if level_index = 0 then 0 else ask_cum_cost prefix ! (level_index - 1));
              remaining = wrap_i64 (qty_lots - qty_before);
              tick = price_tick (asks ! level_index)
          in
          if remaining < 0 \<or> tick \<le> 0 then result
          else
            (case depth_prefix_checked_mul tick remaining of
               None \<Rightarrow> result
             | Some partial_cost \<Rightarrow>
                 (case depth_prefix_checked_add cost_before partial_cost of
                    None \<Rightarrow> result
                  | Some total_cost \<Rightarrow>
                      result\<lparr>pv_ok := True, pv_total_cost_tick := total_cost,
                             pv_vwap_tick := total_cost sdiv qty_lots,
                             pv_worst_price_tick := tick\<rparr>)))"

subsection \<open>VwapMath.h\<close>

record VwapMathResult =
  vm_ok :: bool
  vm_total_cost_tick :: i64
  vm_vwap_tick :: i64
  vm_worst_price_tick :: i64
  vm_executable_qty_lots :: i64

definition empty_vwap :: VwapMathResult where
  "empty_vwap = \<lparr>vm_ok = False, vm_total_cost_tick = 0, vm_vwap_tick = 0,
     vm_worst_price_tick = 0, vm_executable_qty_lots = 0\<rparr>"

text \<open>
  The loop of \<open>buy_vwap_linear\<close>; \<open>None\<close> is the early \<open>return {}\<close> of an overflow. It keeps
  counting the executable lots after the quantity is covered.
\<close>

fun vwap_linear_loop ::
  "PriceLevel list \<Rightarrow> VwapMathResult \<Rightarrow> i64 \<Rightarrow> (VwapMathResult \<times> i64) option" where
  "vwap_linear_loop [] result remaining = Some (result, remaining)"
| "vwap_linear_loop (level # levels) result remaining =
     (let available = price_level_size_lots level in
      if price_tick level \<le> 0 \<or> available \<le> 0 then vwap_linear_loop levels result remaining
      else
        (case checked_add_i64 (vm_executable_qty_lots result) available of
           None \<Rightarrow> None
         | Some executable \<Rightarrow>
             (let result = result\<lparr>vm_executable_qty_lots := executable\<rparr> in
              if remaining \<le> 0 then vwap_linear_loop levels result remaining
              else
                (let taken = min remaining available in
                 case checked_mul_i64 (price_tick level) taken of
                   None \<Rightarrow> None
                 | Some level_cost \<Rightarrow>
                     (case checked_add_i64 (vm_total_cost_tick result) level_cost of
                        None \<Rightarrow> None
                      | Some total_cost \<Rightarrow>
                          vwap_linear_loop levels
                            (result\<lparr>vm_total_cost_tick := total_cost,
                                    vm_worst_price_tick :=
                                      max (vm_worst_price_tick result) (price_tick level)\<rparr>)
                            (remaining - taken))))))"

text \<open>The null pointer of \<open>asks\<close> is \<open>None\<close>.\<close>

definition buy_vwap_linear :: "PriceLevel list option \<Rightarrow> nat \<Rightarrow> i64 \<Rightarrow> VwapMathResult" where
  "buy_vwap_linear asks n_asks qty_lots =
     (case asks of
        None \<Rightarrow> empty_vwap
      | Some levels \<Rightarrow>
          if n_asks = 0 \<or> qty_lots \<le> 0 then empty_vwap
          else
            (case vwap_linear_loop (take n_asks levels) empty_vwap qty_lots of
               None \<Rightarrow> empty_vwap
             | Some (result, remaining) \<Rightarrow>
                 if remaining > 0 then result\<lparr>vm_ok := False\<rparr>
                 else result\<lparr>vm_ok := True,
                             vm_vwap_tick := vm_total_cost_tick result sdiv qty_lots\<rparr>))"

definition buy_vwap_prefix ::
  "DepthPrefix \<Rightarrow> PriceLevel list option \<Rightarrow> nat \<Rightarrow> i64 \<Rightarrow> VwapMathResult" where
  "buy_vwap_prefix prefix asks n_asks qty_lots =
     (case asks of
        None \<Rightarrow> empty_vwap
      | Some levels \<Rightarrow>
          if qty_lots \<le> 0 \<or> ask_count prefix = 0 \<or> n_asks = 0 \<or> ask_count prefix > n_asks
          then empty_vwap
          else
            let result = empty_vwap\<lparr>vm_executable_qty_lots :=
                           ask_cum_qty prefix ! (ask_count prefix - 1)\<rparr>
            in
            if vm_executable_qty_lots result < qty_lots then result
            else
              let level_index =
                    first_level_reaching (take (ask_count prefix) (ask_cum_qty prefix)) qty_lots
              in
              if level_index \<ge> ask_count prefix then result
              else
                let qty_before =
                      (if level_index = 0 then 0 else ask_cum_qty prefix ! (level_index - 1));
                    cost_before =
                      (if level_index = 0 then 0 else ask_cum_cost prefix ! (level_index - 1));
                    remaining = wrap_i64 (qty_lots - qty_before);
                    tick = price_tick (levels ! level_index)
                in
                if remaining < 0 \<or> tick \<le> 0 then result
                else
                  (case checked_mul_i64 tick remaining of
                     None \<Rightarrow> empty_vwap
                   | Some partial_cost \<Rightarrow>
                       (case checked_add_i64 cost_before partial_cost of
                          None \<Rightarrow> empty_vwap
                        | Some total_cost \<Rightarrow>
                            result\<lparr>vm_ok := True, vm_total_cost_tick := total_cost,
                                   vm_vwap_tick := total_cost sdiv qty_lots,
                                   vm_worst_price_tick := tick\<rparr>)))"


subsection \<open>The contract: buying level by level over the integers\<close>

definition lots :: "PriceLevel \<Rightarrow> int" where
  "lots level = (if price_tick level > 0 then price_level_size_lots level else 0)"

definition depth :: "PriceLevel list \<Rightarrow> int" where
  "depth levels = sum_list (map lots levels)"

definition book_cost :: "PriceLevel list \<Rightarrow> int" where
  "book_cost levels = sum_list (map (\<lambda>l. price_tick l * lots l) levels)"

fun walk_cost :: "PriceLevel list \<Rightarrow> int \<Rightarrow> int" where
  "walk_cost [] qty = 0"
| "walk_cost (l # ls) qty =
     price_tick l * min qty (lots l) + walk_cost ls (qty - min qty (lots l))"

fun walk_worst :: "PriceLevel list \<Rightarrow> int \<Rightarrow> int \<Rightarrow> int" where
  "walk_worst [] qty worst = worst"
| "walk_worst (l # ls) qty worst =
     (if 0 < lots l \<and> 0 < qty
      then walk_worst ls (qty - min qty (lots l)) (max worst (price_tick l))
      else walk_worst ls qty worst)"

lemma price_level_size_lots_bounds [simp]:
  "0 \<le> price_level_size_lots l" "price_level_size_lots l \<le> i64_max"
proof -
  have "\<lfloor>s\<rfloor> \<le> 9223372036854775807" if "s < 9223372036854775808" for s :: rat
    using that by (simp add: floor_le_iff)
  then show "0 \<le> price_level_size_lots l" "price_level_size_lots l \<le> i64_max"
    by (auto simp: price_level_size_lots_def i64_bounds split: dbl.split)
qed

lemma lots_nonneg [simp]: "0 \<le> lots l"
  by (simp add: lots_def)

lemma lots_le_max: "lots l \<le> i64_max"
  by (simp add: lots_def i64_bounds) (simp add: i64_bounds [symmetric])

lemma lots_pos_price: "0 < lots l \<Longrightarrow> 0 < price_tick l"
  by (simp add: lots_def split: if_splits)

lemma level_cost_nonneg [simp]: "0 \<le> price_tick l * lots l"
  by (simp add: lots_def)

lemma depth_simps [simp]:
  "depth [] = 0" "depth (l # ls) = lots l + depth ls" "depth (xs @ ys) = depth xs + depth ys"
  by (simp_all add: depth_def)

lemma book_cost_simps [simp]:
  "book_cost [] = 0" "book_cost (l # ls) = price_tick l * lots l + book_cost ls"
  by (simp_all add: book_cost_def)

lemma depth_nonneg [simp]: "0 \<le> depth ls"
  by (induction ls) simp_all

lemma book_cost_nonneg [simp]: "0 \<le> book_cost ls"
  by (induction ls) simp_all

lemma walk_cost_nonneg [simp]: "0 \<le> qty \<Longrightarrow> 0 \<le> walk_cost ls qty"
proof (induction ls arbitrary: qty)
  case (Cons l ls)
  have "0 \<le> price_tick l * min qty (lots l)"
  proof (cases "0 < lots l")
    case True
    with Cons.prems show ?thesis by (simp add: lots_pos_price less_imp_le)
  next
    case False
    then have "lots l = 0" using lots_nonneg [of l] by linarith
    with Cons.prems show ?thesis by simp
  qed
  with Cons show ?case by simp
qed simp

lemma depth_take_mono: "i \<le> j \<Longrightarrow> depth (take i ls) \<le> depth (take j ls)"
proof -
  assume "i \<le> j"
  then obtain k where "j = i + k" using le_Suc_ex by blast
  then show ?thesis by (simp add: take_add)
qed

text \<open>The contract at a known level: everything before it plus the rest from it.\<close>

lemma walk_cost_at_level:
  assumes "i < length ls" "depth (take i ls) \<le> qty" "qty \<le> depth (take (Suc i) ls)"
  shows "walk_cost ls qty = book_cost (take i ls) + price_tick (ls ! i) * (qty - depth (take i ls))"
  using assms
proof (induction ls arbitrary: i qty)
  case (Cons l ls)
  show ?case
  proof (cases i)
    case 0
    have "walk_cost ls 0 = 0" by (induction ls) (simp_all add: min_def)
    with 0 Cons.prems show ?thesis by (simp add: min_def)
  next
    case (Suc j)
    have "0 \<le> depth (take j ls)" by simp
    then have "min qty (lots l) = lots l" using Suc Cons.prems(2) by (simp del: depth_nonneg)
    with Suc Cons show ?thesis by (simp add: algebra_simps)
  qed
qed simp

subsection \<open>The running totals are exact up to saturation\<close>

lemma clamp_i64_nonneg: "0 \<le> x \<Longrightarrow> clamp_i64 x = min i64_max x"
  by (simp add: clamp_i64_def i64_bounds)

lemma saturating_add_nonneg:
  "\<lbrakk>0 \<le> a; a \<le> i64_max; 0 \<le> b; b \<le> i64_max\<rbrakk> \<Longrightarrow> saturating_add_i64 a b = min i64_max (a + b)"
  by (subst saturating_add_clamps) (simp_all add: in_i64_nonneg clamp_i64_nonneg)

lemma prefix_step:
  assumes "0 \<le> q" "q \<le> i64_max" "0 \<le> c" "c \<le> i64_max"
  shows "prefix_loop (l # ls) q c =
    (min i64_max (q + lots l), min i64_max (c + price_tick l * lots l)) #
    prefix_loop ls (min i64_max (q + lots l)) (min i64_max (c + price_tick l * lots l))"
proof -
  define av where "av = (if price_tick l > 0 then price_level_size_lots l else 0)"
  define co where "co = (if av > 0 then saturating_mul_i64 (price_tick l) av else 0)"
  have av: "av = lots l" by (simp add: av_def lots_def)
  have "co = min i64_max (price_tick l * lots l)"
    using level_cost_nonneg [of l] lots_nonneg [of l]
    by (auto simp: co_def av saturating_mul_clamps clamp_i64_nonneg i64_bounds
        simp del: level_cost_nonneg lots_nonneg)
  then have co: "0 \<le> co" "co \<le> i64_max"
    "saturating_add_i64 c co = min i64_max (c + price_tick l * lots l)"
    using assms level_cost_nonneg [of l] by (auto simp: saturating_add_nonneg i64_bounds)
  have "saturating_add_i64 q av = min i64_max (q + lots l)"
    using assms lots_le_max [of l] by (simp add: av saturating_add_nonneg)
  then show ?thesis
    by (simp only: prefix_loop.simps Let_def depth_prefix_ops av_def [symmetric]
        co_def [symmetric] co(3))
qed

lemma prefix_loop_exact:
  assumes "0 \<le> q" "q \<le> i64_max" "0 \<le> c" "c \<le> i64_max"
  shows "prefix_loop ls q c =
    map (\<lambda>i. (min i64_max (q + depth (take (Suc i) ls)),
              min i64_max (c + book_cost (take (Suc i) ls)))) [0..<length ls]"
  using assms
proof (induction ls arbitrary: q c)
  case (Cons l ls)
  let ?q = "min i64_max (q + lots l)" and ?c = "min i64_max (c + price_tick l * lots l)"
  have b: "0 \<le> ?q" "?q \<le> i64_max" "0 \<le> ?c" "?c \<le> i64_max"
    using Cons.prems by (simp_all add: i64_bounds)
  have "min i64_max (?q + depth (take (Suc i) ls)) = min i64_max (q + depth (take (Suc (Suc i)) (l # ls)))"
    for i using Cons.prems depth_nonneg [of "take (Suc i) ls"]
    by (simp add: min_def del: depth_nonneg)
  moreover have "min i64_max (?c + book_cost (take (Suc i) ls)) =
      min i64_max (c + book_cost (take (Suc (Suc i)) (l # ls)))"
    for i using Cons.prems book_cost_nonneg [of "take (Suc i) ls"]
    by (simp add: min_def del: book_cost_nonneg)
  ultimately show ?case
    unfolding prefix_step [OF Cons.prems] Cons.IH [OF b]
    by (simp add: upt_conv_Cons comp_def del: upt_Suc flip: map_Suc_upt)
qed simp

subsection \<open>Reading the arrays of a built prefix\<close>

definition snapshot_side :: "PriceLevel list \<Rightarrow> nat \<Rightarrow> PriceLevel list" where
  "snapshot_side levels count = take (min count kMaxSnapshotDepth) levels"

lemma build_ask_count: "ask_count (build_depth_prefix bids nb asks na) = min na kMaxSnapshotDepth"
  by (simp add: build_depth_prefix_def Let_def)

lemma pad_depth_nth: "i < length xs \<Longrightarrow> pad_depth xs ! i = xs ! i"
  by (simp add: pad_depth_def nth_append)

lemma take_pad_depth: "n \<le> length xs \<Longrightarrow> take n (pad_depth xs) = take n xs"
  by (simp add: pad_depth_def)

lemma i64_max_nonneg [simp]: "0 \<le> i64_max"
  by (simp add: i64_bounds)

lemma build_ask_cum:
  assumes "length asks = kMaxSnapshotDepth" "i < min na kMaxSnapshotDepth"
  shows "ask_cum_qty (build_depth_prefix bids nb asks na) ! i =
      min i64_max (depth (take (Suc i) (snapshot_side asks na)))"
    and "ask_cum_cost (build_depth_prefix bids nb asks na) ! i =
      min i64_max (book_cost (take (Suc i) (snapshot_side asks na)))"
  using assms
  by (simp_all add: build_depth_prefix_def Let_def pad_depth_nth prefix_loop_exact
      snapshot_side_def)

lemma build_ask_cum_list:
  assumes "length asks = kMaxSnapshotDepth"
  shows "take (min na kMaxSnapshotDepth) (ask_cum_qty (build_depth_prefix bids nb asks na)) =
    map (\<lambda>i. min i64_max (depth (take (Suc i) (snapshot_side asks na))))
      [0..<min na kMaxSnapshotDepth]"
proof -
  have "length (prefix_loop (take (min na kMaxSnapshotDepth) asks) 0 0) = min na kMaxSnapshotDepth"
    using assms by (simp add: prefix_loop_exact)
  then show ?thesis using assms
    by (simp add: build_depth_prefix_def Let_def take_pad_depth)
       (simp add: prefix_loop_exact snapshot_side_def comp_def)
qed

subsection \<open>The search\<close>

lemma first_level_reaching_le: "first_level_reaching cs q \<le> length cs"
  by (induction cs) simp_all

lemma first_level_reaching_less_iff:
  "first_level_reaching cs q < length cs \<longleftrightarrow> (\<exists>c \<in> set cs. q \<le> c)"
  by (induction cs) auto

lemma first_level_reaching_hit:
  "first_level_reaching cs q < length cs \<Longrightarrow> q \<le> cs ! first_level_reaching cs q"
  by (induction cs) auto

lemma first_level_reaching_before:
  "j < first_level_reaching cs q \<Longrightarrow> cs ! j < q"
proof (induction cs arbitrary: j)
  case (Cons c cs)
  then show ?case by (cases j) (auto split: if_splits)
qed simp

text \<open>
  The level the search finds in a built prefix: the totals before it stay below the quantity,
  so they are not saturated.
\<close>

definition hit_level :: "PriceLevel list \<Rightarrow> int \<Rightarrow> nat" where
  "hit_level levels q =
     first_level_reaching (map (\<lambda>i. min i64_max (depth (take (Suc i) levels))) [0..<length levels]) q"

lemma hit_level_props:
  assumes "0 < q" "q \<le> i64_max" "q \<le> depth ls"
  shows "hit_level ls q < length ls" and "depth (take (hit_level ls q) ls) < q"
    and "q \<le> depth (take (Suc (hit_level ls q)) ls)"
proof -
  let ?cs = "map (\<lambda>i. min i64_max (depth (take (Suc i) ls))) [0..<length ls]"
  have ne: "ls \<noteq> []" using assms by auto
  then have "?cs ! (length ls - 1) = min i64_max (depth ls)" by simp
  moreover have "?cs ! (length ls - 1) \<in> set ?cs" using ne by (intro nth_mem) simp
  ultimately have "\<exists>c \<in> set ?cs. q \<le> c" using assms by (metis min.bounded_iff)
  then have lt: "first_level_reaching ?cs q < length ?cs"
    by (simp only: first_level_reaching_less_iff)
  then show len: "hit_level ls q < length ls" by (simp add: hit_level_def)
  show "q \<le> depth (take (Suc (hit_level ls q)) ls)"
    using first_level_reaching_hit [OF lt] lt by (simp add: hit_level_def)
  show "depth (take (hit_level ls q) ls) < q"
  proof (cases "hit_level ls q")
    case 0
    with assms(1) show ?thesis by simp
  next
    case (Suc j)
    then have j: "j < first_level_reaching ?cs q" by (simp add: hit_level_def)
    then have "?cs ! j < q" by (rule first_level_reaching_before)
    with j lt assms(2) Suc show ?thesis by (simp add: min_less_iff_disj)
  qed
qed

lemma hit_level_valid:
  assumes "0 < q" "q \<le> i64_max" "q \<le> depth ls"
  shows "0 < lots (ls ! hit_level ls q)" and "0 < price_tick (ls ! hit_level ls q)"
proof -
  note h = hit_level_props [OF assms]
  show "0 < lots (ls ! hit_level ls q)"
    using h by (simp add: take_Suc_conv_app_nth)
  then show "0 < price_tick (ls ! hit_level ls q)" by (rule lots_pos_price)
qed

subsection \<open>The lookups compute the contract\<close>

lemma length_snapshot_side:
  "length asks = kMaxSnapshotDepth \<Longrightarrow> length (snapshot_side asks na) = min na kMaxSnapshotDepth"
  by (simp add: snapshot_side_def)

lemma build_last_cum:
  assumes "length asks = kMaxSnapshotDepth" "min na kMaxSnapshotDepth \<noteq> 0"
  shows "ask_cum_qty (build_depth_prefix bids nb asks na) ! (min na kMaxSnapshotDepth - 1) =
    min i64_max (depth (snapshot_side asks na))"
proof -
  let ?c = "min na kMaxSnapshotDepth"
  have "?c - 1 < ?c" using assms(2) by linarith
  note build_ask_cum(1) [OF assms(1) this, of bids nb]
  moreover have "take (Suc (?c - 1)) (snapshot_side asks na) = snapshot_side asks na"
    using assms by (intro take_all) (simp add: length_snapshot_side)
  ultimately show ?thesis by simp
qed

lemma build_hit_level:
  assumes "length asks = kMaxSnapshotDepth"
  shows "first_level_reaching
      (take (min na kMaxSnapshotDepth) (ask_cum_qty (build_depth_prefix bids nb asks na))) q =
    hit_level (snapshot_side asks na) q"
  by (simp add: build_ask_cum_list [OF assms] hit_level_def length_snapshot_side [OF assms])

text \<open>
  What the three reads at the found level give: the exact lots before it, the (possibly
  saturated) cost before it and the level's price.
\<close>

lemma build_at_hit_level:
  fixes asks bids :: "PriceLevel list" and na nb :: nat
  assumes "length asks = kMaxSnapshotDepth" "0 < q" "q \<le> i64_max"
    "q \<le> depth (snapshot_side asks na)"
  defines "S \<equiv> snapshot_side asks na" and "P \<equiv> build_depth_prefix bids nb asks na"
  defines "i \<equiv> hit_level S q"
  shows "(if i = 0 then 0 else ask_cum_qty P ! (i - 1)) = depth (take i S)"
    and "(if i = 0 then 0 else ask_cum_cost P ! (i - 1)) = min i64_max (book_cost (take i S))"
    and "asks ! i = S ! i" and "i < min na kMaxSnapshotDepth"
proof -
  have h: "i < length S" "depth (take i S) < q"
    using hit_level_props [of q S] assms by (simp_all add: i_def S_def)
  show i: "i < min na kMaxSnapshotDepth"
    using h(1) length_snapshot_side [OF assms(1), of na] by (simp add: S_def)
  then show "asks ! i = S ! i" by (simp add: S_def snapshot_side_def)
  have "i - 1 < min na kMaxSnapshotDepth" using i by linarith
  note cum = build_ask_cum [OF assms(1) this, of bids nb, folded S_def P_def]
  show "(if i = 0 then 0 else ask_cum_qty P ! (i - 1)) = depth (take i S)"
    using cum(1) h(2) assms(3) by (cases i) (simp_all add: min_absorb2)
  show "(if i = 0 then 0 else ask_cum_cost P ! (i - 1)) = min i64_max (book_cost (take i S))"
    using cum(2) by (cases i) (simp_all add: min_absorb2)
qed

lemma walk_cost_at_hit:
  assumes "0 < q" "q \<le> i64_max" "q \<le> depth S"
  shows "walk_cost S q = book_cost (take (hit_level S q) S) +
    price_tick (S ! hit_level S q) * (q - depth (take (hit_level S q) S))"
  using hit_level_props [OF assms] by (intro walk_cost_at_level) simp_all

text \<open>The final checked multiplication and addition succeed exactly when the cost fits.\<close>

lemma checked_tail:
  assumes "0 \<le> b" "0 < p" "0 < r"
  shows "(case checked_mul_i64 p r of None \<Rightarrow> x
     | Some part \<Rightarrow> (case checked_add_i64 (min i64_max b) part of None \<Rightarrow> x | Some t \<Rightarrow> f t)) =
    (if b + p * r \<le> i64_max then f (b + p * r) else x)"
proof -
  have pr: "0 < p * r" using assms(2,3) by (rule mult_pos_pos)
  show ?thesis
  proof (cases "b + p * r \<le> i64_max")
    case True
    then show ?thesis
      using pr assms(1) by (auto simp: in_i64_nonneg min_absorb2 split: option.split)
  next
    case False
    have "\<not> in_i64 (min i64_max b + p * r)" if "p * r \<le> i64_max"
      using that False pr assms(1) by (auto simp: in_i64_def min_def)
    with False show ?thesis
      using pr by (auto simp: in_i64_nonneg split: option.split)
  qed
qed

lemma build_lookup:
  fixes asks bids :: "PriceLevel list" and na nb :: nat
  assumes "length asks = kMaxSnapshotDepth" "0 < q" "q \<le> i64_max"
    "q \<le> depth (snapshot_side asks na)"
  defines "S \<equiv> snapshot_side asks na" and "P \<equiv> build_depth_prefix bids nb asks na"
  defines "i \<equiv> hit_level S q"
  shows "\<not> ask_cum_qty P ! (ask_count P - 1) < q"
    and "first_level_reaching (take (ask_count P) (ask_cum_qty P)) q = i"
    and "wrap_i64 (q - depth (take i S)) = q - depth (take i S)"
    and "\<not> q - depth (take i S) < 0" and "0 < q - depth (take i S)"
    and "book_cost (take i S) + price_tick (S ! i) * (q - depth (take i S)) = walk_cost S q"
    and "i < ask_count P" and "ask_count P \<noteq> 0"
proof -
  note at = build_at_hit_level(1,2) [OF assms(1-4), where bids = bids and nb = nb,
      folded S_def, folded i_def P_def]
    build_at_hit_level(3,4) [OF assms(1-4), folded S_def, folded i_def]
  have cnt: "ask_count P = min na kMaxSnapshotDepth" by (simp add: P_def build_ask_count)
  show "i < ask_count P" "ask_count P \<noteq> 0" using at(4) by (auto simp: cnt)
  show "\<not> ask_cum_qty P ! (ask_count P - 1) < q"
    using at(4) assms(2-4) build_last_cum [OF assms(1), of na bids nb]
    by (auto simp: P_def build_ask_count)
  show "first_level_reaching (take (ask_count P) (ask_cum_qty P)) q = i"
    using build_hit_level [OF assms(1)] by (simp add: build_ask_count P_def i_def S_def)
  have h: "depth (take i S) < q"
    using hit_level_props [OF assms(2-4)] by (simp add: i_def S_def)
  then show "\<not> q - depth (take i S) < 0" "0 < q - depth (take i S)" by simp_all
  show "wrap_i64 (q - depth (take i S)) = q - depth (take i S)"
    using assms(3) depth_nonneg [of "take i S"] h
    by (intro wrap_i64_id) (simp add: in_i64_nonneg del: depth_nonneg)
  show "book_cost (take i S) + price_tick (S ! i) * (q - depth (take i S)) = walk_cost S q"
    using walk_cost_at_hit [OF assms(2-4)] by (simp add: i_def S_def)
qed

lemma build_short_depth:
  fixes asks bids :: "PriceLevel list" and na nb :: nat
  assumes "length asks = kMaxSnapshotDepth" "depth (snapshot_side asks na) < q"
    "ask_count (build_depth_prefix bids nb asks na) \<noteq> 0"
  shows "ask_cum_qty (build_depth_prefix bids nb asks na) !
    (ask_count (build_depth_prefix bids nb asks na) - 1) < q"
proof -
  have c: "min na kMaxSnapshotDepth \<noteq> 0" using assms(3) unfolding build_ask_count .
  show ?thesis unfolding build_ask_count build_last_cum [OF assms(1) c]
    using assms(2) by simp
qed

lemma buy_vwap_from_prefix_exact:
  fixes asks bids :: "PriceLevel list" and na nb :: nat
  assumes "length asks = kMaxSnapshotDepth" "in_i64 q"
  defines "S \<equiv> snapshot_side asks na" and "P \<equiv> build_depth_prefix bids nb asks na"
  shows "buy_vwap_from_prefix asks P q =
    (if 0 < q \<and> q \<le> depth S \<and> walk_cost S q \<le> i64_max
     then \<lparr>pv_ok = True, pv_qty_lots = q, pv_total_cost_tick = walk_cost S q,
           pv_vwap_tick = walk_cost S q sdiv q,
           pv_worst_price_tick = price_tick (S ! hit_level S q)\<rparr>
     else \<lparr>pv_ok = False, pv_qty_lots = q, pv_total_cost_tick = 0, pv_vwap_tick = 0,
           pv_worst_price_tick = 0\<rparr>)"
proof (cases "0 < q \<and> q \<le> depth S")
  case False
  then have "depth (snapshot_side asks na) < q \<or> q \<le> 0" by (auto simp: S_def)
  then show ?thesis using False build_short_depth [OF assms(1)]
    by (auto simp: buy_vwap_from_prefix_def Let_def P_def)
next
  case True
  then have q: "0 < q" "q \<le> i64_max" "q \<le> depth (snapshot_side asks na)"
    using assms(2) by (auto simp: in_i64_def S_def)
  define i where "i = hit_level S q"
  note at = build_at_hit_level(1,2) [OF assms(1) q, where bids = bids and nb = nb,
      folded S_def, folded i_def P_def]
    build_at_hit_level(3,4) [OF assms(1) q, folded S_def, folded i_def]
  note look = build_lookup(1,2) [OF assms(1) q, where bids = bids and nb = nb,
      folded S_def, folded i_def P_def]
    build_lookup(3-6) [OF assms(1) q, folded S_def, folded i_def]
    build_lookup(7,8) [OF assms(1) q, where bids = bids and nb = nb,
      folded S_def, folded i_def P_def]
  note valid = hit_level_valid [OF q, folded S_def, folded i_def]
  show ?thesis
    using True valid(2) look(1,4,5,7,8)
    unfolding buy_vwap_from_prefix_def Let_def look(2) at(1-3) look(3) depth_prefix_ops
    by (simp add: checked_tail look(6) i_def [symmetric])
qed

text \<open>
  The other lookup, on the same prefix, differs only in what it reports beside: the executable
  lots, and an all-zero result when the cost does not fit.
\<close>

lemma buy_vwap_prefix_exact:
  fixes asks bids :: "PriceLevel list" and na nb :: nat
  assumes "length asks = kMaxSnapshotDepth" "in_i64 q" "na \<noteq> 0"
  defines "S \<equiv> snapshot_side asks na" and "P \<equiv> build_depth_prefix bids nb asks na"
  shows "buy_vwap_prefix P (Some asks) na q =
    (if q \<le> 0 then empty_vwap
     else if depth S < q then empty_vwap\<lparr>vm_executable_qty_lots := depth S\<rparr>
     else if walk_cost S q \<le> i64_max
     then \<lparr>vm_ok = True, vm_total_cost_tick = walk_cost S q,
           vm_vwap_tick = walk_cost S q sdiv q,
           vm_worst_price_tick = price_tick (S ! hit_level S q),
           vm_executable_qty_lots = min i64_max (depth S)\<rparr>
     else empty_vwap)"
proof -
  have cnt: "ask_count P = min na kMaxSnapshotDepth" by (simp add: P_def build_ask_count)
  then have cnt0: "ask_count P \<noteq> 0" "\<not> na < ask_count P"
    using assms(3) by (simp_all add: kMaxSnapshotDepth_def)
  have last: "ask_cum_qty P ! (ask_count P - 1) = min i64_max (depth S)"
    using build_last_cum [OF assms(1), of na bids nb] cnt0(1)
    unfolding cnt unfolding P_def S_def by blast
  consider "q \<le> 0" | "0 < q" "depth S < q" | "0 < q" "q \<le> depth S" by linarith
  then show ?thesis
  proof cases
    case 1
    then show ?thesis by (simp add: buy_vwap_prefix_def)
  next
    case 2
    then have "min i64_max (depth S) = depth S" using assms(2) by (simp add: in_i64_def)
    with 2 cnt0 assms(3) last show ?thesis by (simp add: buy_vwap_prefix_def Let_def)
  next
    case 3
    then have q: "0 < q" "q \<le> i64_max" "q \<le> depth (snapshot_side asks na)"
      using assms(2) by (auto simp: in_i64_def S_def)
    define i where "i = hit_level S q"
    note at = build_at_hit_level(1,2) [OF assms(1) q, where bids = bids and nb = nb,
        folded S_def, folded i_def P_def]
      build_at_hit_level(3,4) [OF assms(1) q, folded S_def, folded i_def]
    note look = build_lookup(1,2) [OF assms(1) q, where bids = bids and nb = nb,
        folded S_def, folded i_def P_def]
      build_lookup(3-6) [OF assms(1) q, folded S_def, folded i_def]
      build_lookup(7,8) [OF assms(1) q, where bids = bids and nb = nb,
        folded S_def, folded i_def P_def]
    note valid = hit_level_valid [OF q, folded S_def, folded i_def]
    show ?thesis
      using 3 cnt0 assms(3) q(2) valid(2) look(4,5,7)
      unfolding buy_vwap_prefix_def Let_def look(2) at(1-3) look(3) last
      by (simp add: checked_tail look(6) at(3) i_def [symmetric] empty_vwap_def last
          min_less_iff_disj)
  qed
qed

subsection \<open>The walk computes the contract\<close>

lemma walk_cost_0: "walk_cost ls 0 = 0"
  by (induction ls) (simp_all add: min_def)

lemma walk_worst_0: "walk_worst ls 0 w = w"
  by (induction ls arbitrary: w) simp_all

lemma lots_zero_iff: "lots l = 0 \<longleftrightarrow> price_tick l \<le> 0 \<or> price_level_size_lots l \<le> 0"
  using price_level_size_lots_bounds(1) [of l]
  by (auto simp: lots_def simp del: price_level_size_lots_bounds)

lemma vwap_linear_loop_exact:
  assumes "0 \<le> rem" "0 \<le> vm_executable_qty_lots r" "0 \<le> vm_total_cost_tick r"
    "vm_executable_qty_lots r \<le> i64_max" "vm_total_cost_tick r \<le> i64_max"
  shows "vwap_linear_loop ls r rem =
    (if vm_executable_qty_lots r + depth ls \<le> i64_max \<and>
        vm_total_cost_tick r + walk_cost ls rem \<le> i64_max
     then Some (r\<lparr>vm_executable_qty_lots := vm_executable_qty_lots r + depth ls,
                  vm_total_cost_tick := vm_total_cost_tick r + walk_cost ls rem,
                  vm_worst_price_tick := walk_worst ls rem (vm_worst_price_tick r)\<rparr>,
                rem - min rem (depth ls))
     else None)"
  using assms
proof (induction ls arbitrary: r rem)
  case Nil
  then show ?case by simp
next
  case (Cons l ls)
  show ?case
  proof (cases "lots l = 0")
    case True
    then have "vwap_linear_loop (l # ls) r rem = vwap_linear_loop ls r rem"
      by (auto simp: lots_zero_iff Let_def)
    with True Cons.prems Cons.IH [of rem r] show ?thesis by simp
  next
    case False
    then have pos: "0 < price_tick l" "0 < lots l" "price_level_size_lots l = lots l"
      using lots_nonneg [of l] by (auto simp: lots_def simp del: lots_nonneg split: if_splits)
    let ?e = "vm_executable_qty_lots r + lots l"
    let ?t = "min rem (lots l)"
    let ?c = "vm_total_cost_tick r + price_tick l * ?t"
    have dn: "0 \<le> depth ls" and wn: "0 \<le> walk_cost ls (rem - ?t)" by simp_all
    show ?thesis
    proof (cases "?e \<le> i64_max")
      case no: False
      with Cons.prems pos dn show ?thesis
        by (auto simp: in_i64_nonneg Let_def simp del: depth_nonneg split: option.split)
    next
      case yes: True
      show ?thesis
      proof (cases "rem = 0")
        case True
        with yes Cons.prems pos Cons.IH [of 0 "r\<lparr>vm_executable_qty_lots := ?e\<rparr>"] show ?thesis
          by (auto simp: in_i64_nonneg walk_cost_0 walk_worst_0 add.assoc Let_def
              split: option.split)
      next
        case False
        with Cons.prems have rem: "0 < rem" by simp
        then have part: "0 < price_tick l * ?t" using pos by simp
        let ?r = "r\<lparr>vm_executable_qty_lots := ?e, vm_total_cost_tick := ?c,
          vm_worst_price_tick := max (vm_worst_price_tick r) (price_tick l)\<rparr>"
        have step: "vwap_linear_loop (l # ls) r rem =
            (if ?c \<le> i64_max then vwap_linear_loop ls ?r (rem - ?t) else None)"
          using yes rem pos part Cons.prems
          by (auto simp: in_i64_nonneg Let_def split: option.split)
        show ?thesis
        proof (cases "?c \<le> i64_max")
          case True
          have "vwap_linear_loop ls ?r (rem - ?t) =
            (if ?e + depth ls \<le> i64_max \<and> ?c + walk_cost ls (rem - ?t) \<le> i64_max
             then Some (?r\<lparr>vm_executable_qty_lots := ?e + depth ls,
                           vm_total_cost_tick := ?c + walk_cost ls (rem - ?t),
                           vm_worst_price_tick :=
                             walk_worst ls (rem - ?t) (max (vm_worst_price_tick r) (price_tick l))\<rparr>,
                        rem - ?t - min (rem - ?t) (depth ls))
             else None)"
            using Cons.IH [of "rem - ?t" ?r] True yes Cons.prems part pos by simp
          moreover have "rem - ?t - min (rem - ?t) (depth ls) = rem - min rem (lots l + depth ls)"
            using dn by linarith
          ultimately show ?thesis
            unfolding step using True rem pos by (simp add: add.assoc)
        next
          case False
          then show ?thesis unfolding step using wn by (simp del: walk_cost_nonneg)
        qed
      qed
    qed
  qed
qed

lemma buy_vwap_linear_exact:
  fixes asks :: "PriceLevel list" and n :: nat
  assumes "0 < q" "n \<noteq> 0"
  defines "S \<equiv> take n asks"
  shows "buy_vwap_linear (Some asks) n q =
    (if depth S \<le> i64_max \<and> walk_cost S q \<le> i64_max
     then \<lparr>vm_ok = (q \<le> depth S), vm_total_cost_tick = walk_cost S q,
           vm_vwap_tick = (if q \<le> depth S then walk_cost S q sdiv q else 0),
           vm_worst_price_tick = walk_worst S q 0, vm_executable_qty_lots = depth S\<rparr>
     else empty_vwap)"
  using assms(1,2) unfolding S_def
  by (simp add: buy_vwap_linear_def vwap_linear_loop_exact empty_vwap_def)

subsection \<open>Best execution on ascending prices\<close>

definition ascending :: "PriceLevel list \<Rightarrow> bool" where
  "ascending levels \<longleftrightarrow> sorted (map price_tick (filter (\<lambda>l. 0 < lots l) levels))"

text \<open>A way of buying from the levels: how many lots from each, never more than it has.\<close>

definition allocation :: "PriceLevel list \<Rightarrow> int list \<Rightarrow> bool" where
  "allocation levels taken \<longleftrightarrow> list_all2 (\<lambda>l t. 0 \<le> t \<and> t \<le> lots l) levels taken"

definition allocation_cost :: "PriceLevel list \<Rightarrow> int list \<Rightarrow> int" where
  "allocation_cost levels taken =
     sum_list (map (\<lambda>(l, t). price_tick l * t) (zip levels taken))"

lemma allocation_le_depth: "allocation ls ts \<Longrightarrow> sum_list ts \<le> depth ls"
  unfolding allocation_def by (induction rule: list_all2_induct) simp_all

lemma allocation_nonneg: "allocation ls ts \<Longrightarrow> 0 \<le> sum_list ts"
  unfolding allocation_def by (induction rule: list_all2_induct) simp_all

text \<open>Buying more from levels that all cost at least \<open>p\<close> adds at least \<open>p\<close> per lot.\<close>

lemma walk_cost_slope:
  assumes "0 \<le> x" "x \<le> y" "y \<le> depth ls" "\<And>l. l \<in> set ls \<Longrightarrow> 0 < lots l \<Longrightarrow> p \<le> price_tick l"
  shows "walk_cost ls x + p * (y - x) \<le> walk_cost ls y"
  using assms
proof (induction ls arbitrary: x y)
  case (Cons l ls)
  let ?mx = "min x (lots l)" and ?my = "min y (lots l)"
  have diff: "0 \<le> ?my - ?mx" using Cons.prems by simp
  have "p * (?my - ?mx) \<le> price_tick l * (?my - ?mx)"
  proof (cases "0 < lots l")
    case True
    with Cons.prems have "p \<le> price_tick l" by simp
    then show ?thesis using diff by (rule mult_right_mono)
  next
    case False
    then have "lots l = 0" using lots_nonneg [of l] by linarith
    with Cons.prems show ?thesis by simp
  qed
  moreover have "walk_cost ls (x - ?mx) + p * ((y - ?my) - (x - ?mx)) \<le> walk_cost ls (y - ?my)"
    using Cons.prems by (intro Cons.IH) (auto simp: min_def)
  ultimately show ?case by (simp add: algebra_simps)
next
  case Nil
  then have "x = y" by simp
  then show ?case by simp
qed

lemma ascending_Cons:
  "ascending (l # ls) \<Longrightarrow> ascending ls"
  "ascending (l # ls) \<Longrightarrow> 0 < lots l \<Longrightarrow> k \<in> set ls \<Longrightarrow> 0 < lots k \<Longrightarrow> price_tick l \<le> price_tick k"
  by (auto simp: ascending_def split: if_splits)

lemma walk_cost_optimal:
  assumes "ascending ls" "allocation ls ts"
  shows "walk_cost ls (sum_list ts) \<le> allocation_cost ls ts"
  using assms
proof (induction ls arbitrary: ts)
  case Nil
  then show ?case by (simp add: allocation_cost_def)
next
  case (Cons l ls)
  then obtain t us where ts: "ts = t # us" "0 \<le> t" "t \<le> lots l" and us: "allocation ls us"
    by (auto simp: allocation_def list_all2_Cons1)
  let ?q = "t + sum_list us"
  let ?m = "min ?q (lots l)"
  have IH: "walk_cost ls (sum_list us) \<le> allocation_cost ls us"
    using Cons.IH [OF ascending_Cons(1) [OF Cons.prems(1)] us] .
  have mt: "t \<le> ?m" using ts allocation_nonneg [OF us] by simp
  have "walk_cost ls (?q - ?m) + price_tick l * (?m - t) \<le> walk_cost ls (sum_list us)"
  proof (cases "0 < lots l")
    case True
    have "walk_cost ls (?q - ?m) + price_tick l * (sum_list us - (?q - ?m))
        \<le> walk_cost ls (sum_list us)"
      using mt allocation_le_depth [OF us] ascending_Cons(2) [OF Cons.prems(1) True]
      by (intro walk_cost_slope) auto
    then show ?thesis by (simp add: algebra_simps)
  next
    case False
    then have "lots l = 0" using lots_nonneg [of l] by linarith
    with ts allocation_nonneg [OF us] show ?thesis by simp
  qed
  with IH show ?case by (simp add: ts allocation_cost_def algebra_simps)
qed

lemma walk_worst_at_level:
  assumes "ascending ls" "i < length ls" "depth (take i ls) < q" "q \<le> depth (take (Suc i) ls)"
    "\<And>l. l \<in> set ls \<Longrightarrow> 0 < lots l \<Longrightarrow> w \<le> price_tick l"
  shows "walk_worst ls q w = price_tick (ls ! i)"
  using assms
proof (induction ls arbitrary: i q w)
  case (Cons l ls)
  show ?case
  proof (cases i)
    case 0
    with Cons.prems have "0 < lots l" "0 < q" "min q (lots l) = q" "w \<le> price_tick l" by auto
    with 0 show ?thesis by (simp add: walk_worst_0 max_absorb2)
  next
    case (Suc j)
    have dn: "0 \<le> depth (take j ls)" by simp
    have m: "min q (lots l) = lots l" "0 < q"
      using Suc Cons.prems(3) dn lots_nonneg [of l] by (simp_all del: depth_nonneg lots_nonneg)
    have bound: "(if 0 < lots l then max w (price_tick l) else w) \<le> price_tick k"
      if "k \<in> set ls" "0 < lots k" for k
      using that Cons.prems(5) [of k] ascending_Cons(2) [OF Cons.prems(1) _ that] by auto
    have "walk_worst ls (q - lots l) (if 0 < lots l then max w (price_tick l) else w) =
        price_tick (ls ! j)"
    proof (rule Cons.IH)
      show "ascending ls" using Cons.prems(1) by (rule ascending_Cons(1))
      show "j < length ls" "depth (take j ls) < q - lots l" "q - lots l \<le> depth (take (Suc j) ls)"
        using Cons.prems(2-4) Suc by simp_all
    qed (rule bound)
    moreover have "lots l = 0" if "\<not> 0 < lots l" using that lots_nonneg [of l] by linarith
    ultimately show ?thesis using Suc m by (auto split: if_splits)
  qed
qed simp

lemma walk_worst_at_hit:
  assumes "ascending ls" "0 < q" "q \<le> i64_max" "q \<le> depth ls"
  shows "walk_worst ls q 0 = price_tick (ls ! hit_level ls q)"
  using hit_level_props [OF assms(2-4)] assms(1)
  by (intro walk_worst_at_level) (auto dest: lots_pos_price)

lemma walk_cost_le_worst:
  assumes "ascending ls" "i < length ls" "depth (take i ls) < q" "q \<le> depth (take (Suc i) ls)"
  shows "walk_cost ls q \<le> price_tick (ls ! i) * q"
  using assms
proof (induction ls arbitrary: i q)
  case (Cons l ls)
  show ?case
  proof (cases i)
    case 0
    with Cons.prems show ?thesis by (simp add: min_def walk_cost_0)
  next
    case (Suc j)
    have dn: "0 \<le> depth (take j ls)" by simp
    have m: "min q (lots l) = lots l"
      using Suc Cons.prems(3) dn by (simp del: depth_nonneg)
    have IH: "walk_cost ls (q - lots l) \<le> price_tick (ls ! j) * (q - lots l)"
    proof (rule Cons.IH)
      show "ascending ls" using Cons.prems(1) by (rule ascending_Cons(1))
      show "j < length ls" "depth (take j ls) < q - lots l" "q - lots l \<le> depth (take (Suc j) ls)"
        using Cons.prems(2-4) Suc by simp_all
    qed
    have "price_tick l * lots l \<le> price_tick (ls ! j) * lots l"
    proof (cases "0 < lots l")
      case True
      have "0 < lots (ls ! j)"
        using Cons.prems Suc by (simp add: take_Suc_conv_app_nth)
      then have "price_tick l \<le> price_tick (ls ! j)"
        using ascending_Cons(2) [OF Cons.prems(1) True] Cons.prems(2) Suc by simp
      then show ?thesis by (simp add: mult_right_mono)
    next
      case False
      then have "lots l = 0" using lots_nonneg [of l] by linarith
      then show ?thesis by simp
    qed
    with IH m Suc show ?thesis by (simp add: algebra_simps)
  qed
qed simp

subsection \<open>The interface of a pricing routine\<close>

text \<open>
  What a client of a pricing routine relies on: a price is given only for a positive quantity
  the book can cover, and it is the level-by-level cost. The client's facts follow once, for
  every routine.
\<close>

locale buy_pricer =
  fixes cost_of :: "PriceLevel list \<Rightarrow> i64 \<Rightarrow> i64 option"
  assumes cost_sound:
    "length asks = kMaxSnapshotDepth \<Longrightarrow> in_i64 q \<Longrightarrow> cost_of asks q = Some c \<Longrightarrow>
       0 < q \<and> q \<le> depth asks \<and> c = walk_cost asks q"
begin

lemma covered_cost_positive:
  assumes "length asks = kMaxSnapshotDepth" "in_i64 q" "cost_of asks q = Some c"
  shows "0 < c"
proof -
  note c = cost_sound [OF assms]
  have q: "q \<le> i64_max" using assms(2) by (simp add: in_i64_def)
  have "0 < price_tick (asks ! hit_level asks q) * (q - depth (take (hit_level asks q) asks))"
    using hit_level_valid(2) [of q asks] hit_level_props(2) [of q asks] c q by simp
  moreover have "0 \<le> book_cost (take (hit_level asks q) asks)" by simp
  ultimately show ?thesis using c walk_cost_at_hit [of q asks] q
    by (simp del: book_cost_nonneg)
qed

lemma best_execution:
  assumes "length asks = kMaxSnapshotDepth" "in_i64 q" "cost_of asks q = Some c"
    and "ascending asks" "allocation asks ts" "sum_list ts = q"
  shows "c \<le> allocation_cost asks ts"
  using cost_sound [OF assms(1-3)] walk_cost_optimal [OF assms(4,5)] assms(6) by simp

lemma larger_quantity_costs_more:
  assumes "length asks = kMaxSnapshotDepth" "in_i64 p" "in_i64 q" "p < q"
    and "cost_of asks p = Some c" "cost_of asks q = Some d"
  shows "c + (q - p) \<le> d"
proof -
  note p = cost_sound [OF assms(1,2,5)] and q = cost_sound [OF assms(1,3,6)]
  have "walk_cost asks p + 1 * (q - p) \<le> walk_cost asks q"
    using p q assms(4) by (intro walk_cost_slope) (auto dest: lots_pos_price)
  with p q show ?thesis by simp
qed

end

definition cost_from_prefix :: "PriceLevel list \<Rightarrow> i64 \<Rightarrow> i64 option" where
  "cost_from_prefix asks q =
     (let r = buy_vwap_from_prefix asks
                (build_depth_prefix [] 0 asks kMaxSnapshotDepth) q
      in if pv_ok r then Some (pv_total_cost_tick r) else None)"

definition cost_by_prefix :: "PriceLevel list \<Rightarrow> i64 \<Rightarrow> i64 option" where
  "cost_by_prefix asks q =
     (let r = buy_vwap_prefix (build_depth_prefix [] 0 asks kMaxSnapshotDepth)
                (Some asks) kMaxSnapshotDepth q
      in if vm_ok r then Some (vm_total_cost_tick r) else None)"

definition cost_by_walk :: "PriceLevel list \<Rightarrow> i64 \<Rightarrow> i64 option" where
  "cost_by_walk asks q =
     (let r = buy_vwap_linear (Some asks) kMaxSnapshotDepth q
      in if vm_ok r then Some (vm_total_cost_tick r) else None)"

lemma kMaxSnapshotDepth_nonzero [simp]: "0 < kMaxSnapshotDepth"
  by (simp add: kMaxSnapshotDepth_def)

lemma snapshot_side_full:
  "length asks = kMaxSnapshotDepth \<Longrightarrow> snapshot_side asks kMaxSnapshotDepth = asks"
  by (simp add: snapshot_side_def)

interpretation from_prefix: buy_pricer cost_from_prefix
  by unfold_locales
     (auto simp: cost_from_prefix_def Let_def buy_vwap_from_prefix_exact snapshot_side_full
       split: if_splits)

interpretation by_prefix: buy_pricer cost_by_prefix
  by unfold_locales
     (auto simp: cost_by_prefix_def Let_def buy_vwap_prefix_exact snapshot_side_full
       empty_vwap_def split: if_splits)

lemma buy_vwap_linear_nonpos: "q \<le> 0 \<Longrightarrow> buy_vwap_linear a n q = empty_vwap"
  by (simp add: buy_vwap_linear_def split: option.split)

interpretation by_walk: buy_pricer cost_by_walk
proof unfold_locales
  fix asks q c
  assume len: "length asks = kMaxSnapshotDepth" and cost: "cost_by_walk asks q = Some c"
  have "0 < q" using cost
    by (rule_tac ccontr) (simp add: cost_by_walk_def buy_vwap_linear_nonpos empty_vwap_def)
  with len cost show "0 < q \<and> q \<le> depth asks \<and> c = walk_cost asks q"
    by (auto simp: cost_by_walk_def Let_def buy_vwap_linear_exact empty_vwap_def
        split: if_splits)
qed

subsection \<open>Properties of the pricing routines\<close>

text \<open>A concrete ask side: two levels with lots, the rest of the array empty.\<close>

definition sample_level :: "int \<Rightarrow> rat \<Rightarrow> PriceLevel" where
  "sample_level tick sz = \<lparr>price_tick = tick, level_price = Fin 0, level_size = Fin sz\<rparr>"

definition sample_asks :: "PriceLevel list" where
  "sample_asks = [sample_level 10 5, sample_level 20 7] @ replicate 62 (sample_level 0 0)"

lemma lots_sample:
  "lots (sample_level 10 5) = 5" "lots (sample_level 20 7) = 7" "lots (sample_level 0 0) = 0"
  by (simp_all add: lots_def sample_level_def price_level_size_lots_def)

lemma depth_replicate_empty: "depth (replicate n (sample_level 0 0)) = 0"
  by (induction n) (simp_all add: lots_sample)

lemma list_all2_replicates: "P x y \<Longrightarrow> list_all2 P (replicate n x) (replicate n y)"
  by (induction n) simp_all

lemma length_sample_asks: "length sample_asks = kMaxSnapshotDepth"
  by (simp add: sample_asks_def kMaxSnapshotDepth_def)

lemma depth_sample_asks: "depth sample_asks = 12"
  by (simp add: sample_asks_def lots_sample depth_replicate_empty)

lemma ascending_sample_asks: "ascending sample_asks"
  by (simp add: ascending_def sample_asks_def lots_sample) (simp add: sample_level_def)

lemma walk_cost_sample_asks: "walk_cost sample_asks 8 = 110"
  by (simp add: sample_asks_def lots_sample walk_cost_0) (simp add: sample_level_def)

text \<open>
  C2: The lookup in the running totals prices a buy exactly: on the prefix built from a
  64-entry ask array, the result is successful if and only if the quantity is positive, the
  counted levels hold that many lots and the level-by-level cost fits into 64 bits, and then it
  is that cost, its truncated average and the price of the last level touched. Saturated
  running totals never leak into a successful result.
\<close>

theorem buy_vwap_from_prefix_correct:
  assumes "length asks = kMaxSnapshotDepth" "in_i64 q"
  shows "buy_vwap_from_prefix asks (build_depth_prefix bids nb asks na) q =
    (let S = snapshot_side asks na in
     if 0 < q \<and> q \<le> depth S \<and> walk_cost S q \<le> i64_max
     then \<lparr>pv_ok = True, pv_qty_lots = q, pv_total_cost_tick = walk_cost S q,
           pv_vwap_tick = walk_cost S q sdiv q,
           pv_worst_price_tick = price_tick (S ! hit_level S q)\<rparr>
     else \<lparr>pv_ok = False, pv_qty_lots = q, pv_total_cost_tick = 0, pv_vwap_tick = 0,
           pv_worst_price_tick = 0\<rparr>)"
  unfolding Let_def using assms by (rule buy_vwap_from_prefix_exact)

theorem buy_vwap_from_prefix_correct_witness:
  "pv_total_cost_tick (buy_vwap_from_prefix sample_asks
     (build_depth_prefix [] 0 sample_asks 64) 8) = 110"
  using buy_vwap_from_prefix_correct [OF length_sample_asks, of 8 "[]" 0 64]
  by (simp add: snapshot_side_full [OF length_sample_asks, unfolded kMaxSnapshotDepth_def]
      depth_sample_asks walk_cost_sample_asks in_i64_def i64_bounds)

text \<open>
  C3: The prefix lookup and the linear walk agree: on a counted ask side with ascending prices
  whose lots add up within 64 bits, both routines succeed on the same quantities and then
  return the same cost, average, worst price and executable lots.
\<close>

theorem buy_vwap_prefix_agrees_with_linear:
  assumes "length asks = kMaxSnapshotDepth" "na \<noteq> 0" "0 < q" "q \<le> i64_max"
    and "ascending (snapshot_side asks na)" "depth (snapshot_side asks na) \<le> i64_max"
  shows "vm_ok (buy_vwap_prefix (build_depth_prefix bids nb asks na) (Some asks) na q) =
      vm_ok (buy_vwap_linear (Some asks) na q) \<and>
    (vm_ok (buy_vwap_linear (Some asks) na q) \<longrightarrow>
      buy_vwap_prefix (build_depth_prefix bids nb asks na) (Some asks) na q =
      buy_vwap_linear (Some asks) na q)"
proof -
  let ?S = "snapshot_side asks na"
  have q: "in_i64 q" using assms(3,4) by (simp add: in_i64_nonneg)
  have S: "take na asks = ?S" using assms(1) by (simp add: snapshot_side_def min_def)
  have "vm_worst_price_tick (buy_vwap_linear (Some asks) na q) = price_tick (?S ! hit_level ?S q)"
    if "q \<le> depth ?S" "walk_cost ?S q \<le> i64_max"
    using that assms walk_worst_at_hit [OF assms(5,3,4)] by (simp add: buy_vwap_linear_exact S)
  then show ?thesis
    using assms by (auto simp: buy_vwap_prefix_exact [OF assms(1) q assms(2)]
        buy_vwap_linear_exact [OF assms(3,2)] S empty_vwap_def)
qed

theorem buy_vwap_prefix_agrees_with_linear_witness:
  "buy_vwap_prefix (build_depth_prefix [] 0 sample_asks kMaxSnapshotDepth)
     (Some sample_asks) kMaxSnapshotDepth 8 =
   buy_vwap_linear (Some sample_asks) kMaxSnapshotDepth 8"
proof -
  have "vm_ok (buy_vwap_linear (Some sample_asks) kMaxSnapshotDepth 8)"
    by (simp add: buy_vwap_linear_exact length_sample_asks depth_sample_asks
        walk_cost_sample_asks i64_bounds)
  then show ?thesis
    using buy_vwap_prefix_agrees_with_linear [OF length_sample_asks, of kMaxSnapshotDepth 8 "[]" 0]
    by (simp add: snapshot_side_full length_sample_asks ascending_sample_asks depth_sample_asks
        i64_bounds)
qed

text \<open>
  Best execution: when the asks are in ascending order, the cost the prefix lookup reports
  for a quantity is at most the cost of any way of taking that quantity from the same levels.
\<close>

theorem cost_from_prefix_best_execution:
  assumes "length asks = kMaxSnapshotDepth" "in_i64 q" "cost_from_prefix asks q = Some c"
    and "ascending asks" "allocation asks ts" "sum_list ts = q"
  shows "c \<le> allocation_cost asks ts"
  using assms by (rule from_prefix.best_execution)

theorem cost_from_prefix_best_execution_witness:
  "cost_from_prefix sample_asks 8 = Some 110 \<and>
   110 \<le> allocation_cost sample_asks ([1, 7] @ replicate 62 0)"
proof -
  have c: "cost_from_prefix sample_asks 8 = Some 110"
    by (simp add: cost_from_prefix_def buy_vwap_from_prefix_exact length_sample_asks
        snapshot_side_full depth_sample_asks walk_cost_sample_asks in_i64_def i64_bounds)
  have a: "allocation sample_asks ([1, 7] @ replicate 62 0)"
    by (simp add: allocation_def sample_asks_def lots_sample list_all2_replicates)
  show ?thesis
    using cost_from_prefix_best_execution [OF length_sample_asks _ c ascending_sample_asks a] c
    by (simp add: in_i64_def i64_bounds sum_list_replicate)
qed

end
