(* ===== verification/MarketView.thy ===== *)
theory MarketView
  imports DepthBook
begin

section \<open>Market snapshots and depth views\<close>

text \<open>
  \<open>engine/state/MarketStateSnapshot.h\<close>, the enumerations it uses, and
  \<open>engine/state/view/MarketDepthView.h\<close>: the read side of the state store that signal, risk,
  order decision and execution consume. A snapshot's levels beyond its counts are meaningless;
  \<open>market_depth_view_from_snapshot\<close> copies the counted levels, fills the rest of the array with
  default levels and attaches the running totals of \<^const>\<open>build_depth_prefix\<close>.
\<close>

datatype AggressorSide = AS_Unknown | AS_Buy | AS_Sell

datatype BookQuality =
    BQ_Unknown | BQ_Good | BQ_Stale | BQ_Recovering | BQ_Crossed | BQ_ChainMismatch
  | BQ_ChainLagging | BQ_Closed | BQ_Resolved

record MarketStateSnapshot =
  ms_entity_id :: string
  ms_market_id :: string
  ms_version :: u64
  ms_last_book_update_ns :: u64
  ms_live :: bool
  ms_recovering :: bool
  ms_closed :: bool
  ms_resolved :: bool
  ms_crossed :: bool
  ms_has_bid :: bool
  ms_has_ask :: bool
  ms_best_bid_tick :: i64
  ms_best_ask_tick :: i64
  ms_bid_count :: nat
  ms_ask_count :: nat
  ms_bids :: "PriceLevel list"
  ms_asks :: "PriceLevel list"
  ms_winning_asset_id :: string
  ms_snapshot_version_hash :: u64
  ms_state_hash :: u64
  ms_has_confirmed_trade :: bool
  ms_last_trade_price_tick :: i64
  ms_last_trade_size_lots :: i64
  ms_last_taker_side :: AggressorSide
  ms_confirmed_buy_lots_2s :: i64
  ms_confirmed_sell_lots_2s :: i64
  ms_confirmed_buy_lots_10s :: i64
  ms_confirmed_sell_lots_10s :: i64
  ms_quality :: BookQuality
  ms_usable_for_depth :: bool
  ms_usable_for_signal :: bool

record MarketDepthView =
  dv_asset_index :: u32
  dv_book_version :: u64
  dv_snapshot_version_hash :: u64
  dv_last_ws_recv_ns :: u64
  dv_usable_for_depth :: bool
  dv_recovering :: bool
  dv_crossed :: bool
  dv_closed :: bool
  dv_resolved :: bool
  dv_bid_count :: nat
  dv_ask_count :: nat
  dv_bids :: "PriceLevel list"
  dv_asks :: "PriceLevel list"
  dv_prefix :: DepthPrefix

definition default_level :: PriceLevel where
  "default_level = \<lparr>price_tick = 0, level_price = Fin 0, level_size = Fin 0\<rparr>"

definition copy_levels :: "nat \<Rightarrow> PriceLevel list \<Rightarrow> PriceLevel list" where
  "copy_levels n levels = take n levels @ replicate (kMaxSnapshotDepth - n) default_level"

definition market_depth_view_from_snapshot ::
  "MarketStateSnapshot \<Rightarrow> u32 \<Rightarrow> MarketDepthView" where
  "market_depth_view_from_snapshot snapshot asset_index =
     (let n_bids = min (ms_bid_count snapshot) kMaxSnapshotDepth;
          n_asks = min (ms_ask_count snapshot) kMaxSnapshotDepth;
          bids = copy_levels n_bids (ms_bids snapshot);
          asks = copy_levels n_asks (ms_asks snapshot)
      in \<lparr>dv_asset_index = asset_index,
          dv_book_version = ms_version snapshot,
          dv_snapshot_version_hash =
            (if ms_snapshot_version_hash snapshot \<noteq> 0 then ms_snapshot_version_hash snapshot
             else ms_state_hash snapshot),
          dv_last_ws_recv_ns = ms_last_book_update_ns snapshot,
          dv_usable_for_depth = ms_usable_for_depth snapshot,
          dv_recovering = ms_recovering snapshot,
          dv_crossed = ms_crossed snapshot,
          dv_closed = ms_closed snapshot,
          dv_resolved = ms_resolved snapshot,
          dv_bid_count = n_bids, dv_ask_count = n_asks,
          dv_bids = bids, dv_asks = asks,
          dv_prefix = build_depth_prefix bids n_bids asks n_asks\<rparr>)"

definition buy_vwap_from_view :: "MarketDepthView \<Rightarrow> i64 \<Rightarrow> PrefixVwapResult" where
  "buy_vwap_from_view view qty_lots = buy_vwap_from_prefix (dv_asks view) (dv_prefix view) qty_lots"

definition hash_depth_views :: "MarketDepthView list \<Rightarrow> u64" where
  "hash_depth_views views =
     foldl (\<lambda>hash view.
         fnv_u64 (dv_last_ws_recv_ns view)
           (fnv_u64 (dv_snapshot_version_hash view)
             (fnv_u64 (dv_book_version view) (fnv_u64 (ucast (dv_asset_index view)) hash))))
       fnv_offset views"

text \<open>The counted levels of a snapshot's side, and the same of the view built from it.\<close>

definition snapshot_asks :: "MarketStateSnapshot \<Rightarrow> PriceLevel list" where
  "snapshot_asks snapshot = take (ms_ask_count snapshot) (ms_asks snapshot)"

definition view_asks :: "MarketDepthView \<Rightarrow> PriceLevel list" where
  "view_asks view = take (dv_ask_count view) (dv_asks view)"

lemma take_copy_levels:
  "n \<le> length levels \<Longrightarrow> take n (copy_levels n levels) = take n levels"
  by (simp add: copy_levels_def)

lemma length_copy_levels:
  "n \<le> length levels \<Longrightarrow> n \<le> kMaxSnapshotDepth \<Longrightarrow> length (copy_levels n levels) = kMaxSnapshotDepth"
  by (simp add: copy_levels_def)

lemma view_asks_from_snapshot:
  assumes "length (ms_asks snapshot) = kMaxSnapshotDepth"
    and "ms_ask_count snapshot \<le> kMaxSnapshotDepth"
  shows "view_asks (market_depth_view_from_snapshot snapshot idx) = snapshot_asks snapshot"
    and "dv_ask_count (market_depth_view_from_snapshot snapshot idx) = ms_ask_count snapshot"
    and "dv_usable_for_depth (market_depth_view_from_snapshot snapshot idx) = ms_usable_for_depth snapshot"
  using assms by (simp_all add: view_asks_def snapshot_asks_def market_depth_view_from_snapshot_def
      Let_def take_copy_levels min_absorb1)

end
