(* ===== verification/RiskReprice.thy ===== *)
theory RiskReprice
  imports RiskPolicy MarketView
begin

section \<open>Cost revalidation\<close>

text \<open>
  \<open>engine/risk/reprice\<close>: before an intent is approved its cost is taken again, from the signal
  when the snapshots it saw are still the latest ones, otherwise by pricing every leg against
  the latest depth (\<open>VWAPRevalidator.cpp\<close>), and compared with the signal's estimate
  (\<open>CostRevalidator.cpp\<close>). The overloads over snapshots and over depth views have the same
  bodies; the model has each body once, with the lookup and the pricing of a leg as arguments.
  Stage timings are left out. Lemmas: what a successful repricing means leg by leg, and what
  the revalidated cost is on either path.
\<close>

subsection \<open>CostRevalidationResult\<close>

definition kMaxRevalidatedLegCosts :: nat where
  "kMaxRevalidatedLegCosts = 16"

record RevalidatedLegCost =
  lc_asset_id :: string
  lc_asset_index :: u32
  lc_requested_qty_lots :: i64
  lc_executable_qty_lots :: i64
  lc_depth_margin_bps :: i64
  lc_enough_depth :: bool

definition default_leg_cost :: RevalidatedLegCost where
  "default_leg_cost = \<lparr>lc_asset_id = [], lc_asset_index = 0, lc_requested_qty_lots = 0,
     lc_executable_qty_lots = 0, lc_depth_margin_bps = 0, lc_enough_depth = False\<rparr>"

record CostRevalidationResult =
  cr_ok :: bool
  cr_risk_total_cost_tick :: i64
  cr_risk_bundle_qty :: i64
  cr_fee_tick :: i64
  cr_slippage_buffer_tick :: i64
  cr_latency_buffer_tick :: i64
  cr_max_leg_slippage_tick :: i64
  cr_cost_drift_tick :: i64
  cr_vwap_mode :: RiskVWAPMode
  cr_leg_count :: nat
  cr_legs :: "RevalidatedLegCost list"
  cr_rejection :: RiskDecisionType
  cr_reason :: string

definition default_cost :: CostRevalidationResult where
  "default_cost = \<lparr>cr_ok = False, cr_risk_total_cost_tick = 0, cr_risk_bundle_qty = 0,
     cr_fee_tick = 0, cr_slippage_buffer_tick = 0, cr_latency_buffer_tick = 0,
     cr_max_leg_slippage_tick = 0, cr_cost_drift_tick = 0, cr_vwap_mode = RecomputedFromSnapshot,
     cr_leg_count = 0, cr_legs = replicate kMaxRevalidatedLegCosts default_leg_cost,
     cr_rejection = DT_Pass, cr_reason = []\<rparr>"

definition reject_cost :: "RiskDecisionType \<Rightarrow> string \<Rightarrow> CostRevalidationResult" where
  "reject_cost type reason =
     default_cost\<lparr>cr_ok := False, cr_rejection := type, cr_reason := reason\<rparr>"

subsection \<open>VWAPRevalidator\<close>

definition reprice_depth_margin_bps :: "i64 \<Rightarrow> i64 \<Rightarrow> i64" where
  "reprice_depth_margin_bps executable_qty_lots requested_qty_lots =
     (if requested_qty_lots \<le> 0 \<or> executable_qty_lots \<le> 0 then 0
      else ratio_bps executable_qty_lots requested_qty_lots)"

record LegReprice =
  lr_executable_lots :: i64
  lr_cost_tick :: i64

text \<open>
  The outcome of pricing one leg: a rejection or none, and the out-parameter with what was
  written to it before the return.
\<close>

type_synonym leg_outcome = "(RiskDecisionType \<times> string) option \<times> LegReprice"

definition price_leg_linear :: "PriceLevel list \<Rightarrow> nat \<Rightarrow> i64 \<Rightarrow> leg_outcome" where
  "price_leg_linear asks n_asks planned_qty_lots =
     (let priced = buy_vwap_linear (Some asks) (min n_asks kMaxSnapshotDepth) planned_qty_lots;
          out = \<lparr>lr_executable_lots = vm_executable_qty_lots priced, lr_cost_tick = 0\<rparr>
      in if lr_executable_lots out \<le> 0
         then (Some (RejectInsufficientDepth, ''no executable depth''), out)
         else if \<not> vm_ok priced
         then (Some (RejectReducedBundleQty, ''latest depth cannot fill original bundle quantity''), out)
         else (None, out\<lparr>lr_cost_tick := vm_total_cost_tick priced\<rparr>))"

definition reprice_buy_leg_snapshot :: "MarketStateSnapshot \<Rightarrow> i64 \<Rightarrow> leg_outcome" where
  "reprice_buy_leg_snapshot snapshot planned_qty_lots =
     (let out = \<lparr>lr_executable_lots = 0, lr_cost_tick = 0\<rparr> in
      if planned_qty_lots \<le> 0
      then (Some (RejectInsufficientDepth, ''invalid planned quantity''), out)
      else if \<not> ms_has_ask snapshot \<or> ms_ask_count snapshot = 0
      then (Some (RejectInsufficientDepth, ''missing ask side''), out)
      else price_leg_linear (ms_asks snapshot) (ms_ask_count snapshot) planned_qty_lots)"

definition reprice_buy_leg_view :: "MarketDepthView \<Rightarrow> i64 \<Rightarrow> leg_outcome" where
  "reprice_buy_leg_view view planned_qty_lots =
     (let out = \<lparr>lr_executable_lots = 0, lr_cost_tick = 0\<rparr> in
      if planned_qty_lots \<le> 0
      then (Some (RejectInsufficientDepth, ''invalid planned quantity''), out)
      else if dv_ask_count view = 0
      then (Some (RejectInsufficientDepth, ''missing ask side''), out)
      else if ask_count (dv_prefix view) > 0
      then
        (let out = out\<lparr>lr_executable_lots := ask_depth_from_prefix (dv_prefix view)\<rparr> in
         if lr_executable_lots out \<le> 0
         then (Some (RejectInsufficientDepth, ''no executable depth''), out)
         else if lr_executable_lots out < planned_qty_lots
         then (Some (RejectReducedBundleQty, ''latest depth cannot fill original bundle quantity''), out)
         else
           (let priced = buy_vwap_prefix (dv_prefix view) (Some (dv_asks view)) (dv_ask_count view)
                           planned_qty_lots
            in if \<not> vm_ok priced
               then (Some (RejectInsufficientDepth, ''prefix vwap failed''), out)
               else (None, out\<lparr>lr_cost_tick := vm_total_cost_tick priced\<rparr>)))
      else price_leg_linear (dv_asks view) (dv_ask_count view) planned_qty_lots)"

text \<open>
  The loop over the legs: \<open>Inl\<close> is an early return, \<open>Inr\<close> the accumulated result.
\<close>

fun reprice_legs ::
  "(IntentLeg \<Rightarrow> 'v option) \<Rightarrow> ('v \<Rightarrow> i64 \<Rightarrow> leg_outcome) \<Rightarrow> string \<Rightarrow> i64 \<Rightarrow> nat
     \<Rightarrow> IntentLeg list \<Rightarrow> CostRevalidationResult \<Rightarrow> CostRevalidationResult + CostRevalidationResult" where
  "reprice_legs lookup price missing bundle_qty i [] result = Inr result"
| "reprice_legs lookup price missing bundle_qty i (leg # legs) result =
     (if il_side leg \<noteq> Buy
      then Inl (reject_cost RejectInsufficientDepth ''SELL leg repricing is unsupported in risk v0'')
      else if il_asset_id leg = [] \<or> il_quantity_lots leg \<le> 0
      then Inl (reject_cost RejectInsufficientDepth ''invalid intent leg'')
      else
        (case lookup leg of
           None \<Rightarrow> Inl (reject_cost RejectInsufficientDepth missing)
         | Some v \<Rightarrow>
        (case checked_mul_i64 (il_quantity_lots leg) bundle_qty of
           None \<Rightarrow> Inl (reject_cost RejectInsufficientDepth ''planned quantity overflow'')
         | Some planned \<Rightarrow>
        (case price v planned of (rejection, lr) \<Rightarrow>
           (let executable = lr_executable_lots lr;
                leg_cost = \<lparr>lc_asset_id = il_asset_id leg, lc_asset_index = il_asset_index leg,
                            lc_requested_qty_lots = planned, lc_executable_qty_lots = executable,
                            lc_depth_margin_bps = reprice_depth_margin_bps executable planned,
                            lc_enough_depth = executable \<ge> planned\<rparr>;
                result = result\<lparr>cr_legs := (cr_legs result)[i := leg_cost]\<rparr>
            in case rejection of
                 Some (type, reason) \<Rightarrow>
                   Inl ((reject_cost type reason)\<lparr>
                     cr_leg_count := cr_leg_count result, cr_legs := cr_legs result,
                     cr_risk_bundle_qty := (if il_quantity_lots leg > 0
                                            then executable sdiv il_quantity_lots leg else 0)\<rparr>)
               | None \<Rightarrow>
                   (let result = result\<lparr>cr_risk_bundle_qty :=
                          min (cr_risk_bundle_qty result) (executable sdiv il_quantity_lots leg)\<rparr>
                    in case checked_add_i64 (cr_risk_total_cost_tick result) (lr_cost_tick lr) of
                         None \<Rightarrow> Inl (reject_cost RejectInsufficientDepth ''total cost overflow'')
                       | Some sum_tick \<Rightarrow>
                           reprice_legs lookup price missing bundle_qty (Suc i) legs
                             (result\<lparr>cr_risk_total_cost_tick := sum_tick\<rparr>)))))))"

definition reprice_with ::
  "(IntentLeg \<Rightarrow> 'v option) \<Rightarrow> ('v \<Rightarrow> i64 \<Rightarrow> leg_outcome) \<Rightarrow> string \<Rightarrow> OpportunityIntent
     \<Rightarrow> CostRevalidationResult" where
  "reprice_with lookup price missing intent =
     (if oi_bundle_qty intent \<le> 0 \<or> oi_leg_count intent = 0 \<or> oi_leg_count intent > kMaxIntentLegs
      then reject_cost RejectInsufficientDepth ''invalid intent quantity or legs''
      else
        (let start = default_cost\<lparr>cr_ok := True, cr_rejection := DT_Pass,
               cr_risk_bundle_qty := i64_max,
               cr_leg_count := min (oi_leg_count intent) kMaxRevalidatedLegCosts\<rparr>
         in case reprice_legs lookup price missing (oi_bundle_qty intent) 0 (intent_legs intent) start of
              Inl early \<Rightarrow> early
            | Inr result \<Rightarrow>
                if cr_risk_bundle_qty result = i64_max
                then reject_cost RejectInsufficientDepth ''no repriced legs''
                else if cr_risk_bundle_qty result < oi_bundle_qty intent
                then result\<lparr>cr_ok := False, cr_rejection := RejectReducedBundleQty,
                       cr_reason := ''latest bundle quantity below signal bundle quantity''\<rparr>
                else result))"

definition find_snapshot_of :: "MarketStateSnapshot list \<Rightarrow> IntentLeg \<Rightarrow> MarketStateSnapshot option" where
  "find_snapshot_of snapshots leg = find (\<lambda>s. ms_entity_id s = il_asset_id leg) snapshots"

definition find_view_of :: "MarketDepthView list \<Rightarrow> IntentLeg \<Rightarrow> MarketDepthView option" where
  "find_view_of views leg = find (\<lambda>v. dv_asset_index v = il_asset_index leg) views"

definition reprice_snapshots :: "OpportunityIntent \<Rightarrow> MarketStateSnapshot list \<Rightarrow> CostRevalidationResult" where
  "reprice_snapshots intent snapshots =
     reprice_with (find_snapshot_of snapshots) reprice_buy_leg_snapshot ''missing latest snapshot'' intent"

definition reprice_views :: "OpportunityIntent \<Rightarrow> MarketDepthView list \<Rightarrow> CostRevalidationResult" where
  "reprice_views intent views =
     reprice_with (find_view_of views) reprice_buy_leg_view ''missing latest depth view'' intent"

subsection \<open>CostRevalidator\<close>

definition depth_margin_bps :: "i64 \<Rightarrow> i64 \<Rightarrow> i64" where
  "depth_margin_bps executable_qty_lots requested_qty_lots =
     (if requested_qty_lots \<le> 0 \<or> executable_qty_lots \<le> 0 then 0
      else let value = executable_qty_lots * 10000 sdiv requested_qty_lots
           in if value > i64_max then i64_max else value)"

definition already_seen_asset :: "OpportunityIntent \<Rightarrow> nat \<Rightarrow> bool" where
  "already_seen_asset intent i \<longleftrightarrow>
     il_asset_id (oi_legs intent ! i) \<in> set (map il_asset_id (take i (oi_legs intent)))"

definition combined_snapshot_hash_matches :: "OpportunityIntent \<Rightarrow> u64 \<Rightarrow> bool" where
  "combined_snapshot_hash_matches intent snapshot_version_hash =
     (if oi_snapshot_version_hash intent = 0 \<or> oi_leg_count intent = 0 \<or>
         oi_leg_count intent > kMaxIntentLegs then False
      else snapshot_version_hash \<noteq> 0 \<and> snapshot_version_hash = oi_snapshot_version_hash intent)"

text \<open>A book's age, the unsigned difference read as a signed number, against the policy.\<close>

definition age_allowed :: "RiskPolicySnapshot \<Rightarrow> u64 \<Rightarrow> u64 \<Rightarrow> bool" where
  "age_allowed policy now_ns updated_ns \<longleftrightarrow>
     \<not> (rp_max_book_age_ns policy \<ge> 0 \<and> sint (now_ns - updated_ns) > rp_max_book_age_ns policy)"

text \<open>
  Freshness of what the legs refer to; \<open>updated\<close> finds a leg's update time. A leg without an
  asset or whose asset an earlier leg had is skipped.
\<close>

definition legs_are_fresh ::
  "(IntentLeg \<Rightarrow> u64 option) \<Rightarrow> OpportunityIntent \<Rightarrow> RiskPolicySnapshot \<Rightarrow> u64 \<Rightarrow> bool" where
  "legs_are_fresh updated intent policy now_ns \<longleftrightarrow>
     now_ns \<noteq> 0 \<and>
     list_all (\<lambda>i. let leg = oi_legs intent ! i in
        il_asset_id leg = [] \<or> already_seen_asset intent i \<or>
        (case updated leg of
           None \<Rightarrow> False
         | Some t \<Rightarrow> t \<noteq> 0 \<and> \<not> now_ns < t \<and> age_allowed policy now_ns t))
       [0..<oi_leg_count intent]"

definition snapshots_are_fresh ::
  "OpportunityIntent \<Rightarrow> MarketStateSnapshot list \<Rightarrow> RiskPolicySnapshot \<Rightarrow> u64 \<Rightarrow> bool" where
  "snapshots_are_fresh intent snapshots policy now_ns =
     legs_are_fresh (map_option ms_last_book_update_ns \<circ> find_snapshot_of snapshots) intent policy now_ns"

definition depth_views_are_fresh ::
  "OpportunityIntent \<Rightarrow> MarketDepthView list \<Rightarrow> RiskPolicySnapshot \<Rightarrow> u64 \<Rightarrow> bool" where
  "depth_views_are_fresh intent views policy now_ns =
     legs_are_fresh (map_option dv_last_ws_recv_ns \<circ> find_view_of views) intent policy now_ns"

definition signal_reusable :: "OpportunityIntent \<Rightarrow> u64 \<Rightarrow> u64 \<Rightarrow> bool" where
  "signal_reusable intent now_ns snapshot_version_hash =
     (if oi_expires_at_ns intent \<le> now_ns \<or> oi_bundle_qty intent \<le> 0 \<or>
         oi_estimated_cost_tick intent < 0 \<or> oi_leg_count intent = 0 \<or>
         oi_leg_count intent > kMaxIntentLegs then False
      else
        let original_bundle_qty =
              (if oi_original_bundle_qty intent > 0 then oi_original_bundle_qty intent
               else oi_bundle_qty intent)
        in if oi_bundle_qty intent > original_bundle_qty then False
           else if \<not> list_all (\<lambda>leg. il_side leg = Buy \<and> il_asset_id leg \<noteq> [] \<and>
                      il_quantity_lots leg > 0 \<and> il_enough_depth leg) (intent_legs intent)
           then False
           else combined_snapshot_hash_matches intent snapshot_version_hash)"

definition can_reuse_signal_snapshot ::
  "OpportunityIntent \<Rightarrow> MarketStateSnapshot list \<Rightarrow> RiskPolicySnapshot \<Rightarrow> u64 \<Rightarrow> u64 \<Rightarrow> bool" where
  "can_reuse_signal_snapshot intent snapshots policy now_ns snapshot_version_hash \<longleftrightarrow>
     signal_reusable intent now_ns snapshot_version_hash \<and>
     snapshots_are_fresh intent snapshots policy now_ns"

definition can_reuse_signal_depth_view ::
  "OpportunityIntent \<Rightarrow> MarketDepthView list \<Rightarrow> RiskPolicySnapshot \<Rightarrow> u64 \<Rightarrow> u64 \<Rightarrow> bool" where
  "can_reuse_signal_depth_view intent views policy now_ns snapshot_version_hash \<longleftrightarrow>
     signal_reusable intent now_ns snapshot_version_hash \<and>
     depth_views_are_fresh intent views policy now_ns"

definition reuse_leg :: "OpportunityIntent \<Rightarrow> IntentLeg \<Rightarrow> RevalidatedLegCost" where
  "reuse_leg intent source =
     (let requested = (if il_requested_qty_lots source > 0 then il_requested_qty_lots source
                       else saturating_mul_i64 (il_quantity_lots source) (oi_bundle_qty intent));
          executable = (if il_executable_qty_lots source > 0 then il_executable_qty_lots source
                        else if il_enough_depth source then requested else 0)
      in \<lparr>lc_asset_id = il_asset_id source, lc_asset_index = il_asset_index source,
          lc_requested_qty_lots = requested, lc_executable_qty_lots = executable,
          lc_depth_margin_bps = (if il_depth_margin_bps source > 0 then il_depth_margin_bps source
                                 else depth_margin_bps executable requested),
          lc_enough_depth = (il_enough_depth source \<and> executable \<ge> requested)\<rparr>)"

definition reuse_signal_snapshot :: "OpportunityIntent \<Rightarrow> CostRevalidationResult" where
  "reuse_signal_snapshot intent =
     (let n = min (oi_leg_count intent) kMaxRevalidatedLegCosts in
      default_cost\<lparr>cr_ok := True, cr_rejection := DT_Pass, cr_vwap_mode := ReuseSignalSnapshot,
        cr_risk_total_cost_tick := oi_estimated_cost_tick intent,
        cr_risk_bundle_qty := oi_bundle_qty intent,
        cr_max_leg_slippage_tick := oi_max_leg_slippage_tick intent, cr_cost_drift_tick := 0,
        cr_leg_count := n,
        cr_legs := map (reuse_leg intent) (take n (oi_legs intent)) @
                   replicate (kMaxRevalidatedLegCosts - n) default_leg_cost\<rparr>)"

text \<open>
  The common end of both overloads; the fee, slippage and latency revalidators return the
  intent's own estimates.
\<close>

definition finish_revalidation ::
  "OpportunityIntent \<Rightarrow> RiskPolicySnapshot \<Rightarrow> CostRevalidationResult \<Rightarrow> CostRevalidationResult" where
  "finish_revalidation intent policy result =
     (if \<not> cr_ok result then result
      else
        (let result = result\<lparr>cr_fee_tick := oi_estimated_fee_tick intent,
               cr_slippage_buffer_tick := oi_slippage_buffer_tick intent,
               cr_latency_buffer_tick := oi_latency_buffer_tick intent,
               cr_cost_drift_tick :=
                 wrap_i64 (cr_risk_total_cost_tick result - oi_estimated_cost_tick intent)\<rparr>
         in if cr_cost_drift_tick result > rp_max_allowed_cost_drift_tick policy
            then result\<lparr>cr_ok := False, cr_rejection := RejectCostDrift,
                        cr_reason := ''cost drift exceeds policy''\<rparr>
            else result\<lparr>cr_ok := True, cr_rejection := DT_Pass\<rparr>))"

definition revalidate_snapshots ::
  "OpportunityIntent \<Rightarrow> MarketStateSnapshot list \<Rightarrow> RiskPolicySnapshot \<Rightarrow> u64 \<Rightarrow> u64 \<Rightarrow> CostRevalidationResult" where
  "revalidate_snapshots intent snapshots policy now_ns snapshot_version_hash =
     finish_revalidation intent policy
       (if can_reuse_signal_snapshot intent snapshots policy now_ns snapshot_version_hash
        then reuse_signal_snapshot intent else reprice_snapshots intent snapshots)"

definition revalidate_views ::
  "OpportunityIntent \<Rightarrow> MarketDepthView list \<Rightarrow> RiskPolicySnapshot \<Rightarrow> u64 \<Rightarrow> u64 \<Rightarrow> CostRevalidationResult" where
  "revalidate_views intent views policy now_ns snapshot_version_hash =
     finish_revalidation intent policy
       (if can_reuse_signal_depth_view intent views policy now_ns snapshot_version_hash
        then reuse_signal_snapshot intent else reprice_views intent views)"

subsection \<open>The contract of pricing a leg\<close>

text \<open>
  What the repricing loop relies on: \<open>asks\<close> are the counted levels the leg is priced against.
  A leg is priced exactly when the levels hold the planned quantity and its level-by-level cost
  fits into 64 bits; then that cost and the whole depth are reported.
\<close>

locale leg_pricer =
  fixes price :: "'v \<Rightarrow> i64 \<Rightarrow> leg_outcome"
    and asks :: "'v \<Rightarrow> PriceLevel list"
    and wf :: "'v \<Rightarrow> bool"
  assumes priced: "wf v \<Longrightarrow> in_i64 q \<Longrightarrow> depth (asks v) < i64_max \<Longrightarrow>
      0 < q \<Longrightarrow> q \<le> depth (asks v) \<Longrightarrow> walk_cost (asks v) q \<le> i64_max \<Longrightarrow>
      price v q = (None, \<lparr>lr_executable_lots = depth (asks v), lr_cost_tick = walk_cost (asks v) q\<rparr>)"
    and refused: "wf v \<Longrightarrow> in_i64 q \<Longrightarrow> depth (asks v) < i64_max \<Longrightarrow>
      \<not> (0 < q \<and> q \<le> depth (asks v) \<and> walk_cost (asks v) q \<le> i64_max) \<Longrightarrow> fst (price v q) \<noteq> None"

definition planned_lots :: "i64 \<Rightarrow> IntentLeg \<Rightarrow> int" where
  "planned_lots bundle_qty leg = il_quantity_lots leg * bundle_qty"

definition leg_fillable :: "(IntentLeg \<Rightarrow> 'v option) \<Rightarrow> ('v \<Rightarrow> PriceLevel list) \<Rightarrow> i64 \<Rightarrow> IntentLeg \<Rightarrow> bool" where
  "leg_fillable lookup asks bundle_qty leg \<longleftrightarrow>
     il_side leg = Buy \<and> il_asset_id leg \<noteq> [] \<and> 0 < il_quantity_lots leg \<and>
     (case lookup leg of
        None \<Rightarrow> False
      | Some v \<Rightarrow> planned_lots bundle_qty leg \<le> depth (asks v) \<and>
                  walk_cost (asks v) (planned_lots bundle_qty leg) \<le> i64_max)"

definition leg_cost_of :: "(IntentLeg \<Rightarrow> 'v option) \<Rightarrow> ('v \<Rightarrow> PriceLevel list) \<Rightarrow> i64 \<Rightarrow> IntentLeg \<Rightarrow> int" where
  "leg_cost_of lookup asks bundle_qty leg =
     (case lookup leg of None \<Rightarrow> 0 | Some v \<Rightarrow> walk_cost (asks v) (planned_lots bundle_qty leg))"

definition leg_bundles :: "(IntentLeg \<Rightarrow> 'v option) \<Rightarrow> ('v \<Rightarrow> PriceLevel list) \<Rightarrow> IntentLeg \<Rightarrow> int" where
  "leg_bundles lookup asks leg =
     (case lookup leg of None \<Rightarrow> 0 | Some v \<Rightarrow> depth (asks v) div il_quantity_lots leg)"

lemma checked_ops_Some:
  "0 \<le> a + b \<Longrightarrow> checked_add_i64 a b = (if a + b \<le> i64_max then Some (a + b) else None)"
  "0 \<le> a * b \<Longrightarrow> checked_mul_i64 a b = (if a * b \<le> i64_max then Some (a * b) else None)"
  by (auto simp: checked_add_i64_def checked_mul_i64_def i64_bounds Let_def)

lemma div_le_dividend_int: "0 \<le> x \<Longrightarrow> 0 < d \<Longrightarrow> x div d \<le> x" for x d :: int
  using div_pos_pos_trivial [of x d] int_div_less_self [of x d] by (cases "d = 1"; cases "x = 0") auto

lemma leg_cost_nonneg:
  "leg_fillable lookup asks bundle_qty leg \<Longrightarrow> 0 < bundle_qty \<Longrightarrow> 0 \<le> leg_cost_of lookup asks bundle_qty leg"
  by (auto simp: leg_fillable_def leg_cost_of_def planned_lots_def split: option.splits)

lemma sum_leg_cost_nonneg:
  "list_all (leg_fillable lookup asks bundle_qty) legs \<Longrightarrow> 0 < bundle_qty \<Longrightarrow>
   0 \<le> (\<Sum>leg\<leftarrow>legs. leg_cost_of lookup asks bundle_qty leg)"
  by (intro sum_list_nonneg) (auto simp: list_all_iff leg_cost_nonneg)

lemma reject_cost_not_ok [simp]: "\<not> cr_ok (reject_cost type reason)"
  by (simp add: reject_cost_def)

context leg_pricer
begin

lemma reprice_step:
  assumes "\<And>v. lookup leg = Some v \<Longrightarrow> wf v \<and> depth (asks v) < i64_max" "0 < bundle_qty"
  shows "if leg_fillable lookup asks bundle_qty leg \<and>
      cr_risk_total_cost_tick r + leg_cost_of lookup asks bundle_qty leg \<le> i64_max \<and>
      0 \<le> cr_risk_total_cost_tick r
    then \<exists>legs'. reprice_legs lookup price missing bundle_qty i (leg # legs) r =
      reprice_legs lookup price missing bundle_qty (Suc i) legs
        (r\<lparr>cr_legs := legs',
           cr_risk_bundle_qty := min (cr_risk_bundle_qty r) (leg_bundles lookup asks leg),
           cr_risk_total_cost_tick := cr_risk_total_cost_tick r + leg_cost_of lookup asks bundle_qty leg\<rparr>)
    else 0 \<le> cr_risk_total_cost_tick r \<longrightarrow>
      (\<exists>early. reprice_legs lookup price missing bundle_qty i (leg # legs) r = Inl early \<and> \<not> cr_ok early)"
proof (cases "il_side leg = Buy \<and> il_asset_id leg \<noteq> [] \<and> 0 < il_quantity_lots leg \<and> lookup leg \<noteq> None")
  case False
  then show ?thesis by (auto simp: leg_fillable_def split: option.splits)
next
  case True
  then obtain v where v: "lookup leg = Some v" and leg: "il_side leg = Buy" "il_asset_id leg \<noteq> []"
    "0 < il_quantity_lots leg" by auto
  let ?q = "planned_lots bundle_qty leg"
  have q: "0 < ?q" using leg(3) assms(2) by (simp add: planned_lots_def)
  have wf: "wf v" "depth (asks v) < i64_max" using assms(1) v by auto
  show ?thesis
  proof (cases "leg_fillable lookup asks bundle_qty leg")
    case True
    then have fill: "?q \<le> depth (asks v)" "walk_cost (asks v) ?q \<le> i64_max"
      by (simp_all add: leg_fillable_def v)
    then have "in_i64 ?q" using q wf by (simp add: in_i64_nonneg)
    with priced wf q fill
    have pr: "price v ?q = (None, \<lparr>lr_executable_lots = depth (asks v), lr_cost_tick = walk_cost (asks v) ?q\<rparr>)"
      by blast
    have mul: "checked_mul_i64 (il_quantity_lots leg) bundle_qty = Some ?q"
      using q fill wf by (simp add: checked_ops_Some planned_lots_def)
    have add: "0 \<le> cr_risk_total_cost_tick r \<Longrightarrow>
        checked_add_i64 (cr_risk_total_cost_tick r) (walk_cost (asks v) ?q) =
        (if cr_risk_total_cost_tick r + walk_cost (asks v) ?q \<le> i64_max
         then Some (cr_risk_total_cost_tick r + walk_cost (asks v) ?q) else None)"
      using q by (intro checked_ops_Some) simp
    have "\<not> il_quantity_lots leg \<le> 0" using leg(3) by simp
    note evaluate_step = this leg v mul pr leg_cost_of_def leg_bundles_def sdiv_nonneg Let_def
    show ?thesis
    proof (cases "0 \<le> cr_risk_total_cost_tick r")
      case nonneg: True
      from True show ?thesis
        by (auto simp: evaluate_step add [OF nonneg] less_imp_le)
    qed simp
  next
    case False
    show ?thesis
    proof (cases "?q \<le> i64_max")
      case True
      then have "in_i64 ?q" using q by (simp add: in_i64_nonneg)
      with False leg v refused [OF wf(1) _ wf(2)] q have "fst (price v ?q) \<noteq> None"
        by (auto simp: leg_fillable_def)
      then obtain t reason lr where pr: "price v ?q = (Some (t, reason), lr)" by (cases "price v ?q") auto
      have mul: "checked_mul_i64 (il_quantity_lots leg) bundle_qty = Some ?q"
        using q True by (simp add: checked_ops_Some planned_lots_def)
      have "\<not> il_quantity_lots leg \<le> 0" using leg(3) by simp
      then show ?thesis by (simp add: leg v False mul pr Let_def)
    next
      case big: False
      then have mul: "checked_mul_i64 (il_quantity_lots leg) bundle_qty = None"
        using q by (simp add: checked_ops_Some planned_lots_def)
      have "\<not> il_quantity_lots leg \<le> 0" using leg(3) by simp
      then show ?thesis by (simp add: leg v False mul)
    qed
  qed
qed

lemma reprice_loop:
  assumes "\<forall>leg \<in> set legs. \<forall>v. lookup leg = Some v \<longrightarrow> wf v \<and> depth (asks v) < i64_max"
    and "0 < bundle_qty" "0 \<le> cr_risk_total_cost_tick r"
  shows "case reprice_legs lookup price missing bundle_qty i legs r of
      Inl early \<Rightarrow> \<not> cr_ok early \<and>
        \<not> (list_all (leg_fillable lookup asks bundle_qty) legs \<and>
           cr_risk_total_cost_tick r + (\<Sum>leg\<leftarrow>legs. leg_cost_of lookup asks bundle_qty leg) \<le> i64_max)
    | Inr r' \<Rightarrow> cr_ok r' = cr_ok r \<and> list_all (leg_fillable lookup asks bundle_qty) legs \<and>
        cr_risk_total_cost_tick r' =
          cr_risk_total_cost_tick r + (\<Sum>leg\<leftarrow>legs. leg_cost_of lookup asks bundle_qty leg) \<and>
        cr_risk_total_cost_tick r' \<le> max i64_max (cr_risk_total_cost_tick r) \<and>
        cr_risk_bundle_qty r' =
          foldl (\<lambda>b leg. min b (leg_bundles lookup asks leg)) (cr_risk_bundle_qty r) legs"
  using assms
proof (induction legs arbitrary: i r)
  case (Cons leg legs)
  let ?c = "leg_cost_of lookup asks bundle_qty leg"
  note step = reprice_step [of lookup leg bundle_qty r missing i legs]
  show ?case
  proof (cases "leg_fillable lookup asks bundle_qty leg \<and> cr_risk_total_cost_tick r + ?c \<le> i64_max")
    case True
    have "0 \<le> cr_risk_total_cost_tick r + ?c"
      using leg_cost_nonneg [of lookup asks bundle_qty leg] True Cons.prems(2,3) by auto
    moreover obtain legs' where "reprice_legs lookup price missing bundle_qty i (leg # legs) r =
      reprice_legs lookup price missing bundle_qty (Suc i) legs
        (r\<lparr>cr_legs := legs',
           cr_risk_bundle_qty := min (cr_risk_bundle_qty r) (leg_bundles lookup asks leg),
           cr_risk_total_cost_tick := cr_risk_total_cost_tick r + ?c\<rparr>)"
      using step True Cons.prems by force
    ultimately show ?thesis
      using True Cons.prems Cons.IH [of "r\<lparr>cr_legs := legs',
           cr_risk_bundle_qty := min (cr_risk_bundle_qty r) (leg_bundles lookup asks leg),
           cr_risk_total_cost_tick := cr_risk_total_cost_tick r + ?c\<rparr>" "Suc i"]
      by (auto simp: algebra_simps split: sum.splits)
  next
    case False
    then obtain early where early: "reprice_legs lookup price missing bundle_qty i (leg # legs) r = Inl early"
      "\<not> cr_ok early"
      using step Cons.prems by force
    have "\<not> (list_all (leg_fillable lookup asks bundle_qty) (leg # legs) \<and>
        cr_risk_total_cost_tick r + (\<Sum>leg\<leftarrow>leg # legs. leg_cost_of lookup asks bundle_qty leg) \<le> i64_max)"
      using False sum_leg_cost_nonneg [of lookup asks bundle_qty legs] Cons.prems(2) by auto
    with early show ?thesis by simp
  qed
qed simp

lemma bundles_bound:
  "(\<forall>leg \<in> set legs. n \<le> leg_bundles lookup asks leg) \<Longrightarrow> n \<le> b \<Longrightarrow>
   n \<le> foldl (\<lambda>b leg. min b (leg_bundles lookup asks leg)) b legs"
  by (induction legs arbitrary: b) auto

lemma fillable_bundles:
  assumes "leg_fillable lookup asks bundle_qty leg"
  shows "bundle_qty \<le> leg_bundles lookup asks leg"
  using assms by (auto simp: leg_fillable_def leg_bundles_def planned_lots_def le_div_iff_mult_le mult.commute
      split: option.splits)

lemma bundles_less_max:
  assumes "\<forall>leg \<in> set legs. \<forall>v. lookup leg = Some v \<longrightarrow> wf v \<and> depth (asks v) < i64_max"
    and "list_all (leg_fillable lookup asks bundle_qty) legs" "legs \<noteq> []"
  shows "foldl (\<lambda>b leg. min b (leg_bundles lookup asks leg)) b legs < i64_max"
proof -
  have le: "foldl (\<lambda>b leg. min b (leg_bundles lookup asks leg)) b ls \<le> b" for b and ls :: "IntentLeg list"
    by (induction ls arbitrary: b) (auto intro: order_trans [OF _ min.cobounded1])
  obtain leg rest where legs: "legs = leg # rest" using assms(3) by (cases legs) auto
  then obtain v where v: "lookup leg = Some v" "0 < il_quantity_lots leg"
    using assms(2) by (auto simp: leg_fillable_def split: option.splits)
  have "depth (asks v) div il_quantity_lots leg \<le> depth (asks v)"
    using v(2) by (intro div_le_dividend_int) simp_all
  with v(1) assms(1) legs have "leg_bundles lookup asks leg < i64_max"
    by (simp add: leg_bundles_def)
  then show ?thesis using le [of "min b (leg_bundles lookup asks leg)" rest] by (simp add: legs)
qed

lemma reprice_exact:
  assumes wf: "\<forall>leg \<in> set (intent_legs intent). \<forall>v. lookup leg = Some v \<longrightarrow> wf v \<and> depth (asks v) < i64_max"
    and "0 < oi_bundle_qty intent" "0 < oi_leg_count intent" "oi_leg_count intent \<le> kMaxIntentLegs"
    and "oi_legs intent \<noteq> []"
  shows "(cr_ok (reprice_with lookup price missing intent) \<longleftrightarrow>
      list_all (leg_fillable lookup asks (oi_bundle_qty intent)) (intent_legs intent) \<and>
      (\<Sum>leg\<leftarrow>intent_legs intent. leg_cost_of lookup asks (oi_bundle_qty intent) leg) \<le> i64_max) \<and>
    (cr_ok (reprice_with lookup price missing intent) \<longrightarrow>
      cr_risk_total_cost_tick (reprice_with lookup price missing intent) =
        (\<Sum>leg\<leftarrow>intent_legs intent. leg_cost_of lookup asks (oi_bundle_qty intent) leg) \<and>
      cr_risk_bundle_qty (reprice_with lookup price missing intent) =
        foldl (\<lambda>b leg. min b (leg_bundles lookup asks leg)) i64_max (intent_legs intent))"
proof -
  let ?legs = "intent_legs intent"
  let ?start = "default_cost\<lparr>cr_ok := True, cr_rejection := DT_Pass, cr_risk_bundle_qty := i64_max,
    cr_leg_count := min (oi_leg_count intent) kMaxRevalidatedLegCosts\<rparr>"
  have ne: "?legs \<noteq> []" using assms(3,5) by (simp add: intent_legs_def)
  note loop = reprice_loop [OF wf assms(2), of ?start missing 0]
  show ?thesis
  proof (cases "reprice_legs lookup price missing (oi_bundle_qty intent) 0 ?legs ?start")
    case (Inl early)
    with loop assms(2-4) show ?thesis by (simp add: reprice_with_def default_cost_def)
  next
    case (Inr r)
    with loop have fill: "list_all (leg_fillable lookup asks (oi_bundle_qty intent)) ?legs"
      by (simp add: default_cost_def)
    have "oi_bundle_qty intent \<le> i64_max"
    proof -
      obtain leg where leg: "leg \<in> set ?legs" using ne by (cases ?legs) auto
      with fill have "leg_fillable lookup asks (oi_bundle_qty intent) leg" by (simp add: list_all_iff)
      then have "oi_bundle_qty intent \<le> leg_bundles lookup asks leg"
        and "leg_bundles lookup asks leg < i64_max"
        using fillable_bundles bundles_less_max [of "[leg]" lookup "oi_bundle_qty intent" i64_max] leg wf
        by auto
      then show ?thesis by simp
    qed
    then have "oi_bundle_qty intent \<le> foldl (\<lambda>b leg. min b (leg_bundles lookup asks leg)) i64_max ?legs"
      using fill fillable_bundles by (intro bundles_bound) (auto simp: list_all_iff)
    moreover have "foldl (\<lambda>b leg. min b (leg_bundles lookup asks leg)) i64_max ?legs < i64_max"
      using bundles_less_max [OF wf fill ne] .
    ultimately show ?thesis
      using Inr loop assms(2-4) by (simp add: reprice_with_def default_cost_def)
  qed
qed

end

subsection \<open>Both pricings keep the contract\<close>

definition wf_snapshot :: "MarketStateSnapshot \<Rightarrow> bool" where
  "wf_snapshot s \<longleftrightarrow> length (ms_asks s) = kMaxSnapshotDepth \<and> (0 < ms_ask_count s \<longrightarrow> ms_has_ask s)"

definition wf_view :: "MarketDepthView \<Rightarrow> bool" where
  "wf_view v \<longleftrightarrow> length (dv_asks v) = kMaxSnapshotDepth \<and>
     dv_prefix v = build_depth_prefix (dv_bids v) (dv_bid_count v) (dv_asks v) (dv_ask_count v)"

definition counted_asks :: "MarketStateSnapshot \<Rightarrow> PriceLevel list" where
  "counted_asks s = snapshot_side (ms_asks s) (ms_ask_count s)"

definition counted_view_asks :: "MarketDepthView \<Rightarrow> PriceLevel list" where
  "counted_view_asks v = snapshot_side (dv_asks v) (dv_ask_count v)"

lemma snapshot_side_0 [simp]: "snapshot_side asks 0 = []"
  by (simp add: snapshot_side_def)

lemma depth_counted: "0 < depth (snapshot_side asks n) \<Longrightarrow> n \<noteq> 0"
  by (cases n) simp_all

lemma price_leg_linear_exact:
  assumes "0 < q" "n \<noteq> 0" "depth (snapshot_side asks n) < i64_max"
  shows "if q \<le> depth (snapshot_side asks n) \<and> walk_cost (snapshot_side asks n) q \<le> i64_max
    then price_leg_linear asks n q =
      (None, \<lparr>lr_executable_lots = depth (snapshot_side asks n), lr_cost_tick = walk_cost (snapshot_side asks n) q\<rparr>)
    else fst (price_leg_linear asks n q) \<noteq> None"
  using buy_vwap_linear_exact [OF assms(1), of "min n kMaxSnapshotDepth" asks] assms
  by (auto simp: price_leg_linear_def Let_def snapshot_side_def empty_vwap_def)

interpretation snapshot_pricer: leg_pricer reprice_buy_leg_snapshot counted_asks wf_snapshot
proof
  fix s q assume s: "wf_snapshot s" "in_i64 q" "depth (counted_asks s) < i64_max"
  show "fst (reprice_buy_leg_snapshot s q) \<noteq> None"
    if "\<not> (0 < q \<and> q \<le> depth (counted_asks s) \<and> walk_cost (counted_asks s) q \<le> i64_max)"
    using that price_leg_linear_exact [of q "ms_ask_count s" "ms_asks s"] s
    by (cases "0 < q \<and> ms_ask_count s \<noteq> 0 \<and> ms_has_ask s")
       (auto simp: reprice_buy_leg_snapshot_def counted_asks_def Let_def)
  assume q: "0 < q" "q \<le> depth (counted_asks s)" "walk_cost (counted_asks s) q \<le> i64_max"
  then have "ms_ask_count s \<noteq> 0" using depth_counted [of "ms_asks s" "ms_ask_count s"] by (simp add: counted_asks_def)
  with s q price_leg_linear_exact [of q "ms_ask_count s" "ms_asks s"]
  show "reprice_buy_leg_snapshot s q =
      (None, \<lparr>lr_executable_lots = depth (counted_asks s), lr_cost_tick = walk_cost (counted_asks s) q\<rparr>)"
    by (simp add: reprice_buy_leg_snapshot_def counted_asks_def wf_snapshot_def)
qed

lemma reprice_view_prefix:
  assumes "wf_view v" "in_i64 q" "0 < q" "dv_ask_count v \<noteq> 0" "depth (counted_view_asks v) < i64_max"
  shows "if q \<le> depth (counted_view_asks v) \<and> walk_cost (counted_view_asks v) q \<le> i64_max
    then reprice_buy_leg_view v q =
      (None, \<lparr>lr_executable_lots = depth (counted_view_asks v), lr_cost_tick = walk_cost (counted_view_asks v) q\<rparr>)
    else fst (reprice_buy_leg_view v q) \<noteq> None"
proof -
  let ?S = "counted_view_asks v"
  have len: "length (dv_asks v) = kMaxSnapshotDepth"
    and pre: "dv_prefix v = build_depth_prefix (dv_bids v) (dv_bid_count v) (dv_asks v) (dv_ask_count v)"
    using assms(1) by (simp_all add: wf_view_def)
  have cnt: "0 < ask_count (dv_prefix v)" using assms(4) by (simp add: pre build_ask_count)
  have "ask_depth_from_prefix (dv_prefix v) = min i64_max (depth ?S)"
    using build_last_cum [OF len, of "dv_ask_count v" "dv_bids v" "dv_bid_count v"] cnt
    unfolding ask_depth_from_prefix_def pre build_ask_count counted_view_asks_def by presburger
  then have d: "ask_depth_from_prefix (dv_prefix v) = depth ?S" using assms(5) by simp
  note vwap = buy_vwap_prefix_exact [OF len assms(2,4), of "dv_bids v" "dv_bid_count v", folded pre counted_view_asks_def]
  show ?thesis
    using assms(3,4) cnt by (auto simp: reprice_buy_leg_view_def d vwap empty_vwap_def Let_def)
qed

interpretation view_pricer: leg_pricer reprice_buy_leg_view counted_view_asks wf_view
proof
  fix v q assume v: "wf_view v" "in_i64 q" "depth (counted_view_asks v) < i64_max"
  show "fst (reprice_buy_leg_view v q) \<noteq> None"
    if "\<not> (0 < q \<and> q \<le> depth (counted_view_asks v) \<and> walk_cost (counted_view_asks v) q \<le> i64_max)"
    using that reprice_view_prefix [OF v(1,2) _ _ v(3)]
    by (cases "0 < q \<and> dv_ask_count v \<noteq> 0") (auto simp: reprice_buy_leg_view_def Let_def split: if_splits)
  assume q: "0 < q" "q \<le> depth (counted_view_asks v)" "walk_cost (counted_view_asks v) q \<le> i64_max"
  then have "dv_ask_count v \<noteq> 0" using depth_counted [of "dv_asks v" "dv_ask_count v"] by (simp add: counted_view_asks_def)
  with q reprice_view_prefix [OF v(1,2) _ _ v(3)]
  show "reprice_buy_leg_view v q =
      (None, \<lparr>lr_executable_lots = depth (counted_view_asks v), lr_cost_tick = walk_cost (counted_view_asks v) q\<rparr>)"
    by simp
qed

subsection \<open>Properties\<close>

text \<open>
  C16: Repricing against the latest depth is exact: for an intent with a positive quantity and
  1 to 16 legs, over well-formed depth views, the repricing succeeds if and only if every leg is
  a buy with an asset and a positive quantity, its view is known and holds the planned quantity,
  and the level-by-level costs fit into 64 bits with their sum. On success the total cost is
  that sum, and the bundle quantity is the number of bundles the scarcest leg's whole depth
  would supply.
\<close>
theorem reprice_views_exact:
  assumes "\<forall>leg \<in> set (intent_legs intent). \<forall>v. find_view_of views leg = Some v \<longrightarrow>
      wf_view v \<and> depth (counted_view_asks v) < i64_max"
    and "0 < oi_bundle_qty intent" "0 < oi_leg_count intent" "oi_leg_count intent \<le> kMaxIntentLegs"
    and "oi_legs intent \<noteq> []"
  shows "(cr_ok (reprice_views intent views) \<longleftrightarrow>
      list_all (leg_fillable (find_view_of views) counted_view_asks (oi_bundle_qty intent)) (intent_legs intent) \<and>
      (\<Sum>leg\<leftarrow>intent_legs intent. leg_cost_of (find_view_of views) counted_view_asks (oi_bundle_qty intent) leg)
        \<le> i64_max) \<and>
    (cr_ok (reprice_views intent views) \<longrightarrow>
      cr_risk_total_cost_tick (reprice_views intent views) =
        (\<Sum>leg\<leftarrow>intent_legs intent. leg_cost_of (find_view_of views) counted_view_asks (oi_bundle_qty intent) leg) \<and>
      cr_risk_bundle_qty (reprice_views intent views) =
        foldl (\<lambda>b leg. min b (leg_bundles (find_view_of views) counted_view_asks leg)) i64_max
          (intent_legs intent))"
  unfolding reprice_views_def using assms by (rule view_pricer.reprice_exact)

definition quoted_view :: MarketDepthView where
  "quoted_view =
     \<lparr>dv_asset_index = 1, dv_book_version = 1, dv_snapshot_version_hash = 14,
      dv_last_ws_recv_ns = 90, dv_usable_for_depth = True, dv_recovering = False,
      dv_crossed = False, dv_closed = False, dv_resolved = False, dv_bid_count = 0,
      dv_ask_count = kMaxSnapshotDepth, dv_bids = [], dv_asks = sample_asks,
      dv_prefix = build_depth_prefix [] 0 sample_asks kMaxSnapshotDepth\<rparr>"

definition two_bundles :: OpportunityIntent where
  "two_bundles = sample_intent\<lparr>oi_bundle_qty := 2, oi_original_bundle_qty := 2,
     oi_legs := [sample_leg\<lparr>il_quantity_lots := 4\<rparr>]\<rparr>"

lemma quoted_view_facts:
  "wf_view quoted_view" "counted_view_asks quoted_view = sample_asks"
  by (simp_all add: wf_view_def counted_view_asks_def quoted_view_def length_sample_asks snapshot_side_full)

theorem reprice_views_exact_witness:
  "cr_ok (reprice_views two_bundles [quoted_view]) \<and>
   cr_risk_total_cost_tick (reprice_views two_bundles [quoted_view]) = 110 \<and>
   cr_risk_bundle_qty (reprice_views two_bundles [quoted_view]) = 3"
proof -
  have legs: "intent_legs two_bundles = [sample_leg\<lparr>il_quantity_lots := 4\<rparr>]"
    by (simp add: two_bundles_def intent_legs_def sample_intent_def)
  have found: "find_view_of [quoted_view] (sample_leg\<lparr>il_quantity_lots := 4\<rparr>) = Some quoted_view"
    by (simp add: find_view_of_def quoted_view_def sample_leg_def)
  have "oi_bundle_qty two_bundles = 2" "oi_leg_count two_bundles = 1" "oi_legs two_bundles \<noteq> []"
    by (simp_all add: two_bundles_def sample_intent_def)
  then show ?thesis
    using reprice_views_exact [of two_bundles "[quoted_view]"]
    by (simp add: legs found quoted_view_facts depth_sample_asks leg_fillable_def leg_cost_of_def
        leg_bundles_def planned_lots_def walk_cost_sample_asks i64_bounds kMaxIntentLegs_def)
       (simp add: sample_leg_def)
qed

end
