(* ===== verification/Reservations.thy ===== *)
theory Reservations
  imports RiskTypes
begin

section \<open>The risk ledgers and the reservation book\<close>

text \<open>
  \<open>engine/risk/ledger\<close>: \<open>Reservation.h\<close>, \<open>ExposureLedger\<close>, \<open>InventoryLedger\<close>,
  \<open>RiskLedger\<close> and \<open>ReservationBook\<close>. A reservation holds up to 16 assets with lots and up
  to 16 markets with exposure; the two entry structs have the same shape and are one record
  here, an interned-string pointer being \<open>None\<close> (null) or \<open>Some\<close> of the string it points
  to. The ledgers keep totals and per-key balances in hash maps; an unchecked 64-bit sum is
  \<^const>\<open>wrap_i64\<close> of the sum. The book appends reservations, finds them by their number, keeps
  the keys of the active ones and calls the ledgers. Lemmas: the ledgers implement one
  contract (\<open>reservation_ledger\<close>), the book's invariant ties the ledgers and the key map to the
  active reservations, and every operation keeps it.
\<close>

subsection \<open>Reservation.h\<close>

definition kMaxReservedLegs :: nat where
  "kMaxReservedLegs = 16"

datatype ReservationStatus = Active | Released | Expired | Consumed

record ReservedEntry =
  re_index :: u32
  re_id :: "string option"
  re_amount :: i64

type_synonym ReservedAssetLot = ReservedEntry
type_synonym ReservedMarketExposure = ReservedEntry

record RiskReservation =
  rr_reservation_id :: u64
  rr_intent_id :: u64
  rr_bundle_id :: u64
  rr_idempotency_hash :: u64
  rr_reserved_cost_tick :: i64
  rr_reserved_exposure_tick :: i64
  rr_assets :: "ReservedAssetLot list"
  rr_markets :: "ReservedMarketExposure list"
  rr_created_ts_ns :: u64
  rr_expires_at_ns :: u64
  rr_status :: ReservationStatus
  rr_ledger_reserved :: bool
  rr_idempotency_key :: string

definition default_reservation :: RiskReservation where
  "default_reservation =
     \<lparr>rr_reservation_id = 0, rr_intent_id = 0, rr_bundle_id = 0, rr_idempotency_hash = 0,
      rr_reserved_cost_tick = 0, rr_reserved_exposure_tick = 0, rr_assets = [],
      rr_markets = [], rr_created_ts_ns = 0, rr_expires_at_ns = 0, rr_status = Active,
      rr_ledger_reserved = False, rr_idempotency_key = []\<rparr>"

datatype ReservationResult =
    Accepted (accepted_id: u64)
  | Refused (refused_reason: RiskRejectReason) (refused_detail: string)

subsection \<open>The hash maps of the ledgers\<close>

type_synonym balances = "string \<rightharpoonup> i64"

definition balance_of :: "balances \<Rightarrow> string \<Rightarrow> i64" where
  "balance_of m key = (case m key of None \<Rightarrow> 0 | Some v \<Rightarrow> v)"

text \<open>One round of the reserve loops: \<open>map[*id] += amount\<close>, skipping a null id.\<close>

definition reserve_entry :: "balances \<Rightarrow> ReservedEntry \<Rightarrow> balances" where
  "reserve_entry m e =
     (case re_id e of
        None \<Rightarrow> m
      | Some key \<Rightarrow> m(key \<mapsto> wrap_i64 (balance_of m key + re_amount e)))"

text \<open>One round of the release loops: subtract where the key is present, erase a zero.\<close>

definition release_entry :: "balances \<Rightarrow> ReservedEntry \<Rightarrow> balances" where
  "release_entry m e =
     (case re_id e of
        None \<Rightarrow> m
      | Some key \<Rightarrow>
          (case m key of
             None \<Rightarrow> m
           | Some v \<Rightarrow>
               (let v' = wrap_i64 (v - re_amount e)
                in if v' = 0 then m(key := None) else m(key \<mapsto> v'))))"

subsection \<open>ExposureLedger, InventoryLedger, RiskLedger\<close>

record ExposureLedger =
  el_total_reserved_cost_tick :: i64
  el_total_reserved_exposure_tick :: i64
  el_market_reserved_exposure_tick :: balances

definition exposure_reserve :: "RiskReservation \<Rightarrow> ExposureLedger \<Rightarrow> ExposureLedger" where
  "exposure_reserve reservation l =
     \<lparr>el_total_reserved_cost_tick =
        wrap_i64 (el_total_reserved_cost_tick l + rr_reserved_cost_tick reservation),
      el_total_reserved_exposure_tick =
        wrap_i64 (el_total_reserved_exposure_tick l + rr_reserved_exposure_tick reservation),
      el_market_reserved_exposure_tick =
        foldl reserve_entry (el_market_reserved_exposure_tick l) (rr_markets reservation)\<rparr>"

definition exposure_release :: "RiskReservation \<Rightarrow> ExposureLedger \<Rightarrow> ExposureLedger" where
  "exposure_release reservation l =
     \<lparr>el_total_reserved_cost_tick =
        wrap_i64 (el_total_reserved_cost_tick l - rr_reserved_cost_tick reservation),
      el_total_reserved_exposure_tick =
        wrap_i64 (el_total_reserved_exposure_tick l - rr_reserved_exposure_tick reservation),
      el_market_reserved_exposure_tick =
        foldl release_entry (el_market_reserved_exposure_tick l) (rr_markets reservation)\<rparr>"

record InventoryLedger =
  inv_asset_reserved_lots :: balances

definition inventory_reserve :: "RiskReservation \<Rightarrow> InventoryLedger \<Rightarrow> InventoryLedger" where
  "inventory_reserve reservation l =
     \<lparr>inv_asset_reserved_lots =
        foldl reserve_entry (inv_asset_reserved_lots l) (rr_assets reservation)\<rparr>"

definition inventory_release :: "RiskReservation \<Rightarrow> InventoryLedger \<Rightarrow> InventoryLedger" where
  "inventory_release reservation l =
     \<lparr>inv_asset_reserved_lots =
        foldl release_entry (inv_asset_reserved_lots l) (rr_assets reservation)\<rparr>"

record RiskLedger =
  exposure :: ExposureLedger
  inventory :: InventoryLedger

definition ledger_reserve :: "RiskReservation \<Rightarrow> RiskLedger \<Rightarrow> RiskLedger" where
  "ledger_reserve reservation l =
     \<lparr>exposure = exposure_reserve reservation (exposure l),
      inventory = inventory_reserve reservation (inventory l)\<rparr>"

definition ledger_release :: "RiskReservation \<Rightarrow> RiskLedger \<Rightarrow> RiskLedger" where
  "ledger_release reservation l =
     \<lparr>exposure = exposure_release reservation (exposure l),
      inventory = inventory_release reservation (inventory l)\<rparr>"

definition empty_ledger :: RiskLedger where
  "empty_ledger =
     \<lparr>exposure = \<lparr>el_total_reserved_cost_tick = 0, el_total_reserved_exposure_tick = 0,
                  el_market_reserved_exposure_tick = Map.empty\<rparr>,
      inventory = \<lparr>inv_asset_reserved_lots = Map.empty\<rparr>\<rparr>"

subsection \<open>ReservationBook: keys and entries of a reservation\<close>

record ReservationKey =
  rk_idempotency_hash :: u64
  rk_bundle_id :: u64

definition hash_string :: "string \<Rightarrow> u64" where
  "hash_string value = fnv_string value fnv_offset"

definition compact_index :: "string \<Rightarrow> u32" where
  "compact_index value =
     (let hash = hash_string value
      in ucast (drop_bit 32 hash XOR (hash AND 0xFFFFFFFF)))"

definition reservation_key_for :: "OpportunityIntent \<Rightarrow> ReservationKey" where
  "reservation_key_for intent =
     \<lparr>rk_idempotency_hash =
        (if oi_idempotency_hash intent \<noteq> 0 then oi_idempotency_hash intent
         else hash_string (oi_idempotency_key intent)),
      rk_bundle_id = oi_bundle_id intent\<rparr>"

definition is_active :: "RiskReservation \<Rightarrow> bool" where
  "is_active reservation \<longleftrightarrow> rr_status reservation = Active"

text \<open>
  The search loop of \<open>add_asset_lot\<close> and \<open>add_market_exposure\<close>: add to the entry with the
  same string, else append while there is room.
\<close>

fun merge_entry :: "ReservedEntry list \<Rightarrow> string \<Rightarrow> i64 \<Rightarrow> ReservedEntry list option" where
  "merge_entry [] key amount = None"
| "merge_entry (e # es) key amount =
     (if re_id e = Some key
      then Some (e\<lparr>re_amount := wrap_i64 (re_amount e + amount)\<rparr> # es)
      else map_option ((#) e) (merge_entry es key amount))"

definition add_entry :: "ReservedEntry list \<Rightarrow> string option \<Rightarrow> i64 \<Rightarrow> ReservedEntry list" where
  "add_entry es key amount =
     (case key of
        None \<Rightarrow> es
      | Some k \<Rightarrow>
          if k = [] \<or> amount = 0 then es
          else
            (case merge_entry es k amount of
               Some es' \<Rightarrow> es'
             | None \<Rightarrow>
                 if length es \<ge> kMaxReservedLegs then es
                 else es @ [\<lparr>re_index = compact_index k, re_id = Some k, re_amount = amount\<rparr>]))"

definition add_asset_lot :: "RiskReservation \<Rightarrow> string option \<Rightarrow> i64 \<Rightarrow> RiskReservation" where
  "add_asset_lot reservation asset_id n =
     reservation\<lparr>rr_assets := add_entry (rr_assets reservation) asset_id n\<rparr>"

definition add_market_exposure ::
  "RiskReservation \<Rightarrow> string option \<Rightarrow> i64 \<Rightarrow> RiskReservation" where
  "add_market_exposure reservation market_id exposure_tick =
     reservation\<lparr>rr_markets := add_entry (rr_markets reservation) market_id exposure_tick\<rparr>"

subsection \<open>ReservationBook: state and operations\<close>

record ReservationBook =
  next_reservation_id :: u64
  reservations :: "RiskReservation list"
  active_reservation_keys :: "ReservationKey \<rightharpoonup> u64"
  interned_strings :: "string set"
  ledger :: RiskLedger

definition empty_book :: ReservationBook where
  "empty_book =
     \<lparr>next_reservation_id = 1, reservations = [], active_reservation_keys = Map.empty,
      interned_strings = {}, ledger = empty_ledger\<rparr>"

definition intern_string :: "string \<Rightarrow> string set \<Rightarrow> string option \<times> string set" where
  "intern_string value interned =
     (if value = [] then (None, interned) else (Some value, insert value interned))"

fun reserve_legs :: "IntentLeg list \<Rightarrow> RiskReservation \<Rightarrow> string set \<Rightarrow> RiskReservation \<times> string set" where
  "reserve_legs [] reservation interned = (reservation, interned)"
| "reserve_legs (leg # legs) reservation interned =
     (let (asset_id, interned1) = intern_string (il_asset_id leg) interned;
          (market_id, interned2) = intern_string (il_market_id leg) interned1
      in reserve_legs legs
           (add_market_exposure
              (add_asset_lot reservation asset_id (il_quantity_lots leg))
              market_id (max (il_estimated_cost_tick leg) 0))
           interned2)"

definition build_reservation ::
  "OpportunityIntent \<Rightarrow> u64 \<Rightarrow> RiskReservation \<Rightarrow> bool \<Rightarrow> string set \<Rightarrow> RiskReservation \<times> string set" where
  "build_reservation intent now_ns reservation track_ledger_detail interned =
     (let r = reservation\<lparr>
            rr_intent_id := oi_intent_id intent,
            rr_bundle_id := oi_bundle_id intent,
            rr_reserved_cost_tick := oi_estimated_cost_tick intent,
            rr_reserved_exposure_tick := max (oi_estimated_cost_tick intent) 0,
            rr_created_ts_ns := now_ns,
            rr_expires_at_ns := oi_expires_at_ns intent,
            rr_idempotency_key := oi_idempotency_key intent,
            rr_idempotency_hash :=
              (if oi_idempotency_hash intent \<noteq> 0 then oi_idempotency_hash intent
               else hash_string (oi_idempotency_key intent))\<rparr>
      in if \<not> track_ledger_detail then (r, interned)
         else reserve_legs (intent_legs intent) r interned)"

definition try_reserve ::
  "ReservationBook \<Rightarrow> OpportunityIntent \<Rightarrow> RiskDecision \<Rightarrow> u64 \<Rightarrow> bool
     \<Rightarrow> ReservationBook \<times> ReservationResult" where
  "try_reserve book intent decision now_ns track_ledger_detail =
     (if \<not> approved decision
      then (book, Refused NotEvaluated ''reservation requires approved risk decision'')
      else if oi_idempotency_hash intent = 0 \<and> oi_idempotency_key intent = []
      then (book, Refused MissingEvidence ''reservation requires idempotency evidence'')
      else
        let key = reservation_key_for intent in
        if rk_idempotency_hash key = 0
        then (book, Refused MissingEvidence ''reservation requires idempotency_hash'')
        else if oi_expires_at_ns intent \<le> now_ns
        then (book, Refused ExpiredIntent ''intent expired'')
        else
          let reservation_id = next_reservation_id book in
          if active_reservation_keys book key \<noteq> None
          then (book, Refused DuplicateReservation
                  ''active reservation already exists for idempotency_hash'')
          else
            let (built, interned) =
                  build_reservation intent now_ns default_reservation track_ledger_detail
                    (interned_strings book);
                reservation = built\<lparr>rr_idempotency_hash := rk_idempotency_hash key,
                                    rr_reservation_id := reservation_id\<rparr>
            in (\<lparr>next_reservation_id = reservation_id + 1,
                 reservations = reservations book @ [reservation\<lparr>rr_ledger_reserved := True\<rparr>],
                 active_reservation_keys =
                   (active_reservation_keys book)(key \<mapsto> reservation_id),
                 interned_strings = interned,
                 ledger = ledger_reserve reservation (ledger book)\<rparr>,
                Accepted reservation_id))"

definition find_reservation :: "RiskReservation list \<Rightarrow> u64 \<Rightarrow> RiskReservation option" where
  "find_reservation rs reservation_id =
     (if reservation_id = 0 \<or> unat reservation_id > length rs then None
      else
        let reservation = rs ! (unat reservation_id - 1)
        in if rr_reservation_id reservation = reservation_id then Some reservation else None)"

definition key_of :: "RiskReservation \<Rightarrow> ReservationKey" where
  "key_of r = \<lparr>rk_idempotency_hash = rr_idempotency_hash r, rk_bundle_id = rr_bundle_id r\<rparr>"

text \<open>
  What \<open>release\<close> and \<open>expire_old\<close> do to one reservation: give its amounts back to the ledger
  (once), erase its key, set its final status.
\<close>

definition retire :: "ReservationStatus \<Rightarrow> RiskReservation \<Rightarrow> RiskReservation" where
  "retire status r = r\<lparr>rr_ledger_reserved := False, rr_status := status\<rparr>"

definition retire_ledger :: "RiskReservation \<Rightarrow> RiskLedger \<Rightarrow> RiskLedger" where
  "retire_ledger r l = (if rr_ledger_reserved r then ledger_release r l else l)"

definition release :: "ReservationBook \<Rightarrow> u64 \<Rightarrow> ReservationBook" where
  "release book reservation_id =
     (case find_reservation (reservations book) reservation_id of
        None \<Rightarrow> book
      | Some r \<Rightarrow>
          if \<not> is_active r then book
          else book\<lparr>
            reservations := (reservations book)[unat reservation_id - 1 := retire Released r],
            active_reservation_keys := (active_reservation_keys book)(key_of r := None),
            ledger := retire_ledger r (ledger book)\<rparr>)"

fun expire_loop ::
  "u64 \<Rightarrow> RiskReservation list \<Rightarrow> (ReservationKey \<rightharpoonup> u64) \<Rightarrow> RiskLedger
     \<Rightarrow> RiskReservation list \<times> (ReservationKey \<rightharpoonup> u64) \<times> RiskLedger" where
  "expire_loop now_ns [] ks l = ([], ks, l)"
| "expire_loop now_ns (r # rs) ks l =
     (if \<not> is_active r \<or> rr_expires_at_ns r > now_ns
      then let (rs', ks', l') = expire_loop now_ns rs ks l in (r # rs', ks', l')
      else let (rs', ks', l') =
                 expire_loop now_ns rs (ks(key_of r := None)) (retire_ledger r l)
           in (retire Expired r # rs', ks', l'))"

definition expire_old :: "ReservationBook \<Rightarrow> u64 \<Rightarrow> ReservationBook" where
  "expire_old book now_ns =
     (let (rs, ks, l) = expire_loop now_ns (reservations book)
            (active_reservation_keys book) (ledger book)
      in book\<lparr>reservations := rs, active_reservation_keys := ks, ledger := l\<rparr>)"

subsection \<open>Balances of an entry list\<close>

definition entry_sum :: "ReservedEntry list \<Rightarrow> string \<Rightarrow> int" where
  "entry_sum es key = sum_list (map re_amount (filter (\<lambda>e. re_id e = Some key) es))"

definition entries_nonneg :: "ReservedEntry list \<Rightarrow> bool" where
  "entries_nonneg es \<longleftrightarrow> (\<forall>e \<in> set es. 0 \<le> re_amount e)"

lemma entry_sum_simps [simp, ledger_simps]:
  "entry_sum [] key = 0"
  "entry_sum (e # es) key = (if re_id e = Some key then re_amount e else 0) + entry_sum es key"
  "entry_sum (xs @ ys) key = entry_sum xs key + entry_sum ys key"
  by (simp_all add: entry_sum_def)

lemma entries_nonneg_simps [simp, ledger_simps]:
  "entries_nonneg []"
  "entries_nonneg (e # es) \<longleftrightarrow> 0 \<le> re_amount e \<and> entries_nonneg es"
  "entries_nonneg (xs @ ys) \<longleftrightarrow> entries_nonneg xs \<and> entries_nonneg ys"
  by (auto simp: entries_nonneg_def)

lemma entry_sum_nonneg: "entries_nonneg es \<Longrightarrow> 0 \<le> entry_sum es key"
  by (induction es) simp_all

lemma balance_of_simps [simp, ledger_simps]:
  "balance_of Map.empty key = 0"
  "balance_of (m(key \<mapsto> v)) key' = (if key' = key then v else balance_of m key')"
  "balance_of (m(key := None)) key' = (if key' = key then 0 else balance_of m key')"
  by (simp_all add: balance_of_def)

lemma balance_of_reserve_entry:
  assumes "in_i64 (balance_of m key + (if re_id e = Some key then re_amount e else 0))"
  shows "balance_of (reserve_entry m e) key =
    balance_of m key + (if re_id e = Some key then re_amount e else 0)"
  using assms by (auto simp: reserve_entry_def wrap_i64_id split: option.split if_splits)

lemma balance_of_release_entry:
  assumes "in_i64 (balance_of m key - (if re_id e = Some key then re_amount e else 0))"
    and "0 \<le> re_amount e" "re_id e = Some key \<Longrightarrow> re_amount e \<le> balance_of m key"
  shows "balance_of (release_entry m e) key =
    balance_of m key - (if re_id e = Some key then re_amount e else 0)"
proof (cases "re_id e")
  case None
  then show ?thesis by (simp add: release_entry_def)
next
  case (Some k)
  show ?thesis
  proof (cases "m k")
    case None
    with Some assms show ?thesis by (auto simp: release_entry_def balance_of_def)
  next
    case v: (Some v)
    then have "balance_of m k = v" by (simp add: balance_of_def)
    with Some v assms show ?thesis by (auto simp: release_entry_def Let_def wrap_i64_id)
  qed
qed

lemma balance_of_reserve:
  assumes "entries_nonneg es" "0 \<le> balance_of m key" "balance_of m key + entry_sum es key \<le> i64_max"
  shows "balance_of (foldl reserve_entry m es) key = balance_of m key + entry_sum es key"
  using assms
proof (induction es arbitrary: m)
  case (Cons e es)
  let ?a = "if re_id e = Some key then re_amount e else 0"
  have rest: "0 \<le> entry_sum es key" using Cons.prems(1) by (simp add: entry_sum_nonneg)
  have a: "0 \<le> ?a" using Cons.prems(1) by simp
  have step: "balance_of (reserve_entry m e) key = balance_of m key + ?a"
    using Cons.prems a rest by (intro balance_of_reserve_entry) (simp add: in_i64_nonneg)
  have "balance_of (foldl reserve_entry (reserve_entry m e) es) key =
      balance_of (reserve_entry m e) key + entry_sum es key"
    using Cons.prems a by (intro Cons.IH) (simp_all add: step)
  then show ?case using step by simp
qed simp

lemma balance_of_release:
  assumes "entries_nonneg es" "entry_sum es key \<le> balance_of m key" "balance_of m key \<le> i64_max"
  shows "balance_of (foldl release_entry m es) key = balance_of m key - entry_sum es key"
  using assms
proof (induction es arbitrary: m)
  case (Cons e es)
  let ?a = "if re_id e = Some key then re_amount e else 0"
  have rest: "0 \<le> entry_sum es key" using Cons.prems(1) by (simp add: entry_sum_nonneg)
  have a: "0 \<le> ?a" "0 \<le> re_amount e" using Cons.prems(1) by simp_all
  have step: "balance_of (release_entry m e) key = balance_of m key - ?a"
    using Cons.prems a rest by (intro balance_of_release_entry) (auto simp: in_i64_nonneg)
  have "balance_of (foldl release_entry (release_entry m e) es) key =
      balance_of (release_entry m e) key - entry_sum es key"
    using Cons.prems a by (intro Cons.IH) (simp_all add: step)
  then show ?case using step by simp
qed simp

subsection \<open>The contract of a per-key ledger\<close>

text \<open>
  A ledger tracks a list of reservations when its balance of every key is the sum of their
  amounts and the sums fit.
\<close>

definition tracked ::
  "('l \<Rightarrow> string \<Rightarrow> int) \<Rightarrow> (RiskReservation \<Rightarrow> string \<Rightarrow> int) \<Rightarrow> 'l \<Rightarrow> RiskReservation list \<Rightarrow> bool" where
  "tracked held amount l rs \<longleftrightarrow>
     (\<forall>key. held l key = (\<Sum>r\<leftarrow>rs. amount r key) \<and> held l key \<le> i64_max)"

locale reservation_ledger =
  fixes reserve_in release_from :: "RiskReservation \<Rightarrow> 'l \<Rightarrow> 'l"
    and held :: "'l \<Rightarrow> string \<Rightarrow> int"
    and amount :: "RiskReservation \<Rightarrow> string \<Rightarrow> int"
    and sound :: "RiskReservation \<Rightarrow> bool"
  assumes amount_nonneg: "sound r \<Longrightarrow> 0 \<le> amount r key"
    and held_reserve: "sound r \<Longrightarrow> 0 \<le> held l key \<Longrightarrow> held l key + amount r key \<le> i64_max \<Longrightarrow>
      held (reserve_in r l) key = held l key + amount r key"
    and held_release: "sound r \<Longrightarrow> amount r key \<le> held l key \<Longrightarrow> held l key \<le> i64_max \<Longrightarrow>
      held (release_from r l) key = held l key - amount r key"
begin

lemma sum_nonneg: "\<forall>r \<in> set rs. sound r \<Longrightarrow> 0 \<le> (\<Sum>r\<leftarrow>rs. amount r key)"
  by (simp add: sum_list_map_nonneg amount_nonneg)

lemma tracked_reserve:
  assumes "tracked held amount l rs" "\<forall>r \<in> set rs. sound r" "sound x"
    and "\<And>key. held l key + amount x key \<le> i64_max"
  shows "tracked held amount (reserve_in x l) (rs @ [x])"
  using assms sum_nonneg [OF assms(2)] by (simp add: tracked_def held_reserve)

lemma tracked_release:
  assumes "tracked held amount l (as @ x # bs)" "\<forall>r \<in> set (as @ x # bs). sound r"
  shows "tracked held amount (release_from x l) (as @ bs)"
proof -
  have n: "0 \<le> (\<Sum>r\<leftarrow>as. amount r key)" "0 \<le> (\<Sum>r\<leftarrow>bs. amount r key)" "0 \<le> amount x key" for key
    using assms(2) by (simp_all add: sum_nonneg amount_nonneg)
  have l: "held l key = (\<Sum>r\<leftarrow>as @ x # bs. amount r key)" "held l key \<le> i64_max" for key
    using assms(1) unfolding tracked_def by blast+
  have rel: "held (release_from x l) key = held l key - amount x key" for key
    using l(2) [of key] n [of key] assms(2) by (intro held_release) (simp_all add: l(1))
  have "held (release_from x l) key \<le> i64_max" for key
    unfolding rel using l(2) [of key] n(3) [of key] by linarith
  then show ?thesis unfolding tracked_def by (simp add: rel) (simp add: l(1))
qed

lemma reserve_then_release:
  assumes "sound x" "0 \<le> held l key" "held l key + amount x key \<le> i64_max"
  shows "held (release_from x (reserve_in x l)) key = held l key"
  using assms by (simp add: held_reserve held_release)

end

definition market_balance :: "ExposureLedger \<Rightarrow> string \<Rightarrow> int" where
  "market_balance l = balance_of (el_market_reserved_exposure_tick l)"

definition asset_balance :: "InventoryLedger \<Rightarrow> string \<Rightarrow> int" where
  "asset_balance l = balance_of (inv_asset_reserved_lots l)"

definition market_amount :: "RiskReservation \<Rightarrow> string \<Rightarrow> int" where
  "market_amount r = entry_sum (rr_markets r)"

definition asset_amount :: "RiskReservation \<Rightarrow> string \<Rightarrow> int" where
  "asset_amount r = entry_sum (rr_assets r)"

interpretation markets: reservation_ledger exposure_reserve exposure_release
  market_balance market_amount "\<lambda>r. entries_nonneg (rr_markets r)"
  by unfold_locales
     (simp_all add: market_balance_def market_amount_def entry_sum_nonneg exposure_reserve_def
       exposure_release_def balance_of_reserve balance_of_release)

interpretation assets: reservation_ledger inventory_reserve inventory_release
  asset_balance asset_amount "\<lambda>r. entries_nonneg (rr_assets r)"
  by unfold_locales
     (simp_all add: asset_balance_def asset_amount_def entry_sum_nonneg inventory_reserve_def
       inventory_release_def balance_of_reserve balance_of_release)

subsection \<open>The invariant of the book\<close>

definition actives :: "ReservationBook \<Rightarrow> RiskReservation list" where
  "actives book = filter is_active (reservations book)"

definition ledger_ready :: "RiskReservation \<Rightarrow> bool" where
  "ledger_ready r \<longleftrightarrow>
     rr_ledger_reserved r \<and> entries_nonneg (rr_markets r) \<and> entries_nonneg (rr_assets r)"

text \<open>
  What ties the key map and the ledgers to the active reservations: one key per active
  reservation, mapped to its number; the totals are the (64-bit) sums; every market's and every
  asset's balance is the sum over the active reservations.
\<close>

definition core_inv ::
  "RiskReservation list \<Rightarrow> (ReservationKey \<rightharpoonup> u64) \<Rightarrow> RiskLedger \<Rightarrow> bool" where
  "core_inv acts ks l \<longleftrightarrow>
     distinct (map key_of acts) \<and>
     ks = map_of (map (\<lambda>r. (key_of r, rr_reservation_id r)) acts) \<and>
     (\<forall>r \<in> set acts. ledger_ready r) \<and>
     el_total_reserved_cost_tick (exposure l) = wrap_i64 (\<Sum>r\<leftarrow>acts. rr_reserved_cost_tick r) \<and>
     el_total_reserved_exposure_tick (exposure l) =
       wrap_i64 (\<Sum>r\<leftarrow>acts. rr_reserved_exposure_tick r) \<and>
     tracked market_balance market_amount (exposure l) acts \<and>
     tracked asset_balance asset_amount (inventory l) acts"

text \<open>The numbering of the reservations, which fits into 64 bits.\<close>

definition numbered :: "ReservationBook \<Rightarrow> bool" where
  "numbered book \<longleftrightarrow>
     length (reservations book) < 2 ^ 64 - 1 \<and>
     next_reservation_id book = of_nat (Suc (length (reservations book))) \<and>
     (\<forall>i < length (reservations book).
        rr_reservation_id (reservations book ! i) = of_nat (Suc i))"

definition book_inv :: "ReservationBook \<Rightarrow> bool" where
  "book_inv book \<longleftrightarrow>
     numbered book \<and> core_inv (actives book) (active_reservation_keys book) (ledger book)"

lemma book_inv_empty: "book_inv empty_book"
  by (simp add: book_inv_def numbered_def core_inv_def actives_def empty_book_def
      empty_ledger_def tracked_def market_balance_def asset_balance_def i64_bounds wrap_i64_def)

subsection \<open>Retiring one reservation\<close>

lemma map_of_remove_key:
  assumes "distinct (map fst (as @ (k, v) # bs))"
  shows "(map_of (as @ (k, v) # bs))(k := None) = map_of (as @ bs)"
proof
  fix x
  show "((map_of (as @ (k, v) # bs))(k := None)) x = map_of (as @ bs) x"
  proof (cases "x = k")
    case True
    then have "x \<notin> fst ` set (as @ bs)" using assms by auto
    with True show ?thesis by (metis fun_upd_same map_of_eq_None_iff)
  next
    case False
    then show ?thesis by (simp add: map_add_def split: option.split)
  qed
qed

lemma ledger_ready_parts:
  "ledger_ready r \<Longrightarrow> entries_nonneg (rr_markets r)" "ledger_ready r \<Longrightarrow> entries_nonneg (rr_assets r)"
  by (simp_all add: ledger_ready_def)

lemma core_inv_retire:
  assumes "core_inv (as @ r # bs) ks l"
  shows "core_inv (as @ bs) (ks(key_of r := None)) (retire_ledger r l)"
proof -
  let ?kv = "\<lambda>r. (key_of r, rr_reservation_id r)"
  have dist: "distinct (map fst (map ?kv as @ ?kv r # map ?kv bs))"
    using assms by (simp add: core_inv_def comp_def)
  have keys: "ks(key_of r := None) = map_of (map ?kv (as @ bs))"
    using assms map_of_remove_key [OF dist] by (simp add: core_inv_def)
  have rel: "retire_ledger r l = ledger_release r l"
    using assms by (simp add: core_inv_def ledger_ready_def retire_ledger_def)
  have "tracked market_balance market_amount (exposure_release r (exposure l)) (as @ bs)"
    using assms by (intro markets.tracked_release) (auto simp: core_inv_def ledger_ready_parts)
  moreover have "tracked asset_balance asset_amount (inventory_release r (inventory l)) (as @ bs)"
    using assms by (intro assets.tracked_release) (auto simp: core_inv_def ledger_ready_parts)
  ultimately show ?thesis
    using assms dist
    unfolding core_inv_def keys rel ledger_release_def
    by (auto simp: exposure_release_def comp_def algebra_simps)
qed

lemma is_active_retire [simp]: "s \<noteq> Active \<Longrightarrow> \<not> is_active (retire s r)"
  by (simp add: is_active_def retire_def)

lemma reservation_id_retire [simp]: "rr_reservation_id (retire s r) = rr_reservation_id r"
  by (simp add: retire_def)

subsection \<open>Every operation keeps the invariant\<close>

lemma find_reservation_Some:
  assumes "find_reservation rs rid = Some r"
  shows "rid \<noteq> 0" "unat rid - 1 < length rs" "r = rs ! (unat rid - 1)"
proof -
  have c: "rid \<noteq> 0" "\<not> unat rid > length rs" "rs ! (unat rid - 1) = r"
    using assms by (auto simp: find_reservation_def Let_def split: if_splits)
  then show "rid \<noteq> 0" "r = rs ! (unat rid - 1)" by simp_all
  have "unat rid \<noteq> 0" using c(1) by (simp add: unat_eq_zero)
  with c(2) show "unat rid - 1 < length rs" by linarith
qed

lemma filter_update:
  assumes "i < length xs" "P (xs ! i)" "\<not> P y"
  shows "\<exists>as bs. filter P xs = as @ xs ! i # bs \<and> filter P (xs[i := y]) = as @ bs"
proof -
  have "filter P xs = filter P (take i xs) @ xs ! i # filter P (drop (Suc i) xs)"
    using assms(1,2) by (metis filter.simps(2) filter_append id_take_nth_drop)
  moreover have "filter P (xs[i := y]) = filter P (take i xs) @ filter P (drop (Suc i) xs)"
    using assms(1,3) by (simp add: upd_conv_take_nth_drop)
  ultimately show ?thesis by blast
qed

lemma release_inv:
  assumes "book_inv book"
  shows "book_inv (release book rid)"
proof (cases "find_reservation (reservations book) rid")
  case None
  with assms show ?thesis by (simp add: release_def)
next
  case (Some r)
  note f = find_reservation_Some [OF Some]
  show ?thesis
  proof (cases "is_active r")
    case False
    with Some assms show ?thesis by (simp add: release_def)
  next
    case True
    define i where "i = unat rid - 1"
    obtain as bs where
      before: "actives book = as @ r # bs" and
      after: "filter is_active ((reservations book)[i := retire Released r]) = as @ bs"
      using filter_update [of i "reservations book" is_active "retire Released r"] True f
      by (auto simp: actives_def i_def)
    have "core_inv (as @ bs) ((active_reservation_keys book)(key_of r := None))
        (retire_ledger r (ledger book))"
      using assms before by (intro core_inv_retire) (simp add: book_inv_def)
    moreover have "numbered (release book rid)"
      using assms f Some True
      by (auto simp: book_inv_def numbered_def release_def nth_list_update)
    ultimately show ?thesis
      using Some True after by (simp add: book_inv_def actives_def release_def i_def)
  qed
qed

lemma expire_loop_core:
  assumes "core_inv (pre @ filter is_active rs) ks l" "expire_loop now rs ks l = (rs', ks', l')"
  shows "core_inv (pre @ filter is_active rs') ks' l'"
  using assms
proof (induction rs arbitrary: pre ks l rs')
  case (Cons r rs)
  show ?case
  proof (cases "is_active r \<and> \<not> rr_expires_at_ns r > now")
    case True
    obtain rs1 where loop: "expire_loop now rs (ks(key_of r := None)) (retire_ledger r l) = (rs1, ks', l')"
      and rs': "rs' = retire Expired r # rs1"
      using Cons.prems(2) True by (auto split: prod.splits)
    have "core_inv (pre @ filter is_active rs) (ks(key_of r := None)) (retire_ledger r l)"
      using Cons.prems(1) True by (intro core_inv_retire) simp
    from Cons.IH [OF this loop] rs' show ?thesis by simp
  next
    case False
    then obtain rs1 where loop: "expire_loop now rs ks l = (rs1, ks', l')" and rs': "rs' = r # rs1"
      using Cons.prems(2) by (auto split: prod.splits)
    show ?thesis
    proof (cases "is_active r")
      case True
      then show ?thesis
        using Cons.IH [of "pre @ [r]" ks l rs1] Cons.prems(1) loop rs' by simp
    next
      case False
      then show ?thesis using Cons.IH [of pre ks l rs1] Cons.prems(1) loop rs' by simp
    qed
  qed
qed simp

lemma expire_loop_numbers:
  "expire_loop now rs ks l = (rs', ks', l') \<Longrightarrow> map rr_reservation_id rs' = map rr_reservation_id rs"
proof (induction rs arbitrary: ks l rs')
  case (Cons r rs)
  show ?case
  proof (cases "\<not> is_active r \<or> rr_expires_at_ns r > now")
    case True
    with Cons show ?thesis by (auto split: prod.splits)
  next
    case False
    with Cons show ?thesis by (auto split: prod.splits)
  qed
qed simp

lemma map_eq_by_index:
  "(\<forall>i < length xs. f (xs ! i) = g i) \<longleftrightarrow> map f xs = map g [0..<length xs]"
proof -
  have "map f xs = map g [0..<length xs] \<longleftrightarrow>
      (\<forall>i < length (map f xs). map f xs ! i = map g [0..<length xs] ! i)"
    by (rule trans [OF list_eq_iff_nth_eq]) simp
  then show ?thesis by simp
qed

lemma numbered_alt:
  "numbered book \<longleftrightarrow>
     length (reservations book) < 2 ^ 64 - 1 \<and>
     next_reservation_id book = of_nat (Suc (length (reservations book))) \<and>
     map rr_reservation_id (reservations book) = map (\<lambda>i. of_nat (Suc i)) [0..<length (reservations book)]"
  unfolding numbered_def
  using map_eq_by_index [of "reservations book" rr_reservation_id "\<lambda>i. of_nat (Suc i)"] by blast

lemma expire_old_inv:
  assumes "book_inv book"
  shows "book_inv (expire_old book now)"
proof -
  obtain rs ks l where loop: "expire_loop now (reservations book) (active_reservation_keys book)
      (ledger book) = (rs, ks, l)" by (metis prod_cases3)
  have "core_inv ([] @ filter is_active rs) ks l"
    using assms by (intro expire_loop_core [OF _ loop]) (simp add: book_inv_def actives_def)
  moreover have "length rs = length (reservations book)"
    using expire_loop_numbers [OF loop] by (metis length_map)
  ultimately show ?thesis
    using assms loop expire_loop_numbers [OF loop]
    by (simp add: book_inv_def actives_def expire_old_def numbered_alt)
qed

subsection \<open>The entries of a new reservation\<close>

lemma merge_entry_None: "merge_entry es k a = None \<longleftrightarrow> (\<forall>e \<in> set es. re_id e \<noteq> Some k)"
  by (induction es) auto

lemma merge_entry_Some:
  assumes "merge_entry es k a = Some es'" "entries_nonneg es" "0 \<le> a" "entry_sum es k + a \<le> i64_max"
  shows "entries_nonneg es'" "length es' = length es"
    "entry_sum es' k' = entry_sum es k' + (if k' = k then a else 0)"
proof -
  have "entries_nonneg es' \<and> length es' = length es \<and>
      (\<forall>k'. entry_sum es' k' = entry_sum es k' + (if k' = k then a else 0))"
    using assms
  proof (induction es arbitrary: es')
    case (Cons e es)
    show ?case
    proof (cases "re_id e = Some k")
      case True
      have "0 \<le> entry_sum es k" using Cons.prems(2) by (simp add: entry_sum_nonneg)
      then have "in_i64 (re_amount e + a)" "0 \<le> re_amount e + a"
        using True Cons.prems(2-4) by (simp_all add: in_i64_nonneg)
      with True Cons.prems show ?thesis by (auto simp: wrap_i64_id)
    next
      case False
      then obtain es1 where "merge_entry es k a = Some es1" "es' = e # es1"
        using Cons.prems(1) by auto
      with False Cons.IH [of es1] Cons.prems show ?thesis by simp
    qed
  qed simp
  then show "entries_nonneg es'" "length es' = length es"
    "entry_sum es' k' = entry_sum es k' + (if k' = k then a else 0)" by simp_all
qed

text \<open>What the pair of a key and an amount adds to a key's sum.\<close>

definition pair_part :: "string option \<times> int \<Rightarrow> string \<Rightarrow> int" where
  "pair_part p key = (if fst p = Some key \<and> key \<noteq> [] then snd p else 0)"

lemma add_entry_spec:
  assumes "entries_nonneg es" "0 \<le> a" "length es < kMaxReservedLegs"
    "\<And>k. entry_sum es k + pair_part (key, a) k \<le> i64_max"
  shows "entries_nonneg (add_entry es key a)" "length (add_entry es key a) \<le> Suc (length es)"
    "entry_sum (add_entry es key a) k = entry_sum es k + pair_part (key, a) k"
proof -
  have "entries_nonneg (add_entry es key a) \<and> length (add_entry es key a) \<le> Suc (length es) \<and>
      entry_sum (add_entry es key a) k = entry_sum es k + pair_part (key, a) k"
  proof (cases "key = None \<or> key = Some [] \<or> a = 0")
    case True
    then show ?thesis
      using assms by (auto simp: add_entry_def pair_part_def split: option.split)
  next
    case False
    then obtain k0 where k0: "key = Some k0" "k0 \<noteq> []" "a \<noteq> 0" by auto
    show ?thesis
    proof (cases "merge_entry es k0 a")
      case None
      then show ?thesis using assms(1-3) k0 by (auto simp: add_entry_def pair_part_def)
    next
      case (Some es')
      have "entry_sum es k0 + a \<le> i64_max" using assms(4) [of k0] k0 by (simp add: pair_part_def)
      from merge_entry_Some [OF Some assms(1,2) this] show ?thesis
        using Some k0 by (auto simp: add_entry_def pair_part_def)
    qed
  qed
  then show "entries_nonneg (add_entry es key a)" "length (add_entry es key a) \<le> Suc (length es)"
    "entry_sum (add_entry es key a) k = entry_sum es k + pair_part (key, a) k" by simp_all
qed

definition pairs_part :: "(string option \<times> int) list \<Rightarrow> string \<Rightarrow> int" where
  "pairs_part ps key = sum_list (map (\<lambda>p. pair_part p key) ps)"

lemma pairs_part_simps [simp]:
  "pairs_part [] key = 0" "pairs_part (p # ps) key = pair_part p key + pairs_part ps key"
  by (simp_all add: pairs_part_def)

lemma pairs_part_nonneg: "\<forall>p \<in> set ps. 0 \<le> snd p \<Longrightarrow> 0 \<le> pairs_part ps key"
  by (induction ps) (simp_all add: pair_part_def)

lemma fold_add_entry_spec:
  assumes "entries_nonneg es" "\<forall>p \<in> set ps. 0 \<le> snd p"
    "length es + length ps \<le> kMaxReservedLegs"
    "\<And>k. entry_sum es k + pairs_part ps k \<le> i64_max"
  shows "entries_nonneg (foldl (\<lambda>es (key, a). add_entry es key a) es ps) \<and>
    entry_sum (foldl (\<lambda>es (key, a). add_entry es key a) es ps) k = entry_sum es k + pairs_part ps k"
  using assms
proof (induction ps arbitrary: es)
  case (Cons p ps)
  obtain key a where p: "p = (key, a)" by (cases p)
  have rest: "0 \<le> pairs_part ps k" for k using Cons.prems(2) by (simp add: pairs_part_nonneg)
  have b: "entry_sum es k + pair_part (key, a) k \<le> i64_max" for k
    using Cons.prems(4) [of k] rest [of k] p by simp
  have "0 \<le> a" "length es < kMaxReservedLegs" using Cons.prems p by simp_all
  note spec = add_entry_spec [OF Cons.prems(1) this b]
  have "entries_nonneg (foldl (\<lambda>es (key, a). add_entry es key a) (add_entry es key a) ps) \<and>
      entry_sum (foldl (\<lambda>es (key, a). add_entry es key a) (add_entry es key a) ps) k =
      entry_sum (add_entry es key a) k + pairs_part ps k"
  proof (rule Cons.IH)
    show "length (add_entry es key a) + length ps \<le> kMaxReservedLegs"
      using spec(2) Cons.prems(3) by simp
    show "entry_sum (add_entry es key a) k + pairs_part ps k \<le> i64_max" for k
      using Cons.prems(4) [of k] p by (simp add: spec(3))
  qed (use spec(1) Cons.prems(2) in simp_all)
  then show ?case using p spec(3) by simp
qed simp

definition asset_pairs :: "IntentLeg list \<Rightarrow> (string option \<times> int) list" where
  "asset_pairs legs =
     map (\<lambda>leg. (fst (intern_string (il_asset_id leg) {}), il_quantity_lots leg)) legs"

definition market_pairs :: "IntentLeg list \<Rightarrow> (string option \<times> int) list" where
  "market_pairs legs =
     map (\<lambda>leg. (fst (intern_string (il_market_id leg) {}), max (il_estimated_cost_tick leg) 0)) legs"

lemma reserve_legs_fst:
  "fst (reserve_legs legs r interned) =
     r\<lparr>rr_assets := foldl (\<lambda>es (key, a). add_entry es key a) (rr_assets r) (asset_pairs legs),
       rr_markets := foldl (\<lambda>es (key, a). add_entry es key a) (rr_markets r) (market_pairs legs)\<rparr>"
  by (induction legs arbitrary: r interned)
     (simp_all add: asset_pairs_def market_pairs_def add_asset_lot_def add_market_exposure_def
       intern_string_def)

text \<open>What the legs of an intent ask of one asset and of one market.\<close>

definition leg_lots :: "OpportunityIntent \<Rightarrow> string \<Rightarrow> int" where
  "leg_lots intent key = pairs_part (asset_pairs (intent_legs intent)) key"

definition leg_exposure :: "OpportunityIntent \<Rightarrow> string \<Rightarrow> int" where
  "leg_exposure intent key = pairs_part (market_pairs (intent_legs intent)) key"

lemma leg_lots_alt:
  "leg_lots intent key =
     (\<Sum>leg\<leftarrow>filter (\<lambda>leg. il_asset_id leg = key \<and> key \<noteq> []) (intent_legs intent). il_quantity_lots leg)"
proof -
  have "pairs_part (asset_pairs legs) key =
    (\<Sum>leg\<leftarrow>filter (\<lambda>leg. il_asset_id leg = key \<and> key \<noteq> []) legs. il_quantity_lots leg)" for legs
    by (induction legs) (auto simp: asset_pairs_def pair_part_def intern_string_def)
  then show ?thesis by (simp add: leg_lots_def)
qed

lemma leg_exposure_alt:
  "leg_exposure intent key =
     (\<Sum>leg\<leftarrow>filter (\<lambda>leg. il_market_id leg = key \<and> key \<noteq> []) (intent_legs intent).
        max (il_estimated_cost_tick leg) 0)"
proof -
  have "pairs_part (market_pairs legs) key =
    (\<Sum>leg\<leftarrow>filter (\<lambda>leg. il_market_id leg = key \<and> key \<noteq> []) legs. max (il_estimated_cost_tick leg) 0)"
    for legs
    by (induction legs) (auto simp: market_pairs_def pair_part_def intern_string_def)
  then show ?thesis by (simp add: leg_exposure_def)
qed

subsection \<open>Reserving keeps the invariant\<close>

text \<open>The reservation an accepted intent leaves in the book, before the ledger flag is set.\<close>

definition new_reservation ::
  "ReservationBook \<Rightarrow> OpportunityIntent \<Rightarrow> u64 \<Rightarrow> bool \<Rightarrow> RiskReservation" where
  "new_reservation book intent now_ns track =
     (fst (build_reservation intent now_ns default_reservation track (interned_strings book)))
       \<lparr>rr_idempotency_hash := rk_idempotency_hash (reservation_key_for intent),
        rr_reservation_id := next_reservation_id book\<rparr>"

definition admissible :: "OpportunityIntent \<Rightarrow> RiskDecision \<Rightarrow> u64 \<Rightarrow> bool" where
  "admissible intent decision now_ns \<longleftrightarrow>
     approved decision \<and>
     (oi_idempotency_hash intent \<noteq> 0 \<or> oi_idempotency_key intent \<noteq> []) \<and>
     rk_idempotency_hash (reservation_key_for intent) \<noteq> 0 \<and>
     now_ns < oi_expires_at_ns intent"

lemma try_reserve_accepts:
  assumes "admissible intent decision now_ns"
    "active_reservation_keys book (reservation_key_for intent) = None"
  shows "snd (try_reserve book intent decision now_ns track) = Accepted (next_reservation_id book)"
    and "reservations (fst (try_reserve book intent decision now_ns track)) =
      reservations book @ [(new_reservation book intent now_ns track)\<lparr>rr_ledger_reserved := True\<rparr>]"
    and "active_reservation_keys (fst (try_reserve book intent decision now_ns track)) =
      (active_reservation_keys book)(reservation_key_for intent \<mapsto> next_reservation_id book)"
    and "ledger (fst (try_reserve book intent decision now_ns track)) =
      ledger_reserve (new_reservation book intent now_ns track) (ledger book)"
    and "next_reservation_id (fst (try_reserve book intent decision now_ns track)) =
      next_reservation_id book + 1"
  using assms
  by (auto simp: try_reserve_def admissible_def Let_def new_reservation_def split: prod.split)

lemma try_reserve_refuses:
  assumes "\<not> (admissible intent decision now_ns \<and>
    active_reservation_keys book (reservation_key_for intent) = None)"
  shows "fst (try_reserve book intent decision now_ns track) = book"
    and "\<exists>reason detail. snd (try_reserve book intent decision now_ns track) = Refused reason detail"
  using assms by (auto simp: try_reserve_def admissible_def Let_def)

lemma new_reservation_fields:
  "key_of (new_reservation book intent now track) = reservation_key_for intent"
  "rr_reservation_id (new_reservation book intent now track) = next_reservation_id book"
  "is_active (new_reservation book intent now track)"
  "rr_expires_at_ns (new_reservation book intent now track) = oi_expires_at_ns intent"
  "rr_reserved_cost_tick (new_reservation book intent now track) = oi_estimated_cost_tick intent"
  "rr_reserved_exposure_tick (new_reservation book intent now track) =
     max (oi_estimated_cost_tick intent) 0"
  by (simp_all add: new_reservation_def key_of_def reservation_key_for_def is_active_def
      build_reservation_def Let_def default_reservation_def reserve_legs_fst)

text \<open>
  The arithmetic an intent needs to be tracked without overflow: at most 16 legs, no negative
  quantity, and for every market and asset the reserved amount plus the intent's fits.
\<close>

definition reservable :: "ReservationBook \<Rightarrow> OpportunityIntent \<Rightarrow> bool" where
  "reservable book intent \<longleftrightarrow>
     length (reservations book) + 1 < 2 ^ 64 - 1 \<and>
     oi_leg_count intent \<le> kMaxReservedLegs \<and>
     (\<forall>leg \<in> set (intent_legs intent). 0 \<le> il_quantity_lots leg) \<and>
     (\<forall>key. market_balance (exposure (ledger book)) key + leg_exposure intent key \<le> i64_max) \<and>
     (\<forall>key. asset_balance (inventory (ledger book)) key + leg_lots intent key \<le> i64_max)"

lemma core_inv_balances_nonneg:
  assumes "core_inv acts ks l"
  shows "0 \<le> market_balance (exposure l) key" "0 \<le> asset_balance (inventory l) key"
proof -
  have "\<forall>r \<in> set acts. entries_nonneg (rr_markets r)" "\<forall>r \<in> set acts. entries_nonneg (rr_assets r)"
    using assms by (auto simp: core_inv_def ledger_ready_parts)
  then have "0 \<le> (\<Sum>r\<leftarrow>acts. market_amount r key)" "0 \<le> (\<Sum>r\<leftarrow>acts. asset_amount r key)"
    by (simp_all add: markets.sum_nonneg assets.sum_nonneg)
  then show "0 \<le> market_balance (exposure l) key" "0 \<le> asset_balance (inventory l) key"
    using assms by (simp_all add: core_inv_def tracked_def)
qed

lemma core_inv_balances_le:
  assumes "core_inv acts ks l"
  shows "market_balance (exposure l) key \<le> i64_max" "asset_balance (inventory l) key \<le> i64_max"
  using assms unfolding core_inv_def tracked_def by blast+

lemma new_reservation_entries:
  fixes now :: u64 and track :: bool
  assumes inv: "book_inv book" and r: "reservable book intent"
  defines "x \<equiv> new_reservation book intent now track"
  shows "entries_nonneg (rr_markets x)" "entries_nonneg (rr_assets x)"
    "market_amount x key = (if track then leg_exposure intent key else 0)"
    "asset_amount x key = (if track then leg_lots intent key else 0)"
proof -
  let ?legs = "intent_legs intent"
  have len: "length ?legs \<le> kMaxReservedLegs" using r by (auto simp: reservable_def intent_legs_def)
  have m0: "0 \<le> market_balance (exposure (ledger book)) k" "0 \<le> asset_balance (inventory (ledger book)) k" for k
    using inv by (auto simp: book_inv_def intro: core_inv_balances_nonneg)
  have "pairs_part (market_pairs ?legs) k \<le> i64_max" for k
    using r m0(1) [of k] by (auto simp: reservable_def leg_exposure_def dest!: spec [of _ k])
  then have mk: "entries_nonneg (foldl (\<lambda>es (key, a). add_entry es key a) [] (market_pairs ?legs)) \<and>
      entry_sum (foldl (\<lambda>es (key, a). add_entry es key a) [] (market_pairs ?legs)) key =
      entry_sum [] key + pairs_part (market_pairs ?legs) key"
    using len by (intro fold_add_entry_spec) (auto simp: market_pairs_def)
  have "pairs_part (asset_pairs ?legs) k \<le> i64_max" for k
    using r m0(2) [of k] by (auto simp: reservable_def leg_lots_def dest!: spec [of _ k])
  then have as: "entries_nonneg (foldl (\<lambda>es (key, a). add_entry es key a) [] (asset_pairs ?legs)) \<and>
      entry_sum (foldl (\<lambda>es (key, a). add_entry es key a) [] (asset_pairs ?legs)) key =
      entry_sum [] key + pairs_part (asset_pairs ?legs) key"
    using len r by (intro fold_add_entry_spec) (auto simp: asset_pairs_def reservable_def)
  have "rr_markets x = (if track then foldl (\<lambda>es (key, a). add_entry es key a) [] (market_pairs ?legs) else [])"
    "rr_assets x = (if track then foldl (\<lambda>es (key, a). add_entry es key a) [] (asset_pairs ?legs) else [])"
    by (simp_all add: x_def new_reservation_def build_reservation_def Let_def default_reservation_def
        reserve_legs_fst)
  then show "entries_nonneg (rr_markets x)" "entries_nonneg (rr_assets x)"
    "market_amount x key = (if track then leg_exposure intent key else 0)"
    "asset_amount x key = (if track then leg_lots intent key else 0)"
    using mk as by (simp_all add: market_amount_def asset_amount_def leg_exposure_def leg_lots_def)
qed

lemma market_amount_flag [simp]:
  "market_amount (r\<lparr>rr_ledger_reserved := b\<rparr>) = market_amount r"
  "asset_amount (r\<lparr>rr_ledger_reserved := b\<rparr>) = asset_amount r"
  by (simp_all add: market_amount_def asset_amount_def)

lemma tracked_flag [simp]:
  "tracked held market_amount l (rs @ [x\<lparr>rr_ledger_reserved := b\<rparr>]) = tracked held market_amount l (rs @ [x])"
  "tracked held' asset_amount l' (rs @ [x\<lparr>rr_ledger_reserved := b\<rparr>]) = tracked held' asset_amount l' (rs @ [x])"
  by (simp_all add: tracked_def)

lemma core_inv_reserve:
  assumes "core_inv acts ks l" "ks (key_of x) = None"
    and "entries_nonneg (rr_markets x)" "entries_nonneg (rr_assets x)"
    and "\<And>key. market_balance (exposure l) key + market_amount x key \<le> i64_max"
    and "\<And>key. asset_balance (inventory l) key + asset_amount x key \<le> i64_max"
  shows "core_inv (acts @ [x\<lparr>rr_ledger_reserved := True\<rparr>])
    (ks(key_of x \<mapsto> rr_reservation_id x)) (ledger_reserve x l)"
proof -
  let ?x = "x\<lparr>rr_ledger_reserved := True\<rparr>"
  let ?kv = "\<lambda>r. (key_of r, rr_reservation_id r)"
  have kx: "key_of ?x = key_of x" by (simp add: key_of_def)
  have fresh: "key_of x \<notin> key_of ` set acts"
    using assms(1,2) by (auto simp: core_inv_def map_of_eq_None_iff image_image)
  have keys: "ks(key_of x \<mapsto> rr_reservation_id x) = map_of (map ?kv (acts @ [?x]))"
    using assms(1,2) by (auto simp: core_inv_def kx map_add_def fun_eq_iff split: option.split)
  have "tracked market_balance market_amount (exposure_reserve x (exposure l)) (acts @ [x])"
    using assms by (intro markets.tracked_reserve) (auto simp: core_inv_def ledger_ready_parts)
  moreover have "tracked asset_balance asset_amount (inventory_reserve x (inventory l)) (acts @ [x])"
    using assms by (intro assets.tracked_reserve) (auto simp: core_inv_def ledger_ready_parts)
  ultimately show ?thesis
    using assms(1,3,4) fresh unfolding core_inv_def keys
    by (simp add: ledger_reserve_def exposure_reserve_def kx ledger_ready_def)
qed

lemma try_reserve_inv:
  assumes "book_inv book" "reservable book intent"
  shows "book_inv (fst (try_reserve book intent decision now track))"
proof (cases "admissible intent decision now \<and>
    active_reservation_keys book (reservation_key_for intent) = None")
  case False
  then show ?thesis using assms(1) by (subst try_reserve_refuses(1)) simp_all
next
  case True
  then have adm: "admissible intent decision now"
    and free: "active_reservation_keys book (reservation_key_for intent) = None" by simp_all
  note acc = try_reserve_accepts [OF adm free, of track]
  let ?x = "new_reservation book intent now track"
  let ?b = "fst (try_reserve book intent decision now track)"
  note entries = new_reservation_entries [OF assms, of now track]
  have bal: "market_balance (exposure (ledger book)) k + market_amount ?x k \<le> i64_max"
    "asset_balance (inventory (ledger book)) k + asset_amount ?x k \<le> i64_max" for k
    using assms(2) core_inv_balances_le [OF assms(1) [unfolded book_inv_def, THEN conjunct2], of k]
    by (simp_all add: entries(3,4) reservable_def)
  have "core_inv (actives book @ [?x\<lparr>rr_ledger_reserved := True\<rparr>])
      ((active_reservation_keys book)(key_of ?x \<mapsto> rr_reservation_id ?x)) (ledger_reserve ?x (ledger book))"
    using assms(1) free entries(1,2) bal
    by (intro core_inv_reserve) (simp_all add: book_inv_def new_reservation_fields)
  moreover have "actives ?b = actives book @ [?x\<lparr>rr_ledger_reserved := True\<rparr>]"
    using new_reservation_fields(3) [of book intent now track]
    by (simp add: actives_def acc is_active_def)
  moreover have "numbered ?b"
    using assms unfolding numbered_alt book_inv_def reservable_def
    by (simp add: acc new_reservation_fields)
  ultimately show ?thesis
    by (simp add: book_inv_def acc new_reservation_fields)
qed

subsection \<open>Snapshots\<close>

record RiskLedgerSnapshot =
  ls_active_reservations :: nat
  ls_released_reservations :: nat
  ls_expired_reservations :: nat
  ls_consumed_reservations :: nat
  ls_total_reserved_cost_tick :: i64
  ls_total_reserved_exposure_tick :: i64
  ls_reserved_asset_lots :: balances
  ls_reserved_market_exposure_tick :: balances
  ls_numeric_reserved_asset_lots :: "(u32 \<times> i64) list"
  ls_numeric_reserved_market_exposure :: "(u32 \<times> i64) list"

text \<open>
  The numeric arrays add up by compact index and hold 16 indices at most; a further index is
  dropped.
\<close>

fun merge_numeric :: "(u32 \<times> i64) list \<Rightarrow> u32 \<Rightarrow> i64 \<Rightarrow> (u32 \<times> i64) list option" where
  "merge_numeric [] ix amount = None"
| "merge_numeric ((j, v) # rest) ix amount =
     (if j = ix then Some ((j, wrap_i64 (v + amount)) # rest)
      else map_option ((#) (j, v)) (merge_numeric rest ix amount))"

definition add_numeric :: "(u32 \<times> i64) list \<Rightarrow> ReservedEntry \<Rightarrow> (u32 \<times> i64) list" where
  "add_numeric arr e =
     (case merge_numeric arr (re_index e) (re_amount e) of
        Some arr' \<Rightarrow> arr'
      | None \<Rightarrow>
          if length arr < kMaxReservedLegs then arr @ [(re_index e, re_amount e)] else arr)"

definition risk_ledger_snapshot :: "RiskLedger \<Rightarrow> RiskLedgerSnapshot" where
  "risk_ledger_snapshot l =
     \<lparr>ls_active_reservations = 0, ls_released_reservations = 0, ls_expired_reservations = 0,
      ls_consumed_reservations = 0,
      ls_total_reserved_cost_tick = el_total_reserved_cost_tick (exposure l),
      ls_total_reserved_exposure_tick = el_total_reserved_exposure_tick (exposure l),
      ls_reserved_asset_lots = inv_asset_reserved_lots (inventory l),
      ls_reserved_market_exposure_tick = el_market_reserved_exposure_tick (exposure l),
      ls_numeric_reserved_asset_lots = [], ls_numeric_reserved_market_exposure = []\<rparr>"

definition snapshot_step :: "RiskLedgerSnapshot \<Rightarrow> RiskReservation \<Rightarrow> RiskLedgerSnapshot" where
  "snapshot_step out r =
     (case rr_status r of
        Active \<Rightarrow>
          out\<lparr>ls_active_reservations := Suc (ls_active_reservations out),
              ls_numeric_reserved_asset_lots :=
                foldl add_numeric (ls_numeric_reserved_asset_lots out) (rr_assets r),
              ls_numeric_reserved_market_exposure :=
                foldl add_numeric (ls_numeric_reserved_market_exposure out) (rr_markets r)\<rparr>
      | Released \<Rightarrow> out\<lparr>ls_released_reservations := Suc (ls_released_reservations out)\<rparr>
      | Expired \<Rightarrow> out\<lparr>ls_expired_reservations := Suc (ls_expired_reservations out)\<rparr>
      | Consumed \<Rightarrow> out\<lparr>ls_consumed_reservations := Suc (ls_consumed_reservations out)\<rparr>)"

definition book_snapshot :: "ReservationBook \<Rightarrow> RiskLedgerSnapshot" where
  "book_snapshot book =
     foldl snapshot_step (risk_ledger_snapshot (ledger book)) (reservations book)"

lemma book_snapshot_frame:
  "ls_total_reserved_cost_tick (book_snapshot book) = el_total_reserved_cost_tick (exposure (ledger book))"
  "ls_total_reserved_exposure_tick (book_snapshot book) =
     el_total_reserved_exposure_tick (exposure (ledger book))"
  "ls_reserved_asset_lots (book_snapshot book) = inv_asset_reserved_lots (inventory (ledger book))"
  "ls_reserved_market_exposure_tick (book_snapshot book) =
     el_market_reserved_exposure_tick (exposure (ledger book))"
proof -
  have step: "ls_total_reserved_cost_tick (snapshot_step s0 r) = ls_total_reserved_cost_tick s0"
    "ls_total_reserved_exposure_tick (snapshot_step s0 r) = ls_total_reserved_exposure_tick s0"
    "ls_reserved_asset_lots (snapshot_step s0 r) = ls_reserved_asset_lots s0"
    "ls_reserved_market_exposure_tick (snapshot_step s0 r) = ls_reserved_market_exposure_tick s0"
    for s0 r by (simp_all add: snapshot_step_def split: ReservationStatus.split)
  have "ls_total_reserved_cost_tick (foldl snapshot_step s0 rs) = ls_total_reserved_cost_tick s0 \<and>
    ls_total_reserved_exposure_tick (foldl snapshot_step s0 rs) = ls_total_reserved_exposure_tick s0 \<and>
    ls_reserved_asset_lots (foldl snapshot_step s0 rs) = ls_reserved_asset_lots s0 \<and>
    ls_reserved_market_exposure_tick (foldl snapshot_step s0 rs) = ls_reserved_market_exposure_tick s0"
    for s0 rs by (induction rs arbitrary: s0) (simp_all add: step)
  then show "ls_total_reserved_cost_tick (book_snapshot book) = el_total_reserved_cost_tick (exposure (ledger book))"
    "ls_total_reserved_exposure_tick (book_snapshot book) =
       el_total_reserved_exposure_tick (exposure (ledger book))"
    "ls_reserved_asset_lots (book_snapshot book) = inv_asset_reserved_lots (inventory (ledger book))"
    "ls_reserved_market_exposure_tick (book_snapshot book) =
       el_market_reserved_exposure_tick (exposure (ledger book))"
    by (simp_all add: book_snapshot_def risk_ledger_snapshot_def)
qed

lemma book_snapshot_active: "ls_active_reservations (book_snapshot book) = length (actives book)"
proof -
  have "ls_active_reservations (foldl snapshot_step s0 rs) =
      ls_active_reservations s0 + length (filter is_active rs)" for s0 rs
    by (induction rs arbitrary: s0)
       (auto simp: snapshot_step_def is_active_def split: ReservationStatus.split)
  then show ?thesis by (simp add: book_snapshot_def actives_def risk_ledger_snapshot_def)
qed

subsection \<open>Executions of the book\<close>

text \<open>
  One step is one call on the book; an intent is reserved only within the arithmetic range of
  \<^const>\<open>reservable\<close>, every other call is unrestricted.
\<close>

inductive book_step :: "ReservationBook \<Rightarrow> ReservationBook \<Rightarrow> bool" where
  reserve_step: "reservable book intent \<Longrightarrow>
    book_step book (fst (try_reserve book intent decision now track))"
| release_step: "book_step book (release book rid)"
| expire_step: "book_step book (expire_old book now)"

inductive book_reachable :: "ReservationBook \<Rightarrow> bool" where
  book_start: "book_reachable empty_book"
| book_next: "book_reachable book \<Longrightarrow> book_step book book' \<Longrightarrow> book_reachable book'"

inductive_cases book_stepE: "book_step book book'"

lemma book_step_inv: "book_step book book' \<Longrightarrow> book_inv book \<Longrightarrow> book_inv book'"
  by (erule book_stepE) (auto intro: try_reserve_inv release_inv expire_old_inv)

lemma book_reachable_inv: "book_reachable book \<Longrightarrow> book_inv book"
proof (induction rule: book_reachable.induct)
  case book_start
  show ?case by (rule book_inv_empty)
next
  case (book_next book book')
  then show ?case by (blast intro: book_step_inv)
qed

lemma numbered_next_unat: "numbered book \<Longrightarrow> unat (next_reservation_id book) = Suc (length (reservations book))"
  by (simp add: numbered_def unat_of_nat del: of_nat_Suc)

lemma release_accepted:
  fixes track :: bool
  assumes "book_inv book" "reservable book intent" "admissible intent decision now"
    "active_reservation_keys book (reservation_key_for intent) = None"
  defines "x \<equiv> (new_reservation book intent now track)\<lparr>rr_ledger_reserved := True\<rparr>"
  shows "release (fst (try_reserve book intent decision now track)) (next_reservation_id book) =
    (fst (try_reserve book intent decision now track))
      \<lparr>reservations := reservations book @ [retire Released x],
       active_reservation_keys := active_reservation_keys book,
       ledger := ledger_release x (ledger_reserve (new_reservation book intent now track) (ledger book))\<rparr>"
proof -
  note acc = try_reserve_accepts [OF assms(3,4), of track]
  have id: "unat (next_reservation_id book) = Suc (length (reservations book))"
    using assms(1) by (simp add: book_inv_def numbered_next_unat)
  then have "next_reservation_id book \<noteq> 0" by auto
  moreover have "rr_reservation_id x = next_reservation_id book" "key_of x = reservation_key_for intent"
    "is_active x"
    using new_reservation_fields(1,2,3) [of book intent now track]
    by (simp_all add: x_def key_of_def is_active_def)
  ultimately show ?thesis using assms(4) id
    by (simp add: release_def find_reservation_def acc x_def [symmetric] retire_ledger_def
        list_update_append fun_upd_idem)
       (simp add: x_def)
qed

subsection \<open>Properties of the reservation book\<close>

lemma sample_reservable: "reservable empty_book sample_intent"
  by (simp add: reservable_def empty_book_def empty_ledger_def sample_intent_def kMaxReservedLegs_def
      intent_legs_def sample_leg_def market_balance_def asset_balance_def leg_exposure_def
      leg_lots_def market_pairs_def asset_pairs_def pair_part_def i64_bounds)

lemma sample_admissible: "admissible sample_intent (make_approved_decision 1 1) 200"
  by (simp add: admissible_def reservation_key_for_def sample_intent_def)

definition sample_book :: ReservationBook where
  "sample_book = fst (try_reserve empty_book sample_intent (make_approved_decision 1 1) 200 True)"

lemma sample_book_reachable: "book_reachable sample_book"
  unfolding sample_book_def
  by (rule book_reachable.book_next [OF book_reachable.book_start]) (rule reserve_step, rule sample_reservable)

text \<open>
  C6: In every reachable state of the book the ledgers agree with the active reservations: each
  market's reserved exposure and each asset's reserved lots is the sum over the active
  reservations (never negative, never above the 64-bit maximum), the two totals are the 64-bit
  sums, no two active reservations share an idempotency key and bundle, and the key map sends
  exactly the active keys to the numbers of their reservations.
\<close>

theorem reachable_book_consistent:
  assumes "book_reachable book"
  shows "market_balance (exposure (ledger book)) m = (\<Sum>r\<leftarrow>actives book. market_amount r m) \<and>
    0 \<le> market_balance (exposure (ledger book)) m \<and>
    market_balance (exposure (ledger book)) m \<le> i64_max \<and>
    asset_balance (inventory (ledger book)) a = (\<Sum>r\<leftarrow>actives book. asset_amount r a) \<and>
    0 \<le> asset_balance (inventory (ledger book)) a \<and>
    asset_balance (inventory (ledger book)) a \<le> i64_max \<and>
    el_total_reserved_cost_tick (exposure (ledger book)) =
      wrap_i64 (\<Sum>r\<leftarrow>actives book. rr_reserved_cost_tick r) \<and>
    el_total_reserved_exposure_tick (exposure (ledger book)) =
      wrap_i64 (\<Sum>r\<leftarrow>actives book. rr_reserved_exposure_tick r) \<and>
    distinct (map key_of (actives book)) \<and>
    active_reservation_keys book =
      map_of (map (\<lambda>r. (key_of r, rr_reservation_id r)) (actives book))"
proof -
  have core: "core_inv (actives book) (active_reservation_keys book) (ledger book)"
    using book_reachable_inv [OF assms] by (simp add: book_inv_def)
  have "market_balance (exposure (ledger book)) m = (\<Sum>r\<leftarrow>actives book. market_amount r m)"
    "asset_balance (inventory (ledger book)) a = (\<Sum>r\<leftarrow>actives book. asset_amount r a)"
    using core unfolding core_inv_def tracked_def by blast+
  with core_inv_balances_nonneg [OF core, of m] core_inv_balances_nonneg [OF core, of a]
    core_inv_balances_le [OF core, of m] core_inv_balances_le [OF core, of a] core
  show ?thesis unfolding core_inv_def by blast
qed

theorem reachable_book_consistent_witness:
  "market_balance (exposure (ledger sample_book)) ''m'' =
     (\<Sum>r\<leftarrow>actives sample_book. market_amount r ''m'')"
  using reachable_book_consistent [OF sample_book_reachable, of "''m''" "''a''"] by blast

text \<open>
  At most one active reservation per key: once an intent is accepted, any further attempt
  with the same idempotency hash and bundle is refused and leaves the whole book unchanged,
  however the second intent differs otherwise, until the first one is retired.
\<close>

theorem duplicate_reservation_refused:
  assumes "snd (try_reserve book intent decision now track) = Accepted rid"
    and "reservation_key_for intent' = reservation_key_for intent"
    and "admissible intent' decision' now'"
  shows "try_reserve (fst (try_reserve book intent decision now track)) intent' decision' now' track' =
    (fst (try_reserve book intent decision now track),
     Refused DuplicateReservation ''active reservation already exists for idempotency_hash'')"
proof -
  have "admissible intent decision now \<and>
      active_reservation_keys book (reservation_key_for intent) = None"
    using assms(1) try_reserve_refuses(2) [of intent decision now book track]
    by (metis ReservationResult.distinct(1))
  then have acc: "admissible intent decision now"
    "active_reservation_keys book (reservation_key_for intent) = None" by simp_all
  show ?thesis
    using try_reserve_accepts(3) [OF acc, of track] assms(2,3)
    by (auto simp: try_reserve_def [of _ intent' decision'] admissible_def Let_def)
qed

theorem duplicate_reservation_refused_witness:
  "try_reserve sample_book (sample_intent\<lparr>oi_intent_id := 4\<rparr>) (make_approved_decision 2 2) 300 True =
    (sample_book,
     Refused DuplicateReservation ''active reservation already exists for idempotency_hash'')"
proof -
  have acc: "snd (try_reserve empty_book sample_intent (make_approved_decision 1 1) 200 True) =
      Accepted 1"
    using try_reserve_accepts(1) [OF sample_admissible, of empty_book True]
    by (simp add: empty_book_def)
  show ?thesis
    unfolding sample_book_def
    by (rule duplicate_reservation_refused [OF acc])
       (simp_all add: reservation_key_for_def sample_intent_def admissible_def)
qed

text \<open>
  C7: Reserving and then releasing is neutral: the release of the number an accepted intent was
  given restores every market and asset balance, both totals, the key map and the active
  reservations of the book before.
\<close>

theorem reserve_release_neutral:
  assumes "book_inv book" "reservable book intent" "admissible intent decision now"
    and "active_reservation_keys book (reservation_key_for intent) = None"
  shows "(let book' = release (fst (try_reserve book intent decision now track)) (next_reservation_id book)
     in market_balance (exposure (ledger book')) m = market_balance (exposure (ledger book)) m \<and>
        asset_balance (inventory (ledger book')) a = asset_balance (inventory (ledger book)) a \<and>
        el_total_reserved_cost_tick (exposure (ledger book')) =
          el_total_reserved_cost_tick (exposure (ledger book)) \<and>
        el_total_reserved_exposure_tick (exposure (ledger book')) =
          el_total_reserved_exposure_tick (exposure (ledger book)) \<and>
        active_reservation_keys book' = active_reservation_keys book \<and>
        actives book' = actives book)"
proof -
  let ?n = "new_reservation book intent now track"
  have core: "core_inv (actives book) (active_reservation_keys book) (ledger book)"
    using assms(1) by (simp add: book_inv_def)
  note entries = new_reservation_entries [OF assms(1,2), of now track]
  note nonneg = core_inv_balances_nonneg [OF core] and le = core_inv_balances_le [OF core]
  have m: "market_balance (exposure_release ?n (exposure_reserve ?n (exposure (ledger book)))) m =
      market_balance (exposure (ledger book)) m"
    using assms(2) nonneg(1) [of m] le(1) [of m] entries(1,3)
    by (intro markets.reserve_then_release) (simp_all add: reservable_def)
  have a: "asset_balance (inventory_release ?n (inventory_reserve ?n (inventory (ledger book)))) a =
      asset_balance (inventory (ledger book)) a"
    using assms(2) nonneg(2) [of a] le(2) [of a] entries(2,4)
    by (intro assets.reserve_then_release) (simp_all add: reservable_def)
  have flag: "ledger_release (?n\<lparr>rr_ledger_reserved := True\<rparr>) l = ledger_release ?n l" for l
    by (simp add: ledger_release_def exposure_release_def inventory_release_def)
  have totals: "wrap_i64 (el_total_reserved_cost_tick (exposure (ledger book))) =
      el_total_reserved_cost_tick (exposure (ledger book))"
    "wrap_i64 (el_total_reserved_exposure_tick (exposure (ledger book))) =
      el_total_reserved_exposure_tick (exposure (ledger book))"
    using core by (simp_all add: core_inv_def)
  show ?thesis
    unfolding release_accepted [OF assms] flag Let_def using m a totals
    by (simp add: actives_def ledger_release_def ledger_reserve_def)
       (simp add: exposure_release_def exposure_reserve_def)
qed

theorem reserve_release_neutral_witness:
  "actives (release sample_book 1) = [] \<and>
   market_balance (exposure (ledger (release sample_book 1))) ''m'' = 0"
  using reserve_release_neutral [OF book_inv_empty sample_reservable sample_admissible,
      of True "''m''" "''a''"]
  by (simp add: empty_book_def sample_book_def Let_def actives_def empty_ledger_def
      market_balance_def)

lemma expire_loop_actives:
  "expire_loop now rs ks l = (rs', ks', l') \<Longrightarrow>
     filter is_active rs' = filter (\<lambda>r. now < rr_expires_at_ns r) (filter is_active rs)"
proof (induction rs arbitrary: ks l rs')
  case (Cons r rs)
  show ?case
  proof (cases "\<not> is_active r \<or> rr_expires_at_ns r > now")
    case True
    with Cons show ?thesis by (auto split: prod.splits)
  next
    case False
    with Cons show ?thesis by (auto split: prod.splits)
  qed
qed simp

text \<open>
  C8: Expiry removes exactly the expired reservations: afterwards the active reservations are the
  earlier ones whose expiry is still ahead, in the same order and unchanged, and the balances
  are the sums over those alone.
\<close>

theorem expire_old_exact:
  assumes "book_inv book"
  shows "actives (expire_old book now) = filter (\<lambda>r. now < rr_expires_at_ns r) (actives book) \<and>
    market_balance (exposure (ledger (expire_old book now))) m =
      (\<Sum>r\<leftarrow>filter (\<lambda>r. now < rr_expires_at_ns r) (actives book). market_amount r m) \<and>
    asset_balance (inventory (ledger (expire_old book now))) a =
      (\<Sum>r\<leftarrow>filter (\<lambda>r. now < rr_expires_at_ns r) (actives book). asset_amount r a)"
proof -
  obtain rs ks l where loop: "expire_loop now (reservations book) (active_reservation_keys book)
      (ledger book) = (rs, ks, l)" by (metis prod_cases3)
  then have acts: "actives (expire_old book now) = filter (\<lambda>r. now < rr_expires_at_ns r) (actives book)"
    using expire_loop_actives [OF loop] by (simp add: actives_def expire_old_def)
  have "core_inv (actives (expire_old book now)) (active_reservation_keys (expire_old book now))
      (ledger (expire_old book now))"
    using expire_old_inv [OF assms] by (simp add: book_inv_def)
  then show ?thesis unfolding core_inv_def tracked_def acts by blast
qed

theorem expire_old_exact_witness:
  "actives (expire_old sample_book 1000) = []"
proof -
  have acts: "actives sample_book =
      [(new_reservation empty_book sample_intent 200 True)\<lparr>rr_ledger_reserved := True\<rparr>]"
    using try_reserve_accepts(2) [OF sample_admissible, of empty_book True]
      new_reservation_fields(3) [of empty_book sample_intent 200 True]
    by (simp add: sample_book_def actives_def empty_book_def is_active_def)
  show ?thesis
    using expire_old_exact [OF book_reachable_inv [OF sample_book_reachable], of 1000 "''m''" "''a''"]
    by (simp add: acts new_reservation_fields sample_intent_def)
qed

end
