(* ===== verification/RiskGuards.thy ===== *)
theory RiskGuards
  imports RiskReprice Reservations
begin

section \<open>Risk guards\<close>

text \<open>
  \<open>engine/risk/guards\<close> and \<open>engine/risk/validate/IntentEvidenceVerifier.cpp\<close>. Each guard
  looks at one aspect of an intent and passes or names its rejection. The duplicate guard and
  the rate limiter keep state; the others are functions. The unordered maps the exposure and
  inventory guards build are association lists in the order of first insertion: the source's
  iteration order is unspecified and decides only which of several offending entries is named,
  never whether the guard passes (\<open>exposure_passes_iff\<close>, \<open>inventory_passes_iff\<close>).
  Lemmas: when each guard passes, and what the rate limiter admits over time.
\<close>

subsection \<open>IRiskGuard\<close>

definition kRiskRejectFlagKillSwitch :: u64 where "kRiskRejectFlagKillSwitch = push_bit 0 1"
definition kRiskRejectFlagExpiredIntent :: u64 where "kRiskRejectFlagExpiredIntent = push_bit 1 1"
definition kRiskRejectFlagDuplicateIntent :: u64 where "kRiskRejectFlagDuplicateIntent = push_bit 2 1"
definition kRiskRejectFlagRateLimited :: u64 where "kRiskRejectFlagRateLimited = push_bit 3 1"
definition kRiskRejectFlagBadMarketState :: u64 where "kRiskRejectFlagBadMarketState = push_bit 4 1"
definition kRiskRejectFlagStaleSnapshot :: u64 where "kRiskRejectFlagStaleSnapshot = push_bit 5 1"
definition kRiskRejectFlagInternalError :: u64 where "kRiskRejectFlagInternalError = push_bit 63 1"

record GuardResult =
  gr_pass :: bool
  gr_requires_reprice :: bool
  gr_rejection :: RiskDecisionType
  gr_reject_flag :: u64
  gr_reason :: string

definition pass_guard :: GuardResult where
  "pass_guard = \<lparr>gr_pass = True, gr_requires_reprice = False, gr_rejection = DT_Pass,
     gr_reject_flag = 0, gr_reason = []\<rparr>"

definition fail_guard :: "RiskDecisionType \<Rightarrow> u64 \<Rightarrow> string \<Rightarrow> GuardResult" where
  "fail_guard rejection flag reason = \<lparr>gr_pass = False, gr_requires_reprice = False,
     gr_rejection = rejection, gr_reject_flag = flag, gr_reason = reason\<rparr>"

lemma guard_simps [simp]:
  "gr_pass pass_guard" "gr_rejection pass_guard = DT_Pass" "\<not> gr_pass (fail_guard t f r)"
  "gr_rejection (fail_guard t f r) = t" "gr_reason (fail_guard t f r) = r"
  by (simp_all add: pass_guard_def fail_guard_def)

subsection \<open>Kill switch, expiry, duplicates, rate limit\<close>

definition kill_switch_check :: "bool \<Rightarrow> GuardResult" where
  "kill_switch_check enabled =
     (if \<not> enabled then pass_guard
      else fail_guard RejectKillSwitch kRiskRejectFlagKillSwitch ''kill switch enabled'')"

definition expiry_check :: "OpportunityIntent \<Rightarrow> u64 \<Rightarrow> GuardResult" where
  "expiry_check intent now_ns =
     (if oi_expires_at_ns intent > now_ns then pass_guard
      else fail_guard RejectExpiredIntent kRiskRejectFlagExpiredIntent ''intent expired'')"

record DuplicateIntentGuard =
  dg_seen_idempotency_hashes :: "u64 set"
  dg_seen_idempotency_keys :: "string set"

definition duplicate_check ::
  "DuplicateIntentGuard \<Rightarrow> OpportunityIntent \<Rightarrow> GuardResult \<times> DuplicateIntentGuard" where
  "duplicate_check guard intent =
     (let hash = oi_idempotency_hash intent; key = oi_idempotency_key intent in
      if hash \<noteq> 0
      then (if hash \<notin> dg_seen_idempotency_hashes guard
            then (pass_guard, guard\<lparr>dg_seen_idempotency_hashes := insert hash (dg_seen_idempotency_hashes guard)\<rparr>)
            else (fail_guard RejectDuplicateIntent kRiskRejectFlagDuplicateIntent
                    ''duplicate idempotency_hash'', guard))
      else if key = []
      then (fail_guard RejectInternalError kRiskRejectFlagInternalError ''missing idempotency_key'', guard)
      else if key \<notin> dg_seen_idempotency_keys guard
      then (pass_guard, guard\<lparr>dg_seen_idempotency_keys := insert key (dg_seen_idempotency_keys guard)\<rparr>)
      else (fail_guard RejectDuplicateIntent kRiskRejectFlagDuplicateIntent
              ''duplicate idempotency_key'', guard))"

definition duplicate_clear :: DuplicateIntentGuard where
  "duplicate_clear = \<lparr>dg_seen_idempotency_hashes = {}, dg_seen_idempotency_keys = {}\<rparr>"

record RateLimitGuard =
  rg_max_per_second :: u32
  rg_window_second :: u64
  rg_used_in_window :: u32

definition make_rate_limit_guard :: "u32 \<Rightarrow> RateLimitGuard" where
  "make_rate_limit_guard max_per_second =
     \<lparr>rg_max_per_second = max_per_second, rg_window_second = 0, rg_used_in_window = 0\<rparr>"

definition set_max_per_second :: "RateLimitGuard \<Rightarrow> u32 \<Rightarrow> RateLimitGuard" where
  "set_max_per_second guard max_per_second = guard\<lparr>rg_max_per_second := max_per_second\<rparr>"

definition kNsPerSecond :: u64 where
  "kNsPerSecond = 1000000000"

definition rate_limit_check :: "RateLimitGuard \<Rightarrow> u64 \<Rightarrow> GuardResult \<times> RateLimitGuard" where
  "rate_limit_check guard now_ns =
     (let second = now_ns div kNsPerSecond;
          guard = (if second \<noteq> rg_window_second guard
                   then guard\<lparr>rg_window_second := second, rg_used_in_window := 0\<rparr> else guard)
      in if rg_used_in_window guard < rg_max_per_second guard
         then (pass_guard, guard\<lparr>rg_used_in_window := rg_used_in_window guard + 1\<rparr>)
         else (fail_guard RejectRateLimited kRiskRejectFlagRateLimited
                 ''risk approval rate limit exceeded'', guard))"

text \<open>
  The interface \<open>IRiskGuard\<close>: the classes that implement it, the dynamic dispatch of
  \<open>check\<close>, and the runner over a list of guard pointers, \<open>None\<close> being a null pointer.
\<close>

datatype RiskGuard =
    KillSwitchGuard bool
  | IntentExpiryGuard
  | DuplicateGuard DuplicateIntentGuard
  | RateGuard RateLimitGuard

fun check_guard :: "RiskGuard \<Rightarrow> OpportunityIntent \<Rightarrow> u64 \<Rightarrow> GuardResult \<times> RiskGuard" where
  "check_guard (KillSwitchGuard enabled) intent now_ns = (kill_switch_check enabled, KillSwitchGuard enabled)"
| "check_guard IntentExpiryGuard intent now_ns = (expiry_check intent now_ns, IntentExpiryGuard)"
| "check_guard (DuplicateGuard g) intent now_ns = map_prod id DuplicateGuard (duplicate_check g intent)"
| "check_guard (RateGuard g) intent now_ns = map_prod id RateGuard (rate_limit_check g now_ns)"

fun run_risk_guards ::
  "RiskGuard option list \<Rightarrow> OpportunityIntent \<Rightarrow> u64 \<Rightarrow> GuardResult \<times> RiskGuard option list" where
  "run_risk_guards [] intent now_ns = (pass_guard, [])"
| "run_risk_guards (None # guards) intent now_ns =
     (fail_guard RejectInternalError kRiskRejectFlagInternalError ''null risk guard'', None # guards)"
| "run_risk_guards (Some g # guards) intent now_ns =
     (case check_guard g intent now_ns of (result, g') \<Rightarrow>
        if \<not> gr_pass result then (result, Some g' # guards)
        else map_prod id ((#) (Some g')) (run_risk_guards guards intent now_ns))"

subsection \<open>Market state and freshness\<close>

definition reject_market :: "string \<Rightarrow> GuardResult" where
  "reject_market reason = fail_guard RejectBadMarketState kRiskRejectFlagBadMarketState reason"

definition market_state_check_snapshot :: "MarketStateSnapshot option \<Rightarrow> GuardResult" where
  "market_state_check_snapshot snapshot =
     (case snapshot of
        None \<Rightarrow> reject_market ''snapshot missing''
      | Some s \<Rightarrow>
          if ms_entity_id s = [] then reject_market ''snapshot missing''
          else if \<not> ms_live s then reject_market ''snapshot not live or market halted''
          else if \<not> ms_usable_for_depth s then reject_market ''snapshot not usable for depth''
          else if ms_recovering s then reject_market ''snapshot recovering''
          else if ms_crossed s then reject_market ''snapshot crossed''
          else if ms_closed s then reject_market ''snapshot closed''
          else if ms_resolved s then reject_market ''snapshot resolved''
          else pass_guard)"

definition market_state_check_view :: "MarketDepthView \<Rightarrow> GuardResult" where
  "market_state_check_view v =
     (if \<not> dv_usable_for_depth v then reject_market ''depth view not usable for depth''
      else if dv_recovering v then reject_market ''depth view recovering''
      else if dv_crossed v then reject_market ''depth view crossed''
      else if dv_closed v then reject_market ''depth view closed''
      else if dv_resolved v then reject_market ''depth view resolved''
      else pass_guard)"

text \<open>
  The freshness check, whose two overloads differ in where they read the update time, the
  evidence hash and the version, and in the texts.
\<close>

definition freshness_check ::
  "string \<Rightarrow> u64 \<Rightarrow> u64 \<Rightarrow> u64 \<Rightarrow> OpportunityIntent \<Rightarrow> RiskPolicySnapshot \<Rightarrow> u64 \<Rightarrow> GuardResult" where
  "freshness_check what updated_ns evidence_hash version intent policy now_ns =
     (let reject = fail_guard RejectStaleSnapshot kRiskRejectFlagStaleSnapshot in
      if updated_ns = 0 \<or> now_ns < updated_ns then reject (''invalid '' @ what @ '' update timestamp'')
      else if \<not> age_allowed policy now_ns updated_ns then reject (what @ '' too old'')
      else if evidence_hash \<noteq> oi_snapshot_version_hash intent
      then
        (let version_drift = (if version > oi_snapshot_version intent
                              then version - oi_snapshot_version intent
                              else oi_snapshot_version intent - version)
         in if rp_max_snapshot_skew_ns policy \<ge> 0 \<and>
               version_drift > word_of_int (rp_max_snapshot_skew_ns policy)
            then reject (what @ '' version drift exceeds tolerance'')
            else pass_guard\<lparr>gr_requires_reprice := True,
                            gr_reason := what @ '' hash changed; reprice required''\<rparr>)
      else pass_guard)"

definition freshness_check_snapshot ::
  "MarketStateSnapshot \<Rightarrow> OpportunityIntent \<Rightarrow> RiskPolicySnapshot \<Rightarrow> u64 \<Rightarrow> GuardResult" where
  "freshness_check_snapshot s intent policy now_ns =
     freshness_check ''snapshot'' (ms_last_book_update_ns s)
       (if ms_snapshot_version_hash s \<noteq> 0 then ms_snapshot_version_hash s else ms_state_hash s)
       (ms_version s) intent policy now_ns"

definition freshness_check_view ::
  "MarketDepthView \<Rightarrow> OpportunityIntent \<Rightarrow> RiskPolicySnapshot \<Rightarrow> u64 \<Rightarrow> GuardResult" where
  "freshness_check_view v intent policy now_ns =
     freshness_check ''depth view'' (dv_last_ws_recv_ns v) (dv_snapshot_version_hash v)
       (dv_book_version v) intent policy now_ns"

subsection \<open>Evidence\<close>

definition verify_evidence :: "OpportunityIntent \<Rightarrow> (RiskRejectReason \<times> string) + unit" where
  "verify_evidence intent =
     (if oi_oracle_artifact_hash intent = 0 then Inl (MissingEvidence, ''missing oracle_artifact_hash'')
      else if oi_bundle_hash intent = 0 then Inl (MissingEvidence, ''missing bundle_hash'')
      else if oi_snapshot_version_hash intent = 0 then Inl (MissingEvidence, ''missing snapshot_version_hash'')
      else if oi_created_ts_ns intent = 0 then Inl (MissingEvidence, ''missing created_ts_ns'')
      else if oi_expires_at_ns intent = 0 then Inl (MissingEvidence, ''missing expires_at_ns'')
      else if oi_expires_at_ns intent \<le> oi_created_ts_ns intent
        then Inl (MissingEvidence, ''expires_at_ns must be greater than created_ts_ns'')
      else if oi_idempotency_hash intent = 0 \<and> oi_idempotency_key intent = []
        then Inl (MissingEvidence, ''missing idempotency evidence'')
      else Inr ())"

subsection \<open>Edge and maximal loss\<close>

record EdgeGuardResult =
  eg_pass :: bool
  eg_rejection :: RiskDecisionType
  eg_post_risk_edge_tick :: i64
  eg_unit_edge_tick :: i64
  eg_edge_bps :: i64
  eg_reason :: string

definition default_edge :: EdgeGuardResult where
  "default_edge = \<lparr>eg_pass = False, eg_rejection = RejectInternalError, eg_post_risk_edge_tick = 0,
     eg_unit_edge_tick = 0, eg_edge_bps = 0, eg_reason = []\<rparr>"

definition reject_edge :: "RiskDecisionType \<Rightarrow> string \<Rightarrow> EdgeGuardResult \<Rightarrow> EdgeGuardResult" where
  "reject_edge type reason result = result\<lparr>eg_pass := False, eg_rejection := type, eg_reason := reason\<rparr>"

definition post_risk_edge :: "OpportunityIntent \<Rightarrow> CostRevalidationResult \<Rightarrow> RiskEdgeMathResult" where
  "post_risk_edge intent cost =
     compute_post_risk_edge
       \<lparr>rm_guaranteed_payout_per_bundle_tick =
          (if oi_bundle_qty intent > 0 then oi_guaranteed_payout_tick intent sdiv oi_bundle_qty intent
           else oi_guaranteed_payout_tick intent),
        rm_risk_bundle_qty = cr_risk_bundle_qty cost,
        rm_risk_total_cost_tick = cr_risk_total_cost_tick cost, rm_fee_tick = cr_fee_tick cost,
        rm_slippage_buffer_tick = cr_slippage_buffer_tick cost,
        rm_latency_buffer_tick = cr_latency_buffer_tick cost\<rparr>"

definition edge_check ::
  "OpportunityIntent \<Rightarrow> CostRevalidationResult \<Rightarrow> RiskPolicySnapshot \<Rightarrow> EdgeGuardResult" where
  "edge_check intent cost policy =
     (if \<not> cr_ok cost \<or> cr_risk_bundle_qty cost \<le> 0
      then reject_edge RejectInternalError ''invalid cost revalidation result'' default_edge
      else
        (let edge = post_risk_edge intent cost in
         if \<not> rm_ok edge
         then reject_edge RejectInternalError ''post-risk edge overflow'' default_edge
         else
           (let result = default_edge\<lparr>eg_post_risk_edge_tick := rm_post_risk_edge_tick edge,
                  eg_unit_edge_tick := rm_unit_edge_tick edge, eg_edge_bps := rm_edge_bps edge\<rparr>;
                accept = result\<lparr>eg_pass := True, eg_rejection := DT_Pass\<rparr>
            in if \<not> passes_edge_thresholds (eg_unit_edge_tick result) (eg_post_risk_edge_tick result)
                    (eg_edge_bps result) policy
               then
                 if eg_post_risk_edge_tick result < rp_min_post_risk_total_edge_tick policy
                 then reject_edge RejectLowTotalEdge ''post-risk total edge below threshold'' result
                 else if eg_unit_edge_tick result < rp_min_post_risk_unit_edge_tick policy
                 then reject_edge RejectLowUnitEdge ''post-risk unit edge below threshold'' result
                 else if eg_edge_bps result < rp_min_edge_bps policy
                 then reject_edge RejectLowEdgeBps ''post-risk edge bps below threshold'' result
                 else accept
               else accept)))"

record MaxLossGuardResult =
  mg_pass :: bool
  mg_rejection :: RiskDecisionType
  mg_max_loss_tick :: i64
  mg_reason :: string

definition reject_loss :: "RiskDecisionType \<Rightarrow> string \<Rightarrow> i64 \<Rightarrow> MaxLossGuardResult" where
  "reject_loss type reason max_loss =
     \<lparr>mg_pass = False, mg_rejection = type, mg_max_loss_tick = max_loss, mg_reason = reason\<rparr>"

definition max_loss_check ::
  "OpportunityIntent \<Rightarrow> CostRevalidationResult \<Rightarrow> RiskPolicySnapshot \<Rightarrow> MaxLossGuardResult" where
  "max_loss_check intent cost policy =
     (if \<not> cr_ok cost then reject_loss RejectInternalError ''invalid cost revalidation result'' 0
      else if \<not> list_all (\<lambda>leg. il_side leg = Buy) (intent_legs intent)
      then reject_loss RejectInternalError ''SELL leg max loss unsupported in risk v0'' 0
      else if rp_max_total_cost_tick policy > 0 \<and>
              cr_risk_total_cost_tick cost > rp_max_total_cost_tick policy
      then reject_loss RejectCostLimit ''risk total cost exceeds policy max'' (cr_risk_total_cost_tick cost)
      else \<lparr>mg_pass = True, mg_rejection = DT_Pass, mg_max_loss_tick = cr_risk_total_cost_tick cost,
            mg_reason = []\<rparr>)"

subsection \<open>Exposure and inventory\<close>

text \<open>\<open>out[key] += amount\<close> on a map whose entries start at zero.\<close>

fun bump :: "(string \<times> i64) list \<Rightarrow> string \<Rightarrow> i64 \<Rightarrow> (string \<times> i64) list" where
  "bump [] key amount = [(key, wrap_i64 amount)]"
| "bump ((k, v) # rest) key amount =
     (if k = key then (k, wrap_i64 (v + amount)) # rest else (k, v) # bump rest key amount)"

definition market_costs :: "OpportunityIntent \<Rightarrow> CostRevalidationResult \<Rightarrow> (string \<times> i64) list" where
  "market_costs intent cost =
     (let out = foldl (\<lambda>out leg. if il_market_id leg = [] then out
                         else bump out (il_market_id leg) (max (il_estimated_cost_tick leg) 0))
                  [] (intent_legs intent)
      in case out of
           [(market_id, _)] \<Rightarrow> [(market_id, max (cr_risk_total_cost_tick cost) 0)]
         | _ \<Rightarrow> out)"

text \<open>The first entry whose balance would pass the limit, and that balance.\<close>

fun over_limit :: "balances \<Rightarrow> i64 \<Rightarrow> (string \<times> i64) list \<Rightarrow> (string \<times> i64) option" where
  "over_limit current limit [] = None"
| "over_limit current limit ((key, amount) # rest) =
     (let post = wrap_i64 (balance_of current key + amount)
      in if post > limit then Some (key, post) else over_limit current limit rest)"

record ExposureGuardResult =
  xg_pass :: bool
  xg_rejection :: RiskDecisionType
  xg_post_total_exposure_tick :: i64
  xg_rejected_market_id :: string
  xg_post_market_exposure_tick :: i64
  xg_reason :: string

definition default_exposure :: ExposureGuardResult where
  "default_exposure = \<lparr>xg_pass = False, xg_rejection = RejectInternalError,
     xg_post_total_exposure_tick = 0, xg_rejected_market_id = [], xg_post_market_exposure_tick = 0,
     xg_reason = []\<rparr>"

definition reject_exposure :: "RiskDecisionType \<Rightarrow> string \<Rightarrow> ExposureGuardResult \<Rightarrow> ExposureGuardResult" where
  "reject_exposure type reason result = result\<lparr>xg_pass := False, xg_rejection := type, xg_reason := reason\<rparr>"

definition exposure_check ::
  "RiskLedgerSnapshot \<Rightarrow> OpportunityIntent \<Rightarrow> CostRevalidationResult \<Rightarrow> RiskPolicySnapshot
     \<Rightarrow> ExposureGuardResult" where
  "exposure_check reserved intent cost policy =
     (if \<not> cr_ok cost
      then reject_exposure RejectInternalError ''invalid cost revalidation result'' default_exposure
      else
        (let result = default_exposure\<lparr>xg_post_total_exposure_tick :=
               wrap_i64 (ls_total_reserved_exposure_tick reserved + max (cr_risk_total_cost_tick cost) 0)\<rparr>;
             accept = result\<lparr>xg_pass := True, xg_rejection := DT_Pass\<rparr>
         in if rp_max_total_exposure_tick policy > 0 \<and>
               xg_post_total_exposure_tick result > rp_max_total_exposure_tick policy
            then reject_exposure RejectTotalExposureLimit ''total exposure limit exceeded'' result
            else if rp_max_single_market_exposure_tick policy > 0
            then
              (case over_limit (ls_reserved_market_exposure_tick reserved)
                      (rp_max_single_market_exposure_tick policy) (market_costs intent cost) of
                 Some (market_id, post) \<Rightarrow>
                   reject_exposure RejectSingleMarketExposureLimit ''single market exposure limit exceeded''
                     (result\<lparr>xg_rejected_market_id := market_id, xg_post_market_exposure_tick := post\<rparr>)
               | None \<Rightarrow> accept)
            else accept))"

record InventoryGuardResult =
  vg_pass :: bool
  vg_rejection :: RiskDecisionType
  vg_rejected_asset_id :: string
  vg_post_asset_lots :: i64
  vg_reason :: string

definition incoming_lots :: "OpportunityIntent \<Rightarrow> (string \<times> i64) list" where
  "incoming_lots intent =
     foldl (\<lambda>out leg. if il_asset_id leg = [] then out
              else bump out (il_asset_id leg) (max (il_quantity_lots leg) 0)) [] (intent_legs intent)"

definition inventory_check ::
  "RiskLedgerSnapshot \<Rightarrow> OpportunityIntent \<Rightarrow> CostRevalidationResult \<Rightarrow> RiskPolicySnapshot
     \<Rightarrow> InventoryGuardResult" where
  "inventory_check reserved intent cost policy =
     (let accept = \<lparr>vg_pass = True, vg_rejection = DT_Pass, vg_rejected_asset_id = [],
                    vg_post_asset_lots = 0, vg_reason = []\<rparr> in
      if \<not> cr_ok cost
      then \<lparr>vg_pass = False, vg_rejection = RejectInternalError, vg_rejected_asset_id = [],
            vg_post_asset_lots = 0, vg_reason = ''invalid cost revalidation result''\<rparr>
      else if rp_max_inventory_lots_per_asset policy \<le> 0 then accept
      else
        (case over_limit (ls_reserved_asset_lots reserved) (rp_max_inventory_lots_per_asset policy)
                (incoming_lots intent) of
           Some (asset_id, post) \<Rightarrow>
             \<lparr>vg_pass = False, vg_rejection = RejectInventoryLimit, vg_rejected_asset_id = asset_id,
              vg_post_asset_lots = post, vg_reason = ''asset inventory limit exceeded''\<rparr>
         | None \<Rightarrow> accept))"

subsection \<open>Partial fills\<close>

record PartialFillGuardResult =
  fg_pass :: bool
  fg_rejection :: RiskDecisionType
  fg_depth_margin_checked :: bool
  fg_unhedged_loss_evaluated :: bool
  fg_unhedged_loss_placeholder_available :: bool
  fg_rejected_asset_id :: string
  fg_requested_qty_lots :: i64
  fg_available_depth_lots :: i64
  fg_required_depth_with_margin_lots :: i64
  fg_max_unhedged_loss_tick :: i64
  fg_reason :: string

definition required_with_margin_bps :: "i64 \<Rightarrow> i64 \<Rightarrow> i64" where
  "required_with_margin_bps requested_qty_lots margin_bps =
     (if requested_qty_lots \<le> 0 then 0
      else let margin = (if margin_bps < 10000 then 10000 else margin_bps);
               required = (requested_qty_lots * margin + 9999) sdiv 10000
           in if required > i64_max then i64_max else required)"

definition reject_partial ::
  "string \<Rightarrow> PartialFillGuardResult \<Rightarrow> PartialFillGuardResult" where
  "reject_partial reason result =
     result\<lparr>fg_pass := False, fg_rejection := RejectPartialFillRisk, fg_reason := reason\<rparr>"

text \<open>The loop over the legs, beside the revalidated legs; \<open>None\<close> when it runs through.\<close>

fun partial_fill_loop ::
  "i64 \<Rightarrow> i64 \<Rightarrow> PartialFillGuardResult \<Rightarrow> (IntentLeg \<times> RevalidatedLegCost) list
     \<Rightarrow> PartialFillGuardResult option" where
  "partial_fill_loop bundle_qty min_margin result [] = None"
| "partial_fill_loop bundle_qty min_margin result ((leg, leg_cost) # rest) =
     (if il_side leg \<noteq> Buy \<or> il_asset_id leg = [] \<or> il_quantity_lots leg \<le> 0
      then Some (reject_partial ''unsupported or invalid leg for partial fill guard'' result)
      else if lc_asset_id leg_cost \<noteq> [] \<and> lc_asset_id leg_cost \<noteq> il_asset_id leg
      then Some (reject_partial ''revalidated leg asset mismatch''
             (result\<lparr>fg_rejected_asset_id := il_asset_id leg\<rparr>))
      else
        (case (if lc_requested_qty_lots leg_cost \<le> 0
               then checked_mul_i64 (il_quantity_lots leg) bundle_qty
               else Some (lc_requested_qty_lots leg_cost)) of
           None \<Rightarrow> Some (reject_partial ''requested quantity overflow''
                     (result\<lparr>fg_rejected_asset_id := il_asset_id leg\<rparr>))
         | Some requested \<Rightarrow>
             (let available = lc_executable_qty_lots leg_cost;
                  margin = (if lc_depth_margin_bps leg_cost > 0 then lc_depth_margin_bps leg_cost
                            else depth_margin_bps available requested)
              in if \<not> lc_enough_depth leg_cost \<or> margin < min_margin
                 then Some (reject_partial ''depth margin below policy''
                        (result\<lparr>fg_rejected_asset_id := il_asset_id leg,
                           fg_requested_qty_lots := requested, fg_available_depth_lots := available,
                           fg_required_depth_with_margin_lots :=
                             required_with_margin_bps requested min_margin\<rparr>))
                 else partial_fill_loop bundle_qty min_margin result rest)))"

definition partial_fill_check ::
  "OpportunityIntent \<Rightarrow> CostRevalidationResult \<Rightarrow> RiskPolicySnapshot \<Rightarrow> PartialFillGuardResult" where
  "partial_fill_check intent cost policy =
     (let start = \<lparr>fg_pass = False, fg_rejection = RejectInternalError, fg_depth_margin_checked = False,
            fg_unhedged_loss_evaluated = False, fg_unhedged_loss_placeholder_available = True,
            fg_rejected_asset_id = [], fg_requested_qty_lots = 0, fg_available_depth_lots = 0,
            fg_required_depth_with_margin_lots = 0,
            fg_max_unhedged_loss_tick = rp_max_unhedged_loss_tick policy, fg_reason = []\<rparr>
      in
      if \<not> cr_ok cost \<or> cr_risk_bundle_qty cost \<le> 0
      then start\<lparr>fg_reason := ''invalid cost revalidation result''\<rparr>
      else if oi_leg_count intent = 0 \<or> oi_leg_count intent > kMaxIntentLegs
      then start\<lparr>fg_reason := ''invalid intent legs''\<rparr>
      else if oi_leg_count intent = 1 then start\<lparr>fg_pass := True, fg_rejection := DT_Pass\<rparr>
      else
        (let start = start\<lparr>fg_depth_margin_checked := True\<rparr> in
         if cr_leg_count cost < oi_leg_count intent
         then reject_partial ''missing revalidated leg depth'' start
         else
           (case partial_fill_loop (cr_risk_bundle_qty cost) (effective_min_depth_margin_bps policy)
                   start (zip (intent_legs intent) (cr_legs cost)) of
              Some rejected_result \<Rightarrow> rejected_result
            | None \<Rightarrow> start\<lparr>fg_pass := True, fg_rejection := DT_Pass\<rparr>)))"

subsection \<open>When the guards pass\<close>

lemma verify_evidence_iff:
  "verify_evidence intent = Inr () \<longleftrightarrow>
     oi_oracle_artifact_hash intent \<noteq> 0 \<and> oi_bundle_hash intent \<noteq> 0 \<and>
     oi_snapshot_version_hash intent \<noteq> 0 \<and> oi_created_ts_ns intent \<noteq> 0 \<and>
     oi_created_ts_ns intent < oi_expires_at_ns intent \<and>
     (oi_idempotency_hash intent \<noteq> 0 \<or> oi_idempotency_key intent \<noteq> [])"
  by (auto simp: verify_evidence_def)

lemma market_state_snapshot_iff:
  "gr_pass (market_state_check_snapshot snapshot) \<longleftrightarrow>
     (case snapshot of
        None \<Rightarrow> False
      | Some s \<Rightarrow> ms_entity_id s \<noteq> [] \<and> ms_live s \<and> ms_usable_for_depth s \<and> \<not> ms_recovering s \<and>
                   \<not> ms_crossed s \<and> \<not> ms_closed s \<and> \<not> ms_resolved s)"
  by (auto simp: market_state_check_snapshot_def reject_market_def split: option.split)

lemma market_state_view_iff:
  "gr_pass (market_state_check_view v) \<longleftrightarrow>
     dv_usable_for_depth v \<and> \<not> dv_recovering v \<and> \<not> dv_crossed v \<and> \<not> dv_closed v \<and> \<not> dv_resolved v"
  by (auto simp: market_state_check_view_def reject_market_def)

lemma freshness_passes:
  "gr_pass (freshness_check what updated evidence version intent policy now) \<Longrightarrow>
   updated \<noteq> 0 \<and> updated \<le> now \<and> age_allowed policy now updated"
  by (auto simp: freshness_check_def Let_def split: if_splits)

lemma edge_passes_iff:
  "eg_pass (edge_check intent cost policy) \<longleftrightarrow>
     cr_ok cost \<and> 0 < cr_risk_bundle_qty cost \<and> rm_ok (post_risk_edge intent cost) \<and>
     passes_edge_thresholds (rm_unit_edge_tick (post_risk_edge intent cost))
       (rm_post_risk_edge_tick (post_risk_edge intent cost)) (rm_edge_bps (post_risk_edge intent cost)) policy"
  by (auto simp: edge_check_def reject_edge_def default_edge_def passes_edge_thresholds_def Let_def)

lemma max_loss_passes_iff:
  "mg_pass (max_loss_check intent cost policy) \<longleftrightarrow>
     cr_ok cost \<and> list_all (\<lambda>leg. il_side leg = Buy) (intent_legs intent) \<and>
     (0 < rp_max_total_cost_tick policy \<longrightarrow> cr_risk_total_cost_tick cost \<le> rp_max_total_cost_tick policy)"
  by (auto simp: max_loss_check_def reject_loss_def)

lemma over_limit_None:
  "over_limit current limit entries = None \<longleftrightarrow>
     (\<forall>(key, amount) \<in> set entries. wrap_i64 (balance_of current key + amount) \<le> limit)"
  by (induction entries) (auto simp: Let_def split: if_splits)

lemma exposure_passes_iff:
  "xg_pass (exposure_check reserved intent cost policy) \<longleftrightarrow>
     cr_ok cost \<and>
     (0 < rp_max_total_exposure_tick policy \<longrightarrow>
        wrap_i64 (ls_total_reserved_exposure_tick reserved + max (cr_risk_total_cost_tick cost) 0)
          \<le> rp_max_total_exposure_tick policy) \<and>
     (0 < rp_max_single_market_exposure_tick policy \<longrightarrow>
        (\<forall>(market, c) \<in> set (market_costs intent cost).
           wrap_i64 (balance_of (ls_reserved_market_exposure_tick reserved) market + c)
             \<le> rp_max_single_market_exposure_tick policy))"
proof -
  note limit = over_limit_None [of "ls_reserved_market_exposure_tick reserved"
      "rp_max_single_market_exposure_tick policy" "market_costs intent cost"]
  show ?thesis
    unfolding limit [symmetric]
    by (auto simp: exposure_check_def reject_exposure_def default_exposure_def Let_def split: option.split)
qed

lemma inventory_passes_iff:
  "vg_pass (inventory_check reserved intent cost policy) \<longleftrightarrow>
     cr_ok cost \<and>
     (0 < rp_max_inventory_lots_per_asset policy \<longrightarrow>
        (\<forall>(asset, n) \<in> set (incoming_lots intent).
           wrap_i64 (balance_of (ls_reserved_asset_lots reserved) asset + n)
             \<le> rp_max_inventory_lots_per_asset policy))"
  using over_limit_None [of "ls_reserved_asset_lots reserved" "rp_max_inventory_lots_per_asset policy"
      "incoming_lots intent"]
  by (auto simp: inventory_check_def Let_def split: option.split)

text \<open>
  The depth behind a leg, in basis points of the lots it asks for: as the repricing reported it, or else of the
  leg's own lots. A leg is deep enough when the repricing found its quantity and the ratio reaches the margin.
\<close>

definition leg_asked :: "i64 \<Rightarrow> IntentLeg \<Rightarrow> RevalidatedLegCost \<Rightarrow> int" where
  "leg_asked bundle_qty leg leg_cost =
     (if lc_requested_qty_lots leg_cost \<le> 0 then il_quantity_lots leg * bundle_qty else lc_requested_qty_lots leg_cost)"

definition leg_margin_bps :: "i64 \<Rightarrow> IntentLeg \<Rightarrow> RevalidatedLegCost \<Rightarrow> int" where
  "leg_margin_bps bundle_qty leg leg_cost =
     (if lc_depth_margin_bps leg_cost > 0 then lc_depth_margin_bps leg_cost
      else depth_margin_bps (lc_executable_qty_lots leg_cost) (leg_asked bundle_qty leg leg_cost))"

definition leg_deep_enough :: "i64 \<Rightarrow> i64 \<Rightarrow> IntentLeg \<Rightarrow> RevalidatedLegCost \<Rightarrow> bool" where
  "leg_deep_enough bundle_qty min_margin leg leg_cost \<longleftrightarrow>
     il_side leg = Buy \<and> il_asset_id leg \<noteq> [] \<and> 0 < il_quantity_lots leg \<and>
     (lc_asset_id leg_cost = [] \<or> lc_asset_id leg_cost = il_asset_id leg) \<and>
     (lc_requested_qty_lots leg_cost \<le> 0 \<longrightarrow> in_i64 (il_quantity_lots leg * bundle_qty)) \<and>
     lc_enough_depth leg_cost \<and> min_margin \<le> leg_margin_bps bundle_qty leg leg_cost"

lemma partial_fill_loop_step:
  "partial_fill_loop bundle_qty min_margin result ((leg, leg_cost) # rest) = None \<longleftrightarrow>
     leg_deep_enough bundle_qty min_margin leg leg_cost \<and> partial_fill_loop bundle_qty min_margin result rest = None"
proof (cases "lc_requested_qty_lots leg_cost \<le> 0")
  case True
  moreover have "checked_mul_i64 a b = (if in_i64 (a * b) then Some (a * b) else None)" for a b
    by (auto simp: checked_mul_i64_def in_i64_def)
  ultimately show ?thesis
    by (cases "in_i64 (il_quantity_lots leg * bundle_qty)")
       (auto simp: leg_deep_enough_def leg_margin_bps_def leg_asked_def Let_def)
next
  case False
  then show ?thesis
    by (auto simp: leg_deep_enough_def leg_margin_bps_def leg_asked_def Let_def)
qed

lemma partial_fill_loop_None:
  "partial_fill_loop bundle_qty min_margin result pairs = None \<longleftrightarrow>
     (\<forall>(leg, leg_cost) \<in> set pairs. leg_deep_enough bundle_qty min_margin leg leg_cost)"
proof (induction pairs)
  case (Cons pair pairs)
  then show ?case
    by (cases pair) (simp add: partial_fill_loop_step del: partial_fill_loop.simps)
qed simp

lemma partial_fill_loop_fails: "partial_fill_loop bundle_qty min_margin result pairs = Some r \<Longrightarrow> \<not> fg_pass r"
  by (induction bundle_qty min_margin result pairs rule: partial_fill_loop.induct)
     (auto simp: reject_partial_def Let_def split: if_splits option.splits)

lemma partial_fill_passes_iff:
  "fg_pass (partial_fill_check intent cost policy) \<longleftrightarrow>
     cr_ok cost \<and> 0 < cr_risk_bundle_qty cost \<and> 0 < oi_leg_count intent \<and> oi_leg_count intent \<le> kMaxIntentLegs \<and>
     (oi_leg_count intent = 1 \<or> oi_leg_count intent \<le> cr_leg_count cost \<and>
        (\<forall>(leg, leg_cost) \<in> set (zip (intent_legs intent) (cr_legs cost)).
           leg_deep_enough (cr_risk_bundle_qty cost) (effective_min_depth_margin_bps policy) leg leg_cost))"
proof -
  have run: "fg_pass (case partial_fill_loop q m start pairs of Some r \<Rightarrow> r | None \<Rightarrow> finish) \<longleftrightarrow>
      (\<forall>(leg, leg_cost) \<in> set pairs. leg_deep_enough q m leg leg_cost)" if "fg_pass finish" for q m start pairs finish
    using that partial_fill_loop_None [of q m start pairs] partial_fill_loop_fails
    by (cases "partial_fill_loop q m start pairs") auto
  consider "\<not> cr_ok cost \<or> cr_risk_bundle_qty cost \<le> 0 \<or> oi_leg_count intent = 0 \<or> oi_leg_count intent > kMaxIntentLegs"
    | "cr_ok cost" "0 < cr_risk_bundle_qty cost" "oi_leg_count intent = 1" "oi_leg_count intent \<le> kMaxIntentLegs"
    | "cr_ok cost" "0 < cr_risk_bundle_qty cost" "1 < oi_leg_count intent" "oi_leg_count intent \<le> kMaxIntentLegs"
    by linarith
  then show ?thesis
  proof cases
    case 1
    then show ?thesis by (auto simp: partial_fill_check_def Let_def)
  next
    case 2
    then show ?thesis by (simp add: partial_fill_check_def Let_def)
  next
    case 3
    then show ?thesis
      by (cases "cr_leg_count cost < oi_leg_count intent")
         (simp_all add: partial_fill_check_def reject_partial_def Let_def run not_less)
  qed
qed

subsection \<open>The rate limiter over time\<close>

fun rate_run :: "RateLimitGuard \<Rightarrow> u64 list \<Rightarrow> bool list" where
  "rate_run guard [] = []"
| "rate_run guard (t # ts) =
     (case rate_limit_check guard t of (result, guard') \<Rightarrow> gr_pass result # rate_run guard' ts)"

definition second_of :: "u64 \<Rightarrow> u64" where
  "second_of t = t div kNsPerSecond"

definition admitted_in :: "RateLimitGuard \<Rightarrow> u64 list \<Rightarrow> u64 \<Rightarrow> nat" where
  "admitted_in guard ts s =
     length (filter (\<lambda>(t, pass). pass \<and> second_of t = s) (zip ts (rate_run guard ts)))"

definition requests_in :: "u64 list \<Rightarrow> u64 \<Rightarrow> nat" where
  "requests_in ts s = length (filter (\<lambda>t. second_of t = s) ts)"

definition room_in :: "RateLimitGuard \<Rightarrow> u64 \<Rightarrow> nat" where
  "room_in guard s =
     unat (rg_max_per_second guard) - (if s = rg_window_second guard then unat (rg_used_in_window guard) else 0)"

definition enter_second :: "RateLimitGuard \<Rightarrow> u64 \<Rightarrow> RateLimitGuard" where
  "enter_second guard s =
     (if s \<noteq> rg_window_second guard
      then guard\<lparr>rg_window_second := s, rg_used_in_window := 0\<rparr> else guard)"

lemma second_of_mono: "t \<le> t' \<Longrightarrow> second_of t \<le> second_of t'"
  by (simp add: second_of_def kNsPerSecond_def word_le_nat_alt unat_div div_le_mono)

lemma rate_limit_check_eq:
  "rate_limit_check guard t =
     (let g = enter_second guard (second_of t)
      in if rg_used_in_window g < rg_max_per_second g
         then (pass_guard, g\<lparr>rg_used_in_window := rg_used_in_window g + 1\<rparr>)
         else (fail_guard RejectRateLimited kRiskRejectFlagRateLimited
                 ''risk approval rate limit exceeded'', g))"
  by (simp add: rate_limit_check_def enter_second_def second_of_def Let_def)

lemma enter_second_simps [simp]:
  "rg_window_second (enter_second guard s) = s"
  "rg_max_per_second (enter_second guard s) = rg_max_per_second guard"
  by (simp_all add: enter_second_def)

lemma rate_limit_passes_iff:
  "gr_pass (fst (rate_limit_check guard t)) \<longleftrightarrow> 0 < room_in guard (second_of t)"
  by (simp add: rate_limit_check_eq room_in_def enter_second_def word_less_nat_alt Let_def)

lemma requests_before:
  assumes "\<forall>t \<in> set ts. s' \<le> second_of t" "s < s'"
  shows "requests_in ts s = 0"
  using assms by (auto simp: requests_in_def filter_empty_conv)

lemma room_enter:
  assumes "\<forall>t \<in> set ts. s' \<le> second_of t" "rg_window_second guard \<le> s'"
  shows "min (room_in (enter_second guard s') s) (requests_in ts s) = min (room_in guard s) (requests_in ts s)"
proof (cases "s = rg_window_second guard \<and> s \<noteq> s'")
  case True
  then have "s < s'" using assms(2) by auto
  then show ?thesis using requests_before [OF assms(1), of s] by simp
next
  case False
  then have "room_in (enter_second guard s') s = room_in guard s"
    by (cases "s' = rg_window_second guard") (simp_all add: room_in_def enter_second_def)
  then show ?thesis by simp
qed

lemma admitted_exact:
  assumes "sorted ts" "\<forall>t \<in> set ts. rg_window_second guard \<le> second_of t"
    and "rg_used_in_window guard \<le> rg_max_per_second guard"
  shows "admitted_in guard ts s = min (room_in guard s) (requests_in ts s)"
  using assms
proof (induction ts arbitrary: guard)
  case Nil
  then show ?case by (simp add: admitted_in_def requests_in_def)
next
  case (Cons t ts)
  let ?g = "enter_second guard (second_of t)"
  have later: "\<forall>t' \<in> set (t # ts). second_of t \<le> second_of t'"
    using Cons.prems(1) by (auto intro: second_of_mono)
  have used: "rg_used_in_window ?g \<le> rg_max_per_second ?g"
    using Cons.prems(3) by (simp add: enter_second_def)
  have room: "min (room_in ?g s) (requests_in (t # ts) s) = min (room_in guard s) (requests_in (t # ts) s)"
    using later Cons.prems(2) by (intro room_enter) auto
  show ?case
  proof (cases "rg_used_in_window ?g < rg_max_per_second ?g")
    case True
    let ?g' = "?g\<lparr>rg_used_in_window := rg_used_in_window ?g + 1\<rparr>"
    have lt: "unat (rg_used_in_window ?g) < unat (rg_max_per_second ?g)" using True by (simp add: word_less_nat_alt)
    have up: "unat (rg_used_in_window ?g + 1) = Suc (unat (rg_used_in_window ?g))"
      using lt unsigned_less [of "rg_max_per_second ?g", where 'a = nat] by (simp add: unat_word_ariths)
    have "admitted_in ?g' ts s = min (room_in ?g' s) (requests_in ts s)"
      using Cons.prems(1) later True up lt by (intro Cons.IH) (auto simp: word_le_nat_alt)
    moreover have "admitted_in guard (t # ts) s = (if second_of t = s then 1 else 0) + admitted_in ?g' ts s"
      using True by (simp add: admitted_in_def rate_limit_check_eq Let_def)
    moreover have "room_in ?g' s = (if second_of t = s then room_in ?g s - 1 else room_in ?g s)"
      using up by (auto simp: room_in_def)
    moreover have "second_of t = s \<Longrightarrow> 0 < room_in ?g s" using lt by (simp add: room_in_def)
    moreover have "requests_in (t # ts) s = (if second_of t = s then 1 else 0) + requests_in ts s"
      by (simp add: requests_in_def)
    ultimately show ?thesis using room by (cases "second_of t = s") (simp_all add: min_def split: if_splits, linarith?)
  next
    case False
    have "admitted_in ?g ts s = min (room_in ?g s) (requests_in ts s)"
      using Cons.prems(1) later used by (intro Cons.IH) auto
    moreover have "admitted_in guard (t # ts) s = admitted_in ?g ts s"
      using False by (simp add: admitted_in_def rate_limit_check_eq Let_def)
    moreover have "room_in ?g (second_of t) = 0"
      using False by (simp add: room_in_def word_less_nat_alt not_less)
    ultimately show ?thesis
      using room by (cases "s = second_of t") (auto simp: requests_in_def)
  qed
qed

text \<open>
  C17: The rate limiter admits exactly what the policy allows: over requests in order of time, a
  fresh limiter admits in every second the smaller of its maximum and the number of requests of
  that second.
\<close>
theorem rate_limit_exact:
  assumes "sorted ts"
  shows "admitted_in (make_rate_limit_guard m) ts s = min (unat m) (requests_in ts s)"
proof -
  have "admitted_in (make_rate_limit_guard m) ts s =
      min (room_in (make_rate_limit_guard m) s) (requests_in ts s)"
    using assms by (intro admitted_exact) (auto simp: make_rate_limit_guard_def)
  then show ?thesis by (simp add: room_in_def make_rate_limit_guard_def)
qed

theorem rate_limit_exact_witness:
  "admitted_in (make_rate_limit_guard 2) [1000000000, 1000000001, 1999999999, 2000000000] 1 = 2 \<and>
   admitted_in (make_rate_limit_guard 2) [1000000000, 1000000001, 1999999999, 2000000000] 2 = 1"
  using rate_limit_exact [of "[1000000000, 1000000001, 1999999999, 2000000000]" 2 1]
    rate_limit_exact [of "[1000000000, 1000000001, 1999999999, 2000000000]" 2 2]
  by (simp add: requests_in_def second_of_def kNsPerSecond_def)

subsection \<open>Depth margins\<close>

lemma ratio_bps_margin:
  assumes "0 < r" "0 \<le> e" "m \<le> ratio_bps e r" "m \<le> i64_max"
  shows "m * r \<le> e * 10000"
proof -
  have "0 \<le> e * 10000 div r" using assms(1,2) by (simp add: pos_imp_zdiv_nonneg_iff)
  then have "ratio_bps e r \<le> e * 10000 div r"
    using assms(1,2) by (simp add: ratio_bps_def Let_def sdiv_nonneg i64_bounds)
  then show ?thesis using assms(1,3) le_div_iff_mult_le [of r m "e * 10000"] by simp
qed

lemma partial_fill_loop_margin:
  assumes "partial_fill_loop bundle_qty m result pairs = None" "(leg, lc) \<in> set pairs"
    and "0 < lc_requested_qty_lots lc" "lc_requested_qty_lots lc \<le> lc_executable_qty_lots lc"
    and "lc_depth_margin_bps lc = reprice_depth_margin_bps (lc_executable_qty_lots lc) (lc_requested_qty_lots lc)"
    and "0 < lc_depth_margin_bps lc" "m \<le> i64_max"
  shows "m * lc_requested_qty_lots lc \<le> lc_executable_qty_lots lc * 10000"
  using assms
proof (induction bundle_qty m result pairs rule: partial_fill_loop.induct)
  case (2 bundle_qty m result leg' lc' rest)
  show ?case
  proof (cases "(leg, lc) = (leg', lc')")
    case True
    then have "m \<le> reprice_depth_margin_bps (lc_executable_qty_lots lc) (lc_requested_qty_lots lc)"
      using "2.prems" by (auto simp: Let_def split: if_splits)
    then show ?thesis
      using "2.prems"(3,4,7) by (intro ratio_bps_margin) (auto simp: reprice_depth_margin_bps_def split: if_splits)
  next
    case False
    then show ?thesis
      using "2.prems" "2.IH" by (auto simp: Let_def split: if_splits option.splits)
  qed
qed simp

subsection \<open>The edge of a repriced intent\<close>

text \<open>
  The revalidated bundle quantity is what the whole depth would supply, while the revalidated
  cost is that of the intent's own quantity; the edge guard multiplies the payout of one bundle
  with the former and subtracts the latter. The guard below lets an intent pass whose payout is
  less than its cost, because the book is deeper than the intent needs.
\<close>

definition losing_intent :: OpportunityIntent where
  "losing_intent = two_bundles\<lparr>oi_guaranteed_payout_tick := 100\<rparr>"

definition drift_policy :: RiskPolicySnapshot where
  "drift_policy = default_policy\<lparr>rp_max_allowed_cost_drift_tick := 70\<rparr>"

lemma edge_counts_whole_depth:
  "eg_pass (edge_check losing_intent (revalidate_views losing_intent [quoted_view] drift_policy 200 0) drift_policy) \<and>
   oi_guaranteed_payout_tick losing_intent <
     cr_risk_total_cost_tick (revalidate_views losing_intent [quoted_view] drift_policy 200 0)"
proof -
  have legs: "intent_legs losing_intent = [sample_leg\<lparr>il_quantity_lots := 4\<rparr>]"
    by (simp add: losing_intent_def two_bundles_def intent_legs_def sample_intent_def)
  have found: "find_view_of [quoted_view] (sample_leg\<lparr>il_quantity_lots := 4\<rparr>) = Some quoted_view"
    by (simp add: find_view_of_def quoted_view_def sample_leg_def)
  have fields: "oi_bundle_qty losing_intent = 2" "oi_leg_count losing_intent = 1" "oi_legs losing_intent \<noteq> []"
    "oi_estimated_cost_tick losing_intent = 40" "oi_guaranteed_payout_tick losing_intent = 100"
    "oi_estimated_fee_tick losing_intent = 1" "oi_slippage_buffer_tick losing_intent = 0"
    "oi_latency_buffer_tick losing_intent = 1" "oi_snapshot_version_hash losing_intent = 14"
    by (simp_all add: losing_intent_def two_bundles_def sample_intent_def)
  let ?r = "reprice_views losing_intent [quoted_view]"
  have "cr_ok ?r \<and> cr_risk_total_cost_tick ?r = 110 \<and> cr_risk_bundle_qty ?r = 3"
    using view_pricer.reprice_exact [of losing_intent "find_view_of [quoted_view]" "''missing latest depth view''"]
    by (simp add: legs fields found quoted_view_facts depth_sample_asks leg_fillable_def leg_cost_of_def
        leg_bundles_def planned_lots_def walk_cost_sample_asks i64_bounds kMaxIntentLegs_def reprice_views_def)
       (simp add: sample_leg_def)
  moreover have "\<not> can_reuse_signal_depth_view losing_intent [quoted_view] drift_policy 200 0"
    by (simp add: can_reuse_signal_depth_view_def signal_reusable_def combined_snapshot_hash_matches_def Let_def)
  ultimately have "cr_ok (revalidate_views losing_intent [quoted_view] drift_policy 200 0)"
    "cr_risk_total_cost_tick (revalidate_views losing_intent [quoted_view] drift_policy 200 0) = 110"
    "cr_risk_bundle_qty (revalidate_views losing_intent [quoted_view] drift_policy 200 0) = 3"
    "cr_fee_tick (revalidate_views losing_intent [quoted_view] drift_policy 200 0) = 1"
    "cr_slippage_buffer_tick (revalidate_views losing_intent [quoted_view] drift_policy 200 0) = 0"
    "cr_latency_buffer_tick (revalidate_views losing_intent [quoted_view] drift_policy 200 0) = 1"
    by (simp_all add: revalidate_views_def finish_revalidation_def fields drift_policy_def
        wrap_i64_id in_i64_def i64_bounds Let_def)
  then show ?thesis
    by (simp add: edge_passes_iff post_risk_edge_def fields compute_post_risk_edge_def checked_mul_i64_def
        checked_sub_i64_def i64_bounds passes_edge_thresholds_def drift_policy_def default_policy_def
        ratio_bps_def sdiv_nonneg Let_def)
qed

end
