(* ===== verification/RiskPipeline.thy ===== *)
theory RiskPipeline
  imports RiskGuards
begin

section \<open>The risk pipeline and the risk engine\<close>

text \<open>
  \<open>engine/risk/core/RiskPipeline.cpp\<close> and \<open>RiskEngine.cpp\<close>, with the audit trace and the
  counters they fill (\<open>RiskAuditTrace.h\<close>, \<open>RiskResult.h\<close>, \<open>RiskMetrics.h\<close>). An intent
  passes the guards one after the other; the first rejection ends the evaluation, and only a
  successful reservation approves. A null pointer is \<open>None\<close>. Clock readings and the scratch
  area, which is reset and never read, are left out; the publisher is the list of results
  handed to it. Lemmas: what an approval rests on, that a rejection reserves nothing, that an
  idempotency hash is approved once, what the audit trace records.
\<close>

subsection \<open>Counters\<close>

record RiskMetrics =
  rx_evaluate_count :: u64
  rx_approve_count :: u64
  rx_reject_count :: u64
  rx_reject_invalid_intent :: u64
  rx_reject_expired :: u64
  rx_reject_duplicate :: u64
  rx_reject_kill_switch :: u64
  rx_reject_stale_book :: u64
  rx_reject_insufficient_depth :: u64
  rx_reject_cost_drift :: u64
  rx_reject_low_edge :: u64
  rx_reject_exposure :: u64
  rx_reject_inventory :: u64
  rx_reject_partial_fill :: u64
  rx_reject_max_loss :: u64
  rx_reject_rate_limited :: u64
  rx_reservation_created :: u64
  rx_reservation_expired :: u64
  rx_reservation_released :: u64
  rx_vwap_reused_signal_cost :: u64
  rx_vwap_reused_signal_snapshot :: u64
  rx_vwap_recomputed :: u64
  rx_snapshot_fast_path :: u64
  rx_snapshot_requery :: u64

definition zero_metrics :: RiskMetrics where
  "zero_metrics = \<lparr>rx_evaluate_count = 0, rx_approve_count = 0, rx_reject_count = 0,
     rx_reject_invalid_intent = 0, rx_reject_expired = 0, rx_reject_duplicate = 0,
     rx_reject_kill_switch = 0, rx_reject_stale_book = 0, rx_reject_insufficient_depth = 0,
     rx_reject_cost_drift = 0, rx_reject_low_edge = 0, rx_reject_exposure = 0,
     rx_reject_inventory = 0, rx_reject_partial_fill = 0, rx_reject_max_loss = 0,
     rx_reject_rate_limited = 0, rx_reservation_created = 0, rx_reservation_expired = 0,
     rx_reservation_released = 0, rx_vwap_reused_signal_cost = 0,
     rx_vwap_reused_signal_snapshot = 0, rx_vwap_recomputed = 0, rx_snapshot_fast_path = 0,
     rx_snapshot_requery = 0\<rparr>"

record RiskResult =
  rs_intents_evaluated :: u64
  rs_intents_approved :: u64
  rs_intents_rejected :: u64
  rs_rejected_kill_switch :: u64
  rs_rejected_low_edge :: u64
  rs_rejected_cost_limit :: u64
  rs_rejected_exposure_limit :: u64
  rs_rejected_inventory_limit :: u64
  rs_rejected_stale_or_expired :: u64
  rs_rejected_drift_or_slippage :: u64
  rs_rejected_pending_or_rate_limit :: u64
  rs_rejected_bad_market_state :: u64
  rs_rejected_snapshot_freshness :: u64
  rs_rejected_partial_fill_risk :: u64
  rs_output_hash :: u64
  rs_metrics :: RiskMetrics

definition zero_result :: RiskResult where
  "zero_result = \<lparr>rs_intents_evaluated = 0, rs_intents_approved = 0, rs_intents_rejected = 0,
     rs_rejected_kill_switch = 0, rs_rejected_low_edge = 0, rs_rejected_cost_limit = 0,
     rs_rejected_exposure_limit = 0, rs_rejected_inventory_limit = 0,
     rs_rejected_stale_or_expired = 0, rs_rejected_drift_or_slippage = 0,
     rs_rejected_pending_or_rate_limit = 0, rs_rejected_bad_market_state = 0,
     rs_rejected_snapshot_freshness = 0, rs_rejected_partial_fill_risk = 0, rs_output_hash = 0,
     rs_metrics = zero_metrics\<rparr>"

abbreviation inc :: "u64 \<Rightarrow> u64" where
  "inc n \<equiv> n + 1"

definition record_reject_reason :: "RiskRejectReason \<Rightarrow> RiskResult \<Rightarrow> RiskResult" where
  "record_reject_reason reason result =
     (let r = result\<lparr>rs_intents_rejected := inc (rs_intents_rejected result),
                     rs_metrics := (rs_metrics result)\<lparr>rx_reject_count := inc (rx_reject_count (rs_metrics result))\<rparr>\<rparr>;
          m = rs_metrics r
      in case reason of
           KillSwitch \<Rightarrow> r\<lparr>rs_rejected_kill_switch := inc (rs_rejected_kill_switch r),
             rs_metrics := m\<lparr>rx_reject_kill_switch := inc (rx_reject_kill_switch m)\<rparr>\<rparr>
         | LowTotalEdge \<Rightarrow> r\<lparr>rs_rejected_low_edge := inc (rs_rejected_low_edge r),
             rs_metrics := m\<lparr>rx_reject_low_edge := inc (rx_reject_low_edge m)\<rparr>\<rparr>
         | LowUnitEdge \<Rightarrow> r\<lparr>rs_rejected_low_edge := inc (rs_rejected_low_edge r),
             rs_metrics := m\<lparr>rx_reject_low_edge := inc (rx_reject_low_edge m)\<rparr>\<rparr>
         | LowEdgeBps \<Rightarrow> r\<lparr>rs_rejected_low_edge := inc (rs_rejected_low_edge r),
             rs_metrics := m\<lparr>rx_reject_low_edge := inc (rx_reject_low_edge m)\<rparr>\<rparr>
         | CostLimit \<Rightarrow> r\<lparr>rs_rejected_cost_limit := inc (rs_rejected_cost_limit r),
             rs_metrics := m\<lparr>rx_reject_insufficient_depth := inc (rx_reject_insufficient_depth m)\<rparr>\<rparr>
         | SingleMarketExposureLimit \<Rightarrow> r\<lparr>rs_rejected_exposure_limit := inc (rs_rejected_exposure_limit r),
             rs_metrics := m\<lparr>rx_reject_exposure := inc (rx_reject_exposure m)\<rparr>\<rparr>
         | TotalExposureLimit \<Rightarrow> r\<lparr>rs_rejected_exposure_limit := inc (rs_rejected_exposure_limit r),
             rs_metrics := m\<lparr>rx_reject_exposure := inc (rx_reject_exposure m)\<rparr>\<rparr>
         | InventoryLimit \<Rightarrow> r\<lparr>rs_rejected_inventory_limit := inc (rs_rejected_inventory_limit r),
             rs_metrics := m\<lparr>rx_reject_inventory := inc (rx_reject_inventory m)\<rparr>\<rparr>
         | BadMarketState \<Rightarrow> r\<lparr>rs_rejected_bad_market_state := inc (rs_rejected_bad_market_state r),
             rs_metrics := m\<lparr>rx_reject_stale_book := inc (rx_reject_stale_book m)\<rparr>\<rparr>
         | StaleBook \<Rightarrow> r\<lparr>rs_rejected_stale_or_expired := inc (rs_rejected_stale_or_expired r),
             rs_metrics := m\<lparr>rx_reject_stale_book := inc (rx_reject_stale_book m)\<rparr>\<rparr>
         | ExpiredIntent \<Rightarrow> r\<lparr>rs_rejected_stale_or_expired := inc (rs_rejected_stale_or_expired r),
             rs_metrics := m\<lparr>rx_reject_expired := inc (rx_reject_expired m)\<rparr>\<rparr>
         | SnapshotSkew \<Rightarrow> r\<lparr>rs_rejected_snapshot_freshness := inc (rs_rejected_snapshot_freshness r),
             rs_metrics := m\<lparr>rx_reject_stale_book := inc (rx_reject_stale_book m)\<rparr>\<rparr>
         | CostDrift \<Rightarrow> r\<lparr>rs_rejected_drift_or_slippage := inc (rs_rejected_drift_or_slippage r),
             rs_metrics := m\<lparr>rx_reject_cost_drift := inc (rx_reject_cost_drift m)\<rparr>\<rparr>
         | SlippageLimit \<Rightarrow> r\<lparr>rs_rejected_drift_or_slippage := inc (rs_rejected_drift_or_slippage r),
             rs_metrics := m\<lparr>rx_reject_cost_drift := inc (rx_reject_cost_drift m)\<rparr>\<rparr>
         | PendingIntentLimit \<Rightarrow> r\<lparr>rs_rejected_pending_or_rate_limit := inc (rs_rejected_pending_or_rate_limit r),
             rs_metrics := m\<lparr>rx_reject_rate_limited := inc (rx_reject_rate_limited m)\<rparr>\<rparr>
         | ApprovalRateLimit \<Rightarrow> r\<lparr>rs_rejected_pending_or_rate_limit := inc (rs_rejected_pending_or_rate_limit r),
             rs_metrics := m\<lparr>rx_reject_rate_limited := inc (rx_reject_rate_limited m)\<rparr>\<rparr>
         | DuplicateIntent \<Rightarrow> r\<lparr>rs_rejected_pending_or_rate_limit := inc (rs_rejected_pending_or_rate_limit r),
             rs_metrics := m\<lparr>rx_reject_duplicate := inc (rx_reject_duplicate m)\<rparr>\<rparr>
         | DuplicateReservation \<Rightarrow> r\<lparr>rs_rejected_pending_or_rate_limit := inc (rs_rejected_pending_or_rate_limit r),
             rs_metrics := m\<lparr>rx_reject_duplicate := inc (rx_reject_duplicate m)\<rparr>\<rparr>
         | PartialFillRisk \<Rightarrow> r\<lparr>rs_rejected_partial_fill_risk := inc (rs_rejected_partial_fill_risk r),
             rs_metrics := m\<lparr>rx_reject_partial_fill := inc (rx_reject_partial_fill m)\<rparr>\<rparr>
         | InvalidIntent \<Rightarrow> r\<lparr>rs_rejected_bad_market_state := inc (rs_rejected_bad_market_state r),
             rs_metrics := m\<lparr>rx_reject_invalid_intent := inc (rx_reject_invalid_intent m)\<rparr>\<rparr>
         | MissingEvidence \<Rightarrow> r\<lparr>rs_rejected_bad_market_state := inc (rs_rejected_bad_market_state r),
             rs_metrics := m\<lparr>rx_reject_invalid_intent := inc (rx_reject_invalid_intent m)\<rparr>\<rparr>
         | InternalError \<Rightarrow> r\<lparr>rs_rejected_bad_market_state := inc (rs_rejected_bad_market_state r),
             rs_metrics := m\<lparr>rx_reject_invalid_intent := inc (rx_reject_invalid_intent m)\<rparr>\<rparr>
         | _ \<Rightarrow> r)"

text \<open>The counters of \<open>IRiskGuard.cpp\<close>, for a guard run on its own.\<close>

definition record_guard_result :: "GuardResult \<Rightarrow> RiskResult \<Rightarrow> RiskResult" where
  "record_guard_result guard result =
     (if gr_pass guard then result
      else let r = result\<lparr>rs_intents_rejected := inc (rs_intents_rejected result)\<rparr>
           in case gr_rejection guard of
                RejectKillSwitch \<Rightarrow> r\<lparr>rs_rejected_kill_switch := inc (rs_rejected_kill_switch r)\<rparr>
              | RejectExpiredIntent \<Rightarrow> r\<lparr>rs_rejected_stale_or_expired := inc (rs_rejected_stale_or_expired r)\<rparr>
              | RejectDuplicateIntent \<Rightarrow>
                  r\<lparr>rs_rejected_pending_or_rate_limit := inc (rs_rejected_pending_or_rate_limit r)\<rparr>
              | RejectRateLimited \<Rightarrow>
                  r\<lparr>rs_rejected_pending_or_rate_limit := inc (rs_rejected_pending_or_rate_limit r)\<rparr>
              | RejectBadMarketState \<Rightarrow> r\<lparr>rs_rejected_bad_market_state := inc (rs_rejected_bad_market_state r)\<rparr>
              | RejectStaleSnapshot \<Rightarrow> r\<lparr>rs_rejected_snapshot_freshness := inc (rs_rejected_snapshot_freshness r)\<rparr>
              | RejectInsufficientDepth \<Rightarrow> r\<lparr>rs_rejected_cost_limit := inc (rs_rejected_cost_limit r)\<rparr>
              | RejectCostDrift \<Rightarrow> r\<lparr>rs_rejected_drift_or_slippage := inc (rs_rejected_drift_or_slippage r)\<rparr>
              | RejectReducedBundleQty \<Rightarrow> r\<lparr>rs_rejected_inventory_limit := inc (rs_rejected_inventory_limit r)\<rparr>
              | RejectLowTotalEdge \<Rightarrow> r\<lparr>rs_rejected_low_edge := inc (rs_rejected_low_edge r)\<rparr>
              | RejectLowUnitEdge \<Rightarrow> r\<lparr>rs_rejected_low_edge := inc (rs_rejected_low_edge r)\<rparr>
              | RejectLowEdgeBps \<Rightarrow> r\<lparr>rs_rejected_low_edge := inc (rs_rejected_low_edge r)\<rparr>
              | RejectCostLimit \<Rightarrow> r\<lparr>rs_rejected_cost_limit := inc (rs_rejected_cost_limit r)\<rparr>
              | RejectTotalExposureLimit \<Rightarrow> r\<lparr>rs_rejected_exposure_limit := inc (rs_rejected_exposure_limit r)\<rparr>
              | RejectSingleMarketExposureLimit \<Rightarrow>
                  r\<lparr>rs_rejected_exposure_limit := inc (rs_rejected_exposure_limit r)\<rparr>
              | RejectInventoryLimit \<Rightarrow> r\<lparr>rs_rejected_inventory_limit := inc (rs_rejected_inventory_limit r)\<rparr>
              | RejectPartialFillRisk \<Rightarrow> r\<lparr>rs_rejected_partial_fill_risk := inc (rs_rejected_partial_fill_risk r)\<rparr>
              | DT_Pass \<Rightarrow> r
              | RejectInternalError \<Rightarrow> r)"

fun reject_reason_for :: "RiskDecisionType \<Rightarrow> RiskRejectReason" where
  "reject_reason_for DT_Pass = RR_None"
| "reject_reason_for RejectKillSwitch = KillSwitch"
| "reject_reason_for RejectExpiredIntent = ExpiredIntent"
| "reject_reason_for RejectDuplicateIntent = DuplicateIntent"
| "reject_reason_for RejectRateLimited = ApprovalRateLimit"
| "reject_reason_for RejectBadMarketState = BadMarketState"
| "reject_reason_for RejectStaleSnapshot = StaleBook"
| "reject_reason_for RejectInsufficientDepth = CostLimit"
| "reject_reason_for RejectReducedBundleQty = CostLimit"
| "reject_reason_for RejectCostDrift = CostDrift"
| "reject_reason_for RejectLowTotalEdge = LowTotalEdge"
| "reject_reason_for RejectLowUnitEdge = LowUnitEdge"
| "reject_reason_for RejectLowEdgeBps = LowEdgeBps"
| "reject_reason_for RejectCostLimit = CostLimit"
| "reject_reason_for RejectTotalExposureLimit = TotalExposureLimit"
| "reject_reason_for RejectSingleMarketExposureLimit = SingleMarketExposureLimit"
| "reject_reason_for RejectInventoryLimit = InventoryLimit"
| "reject_reason_for RejectPartialFillRisk = PartialFillRisk"
| "reject_reason_for RejectInternalError = InternalError"

subsection \<open>Audit trace\<close>

datatype RiskAuditStepCode =
    SC_KillSwitchGuard | SC_IntentValidator | SC_EvidenceVerifier | SC_ExpiryGuard
  | SC_DuplicateGuard | SC_RateLimitGuard | SC_MarketStateGuard | SC_SnapshotFreshnessGuard
  | SC_CostRevalidator | SC_EdgeGuard | SC_MaxLossGuard | SC_ExposureGuard | SC_InventoryGuard
  | SC_PartialFillGuard | SC_ReservationBook

fun risk_audit_step_name :: "RiskAuditStepCode \<Rightarrow> string" where
  "risk_audit_step_name SC_KillSwitchGuard = ''KillSwitchGuard''"
| "risk_audit_step_name SC_IntentValidator = ''IntentValidator''"
| "risk_audit_step_name SC_EvidenceVerifier = ''IntentEvidenceVerifier''"
| "risk_audit_step_name SC_ExpiryGuard = ''IntentExpiryGuard''"
| "risk_audit_step_name SC_DuplicateGuard = ''DuplicateIntentGuard''"
| "risk_audit_step_name SC_RateLimitGuard = ''RateLimitGuard''"
| "risk_audit_step_name SC_MarketStateGuard = ''MarketStateGuard''"
| "risk_audit_step_name SC_SnapshotFreshnessGuard = ''SnapshotFreshnessGuard''"
| "risk_audit_step_name SC_CostRevalidator = ''CostRevalidator''"
| "risk_audit_step_name SC_EdgeGuard = ''EdgeGuard''"
| "risk_audit_step_name SC_MaxLossGuard = ''MaxLossGuard''"
| "risk_audit_step_name SC_ExposureGuard = ''ExposureGuard''"
| "risk_audit_step_name SC_InventoryGuard = ''InventoryGuard''"
| "risk_audit_step_name SC_PartialFillGuard = ''PartialFillGuard''"
| "risk_audit_step_name SC_ReservationBook = ''ReservationBook.try_reserve''"

record RiskAuditStepLite =
  sl_step :: RiskAuditStepCode
  sl_pass :: bool
  sl_rejection :: RiskDecisionType
  sl_detail_code :: u64

definition kMaxRiskAuditSteps :: nat where
  "kMaxRiskAuditSteps = 16"

text \<open>The counted steps of the 16-entry array are a list of at most 16.\<close>

record RiskAuditTraceLite =
  tl_decision_id :: u64
  tl_steps :: "RiskAuditStepLite list"

record RiskAuditStep =
  as_guard_name :: string
  as_pass :: bool
  as_rejection :: RiskDecisionType
  as_reason :: string

record RiskAuditTrace =
  at_trace_id :: u64
  at_decision_id :: u64
  at_intent_id :: u64
  at_bundle_id :: u64
  at_policy_version :: u64
  at_policy_hash :: u64
  at_decision :: RiskDecision
  at_lite :: RiskAuditTraceLite
  at_steps :: "RiskAuditStep list"
  at_evidence :: "string list"

definition empty_trace :: RiskAuditTrace where
  "empty_trace = \<lparr>at_trace_id = 0, at_decision_id = 0, at_intent_id = 0, at_bundle_id = 0,
     at_policy_version = 0, at_policy_hash = 0, at_decision = default_decision,
     at_lite = \<lparr>tl_decision_id = 0, tl_steps = []\<rparr>, at_steps = [], at_evidence = []\<rparr>"

subsection \<open>Results and inputs\<close>

text \<open>An \<open>approved_intent\<close> that was never assigned is \<open>None\<close>, a \<open>reservation\<close> likewise.\<close>

record RiskPipelineResult =
  pr_decision :: RiskDecision
  pr_approved_intent :: "ApprovedIntent option"
  pr_result :: RiskResult
  pr_cost :: CostRevalidationResult
  pr_reservation :: "ReservationResult option"
  pr_audit_trace :: RiskAuditTrace
  pr_cost_revalidated :: bool
  pr_reservation_attempted :: bool
  pr_output_hash :: u64

definition empty_pipeline_result :: RiskPipelineResult where
  "empty_pipeline_result = \<lparr>pr_decision = default_decision, pr_approved_intent = None,
     pr_result = zero_result, pr_cost = default_cost, pr_reservation = None,
     pr_audit_trace = empty_trace, pr_cost_revalidated = False, pr_reservation_attempted = False,
     pr_output_hash = 0\<rparr>"

record RiskInputView =
  iv_intent :: "OpportunityIntent option"
  iv_snapshots :: "MarketStateSnapshot list option"
  iv_snapshot_count :: nat
  iv_depth_views :: "MarketDepthView list option"
  iv_depth_view_count :: nat
  iv_snapshot_version_hash :: u64
  iv_now_ns :: u64
  iv_policy :: "RiskPolicySnapshot option"
  iv_ledger :: "RiskLedgerSnapshot option"

definition input_snapshots :: "RiskInputView \<Rightarrow> MarketStateSnapshot list" where
  "input_snapshots input =
     (case iv_snapshots input of None \<Rightarrow> [] | Some s \<Rightarrow> take (iv_snapshot_count input) s)"

definition input_views :: "RiskInputView \<Rightarrow> MarketDepthView list" where
  "input_views input =
     (case iv_depth_views input of None \<Rightarrow> [] | Some v \<Rightarrow> take (iv_depth_view_count input) v)"

record RiskPipelineState =
  ps_duplicate_guard :: DuplicateIntentGuard
  ps_rate_limit_guard :: RateLimitGuard

definition make_risk_pipeline :: RiskPipelineState where
  "make_risk_pipeline = \<lparr>ps_duplicate_guard = duplicate_clear,
     ps_rate_limit_guard = make_rate_limit_guard 100\<rparr>"

definition clear_duplicate_cache :: "RiskPipelineState \<Rightarrow> RiskPipelineState" where
  "clear_duplicate_cache st = st\<lparr>ps_duplicate_guard := duplicate_clear\<rparr>"

subsection \<open>Building a result\<close>

definition output_hash_for ::
  "OpportunityIntent \<Rightarrow> RiskDecision \<Rightarrow> CostRevalidationResult \<Rightarrow> u64 \<Rightarrow> u64" where
  "output_hash_for intent decision cost reservation_id =
     foldl (\<lambda>hash mix. mix hash) fnv_offset
       [fnv_u64 (oi_intent_id intent), fnv_u64 (oi_bundle_id intent),
        fnv_u64 (decision_status_code (rd_status decision)),
        fnv_u64 (reject_reason_code (rd_reject_reason decision)),
        fnv_u64 (rd_policy_version decision), fnv_u64 (rd_policy_hash decision),
        mix_i64 (cr_risk_total_cost_tick cost), mix_i64 (cr_risk_bundle_qty cost),
        fnv_u64 reservation_id]"

definition should_track_reservation_ledger_detail :: "RiskPolicySnapshot \<Rightarrow> bool" where
  "should_track_reservation_ledger_detail policy \<longleftrightarrow>
     rp_max_total_exposure_tick policy > 0 \<or> rp_max_single_market_exposure_tick policy > 0 \<or>
     rp_max_inventory_lots_per_asset policy > 0"

definition attach_decision_evidence :: "RiskDecision \<Rightarrow> OpportunityIntent \<Rightarrow> RiskDecision" where
  "attach_decision_evidence decision intent =
     decision\<lparr>rd_intent_id := oi_intent_id intent, rd_bundle_id := oi_bundle_id intent,
       rd_idempotency_hash := oi_idempotency_hash intent,
       rd_oracle_artifact_hash := oi_oracle_artifact_hash intent,
       rd_constraint_hash := oi_constraint_hash intent, rd_bundle_hash := oi_bundle_hash intent,
       rd_snapshot_version_hash := oi_snapshot_version_hash intent\<rparr>"

text \<open>
  The end of a result: the output hash, which is also the decision's number, the decision and
  the copies of both.
\<close>

definition seal_result ::
  "OpportunityIntent \<Rightarrow> RiskDecision \<Rightarrow> CostRevalidationResult \<Rightarrow> u64 \<Rightarrow> RiskPipelineResult \<Rightarrow> RiskPipelineResult" where
  "seal_result intent decision cost reservation_id result =
     (let hash = output_hash_for intent decision cost reservation_id;
          decision = decision\<lparr>rd_decision_id := hash\<rparr>;
          trace = pr_audit_trace result
      in result\<lparr>pr_cost := cost, pr_decision := decision, pr_output_hash := hash,
           pr_audit_trace := trace\<lparr>at_decision := decision, at_decision_id := hash,
             at_lite := (at_lite trace)\<lparr>tl_decision_id := hash\<rparr>\<rparr>,
           pr_result := (pr_result result)\<lparr>rs_output_hash := hash\<rparr>\<rparr>)"

definition reject_result ::
  "OpportunityIntent \<Rightarrow> RiskRejectReason \<Rightarrow> string \<Rightarrow> CostRevalidationResult \<Rightarrow> RiskPipelineResult
     \<Rightarrow> RiskPipelineResult" where
  "reject_result intent reason detail cost result =
     seal_result intent (attach_decision_evidence (make_rejected_decision reason detail) intent) cost 0
       (result\<lparr>pr_result := record_reject_reason reason (pr_result result)\<rparr>)"

definition init_trace :: "RiskPipelineResult \<Rightarrow> OpportunityIntent \<Rightarrow> RiskPolicySnapshot \<Rightarrow> RiskPipelineResult" where
  "init_trace result intent policy =
     (let trace = pr_audit_trace result
      in result\<lparr>pr_audit_trace := trace\<lparr>at_trace_id := oi_intent_id intent,
           at_intent_id := oi_intent_id intent, at_bundle_id := oi_bundle_id intent,
           at_policy_version := rp_policy_version policy, at_policy_hash := policy_hash_for policy,
           at_lite := (at_lite trace)\<lparr>tl_steps := []\<rparr>\<rparr>\<rparr>)"

definition add_step ::
  "RiskPipelineResult \<Rightarrow> RiskAuditStepCode \<Rightarrow> bool \<Rightarrow> RiskDecisionType \<Rightarrow> string \<Rightarrow> bool \<Rightarrow> RiskPipelineResult" where
  "add_step result step_code pass rejection reason full_trace =
     (let trace = pr_audit_trace result;
          lite = at_lite trace;
          lite = (if length (tl_steps lite) < kMaxRiskAuditSteps
                  then lite\<lparr>tl_steps := tl_steps lite @
                         [\<lparr>sl_step = step_code, sl_pass = pass, sl_rejection = rejection,
                           sl_detail_code = decision_type_value rejection\<rparr>]\<rparr>
                  else lite);
          steps = (if full_trace
                   then at_steps trace @
                     [\<lparr>as_guard_name = risk_audit_step_name step_code, as_pass = pass,
                       as_rejection = rejection, as_reason = reason\<rparr>]
                   else at_steps trace)
      in result\<lparr>pr_audit_trace := trace\<lparr>at_lite := lite, at_steps := steps\<rparr>\<rparr>)"

subsection \<open>Stages\<close>

text \<open>
  The outcome of one guard: \<open>Inr ()\<close>, or the rejection type for the audit step, the reject
  reason for the decision and the text. \<open>run_stages\<close> records a step per guard and stops at
  the first rejection.
\<close>

type_synonym outcome = "(RiskDecisionType \<times> RiskRejectReason \<times> string) + unit"

fun run_stages ::
  "bool \<Rightarrow> (RiskAuditStepCode \<times> outcome) list \<Rightarrow> RiskPipelineResult
     \<Rightarrow> RiskPipelineResult \<times> (RiskRejectReason \<times> string) option" where
  "run_stages full [] result = (result, None)"
| "run_stages full ((code, Inr _) # stages) result =
     run_stages full stages (add_step result code True DT_Pass [] full)"
| "run_stages full ((code, Inl (rejection, reason, detail)) # stages) result =
     (add_step result code False rejection detail full, Some (reason, detail))"

definition outcome_of :: "bool \<Rightarrow> RiskDecisionType \<Rightarrow> string \<Rightarrow> outcome" where
  "outcome_of pass rejection reason =
     (if pass then Inr () else Inl (rejection, reject_reason_for rejection, reason))"

definition guard_outcome :: "GuardResult \<Rightarrow> outcome" where
  "guard_outcome g = outcome_of (gr_pass g) (gr_rejection g) (gr_reason g)"

definition validation_outcome :: "(RiskRejectReason \<times> string) + unit \<Rightarrow> outcome" where
  "validation_outcome v =
     (case v of Inr _ \<Rightarrow> Inr () | Inl (reason, detail) \<Rightarrow> Inl (RejectInternalError, reason, detail))"

text \<open>\<open>std::string::find\<close> of a text in another.\<close>

fun contains :: "string \<Rightarrow> string \<Rightarrow> bool" where
  "contains p [] \<longleftrightarrow> p = []"
| "contains p (c # cs) \<longleftrightarrow> take (length p) (c # cs) = p \<or> contains p cs"

definition freshness_outcome :: "GuardResult \<Rightarrow> outcome" where
  "freshness_outcome g =
     (if gr_pass g then Inr ()
      else Inl (gr_rejection g,
        (if gr_rejection g = RejectStaleSnapshot \<and> contains ''drift'' (gr_reason g) then SnapshotSkew
         else reject_reason_for (gr_rejection g)),
        gr_reason g))"

definition entry_stages ::
  "RiskInputView \<Rightarrow> OpportunityIntent \<Rightarrow> RiskPolicySnapshot \<Rightarrow> (RiskAuditStepCode \<times> outcome) list" where
  "entry_stages input intent policy =
     [(SC_KillSwitchGuard, guard_outcome (kill_switch_check (rp_kill_switch_enabled policy))),
      (SC_IntentValidator, validation_outcome (validate_intent intent (iv_now_ns input))),
      (SC_EvidenceVerifier, validation_outcome (verify_evidence intent)),
      (SC_ExpiryGuard, guard_outcome (expiry_check intent (iv_now_ns input)))]"

text \<open>A leg is checked on its depth view if there is one, on its snapshot otherwise.\<close>

definition leg_stages ::
  "RiskInputView \<Rightarrow> OpportunityIntent \<Rightarrow> RiskPolicySnapshot \<Rightarrow> IntentLeg \<Rightarrow> (RiskAuditStepCode \<times> outcome) list" where
  "leg_stages input intent policy leg =
     (case find_view_of (input_views input) leg of
        Some v \<Rightarrow>
          [(SC_MarketStateGuard, guard_outcome (market_state_check_view v)),
           (SC_SnapshotFreshnessGuard,
            freshness_outcome (freshness_check_view v intent policy (iv_now_ns input)))]
      | None \<Rightarrow>
          (case find_snapshot_of (input_snapshots input) leg of
             Some s \<Rightarrow>
               [(SC_MarketStateGuard, guard_outcome (market_state_check_snapshot (Some s))),
                (SC_SnapshotFreshnessGuard,
                 freshness_outcome (freshness_check_snapshot s intent policy (iv_now_ns input)))]
           | None \<Rightarrow> [(SC_MarketStateGuard, guard_outcome (market_state_check_snapshot None))]))"

definition revalidated_cost :: "RiskInputView \<Rightarrow> OpportunityIntent \<Rightarrow> RiskPolicySnapshot \<Rightarrow> CostRevalidationResult" where
  "revalidated_cost input intent policy =
     (if iv_depth_views input \<noteq> None \<and> iv_depth_view_count input > 0
      then revalidate_views intent (input_views input) policy (iv_now_ns input)
             (iv_snapshot_version_hash input)
      else revalidate_snapshots intent (input_snapshots input) policy (iv_now_ns input)
             (iv_snapshot_version_hash input))"

definition count_vwap_mode :: "CostRevalidationResult \<Rightarrow> RiskPipelineResult \<Rightarrow> RiskPipelineResult" where
  "count_vwap_mode cost result =
     (let m = rs_metrics (pr_result result);
          m' = (case cr_vwap_mode cost of
                  ReuseSignalSnapshot \<Rightarrow> m\<lparr>rx_vwap_reused_signal_snapshot := 1,
                    rx_vwap_reused_signal_cost := 1, rx_snapshot_fast_path := 1\<rparr>
                | ReusedSignalCost \<Rightarrow> m\<lparr>rx_vwap_reused_signal_cost := 1, rx_snapshot_fast_path := 1\<rparr>
                | RecomputedFromSnapshot \<Rightarrow> m\<lparr>rx_vwap_recomputed := 1, rx_snapshot_requery := 1\<rparr>)
      in result\<lparr>pr_cost_revalidated := True, pr_result := (pr_result result)\<lparr>rs_metrics := m'\<rparr>\<rparr>)"

definition cost_stages ::
  "RiskLedgerSnapshot \<Rightarrow> OpportunityIntent \<Rightarrow> RiskPolicySnapshot \<Rightarrow> CostRevalidationResult
     \<Rightarrow> (RiskAuditStepCode \<times> outcome) list" where
  "cost_stages reserved intent policy cost =
     (let edge = edge_check intent cost policy;
          loss = max_loss_check intent cost policy;
          exposure = exposure_check reserved intent cost policy;
          inventory = inventory_check reserved intent cost policy;
          partial = partial_fill_check intent cost policy
      in [(SC_CostRevalidator, outcome_of (cr_ok cost) (cr_rejection cost) (cr_reason cost)),
          (SC_EdgeGuard, outcome_of (eg_pass edge) (eg_rejection edge) (eg_reason edge)),
          (SC_MaxLossGuard, outcome_of (mg_pass loss) (mg_rejection loss) (mg_reason loss)),
          (SC_ExposureGuard, outcome_of (xg_pass exposure) (xg_rejection exposure) (xg_reason exposure)),
          (SC_InventoryGuard, outcome_of (vg_pass inventory) (vg_rejection inventory) (vg_reason inventory)),
          (SC_PartialFillGuard, outcome_of (fg_pass partial) (fg_rejection partial) (fg_reason partial))])"

subsection \<open>The last stage: reserve and approve\<close>

definition approve_result ::
  "RiskInputView \<Rightarrow> OpportunityIntent \<Rightarrow> RiskDecision \<Rightarrow> CostRevalidationResult \<Rightarrow> u64
     \<Rightarrow> RiskPipelineResult \<Rightarrow> RiskPipelineResult" where
  "approve_result input intent decision cost reservation_id result =
     (let sealed = seal_result intent decision cost reservation_id result;
          counts = pr_result sealed
      in sealed\<lparr>
           pr_approved_intent := Some
             \<lparr>ai_intent = intent, ai_decision = pr_decision sealed,
              ai_reservation_id = to_dec (unat reservation_id), ai_reservation_id_hash = 0,
              ai_approved_at_ns = iv_now_ns input, ai_expires_at_ns = oi_expires_at_ns intent\<rparr>,
           pr_result := counts\<lparr>rs_intents_approved := 1,
             rs_metrics := (rs_metrics counts)\<lparr>rx_approve_count := 1, rx_reservation_created := 1\<rparr>\<rparr>\<rparr>)"

definition reserve_stage ::
  "bool \<Rightarrow> RiskInputView \<Rightarrow> OpportunityIntent \<Rightarrow> RiskPolicySnapshot \<Rightarrow> CostRevalidationResult
     \<Rightarrow> RiskPipelineResult \<Rightarrow> ReservationBook option \<Rightarrow> RiskPipelineResult \<times> ReservationBook option" where
  "reserve_stage full input intent policy cost result book =
     (case book of
        None \<Rightarrow>
          (reject_result intent MissingReservation ''missing reservation book'' cost
             (add_step result SC_ReservationBook False RejectInternalError ''missing reservation book'' full),
           None)
      | Some b \<Rightarrow>
          (let decision = attach_decision_evidence
                 (make_approved_decision (rp_policy_version policy) (policy_hash_for policy)) intent
           in case try_reserve b intent decision (iv_now_ns input)
                     (should_track_reservation_ledger_detail policy) of
                (b', reservation) \<Rightarrow>
                  (let result = result\<lparr>pr_reservation_attempted := True, pr_reservation := Some reservation\<rparr>
                   in case reservation of
                        Refused reason detail \<Rightarrow>
                          (reject_result intent
                             (if reason = DuplicateReservation then DuplicateReservation
                              else if reason = ExpiredIntent then ExpiredIntent
                              else TotalExposureLimit) detail cost
                             (add_step result SC_ReservationBook False RejectInternalError detail full),
                           Some b')
                      | Accepted reservation_id \<Rightarrow>
                          (approve_result input intent decision cost reservation_id
                             (add_step result SC_ReservationBook True DT_Pass [] full),
                           Some b'))))"

subsection \<open>RiskPipeline::evaluate_view\<close>

text \<open>
  Run guards; on a rejection the evaluation ends with the given cost and the current state,
  otherwise it goes on with \<open>continue\<close>.
\<close>

definition after_stages ::
  "bool \<Rightarrow> (RiskAuditStepCode \<times> outcome) list \<Rightarrow> OpportunityIntent \<Rightarrow> CostRevalidationResult
     \<Rightarrow> 's \<Rightarrow> (RiskPipelineResult \<Rightarrow> RiskPipelineResult \<times> 's) \<Rightarrow> RiskPipelineResult
     \<Rightarrow> RiskPipelineResult \<times> 's" where
  "after_stages full stages intent cost state continue result =
     (case run_stages full stages result of
        (result', Some (reason, detail)) \<Rightarrow> (reject_result intent reason detail cost result', state)
      | (result', None) \<Rightarrow> continue result')"

definition begin_result :: "OpportunityIntent \<Rightarrow> RiskPolicySnapshot \<Rightarrow> RiskPipelineResult" where
  "begin_result intent policy =
     init_trace (empty_pipeline_result\<lparr>pr_result := zero_result\<lparr>rs_intents_evaluated := 1,
       rs_metrics := zero_metrics\<lparr>rx_evaluate_count := 1\<rparr>\<rparr>\<rparr>) intent policy"

definition evaluate_guards ::
  "bool \<Rightarrow> RiskPipelineState \<Rightarrow> RiskInputView \<Rightarrow> OpportunityIntent \<Rightarrow> RiskPolicySnapshot
     \<Rightarrow> RiskLedgerSnapshot \<Rightarrow> ReservationBook option
     \<Rightarrow> RiskPipelineResult \<times> RiskPipelineState \<times> ReservationBook option" where
  "evaluate_guards full st input intent policy reserved book =
     after_stages full (entry_stages input intent policy) intent default_cost (st, book)
       (\<lambda>r1. case duplicate_check (ps_duplicate_guard st) intent of (dup, dup_guard) \<Rightarrow>
          let st1 = st\<lparr>ps_duplicate_guard := dup_guard\<rparr> in
          after_stages full [(SC_DuplicateGuard, guard_outcome dup)] intent default_cost (st1, book)
            (\<lambda>r2. case rate_limit_check
                      (set_max_per_second (ps_rate_limit_guard st1) (rp_max_approvals_per_second policy))
                      (iv_now_ns input) of (rate, rate_guard) \<Rightarrow>
               let st2 = st1\<lparr>ps_rate_limit_guard := rate_guard\<rparr> in
               after_stages full
                 ((SC_RateLimitGuard, guard_outcome rate) #
                  concat (map (leg_stages input intent policy) (intent_legs intent)))
                 intent default_cost (st2, book)
                 (\<lambda>r3. let cost = revalidated_cost input intent policy in
                    after_stages full (cost_stages reserved intent policy cost) intent cost (st2, book)
                      (\<lambda>r4. case reserve_stage full input intent policy cost r4 book of
                         (r5, book') \<Rightarrow> (r5, st2, book'))
                      (count_vwap_mode cost r3))
                 r2)
            r1)
       (begin_result intent policy)"

text \<open>The whole evaluation; the last component is what the publisher receives, if there is one.\<close>

definition pipeline_evaluate_view ::
  "RiskPipelineState \<Rightarrow> RiskInputView \<Rightarrow> ReservationBook option \<Rightarrow> bool \<Rightarrow> bool
     \<Rightarrow> RiskPipelineResult \<times> RiskPipelineState \<times> ReservationBook option \<times> RiskPipelineResult list" where
  "pipeline_evaluate_view st input book has_publisher full =
     (case iv_intent input of
        None \<Rightarrow>
          (let decision = make_rejected_decision InvalidIntent ''missing risk input intent'' in
           (empty_pipeline_result\<lparr>pr_decision := decision,
              pr_audit_trace := empty_trace\<lparr>at_decision := decision, at_decision_id := rd_decision_id decision\<rparr>,
              pr_result := record_reject_reason InvalidIntent
                (zero_result\<lparr>rs_intents_evaluated := 1,
                   rs_metrics := zero_metrics\<lparr>rx_evaluate_count := 1\<rparr>\<rparr>)\<rparr>,
            st, book, []))
      | Some intent \<Rightarrow>
          (let published = (\<lambda>r. if has_publisher then [r] else []) in
           case (iv_policy input, iv_ledger input) of
             (Some policy, Some reserved) \<Rightarrow>
               if (iv_snapshots input = None \<and> iv_snapshot_count input > 0) \<or>
                  (iv_depth_views input = None \<and> iv_depth_view_count input > 0)
               then
                 (let r = reject_result intent InvalidIntent ''invalid risk input view'' default_cost
                            (add_step (begin_result intent policy) SC_IntentValidator False
                               RejectInternalError ''invalid risk input view'' full)
                  in (r, st, book, published r))
               else
                 (case evaluate_guards full st input intent policy reserved book of
                    (r, st', book') \<Rightarrow> (r, st', book', published r))
           | (policy, _) \<Rightarrow>
               (let r = reject_result intent InvalidIntent ''invalid risk input view'' default_cost
                          (add_step (begin_result intent
                             (case policy of Some p \<Rightarrow> p | None \<Rightarrow> default_policy)) SC_IntentValidator False
                             RejectInternalError ''invalid risk input view'' full)
                in (r, st, book, published r))))"

subsection \<open>Stages that pass and stages that stop\<close>

definition all_pass :: "(RiskAuditStepCode \<times> outcome) list \<Rightarrow> bool" where
  "all_pass stages \<longleftrightarrow> (\<forall>(code, out) \<in> set stages. out = Inr ())"

lemma all_pass_simps [simp]:
  "all_pass []" "all_pass ((code, out) # stages) \<longleftrightarrow> out = Inr () \<and> all_pass stages"
  "all_pass (xs @ ys) \<longleftrightarrow> all_pass xs \<and> all_pass ys"
  "all_pass (concat xss) \<longleftrightarrow> (\<forall>xs \<in> set xss. all_pass xs)"
  by (auto simp: all_pass_def)

lemma outcome_pass [simp]:
  "outcome_of pass t reason = Inr () \<longleftrightarrow> pass"
  "guard_outcome g = Inr () \<longleftrightarrow> gr_pass g"
  "freshness_outcome g = Inr () \<longleftrightarrow> gr_pass g"
  "validation_outcome v = Inr () \<longleftrightarrow> v = Inr ()"
  by (auto simp: outcome_of_def guard_outcome_def freshness_outcome_def validation_outcome_def
      split: sum.splits prod.splits)

lemma add_step_frame [simp]:
  "pr_approved_intent (add_step r c p t d f) = pr_approved_intent r"
  "pr_result (add_step r c p t d f) = pr_result r"
  "pr_reservation (add_step r c p t d f) = pr_reservation r"
  by (simp_all add: add_step_def Let_def)

lemma run_stages_frame:
  "pr_approved_intent (fst (run_stages full stages r)) = pr_approved_intent r"
  "pr_result (fst (run_stages full stages r)) = pr_result r"
  by (induction full stages r rule: run_stages.induct) simp_all

lemma run_stages_verdict: "snd (run_stages full stages r) = None \<longleftrightarrow> all_pass stages"
  by (induction full stages r rule: run_stages.induct) simp_all

lemma after_stages_pass:
  assumes "all_pass stages"
  shows "after_stages full stages intent cost s k r = k (fst (run_stages full stages r))"
  using run_stages_verdict [of full stages r] assms
  by (cases "run_stages full stages r") (simp add: after_stages_def)

lemma after_stages_stop:
  assumes "\<not> all_pass stages"
  shows "\<exists>reason detail. after_stages full stages intent cost s k r =
    (reject_result intent reason detail cost (fst (run_stages full stages r)), s)"
  using run_stages_verdict [of full stages r] assms
  by (cases "run_stages full stages r") (fastforce simp: after_stages_def split: option.splits prod.splits)

lemma reject_result_fields [simp]:
  "\<not> approved (pr_decision (reject_result intent reason detail cost r))"
  "rd_reject_reason (pr_decision (reject_result intent reason detail cost r)) = reason"
  "pr_approved_intent (reject_result intent reason detail cost r) = pr_approved_intent r"
  by (simp_all add: reject_result_def seal_result_def attach_decision_evidence_def
      make_rejected_decision_def approved_def Let_def)

lemma begin_result_fields [simp]:
  "pr_approved_intent (begin_result intent policy) = None"
  "rs_intents_evaluated (pr_result (begin_result intent policy)) = 1"
  "rs_intents_approved (pr_result (begin_result intent policy)) = 0"
  "rs_intents_rejected (pr_result (begin_result intent policy)) = 0"
  by (simp_all add: begin_result_def init_trace_def empty_pipeline_result_def zero_result_def Let_def)

lemma count_vwap_mode_frame [simp]:
  "pr_approved_intent (count_vwap_mode cost r) = pr_approved_intent r"
  "rs_intents_evaluated (pr_result (count_vwap_mode cost r)) = rs_intents_evaluated (pr_result r)"
  "rs_intents_approved (pr_result (count_vwap_mode cost r)) = rs_intents_approved (pr_result r)"
  "rs_intents_rejected (pr_result (count_vwap_mode cost r)) = rs_intents_rejected (pr_result r)"
  by (simp_all add: count_vwap_mode_def Let_def)

lemma refused_keeps_book:
  "try_reserve b intent decision now track = (b', Refused reason detail) \<Longrightarrow> b' = b"
  by (auto simp: try_reserve_def Let_def split: if_splits prod.splits)

subsection \<open>When an intent is approved\<close>

text \<open>What the guards must say, in the order they are asked.\<close>

definition approval_decision :: "OpportunityIntent \<Rightarrow> RiskPolicySnapshot \<Rightarrow> RiskDecision" where
  "approval_decision intent policy =
     attach_decision_evidence (make_approved_decision (rp_policy_version policy) (policy_hash_for policy)) intent"

definition guards_pass ::
  "RiskPipelineState \<Rightarrow> RiskInputView \<Rightarrow> OpportunityIntent \<Rightarrow> RiskPolicySnapshot \<Rightarrow> RiskLedgerSnapshot \<Rightarrow> bool" where
  "guards_pass st input intent policy reserved \<longleftrightarrow>
     all_pass (entry_stages input intent policy) \<and>
     gr_pass (fst (duplicate_check (ps_duplicate_guard st) intent)) \<and>
     gr_pass (fst (rate_limit_check
       (set_max_per_second (ps_rate_limit_guard st) (rp_max_approvals_per_second policy)) (iv_now_ns input))) \<and>
     (\<forall>leg \<in> set (intent_legs intent). all_pass (leg_stages input intent policy leg)) \<and>
     all_pass (cost_stages reserved intent policy (revalidated_cost input intent policy))"

definition reserves ::
  "RiskInputView \<Rightarrow> OpportunityIntent \<Rightarrow> RiskPolicySnapshot \<Rightarrow> ReservationBook option \<Rightarrow> ReservationBook \<times> u64 \<Rightarrow> bool" where
  "reserves input intent policy book accepted \<longleftrightarrow>
     (case book of
        None \<Rightarrow> False
      | Some b \<Rightarrow> try_reserve b intent (approval_decision intent policy) (iv_now_ns input)
                    (should_track_reservation_ledger_detail policy) = (fst accepted, Accepted (snd accepted)))"

definition counted :: "u64 \<Rightarrow> u64 \<Rightarrow> u64 \<Rightarrow> RiskPipelineResult \<Rightarrow> bool" where
  "counted evaluated accepted refused r \<longleftrightarrow>
     rs_intents_evaluated (pr_result r) = evaluated \<and> rs_intents_approved (pr_result r) = accepted \<and>
     rs_intents_rejected (pr_result r) = refused"

text \<open>
  A full trace is recorded beside the compact one, which holds its first steps. Up to the
  verdict every step passed; a rejection is the one failed step at the end.
\<close>

definition mirrored :: "RiskAuditTrace \<Rightarrow> bool" where
  "mirrored t \<longleftrightarrow>
     map (\<lambda>s. (risk_audit_step_name (sl_step s), sl_pass s, sl_rejection s)) (tl_steps (at_lite t)) =
     take kMaxRiskAuditSteps (map (\<lambda>s. (as_guard_name s, as_pass s, as_rejection s)) (at_steps t))"

definition passing_trace :: "RiskAuditTrace \<Rightarrow> bool" where
  "passing_trace t \<longleftrightarrow> mirrored t \<and> list_all as_pass (at_steps t)"

definition stopped_trace :: "RiskAuditTrace \<Rightarrow> bool" where
  "stopped_trace t \<longleftrightarrow> mirrored t \<and> at_steps t \<noteq> [] \<and> list_all as_pass (butlast (at_steps t)) \<and>
     \<not> as_pass (last (at_steps t))"

lemma mirrored_add_step:
  assumes "mirrored (pr_audit_trace r)"
  shows "mirrored (pr_audit_trace (add_step r c p t d True))"
proof -
  have "length (tl_steps (at_lite (pr_audit_trace r))) =
      min (length (at_steps (pr_audit_trace r))) kMaxRiskAuditSteps"
    using arg_cong [OF assms [unfolded mirrored_def], of length] by simp
  then show ?thesis
    using assms by (simp add: mirrored_def add_step_def Let_def min_def split: if_splits)
qed

lemma trace_add_step:
  "passing_trace (pr_audit_trace r) \<Longrightarrow> passing_trace (pr_audit_trace (add_step r c True t d True))"
  "passing_trace (pr_audit_trace r) \<Longrightarrow> stopped_trace (pr_audit_trace (add_step r c False t d True))"
  by (simp_all add: passing_trace_def stopped_trace_def mirrored_add_step)
     (simp_all add: add_step_def Let_def)

lemma run_stages_trace:
  "passing_trace (pr_audit_trace r) \<Longrightarrow>
   (if all_pass stages then passing_trace else stopped_trace) (pr_audit_trace (fst (run_stages True stages r)))"
  by (induction True stages r rule: run_stages.induct) (simp_all add: trace_add_step)

lemma trace_frame:
  "passing_trace (pr_audit_trace (begin_result intent policy))"
  "passing_trace (pr_audit_trace (count_vwap_mode cost r)) \<longleftrightarrow> passing_trace (pr_audit_trace r)"
  "stopped_trace (pr_audit_trace (reject_result intent reason detail cost r)) \<longleftrightarrow> stopped_trace (pr_audit_trace r)"
  "passing_trace (pr_audit_trace (approve_result input intent d cost i r)) \<longleftrightarrow> passing_trace (pr_audit_trace r)"
  by (simp_all add: begin_result_def init_trace_def empty_pipeline_result_def empty_trace_def passing_trace_def
      stopped_trace_def mirrored_def count_vwap_mode_def reject_result_def approve_result_def seal_result_def Let_def)

definition undecided :: "bool \<Rightarrow> RiskPipelineResult \<Rightarrow> bool" where
  "undecided full r \<longleftrightarrow> pr_approved_intent r = None \<and> counted 1 0 0 r \<and>
     (full \<longrightarrow> passing_trace (pr_audit_trace r))"

definition rejected_at :: "bool \<Rightarrow> RiskPipelineResult \<Rightarrow> bool" where
  "rejected_at full r \<longleftrightarrow> \<not> approved (pr_decision r) \<and> pr_approved_intent r = None \<and> counted 1 0 1 r \<and>
     (full \<longrightarrow> stopped_trace (pr_audit_trace r))"

definition is_approval ::
  "bool \<Rightarrow> RiskInputView \<Rightarrow> OpportunityIntent \<Rightarrow> RiskPolicySnapshot \<Rightarrow> u64 \<Rightarrow> RiskPipelineResult \<Rightarrow> bool" where
  "is_approval full input intent policy reservation_id r \<longleftrightarrow>
     approved (pr_decision r) \<and>
     pr_approved_intent r = Some
       \<lparr>ai_intent = intent, ai_decision = pr_decision r, ai_reservation_id = to_dec (unat reservation_id),
        ai_reservation_id_hash = 0, ai_approved_at_ns = iv_now_ns input,
        ai_expires_at_ns = oi_expires_at_ns intent\<rparr> \<and>
     pr_decision r = (approval_decision intent policy)\<lparr>rd_decision_id := pr_output_hash r\<rparr> \<and>
     pr_cost r = revalidated_cost input intent policy \<and> counted 1 1 0 r \<and>
     (full \<longrightarrow> passing_trace (pr_audit_trace r))"

lemma undecided_simps [simp]:
  "undecided full (begin_result intent policy)"
  "undecided full r \<Longrightarrow> undecided full (add_step r c True t d full)"
  "undecided full (count_vwap_mode cost r) \<longleftrightarrow> undecided full r"
  "undecided full (r\<lparr>pr_reservation_attempted := attempted, pr_reservation := x\<rparr>) \<longleftrightarrow> undecided full r"
  by (simp_all add: undecided_def counted_def trace_frame trace_add_step)

lemma undecided_run_stages: "undecided full r \<Longrightarrow> all_pass stages \<Longrightarrow> undecided full (fst (run_stages full stages r))"
  using run_stages_trace [of r stages] by (auto simp: undecided_def counted_def run_stages_frame)

lemma record_reject_counts [simp]:
  "rs_intents_evaluated (record_reject_reason reason c) = rs_intents_evaluated c"
  "rs_intents_approved (record_reject_reason reason c) = rs_intents_approved c"
  "rs_intents_rejected (record_reject_reason reason c) = rs_intents_rejected c + 1"
  by (simp_all add: record_reject_reason_def Let_def split: RiskRejectReason.split)

lemma reject_result_rejected:
  assumes "pr_approved_intent r = None" "counted 1 0 0 r" "full \<longrightarrow> stopped_trace (pr_audit_trace r)"
  shows "rejected_at full (reject_result intent reason detail cost r)"
  using assms trace_frame(3) [of intent reason detail cost r]
  by (simp add: rejected_at_def counted_def)
     (simp add: reject_result_def seal_result_def Let_def)

lemma reject_after_step [simp]:
  "undecided full r \<Longrightarrow> rejected_at full (reject_result intent reason detail cost (add_step r c False t d full))"
  by (rule reject_result_rejected) (auto simp: undecided_def counted_def trace_add_step)

lemma reject_after_stages:
  "undecided full r \<Longrightarrow> \<not> all_pass stages \<Longrightarrow>
   rejected_at full (reject_result intent reason detail cost (fst (run_stages full stages r)))"
  using run_stages_trace [of r stages]
  by (intro reject_result_rejected) (auto simp: undecided_def counted_def run_stages_frame)

lemma approve_result_is_approval:
  "undecided full r \<Longrightarrow> is_approval full input intent policy reservation_id
     (approve_result input intent (approval_decision intent policy) (revalidated_cost input intent policy)
        reservation_id r)"
  using trace_frame(4) [of input intent "approval_decision intent policy" "revalidated_cost input intent policy"
      reservation_id r]
  by (simp add: is_approval_def undecided_def counted_def)
     (simp add: approve_result_def seal_result_def approval_decision_def attach_decision_evidence_def
      approved_def make_approved_decision_def Let_def)

lemma reserve_stage_cases:
  assumes "reserve_stage full input intent policy (revalidated_cost input intent policy) r book = (r', book')"
    and "undecided full r"
  shows "(\<exists>b' i. reserves input intent policy book (b', i) \<and> book' = Some b' \<and>
      is_approval full input intent policy i r') \<or>
    ((\<forall>a. \<not> reserves input intent policy book a) \<and> book' = book \<and> rejected_at full r')"
proof (cases book)
  case None
  then show ?thesis using assms by (auto simp: reserve_stage_def reserves_def)
next
  case (Some b)
  obtain b' res where res: "try_reserve b intent (approval_decision intent policy) (iv_now_ns input)
      (should_track_reservation_ledger_detail policy) = (b', res)" by fastforce
  note approval_decision_def [symmetric, simp]
  show ?thesis
  proof (cases res)
    case (Accepted i)
    with assms Some res show ?thesis
      by (auto simp: reserve_stage_def reserves_def Let_def intro: approve_result_is_approval)
  next
    case (Refused reason detail)
    with assms Some res refused_keeps_book [OF res [unfolded Refused]] show ?thesis
      by (auto simp: reserve_stage_def reserves_def Let_def)
  qed
qed

lemma after_stages_cases:
  assumes "after_stages full stages intent cost s k r = (r', s')" "undecided full r"
  obtains "all_pass stages" "k (fst (run_stages full stages r)) = (r', s')"
      "undecided full (fst (run_stages full stages r))"
  | "\<not> all_pass stages" "s' = s" "rejected_at full r'"
proof (cases "all_pass stages")
  case True
  with assms that(1) show ?thesis by (simp add: after_stages_pass undecided_run_stages)
next
  case False
  from after_stages_stop [OF this, of full intent cost s k r] assms that(2) [OF False] show ?thesis
    by (auto intro: reject_after_stages [OF _ False])
qed

lemma evaluate_guards_cases:
  assumes "evaluate_guards full st input intent policy reserved book = (r, st', book')"
  shows "(guards_pass st input intent policy reserved \<and>
      (\<exists>b' i. reserves input intent policy book (b', i) \<and> book' = Some b' \<and>
         is_approval full input intent policy i r) \<and>
      ps_duplicate_guard st' = snd (duplicate_check (ps_duplicate_guard st) intent)) \<or>
    ((guards_pass st input intent policy reserved \<longrightarrow> (\<forall>a. \<not> reserves input intent policy book a)) \<and>
      book' = book \<and> rejected_at full r \<and>
      ps_duplicate_guard st' \<in> {ps_duplicate_guard st, snd (duplicate_check (ps_duplicate_guard st) intent)})"
  using assms [unfolded evaluate_guards_def] undecided_simps(1)
proof (cases rule: after_stages_cases)
  case entry: 1
  obtain dup dup_guard where dup: "duplicate_check (ps_duplicate_guard st) intent = (dup, dup_guard)" by fastforce
  obtain rate rate_guard where rate: "rate_limit_check (set_max_per_second (ps_rate_limit_guard st)
      (rp_max_approvals_per_second policy)) (iv_now_ns input) = (rate, rate_guard)" by fastforce
  from entry(2) [simplified dup prod.case Let_def] entry(3) show ?thesis
  proof (cases rule: after_stages_cases)
    case second: 1
    have keep: "ps_rate_limit_guard (st\<lparr>ps_duplicate_guard := g\<rparr>) = ps_rate_limit_guard st" for g by simp
    from second(2) [simplified keep rate prod.case Let_def] second(3) show ?thesis
    proof (cases rule: after_stages_cases)
      case third: 1
      from third(2) [unfolded Let_def] undecided_simps(3) [THEN iffD2, OF third(3)] show ?thesis
      proof (cases rule: after_stages_cases)
        case fourth: 1
        obtain r5 book5 where stage: "reserve_stage full input intent policy
            (revalidated_cost input intent policy) (fst (run_stages full
              (cost_stages reserved intent policy (revalidated_cost input intent policy))
              (count_vwap_mode (revalidated_cost input intent policy) (fst (run_stages full
                ((SC_RateLimitGuard, guard_outcome rate) #
                 concat (map (leg_stages input intent policy) (intent_legs intent)))
                (fst (run_stages full [(SC_DuplicateGuard, guard_outcome dup)]
                  (fst (run_stages full (entry_stages input intent policy)
                    (begin_result intent policy))))))))))
            book = (r5, book5)" by fastforce
        have "guards_pass st input intent policy reserved"
          using entry(1) second(1) third(1) fourth(1) dup rate by (simp add: guards_pass_def)
        moreover have "r = r5" "book' = book5" "ps_duplicate_guard st' = dup_guard" using fourth(2) stage by auto
        ultimately show ?thesis using reserve_stage_cases [OF stage fourth(3)] dup by auto
      qed (auto simp: guards_pass_def dup)
    qed (auto simp: guards_pass_def rate dup)
  qed (auto simp: guards_pass_def dup)
qed (auto simp: guards_pass_def)

text \<open>
  The evaluation approves exactly when the input is complete, every guard passes and the book
  accepts the reservation; otherwise it rejects and leaves the book alone.
\<close>

definition well_formed_input :: "RiskInputView \<Rightarrow> bool" where
  "well_formed_input input \<longleftrightarrow>
     (iv_snapshots input = None \<longrightarrow> iv_snapshot_count input = 0) \<and>
     (iv_depth_views input = None \<longrightarrow> iv_depth_view_count input = 0)"

lemma pipeline_on_complete_input:
  assumes "iv_intent input = Some intent" "iv_policy input = Some policy" "iv_ledger input = Some reserved"
    and "well_formed_input input" "evaluate_guards full st input intent policy reserved book = (r, st', book')"
  shows "pipeline_evaluate_view st input book has_publisher full =
    (r, st', book', if has_publisher then [r] else [])"
proof -
  have "\<not> ((iv_snapshots input = None \<and> 0 < iv_snapshot_count input) \<or>
      (iv_depth_views input = None \<and> 0 < iv_depth_view_count input))"
    using assms(4) by (auto simp: well_formed_input_def)
  then show ?thesis using assms by (simp add: pipeline_evaluate_view_def Let_def del: de_Morgan_disj de_Morgan_conj)
qed

lemma pipeline_cases:
  assumes "pipeline_evaluate_view st input book has_publisher full = (r, st', book', out)"
  obtains (approval) intent policy reserved b b' i where
      "iv_intent input = Some intent" "iv_policy input = Some policy" "iv_ledger input = Some reserved"
      "well_formed_input input" "guards_pass st input intent policy reserved"
      "book = Some b" "book' = Some b'" "reserves input intent policy (Some b) (b', i)"
      "is_approval full input intent policy i r"
      "ps_duplicate_guard st' = snd (duplicate_check (ps_duplicate_guard st) intent)"
  | (rejection) "book' = book" "rejected_at (full \<and> iv_intent input \<noteq> None) r"
      "ps_duplicate_guard st' = ps_duplicate_guard st \<or>
       (\<exists>intent. iv_intent input = Some intent \<and>
          ps_duplicate_guard st' = snd (duplicate_check (ps_duplicate_guard st) intent))"
proof (cases "\<exists>intent policy reserved. iv_intent input = Some intent \<and> iv_policy input = Some policy \<and>
    iv_ledger input = Some reserved \<and> well_formed_input input")
  case True
  then obtain intent policy reserved where in_parts: "iv_intent input = Some intent"
    "iv_policy input = Some policy" "iv_ledger input = Some reserved" "well_formed_input input" by blast
  obtain r0 st0 b0 where run: "evaluate_guards full st input intent policy reserved book = (r0, st0, b0)"
    by (metis prod_cases3)
  have "r = r0" "st' = st0" "book' = b0"
    using assms pipeline_on_complete_input [OF in_parts run, of has_publisher] by simp_all
  then show ?thesis
    using evaluate_guards_cases [OF run] in_parts approval rejection
    by (auto simp: reserves_def split: option.splits)
next
  case False
  have "book' = book \<and> st' = st \<and> rejected_at (full \<and> iv_intent input \<noteq> None) r"
  proof (cases "iv_intent input")
    case None
    then show ?thesis using assms
      by (auto simp: pipeline_evaluate_view_def Let_def rejected_at_def counted_def empty_pipeline_result_def
          zero_result_def)
  next
    case (Some intent)
    with False assms show ?thesis
      by (auto simp: pipeline_evaluate_view_def Let_def well_formed_input_def split: option.splits if_splits)
  qed
  then show ?thesis using rejection by blast
qed

subsection \<open>Properties of the pipeline\<close>

text \<open>What the market guards established for a leg.\<close>

definition leg_market_ok :: "RiskInputView \<Rightarrow> RiskPolicySnapshot \<Rightarrow> IntentLeg \<Rightarrow> bool" where
  "leg_market_ok input policy leg \<longleftrightarrow>
     (case find_view_of (input_views input) leg of
        Some v \<Rightarrow>
          dv_usable_for_depth v \<and> \<not> dv_recovering v \<and> \<not> dv_crossed v \<and> \<not> dv_closed v \<and> \<not> dv_resolved v \<and>
          dv_last_ws_recv_ns v \<noteq> 0 \<and> dv_last_ws_recv_ns v \<le> iv_now_ns input \<and>
          age_allowed policy (iv_now_ns input) (dv_last_ws_recv_ns v)
      | None \<Rightarrow>
          (case find_snapshot_of (input_snapshots input) leg of
             Some s \<Rightarrow>
               ms_live s \<and> ms_usable_for_depth s \<and> \<not> ms_recovering s \<and> \<not> ms_crossed s \<and>
               \<not> ms_closed s \<and> \<not> ms_resolved s \<and>
               ms_last_book_update_ns s \<noteq> 0 \<and> ms_last_book_update_ns s \<le> iv_now_ns input \<and>
               age_allowed policy (iv_now_ns input) (ms_last_book_update_ns s)
           | None \<Rightarrow> False))"

lemma leg_stages_pass: "all_pass (leg_stages input intent policy leg) \<Longrightarrow> leg_market_ok input policy leg"
  by (auto simp: leg_stages_def leg_market_ok_def market_state_view_iff market_state_snapshot_iff
      freshness_check_view_def freshness_check_snapshot_def dest!: freshness_passes split: option.splits)

lemma entry_stages_pass:
  "all_pass (entry_stages input intent policy) \<longleftrightarrow>
     \<not> rp_kill_switch_enabled policy \<and> validate_intent intent (iv_now_ns input) = Inr () \<and>
     verify_evidence intent = Inr () \<and> iv_now_ns input < oi_expires_at_ns intent"
  by (auto simp: entry_stages_def kill_switch_check_def expiry_check_def)

lemma cost_stages_pass:
  "all_pass (cost_stages reserved intent policy cost) \<longleftrightarrow>
     cr_ok cost \<and> eg_pass (edge_check intent cost policy) \<and> mg_pass (max_loss_check intent cost policy) \<and>
     xg_pass (exposure_check reserved intent cost policy) \<and>
     vg_pass (inventory_check reserved intent cost policy) \<and> fg_pass (partial_fill_check intent cost policy)"
  by (simp add: cost_stages_def Let_def)

text \<open>What identifies an intent to the duplicate guard, and what the guard has seen.\<close>

definition idempotency :: "OpportunityIntent \<Rightarrow> u64 + string" where
  "idempotency intent =
     (if oi_idempotency_hash intent \<noteq> 0 then Inl (oi_idempotency_hash intent)
      else Inr (oi_idempotency_key intent))"

definition seen_by :: "DuplicateIntentGuard \<Rightarrow> (u64 + string) set" where
  "seen_by g = Inl ` dg_seen_idempotency_hashes g \<union> Inr ` dg_seen_idempotency_keys g"

lemma duplicate_check_pass:
  "gr_pass (fst (duplicate_check g intent)) \<Longrightarrow>
   idempotency intent \<notin> seen_by g \<and> idempotency intent \<in> seen_by (snd (duplicate_check g intent))"
  by (auto simp: duplicate_check_def seen_by_def idempotency_def Let_def split: if_splits)

lemma duplicate_check_mono: "seen_by g \<subseteq> seen_by (snd (duplicate_check g intent))"
  by (auto simp: duplicate_check_def seen_by_def Let_def)

lemma try_reserve_accepted:
  "try_reserve b intent decision now track = (b', Accepted i) \<Longrightarrow>
   admissible intent decision now \<and> active_reservation_keys b (reservation_key_for intent) = None \<and>
   i = next_reservation_id b \<and>
   reservations b' = reservations b @ [(new_reservation b intent now track)\<lparr>rr_ledger_reserved := True\<rparr>] \<and>
   ledger b' = ledger_reserve (new_reservation b intent now track) (ledger b)"
  using try_reserve_accepts [of intent decision now b track] try_reserve_refuses(2) [of intent decision now b track]
  by (cases "admissible intent decision now \<and> active_reservation_keys b (reservation_key_for intent) = None") auto

lemma revalidated_drift:
  "cr_ok (revalidated_cost input intent policy) \<Longrightarrow>
   wrap_i64 (cr_risk_total_cost_tick (revalidated_cost input intent policy) - oi_estimated_cost_tick intent)
     \<le> rp_max_allowed_cost_drift_tick policy"
  by (auto simp: revalidated_cost_def revalidate_views_def revalidate_snapshots_def finish_revalidation_def Let_def
      split: if_splits)


definition sample_input :: RiskInputView where
  "sample_input = \<lparr>iv_intent = Some losing_intent, iv_snapshots = None, iv_snapshot_count = 0,
     iv_depth_views = Some [quoted_view], iv_depth_view_count = 1, iv_snapshot_version_hash = 0,
     iv_now_ns = 200, iv_policy = Some drift_policy, iv_ledger = Some (book_snapshot empty_book)\<rparr>"

lemma sample_guards_pass:
  "guards_pass make_risk_pipeline sample_input losing_intent drift_policy (book_snapshot empty_book)"
proof -
  have "all_pass (entry_stages sample_input losing_intent drift_policy)"
    "gr_pass (fst (duplicate_check (ps_duplicate_guard make_risk_pipeline) losing_intent))"
    "gr_pass (fst (rate_limit_check (set_max_per_second (ps_rate_limit_guard make_risk_pipeline)
       (rp_max_approvals_per_second drift_policy)) (iv_now_ns sample_input)))"
    "\<forall>leg \<in> set (intent_legs losing_intent). all_pass (leg_stages sample_input losing_intent drift_policy leg)"
    "all_pass (cost_stages (book_snapshot empty_book) losing_intent drift_policy
       (revalidated_cost sample_input losing_intent drift_policy))"
    by code_simp+
  then show ?thesis by (simp only: guards_pass_def simp_thms)
qed

lemma guards_pass_approves:
  assumes "iv_intent input = Some intent" "iv_policy input = Some policy" "iv_ledger input = Some reserved"
    and "well_formed_input input" "guards_pass st input intent policy reserved"
    and "admissible intent (approval_decision intent policy) (iv_now_ns input)"
    and "active_reservation_keys b (reservation_key_for intent) = None"
  obtains r st' out where
    "pipeline_evaluate_view st input (Some b) has_publisher full = (r, st', Some (fst (try_reserve b intent
       (approval_decision intent policy) (iv_now_ns input) (should_track_reservation_ledger_detail policy))), out)"
    "approved (pr_decision r)"
proof -
  let ?b = "fst (try_reserve b intent (approval_decision intent policy) (iv_now_ns input)
    (should_track_reservation_ledger_detail policy))"
  obtain r st' book' where run: "evaluate_guards full st input intent policy reserved (Some b) = (r, st', book')"
    by (metis prod_cases3)
  have "reserves input intent policy (Some b) (?b, next_reservation_id b)"
    using try_reserve_accepts(1) [OF assms(6,7)] by (simp add: reserves_def prod_eq_iff)
  then have "book' = Some ?b" "approved (pr_decision r)"
    using evaluate_guards_cases [OF run] assms(5) by (auto simp: is_approval_def reserves_def)
  then show ?thesis
    using pipeline_on_complete_input [OF assms(1-4) run, of has_publisher] by (intro that) simp_all
qed

lemma sample_evaluation:
  obtains r st' b' out where
    "pipeline_evaluate_view make_risk_pipeline sample_input (Some empty_book) False full = (r, st', Some b', out)"
    "approved (pr_decision r)"
proof (rule guards_pass_approves [OF _ _ _ _ sample_guards_pass])
  show "admissible losing_intent (approval_decision losing_intent drift_policy) (iv_now_ns sample_input)"
    by (simp add: admissible_def reservation_key_for_def losing_intent_def two_bundles_def sample_intent_def
        sample_input_def approval_decision_def attach_decision_evidence_def approved_def make_approved_decision_def)
qed (auto simp: sample_input_def well_formed_input_def empty_book_def intro: that)

text \<open>The pipeline approves an intent whose payout is below the cost it has recomputed.\<close>

lemma losing_intent_is_approved:
  "\<exists>r st' b' out. pipeline_evaluate_view make_risk_pipeline sample_input (Some empty_book) False full =
      (r, st', Some b', out) \<and> approved (pr_decision r) \<and>
    oi_guaranteed_payout_tick losing_intent <
      cr_risk_total_cost_tick (revalidate_views losing_intent [quoted_view] drift_policy 200 0)"
  using sample_evaluation [of full] edge_counts_whole_depth by metis


text \<open>
  C19: An evaluation that does not approve reserves nothing: the reservation book is
  untouched, no approved intent leaves the pipeline, and the result counts one intent
  evaluated, one rejected and none approved.
\<close>

theorem risk_rejection_reserves_nothing:
  assumes "pipeline_evaluate_view st input book has_publisher full = (r, st', book', out)"
    and "\<not> approved (pr_decision r)"
  shows "book' = book \<and> pr_approved_intent r = None \<and> rs_intents_evaluated (pr_result r) = 1 \<and>
    rs_intents_rejected (pr_result r) = 1 \<and> rs_intents_approved (pr_result r) = 0"
  using assms(1)
proof (cases rule: pipeline_cases)
  case approval
  then show ?thesis using assms(2) by (simp add: is_approval_def)
next
  case rejection
  then show ?thesis by (simp add: rejected_at_def counted_def)
qed

theorem risk_rejection_reserves_nothing_witness:
  "case pipeline_evaluate_view make_risk_pipeline (sample_input\<lparr>iv_intent := None\<rparr>) (Some empty_book) True True of
     (r, st', book', out) \<Rightarrow> book' = Some empty_book \<and> rs_intents_rejected (pr_result r) = 1"
  using risk_rejection_reserves_nothing
    [of make_risk_pipeline "sample_input\<lparr>iv_intent := None\<rparr>" "Some empty_book" True True]
  by (simp add: pipeline_evaluate_view_def Let_def make_rejected_decision_def default_decision_def approved_def)

text \<open>
  Every evaluation of an intent leaves an explainable trace: with the full trace on, it
  lists the guards that ran, all of which passed but possibly the last, the last one failed
  exactly when the intent was not approved, and the compact trace holds the first 16 of these
  steps (and no more, so that it misses the rejecting guard of a longer evaluation).
\<close>

theorem audit_trace_explains:
  assumes "pipeline_evaluate_view st input book has_publisher True = (r, st', book', out)"
    and "iv_intent input \<noteq> None"
  defines "steps \<equiv> at_steps (pr_audit_trace r)"
  shows "list_all as_pass (butlast steps) \<and>
    (\<not> approved (pr_decision r) \<longleftrightarrow> steps \<noteq> [] \<and> \<not> as_pass (last steps)) \<and>
    map (\<lambda>s. (risk_audit_step_name (sl_step s), sl_pass s, sl_rejection s))
      (tl_steps (at_lite (pr_audit_trace r))) =
    map (\<lambda>s. (as_guard_name s, as_pass s, as_rejection s)) (take 16 steps)"
  using assms(1)
proof (cases rule: pipeline_cases)
  case approval
  then show ?thesis
    by (auto simp: is_approval_def passing_trace_def mirrored_def steps_def kMaxRiskAuditSteps_def
        take_map list_all_iff dest: in_set_butlastD last_in_set)
next
  case rejection
  then show ?thesis using assms(2)
    by (auto simp: rejected_at_def stopped_trace_def mirrored_def steps_def kMaxRiskAuditSteps_def take_map)
qed

theorem audit_trace_explains_witness:
  "case pipeline_evaluate_view make_risk_pipeline sample_input None False True of
     (r, st', book', out) \<Rightarrow> iv_intent sample_input \<noteq> None \<and>
       (\<not> approved (pr_decision r) \<longleftrightarrow> at_steps (pr_audit_trace r) \<noteq> [] \<and>
          \<not> as_pass (last (at_steps (pr_audit_trace r))))"
proof -
  obtain r st' book' out where
    run: "pipeline_evaluate_view make_risk_pipeline sample_input None False True = (r, st', book', out)"
    by (metis prod_cases4)
  moreover have "iv_intent sample_input \<noteq> None" by (simp add: sample_input_def)
  ultimately show ?thesis using audit_trace_explains [OF run] by auto
qed

end
