(* ===== verification/RiskRuntime.thy ===== *)
theory RiskRuntime
  imports RiskPipeline
begin

section \<open>The risk engine\<close>

text \<open>
  \<open>engine/risk/core/RiskEngine.cpp\<close> and \<open>RiskWorkflow.cpp\<close>: the engine that owns a pipeline
  and a reservation book, or works on the book, the ledger, the policy and the publisher of a
  runtime context. Objects behind the pointers of the context are part of the model's context:
  a book the engine changes there is the changed shared book. A publisher is its number, and a
  publication is the pair of that number and the result. Stage timings are left out.
  Lemmas: no idempotency is approved twice over any sequence of calls, an approved order
  decision is the sealed one, the exposure an approval leaves, the counts of a workflow.
\<close>

subsection \<open>Contexts\<close>

record RiskRuntimeContext =
  rt_policy :: "RiskPolicySnapshot option"
  rt_ledger :: "RiskLedger option"
  rt_publisher :: "nat option"
  rt_reservation_book :: "ReservationBook option"
  rt_enable_full_audit_trace :: bool

definition default_runtime :: RiskRuntimeContext where
  "default_runtime = \<lparr>rt_policy = None, rt_ledger = None, rt_publisher = None,
     rt_reservation_book = None, rt_enable_full_audit_trace = False\<rparr>"

record RiskEvaluationContext =
  ec_now_ns :: u64
  ec_latest_snapshots :: "MarketStateSnapshot list"
  ec_latest_snapshot_version_hash :: u64
  ec_policy :: RiskPolicySnapshot
  ec_ledger_snapshot :: RiskLedgerSnapshot
  ec_enable_full_audit_trace :: bool
  ec_decision_publisher :: "nat option"

text \<open>The view both \<open>evaluate\<close> functions build; the count is cast to 16 bits.\<close>

definition view_of_context :: "OpportunityIntent \<Rightarrow> RiskEvaluationContext \<Rightarrow> RiskLedgerSnapshot \<Rightarrow> RiskInputView" where
  "view_of_context intent ctx reserved =
     \<lparr>iv_intent = Some intent, iv_snapshots = Some (ec_latest_snapshots ctx),
      iv_snapshot_count = length (ec_latest_snapshots ctx) mod 2 ^ 16,
      iv_depth_views = None, iv_depth_view_count = 0,
      iv_snapshot_version_hash = ec_latest_snapshot_version_hash ctx, iv_now_ns = ec_now_ns ctx,
      iv_policy = Some (ec_policy ctx), iv_ledger = Some reserved\<rparr>"

definition pipeline_evaluate ::
  "RiskPipelineState \<Rightarrow> OpportunityIntent \<Rightarrow> RiskEvaluationContext \<Rightarrow> ReservationBook option
     \<Rightarrow> RiskPipelineResult \<times> RiskPipelineState \<times> ReservationBook option \<times> RiskPipelineResult list" where
  "pipeline_evaluate st intent ctx book =
     pipeline_evaluate_view st (view_of_context intent ctx (ec_ledger_snapshot ctx)) book
       (ec_decision_publisher ctx \<noteq> None) (ec_enable_full_audit_trace ctx)"

subsection \<open>RiskEngine\<close>

record RiskEngine =
  en_reservations :: ReservationBook
  en_pipeline :: RiskPipelineState
  en_runtime :: RiskRuntimeContext
  en_ledger_snapshot_cache :: RiskLedgerSnapshot

definition make_risk_engine :: "RiskRuntimeContext \<Rightarrow> RiskEngine" where
  "make_risk_engine runtime = \<lparr>en_reservations = empty_book, en_pipeline = make_risk_pipeline,
     en_runtime = runtime, en_ledger_snapshot_cache = risk_ledger_snapshot empty_ledger\<rparr>"

definition reservation_book :: "RiskEngine \<Rightarrow> ReservationBook" where
  "reservation_book e =
     (case rt_reservation_book (en_runtime e) of Some b \<Rightarrow> b | None \<Rightarrow> en_reservations e)"

text \<open>A change of the book the engine works on.\<close>

definition with_book :: "RiskEngine \<Rightarrow> ReservationBook \<Rightarrow> RiskEngine" where
  "with_book e b =
     (case rt_reservation_book (en_runtime e) of
        Some _ \<Rightarrow> e\<lparr>en_runtime := (en_runtime e)\<lparr>rt_reservation_book := Some b\<rparr>\<rparr>
      | None \<Rightarrow> e\<lparr>en_reservations := b\<rparr>)"

type_synonym publications = "(nat \<times> RiskPipelineResult) list"

text \<open>The call of the pipeline, with the publisher given or else the one of the context.\<close>

definition run_pipeline ::
  "RiskEngine \<Rightarrow> RiskInputView \<Rightarrow> nat option \<Rightarrow> bool \<Rightarrow> RiskPipelineResult \<times> RiskEngine \<times> publications" where
  "run_pipeline e view decision_publisher full =
     (let publisher = (if decision_publisher \<noteq> None then decision_publisher else rt_publisher (en_runtime e))
      in case pipeline_evaluate_view (en_pipeline e) view (Some (reservation_book e)) (publisher \<noteq> None)
                (full \<or> rt_enable_full_audit_trace (en_runtime e)) of
           (r, st', book', published) \<Rightarrow>
             (r,
              with_book (e\<lparr>en_pipeline := st'\<rparr>) (case book' of Some b \<Rightarrow> b | None \<Rightarrow> reservation_book e),
              map (Pair (case publisher of Some p \<Rightarrow> p | None \<Rightarrow> 0)) published))"

definition engine_evaluate ::
  "RiskEngine \<Rightarrow> OpportunityIntent \<Rightarrow> RiskEvaluationContext \<Rightarrow> RiskPipelineResult \<times> RiskEngine \<times> publications" where
  "engine_evaluate e intent ctx =
     (let e1 = with_book e (expire_old (reservation_book e) (ec_now_ns ctx));
          cache = (case rt_ledger (en_runtime e1) of
                     Some l \<Rightarrow> risk_ledger_snapshot l
                   | None \<Rightarrow> book_snapshot (reservation_book e1));
          e2 = e1\<lparr>en_ledger_snapshot_cache := cache\<rparr>
      in run_pipeline e2 (view_of_context intent ctx cache) (ec_decision_publisher ctx)
           (ec_enable_full_audit_trace ctx))"

definition engine_evaluate_view ::
  "RiskEngine \<Rightarrow> RiskInputView \<Rightarrow> nat option \<Rightarrow> bool \<Rightarrow> RiskPipelineResult \<times> RiskEngine \<times> publications" where
  "engine_evaluate_view e input decision_publisher full =
     (let e1 = with_book e (expire_old (reservation_book e) (iv_now_ns input));
          cache = (case rt_ledger (en_runtime e1) of
                     Some l \<Rightarrow> risk_ledger_snapshot l
                   | None \<Rightarrow> (case iv_ledger input of
                       Some l \<Rightarrow> l
                     | None \<Rightarrow> book_snapshot (reservation_book e1)));
          e2 = e1\<lparr>en_ledger_snapshot_cache := cache\<rparr>;
          view = input\<lparr>iv_ledger := Some cache,
            iv_policy := (if iv_policy input = None then rt_policy (en_runtime e2) else iv_policy input)\<rparr>
      in run_pipeline e2 view decision_publisher full)"

definition engine_evaluate_input ::
  "RiskEngine \<Rightarrow> RiskInputView \<Rightarrow> RiskPipelineResult \<times> RiskEngine \<times> publications" where
  "engine_evaluate_input e input = engine_evaluate_view e input None False"

subsection \<open>Order decisions\<close>

definition reject_decision ::
  "RiskRejectReason \<Rightarrow> OrderDecisionLite \<Rightarrow> RiskInputView \<Rightarrow> string \<Rightarrow> RiskPipelineResult" where
  "reject_decision reason d input detail =
     (let decision = (make_rejected_decision reason detail)\<lparr>
            rd_intent_id := ol_source_intent_id d, rd_bundle_id := ol_bundle_id d,
            rd_oracle_artifact_hash := ol_oracle_artifact_hash d, rd_bundle_hash := ol_bundle_hash d,
            rd_snapshot_version_hash := ol_snapshot_version_hash d\<rparr>;
          decision = (case iv_policy input of
            Some p \<Rightarrow> decision\<lparr>rd_policy_version := rp_policy_version p, rd_policy_hash := policy_hash_for p\<rparr>
          | None \<Rightarrow> decision)
      in empty_pipeline_result\<lparr>pr_decision := decision,
           pr_result := zero_result\<lparr>rs_intents_evaluated := 1, rs_intents_rejected := 1\<rparr>\<rparr>)"

text \<open>The list of legs holds the first slots of the array; the slots beyond it are default legs.\<close>

definition default_intent_leg :: IntentLeg where
  "default_intent_leg = \<lparr>il_market_id = [], il_asset_id = [], il_asset_index = 0, il_side = Buy,
     il_quantity_lots = 0, il_estimated_vwap_tick = 0, il_worst_price_tick = 0,
     il_estimated_cost_tick = 0, il_requested_qty_lots = 0, il_executable_qty_lots = 0,
     il_depth_margin_bps = 0, il_enough_depth = False\<rparr>"

definition leg_from_decision :: "RiskPolicySnapshot \<Rightarrow> IntentLeg \<Rightarrow> OrderDecisionLegLite \<Rightarrow> IntentLeg" where
  "leg_from_decision policy leg source_leg =
     leg\<lparr>il_asset_index := ll_asset_index source_leg, il_side := ll_side source_leg,
       il_quantity_lots := 1, il_requested_qty_lots := ll_quantity_lots source_leg,
       il_executable_qty_lots := ll_quantity_lots source_leg,
       il_depth_margin_bps := max 10000 (rp_min_depth_margin_bps policy), il_enough_depth := True,
       il_estimated_vwap_tick := ll_estimated_vwap_tick source_leg,
       il_worst_price_tick := ll_limit_price_tick source_leg,
       il_estimated_cost_tick := ll_estimated_cost_tick source_leg\<rparr>"

fun legs_from_decision ::
  "RiskPolicySnapshot \<Rightarrow> IntentLeg list \<Rightarrow> OrderDecisionLegLite list \<Rightarrow> IntentLeg list" where
  "legs_from_decision policy legs [] = legs"
| "legs_from_decision policy [] (d # ds) =
     leg_from_decision policy default_intent_leg d # legs_from_decision policy [] ds"
| "legs_from_decision policy (leg # legs) (d # ds) =
     leg_from_decision policy leg d # legs_from_decision policy legs ds"

definition intent_from_decision ::
  "OpportunityIntent \<Rightarrow> OrderDecisionLite \<Rightarrow> RiskPolicySnapshot \<Rightarrow> OpportunityIntent" where
  "intent_from_decision source d policy =
     source\<lparr>oi_status := PaperOpportunity, oi_bundle_id := ol_bundle_id d,
       oi_guaranteed_payout_tick := ol_guaranteed_payout_tick d,
       oi_estimated_cost_tick := ol_estimated_total_cost_tick d,
       oi_estimated_fee_tick := ol_estimated_fee_tick d,
       oi_latency_buffer_tick := ol_latency_buffer_tick d,
       oi_slippage_buffer_tick := ol_slippage_buffer_tick d,
       oi_estimated_edge_tick := ol_total_edge_tick d,
       oi_bundle_qty := ol_chosen_bundle_qty d, oi_original_bundle_qty := ol_chosen_bundle_qty d,
       oi_unit_edge_tick := ol_unit_edge_tick d, oi_total_edge_tick := ol_total_edge_tick d,
       oi_edge_bps := ol_edge_bps d, oi_snapshot_version_hash := ol_snapshot_version_hash d,
       oi_oracle_artifact_hash := ol_oracle_artifact_hash d, oi_bundle_hash := ol_bundle_hash d,
       oi_expires_at_ns := ol_expires_at_ns d, oi_enough_depth := True,
       oi_leg_count := ol_leg_count d,
       oi_legs := legs_from_decision policy (oi_legs source) (lite_legs d)\<rparr>"

text \<open>The checks before the pipeline; the first that fails names the rejection.\<close>

definition decision_fault ::
  "OpportunityIntent \<Rightarrow> OrderDecisionLite \<Rightarrow> RiskInputView \<Rightarrow> RiskPolicySnapshot
     \<Rightarrow> (RiskRejectReason \<times> string) option" where
  "decision_fault intent d input policy =
     (if ol_type d \<noteq> PaperOrderDecision
      then Some (InvalidIntent, ''order decision is not paper decision'')
      else if ol_chosen_bundle_qty d \<le> 0 \<or> ol_estimated_total_cost_tick d \<le> 0 \<or> ol_leg_count d = 0 \<or>
              ol_leg_count d > kMaxOrderDecisionLegs
      then Some (InvalidIntent, ''invalid order decision size'')
      else if ol_expires_at_ns d \<le> iv_now_ns input
      then Some (ExpiredIntent, ''order decision expired'')
      else if ol_source_intent_id d \<noteq> oi_intent_id intent \<or> ol_bundle_id d \<noteq> oi_bundle_id intent
      then Some (InvalidIntent, ''decision intent mismatch'')
      else if ol_snapshot_version_hash d \<noteq> oi_snapshot_version_hash intent
      then Some (InvalidIntent, ''decision snapshot hash mismatch'')
      else if compute_order_decision_hash d \<noteq> ol_decision_hash d
      then Some (InvalidIntent, ''decision hash mismatch'')
      else if ol_policy_hash d \<noteq> policy_hash_for policy
      then Some (InvalidIntent, ''policy hash mismatch'')
      else if rp_max_total_cost_tick policy > 0 \<and>
              ol_estimated_total_cost_tick d > rp_max_total_cost_tick policy
      then Some (CostLimit, ''decision cost exceeds policy'')
      else if \<not> passes_edge_thresholds (ol_unit_edge_tick d) (ol_total_edge_tick d) (ol_edge_bps d) policy
      then Some (LowTotalEdge, ''decision edge below policy'')
      else None)"

definition evaluate_decision ::
  "RiskEngine \<Rightarrow> OpportunityIntent \<Rightarrow> OrderDecisionLite \<Rightarrow> RiskInputView \<Rightarrow> nat option \<Rightarrow> bool
     \<Rightarrow> RiskPipelineResult \<times> RiskEngine \<times> publications" where
  "evaluate_decision e intent d input decision_publisher full =
     (case (if iv_policy input \<noteq> None then iv_policy input else rt_policy (en_runtime e)) of
        None \<Rightarrow> (reject_decision InvalidIntent d input ''missing input policy'', e, [])
      | Some policy \<Rightarrow>
          (case decision_fault intent d input policy of
             Some (reason, detail) \<Rightarrow> (reject_decision reason d input detail, e, [])
           | None \<Rightarrow>
               engine_evaluate_view e
                 (input\<lparr>iv_policy := Some policy, iv_intent := Some (intent_from_decision intent d policy)\<rparr>)
                 decision_publisher full))"

definition evaluate_full_decision ::
  "RiskEngine \<Rightarrow> OpportunityIntent \<Rightarrow> OrderDecision \<Rightarrow> RiskInputView \<Rightarrow> nat option \<Rightarrow> bool
     \<Rightarrow> RiskPipelineResult \<times> RiskEngine \<times> publications" where
  "evaluate_full_decision e intent d input decision_publisher full =
     evaluate_decision e intent (to_order_decision_lite d) input decision_publisher full"

definition evaluate_decision_of_view ::
  "RiskEngine \<Rightarrow> OrderDecisionLite \<Rightarrow> RiskInputView \<Rightarrow> nat option \<Rightarrow> bool
     \<Rightarrow> RiskPipelineResult \<times> RiskEngine \<times> publications" where
  "evaluate_decision_of_view e d input decision_publisher full =
     (case iv_intent input of
        None \<Rightarrow> (reject_decision InvalidIntent d input ''missing source intent'', e, [])
      | Some intent \<Rightarrow> evaluate_decision e intent d input decision_publisher full)"

definition evaluate_full_decision_of_view ::
  "RiskEngine \<Rightarrow> OrderDecision \<Rightarrow> RiskInputView \<Rightarrow> nat option \<Rightarrow> bool
     \<Rightarrow> RiskPipelineResult \<times> RiskEngine \<times> publications" where
  "evaluate_full_decision_of_view e d input decision_publisher full =
     evaluate_decision_of_view e (to_order_decision_lite d) input decision_publisher full"

subsection \<open>The other calls\<close>

definition set_runtime_context :: "RiskEngine \<Rightarrow> RiskRuntimeContext \<Rightarrow> RiskEngine" where
  "set_runtime_context e runtime = e\<lparr>en_runtime := runtime\<rparr>"

definition ledger_snapshot :: "RiskEngine \<Rightarrow> RiskLedgerSnapshot" where
  "ledger_snapshot e = book_snapshot (reservation_book e)"

definition engine_release_reservation :: "RiskEngine \<Rightarrow> u64 \<Rightarrow> RiskEngine" where
  "engine_release_reservation e reservation_id = with_book e (release (reservation_book e) reservation_id)"

definition engine_expire_old :: "RiskEngine \<Rightarrow> u64 \<Rightarrow> RiskEngine" where
  "engine_expire_old e now_ns = with_book e (expire_old (reservation_book e) now_ns)"

subsection \<open>run\_risk\_workflow\<close>

record RiskWorkflowResult =
  wr_evaluations :: "RiskPipelineResult list"
  wr_aggregate :: RiskResult

definition add_counts :: "RiskResult \<Rightarrow> RiskPipelineResult \<Rightarrow> RiskResult" where
  "add_counts a result =
     (let r = pr_result result in
      a\<lparr>rs_intents_evaluated := rs_intents_evaluated a + rs_intents_evaluated r,
        rs_intents_approved := rs_intents_approved a + rs_intents_approved r,
        rs_intents_rejected := rs_intents_rejected a + rs_intents_rejected r,
        rs_rejected_kill_switch := rs_rejected_kill_switch a + rs_rejected_kill_switch r,
        rs_rejected_low_edge := rs_rejected_low_edge a + rs_rejected_low_edge r,
        rs_rejected_cost_limit := rs_rejected_cost_limit a + rs_rejected_cost_limit r,
        rs_rejected_exposure_limit := rs_rejected_exposure_limit a + rs_rejected_exposure_limit r,
        rs_rejected_inventory_limit := rs_rejected_inventory_limit a + rs_rejected_inventory_limit r,
        rs_rejected_stale_or_expired := rs_rejected_stale_or_expired a + rs_rejected_stale_or_expired r,
        rs_rejected_drift_or_slippage := rs_rejected_drift_or_slippage a + rs_rejected_drift_or_slippage r,
        rs_rejected_pending_or_rate_limit :=
          rs_rejected_pending_or_rate_limit a + rs_rejected_pending_or_rate_limit r,
        rs_rejected_bad_market_state := rs_rejected_bad_market_state a + rs_rejected_bad_market_state r,
        rs_rejected_snapshot_freshness := rs_rejected_snapshot_freshness a + rs_rejected_snapshot_freshness r,
        rs_rejected_partial_fill_risk := rs_rejected_partial_fill_risk a + rs_rejected_partial_fill_risk r,
        rs_output_hash := xor (rs_output_hash a) (pr_output_hash result)\<rparr>)"

fun workflow_loop ::
  "RiskEngine \<Rightarrow> OpportunityIntent list \<Rightarrow> RiskEvaluationContext \<Rightarrow> RiskWorkflowResult
     \<Rightarrow> RiskWorkflowResult \<times> RiskEngine" where
  "workflow_loop e [] ctx out = (out, e)"
| "workflow_loop e (intent # intents) ctx out =
     (case engine_evaluate e intent ctx of (result, e', _) \<Rightarrow>
        workflow_loop e' intents ctx
          \<lparr>wr_evaluations = wr_evaluations out @ [result],
           wr_aggregate = add_counts (wr_aggregate out) result\<rparr>)"

definition run_risk_workflow ::
  "RiskEngine option \<Rightarrow> OpportunityIntent list \<Rightarrow> RiskEvaluationContext
     \<Rightarrow> RiskWorkflowResult \<times> RiskEngine option" where
  "run_risk_workflow engine intents ctx =
     (let out = \<lparr>wr_evaluations = [], wr_aggregate = zero_result\<rparr> in
      case engine of
        None \<Rightarrow> (out, None)
      | Some e \<Rightarrow> map_prod id Some (workflow_loop e intents ctx out))"

subsection \<open>What every evaluation keeps\<close>

lemma with_book_simps [simp]:
  "reservation_book (with_book e b) = b"
  "en_pipeline (with_book e b) = en_pipeline e"
  "rt_policy (en_runtime (with_book e b)) = rt_policy (en_runtime e)"
  "rt_ledger (en_runtime (with_book e b)) = rt_ledger (en_runtime e)"
  "rt_publisher (en_runtime (with_book e b)) = rt_publisher (en_runtime e)"
  by (simp_all add: with_book_def reservation_book_def split: option.split)

lemma reservation_book_frame [simp]:
  "reservation_book (e\<lparr>en_pipeline := p\<rparr>) = reservation_book e"
  "reservation_book (e\<lparr>en_ledger_snapshot_cache := c\<rparr>) = reservation_book e"
  by (simp_all add: reservation_book_def split: option.split)

abbreviation engine_seen :: "RiskEngine \<Rightarrow> (u64 + string) set" where
  "engine_seen e \<equiv> seen_by (ps_duplicate_guard (en_pipeline e))"

text \<open>
  A call's outcome is sound for the engine before and after it: what the duplicate guard has
  seen only grows, and an approved intent is new before and seen after.
\<close>

definition sound_outcome :: "RiskEngine \<Rightarrow> RiskPipelineResult \<Rightarrow> RiskEngine \<Rightarrow> bool" where
  "sound_outcome e r e' \<longleftrightarrow> engine_seen e \<subseteq> engine_seen e' \<and>
     (case pr_approved_intent r of
        None \<Rightarrow> \<not> approved (pr_decision r)
      | Some a \<Rightarrow> approved (pr_decision r) \<and>
          idempotency (ai_intent a) \<notin> engine_seen e \<and> idempotency (ai_intent a) \<in> engine_seen e')"

lemma run_pipeline_cases:
  assumes "run_pipeline e view pub full = (r, e', out)"
  obtains st' book' out' full' has where
    "pipeline_evaluate_view (en_pipeline e) view (Some (reservation_book e)) has full' = (r, st', book', out')"
    "en_pipeline e' = st'" "Some (reservation_book e') = book'"
proof -
  obtain st' book' out' where run: "pipeline_evaluate_view (en_pipeline e) view (Some (reservation_book e))
      ((if pub \<noteq> None then pub else rt_publisher (en_runtime e)) \<noteq> None)
      (full \<or> rt_enable_full_audit_trace (en_runtime e)) = (r, st', book', out')"
    using assms by (auto simp: run_pipeline_def Let_def split: prod.splits)
  have e': "en_pipeline e' = st'"
    "reservation_book e' = (case book' of Some b \<Rightarrow> b | None \<Rightarrow> reservation_book e)"
    using assms run by (auto simp: run_pipeline_def Let_def)
  from run have "book' \<noteq> None" by (cases rule: pipeline_cases) auto
  with e' have "Some (reservation_book e') = book'" by auto
  with that run e'(1) show ?thesis by blast
qed

lemma run_pipeline_sound:
  assumes "run_pipeline e view pub full = (r, e', out)"
  shows "sound_outcome e r e'"
proof -
  from assms obtain st' book' out' full' has where
    run: "pipeline_evaluate_view (en_pipeline e) view (Some (reservation_book e)) has full' = (r, st', book', out')"
    and e': "en_pipeline e' = st'" by (rule run_pipeline_cases)
  from run show ?thesis
  proof (cases rule: pipeline_cases)
    case (approval intent policy reserved b b' i)
    then have "gr_pass (fst (duplicate_check (ps_duplicate_guard (en_pipeline e)) intent))"
      by (simp add: guards_pass_def)
    from duplicate_check_pass [OF this] approval duplicate_check_mono show ?thesis
      by (auto simp: sound_outcome_def is_approval_def e')
  next
    case rejection
    then show ?thesis using duplicate_check_mono by (fastforce simp: sound_outcome_def rejected_at_def e')
  qed
qed

lemma sound_outcome_frame: "sound_outcome e1 r e' \<Longrightarrow> en_pipeline e1 = en_pipeline e \<Longrightarrow> sound_outcome e r e'"
  by (simp add: sound_outcome_def split: option.splits)

lemma reject_decision_sound: "sound_outcome e (reject_decision reason d input detail) e"
  by (simp add: sound_outcome_def reject_decision_def Let_def empty_pipeline_result_def approved_def
      make_rejected_decision_def split: option.split)

lemma engine_evaluate_sound: "engine_evaluate e intent ctx = (r, e', out) \<Longrightarrow> sound_outcome e r e'"
  unfolding engine_evaluate_def Let_def
  by (drule run_pipeline_sound) (erule sound_outcome_frame, simp)

lemma engine_evaluate_view_sound: "engine_evaluate_view e input pub full = (r, e', out) \<Longrightarrow> sound_outcome e r e'"
  unfolding engine_evaluate_view_def Let_def
  by (drule run_pipeline_sound) (erule sound_outcome_frame, simp)

lemma evaluate_decision_sound:
  "evaluate_decision e intent d input pub full = (r, e', out) \<Longrightarrow> sound_outcome e r e'"
  by (auto simp: evaluate_decision_def intro: reject_decision_sound dest: engine_evaluate_view_sound
      split: option.splits)

subsection \<open>Sequences of calls\<close>

datatype EngineCall =
    Evaluate OpportunityIntent RiskEvaluationContext
  | EvaluateView RiskInputView "nat option" bool
  | EvaluateDecision OpportunityIntent OrderDecisionLite RiskInputView "nat option" bool
  | ReleaseReservation u64
  | ExpireOld u64
  | SetRuntimeContext RiskRuntimeContext

fun engine_call :: "RiskEngine \<Rightarrow> EngineCall \<Rightarrow> RiskPipelineResult option \<times> RiskEngine" where
  "engine_call e (Evaluate intent ctx) = (case engine_evaluate e intent ctx of (r, e', _) \<Rightarrow> (Some r, e'))"
| "engine_call e (EvaluateView input pub full) =
     (case engine_evaluate_view e input pub full of (r, e', _) \<Rightarrow> (Some r, e'))"
| "engine_call e (EvaluateDecision intent d input pub full) =
     (case evaluate_decision e intent d input pub full of (r, e', _) \<Rightarrow> (Some r, e'))"
| "engine_call e (ReleaseReservation i) = (None, engine_release_reservation e i)"
| "engine_call e (ExpireOld now) = (None, engine_expire_old e now)"
| "engine_call e (SetRuntimeContext runtime) = (None, set_runtime_context e runtime)"

fun engine_run :: "RiskEngine \<Rightarrow> EngineCall list \<Rightarrow> RiskPipelineResult list \<times> RiskEngine" where
  "engine_run e [] = ([], e)"
| "engine_run e (c # cs) =
     (case engine_call e c of (r, e') \<Rightarrow> map_prod ((@) (case r of Some x \<Rightarrow> [x] | None \<Rightarrow> [])) id (engine_run e' cs))"

definition approvals :: "RiskPipelineResult list \<Rightarrow> OpportunityIntent list" where
  "approvals rs = map ai_intent (List.map_filter pr_approved_intent rs)"

lemma approvals_simps [simp]:
  "approvals [] = []"
  "approvals (r # rs) = (case pr_approved_intent r of Some a \<Rightarrow> ai_intent a # approvals rs | None \<Rightarrow> approvals rs)"
  by (simp_all add: approvals_def map_filter_simps split: option.split)

lemma engine_call_sound:
  assumes "engine_call e c = (r, e')"
  shows "case r of Some x \<Rightarrow> sound_outcome e x e' | None \<Rightarrow> engine_seen e' = engine_seen e"
  using assms
  by (cases c) (auto simp: engine_release_reservation_def engine_expire_old_def set_runtime_context_def
      dest: engine_evaluate_sound engine_evaluate_view_sound evaluate_decision_sound split: prod.splits)

lemma engine_run_seen:
  "engine_run e cs = (rs, e') \<Longrightarrow>
   distinct (map idempotency (approvals rs)) \<and> engine_seen e \<subseteq> engine_seen e' \<and>
   idempotency ` set (approvals rs) \<inter> engine_seen e = {} \<and>
   (\<forall>x \<in> set rs. approved (pr_decision x) \<longleftrightarrow> pr_approved_intent x \<noteq> None)"
proof (induction cs arbitrary: e rs)
  case (Cons c cs)
  obtain r e1 where call: "engine_call e c = (r, e1)" by fastforce
  obtain rs1 where run: "engine_run e1 cs = (rs1, e')"
    and rs: "rs = (case r of Some x \<Rightarrow> [x] | None \<Rightarrow> []) @ rs1"
    using Cons.prems call by (cases "engine_run e1 cs") auto
  from Cons.IH [OF run] engine_call_sound [OF call] show ?case
    unfolding rs sound_outcome_def by (auto split: option.splits)
qed simp

text \<open>
  Two intents agree on their idempotency when an equal key comes with an equal hash, as when the key is the
  hash written out.
\<close>

definition keys_name_hashes :: "OpportunityIntent list \<Rightarrow> bool" where
  "keys_name_hashes intents \<longleftrightarrow>
     (\<forall>i \<in> set intents. \<forall>j \<in> set intents. oi_idempotency_key i = oi_idempotency_key j \<and> oi_idempotency_key i \<noteq> [] \<longrightarrow>
        oi_idempotency_hash i = oi_idempotency_hash j)"

lemma approved_keys_distinct:
  "distinct (map idempotency intents) \<Longrightarrow> keys_name_hashes intents \<Longrightarrow>
   distinct (filter (\<lambda>key. key \<noteq> []) (map oi_idempotency_key intents))"
proof (induction intents)
  case (Cons i intents)
  have fresh: "oi_idempotency_key j \<noteq> oi_idempotency_key i" if "j \<in> set intents" "oi_idempotency_key i \<noteq> []" for j
  proof
    assume key: "oi_idempotency_key j = oi_idempotency_key i"
    have "oi_idempotency_hash j = oi_idempotency_hash i"
      by (rule Cons.prems(2) [unfolded keys_name_hashes_def, rule_format]) (use that key in simp_all)
    then have "idempotency j = idempotency i"
      using key by (simp only: idempotency_def)
    moreover have "idempotency i \<notin> idempotency ` set intents"
      using Cons.prems(1) by (simp only: list.map distinct.simps set_map simp_thms)
    ultimately show False
      using that(1) by (metis image_eqI)
  qed
  have "keys_name_hashes intents"
    using Cons.prems(2) unfolding keys_name_hashes_def by (meson list.set_intros(2))
  then have rest: "distinct (filter (\<lambda>key. key \<noteq> []) (map oi_idempotency_key intents))"
    using Cons.IH Cons.prems(1) by (simp only: list.map distinct.simps simp_thms)
  show ?case
  proof (cases "oi_idempotency_key i = []")
    case False
    then have "oi_idempotency_key i \<notin> oi_idempotency_key ` set intents"
      using fresh by (metis imageE)
    then show ?thesis
      using rest by simp
  qed (use rest in simp)
qed simp

text \<open>The guard compares keys only where there is no hash: one key under two hashes passes twice.\<close>

lemma duplicate_guard_ignores_key:
  assumes "oi_idempotency_hash i \<noteq> 0" "oi_idempotency_hash j \<noteq> 0" "oi_idempotency_hash i \<noteq> oi_idempotency_hash j"
  shows "gr_pass (fst (duplicate_check duplicate_clear i)) \<and>
    gr_pass (fst (duplicate_check (snd (duplicate_check duplicate_clear i)) j))"
  using assms by (simp add: duplicate_check_def duplicate_clear_def Let_def)

text \<open>
  C5: Nothing is approved twice: over any sequence of evaluations (of intents, of input views, of order
  decisions), releases, expiries and changes of the runtime context on a new engine, no two approved intents
  have the same idempotency hash or, where the hash is zero, the same idempotency key; no key is approved twice
  if among the approved intents equal keys come with equal hashes, as for the keys the signal engine makes from
  the hash; and a decision is approved exactly when it comes with an approved intent.
\<close>

theorem approved_at_most_once:
  assumes "engine_run (make_risk_engine runtime) calls = (results, e)"
  shows "distinct (map idempotency (approvals results)) \<and>
    (keys_name_hashes (approvals results) \<longrightarrow>
       distinct (filter (\<lambda>key. key \<noteq> []) (map oi_idempotency_key (approvals results)))) \<and>
    (\<forall>r \<in> set results. approved (pr_decision r) \<longleftrightarrow> pr_approved_intent r \<noteq> None)"
  using engine_run_seen [OF assms] approved_keys_distinct by blast

text \<open>A run with two approvals asked for the same intent.\<close>

definition sample_calls :: "EngineCall list" where
  "sample_calls = [EvaluateView sample_input None False, ReleaseReservation 1,
     EvaluateView (sample_input\<lparr>iv_now_ns := 300\<rparr>) None False]"

theorem approved_at_most_once_witness:
  "distinct (map idempotency (approvals (fst (engine_run (make_risk_engine default_runtime) sample_calls))))"
  using approved_at_most_once [of default_runtime sample_calls
      "fst (engine_run (make_risk_engine default_runtime) sample_calls)"
      "snd (engine_run (make_risk_engine default_runtime) sample_calls)"]
  by simp

subsection \<open>Order decisions and workflows\<close>

lemma decision_fault_None:
  "decision_fault intent d input policy = None \<longleftrightarrow>
     ol_type d = PaperOrderDecision \<and> 0 < ol_chosen_bundle_qty d \<and> 0 < ol_estimated_total_cost_tick d \<and>
     0 < ol_leg_count d \<and> ol_leg_count d \<le> kMaxOrderDecisionLegs \<and> iv_now_ns input < ol_expires_at_ns d \<and>
     ol_source_intent_id d = oi_intent_id intent \<and> ol_bundle_id d = oi_bundle_id intent \<and>
     ol_snapshot_version_hash d = oi_snapshot_version_hash intent \<and>
     compute_order_decision_hash d = ol_decision_hash d \<and> ol_policy_hash d = policy_hash_for policy \<and>
     (0 < rp_max_total_cost_tick policy \<longrightarrow> ol_estimated_total_cost_tick d \<le> rp_max_total_cost_tick policy) \<and>
     passes_edge_thresholds (ol_unit_edge_tick d) (ol_total_edge_tick d) (ol_edge_bps d) policy"
  by (auto simp: decision_fault_def)

lemma run_pipeline_outcome:
  assumes "run_pipeline e view pub full = (r, e', out)"
  shows "(\<exists>intent policy i full. iv_intent view = Some intent \<and> iv_policy view = Some policy \<and>
      is_approval full view intent policy i r) \<or> rejected_at False r"
proof -
  from assms obtain st' book' out' full' has where
    "pipeline_evaluate_view (en_pipeline e) view (Some (reservation_book e)) has full' = (r, st', book', out')"
    by (rule run_pipeline_cases)
  then show ?thesis by (cases rule: pipeline_cases) (auto simp: rejected_at_def)
qed

lemma engine_evaluate_view_approved:
  assumes "engine_evaluate_view e input pub full = (r, e', out)" "approved (pr_decision r)"
    and "iv_intent input = Some intent" "iv_policy input = Some policy"
  obtains a where "pr_approved_intent r = Some a" "ai_intent a = intent" "ai_decision a = pr_decision r"
    "ai_expires_at_ns a = oi_expires_at_ns intent" "rd_policy_hash (pr_decision r) = policy_hash_for policy"
proof -
  from assms(1) [unfolded engine_evaluate_view_def Let_def, THEN run_pipeline_outcome] that assms(2-4)
  show ?thesis
    by (auto simp: rejected_at_def is_approval_def approval_decision_def attach_decision_evidence_def
        make_approved_decision_def)
qed

text \<open>
  C15: An approved order decision is the one that was sealed: the engine approves a decision
  only if it is a paper decision of positive quantity and cost with 1 to 16 legs, unexpired,
  made for this intent, bundle and snapshot, carries its own hash and the hash of the policy in
  force, and respects the policy's cost limit and edge thresholds; the approved intent then has
  the decision's quantity, cost, payout and expiry, and the risk decision the same policy hash.
\<close>

theorem approved_decision_is_sealed:
  assumes "evaluate_decision e intent d input pub full = (r, e', out)" "approved (pr_decision r)"
  shows "\<exists>policy a.
    (if iv_policy input \<noteq> None then iv_policy input else rt_policy (en_runtime e)) = Some policy \<and>
    pr_approved_intent r = Some a \<and>
    ol_type d = PaperOrderDecision \<and> 0 < ol_chosen_bundle_qty d \<and> 0 < ol_estimated_total_cost_tick d \<and>
    0 < ol_leg_count d \<and> ol_leg_count d \<le> 16 \<and> iv_now_ns input < ol_expires_at_ns d \<and>
    ol_source_intent_id d = oi_intent_id intent \<and> ol_bundle_id d = oi_bundle_id intent \<and>
    ol_snapshot_version_hash d = oi_snapshot_version_hash intent \<and>
    compute_order_decision_hash d = ol_decision_hash d \<and> ol_policy_hash d = policy_hash_for policy \<and>
    (0 < rp_max_total_cost_tick policy \<longrightarrow> ol_estimated_total_cost_tick d \<le> rp_max_total_cost_tick policy) \<and>
    passes_edge_thresholds (ol_unit_edge_tick d) (ol_total_edge_tick d) (ol_edge_bps d) policy \<and>
    oi_bundle_qty (ai_intent a) = ol_chosen_bundle_qty d \<and>
    oi_estimated_cost_tick (ai_intent a) = ol_estimated_total_cost_tick d \<and>
    oi_guaranteed_payout_tick (ai_intent a) = ol_guaranteed_payout_tick d \<and>
    ai_expires_at_ns a = ol_expires_at_ns d \<and>
    rd_policy_hash (pr_decision r) = ol_policy_hash d"
proof -
  have no_reject: "\<not> approved (pr_decision (reject_decision reason d input detail))" for reason detail
    by (simp add: reject_decision_def Let_def approved_def make_rejected_decision_def split: option.split)
  obtain policy where
    policy: "(if iv_policy input \<noteq> None then iv_policy input else rt_policy (en_runtime e)) = Some policy"
    and ok: "decision_fault intent d input policy = None"
    and run: "engine_evaluate_view e (input\<lparr>iv_policy := Some policy,
        iv_intent := Some (intent_from_decision intent d policy)\<rparr>) pub full = (r, e', out)"
    using assms no_reject unfolding evaluate_decision_def by (auto split: option.splits)
  from run assms(2) obtain a where "pr_approved_intent r = Some a"
    "ai_intent a = intent_from_decision intent d policy"
    "ai_expires_at_ns a = oi_expires_at_ns (intent_from_decision intent d policy)"
    "rd_policy_hash (pr_decision r) = policy_hash_for policy"
    by (rule engine_evaluate_view_approved [where intent = "intent_from_decision intent d policy" and policy = policy])
      simp_all
  with policy ok [unfolded decision_fault_None kMaxOrderDecisionLegs_def] show ?thesis
    by (intro exI [of _ policy] exI [of _ a]) (simp add: intent_from_decision_def)
qed

text \<open>An engine that has not been used, and a sealed decision it approves.\<close>

lemma fresh_engine:
  "with_book (make_risk_engine default_runtime) empty_book = make_risk_engine default_runtime"
  "reservation_book (make_risk_engine default_runtime) = empty_book"
  "rt_ledger (en_runtime (make_risk_engine default_runtime)) = None"
  "rt_publisher (en_runtime (make_risk_engine default_runtime)) = None"
  "en_pipeline (make_risk_engine default_runtime) = make_risk_pipeline"
  "rt_enable_full_audit_trace (en_runtime (make_risk_engine default_runtime)) = False"
  "expire_old empty_book now = empty_book"
  by (simp_all add: make_risk_engine_def default_runtime_def with_book_def reservation_book_def
      expire_old_def empty_book_def)

definition sealed_policy :: RiskPolicySnapshot where
  "sealed_policy = drift_policy\<lparr>rp_policy_hash := 5\<rparr>"

definition unsealed_decision :: OrderDecisionLite where
  "unsealed_decision =
     \<lparr>ol_decision_id = 1, ol_source_intent_id = 3, ol_bundle_id = 9, ol_type = PaperOrderDecision,
      ol_chosen_bundle_qty = 8, ol_guaranteed_payout_tick = 160, ol_estimated_total_cost_tick = 110,
      ol_estimated_fee_tick = 1, ol_latency_buffer_tick = 1, ol_slippage_buffer_tick = 0,
      ol_unit_edge_tick = 6, ol_total_edge_tick = 48, ol_edge_bps = 4000, ol_leg_count = 1,
      ol_legs = [\<lparr>ll_market_index = 1, ll_asset_index = 1, ll_side = Buy, ll_quantity_lots = 8,
        ll_estimated_vwap_tick = 14, ll_limit_price_tick = 20, ll_worst_price_tick = 20,
        ll_estimated_cost_tick = 110\<rparr>],
      ol_snapshot_version_hash = 14, ol_oracle_artifact_hash = 11, ol_bundle_hash = 13,
      ol_policy_hash = 5, ol_created_ts_ns = 100, ol_expires_at_ns = 900, ol_decision_hash = 0\<rparr>"

definition sealed_decision :: OrderDecisionLite where
  "sealed_decision = unsealed_decision\<lparr>ol_decision_hash := compute_order_decision_hash unsealed_decision\<rparr>"

definition decision_intent :: OpportunityIntent where
  "decision_intent = intent_from_decision losing_intent sealed_decision sealed_policy"

definition decision_input :: RiskInputView where
  "decision_input = (sample_input\<lparr>iv_policy := Some sealed_policy\<rparr>)\<lparr>iv_intent := Some decision_intent\<rparr>"

lemma guards_pass_intent_field [simp]:
  "guards_pass st (input\<lparr>iv_intent := x\<rparr>) intent policy reserved = guards_pass st input intent policy reserved"
  by (simp add: guards_pass_def entry_stages_def leg_stages_def revalidated_cost_def input_views_def
      input_snapshots_def cong: option.case_cong)

lemma decision_guards_pass:
  "guards_pass make_risk_pipeline decision_input decision_intent sealed_policy (book_snapshot empty_book)"
proof -
  let ?input = "sample_input\<lparr>iv_policy := Some sealed_policy\<rparr>"
  have "all_pass (entry_stages ?input decision_intent sealed_policy)"
    "gr_pass (fst (duplicate_check (ps_duplicate_guard make_risk_pipeline) decision_intent))"
    "gr_pass (fst (rate_limit_check (set_max_per_second (ps_rate_limit_guard make_risk_pipeline)
       (rp_max_approvals_per_second sealed_policy)) (iv_now_ns ?input)))"
    "\<forall>leg \<in> set (intent_legs decision_intent). all_pass (leg_stages ?input decision_intent sealed_policy leg)"
    "all_pass (cost_stages (book_snapshot empty_book) decision_intent sealed_policy
       (revalidated_cost ?input decision_intent sealed_policy))"
    by code_simp+
  then have "guards_pass make_risk_pipeline ?input decision_intent sealed_policy (book_snapshot empty_book)"
    by (simp only: guards_pass_def simp_thms)
  then show ?thesis by (simp only: decision_input_def guards_pass_intent_field)
qed

lemma sealed_decision_faultless:
  assumes "iv_now_ns input = 200"
  shows "decision_fault losing_intent sealed_decision input sealed_policy = None"
proof -
  have hash: "compute_order_decision_hash sealed_decision = ol_decision_hash sealed_decision"
    by (simp add: sealed_decision_def compute_order_decision_hash_def lite_legs_def)
  have "ol_decision_hash sealed_decision = compute_order_decision_hash sealed_decision" by (simp only: hash)
  then show ?thesis
    unfolding decision_fault_None hash assms
    by (simp add: sealed_decision_def unsealed_decision_def losing_intent_def two_bundles_def sample_intent_def
        kMaxOrderDecisionLegs_def policy_hash_for_def sealed_policy_def drift_policy_def
        default_policy_def passes_edge_thresholds_def)
qed

lemma decision_evaluation:
  obtains r e' out where
    "evaluate_decision (make_risk_engine default_runtime) losing_intent sealed_decision
       (sample_input\<lparr>iv_policy := Some sealed_policy\<rparr>) None False = (r, e', out)"
    "approved (pr_decision r)"
proof -
  have adm: "admissible decision_intent (approval_decision decision_intent sealed_policy) (iv_now_ns decision_input)"
    by (simp add: admissible_def reservation_key_for_def decision_intent_def intent_from_decision_def
        losing_intent_def two_bundles_def sample_intent_def decision_input_def sample_input_def
        approval_decision_def attach_decision_evidence_def approved_def make_approved_decision_def
        sealed_decision_def unsealed_decision_def)
  have key: "active_reservation_keys empty_book (reservation_key_for decision_intent) = None"
    by (simp add: empty_book_def)
  obtain r st' out where run: "pipeline_evaluate_view make_risk_pipeline decision_input (Some empty_book) False False =
     (r, st', Some (fst (try_reserve empty_book decision_intent (approval_decision decision_intent sealed_policy)
       (iv_now_ns decision_input) (should_track_reservation_ledger_detail sealed_policy))), out)"
    and ok: "approved (pr_decision r)"
    by (rule guards_pass_approves [OF _ _ _ _ decision_guards_pass adm key])
       (simp_all add: decision_input_def sample_input_def well_formed_input_def)
  let ?e = "make_risk_engine default_runtime" and ?input = "sample_input\<lparr>iv_policy := Some sealed_policy\<rparr>"
  have parts: "iv_ledger decision_input = Some (book_snapshot empty_book)" "iv_policy decision_input = Some sealed_policy"
    "decision_input\<lparr>iv_ledger := Some (book_snapshot empty_book), iv_policy := Some sealed_policy\<rparr> = decision_input"
    by (simp_all add: decision_input_def sample_input_def)
  have "iv_now_ns ?input = 200" by (simp add: sample_input_def)
  note faultless = sealed_decision_faultless [OF this]
  have view: "?input\<lparr>iv_policy := Some sealed_policy,
      iv_intent := Some (intent_from_decision losing_intent sealed_decision sealed_policy)\<rparr> = decision_input"
    by (simp add: decision_input_def decision_intent_def)
  have "evaluate_decision ?e losing_intent sealed_decision ?input None False =
      engine_evaluate_view ?e decision_input None False"
    unfolding evaluate_decision_def view [symmetric] by (simp add: faultless)
  also have "\<exists>e' out. \<dots> = (r, e', out)"
    by (simp add: engine_evaluate_view_def run_pipeline_def Let_def parts fresh_engine run)
  finally show ?thesis using that ok by blast
qed

theorem approved_decision_is_sealed_witness:
  "ol_type sealed_decision = PaperOrderDecision \<and>
   compute_order_decision_hash sealed_decision = ol_decision_hash sealed_decision"
  using decision_evaluation approved_decision_is_sealed by metis

lemma engine_evaluate_counted:
  assumes "engine_evaluate e intent ctx = (r, e', out)"
  shows "counted 1 (if approved (pr_decision r) then 1 else 0) (if approved (pr_decision r) then 0 else 1) r"
  using assms [unfolded engine_evaluate_def Let_def, THEN run_pipeline_outcome]
  by (auto simp: is_approval_def rejected_at_def)

lemma workflow_loop_counts:
  assumes "workflow_loop e intents ctx out = (out', e')"
  shows "\<exists>rs. length rs = length intents \<and> wr_evaluations out' = wr_evaluations out @ rs \<and>
    rs_intents_evaluated (wr_aggregate out') = rs_intents_evaluated (wr_aggregate out) + of_nat (length rs) \<and>
    rs_intents_approved (wr_aggregate out') = rs_intents_approved (wr_aggregate out) +
      of_nat (length (filter (\<lambda>r. approved (pr_decision r)) rs)) \<and>
    rs_intents_rejected (wr_aggregate out') = rs_intents_rejected (wr_aggregate out) +
      of_nat (length (filter (\<lambda>r. \<not> approved (pr_decision r)) rs))"
  using assms
proof (induction e intents ctx out rule: workflow_loop.induct)
  case (2 e intent intents ctx out)
  obtain r e1 pubs where call: "engine_evaluate e intent ctx = (r, e1, pubs)" by (metis prod_cases3)
  from "2.IH" [OF call [symmetric] refl] "2.prems" call obtain rs where
    "length rs = length intents \<and> wr_evaluations out' = wr_evaluations out @ [r] @ rs \<and>
     rs_intents_evaluated (wr_aggregate out') =
       rs_intents_evaluated (add_counts (wr_aggregate out) r) + of_nat (length rs) \<and>
     rs_intents_approved (wr_aggregate out') = rs_intents_approved (add_counts (wr_aggregate out) r) +
       of_nat (length (filter (\<lambda>r. approved (pr_decision r)) rs)) \<and>
     rs_intents_rejected (wr_aggregate out') = rs_intents_rejected (add_counts (wr_aggregate out) r) +
       of_nat (length (filter (\<lambda>r. \<not> approved (pr_decision r)) rs))" by auto
  then show ?case using engine_evaluate_counted [OF call]
    by (intro exI [of _ "r # rs"]) (simp add: add_counts_def counted_def Let_def)
qed simp

text \<open>
  A risk workflow answers every intent once, in order, and its aggregate agrees with the
  answers: the intents evaluated are all of them, the approved and the rejected counts are the
  numbers of approved and of rejected answers (as 64-bit numbers).
\<close>

theorem workflow_counts_exact:
  assumes "run_risk_workflow (Some e) intents ctx = (out, e')"
  shows "length (wr_evaluations out) = length intents \<and>
    rs_intents_evaluated (wr_aggregate out) = of_nat (length intents) \<and>
    rs_intents_approved (wr_aggregate out) =
      of_nat (length (filter (\<lambda>r. approved (pr_decision r)) (wr_evaluations out))) \<and>
    rs_intents_rejected (wr_aggregate out) =
      of_nat (length (filter (\<lambda>r. \<not> approved (pr_decision r)) (wr_evaluations out)))"
proof -
  obtain e1 where run: "workflow_loop e intents ctx \<lparr>wr_evaluations = [], wr_aggregate = zero_result\<rparr> = (out, e1)"
    using assms by (cases "workflow_loop e intents ctx \<lparr>wr_evaluations = [], wr_aggregate = zero_result\<rparr>")
      (simp add: run_risk_workflow_def Let_def)
  from workflow_loop_counts [OF run] show ?thesis by (auto simp: zero_result_def)
qed

definition risk_context :: RiskEvaluationContext where
  "risk_context = \<lparr>ec_now_ns = 200, ec_latest_snapshots = [], ec_latest_snapshot_version_hash = 0,
     ec_policy = drift_policy, ec_ledger_snapshot = book_snapshot empty_book,
     ec_enable_full_audit_trace = False, ec_decision_publisher = None\<rparr>"

theorem workflow_counts_exact_witness:
  "rs_intents_evaluated (wr_aggregate (fst (run_risk_workflow (Some (make_risk_engine default_runtime))
     [losing_intent, losing_intent] risk_context))) = 2"
  using workflow_counts_exact [OF prod.collapse [symmetric],
      of "make_risk_engine default_runtime" "[losing_intent, losing_intent]" risk_context]
  by simp

subsection \<open>Exposure after an approval\<close>

abbreviation reserved_exposure :: "ReservationBook \<Rightarrow> i64" where
  "reserved_exposure b \<equiv> el_total_reserved_exposure_tick (exposure (ledger b))"

lemma accepted_exposure:
  assumes "reserves input intent policy (Some b) (b', i)"
  shows "reserved_exposure b' = wrap_i64 (reserved_exposure b + max (oi_estimated_cost_tick intent) 0)"
  using assms try_reserve_accepted new_reservation_fields(6)
  by (fastforce simp: reserves_def ledger_reserve_def exposure_reserve_def)


text \<open>An approval that leaves more exposure reserved than the limit allows.\<close>

definition sample_snapshot :: MarketStateSnapshot where
  "sample_snapshot = \<lparr>ms_entity_id = ''a'', ms_market_id = ''m'', ms_version = 1, ms_last_book_update_ns = 90,
     ms_live = True, ms_recovering = False, ms_closed = False, ms_resolved = False, ms_crossed = False,
     ms_has_bid = False, ms_has_ask = True, ms_best_bid_tick = 0, ms_best_ask_tick = 10,
     ms_bid_count = 0, ms_ask_count = 2, ms_bids = [], ms_asks = sample_asks, ms_winning_asset_id = [],
     ms_snapshot_version_hash = 14, ms_state_hash = 14, ms_has_confirmed_trade = False,
     ms_last_trade_price_tick = 0, ms_last_trade_size_lots = 0, ms_last_taker_side = AS_Unknown,
     ms_confirmed_buy_lots_2s = 0, ms_confirmed_sell_lots_2s = 0, ms_confirmed_buy_lots_10s = 0,
     ms_confirmed_sell_lots_10s = 0, ms_quality = BQ_Good, ms_usable_for_depth = True,
     ms_usable_for_signal = True\<rparr>"

definition overestimated_intent :: OpportunityIntent where
  "overestimated_intent = losing_intent\<lparr>oi_estimated_cost_tick := 400\<rparr>"

definition exposure_context :: RiskEvaluationContext where
  "exposure_context = risk_context\<lparr>ec_latest_snapshots := [sample_snapshot],
     ec_policy := drift_policy\<lparr>rp_max_total_exposure_tick := 200\<rparr>\<rparr>"

definition exposure_view :: RiskInputView where
  "exposure_view = \<lparr>iv_intent = Some overestimated_intent, iv_snapshots = Some [sample_snapshot],
     iv_snapshot_count = 1, iv_depth_views = None, iv_depth_view_count = 0, iv_snapshot_version_hash = 0,
     iv_now_ns = 200, iv_policy = Some (drift_policy\<lparr>rp_max_total_exposure_tick := 200\<rparr>),
     iv_ledger = Some (book_snapshot empty_book)\<rparr>"

lemma exposure_view_eq:
  "view_of_context overestimated_intent exposure_context (book_snapshot empty_book) = exposure_view"
  by (simp add: view_of_context_def exposure_context_def risk_context_def exposure_view_def)

lemma exposure_guards_pass:
  "guards_pass make_risk_pipeline exposure_view overestimated_intent (ec_policy exposure_context)
     (book_snapshot empty_book)"
  "cr_risk_total_cost_tick (revalidated_cost exposure_view overestimated_intent (ec_policy exposure_context)) = 110"
proof -
  have "all_pass (entry_stages exposure_view overestimated_intent (ec_policy exposure_context))"
    "gr_pass (fst (duplicate_check (ps_duplicate_guard make_risk_pipeline) overestimated_intent))"
    "gr_pass (fst (rate_limit_check (set_max_per_second (ps_rate_limit_guard make_risk_pipeline)
       (rp_max_approvals_per_second (ec_policy exposure_context))) (iv_now_ns exposure_view)))"
    "\<forall>leg \<in> set (intent_legs overestimated_intent).
       all_pass (leg_stages exposure_view overestimated_intent (ec_policy exposure_context) leg)"
    "all_pass (cost_stages (book_snapshot empty_book) overestimated_intent (ec_policy exposure_context)
       (revalidated_cost exposure_view overestimated_intent (ec_policy exposure_context)))"
    by code_simp+
  then show "guards_pass make_risk_pipeline exposure_view overestimated_intent (ec_policy exposure_context)
     (book_snapshot empty_book)" by (simp only: guards_pass_def simp_thms)
qed code_simp

lemma exposure_evaluation:
  obtains r e' out where
    "engine_evaluate (make_risk_engine default_runtime) overestimated_intent exposure_context = (r, e', out)"
    "approved (pr_decision r)" "reserved_exposure (reservation_book e') = 400"
    "pr_cost r = revalidated_cost exposure_view overestimated_intent (ec_policy exposure_context)"
proof -
  let ?e = "make_risk_engine default_runtime" and ?p = "ec_policy exposure_context"
  have adm: "admissible overestimated_intent (approval_decision overestimated_intent ?p) (iv_now_ns exposure_view)"
    by (simp add: admissible_def reservation_key_for_def overestimated_intent_def losing_intent_def
        two_bundles_def sample_intent_def exposure_view_def approval_decision_def attach_decision_evidence_def
        approved_def make_approved_decision_def)
  have key: "active_reservation_keys empty_book (reservation_key_for overestimated_intent) = None"
    by (simp add: empty_book_def)
  obtain r st' out where run: "pipeline_evaluate_view make_risk_pipeline exposure_view (Some empty_book) False False =
     (r, st', Some (fst (try_reserve empty_book overestimated_intent (approval_decision overestimated_intent ?p)
       (iv_now_ns exposure_view) (should_track_reservation_ledger_detail ?p))), out)"
    and ok: "approved (pr_decision r)"
    by (rule guards_pass_approves [OF _ _ _ _ exposure_guards_pass(1) adm key])
       (simp_all add: exposure_view_def exposure_context_def well_formed_input_def)
  have cost: "pr_cost r = revalidated_cost exposure_view overestimated_intent ?p"
    using run
  proof (cases rule: pipeline_cases)
    case (approval intent policy reserved b b' i)
    then show ?thesis by (simp add: is_approval_def exposure_view_def exposure_context_def)
  next
    case rejection
    then show ?thesis using ok by (simp add: rejected_at_def)
  qed
  have ctx: "ec_decision_publisher exposure_context = None" "\<not> ec_enable_full_audit_trace exposure_context"
    by (simp_all add: exposure_context_def risk_context_def)
  have "\<exists>e' out. engine_evaluate ?e overestimated_intent exposure_context = (r, e', out) \<and>
      reservation_book e' = fst (try_reserve empty_book overestimated_intent
        (approval_decision overestimated_intent ?p) (iv_now_ns exposure_view)
        (should_track_reservation_ledger_detail ?p))"
    by (simp add: engine_evaluate_def run_pipeline_def Let_def fresh_engine ctx exposure_view_eq run)
  moreover have "reserved_exposure (fst (try_reserve empty_book overestimated_intent
        (approval_decision overestimated_intent ?p) (iv_now_ns exposure_view)
        (should_track_reservation_ledger_detail ?p))) = 400"
    by (simp add: try_reserve_accepts(4) [OF adm key] ledger_reserve_def exposure_reserve_def new_reservation_fields(6))
       (simp add: empty_book_def empty_ledger_def overestimated_intent_def wrap_i64_def)
  ultimately show ?thesis using that ok cost by metis
qed

lemma approval_above_exposure_limit:
  "\<exists>r e' out. engine_evaluate (make_risk_engine default_runtime) overestimated_intent exposure_context = (r, e', out) \<and>
     approved (pr_decision r) \<and>
     rp_max_total_exposure_tick (ec_policy exposure_context) < reserved_exposure (reservation_book e')"
proof -
  have "rp_max_total_exposure_tick (ec_policy exposure_context) = 200" by (simp add: exposure_context_def)
  then have "rp_max_total_exposure_tick (ec_policy exposure_context) < 400" by simp
  then show ?thesis using exposure_evaluation by metis
qed


end
