(* ===== verification/OrderLifecycle.thy ===== *)
theory OrderLifecycle
  imports Prelude
begin

section \<open>Order and plan lifecycles\<close>

text \<open>
  \<open>engine/execution/public/ExecutionTypes.h\<close> (the enums; an alias such as \<open>Rejected = Failed\<close>
  is the same constructor), \<open>engine/execution/state/OrderStateMachine.cpp\<close> and
  \<open>PlanStateMachine.cpp\<close>. Both machines answer a request for a next status by taking it or by
  staying. The interface \<open>lifecycle\<close> states what the gateway relies on; its lemmas (a final
  status is never left, the number of status changes of a run is bounded) hold for both
  machines by interpretation.
\<close>

subsection \<open>ExecutionTypes.h\<close>

datatype ExecutionMode = Paper | Sandbox | Live

datatype OrderSide = OrderBuy | OrderSell

datatype PaperExecutionMode = PaperAtomic | PaperSequential

datatype ChildOrderStatus =
    COS_Created | COS_Planned | COS_Sent | COS_Acked | COS_PartiallyFilled | COS_Filled
  | COS_CancelRequested | COS_Cancelled | COS_Failed | COS_Expired

datatype PlanStatus =
    PS_Created | PS_Planned | PS_Sent | PS_Acked | PS_PartiallyFilled | PS_HedgeRequired
  | PS_Filled | PS_CancelRequested | PS_Cancelled | PS_Failed | PS_Expired

subsection \<open>OrderStateMachine\<close>

definition order_is_terminal :: "ChildOrderStatus \<Rightarrow> bool" where
  "order_is_terminal status =
     (case status of
        COS_Filled \<Rightarrow> True | COS_Cancelled \<Rightarrow> True | COS_Failed \<Rightarrow> True | COS_Expired \<Rightarrow> True
      | COS_Created \<Rightarrow> False | COS_Planned \<Rightarrow> False | COS_Sent \<Rightarrow> False | COS_Acked \<Rightarrow> False
      | COS_PartiallyFilled \<Rightarrow> False | COS_CancelRequested \<Rightarrow> False)"

definition order_can_transition :: "ChildOrderStatus \<Rightarrow> ChildOrderStatus \<Rightarrow> bool" where
  "order_can_transition current nxt =
     (if current = nxt then True
      else if order_is_terminal current then False
      else if nxt = COS_Failed \<or> nxt = COS_Expired then True
      else
        (case current of
           COS_Created \<Rightarrow> nxt = COS_Planned
         | COS_Planned \<Rightarrow> nxt = COS_Sent
         | COS_Sent \<Rightarrow> nxt = COS_Acked
         | COS_Acked \<Rightarrow> nxt = COS_PartiallyFilled \<or> nxt = COS_Filled
         | COS_PartiallyFilled \<Rightarrow> nxt = COS_Filled \<or> nxt = COS_CancelRequested
         | COS_CancelRequested \<Rightarrow> nxt = COS_Cancelled
         | COS_Filled \<Rightarrow> False
         | COS_Cancelled \<Rightarrow> False
         | COS_Failed \<Rightarrow> False
         | COS_Expired \<Rightarrow> False))"

definition order_transition :: "ChildOrderStatus \<Rightarrow> ChildOrderStatus \<Rightarrow> ChildOrderStatus" where
  "order_transition current nxt = (if order_can_transition current nxt then nxt else current)"

subsection \<open>PlanStateMachine\<close>

definition plan_is_terminal :: "PlanStatus \<Rightarrow> bool" where
  "plan_is_terminal status =
     (case status of
        PS_Filled \<Rightarrow> True | PS_Cancelled \<Rightarrow> True | PS_Failed \<Rightarrow> True | PS_Expired \<Rightarrow> True
      | PS_Created \<Rightarrow> False | PS_Planned \<Rightarrow> False | PS_Sent \<Rightarrow> False | PS_Acked \<Rightarrow> False
      | PS_PartiallyFilled \<Rightarrow> False | PS_HedgeRequired \<Rightarrow> False | PS_CancelRequested \<Rightarrow> False)"

definition plan_can_transition :: "PlanStatus \<Rightarrow> PlanStatus \<Rightarrow> bool" where
  "plan_can_transition current nxt =
     (if current = nxt then True
      else if plan_is_terminal current then False
      else if nxt = PS_Failed \<or> nxt = PS_Expired then True
      else
        (case current of
           PS_Created \<Rightarrow> nxt = PS_Planned
         | PS_Planned \<Rightarrow> nxt = PS_Sent
         | PS_Sent \<Rightarrow> nxt = PS_Acked
         | PS_Acked \<Rightarrow> nxt = PS_PartiallyFilled \<or> nxt = PS_Filled
         | PS_PartiallyFilled \<Rightarrow> nxt = PS_HedgeRequired \<or> nxt = PS_CancelRequested
         | PS_CancelRequested \<Rightarrow> nxt = PS_Cancelled
         | PS_HedgeRequired \<Rightarrow> nxt = PS_CancelRequested
         | PS_Filled \<Rightarrow> False
         | PS_Cancelled \<Rightarrow> False
         | PS_Failed \<Rightarrow> False
         | PS_Expired \<Rightarrow> False))"

definition plan_transition :: "PlanStatus \<Rightarrow> PlanStatus \<Rightarrow> PlanStatus" where
  "plan_transition current nxt = (if plan_can_transition current nxt then nxt else current)"

text \<open>\<open>PlanStateMachine::apply\<close>: the plan follows the status of a child's report.\<close>

definition plan_apply :: "PlanStatus \<Rightarrow> ChildOrderStatus \<Rightarrow> PlanStatus" where
  "plan_apply current report_status =
     (case report_status of
        COS_Created \<Rightarrow> current
      | COS_Planned \<Rightarrow> plan_transition current PS_Planned
      | COS_Sent \<Rightarrow> plan_transition current PS_Sent
      | COS_Acked \<Rightarrow> plan_transition current PS_Acked
      | COS_PartiallyFilled \<Rightarrow> plan_transition current PS_PartiallyFilled
      | COS_Filled \<Rightarrow> plan_transition current PS_Filled
      | COS_CancelRequested \<Rightarrow> plan_transition current PS_CancelRequested
      | COS_Cancelled \<Rightarrow> plan_transition current PS_Cancelled
      | COS_Failed \<Rightarrow> plan_transition current PS_Failed
      | COS_Expired \<Rightarrow> plan_transition current PS_Expired)"

subsection \<open>The interface of a lifecycle\<close>

text \<open>How often the status changes along a run of requests.\<close>

fun status_changes :: "('s \<Rightarrow> 't \<Rightarrow> 's) \<Rightarrow> 's \<Rightarrow> 't list \<Rightarrow> nat" where
  "status_changes adv s [] = 0"
| "status_changes adv s (t # ts) =
     (if adv s t \<noteq> s then 1 else 0) + status_changes adv (adv s t) ts"

text \<open>
  A lifecycle takes an allowed request and ignores any other; final statuses allow nothing else,
  and every change climbs a rank, so a lifecycle never cycles.
\<close>

locale lifecycle =
  fixes is_final :: "'s \<Rightarrow> bool"
    and allowed :: "'s \<Rightarrow> 's \<Rightarrow> bool"
    and advance :: "'s \<Rightarrow> 's \<Rightarrow> 's"
    and rank :: "'s \<Rightarrow> nat"
    and top :: nat
  assumes advance_eq: "advance s t = (if allowed s t then t else s)"
    and final_stays: "is_final s \<Longrightarrow> allowed s t \<Longrightarrow> t = s"
    and allowed_climbs: "allowed s t \<Longrightarrow> t \<noteq> s \<Longrightarrow> rank s < rank t"
    and rank_le_top: "rank s \<le> top"
begin

lemma advance_final: "is_final s \<Longrightarrow> advance s t = s"
  using advance_eq final_stays by auto

lemma run_final: "is_final s \<Longrightarrow> foldl advance s ts = s"
  by (induction ts) (simp_all add: advance_final)

lemma rank_advance: "rank s \<le> rank (advance s t)"
  using allowed_climbs [of s t] by (cases "t = s") (auto simp: advance_eq)

lemma rank_run: "rank s \<le> rank (foldl advance s ts)"
proof (induction ts arbitrary: s)
  case (Cons t ts)
  from rank_advance [of s t] Cons.IH [of "advance s t"] show ?case by simp
qed simp

lemma changes_climb: "status_changes advance s ts + rank s \<le> rank (foldl advance s ts)"
proof (induction ts arbitrary: s)
  case (Cons t ts)
  have "rank s < rank (advance s t)" if "advance s t \<noteq> s"
    using that allowed_climbs [of s t] by (auto simp: advance_eq split: if_splits)
  with Cons.IH [of "advance s t"] show ?case by (cases "advance s t = s") auto
qed simp

lemma changes_bounded: "status_changes advance s ts \<le> top - rank s"
  using changes_climb [of s ts] rank_le_top [of "foldl advance s ts"] by linarith

end

fun order_rank :: "ChildOrderStatus \<Rightarrow> nat" where
  "order_rank COS_Created = 0"
| "order_rank COS_Planned = 1"
| "order_rank COS_Sent = 2"
| "order_rank COS_Acked = 3"
| "order_rank COS_PartiallyFilled = 4"
| "order_rank COS_CancelRequested = 5"
| "order_rank _ = 6"

fun plan_rank :: "PlanStatus \<Rightarrow> nat" where
  "plan_rank PS_Created = 0"
| "plan_rank PS_Planned = 1"
| "plan_rank PS_Sent = 2"
| "plan_rank PS_Acked = 3"
| "plan_rank PS_PartiallyFilled = 4"
| "plan_rank PS_HedgeRequired = 5"
| "plan_rank PS_CancelRequested = 6"
| "plan_rank _ = 7"

interpretation order: lifecycle order_is_terminal order_can_transition order_transition order_rank 6
proof unfold_locales
  show "order_transition s t = (if order_can_transition s t then t else s)" for s t
    by (simp add: order_transition_def)
  show "t = s" if "order_is_terminal s" "order_can_transition s t" for s t
    using that by (simp add: order_can_transition_def split: if_splits)
  show "order_rank s < order_rank t" if "order_can_transition s t" "t \<noteq> s" for s t
    using that by (cases s; cases t) (simp_all add: order_can_transition_def order_is_terminal_def)
  show "order_rank s \<le> 6" for s by (cases s) simp_all
qed

interpretation plan: lifecycle plan_is_terminal plan_can_transition plan_transition plan_rank 7
proof unfold_locales
  show "plan_transition s t = (if plan_can_transition s t then t else s)" for s t
    by (simp add: plan_transition_def)
  show "t = s" if "plan_is_terminal s" "plan_can_transition s t" for s t
    using that by (simp add: plan_can_transition_def split: if_splits)
  show "plan_rank s < plan_rank t" if "plan_can_transition s t" "t \<noteq> s" for s t
    using that by (cases s; cases t) (simp_all add: plan_can_transition_def plan_is_terminal_def)
  show "plan_rank s \<le> 7" for s by (cases s) simp_all
qed

subsection \<open>Properties of the lifecycles\<close>

text \<open>
  C29: Lifecycles settle: whatever statuses are requested, in whatever order, a child order
  changes its status at most six times from creation and a plan at most seven times, and once
  either is filled, cancelled, failed or expired it keeps that status for good.
\<close>

theorem lifecycles_settle:
  "status_changes order_transition COS_Created requests \<le> 6 \<and>
   status_changes plan_transition PS_Created plan_requests \<le> 7 \<and>
   (order_is_terminal s \<longrightarrow> foldl order_transition s requests = s) \<and>
   (plan_is_terminal p \<longrightarrow> foldl plan_transition p plan_requests = p)"
  using order.changes_bounded [of COS_Created requests] plan.changes_bounded [of PS_Created plan_requests]
    order.run_final plan.run_final by simp

theorem lifecycles_settle_witness:
  "foldl order_transition COS_Filled [COS_CancelRequested, COS_Cancelled] = COS_Filled"
  using lifecycles_settle [where s = COS_Filled and requests = "[COS_CancelRequested, COS_Cancelled]"
      and p = PS_Filled and plan_requests = "[]"]
  by (simp add: order_is_terminal_def)

lemma fills_after_ack:
  assumes "foldl order_transition COS_Created ts \<in>
    {COS_PartiallyFilled, COS_Filled, COS_CancelRequested, COS_Cancelled}"
  shows "\<exists>us vs. ts = us @ vs \<and> foldl order_transition COS_Created us = COS_Acked"
  using assms
proof (induction ts rule: rev_induct)
  case (snoc t ts)
  let ?s = "foldl order_transition COS_Created ts"
  have step: "order_transition ?s t \<in>
      {COS_PartiallyFilled, COS_Filled, COS_CancelRequested, COS_Cancelled}"
    using snoc.prems by simp
  show ?case
  proof (cases "?s = COS_Acked")
    case True
    then show ?thesis by blast
  next
    case False
    then have "?s \<in> {COS_PartiallyFilled, COS_Filled, COS_CancelRequested, COS_Cancelled}"
      using step by (cases ?s; cases t)
        (simp_all add: order_transition_def order_can_transition_def order_is_terminal_def)
    from snoc.IH [OF this] show ?thesis by (metis append.assoc)
  qed
qed simp

lemma cancelled_after_partial:
  assumes "foldl order_transition COS_Created ts \<in> {COS_CancelRequested, COS_Cancelled}"
  shows "\<exists>us vs. ts = us @ vs \<and> foldl order_transition COS_Created us = COS_PartiallyFilled"
  using assms
proof (induction ts rule: rev_induct)
  case (snoc t ts)
  let ?s = "foldl order_transition COS_Created ts"
  have step: "order_transition ?s t \<in> {COS_CancelRequested, COS_Cancelled}"
    using snoc.prems by simp
  show ?case
  proof (cases "?s = COS_PartiallyFilled")
    case True
    then show ?thesis by blast
  next
    case False
    then have "?s \<in> {COS_CancelRequested, COS_Cancelled}"
      using step by (cases ?s; cases t)
        (simp_all add: order_transition_def order_can_transition_def order_is_terminal_def)
    from snoc.IH [OF this] show ?thesis by (metis append.assoc)
  qed
qed simp

text \<open>
  No fill before the acknowledgement, no cancellation without a partial fill: a run of
  requests that leaves a new child order partially filled, filled, cancel-requested or
  cancelled has a prefix after which it was acknowledged; and one that leaves it
  cancel-requested or cancelled has a prefix after which it was partially filled.
\<close>

theorem order_run_milestones:
  "(foldl order_transition COS_Created ts \<in>
      {COS_PartiallyFilled, COS_Filled, COS_CancelRequested, COS_Cancelled} \<longrightarrow>
    (\<exists>us vs. ts = us @ vs \<and> foldl order_transition COS_Created us = COS_Acked)) \<and>
   (foldl order_transition COS_Created ts \<in> {COS_CancelRequested, COS_Cancelled} \<longrightarrow>
    (\<exists>us vs. ts = us @ vs \<and> foldl order_transition COS_Created us = COS_PartiallyFilled))"
  using fills_after_ack cancelled_after_partial by blast

theorem order_run_milestones_witness:
  "\<exists>us vs. [COS_Planned, COS_Sent, COS_Acked, COS_Filled] = us @ vs \<and>
     foldl order_transition COS_Created us = COS_Acked"
  using order_run_milestones [of "[COS_Planned, COS_Sent, COS_Acked, COS_Filled]"]
  by (simp add: order_transition_def order_can_transition_def order_is_terminal_def)

end
