(* ===== verification/FillTracking.thy ===== *)
theory FillTracking
  imports OrderLifecycle
begin

section \<open>Plans, reports, fill tracking and cancellation\<close>

text \<open>
  \<open>engine/execution/public\<close> (\<open>ChildOrder.h\<close>, \<open>OrderPlan.h\<close>, \<open>ExecutionReport.h\<close>,
  \<open>ExecutionConfig.h\<close>, the adapter results), \<open>engine/execution/state/FillTracker.cpp\<close>,
  \<open>PartialFillPolicy.cpp\<close> and \<open>engine/execution/cancel/CancelManager.cpp\<close>. The 16-entry
  arrays are lists beside their count. Unchecked 64-bit sums and products are
  \<^const>\<open>wrap_i64\<close> of the value. Lemmas: the tracker's state after any run of reports, the
  meaning of its flags, the policy's decision in those terms, and what a paper cancellation
  reports.
\<close>

subsection \<open>Plans and reports\<close>

definition kMaxChildOrdersPerPlan :: nat where
  "kMaxChildOrdersPerPlan = 16"

record ChildOrder =
  co_order_id :: u64
  co_plan_id :: u64
  co_client_order_id :: string
  co_market_id :: string
  co_asset_id :: string
  co_market_index :: u32
  co_asset_index :: u32
  co_side :: OrderSide
  co_quantity_lots :: i64
  co_limit_price_tick :: i64
  co_estimated_vwap_tick :: i64
  co_worst_allowed_price_tick :: i64
  co_status :: ChildOrderStatus

record OrderPlan =
  op_plan_id :: u64
  op_source_intent_id :: u64
  op_approved_intent_id :: u64
  op_reservation_id :: u64
  op_bundle_id :: u64
  op_status :: PlanStatus
  op_order_count :: nat
  op_orders :: "ChildOrder list"
  op_max_total_cost_tick :: i64
  op_min_expected_edge_tick :: i64
  op_max_slippage_tick :: i64
  op_chosen_bundle_qty :: i64
  op_guaranteed_payout_tick :: i64
  op_expected_terminal_pnl_tick :: i64
  op_created_ts_ns :: u64
  op_expire_after_ns :: u64
  op_idempotency_key :: string

definition plan_orders :: "OrderPlan \<Rightarrow> ChildOrder list" where
  "plan_orders plan = take (op_order_count plan) (op_orders plan)"

record ExecutionReport =
  xr_plan_id :: u64
  xr_child_order_id :: u64
  xr_status :: ChildOrderStatus
  xr_venue_order_id :: string
  xr_reject_reason :: string
  xr_filled_lots :: i64
  xr_remaining_lots :: i64
  xr_avg_fill_price_tick :: i64
  xr_event_ts_ns :: u64

definition default_report :: ExecutionReport where
  "default_report =
     \<lparr>xr_plan_id = 0, xr_child_order_id = 0, xr_status = COS_Created, xr_venue_order_id = [],
      xr_reject_reason = [], xr_filled_lots = 0, xr_remaining_lots = 0,
      xr_avg_fill_price_tick = 0, xr_event_ts_ns = 0\<rparr>"

record ExecutionConfig =
  xc_mode :: ExecutionMode
  xc_execution_enabled :: bool
  xc_live_enabled :: bool
  xc_paper_mode :: PaperExecutionMode
  xc_allow_partial_fill_paper :: bool
  xc_max_child_orders_per_plan :: nat
  xc_max_plans_per_second :: nat
  xc_max_order_age_ns :: i64
  xc_default_time_in_force_ns :: i64
  xc_hot_path_trust_order_decision_hash :: bool
  xc_hot_path_trust_approval_hash :: bool
  xc_hot_path_skip_plan_validation :: bool
  xc_hot_path_skip_order_strings :: bool
  xc_hot_path_numeric_plan_id :: bool

datatype AdapterResultCode = ARC_Ok | LiveExecutionDisabled | AdapterError | MissingAdapter

subsection \<open>FillTracker\<close>

record ChildFillState =
  cf_order_id :: u64
  cf_requested_qty_lots :: i64
  cf_filled_qty_lots :: i64
  cf_remaining_qty_lots :: i64
  cf_total_cost_tick :: i64
  cf_avg_fill_price_tick :: i64

record PlanFillState =
  pf_plan_id :: u64
  pf_children :: "ChildFillState list"
  pf_any_filled :: bool
  pf_all_filled :: bool
  pf_any_partial :: bool
  pf_total_cost_tick :: i64

record FillTrackerState =
  ft_filled_lots :: i64
  ft_avg_fill_price_tick :: i64

record FillTracker =
  tracker_state :: FillTrackerState
  tracker_plan_state :: PlanFillState

text \<open>The loop of \<open>refresh_plan_flags\<close>, one child at a time.\<close>

definition refresh_step :: "PlanFillState \<Rightarrow> ChildFillState \<Rightarrow> PlanFillState" where
  "refresh_step state child =
     state\<lparr>pf_any_filled := pf_any_filled state \<or> cf_filled_qty_lots child > 0,
           pf_all_filled := pf_all_filled state \<and> cf_requested_qty_lots child > 0 \<and>
             cf_filled_qty_lots child \<ge> cf_requested_qty_lots child,
           pf_any_partial := pf_any_partial state \<or>
             (cf_filled_qty_lots child > 0 \<and>
              cf_filled_qty_lots child < cf_requested_qty_lots child),
           pf_total_cost_tick := wrap_i64 (pf_total_cost_tick state + cf_total_cost_tick child)\<rparr>"

definition refresh_plan_flags :: "PlanFillState \<Rightarrow> PlanFillState" where
  "refresh_plan_flags state =
     foldl refresh_step
       (state\<lparr>pf_any_filled := False, pf_all_filled := length (pf_children state) > 0,
              pf_any_partial := False, pf_total_cost_tick := 0\<rparr>)
       (pf_children state)"

definition child_fill_start :: "ChildOrder \<Rightarrow> ChildFillState" where
  "child_fill_start order =
     \<lparr>cf_order_id = co_order_id order, cf_requested_qty_lots = co_quantity_lots order,
      cf_filled_qty_lots = 0, cf_remaining_qty_lots = co_quantity_lots order,
      cf_total_cost_tick = 0, cf_avg_fill_price_tick = 0\<rparr>"

definition tracker_reset :: "OrderPlan \<Rightarrow> FillTracker" where
  "tracker_reset plan =
     \<lparr>tracker_state = \<lparr>ft_filled_lots = 0, ft_avg_fill_price_tick = 0\<rparr>,
      tracker_plan_state = refresh_plan_flags
        \<lparr>pf_plan_id = op_plan_id plan,
         pf_children = map child_fill_start
           (take (min (op_order_count plan) kMaxChildOrdersPerPlan) (op_orders plan)),
         pf_any_filled = False, pf_all_filled = False, pf_any_partial = False,
         pf_total_cost_tick = 0\<rparr>\<rparr>"

text \<open>What \<open>apply\<close> does to the child the report is for.\<close>

definition child_apply :: "ExecutionReport \<Rightarrow> ChildFillState \<Rightarrow> ChildFillState" where
  "child_apply report child =
     (let fill_lots = max 0 (xr_filled_lots report);
          filled = min (cf_requested_qty_lots child)
                     (wrap_i64 (cf_filled_qty_lots child + fill_lots));
          rest = max 0 (wrap_i64 (cf_requested_qty_lots child - filled));
          remaining =
            (if xr_remaining_lots report > 0 \<or> filled \<ge> cf_requested_qty_lots child
             then min rest (max 0 (xr_remaining_lots report)) else rest);
          updated = child\<lparr>cf_filled_qty_lots := filled, cf_remaining_qty_lots := remaining\<rparr>
      in if fill_lots > 0 \<and> xr_avg_fill_price_tick report > 0
         then let cost = wrap_i64 (cf_total_cost_tick child +
                           wrap_i64 (fill_lots * xr_avg_fill_price_tick report))
              in updated\<lparr>cf_total_cost_tick := cost,
                         cf_avg_fill_price_tick :=
                           (if filled > 0 then cost sdiv filled
                            else cf_avg_fill_price_tick child)\<rparr>
         else updated)"

text \<open>The search for the child; \<open>None\<close> when no child has the report's order number.\<close>

fun apply_to_child ::
  "ExecutionReport \<Rightarrow> ChildFillState list \<Rightarrow> ChildFillState list option" where
  "apply_to_child report [] = None"
| "apply_to_child report (child # children) =
     (if cf_order_id child = xr_child_order_id report
      then Some (child_apply report child # children)
      else map_option ((#) child) (apply_to_child report children))"

definition tracker_apply :: "FillTracker \<Rightarrow> ExecutionReport \<Rightarrow> FillTracker" where
  "tracker_apply tracker report =
     (let fill_lots = max 0 (xr_filled_lots report);
          st = tracker_state tracker;
          st' = \<lparr>ft_filled_lots = wrap_i64 (ft_filled_lots st + fill_lots),
                 ft_avg_fill_price_tick =
                   (if xr_avg_fill_price_tick report > 0 then xr_avg_fill_price_tick report
                    else ft_avg_fill_price_tick st)\<rparr>
      in case apply_to_child report (pf_children (tracker_plan_state tracker)) of
           None \<Rightarrow> tracker\<lparr>tracker_state := st'\<rparr>
         | Some children \<Rightarrow>
             \<lparr>tracker_state = st',
              tracker_plan_state =
                refresh_plan_flags ((tracker_plan_state tracker)\<lparr>pf_children := children\<rparr>)\<rparr>)"

definition find_child :: "FillTracker \<Rightarrow> u64 \<Rightarrow> ChildFillState option" where
  "find_child tracker order_id =
     find (\<lambda>child. cf_order_id child = order_id) (pf_children (tracker_plan_state tracker))"

subsection \<open>PartialFillPolicy\<close>

datatype PartialFillAction =
    PFA_None | MarkPartiallyFilled | CancelRemaining | HedgeRequired | FailPlan

definition decide :: "PlanFillState \<Rightarrow> PartialFillAction" where
  "decide fill_state =
     (if \<not> pf_any_filled fill_state \<or> pf_all_filled fill_state then PFA_None
      else if length (pf_children fill_state) > 1 then HedgeRequired
      else if pf_any_partial fill_state then CancelRemaining
      else MarkPartiallyFilled)"

definition should_cancel_remaining :: "FillTrackerState \<Rightarrow> bool" where
  "should_cancel_remaining fill_state \<longleftrightarrow> ft_filled_lots fill_state > 0"

subsection \<open>CancelManager\<close>

record CancelWorkflowResult =
  cw_ok :: bool
  cw_plan_id :: u64
  cw_code :: AdapterResultCode
  cw_reports :: "ExecutionReport list"
  cw_error :: string

record AdapterCancelResult =
  ac_ok :: bool
  ac_plan_id :: u64
  ac_code :: AdapterResultCode
  ac_error :: string

definition terminal_status :: "ChildOrderStatus \<Rightarrow> bool" where
  "terminal_status status \<longleftrightarrow>
     status = COS_Filled \<or> status = COS_Cancelled \<or> status = COS_Failed \<or> status = COS_Expired"

definition open_remaining_lots :: "ChildOrder \<Rightarrow> PlanFillState \<Rightarrow> i64" where
  "open_remaining_lots order fill_state =
     (if terminal_status (co_status order) then 0
      else
        (case find (\<lambda>child. cf_order_id child = co_order_id order) (pf_children fill_state) of
           Some child \<Rightarrow> cf_remaining_qty_lots child
         | None \<Rightarrow> co_quantity_lots order))"

definition cancel_report ::
  "OrderPlan \<Rightarrow> ChildOrder \<Rightarrow> ChildOrderStatus \<Rightarrow> i64 \<Rightarrow> u64 \<Rightarrow> ExecutionReport" where
  "cancel_report plan order status remaining_lots now_ns =
     default_report\<lparr>xr_plan_id := op_plan_id plan, xr_child_order_id := co_order_id order,
       xr_status := status,
       xr_remaining_lots := (if status = COS_Cancelled then 0 else remaining_lots),
       xr_event_ts_ns := now_ns\<rparr>"

fun cancel_loop :: "OrderPlan \<Rightarrow> PlanFillState \<Rightarrow> u64 \<Rightarrow> ChildOrder list \<Rightarrow> ExecutionReport list" where
  "cancel_loop plan fill_state now_ns [] = []"
| "cancel_loop plan fill_state now_ns (order # orders) =
     (let remaining_lots = open_remaining_lots order fill_state in
      if remaining_lots \<le> 0 then cancel_loop plan fill_state now_ns orders
      else cancel_report plan order COS_CancelRequested remaining_lots now_ns #
           cancel_report plan order COS_Cancelled remaining_lots now_ns #
           cancel_loop plan fill_state now_ns orders)"

text \<open>
  The adapter's \<open>cancel_plan\<close> is an argument; \<open>None\<close> is the null pointer.
\<close>

definition cancel_open_orders ::
  "(u64 \<Rightarrow> AdapterCancelResult) option \<Rightarrow> OrderPlan \<Rightarrow> PlanFillState \<Rightarrow> ExecutionConfig \<Rightarrow> u64
     \<Rightarrow> CancelWorkflowResult" where
  "cancel_open_orders adapter plan fill_state config now_ns =
     (case xc_mode config of
        Live \<Rightarrow>
          if \<not> xc_execution_enabled config \<or> \<not> xc_live_enabled config
          then \<lparr>cw_ok = False, cw_plan_id = op_plan_id plan, cw_code = LiveExecutionDisabled,
                cw_reports = [], cw_error = ''live execution cancel is disabled''\<rparr>
          else
            (case adapter of
               None \<Rightarrow>
                 \<lparr>cw_ok = False, cw_plan_id = op_plan_id plan, cw_code = MissingAdapter,
                  cw_reports = [], cw_error = ''missing execution adapter''\<rparr>
             | Some cancel_plan \<Rightarrow>
                 (let cancel = cancel_plan (op_plan_id plan)
                  in \<lparr>cw_ok = ac_ok cancel, cw_plan_id = ac_plan_id cancel,
                      cw_code = ac_code cancel, cw_reports = [], cw_error = ac_error cancel\<rparr>))
      | Sandbox \<Rightarrow>
          \<lparr>cw_ok = False, cw_plan_id = op_plan_id plan, cw_code = AdapterError,
           cw_reports = [], cw_error = ''sandbox execution cancel is not wired''\<rparr>
      | Paper \<Rightarrow>
          \<lparr>cw_ok = True, cw_plan_id = op_plan_id plan, cw_code = ARC_Ok,
           cw_reports = cancel_loop plan fill_state now_ns (plan_orders plan),
           cw_error = []\<rparr>)"

definition cancel_child ::
  "(u64 \<Rightarrow> AdapterCancelResult) option \<Rightarrow> u64 \<Rightarrow> u64 \<Rightarrow> ExecutionReport" where
  "cancel_child adapter plan_id child_order_id =
     (case adapter of
        None \<Rightarrow>
          default_report\<lparr>xr_plan_id := plan_id, xr_child_order_id := child_order_id,
            xr_status := COS_Failed, xr_reject_reason := ''missing execution adapter''\<rparr>
      | Some cancel_plan \<Rightarrow>
          (let result = cancel_plan plan_id
           in default_report\<lparr>xr_plan_id := plan_id, xr_child_order_id := child_order_id,
                xr_status := (if ac_ok result then COS_Cancelled else COS_Failed),
                xr_reject_reason := ac_error result\<rparr>))"

subsection \<open>The flags describe the children\<close>

lemma refresh_fold:
  "foldl refresh_step st cs =
     st\<lparr>pf_any_filled := pf_any_filled st \<or> (\<exists>c \<in> set cs. cf_filled_qty_lots c > 0),
        pf_all_filled := pf_all_filled st \<and>
          (\<forall>c \<in> set cs. cf_requested_qty_lots c > 0 \<and> cf_filled_qty_lots c \<ge> cf_requested_qty_lots c),
        pf_any_partial := pf_any_partial st \<or>
          (\<exists>c \<in> set cs. cf_filled_qty_lots c > 0 \<and> cf_filled_qty_lots c < cf_requested_qty_lots c),
        pf_total_cost_tick := (if cs = [] then pf_total_cost_tick st
          else wrap_i64 (pf_total_cost_tick st + (\<Sum>c\<leftarrow>cs. cf_total_cost_tick c)))\<rparr>"
  by (induction cs arbitrary: st) (auto simp: refresh_step_def add.assoc)

lemma refresh_plan_flags_eq:
  "refresh_plan_flags st =
     st\<lparr>pf_any_filled := (\<exists>c \<in> set (pf_children st). cf_filled_qty_lots c > 0),
        pf_all_filled := pf_children st \<noteq> [] \<and>
          (\<forall>c \<in> set (pf_children st).
             cf_requested_qty_lots c > 0 \<and> cf_filled_qty_lots c \<ge> cf_requested_qty_lots c),
        pf_any_partial := (\<exists>c \<in> set (pf_children st).
             cf_filled_qty_lots c > 0 \<and> cf_filled_qty_lots c < cf_requested_qty_lots c),
        pf_total_cost_tick := wrap_i64 (\<Sum>c\<leftarrow>pf_children st. cf_total_cost_tick c)\<rparr>"
  by (simp add: refresh_plan_flags_def refresh_fold wrap_i64_id)

definition flags_fresh :: "FillTracker \<Rightarrow> bool" where
  "flags_fresh t \<longleftrightarrow> refresh_plan_flags (tracker_plan_state t) = tracker_plan_state t"

lemma flags_fresh_reset: "flags_fresh (tracker_reset plan)"
  by (simp add: flags_fresh_def tracker_reset_def refresh_plan_flags_eq)

lemma flags_fresh_apply: "flags_fresh t \<Longrightarrow> flags_fresh (tracker_apply t report)"
  by (auto simp: flags_fresh_def tracker_apply_def Let_def refresh_plan_flags_eq split: option.split)

lemma flags_fresh_run: "flags_fresh t \<Longrightarrow> flags_fresh (foldl tracker_apply t reports)"
  by (induction reports arbitrary: t) (simp_all add: flags_fresh_apply)

subsection \<open>One child along a run of reports\<close>

definition child_step :: "ChildFillState \<Rightarrow> ExecutionReport \<Rightarrow> ChildFillState" where
  "child_step child report =
     (if xr_child_order_id report = cf_order_id child then child_apply report child else child)"

lemma cf_order_id_apply [simp]:
  "cf_order_id (child_apply r c) = cf_order_id c"
  "cf_requested_qty_lots (child_apply r c) = cf_requested_qty_lots c"
  by (simp_all add: child_apply_def Let_def)

lemma cf_order_id_step [simp]:
  "cf_order_id (child_step c r) = cf_order_id c"
  "cf_requested_qty_lots (child_step c r) = cf_requested_qty_lots c"
  by (simp_all add: child_step_def)

lemma find_apply_to_child:
  "find (\<lambda>c. cf_order_id c = k) (case apply_to_child r cs of None \<Rightarrow> cs | Some cs' \<Rightarrow> cs') =
   map_option (\<lambda>c. child_step c r) (find (\<lambda>c. cf_order_id c = k) cs)"
proof (induction cs)
  case (Cons c cs)
  show ?case
  proof (cases "cf_order_id c = xr_child_order_id r")
    case True
    have "map_option (\<lambda>c. child_step c r) (find (\<lambda>c. cf_order_id c = k) cs) =
        find (\<lambda>c. cf_order_id c = k) cs" if "k \<noteq> xr_child_order_id r"
    proof (cases "find (\<lambda>c. cf_order_id c = k) cs")
      case (Some c')
      then have "cf_order_id c' = k" by (auto simp: find_Some_iff)
      with Some that show ?thesis by (simp add: child_step_def)
    qed simp
    with True show ?thesis by (auto simp: child_step_def)
  next
    case False
    with Cons.IH show ?thesis by (cases "apply_to_child r cs") (auto simp: child_step_def)
  qed
qed simp

lemma tracker_apply_children:
  "pf_children (tracker_plan_state (tracker_apply t r)) =
     (case apply_to_child r (pf_children (tracker_plan_state t)) of
        None \<Rightarrow> pf_children (tracker_plan_state t) | Some cs' \<Rightarrow> cs')"
  by (simp add: tracker_apply_def Let_def refresh_plan_flags_eq split: option.split)

lemma find_child_run:
  "find_child (foldl tracker_apply t reports) k =
     map_option (\<lambda>c. foldl child_step c reports) (find_child t k)"
proof (induction reports arbitrary: t)
  case Nil
  show ?case by (simp add: option.map_id [unfolded id_def])
next
  case (Cons r reports)
  have "find_child (tracker_apply t r) k = map_option (\<lambda>c. child_step c r) (find_child t k)"
    by (simp add: find_child_def tracker_apply_children find_apply_to_child)
  then show ?case by (simp add: Cons.IH option.map_comp comp_def)
qed

text \<open>The lots reported for an order, and the cost of the priced reports.\<close>

definition reported_lots :: "u64 \<Rightarrow> ExecutionReport list \<Rightarrow> int" where
  "reported_lots k reports =
     (\<Sum>r\<leftarrow>filter (\<lambda>r. xr_child_order_id r = k) reports. max 0 (xr_filled_lots r))"

lemma reported_lots_simps [simp]:
  "reported_lots k [] = 0"
  "reported_lots k (r # rs) =
     (if xr_child_order_id r = k then max 0 (xr_filled_lots r) else 0) + reported_lots k rs"
  by (simp_all add: reported_lots_def)

lemma reported_lots_nonneg [simp]: "0 \<le> reported_lots k reports"
  by (induction reports) simp_all

definition child_ok :: "ChildFillState \<Rightarrow> bool" where
  "child_ok c \<longleftrightarrow> 0 \<le> cf_filled_qty_lots c \<and> cf_filled_qty_lots c \<le> cf_requested_qty_lots c \<and>
     0 \<le> cf_remaining_qty_lots c \<and>
     cf_remaining_qty_lots c \<le> cf_requested_qty_lots c - cf_filled_qty_lots c \<and>
     (cf_filled_qty_lots c < cf_requested_qty_lots c \<longrightarrow> 0 < cf_remaining_qty_lots c)"

lemma child_apply_ok:
  assumes "child_ok c" "max 0 (xr_filled_lots r) + cf_requested_qty_lots c \<le> i64_max"
  shows "cf_filled_qty_lots (child_apply r c) =
      min (cf_requested_qty_lots c) (cf_filled_qty_lots c + max 0 (xr_filled_lots r))"
    and "child_ok (child_apply r c)"
proof -
  let ?f = "max 0 (xr_filled_lots r)"
  let ?filled = "min (cf_requested_qty_lots c) (cf_filled_qty_lots c + ?f)"
  have f: "wrap_i64 (cf_filled_qty_lots c + ?f) = cf_filled_qty_lots c + ?f"
    using assms by (intro wrap_i64_id) (simp add: in_i64_nonneg child_ok_def)
  show filled: "cf_filled_qty_lots (child_apply r c) = ?filled"
    by (simp add: child_apply_def Let_def f)
  have b: "0 \<le> ?filled" "?filled \<le> cf_requested_qty_lots c"
    using assms(1) by (simp_all add: child_ok_def)
  have d: "wrap_i64 (cf_requested_qty_lots c - ?filled) = cf_requested_qty_lots c - ?filled"
  proof (rule wrap_i64_id)
    have "0 \<le> max 0 (xr_filled_lots r)" by simp
    with assms(2) b have "cf_requested_qty_lots c - ?filled \<le> i64_max" by linarith
    with b show "in_i64 (cf_requested_qty_lots c - ?filled)" by (simp add: in_i64_nonneg)
  qed
  have "0 \<le> cf_remaining_qty_lots (child_apply r c) \<and>
      cf_remaining_qty_lots (child_apply r c) \<le> cf_requested_qty_lots c - ?filled \<and>
      (?filled < cf_requested_qty_lots c \<longrightarrow> 0 < cf_remaining_qty_lots (child_apply r c))"
    using b unfolding child_apply_def Let_def f d by auto
  then show "child_ok (child_apply r c)" using b by (simp add: child_ok_def filled)
qed

lemma child_run_ok:
  assumes "child_ok c"
    "\<forall>r \<in> set reports. max 0 (xr_filled_lots r) + cf_requested_qty_lots c \<le> i64_max"
  shows "cf_filled_qty_lots (foldl child_step c reports) =
      min (cf_requested_qty_lots c) (cf_filled_qty_lots c + reported_lots (cf_order_id c) reports) \<and>
    child_ok (foldl child_step c reports) \<and>
    cf_requested_qty_lots (foldl child_step c reports) = cf_requested_qty_lots c"
  using assms
proof (induction reports arbitrary: c)
  case Nil
  then show ?case by (simp add: child_ok_def)
next
  case (Cons r reports)
  have hyp: "\<forall>r \<in> set reports. max 0 (xr_filled_lots r) + cf_requested_qty_lots (child_step c r0) \<le> i64_max"
    for r0 using Cons.prems(2) by simp
  show ?case
  proof (cases "xr_child_order_id r = cf_order_id c")
    case True
    then have step: "child_step c r = child_apply r c" by (simp add: child_step_def)
    have b: "max 0 (xr_filled_lots r) + cf_requested_qty_lots c \<le> i64_max" using Cons.prems(2) by simp
    note ok = child_apply_ok [OF Cons.prems(1) b]
    have n: "0 \<le> reported_lots (cf_order_id c) reports" by simp
    have "min q (min q (x + y) + z) = min q (x + y + z)" if "0 \<le> z" for q x y z :: int
      using that by linarith
    with n Cons.IH [of "child_apply r c"] ok hyp [of r] step True show ?thesis
      by (simp add: add.assoc del: reported_lots_nonneg)
  next
    case False
    then have "child_step c r = c" by (simp add: child_step_def)
    with False Cons.IH [OF Cons.prems(1)] Cons.prems(2) show ?thesis by simp
  qed
qed

lemma child_start_ok: "0 \<le> co_quantity_lots ord \<Longrightarrow> child_ok (child_fill_start ord)"
  by (simp add: child_ok_def child_fill_start_def)

lemma child_fill_start_simps [simp]:
  "cf_order_id (child_fill_start ord) = co_order_id ord"
  "cf_requested_qty_lots (child_fill_start ord) = co_quantity_lots ord"
  "cf_filled_qty_lots (child_fill_start ord) = 0"
  by (simp_all add: child_fill_start_def)

lemma find_map_start:
  "find (\<lambda>c. cf_order_id c = k) (map child_fill_start ords) =
     map_option child_fill_start (find (\<lambda>ord. co_order_id ord = k) ords)"
  by (induction ords) simp_all

definition tracked_orders :: "OrderPlan \<Rightarrow> ChildOrder list" where
  "tracked_orders plan = take (min (op_order_count plan) kMaxChildOrdersPerPlan) (op_orders plan)"

lemma reset_children:
  "pf_children (tracker_plan_state (tracker_reset plan)) = map child_fill_start (tracked_orders plan)"
  by (simp add: tracker_reset_def refresh_plan_flags_eq tracked_orders_def)

text \<open>With distinct order numbers every child is stepped on its own.\<close>

lemma apply_to_child_absent:
  "xr_child_order_id r \<notin> cf_order_id ` set cs \<Longrightarrow> apply_to_child r cs = None \<and> map (\<lambda>c. child_step c r) cs = cs"
  by (induction cs) (auto simp: child_step_def)

lemma apply_to_child_map:
  "distinct (map cf_order_id cs) \<Longrightarrow>
   (case apply_to_child r cs of None \<Rightarrow> cs | Some cs' \<Rightarrow> cs') = map (\<lambda>c. child_step c r) cs"
proof (induction cs)
  case (Cons c cs)
  show ?case
  proof (cases "cf_order_id c = xr_child_order_id r")
    case True
    with Cons.prems have "xr_child_order_id r \<notin> cf_order_id ` set cs" by simp
    with True apply_to_child_absent show ?thesis by (simp add: child_step_def)
  next
    case False
    with Cons show ?thesis by (cases "apply_to_child r cs") (auto simp: child_step_def)
  qed
qed simp

lemma children_run:
  "distinct (map cf_order_id (pf_children (tracker_plan_state t))) \<Longrightarrow>
   pf_children (tracker_plan_state (foldl tracker_apply t reports)) =
     map (\<lambda>c. foldl child_step c reports) (pf_children (tracker_plan_state t))"
proof (induction reports arbitrary: t)
  case (Cons r reports)
  have step: "pf_children (tracker_plan_state (tracker_apply t r)) =
      map (\<lambda>c. child_step c r) (pf_children (tracker_plan_state t))"
    by (simp add: tracker_apply_children apply_to_child_map Cons.prems)
  have "distinct (map cf_order_id (pf_children (tracker_plan_state (tracker_apply t r))))"
    using Cons.prems by (simp add: step comp_def)
  from Cons.IH [OF this] show ?case by (simp add: step)
qed simp

text \<open>The flags after a run of reports, in terms of the plan and the reports.\<close>

lemma tracker_flags:
  assumes "distinct (map co_order_id (tracked_orders plan))"
    and "\<forall>ord \<in> set (tracked_orders plan). 0 < co_quantity_lots ord \<and>
       (\<forall>r \<in> set reports. max 0 (xr_filled_lots r) + co_quantity_lots ord \<le> i64_max)"
  shows "pf_any_filled (tracker_plan_state (foldl tracker_apply (tracker_reset plan) reports)) \<longleftrightarrow>
      (\<exists>ord \<in> set (tracked_orders plan). 0 < reported_lots (co_order_id ord) reports)"
    and "pf_all_filled (tracker_plan_state (foldl tracker_apply (tracker_reset plan) reports)) \<longleftrightarrow>
      tracked_orders plan \<noteq> [] \<and>
      (\<forall>ord \<in> set (tracked_orders plan). co_quantity_lots ord \<le> reported_lots (co_order_id ord) reports)"
    and "pf_any_partial (tracker_plan_state (foldl tracker_apply (tracker_reset plan) reports)) \<longleftrightarrow>
      (\<exists>ord \<in> set (tracked_orders plan). 0 < reported_lots (co_order_id ord) reports \<and>
         reported_lots (co_order_id ord) reports < co_quantity_lots ord)"
    and "length (pf_children (tracker_plan_state (foldl tracker_apply (tracker_reset plan) reports))) =
      length (tracked_orders plan)"
proof -
  let ?t = "foldl tracker_apply (tracker_reset plan) reports"
  let ?fin = "\<lambda>ord. foldl child_step (child_fill_start ord) reports"
  have children: "pf_children (tracker_plan_state ?t) = map ?fin (tracked_orders plan)"
    using assms(1) by (subst children_run) (simp_all add: reset_children comp_def)
  have each: "cf_filled_qty_lots (?fin ord) = min (co_quantity_lots ord) (reported_lots (co_order_id ord) reports)
      \<and> cf_requested_qty_lots (?fin ord) = co_quantity_lots ord"
    if "ord \<in> set (tracked_orders plan)" for ord
    using child_run_ok [of "child_fill_start ord" reports] child_start_ok [of ord] assms(2) that by fastforce
  have flags: "tracker_plan_state ?t = refresh_plan_flags (tracker_plan_state ?t)"
    using flags_fresh_run [OF flags_fresh_reset] by (simp add: flags_fresh_def)
  show "pf_any_filled (tracker_plan_state ?t) \<longleftrightarrow>
      (\<exists>ord \<in> set (tracked_orders plan). 0 < reported_lots (co_order_id ord) reports)"
    using each assms(2) by (subst flags) (auto simp: refresh_plan_flags_eq children)
  show "pf_all_filled (tracker_plan_state ?t) \<longleftrightarrow> tracked_orders plan \<noteq> [] \<and>
      (\<forall>ord \<in> set (tracked_orders plan). co_quantity_lots ord \<le> reported_lots (co_order_id ord) reports)"
    using each assms(2) by (subst flags) (auto simp: refresh_plan_flags_eq children)
  show "pf_any_partial (tracker_plan_state ?t) \<longleftrightarrow>
      (\<exists>ord \<in> set (tracked_orders plan). 0 < reported_lots (co_order_id ord) reports \<and>
         reported_lots (co_order_id ord) reports < co_quantity_lots ord)"
    using each assms(2) by (subst flags) (auto simp: refresh_plan_flags_eq children)
  show "length (pf_children (tracker_plan_state ?t)) = length (tracked_orders plan)"
    by (simp add: children)
qed

subsection \<open>Properties\<close>

definition sample_order :: "u64 \<Rightarrow> i64 \<Rightarrow> ChildOrder" where
  "sample_order k lots =
     \<lparr>co_order_id = k, co_plan_id = 7, co_client_order_id = ''c'', co_market_id = ''m'',
      co_asset_id = ''a'', co_market_index = 1, co_asset_index = 2, co_side = OrderBuy,
      co_quantity_lots = lots, co_limit_price_tick = 60, co_estimated_vwap_tick = 50,
      co_worst_allowed_price_tick = 60, co_status = COS_Acked\<rparr>"

definition sample_plan :: OrderPlan where
  "sample_plan =
     \<lparr>op_plan_id = 7, op_source_intent_id = 1, op_approved_intent_id = 1, op_reservation_id = 3,
      op_bundle_id = 4, op_status = PS_Created, op_order_count = 2,
      op_orders = [sample_order 11 10, sample_order 12 10],
      op_max_total_cost_tick = 2000, op_min_expected_edge_tick = 1, op_max_slippage_tick = 10,
      op_chosen_bundle_qty = 10, op_guaranteed_payout_tick = 1000,
      op_expected_terminal_pnl_tick = 5, op_created_ts_ns = 100, op_expire_after_ns = 1000,
      op_idempotency_key = ''k''\<rparr>"

definition fill_report :: "u64 \<Rightarrow> i64 \<Rightarrow> i64 \<Rightarrow> i64 \<Rightarrow> ExecutionReport" where
  "fill_report k lots left price =
     default_report\<lparr>xr_plan_id := 7, xr_child_order_id := k, xr_status := COS_PartiallyFilled,
       xr_filled_lots := lots, xr_remaining_lots := left, xr_avg_fill_price_tick := price\<rparr>"

lemmas sample_simps = sample_plan_def sample_order_def fill_report_def default_report_def
  tracked_orders_def kMaxChildOrdersPerPlan_def i64_bounds

text \<open>
  C27: The fill tracker reset for a plan and fed any sequence of execution reports, for any
  orders and in any interleaving, records for each tracked order the smaller of its quantity
  and the sum of the positive fills reported for it. Its remaining quantity is never negative
  and never more than what is left to fill. Quantities must be non-negative and one report's
  fill plus the order's quantity must fit in 64 bits.
\<close>
theorem tracked_fill:
  assumes "find (\<lambda>ord. co_order_id ord = k) (tracked_orders plan) = Some ord"
    and "0 \<le> co_quantity_lots ord"
    and "\<forall>r \<in> set reports. max 0 (xr_filled_lots r) + co_quantity_lots ord \<le> i64_max"
  shows "\<exists>c. find_child (foldl tracker_apply (tracker_reset plan) reports) k = Some c \<and>
    cf_filled_qty_lots c = min (co_quantity_lots ord) (reported_lots k reports) \<and>
    0 \<le> cf_remaining_qty_lots c \<and>
    cf_remaining_qty_lots c \<le> co_quantity_lots ord - cf_filled_qty_lots c"
proof -
  have k: "co_order_id ord = k" using assms(1) by (auto simp: find_Some_iff)
  have start: "find_child (tracker_reset plan) k = Some (child_fill_start ord)"
    by (simp add: find_child_def reset_children find_map_start assms(1))
  have "\<forall>r \<in> set reports.
      max 0 (xr_filled_lots r) + cf_requested_qty_lots (child_fill_start ord) \<le> i64_max"
    using assms(3) by simp
  from child_run_ok [OF child_start_ok [OF assms(2)] this] show ?thesis
    by (simp add: find_child_run start k child_ok_def)
qed

theorem tracked_fill_witness:
  "\<exists>c. find_child (foldl tracker_apply (tracker_reset sample_plan)
        [fill_report 12 4 6 50, fill_report 11 10 0 50, fill_report 12 3 3 52]) 12 = Some c \<and>
     cf_filled_qty_lots c = 7 \<and> 0 \<le> cf_remaining_qty_lots c \<and> cf_remaining_qty_lots c \<le> 3"
proof -
  have "\<exists>c. find_child (foldl tracker_apply (tracker_reset sample_plan)
        [fill_report 12 4 6 50, fill_report 11 10 0 50, fill_report 12 3 3 52]) 12 = Some c \<and>
      cf_filled_qty_lots c = min (co_quantity_lots (sample_order 12 10))
        (reported_lots 12 [fill_report 12 4 6 50, fill_report 11 10 0 50, fill_report 12 3 3 52]) \<and>
      0 \<le> cf_remaining_qty_lots c \<and>
      cf_remaining_qty_lots c \<le> co_quantity_lots (sample_order 12 10) - cf_filled_qty_lots c"
    by (rule tracked_fill) (simp_all add: sample_simps)
  moreover have "reported_lots 12 [fill_report 12 4 6 50, fill_report 11 10 0 50, fill_report 12 3 3 52] = 7"
    by (simp add: sample_simps)
  moreover have "co_quantity_lots (sample_order 12 10) = 10" by (simp add: sample_simps)
  ultimately show ?thesis by auto
qed

text \<open>
  The partial-fill policy, applied to the tracker's state after any sequence of reports,
  asks for a hedge exactly when the plan has more than one order, some order was reported
  filled in part or whole, and some order's reported fills do not reach its quantity: the plan
  is exposed on one leg and short on another. It asks for nothing exactly when nothing was
  filled or everything was.
\<close>
theorem hedge_required_iff_exposed:
  assumes "distinct (map co_order_id (tracked_orders plan))"
    and "\<forall>ord \<in> set (tracked_orders plan). 0 < co_quantity_lots ord \<and>
       (\<forall>r \<in> set reports. max 0 (xr_filled_lots r) + co_quantity_lots ord \<le> i64_max)"
  shows "(decide (tracker_plan_state (foldl tracker_apply (tracker_reset plan) reports)) = HedgeRequired \<longleftrightarrow>
      1 < length (tracked_orders plan) \<and>
      (\<exists>ord \<in> set (tracked_orders plan). 0 < reported_lots (co_order_id ord) reports) \<and>
      (\<exists>ord \<in> set (tracked_orders plan). reported_lots (co_order_id ord) reports < co_quantity_lots ord)) \<and>
    (decide (tracker_plan_state (foldl tracker_apply (tracker_reset plan) reports)) = PFA_None \<longleftrightarrow>
      (\<forall>ord \<in> set (tracked_orders plan). reported_lots (co_order_id ord) reports = 0) \<or>
      (\<forall>ord \<in> set (tracked_orders plan). co_quantity_lots ord \<le> reported_lots (co_order_id ord) reports))"
  using tracker_flags [OF assms] reported_lots_nonneg [of _ reports]
  unfolding decide_def by (auto simp: not_le order_less_le)

theorem hedge_required_iff_exposed_witness:
  "decide (tracker_plan_state (foldl tracker_apply (tracker_reset sample_plan)
     [fill_report 11 10 0 50])) = HedgeRequired"
  using hedge_required_iff_exposed [of sample_plan "[fill_report 11 10 0 50]"]
  by (simp add: sample_simps)

lemma cancel_loop_eq:
  "cancel_loop plan fs now_ns ords =
     concat (map (\<lambda>ord. map (\<lambda>status. cancel_report plan ord status (open_remaining_lots ord fs) now_ns)
                           [COS_CancelRequested, COS_Cancelled])
              (filter (\<lambda>ord. 0 < open_remaining_lots ord fs) ords))"
  by (induction ords) (simp_all add: Let_def)

lemma open_remaining_run:
  assumes "find (\<lambda>ord'. co_order_id ord' = co_order_id ord) (tracked_orders plan) = Some ord"
    and "0 \<le> co_quantity_lots ord"
    and "\<forall>r \<in> set reports. max 0 (xr_filled_lots r) + co_quantity_lots ord \<le> i64_max"
  shows "0 < open_remaining_lots ord (tracker_plan_state (foldl tracker_apply (tracker_reset plan) reports)) \<longleftrightarrow>
    \<not> terminal_status (co_status ord) \<and> reported_lots (co_order_id ord) reports < co_quantity_lots ord"
proof -
  let ?c = "foldl child_step (child_fill_start ord) reports"
  have "find_child (tracker_reset plan) (co_order_id ord) = Some (child_fill_start ord)"
    by (simp add: find_child_def reset_children find_map_start assms(1))
  then have found: "find (\<lambda>child. cf_order_id child = co_order_id ord)
      (pf_children (tracker_plan_state (foldl tracker_apply (tracker_reset plan) reports))) = Some ?c"
    using find_child_run [of "tracker_reset plan" reports "co_order_id ord"] by (simp add: find_child_def)
  have "\<forall>r \<in> set reports.
      max 0 (xr_filled_lots r) + cf_requested_qty_lots (child_fill_start ord) \<le> i64_max"
    using assms(3) by simp
  from child_run_ok [OF child_start_ok [OF assms(2)] this]
  have "0 < cf_remaining_qty_lots ?c \<longleftrightarrow> reported_lots (co_order_id ord) reports < co_quantity_lots ord"
    by (auto simp: child_ok_def)
  then show ?thesis by (simp add: open_remaining_lots_def found)
qed

lemma find_distinct_key:
  "distinct (map f xs) \<Longrightarrow> x \<in> set xs \<Longrightarrow> find (\<lambda>y. f y = f x) xs = Some x"
  by (induction xs) (auto simp: image_iff)

text \<open>
  Cancelling a plan in paper mode, after any sequence of reports was tracked, succeeds
  and reports exactly the orders that are still open: for every order, in plan order, whose
  status is not terminal and whose reported fills are below its quantity, one cancel request
  carrying the tracked remaining quantity followed by one cancellation with nothing remaining;
  and no report for any other order.
\<close>
theorem paper_cancel_reports_open_orders:
  assumes "xc_mode config = Paper"
    and "op_order_count plan \<le> kMaxChildOrdersPerPlan"
    and "distinct (map co_order_id (plan_orders plan))"
    and "\<forall>ord \<in> set (plan_orders plan). 0 \<le> co_quantity_lots ord \<and>
       (\<forall>r \<in> set reports. max 0 (xr_filled_lots r) + co_quantity_lots ord \<le> i64_max)"
    and "fs = tracker_plan_state (foldl tracker_apply (tracker_reset plan) reports)"
  shows "cancel_open_orders adapter plan fs config now_ns =
    \<lparr>cw_ok = True, cw_plan_id = op_plan_id plan, cw_code = ARC_Ok,
     cw_reports =
       concat (map (\<lambda>ord. [cancel_report plan ord COS_CancelRequested (open_remaining_lots ord fs) now_ns,
                            cancel_report plan ord COS_Cancelled 0 now_ns])
                (filter (\<lambda>ord. \<not> terminal_status (co_status ord) \<and>
                          reported_lots (co_order_id ord) reports < co_quantity_lots ord)
                  (plan_orders plan))),
     cw_error = []\<rparr>"
proof -
  have same: "tracked_orders plan = plan_orders plan"
    using assms(2) by (simp add: tracked_orders_def plan_orders_def min_absorb1)
  have "0 < open_remaining_lots ord fs \<longleftrightarrow> \<not> terminal_status (co_status ord) \<and>
      reported_lots (co_order_id ord) reports < co_quantity_lots ord"
    if "ord \<in> set (plan_orders plan)" for ord
    unfolding assms(5) using that assms(3,4)
    by (intro open_remaining_run) (auto simp: same find_distinct_key)
  then have "filter (\<lambda>ord. 0 < open_remaining_lots ord fs) (plan_orders plan) =
      filter (\<lambda>ord. \<not> terminal_status (co_status ord) \<and>
        reported_lots (co_order_id ord) reports < co_quantity_lots ord) (plan_orders plan)"
    by (rule filter_cong [OF refl])
  then show ?thesis
    by (simp add: cancel_open_orders_def assms(1) cancel_loop_eq cancel_report_def)
qed

definition sample_config :: ExecutionConfig where
  "sample_config =
     \<lparr>xc_mode = Paper, xc_execution_enabled = True, xc_live_enabled = False,
      xc_paper_mode = PaperAtomic, xc_allow_partial_fill_paper = False,
      xc_max_child_orders_per_plan = 16, xc_max_plans_per_second = 10,
      xc_max_order_age_ns = 1000, xc_default_time_in_force_ns = 500,
      xc_hot_path_trust_order_decision_hash = False, xc_hot_path_trust_approval_hash = False,
      xc_hot_path_skip_plan_validation = False, xc_hot_path_skip_order_strings = False,
      xc_hot_path_numeric_plan_id = False\<rparr>"

theorem paper_cancel_reports_open_orders_witness:
  "map xr_child_order_id (cw_reports (cancel_open_orders None sample_plan
     (tracker_plan_state (foldl tracker_apply (tracker_reset sample_plan) [fill_report 11 10 0 50]))
     sample_config 9)) = [12, 12]"
  by (subst paper_cancel_reports_open_orders [where reports = "[fill_report 11 10 0 50]"])
     (simp_all add: sample_simps sample_config_def plan_orders_def cancel_report_def terminal_status_def)

text \<open>
  A child filled beyond its quantity: the quantity is capped, the cost is not, and the average
  price is twice the price of the only fill.
\<close>

lemma over_report_inflates_average:
  "map_option cf_avg_fill_price_tick
     (find_child (tracker_apply (tracker_reset sample_plan) (fill_report 11 20 0 50)) 11) = Some 100"
  by (simp add: find_child_def tracker_apply_children reset_children child_apply_def child_fill_start_def
      sample_simps wrap_i64_id in_i64_def sdiv_nonneg)

end
