(* ===== verification/PaperExecution.thy ===== *)
theory PaperExecution
  imports FillTracking MarketView
begin

section \<open>Execution adapters\<close>

text \<open>
  \<open>engine/execution/adapter/PaperExecutionAdapter.cpp\<close> and \<open>SandboxExecutionAdapter.cpp\<close>
  behind \<open>IExecutionAdapter.h\<close>, with \<open>ExecutionContext.h\<close> and the adapter results of
  \<open>ExecutionResult.h\<close>. An adapter's state is the list of its pending
  reports; \<open>Rejected\<close> is the enumerations' alias of \<open>Failed\<close>. Lemmas: what a
  simulated buy takes from the book, that it never pays more than the limit, that the atomic
  mode is all-or-nothing, the accounting of the sequential mode, and that an order priced by
  the depth routines is filled at the priced average.
\<close>

record ExecutionContext =
  ec_now_ns :: u64
  ec_snapshots :: "MarketStateSnapshot list"
  ec_depth_views :: "MarketDepthView list option"
  ec_depth_view_count :: nat
  ec_config :: ExecutionConfig

record AdapterSubmitResult =
  as_ok :: bool
  as_plan_id :: u64
  as_status :: PlanStatus
  as_child_orders_submitted :: nat
  as_child_orders_rejected :: nat
  as_code :: AdapterResultCode
  as_error :: string

subsection \<open>Simulated fills\<close>

record FillSimulation =
  fs_snapshot_found :: bool
  fs_full :: bool
  fs_partial :: bool
  fs_filled_lots :: i64
  fs_remaining_lots :: i64
  fs_avg_fill_price_tick :: i64
  fs_reject_reason :: string

definition default_fill :: FillSimulation where
  "default_fill =
     \<lparr>fs_snapshot_found = False, fs_full = False, fs_partial = False, fs_filled_lots = 0,
      fs_remaining_lots = 0, fs_avg_fill_price_tick = 0, fs_reject_reason = []\<rparr>"

definition find_snapshot :: "MarketStateSnapshot list \<Rightarrow> string \<Rightarrow> MarketStateSnapshot option" where
  "find_snapshot snapshots asset_id = find (\<lambda>snapshot. ms_entity_id snapshot = asset_id) snapshots"

definition find_depth_view :: "ExecutionContext \<Rightarrow> u32 \<Rightarrow> MarketDepthView option" where
  "find_depth_view context asset_index =
     (case ec_depth_views context of
        None \<Rightarrow> None
      | Some views \<Rightarrow>
          find (\<lambda>view. dv_asset_index view = asset_index) (take (ec_depth_view_count context) views))"

text \<open>
  The cast of a floored double that does not fit into 64 bits, or is not a number, yields
  \<open>INT64_MIN\<close> on x86-64; the callers skip such a level.
\<close>

definition size_to_lots :: "dbl \<Rightarrow> i64" where
  "size_to_lots d =
     (case d of
        Fin s \<Rightarrow> if s \<le> 0 then 0 else if s \<ge> 9223372036854775808 then i64_min else \<lfloor>s\<rfloor>
      | NegInf \<Rightarrow> 0
      | PosInf \<Rightarrow> i64_min
      | NaN \<Rightarrow> i64_min)"

text \<open>The loop over the asks; the state is \<open>(remaining, filled, notional)\<close>.\<close>

fun fill_loop ::
  "i64 \<Rightarrow> PriceLevel list \<Rightarrow> i64 \<Rightarrow> i64 \<Rightarrow> i64 \<Rightarrow> i64 \<times> i64 \<times> i64" where
  "fill_loop limit_price_tick [] remaining filled notional = (remaining, filled, notional)"
| "fill_loop limit_price_tick (level # levels) remaining filled notional =
     (if remaining \<le> 0 then (remaining, filled, notional)
      else if price_tick level \<le> 0 \<or> price_tick level > limit_price_tick
      then fill_loop limit_price_tick levels remaining filled notional
      else
        (let available = size_to_lots (level_size level) in
         if available \<le> 0 then fill_loop limit_price_tick levels remaining filled notional
         else
           (let taken = min remaining available in
            fill_loop limit_price_tick levels
              (wrap_i64 (remaining - taken)) (wrap_i64 (filled + taken))
              (wrap_i64 (notional + wrap_i64 (taken * price_tick level))))))"

definition finish_fill :: "ChildOrder \<Rightarrow> FillSimulation \<Rightarrow> i64 \<times> i64 \<times> i64 \<Rightarrow> FillSimulation" where
  "finish_fill order result t =
     (case t of (remaining, filled, notional) \<Rightarrow>
        (let full = (filled = co_quantity_lots order)
         in result\<lparr>fs_filled_lots := filled, fs_remaining_lots := remaining, fs_full := full,
                   fs_partial := filled > 0 \<and> \<not> full,
                   fs_avg_fill_price_tick := (if filled > 0 then notional sdiv filled else 0),
                   fs_reject_reason :=
                     (if \<not> full then ''InsufficientDepth'' else fs_reject_reason result)\<rparr>))"

definition simulate_buy_depth_view :: "ChildOrder \<Rightarrow> MarketDepthView \<Rightarrow> FillSimulation" where
  "simulate_buy_depth_view order view =
     (let result = default_fill\<lparr>fs_snapshot_found := True,
                                fs_remaining_lots := co_quantity_lots order\<rparr>
      in if \<not> dv_usable_for_depth view \<or> dv_ask_count view = 0
         then result\<lparr>fs_reject_reason := ''InsufficientDepth''\<rparr>
         else finish_fill order result
                (fill_loop (co_limit_price_tick order) (take (dv_ask_count view) (dv_asks view))
                   (co_quantity_lots order) 0 0))"

definition simulate_buy :: "ChildOrder \<Rightarrow> ExecutionContext \<Rightarrow> FillSimulation" where
  "simulate_buy order context =
     (case find_depth_view context (co_asset_index order) of
        Some view \<Rightarrow> simulate_buy_depth_view order view
      | None \<Rightarrow>
          (let result = default_fill\<lparr>fs_remaining_lots := co_quantity_lots order\<rparr>
           in case find_snapshot (ec_snapshots context) (co_asset_id order) of
                None \<Rightarrow> result\<lparr>fs_reject_reason := ''MissingSnapshot''\<rparr>
              | Some snapshot \<Rightarrow>
                  (let result = result\<lparr>fs_snapshot_found := True\<rparr>
                   in if \<not> ms_usable_for_depth snapshot \<or> ms_ask_count snapshot = 0
                      then result\<lparr>fs_reject_reason := ''InsufficientDepth''\<rparr>
                      else finish_fill order result
                             (fill_loop (co_limit_price_tick order)
                                (take (ms_ask_count snapshot) (ms_asks snapshot))
                                (co_quantity_lots order) 0 0))))"

definition make_report ::
  "OrderPlan \<Rightarrow> ChildOrder \<Rightarrow> ChildOrderStatus \<Rightarrow> FillSimulation \<Rightarrow> u64 \<Rightarrow> string \<Rightarrow> ExecutionReport" where
  "make_report plan order status fill now_ns reject_reason =
     default_report\<lparr>xr_plan_id := op_plan_id plan, xr_child_order_id := co_order_id order,
       xr_status := status,
       xr_reject_reason := (if reject_reason = [] then fs_reject_reason fill else reject_reason),
       xr_filled_lots := fs_filled_lots fill, xr_remaining_lots := fs_remaining_lots fill,
       xr_avg_fill_price_tick := fs_avg_fill_price_tick fill, xr_event_ts_ns := now_ns\<rparr>"

subsection \<open>PaperExecutionAdapter\<close>

definition simulate_order :: "ChildOrder \<Rightarrow> ExecutionContext \<Rightarrow> FillSimulation" where
  "simulate_order order context =
     (if co_side order = OrderBuy then simulate_buy order context
      else default_fill\<lparr>fs_remaining_lots := co_quantity_lots order,
                        fs_reject_reason := ''UnsupportedSide''\<rparr>)"

definition no_fill :: "ChildOrder \<Rightarrow> FillSimulation \<Rightarrow> FillSimulation" where
  "no_fill order fill =
     fill\<lparr>fs_filled_lots := 0, fs_remaining_lots := co_quantity_lots order,
          fs_avg_fill_price_tick := 0\<rparr>"

text \<open>The reports and the result of the atomic mode.\<close>

definition submit_atomic ::
  "OrderPlan \<Rightarrow> ExecutionContext \<Rightarrow> ExecutionReport list \<times> AdapterSubmitResult" where
  "submit_atomic plan context =
     (let orders = plan_orders plan;
          fills = map (\<lambda>order. simulate_order order context) orders
      in if \<not> list_all fs_full fills
         then (map (\<lambda>(order, fill).
                      make_report plan order COS_Failed (no_fill order fill) (ec_now_ns context) [])
                 (zip orders fills),
               \<lparr>as_ok = False, as_plan_id = op_plan_id plan, as_status = PS_Failed,
                as_child_orders_submitted = 0, as_child_orders_rejected = op_order_count plan,
                as_code = AdapterError, as_error = ''paper atomic fill failed''\<rparr>)
         else (map (\<lambda>(order, fill).
                      make_report plan order COS_Filled fill (ec_now_ns context) [])
                 (zip orders fills),
               \<lparr>as_ok = True, as_plan_id = op_plan_id plan, as_status = PS_Filled,
                as_child_orders_submitted = op_order_count plan, as_child_orders_rejected = 0,
                as_code = ARC_Ok, as_error = []\<rparr>))"

text \<open>
  The loop of the sequential mode: the reports and the counts of filled, partial and rejected
  orders.
\<close>

fun sequential_loop ::
  "OrderPlan \<Rightarrow> ExecutionContext \<Rightarrow> ChildOrder list \<Rightarrow> ExecutionReport list \<times> nat \<times> nat \<times> nat
     \<Rightarrow> ExecutionReport list \<times> nat \<times> nat \<times> nat" where
  "sequential_loop plan context [] acc = acc"
| "sequential_loop plan context (order # orders) (reports, filled, partial, rejected) =
     (let fill = simulate_order order context;
          now_ns = ec_now_ns context
      in sequential_loop plan context orders
           (if fs_full fill
            then (reports @ [make_report plan order COS_Filled fill now_ns []],
                  filled + 1, partial, rejected)
            else if fs_partial fill \<and> xc_allow_partial_fill_paper (ec_config context)
            then (reports @ [make_report plan order COS_PartiallyFilled fill now_ns []],
                  filled, partial + 1, rejected)
            else (reports @ [make_report plan order COS_Failed (no_fill order fill) now_ns []],
                  filled, partial, rejected + 1)))"

definition submit_sequential ::
  "OrderPlan \<Rightarrow> ExecutionContext \<Rightarrow> ExecutionReport list \<times> AdapterSubmitResult" where
  "submit_sequential plan context =
     (case sequential_loop plan context (plan_orders plan) ([], 0, 0, 0) of
        (reports, filled_count, partial_count, rejected_count) \<Rightarrow>
          (reports,
           \<lparr>as_ok = (rejected_count = 0), as_plan_id = op_plan_id plan,
            as_status = (if partial_count > 0 then PS_PartiallyFilled
                         else if rejected_count = 0 then PS_Filled else PS_Failed),
            as_child_orders_submitted = filled_count + partial_count,
            as_child_orders_rejected = rejected_count,
            as_code = (if rejected_count = 0 then ARC_Ok else AdapterError),
            as_error = (if rejected_count = 0 then [] else ''paper sequential fill failed'')\<rparr>))"

record PaperExecutionAdapter =
  pa_pending_reports :: "ExecutionReport list"

definition plan_expired :: "OrderPlan \<Rightarrow> u64 \<Rightarrow> bool" where
  "plan_expired plan now_ns \<longleftrightarrow> op_expire_after_ns plan \<noteq> 0 \<and> now_ns \<ge> op_expire_after_ns plan"

definition paper_submit_plan ::
  "PaperExecutionAdapter \<Rightarrow> OrderPlan \<Rightarrow> ExecutionContext
     \<Rightarrow> PaperExecutionAdapter \<times> AdapterSubmitResult" where
  "paper_submit_plan adapter plan context =
     (if plan_expired plan (ec_now_ns context)
      then (adapter\<lparr>pa_pending_reports :=
              map (\<lambda>order. make_report plan order COS_Failed
                     (default_fill\<lparr>fs_remaining_lots := co_quantity_lots order\<rparr>)
                     (ec_now_ns context) ''Expired'')
                (plan_orders plan)\<rparr>,
            \<lparr>as_ok = False, as_plan_id = op_plan_id plan, as_status = PS_Failed,
             as_child_orders_submitted = 0, as_child_orders_rejected = op_order_count plan,
             as_code = AdapterError, as_error = ''paper plan expired''\<rparr>)
      else
        (case (if xc_paper_mode (ec_config context) = PaperAtomic
               then submit_atomic plan context else submit_sequential plan context) of
           (reports, result) \<Rightarrow> (adapter\<lparr>pa_pending_reports := reports\<rparr>, result)))"

definition paper_poll_reports ::
  "PaperExecutionAdapter \<Rightarrow> ExecutionReport list \<times> PaperExecutionAdapter" where
  "paper_poll_reports adapter = (pa_pending_reports adapter, adapter\<lparr>pa_pending_reports := []\<rparr>)"

definition paper_cancel_plan :: "u64 \<Rightarrow> AdapterCancelResult" where
  "paper_cancel_plan plan_id =
     \<lparr>ac_ok = True, ac_plan_id = plan_id, ac_code = ARC_Ok, ac_error = []\<rparr>"

subsection \<open>SandboxExecutionAdapter\<close>

definition sandbox_submit_plan :: "OrderPlan \<Rightarrow> ExecutionContext \<Rightarrow> AdapterSubmitResult" where
  "sandbox_submit_plan plan context =
     \<lparr>as_ok = False, as_plan_id = op_plan_id plan, as_status = PS_Failed,
      as_child_orders_submitted = 0, as_child_orders_rejected = 0,
      as_code = AdapterError, as_error = ''sandbox execution adapter is not wired''\<rparr>"

definition sandbox_poll_reports :: "ExecutionReport list" where
  "sandbox_poll_reports = []"

definition sandbox_cancel_plan :: "u64 \<Rightarrow> AdapterCancelResult" where
  "sandbox_cancel_plan plan_id =
     \<lparr>ac_ok = False, ac_plan_id = plan_id, ac_code = AdapterError,
      ac_error = ''sandbox execution adapter is not wired''\<rparr>"

subsection \<open>What a simulated buy takes\<close>

definition reach :: "i64 \<Rightarrow> PriceLevel \<Rightarrow> int" where
  "reach limit level =
     (if 0 < price_tick level \<and> price_tick level \<le> limit
      then max 0 (size_to_lots (level_size level)) else 0)"

definition reachable_lots :: "i64 \<Rightarrow> PriceLevel list \<Rightarrow> int" where
  "reachable_lots limit levels = (\<Sum>level\<leftarrow>levels. reach limit level)"

fun fill_cost :: "i64 \<Rightarrow> PriceLevel list \<Rightarrow> int \<Rightarrow> int" where
  "fill_cost limit [] qty = 0"
| "fill_cost limit (l # ls) qty =
     price_tick l * min qty (reach limit l) + fill_cost limit ls (qty - min qty (reach limit l))"

lemma reach_nonneg [simp]: "0 \<le> reach limit l"
  by (simp add: reach_def)

lemma reach_price: "0 < reach limit l \<Longrightarrow> 0 < price_tick l \<and> price_tick l \<le> limit"
  by (simp add: reach_def split: if_splits)

lemma reachable_simps [simp]:
  "reachable_lots limit [] = 0"
  "reachable_lots limit (l # ls) = reach limit l + reachable_lots limit ls"
  by (simp_all add: reachable_lots_def)

lemma reachable_nonneg [simp]: "0 \<le> reachable_lots limit ls"
  by (induction ls) simp_all

lemma fill_cost_0 [simp]: "fill_cost limit ls 0 = 0"
  by (induction ls) (simp_all add: min_absorb1)

lemma fill_cost_bounds:
  assumes "0 \<le> q"
  shows "min q (reachable_lots limit ls) \<le> fill_cost limit ls q \<and>
    fill_cost limit ls q \<le> limit * min q (reachable_lots limit ls)"
  using assms
proof (induction ls arbitrary: q)
  case (Cons l ls)
  let ?t = "min q (reach limit l)"
  have IH: "min (q - ?t) (reachable_lots limit ls) \<le> fill_cost limit ls (q - ?t)"
    "fill_cost limit ls (q - ?t) \<le> limit * min (q - ?t) (reachable_lots limit ls)"
    using Cons.IH [of "q - ?t"] by simp_all
  have level: "?t \<le> price_tick l * ?t \<and> price_tick l * ?t \<le> limit * ?t"
  proof (cases "0 < ?t")
    case True
    then have "0 < reach limit l" by linarith
    from reach_price [OF this] True show ?thesis
      by (simp add: mult_right_mono del: min_less_iff_conj)
  next
    case False
    with Cons.prems have "?t = 0" using reach_nonneg [of limit l] by linarith
    then show ?thesis by simp
  qed
  have split: "min q (reachable_lots limit (l # ls)) = ?t + min (q - ?t) (reachable_lots limit ls)"
    using reachable_nonneg [of limit ls] unfolding reachable_simps by linarith
  show ?case unfolding split using IH level by (simp add: distrib_left)
qed simp

lemma fill_cost_nonneg [simp]: "0 \<le> q \<Longrightarrow> 0 \<le> fill_cost limit ls q"
  using fill_cost_bounds [of q limit ls] reachable_nonneg [of limit ls] by linarith

text \<open>The loop is that arithmetic as long as the notional fits into 64 bits.\<close>

lemma fill_loop_exact:
  assumes "0 \<le> remaining" "0 \<le> filled" "filled + remaining \<le> i64_max" "0 \<le> notional"
    "notional + fill_cost limit ls remaining \<le> i64_max"
  shows "fill_loop limit ls remaining filled notional =
    (remaining - min remaining (reachable_lots limit ls),
     filled + min remaining (reachable_lots limit ls),
     notional + fill_cost limit ls remaining)"
  using assms
proof (induction ls arbitrary: remaining filled notional)
  case (Cons l ls)
  let ?t = "min remaining (reach limit l)"
  have rn: "0 \<le> reach limit l" "0 \<le> reachable_lots limit ls" by simp_all
  show ?case
  proof (cases "remaining = 0")
    case False
    with Cons.prems(1) have pos: "0 < remaining" by simp
    show ?thesis
    proof (cases "reach limit l = 0")
      case True
      then have "fill_loop limit (l # ls) remaining filled notional = fill_loop limit ls remaining filled notional"
        using pos by (auto simp: reach_def Let_def split: if_splits)
      with True Cons.prems Cons.IH [of remaining filled notional] show ?thesis by simp
    next
      case False
      with rn have r: "0 < reach limit l" by linarith
      then have size: "size_to_lots (level_size l) = reach limit l" "0 < price_tick l" "price_tick l \<le> limit"
        by (auto simp: reach_def split: if_splits)
      have t: "0 < ?t" "?t \<le> remaining" using r pos by simp_all
      then have cost: "0 < price_tick l * ?t" using size by simp
      have rest: "0 \<le> fill_cost limit ls (remaining - ?t)" by simp
      have bound: "notional + price_tick l * ?t + fill_cost limit ls (remaining - ?t) \<le> i64_max"
        using Cons.prems(5) by (simp add: add.assoc)
      with rest have le: "notional + price_tick l * ?t \<le> i64_max" by linarith
      have w: "wrap_i64 (remaining - ?t) = remaining - ?t" "wrap_i64 (filled + ?t) = filled + ?t"
        "wrap_i64 (price_tick l * ?t) = price_tick l * ?t"
        "wrap_i64 (notional + price_tick l * ?t) = notional + price_tick l * ?t"
        using Cons.prems t cost le by (auto intro!: wrap_i64_id simp: in_i64_nonneg)
      have step: "fill_loop limit (l # ls) remaining filled notional =
          fill_loop limit ls (remaining - ?t) (filled + ?t) (notional + price_tick l * ?t)"
        using pos size r w by (simp add: Let_def mult.commute)
      have "fill_loop limit ls (remaining - ?t) (filled + ?t) (notional + price_tick l * ?t) =
        (remaining - ?t - min (remaining - ?t) (reachable_lots limit ls),
         filled + ?t + min (remaining - ?t) (reachable_lots limit ls),
         notional + price_tick l * ?t + fill_cost limit ls (remaining - ?t))"
        using Cons.prems t cost bound by (intro Cons.IH) simp_all
      moreover have "?t + min (remaining - ?t) (reachable_lots limit ls) =
          min remaining (reachable_lots limit (l # ls))"
        using rn unfolding reachable_simps by linarith
      ultimately show ?thesis unfolding step by (simp add: add.assoc diff_diff_eq)
    qed
  qed (use rn in \<open>simp add: min_absorb1\<close>)
qed simp

text \<open>The asks an order is matched against, when there are usable ones.\<close>

definition order_book :: "ChildOrder \<Rightarrow> ExecutionContext \<Rightarrow> PriceLevel list option" where
  "order_book order context =
     (case find_depth_view context (co_asset_index order) of
        Some view \<Rightarrow>
          if dv_usable_for_depth view \<and> dv_ask_count view \<noteq> 0 then Some (view_asks view) else None
      | None \<Rightarrow>
          (case find_snapshot (ec_snapshots context) (co_asset_id order) of
             Some snapshot \<Rightarrow>
               if ms_usable_for_depth snapshot \<and> ms_ask_count snapshot \<noteq> 0
               then Some (snapshot_asks snapshot) else None
           | None \<Rightarrow> None))"

text \<open>An order whose full cost at its limit fits into 64 bits.\<close>

definition order_fits :: "ChildOrder \<Rightarrow> bool" where
  "order_fits order \<longleftrightarrow> 0 \<le> co_quantity_lots order \<and> co_quantity_lots order \<le> i64_max \<and>
     co_limit_price_tick order * co_quantity_lots order \<le> i64_max"

lemma fill_cost_le_order:
  assumes "order_fits order"
  shows "fill_cost (co_limit_price_tick order) ls (co_quantity_lots order) \<le> i64_max"
proof -
  let ?L = "co_limit_price_tick order" and ?q = "co_quantity_lots order"
  let ?m = "min ?q (reachable_lots ?L ls)"
  have q: "0 \<le> ?q" and m: "0 \<le> ?m" "?m \<le> ?q" using assms by (simp_all add: order_fits_def)
  have "?L * ?m \<le> i64_max"
  proof (cases "0 \<le> ?L")
    case True
    with m have "?L * ?m \<le> ?L * ?q" by (intro mult_left_mono)
    with assms show ?thesis by (simp add: order_fits_def)
  next
    case False
    with m(1) have "?L * ?m \<le> 0" by (simp add: mult_nonpos_nonneg)
    then show ?thesis using i64_max_nonneg by linarith
  qed
  with fill_cost_bounds [OF q, of ?L ls] show ?thesis by linarith
qed

lemma finish_fill_simps:
  "fs_filled_lots (finish_fill order r (m, f, c)) = f"
  "fs_remaining_lots (finish_fill order r (m, f, c)) = m"
  "fs_full (finish_fill order r (m, f, c)) \<longleftrightarrow> f = co_quantity_lots order"
  "fs_partial (finish_fill order r (m, f, c)) \<longleftrightarrow> 0 < f \<and> f \<noteq> co_quantity_lots order"
  "fs_avg_fill_price_tick (finish_fill order r (m, f, c)) = (if 0 < f then c sdiv f else 0)"
  by (simp_all add: finish_fill_def Let_def)

lemma simulate_buy_outcome:
  fixes order :: ChildOrder and ctx :: ExecutionContext
  assumes "order_fits order"
  defines "fill \<equiv> simulate_buy order ctx"
    and "available \<equiv> case order_book order ctx of None \<Rightarrow> 0
      | Some ls \<Rightarrow> reachable_lots (co_limit_price_tick order) ls"
  shows "fs_filled_lots fill = min (co_quantity_lots order) available"
    and "fs_remaining_lots fill = co_quantity_lots order - fs_filled_lots fill"
    and "fs_full fill \<longleftrightarrow> order_book order ctx \<noteq> None \<and> co_quantity_lots order \<le> available"
    and "fs_partial fill \<longleftrightarrow> 0 < fs_filled_lots fill \<and> \<not> fs_full fill"
    and "fs_avg_fill_price_tick fill =
      (case order_book order ctx of None \<Rightarrow> 0
       | Some ls \<Rightarrow> if 0 < fs_filled_lots fill
           then fill_cost (co_limit_price_tick order) ls (co_quantity_lots order) div fs_filled_lots fill
           else 0)"
proof -
  let ?L = "co_limit_price_tick order" and ?q = "co_quantity_lots order"
  have q: "0 \<le> ?q" "?q \<le> i64_max" using assms(1) by (simp_all add: order_fits_def)
  have fill: "case order_book order ctx of
      None \<Rightarrow> fs_filled_lots fill = 0 \<and> fs_remaining_lots fill = ?q \<and> \<not> fs_full fill \<and>
        \<not> fs_partial fill \<and> fs_avg_fill_price_tick fill = 0
    | Some ls \<Rightarrow> \<exists>r. fill = finish_fill order r (fill_loop ?L ls ?q 0 0)"
    by (auto simp: fill_def order_book_def simulate_buy_def simulate_buy_depth_view_def Let_def
        default_fill_def view_asks_def snapshot_asks_def split: option.split)
  have loop: "fill_loop ?L ls ?q 0 0 =
      (?q - min ?q (reachable_lots ?L ls), min ?q (reachable_lots ?L ls), fill_cost ?L ls ?q)" for ls
    using fill_loop_exact [of ?q 0 0 ?L ls] q fill_cost_le_order [OF assms(1), of ls] by simp
  show "fs_filled_lots fill = min ?q available"
    "fs_remaining_lots fill = ?q - fs_filled_lots fill"
    "fs_full fill \<longleftrightarrow> order_book order ctx \<noteq> None \<and> ?q \<le> available"
    "fs_partial fill \<longleftrightarrow> 0 < fs_filled_lots fill \<and> \<not> fs_full fill"
    "fs_avg_fill_price_tick fill =
      (case order_book order ctx of None \<Rightarrow> 0
       | Some ls \<Rightarrow> if 0 < fs_filled_lots fill then fill_cost ?L ls ?q div fs_filled_lots fill else 0)"
    using fill q by (auto simp: available_def loop finish_fill_simps sdiv_nonneg split: option.splits)
qed

text \<open>A fill as the reports may carry it.\<close>

definition fill_sound :: "ChildOrder \<Rightarrow> FillSimulation \<Rightarrow> bool" where
  "fill_sound order fill \<longleftrightarrow>
     0 \<le> fs_filled_lots fill \<and> 0 \<le> fs_remaining_lots fill \<and>
     fs_filled_lots fill + fs_remaining_lots fill = co_quantity_lots order \<and>
     (0 < fs_filled_lots fill \<longrightarrow>
        1 \<le> fs_avg_fill_price_tick fill \<and> fs_avg_fill_price_tick fill \<le> co_limit_price_tick order)"

lemma div_between:
  fixes c m :: int
  assumes "0 < m" "m \<le> c" "c \<le> L * m"
  shows "1 \<le> c div m \<and> c div m \<le> L"
proof -
  from zdiv_mono1 [OF assms(2,1)] zdiv_mono1 [OF assms(3,1)] assms(1) show ?thesis by simp
qed

lemma simulate_order_sound:
  assumes "order_fits order"
  shows "fill_sound order (simulate_order order context)"
    and "fs_full (simulate_order order context) \<Longrightarrow>
      fs_filled_lots (simulate_order order context) = co_quantity_lots order"
proof -
  let ?L = "co_limit_price_tick order" and ?q = "co_quantity_lots order"
  note outcome = simulate_buy_outcome [OF assms, of "context"]
  have q: "0 \<le> ?q" using assms by (simp add: order_fits_def)
  have price: "1 \<le> fill_cost ?L ls ?q div min ?q (reachable_lots ?L ls) \<and>
      fill_cost ?L ls ?q div min ?q (reachable_lots ?L ls) \<le> ?L"
    if "0 < min ?q (reachable_lots ?L ls)" for ls
    using that fill_cost_bounds [OF q, of ?L ls] by (intro div_between) simp_all
  show "fill_sound order (simulate_order order context)"
  proof (cases "co_side order = OrderBuy")
    case True
    then show ?thesis using outcome price q
      by (auto simp: fill_sound_def simulate_order_def split: option.splits)
  next
    case False
    with q show ?thesis by (simp add: fill_sound_def simulate_order_def default_fill_def)
  qed
  show "fs_filled_lots (simulate_order order context) = ?q" if "fs_full (simulate_order order context)"
    using that outcome by (auto simp: simulate_order_def default_fill_def min_def split: if_splits)
qed

lemma no_fill_sound [simp]:
  "order_fits order \<Longrightarrow> fill_sound order (no_fill order fill)" "fs_filled_lots (no_fill order fill) = 0"
  by (simp_all add: fill_sound_def no_fill_def order_fits_def)

subsection \<open>Reports of a submission\<close>

definition report_sound :: "OrderPlan \<Rightarrow> ChildOrder \<Rightarrow> ExecutionReport \<Rightarrow> bool" where
  "report_sound plan order report \<longleftrightarrow>
     xr_plan_id report = op_plan_id plan \<and> xr_child_order_id report = co_order_id order \<and>
     0 \<le> xr_filled_lots report \<and> 0 \<le> xr_remaining_lots report \<and>
     xr_filled_lots report + xr_remaining_lots report = co_quantity_lots order \<and>
     (0 < xr_filled_lots report \<longrightarrow>
        1 \<le> xr_avg_fill_price_tick report \<and>
        xr_avg_fill_price_tick report \<le> co_limit_price_tick order) \<and>
     (xr_status report = COS_Filled \<longrightarrow> xr_filled_lots report = co_quantity_lots order) \<and>
     (xr_status report = COS_Failed \<longrightarrow> xr_filled_lots report = 0)"

lemma make_report_sound:
  assumes "fill_sound order fill"
    and "status = COS_Filled \<longrightarrow> fs_filled_lots fill = co_quantity_lots order"
    and "status = COS_Failed \<longrightarrow> fs_filled_lots fill = 0"
  shows "report_sound plan order (make_report plan order status fill now_ns reason)"
  using assms by (simp add: report_sound_def make_report_def fill_sound_def default_report_def)

text \<open>The sequential loop, order by order.\<close>

definition sequential_report :: "OrderPlan \<Rightarrow> ExecutionContext \<Rightarrow> ChildOrder \<Rightarrow> ExecutionReport" where
  "sequential_report plan context order =
     (let fill = simulate_order order context; now_ns = ec_now_ns context in
      if fs_full fill then make_report plan order COS_Filled fill now_ns []
      else if fs_partial fill \<and> xc_allow_partial_fill_paper (ec_config context)
      then make_report plan order COS_PartiallyFilled fill now_ns []
      else make_report plan order COS_Failed (no_fill order fill) now_ns [])"

definition status_count :: "ChildOrderStatus \<Rightarrow> ExecutionReport list \<Rightarrow> nat" where
  "status_count status reports = length (filter (\<lambda>r. xr_status r = status) reports)"

lemma status_count_simps [simp]:
  "status_count status [] = 0"
  "status_count status (r # rs) = (if xr_status r = status then Suc (status_count status rs) else status_count status rs)"
  by (simp_all add: status_count_def)

lemma make_report_status [simp]: "xr_status (make_report plan order status fill now_ns reason) = status"
  by (simp add: make_report_def)

lemma sequential_loop_eq:
  "sequential_loop plan ctx orders (reports, f, p, r) =
     (let new = map (sequential_report plan ctx) orders in
      (reports @ new, f + status_count COS_Filled new, p + status_count COS_PartiallyFilled new,
       r + status_count COS_Failed new))"
  by (induction orders arbitrary: reports f p r) (simp_all add: Let_def sequential_report_def)

lemma sequential_report_sound:
  "order_fits order \<Longrightarrow> report_sound plan order (sequential_report plan ctx order)"
  by (auto simp: sequential_report_def Let_def simulate_order_sound intro!: make_report_sound)

lemma submit_reports:
  "pa_pending_reports (fst (paper_submit_plan adapter plan ctx)) =
     (if plan_expired plan (ec_now_ns ctx)
      then map (\<lambda>order. make_report plan order COS_Failed
             (default_fill\<lparr>fs_remaining_lots := co_quantity_lots order\<rparr>) (ec_now_ns ctx) ''Expired'')
             (plan_orders plan)
      else if xc_paper_mode (ec_config ctx) = PaperAtomic
      then if \<forall>order \<in> set (plan_orders plan). fs_full (simulate_order order ctx)
        then map (\<lambda>order. make_report plan order COS_Filled (simulate_order order ctx) (ec_now_ns ctx) [])
               (plan_orders plan)
        else map (\<lambda>order. make_report plan order COS_Failed
               (no_fill order (simulate_order order ctx)) (ec_now_ns ctx) []) (plan_orders plan)
      else map (sequential_report plan ctx) (plan_orders plan))"
  by (simp add: paper_submit_plan_def submit_atomic_def submit_sequential_def sequential_loop_eq Let_def
      zip_map2 zip_same_conv_map list_all_iff comp_def)

text \<open>
  C26: Whatever the mode, the paper adapter leaves exactly one report per order of the plan, in
  plan order, and every report is sound: its filled and remaining lots are non-negative parts of
  the order's quantity, a fill's average price is at least one tick and never above the order's
  limit, a report of status Filled carries the whole quantity and a rejected one carries nothing.
  Each order's quantity times its limit must fit into 64 bits.
\<close>
theorem paper_reports_sound:
  assumes "\<forall>order \<in> set (plan_orders plan). order_fits order"
  shows "list_all2 (report_sound plan) (plan_orders plan)
    (pa_pending_reports (fst (paper_submit_plan adapter plan ctx)))"
proof -
  have "fill_sound order (default_fill\<lparr>fs_remaining_lots := co_quantity_lots order\<rparr>)"
    if "order_fits order" for order
    using that by (simp add: fill_sound_def default_fill_def order_fits_def)
  then have expired: "report_sound plan order (make_report plan order COS_Failed
      (default_fill\<lparr>fs_remaining_lots := co_quantity_lots order\<rparr>) (ec_now_ns ctx) ''Expired'')"
    if "order_fits order" for order
    using that by (intro make_report_sound) (simp_all add: default_fill_def)
  have rejected: "report_sound plan order (make_report plan order COS_Failed
      (no_fill order (simulate_order order ctx)) (ec_now_ns ctx) [])" if "order_fits order" for order
    using that by (intro make_report_sound) simp_all
  have filled: "report_sound plan order
      (make_report plan order COS_Filled (simulate_order order ctx) (ec_now_ns ctx) [])"
    if "order_fits order" "fs_full (simulate_order order ctx)" for order
    using that by (intro make_report_sound) (simp_all add: simulate_order_sound)
  have each: "list_all2 (report_sound plan) ords (map f ords)"
    if "\<And>ord. ord \<in> set ords \<Longrightarrow> report_sound plan ord (f ord)" for f ords
    using that by (auto simp: list_all2_map2 intro: list.rel_refl_strong)
  show ?thesis unfolding submit_reports using assms
    by (auto intro!: each expired rejected filled sequential_report_sound)
qed

definition sample_view :: MarketDepthView where
  "sample_view =
     \<lparr>dv_asset_index = 2, dv_book_version = 1, dv_snapshot_version_hash = 1, dv_last_ws_recv_ns = 1,
      dv_usable_for_depth = True, dv_recovering = False, dv_crossed = False, dv_closed = False,
      dv_resolved = False, dv_bid_count = 0, dv_ask_count = kMaxSnapshotDepth,
      dv_bids = [], dv_asks = sample_asks,
      dv_prefix = build_depth_prefix [] 0 sample_asks kMaxSnapshotDepth\<rparr>"

definition sample_context :: ExecutionContext where
  "sample_context =
     \<lparr>ec_now_ns = 200, ec_snapshots = [], ec_depth_views = Some [sample_view],
      ec_depth_view_count = 1, ec_config = sample_config\<rparr>"

lemma sample_plan_orders:
  "plan_orders sample_plan = [sample_order 11 10, sample_order 12 10]"
  by (simp add: plan_orders_def sample_plan_def)

lemma sample_order_fits: "0 \<le> q \<Longrightarrow> q \<le> 1000 \<Longrightarrow> order_fits (sample_order k q)"
  by (simp add: order_fits_def sample_order_def i64_bounds)

theorem paper_reports_sound_witness:
  "list_all2 (report_sound sample_plan) [sample_order 11 10, sample_order 12 10]
     (pa_pending_reports (fst (paper_submit_plan \<lparr>pa_pending_reports = []\<rparr> sample_plan sample_context)))"
  using paper_reports_sound [of sample_plan "\<lparr>pa_pending_reports = []\<rparr>" sample_context]
  by (simp add: sample_plan_orders sample_order_fits)

definition available_to :: "ChildOrder \<Rightarrow> ExecutionContext \<Rightarrow> int" where
  "available_to order ctx =
     (if co_side order = OrderBuy
      then (case order_book order ctx of None \<Rightarrow> 0
            | Some ls \<Rightarrow> reachable_lots (co_limit_price_tick order) ls)
      else 0)"

lemma available_to_nonneg [simp]: "0 \<le> available_to order ctx"
  by (simp add: available_to_def split: option.split)

lemma simulate_order_filled:
  "order_fits order \<Longrightarrow>
   fs_filled_lots (simulate_order order ctx) = min (co_quantity_lots order) (available_to order ctx)"
  by (auto simp: simulate_order_def available_to_def simulate_buy_outcome default_fill_def order_fits_def)

lemma simulate_order_full:
  "order_fits order \<Longrightarrow> 0 < co_quantity_lots order \<Longrightarrow>
   fs_full (simulate_order order ctx) \<longleftrightarrow> co_quantity_lots order \<le> available_to order ctx"
  by (auto simp: simulate_order_def available_to_def simulate_buy_outcome default_fill_def
      split: option.splits)

lemma simulate_order_partial:
  assumes "order_fits order" "0 < co_quantity_lots order"
  shows "fs_partial (simulate_order order ctx) \<longleftrightarrow>
    0 < available_to order ctx \<and> available_to order ctx < co_quantity_lots order"
proof (cases "co_side order = OrderBuy")
  case True
  then show ?thesis
    using simulate_buy_outcome(4) [OF assms(1), of ctx] simulate_order_filled [OF assms(1), of ctx]
      simulate_order_full [OF assms, of ctx] assms(2) by (auto simp: simulate_order_def)
next
  case False
  then show ?thesis by (simp add: simulate_order_def available_to_def default_fill_def)
qed

text \<open>
  C25: Atomic paper execution is all-or-nothing: a plan of positive orders that has not expired
  succeeds exactly when every order is a buy whose usable book offers its whole quantity within
  its limit. Then every order is reported Filled in full; otherwise every order is reported
  rejected with nothing filled and its whole quantity remaining.
\<close>
theorem paper_atomic_all_or_nothing:
  assumes "\<forall>order \<in> set (plan_orders plan). order_fits order \<and> 0 < co_quantity_lots order"
    and "xc_paper_mode (ec_config ctx) = PaperAtomic"
    and "\<not> plan_expired plan (ec_now_ns ctx)"
  shows "case paper_submit_plan adapter plan ctx of (adapter', result) \<Rightarrow>
    (as_ok result \<longleftrightarrow>
       (\<forall>order \<in> set (plan_orders plan). co_quantity_lots order \<le> available_to order ctx)) \<and>
    map (\<lambda>r. (xr_child_order_id r, xr_status r, xr_filled_lots r, xr_remaining_lots r))
      (pa_pending_reports adapter') =
    map (\<lambda>order. if as_ok result then (co_order_id order, COS_Filled, co_quantity_lots order, 0)
                  else (co_order_id order, COS_Failed, 0, co_quantity_lots order))
      (plan_orders plan)"
proof -
  have full: "(\<forall>order \<in> set (plan_orders plan). fs_full (simulate_order order ctx)) \<longleftrightarrow>
      (\<forall>order \<in> set (plan_orders plan). co_quantity_lots order \<le> available_to order ctx)"
    using assms(1) by (simp add: simulate_order_full)
  have ok: "as_ok (snd (paper_submit_plan adapter plan ctx)) \<longleftrightarrow>
      (\<forall>order \<in> set (plan_orders plan). co_quantity_lots order \<le> available_to order ctx)"
    using assms(2,3) full by (auto simp: paper_submit_plan_def submit_atomic_def Let_def list_all_iff)
  have part: "fs_filled_lots (simulate_order order ctx) = co_quantity_lots order \<and>
      fs_remaining_lots (simulate_order order ctx) = 0"
    if "order \<in> set (plan_orders plan)" "co_quantity_lots order \<le> available_to order ctx" for order
    using that assms(1) simulate_order_filled [of order ctx] simulate_order_sound(1) [of order ctx]
    by (simp add: fill_sound_def)
  have "map (\<lambda>r. (xr_child_order_id r, xr_status r, xr_filled_lots r, xr_remaining_lots r))
      (pa_pending_reports (fst (paper_submit_plan adapter plan ctx))) =
    map (\<lambda>order. if as_ok (snd (paper_submit_plan adapter plan ctx))
                  then (co_order_id order, COS_Filled, co_quantity_lots order, 0)
                  else (co_order_id order, COS_Failed, 0, co_quantity_lots order))
      (plan_orders plan)"
    unfolding submit_reports ok full using assms(2,3) part
    by (auto simp: make_report_def no_fill_def)
  with ok show ?thesis by (simp add: case_prod_beta)
qed

lemma reachable_sample:
  "reachable_lots 60 sample_asks = 12"
proof -
  have "reachable_lots 60 (replicate n (sample_level 0 0)) = 0" for n
    by (induction n) (simp_all add: reach_def sample_level_def)
  then show ?thesis
    by (simp add: sample_asks_def reach_def sample_level_def size_to_lots_def)
qed

lemma available_sample: "available_to (sample_order k q) sample_context = 12"
  by (simp add: available_to_def order_book_def sample_order_def sample_context_def find_depth_view_def
      sample_view_def view_asks_def reachable_sample length_sample_asks kMaxSnapshotDepth_nonzero)

theorem paper_atomic_all_or_nothing_witness:
  "as_ok (snd (paper_submit_plan \<lparr>pa_pending_reports = []\<rparr> sample_plan sample_context))"
proof -
  have q: "co_quantity_lots (sample_order k 10) = 10" for k by (simp add: sample_order_def)
  have "\<not> plan_expired sample_plan (ec_now_ns sample_context)"
    "xc_paper_mode (ec_config sample_context) = PaperAtomic"
    by (simp_all add: plan_expired_def sample_plan_def sample_context_def sample_config_def)
  with paper_atomic_all_or_nothing [of sample_plan sample_context "\<lparr>pa_pending_reports = []\<rparr>"]
  show ?thesis by (simp add: sample_plan_orders sample_order_fits q available_sample case_prod_beta)
qed

text \<open>
  Sequential paper execution of an unexpired plan of positive orders fills each order with
  what its book offers within its limit, up to the quantity, and with nothing when that is a
  part only and partial fills are not allowed. The result counts the reports: submitted orders
  are the filled and partially filled ones, rejected orders the rest, together all orders of the
  plan, and the submission succeeds exactly when no order is rejected.
\<close>
theorem paper_sequential_accounting:
  assumes "\<forall>order \<in> set (plan_orders plan). order_fits order \<and> 0 < co_quantity_lots order"
    and "xc_paper_mode (ec_config ctx) = PaperSequential"
    and "\<not> plan_expired plan (ec_now_ns ctx)"
  shows "case paper_submit_plan adapter plan ctx of (adapter', result) \<Rightarrow>
    map (\<lambda>r. (xr_child_order_id r, xr_filled_lots r)) (pa_pending_reports adapter') =
    map (\<lambda>order. (co_order_id order,
           if xc_allow_partial_fill_paper (ec_config ctx) \<or> co_quantity_lots order \<le> available_to order ctx
           then min (co_quantity_lots order) (available_to order ctx) else 0))
      (plan_orders plan) \<and>
    as_child_orders_rejected result = status_count COS_Failed (pa_pending_reports adapter') \<and>
    as_child_orders_submitted result + as_child_orders_rejected result = length (plan_orders plan) \<and>
    (as_ok result \<longleftrightarrow> as_child_orders_rejected result = 0)"
proof -
  have each: "xr_child_order_id (sequential_report plan ctx order) = co_order_id order \<and>
      xr_filled_lots (sequential_report plan ctx order) =
        (if xc_allow_partial_fill_paper (ec_config ctx) \<or> co_quantity_lots order \<le> available_to order ctx
         then min (co_quantity_lots order) (available_to order ctx) else 0)"
    if "order \<in> set (plan_orders plan)" for order
    using that assms(1) available_to_nonneg [of order ctx]
    by (auto simp: sequential_report_def Let_def make_report_def simulate_order_full
        simulate_order_partial simulate_order_filled simp del: available_to_nonneg)
  have counts: "status_count COS_Filled (map (sequential_report plan ctx) orders) +
      status_count COS_PartiallyFilled (map (sequential_report plan ctx) orders) +
      status_count COS_Failed (map (sequential_report plan ctx) orders) = length orders" for orders
    by (induction orders) (auto simp: sequential_report_def Let_def)
  show ?thesis using assms(2,3) each counts [of "plan_orders plan"]
    by (simp add: paper_submit_plan_def submit_sequential_def sequential_loop_eq Let_def)
qed

theorem paper_sequential_accounting_witness:
  "as_ok (snd (paper_submit_plan \<lparr>pa_pending_reports = []\<rparr> sample_plan
     (sample_context\<lparr>ec_config := sample_config\<lparr>xc_paper_mode := PaperSequential\<rparr>\<rparr>))) \<longleftrightarrow>
   as_child_orders_rejected (snd (paper_submit_plan \<lparr>pa_pending_reports = []\<rparr> sample_plan
     (sample_context\<lparr>ec_config := sample_config\<lparr>xc_paper_mode := PaperSequential\<rparr>\<rparr>))) = 0"
proof -
  have q: "co_quantity_lots (sample_order k 10) = 10" for k by (simp add: sample_order_def)
  let ?ctx = "sample_context\<lparr>ec_config := sample_config\<lparr>xc_paper_mode := PaperSequential\<rparr>\<rparr>"
  have "\<not> plan_expired sample_plan (ec_now_ns ?ctx)" "xc_paper_mode (ec_config ?ctx) = PaperSequential"
    by (simp_all add: plan_expired_def sample_plan_def sample_context_def sample_config_def)
  with paper_sequential_accounting [of sample_plan ?ctx "\<lparr>pa_pending_reports = []\<rparr>"]
  show ?thesis by (simp add: sample_plan_orders sample_order_fits q case_prod_beta)
qed

subsection \<open>Pricing and filling agree\<close>

text \<open>The sizes for which both readings of a level's lots agree: everything below \<open>2^63\<close>.\<close>

definition size_fits :: "PriceLevel \<Rightarrow> bool" where
  "size_fits level = (case level_size level of Fin s \<Rightarrow> s < 9223372036854775808 | _ \<Rightarrow> True)"

lemma reach_eq_lots:
  assumes "size_fits l" "price_tick l \<le> limit"
  shows "reach limit l = lots l"
  using assms by (auto simp: reach_def lots_def size_to_lots_def price_level_size_lots_def size_fits_def
      i64_bounds split: dbl.splits)

lemma reach_zero: "size_fits l \<Longrightarrow> lots l = 0 \<Longrightarrow> reach limit l = 0"
  by (cases "price_tick l \<le> limit") (auto simp: reach_eq_lots, simp add: reach_def)

lemma walk_worst_ge: "w \<le> walk_worst ls q w"
proof (induction ls arbitrary: q w)
  case (Cons l ls)
  have "w \<le> walk_worst ls (q - min q (lots l)) (max w (price_tick l))"
    using Cons.IH [of "max w (price_tick l)" "q - min q (lots l)"] by linarith
  with Cons.IH show ?case by simp
qed simp

lemma fill_follows_walk:
  assumes "\<forall>l \<in> set ls. size_fits l" "0 \<le> q" "q \<le> depth ls" "walk_worst ls q w \<le> limit"
  shows "fill_cost limit ls q = walk_cost ls q \<and> q \<le> reachable_lots limit ls"
  using assms
proof (induction ls arbitrary: q w)
  case (Cons l ls)
  consider "q = 0" | "0 < q" "lots l = 0" | "0 < q" "0 < lots l"
    using Cons.prems(2) lots_nonneg [of l] by linarith
  then show ?case
  proof cases
    case 1
    moreover have "0 \<le> reachable_lots limit (l # ls)" by (rule reachable_nonneg)
    ultimately show ?thesis by (simp add: walk_cost_0 min_absorb1 del: fill_cost.simps walk_cost.simps reachable_simps)
  next
    case 2
    with Cons.prems Cons.IH [of q w] show ?thesis by (simp add: reach_zero)
  next
    case 3
    let ?t = "min q (lots l)"
    have "walk_worst ls (q - ?t) (max w (price_tick l)) \<le> limit" using Cons.prems(4) 3 by simp
    moreover from this have "price_tick l \<le> limit"
      using walk_worst_ge [of "max w (price_tick l)" ls "q - ?t"] by linarith
    then have "reach limit l = lots l" using Cons.prems(1) by (simp add: reach_eq_lots)
    moreover have "0 \<le> q - ?t" "q - ?t \<le> depth ls"
      using Cons.prems(3) depth_nonneg [of ls] unfolding depth_simps by linarith+
    ultimately have IH: "fill_cost limit ls (q - ?t) = walk_cost ls (q - ?t)"
      "q - ?t \<le> reachable_lots limit ls" and r: "reach limit l = lots l"
      using Cons.IH [of "q - ?t" "max w (price_tick l)"] Cons.prems(1) by simp_all
    from IH(2) have "q \<le> lots l + reachable_lots limit ls" by linarith
    with IH(1) r show ?thesis by simp
  qed
qed simp

text \<open>
  C22: Paper execution honours the pricing it was planned with: when the prefix pricing of a
  usable ascending depth view succeeds for the quantity of an order and its worst price is within
  the order's limit, the simulated buy on the same view fills the order in full at exactly the
  priced average, provided no level holds \<open>2^63\<close> lots or more.
\<close>
theorem priced_order_fills_at_price:
  assumes "length (dv_asks view) = kMaxSnapshotDepth" "dv_ask_count view \<le> kMaxSnapshotDepth"
    and "dv_prefix view = build_depth_prefix (dv_bids view) (dv_bid_count view) (dv_asks view) (dv_ask_count view)"
    and "dv_usable_for_depth view" "ascending (view_asks view)" "\<forall>l \<in> set (view_asks view). size_fits l"
    and "in_i64 (co_quantity_lots order)"
    and "pv_ok (buy_vwap_from_view view (co_quantity_lots order))"
    and "pv_worst_price_tick (buy_vwap_from_view view (co_quantity_lots order)) \<le> co_limit_price_tick order"
  shows "fs_full (simulate_buy_depth_view order view) \<and>
    fs_filled_lots (simulate_buy_depth_view order view) = co_quantity_lots order \<and>
    fs_avg_fill_price_tick (simulate_buy_depth_view order view) =
      pv_vwap_tick (buy_vwap_from_view view (co_quantity_lots order))"
proof -
  let ?q = "co_quantity_lots order" and ?S = "view_asks view" and ?L = "co_limit_price_tick order"
  have S: "snapshot_side (dv_asks view) (dv_ask_count view) = ?S"
    using assms(2) by (simp add: snapshot_side_def view_asks_def min_absorb1)
  have price: "buy_vwap_from_view view ?q =
    (if 0 < ?q \<and> ?q \<le> depth ?S \<and> walk_cost ?S ?q \<le> i64_max
     then \<lparr>pv_ok = True, pv_qty_lots = ?q, pv_total_cost_tick = walk_cost ?S ?q,
           pv_vwap_tick = walk_cost ?S ?q sdiv ?q,
           pv_worst_price_tick = price_tick (?S ! hit_level ?S ?q)\<rparr>
     else \<lparr>pv_ok = False, pv_qty_lots = ?q, pv_total_cost_tick = 0, pv_vwap_tick = 0,
           pv_worst_price_tick = 0\<rparr>)"
    using buy_vwap_from_prefix_exact [OF assms(1,7), of "dv_bids view" "dv_bid_count view" "dv_ask_count view"]
    by (simp add: buy_vwap_from_view_def assms(3) S)
  have ok: "0 < ?q" "?q \<le> depth ?S" "walk_cost ?S ?q \<le> i64_max"
    using assms(8) by (simp_all add: price split: if_splits)
  have qmax: "?q \<le> i64_max" using assms(7) by (simp add: in_i64_def)
  have count: "dv_ask_count view \<noteq> 0" using ok(1,2) by (auto simp: view_asks_def intro: ccontr)
  have "walk_worst ?S ?q 0 \<le> ?L"
    using assms(9) ok walk_worst_at_hit [OF assms(5) ok(1) qmax ok(2)] by (simp add: price)
  from fill_follows_walk [OF assms(6) _ ok(2) this] ok
  have walk: "fill_cost ?L ?S ?q = walk_cost ?S ?q" "?q \<le> reachable_lots ?L ?S" by simp_all
  have "fill_loop ?L ?S ?q 0 0 = (0, ?q, walk_cost ?S ?q)"
    using fill_loop_exact [of ?q 0 0 ?L ?S] ok qmax walk by (simp add: min_absorb1)
  then show ?thesis
    using ok assms(4) count by (simp add: simulate_buy_depth_view_def Let_def view_asks_def finish_fill_simps price)
qed

theorem priced_order_fills_at_price_witness:
  "fs_filled_lots (simulate_buy_depth_view (sample_order 11 8) sample_view) = 8 \<and>
   fs_avg_fill_price_tick (simulate_buy_depth_view (sample_order 11 8) sample_view) = 13"
proof -
  have asks: "view_asks sample_view = sample_asks"
    by (simp add: view_asks_def sample_view_def length_sample_asks)
  have side: "snapshot_side sample_asks kMaxSnapshotDepth = sample_asks"
    by (rule snapshot_side_full [OF length_sample_asks])
  have eight: "in_i64 8" "(8 :: int) \<le> i64_max" by (simp_all add: in_i64_def i64_bounds)
  have hit: "price_tick (sample_asks ! hit_level sample_asks 8) = 20"
    using walk_worst_at_hit [OF ascending_sample_asks, of 8]
    by (simp add: depth_sample_asks i64_bounds)
       (simp add: sample_asks_def lots_sample walk_worst_0, simp add: sample_level_def)
  have price: "buy_vwap_from_view sample_view 8 =
      \<lparr>pv_ok = True, pv_qty_lots = 8, pv_total_cost_tick = 110, pv_vwap_tick = 13, pv_worst_price_tick = 20\<rparr>"
    using buy_vwap_from_prefix_exact [OF length_sample_asks eight(1), of "[]" 0 kMaxSnapshotDepth]
    by (simp add: buy_vwap_from_view_def sample_view_def side depth_sample_asks walk_cost_sample_asks
        hit i64_bounds sdiv_nonneg)
  have q: "co_quantity_lots (sample_order 11 8) = 8" "co_limit_price_tick (sample_order 11 8) = 60"
    by (simp_all add: sample_order_def)
  have "\<forall>l \<in> set sample_asks. size_fits l"
    by (auto simp: sample_asks_def size_fits_def sample_level_def)
  then show ?thesis
    using priced_order_fills_at_price [of sample_view "sample_order 11 8"]
    by (simp add: q price asks ascending_sample_asks eight)
       (simp add: sample_view_def length_sample_asks)
qed

end
