(* ===== verification/ExecutionPlanning.thy ===== *)
theory ExecutionPlanning
  imports FillTracking OrderDecisionTypes
begin

section \<open>Building and validating plans\<close>

text \<open>
  \<open>engine/execution/plan\<close>: \<open>PlanValidator.cpp\<close>, \<open>OrderBuilder.cpp\<close> and
  \<open>ExecutionPlanner.cpp\<close>. A validation or planning error is \<open>Inl\<close> with the source's message.
  Lemmas: what a validated plan satisfies, that a built plan mirrors the approved legs order by
  order, and that every plan built is a valid one.
\<close>

subsection \<open>PlanValidator\<close>

definition validate_child_order :: "ChildOrder \<Rightarrow> string + unit" where
  "validate_child_order order =
     (if co_order_id order = 0 then Inl ''missing order_id''
      else if co_plan_id order = 0 then Inl ''missing plan_id''
      else if co_client_order_id order = [] then Inl ''missing client_order_id''
      else if co_market_id order = [] then Inl ''missing market_id''
      else if co_asset_id order = [] then Inl ''missing asset_id''
      else if co_quantity_lots order \<le> 0 then Inl ''invalid quantity_lots''
      else if co_limit_price_tick order \<le> 0 then Inl ''invalid limit_price_tick''
      else if co_worst_allowed_price_tick order \<le> 0 then Inl ''invalid worst_allowed_price_tick''
      else Inr ())"

text \<open>The loop over the orders, with the client numbers seen so far.\<close>

fun validate_orders :: "u64 \<Rightarrow> string set \<Rightarrow> ChildOrder list \<Rightarrow> string + unit" where
  "validate_orders plan_id client_order_ids [] = Inr ()"
| "validate_orders plan_id client_order_ids (order # orders) =
     (case validate_child_order order of
        Inl error \<Rightarrow> Inl error
      | Inr _ \<Rightarrow>
          if co_plan_id order \<noteq> plan_id then Inl ''child plan_id mismatch''
          else if co_client_order_id order \<in> client_order_ids then Inl ''duplicate client_order_id''
          else validate_orders plan_id (insert (co_client_order_id order) client_order_ids) orders)"

definition validate_impl :: "OrderPlan \<Rightarrow> ExecutionConfig \<Rightarrow> bool \<Rightarrow> string + unit" where
  "validate_impl plan config require_reservation =
     (let max_orders = min (xc_max_child_orders_per_plan config) kMaxChildOrdersPerPlan in
      if op_plan_id plan = 0 then Inl ''missing plan_id''
      else if op_source_intent_id plan = 0 then Inl ''missing source_intent_id''
      else if op_approved_intent_id plan = 0 then Inl ''missing approved_intent_id''
      else if require_reservation \<and> op_reservation_id plan = 0 then Inl ''missing reservation_id''
      else if max_orders = 0 \<or> op_order_count plan = 0 \<or> op_order_count plan > max_orders
        then Inl ''invalid order_count''
      else if op_max_total_cost_tick plan \<le> 0 then Inl ''missing max_total_cost_tick''
      else if op_max_slippage_tick plan < 0 then Inl ''invalid max_slippage_tick''
      else if op_idempotency_key plan = [] then Inl ''missing idempotency_key''
      else if op_expire_after_ns plan \<le> op_created_ts_ns plan then Inl ''invalid expiration''
      else if xc_max_order_age_ns config > 0 \<and>
              op_expire_after_ns plan - op_created_ts_ns plan > word_of_int (xc_max_order_age_ns config)
        then Inl ''ttl exceeds max_order_age_ns''
      else validate_orders (op_plan_id plan) {} (plan_orders plan))"

definition default_config :: ExecutionConfig where
  "default_config =
     \<lparr>xc_mode = Paper, xc_execution_enabled = False, xc_live_enabled = False,
      xc_paper_mode = PaperAtomic, xc_allow_partial_fill_paper = False,
      xc_max_child_orders_per_plan = 16, xc_max_plans_per_second = 10,
      xc_max_order_age_ns = 1000000000, xc_default_time_in_force_ns = 1000000000,
      xc_hot_path_trust_order_decision_hash = False, xc_hot_path_trust_approval_hash = False,
      xc_hot_path_skip_plan_validation = False, xc_hot_path_skip_order_strings = False,
      xc_hot_path_numeric_plan_id = False\<rparr>"

definition validate_plan :: "OrderPlan \<Rightarrow> ExecutionConfig \<Rightarrow> string + unit" where
  "validate_plan plan config = validate_impl plan config True"

definition validate_plan_structure :: "OrderPlan \<Rightarrow> bool \<Rightarrow> string + unit" where
  "validate_plan_structure plan require_reservation =
     validate_impl plan (default_config\<lparr>xc_max_order_age_ns := 0\<rparr>) require_reservation"

subsection \<open>OrderBuilder\<close>

text \<open>
  \<open>std::from_chars\<close> accepts a non-empty run of digits whose value fits into 64 bits; anything
  else, and a string with further characters, is hashed.
\<close>

definition reservation_id_from_string :: "string \<Rightarrow> u64" where
  "reservation_id_from_string value =
     (if value = [] then 0
      else if list_all is_digit value \<and> dec_value value < 18446744073709551616
      then of_nat (dec_value value)
      else nonzero_hash (fnv_string value fnv_offset))"

definition default_order :: ChildOrder where
  "default_order =
     \<lparr>co_order_id = 0, co_plan_id = 0, co_client_order_id = [], co_market_id = [],
      co_asset_id = [], co_market_index = 0, co_asset_index = 0, co_side = OrderBuy,
      co_quantity_lots = 0, co_limit_price_tick = 0, co_estimated_vwap_tick = 0,
      co_worst_allowed_price_tick = 0, co_status = COS_Created\<rparr>"

definition default_plan :: OrderPlan where
  "default_plan =
     \<lparr>op_plan_id = 0, op_source_intent_id = 0, op_approved_intent_id = 0, op_reservation_id = 0,
      op_bundle_id = 0, op_status = PS_Created, op_order_count = 0,
      op_orders = replicate kMaxChildOrdersPerPlan default_order,
      op_max_total_cost_tick = 0, op_min_expected_edge_tick = 0, op_max_slippage_tick = 0,
      op_chosen_bundle_qty = 0, op_guaranteed_payout_tick = 0, op_expected_terminal_pnl_tick = 0,
      op_created_ts_ns = 0, op_expire_after_ns = 0, op_idempotency_key = []\<rparr>"

text \<open>The array of a plan after its first orders were written.\<close>

definition order_array :: "ChildOrder list \<Rightarrow> ChildOrder list" where
  "order_array orders = orders @ replicate (kMaxChildOrdersPerPlan - length orders) default_order"

definition build_order :: "u64 \<Rightarrow> string \<Rightarrow> nat \<times> IntentLeg \<Rightarrow> ChildOrder" where
  "build_order plan_id idempotency_key p =
     (case p of (i, leg) \<Rightarrow>
        default_order\<lparr>co_order_id := of_nat (i + 1), co_plan_id := plan_id,
          co_client_order_id := idempotency_key @ ''-'' @ to_dec (i + 1),
          co_market_id := il_market_id leg, co_asset_id := il_asset_id leg,
          co_side := (if il_side leg = Buy then OrderBuy else OrderSell),
          co_quantity_lots := il_quantity_lots leg,
          co_limit_price_tick := il_worst_price_tick leg,
          co_estimated_vwap_tick := il_estimated_vwap_tick leg,
          co_worst_allowed_price_tick := il_worst_price_tick leg\<rparr>)"

definition build :: "ApprovedIntent \<Rightarrow> u64 \<Rightarrow> OrderPlan" where
  "build a now_ns =
     (let intent = ai_intent a;
          n = min (oi_leg_count intent) kMaxChildOrdersPerPlan
      in default_plan\<lparr>op_plan_id := oi_intent_id intent, op_source_intent_id := oi_intent_id intent,
           op_approved_intent_id := oi_intent_id intent,
           op_reservation_id := reservation_id_from_string (ai_reservation_id a),
           op_bundle_id := oi_bundle_id intent, op_created_ts_ns := now_ns,
           op_expire_after_ns := ai_expires_at_ns a,
           op_max_total_cost_tick := oi_estimated_cost_tick intent,
           op_min_expected_edge_tick := oi_total_edge_tick intent,
           op_max_slippage_tick := oi_slippage_buffer_tick intent,
           op_idempotency_key := oi_idempotency_key intent,
           op_order_count := n,
           op_orders := order_array
             (map (build_order (oi_intent_id intent) (oi_idempotency_key intent))
                (enumerate 0 (take n (oi_legs intent))))\<rparr>)"

subsection \<open>ExecutionPlanner\<close>

record ExecutionApproval =
  xa_decision_id :: u64
  xa_reservation_id :: u64
  xa_bundle_id :: u64
  xa_approved_bundle_qty :: i64
  xa_idempotency_key :: string

record ApprovedIntentEnvelope =
  ie_source_intent :: OpportunityIntent
  ie_approval :: ExecutionApproval

definition make_plan_id :: "ApprovedIntentEnvelope \<Rightarrow> u64" where
  "make_plan_id envelope =
     nonzero_hash
      (fnv_string (xa_idempotency_key (ie_approval envelope))
      (fnv_u64 (xa_bundle_id (ie_approval envelope))
      (fnv_u64 (xa_reservation_id (ie_approval envelope))
      (fnv_u64 (xa_decision_id (ie_approval envelope))
      (fnv_u64 (oi_intent_id (ie_source_intent envelope)) fnv_offset)))))"

definition make_decision_plan_id :: "ApprovedOrderDecisionEnvelope \<Rightarrow> u64" where
  "make_decision_plan_id envelope =
     nonzero_hash
      (fnv_string (oi_idempotency_key (ai_intent (ae_approved envelope)))
      (fnv_u64 (ae_bundle_id envelope)
      (fnv_u64 (ai_reservation_id_hash (ae_approved envelope))
      (fnv_u64 (rd_decision_id (ai_decision (ae_approved envelope)))
      (fnv_u64 (ae_approval_hash envelope)
      (fnv_u64 (ae_decision_hash envelope)
      (fnv_u64 (ae_source_intent_id envelope) fnv_offset)))))))"

definition make_numeric_plan_id :: "ApprovedOrderDecisionEnvelope \<Rightarrow> u64" where
  "make_numeric_plan_id envelope =
     nonzero_hash
      (fnv_u64 (ae_bundle_id envelope)
      (fnv_u64 (oi_idempotency_hash (ai_intent (ae_approved envelope)))
      (fnv_u64 (ai_reservation_id_hash (ae_approved envelope))
      (fnv_u64 (rd_decision_id (ai_decision (ae_approved envelope)))
      (fnv_u64 (ae_approval_hash envelope)
      (fnv_u64 (ae_decision_hash envelope)
      (fnv_u64 (ae_source_intent_id envelope) fnv_offset)))))))"

definition make_client_order_id :: "u64 \<Rightarrow> nat \<Rightarrow> string \<Rightarrow> string" where
  "make_client_order_id plan_id order_index idempotency_key =
     to_dec (unat (fnv_string idempotency_key
       (fnv_u64 (of_nat order_index) (fnv_u64 plan_id fnv_offset))))"

definition multiply_would_overflow :: "i64 \<Rightarrow> i64 \<Rightarrow> bool" where
  "multiply_would_overflow left right =
     (if left \<le> 0 \<or> right \<le> 0 then False else left > i64_max sdiv right)"

text \<open>A loop over the legs that stops at the first error.\<close>

fun build_orders :: "(nat \<Rightarrow> 'a \<Rightarrow> string + ChildOrder) \<Rightarrow> nat \<Rightarrow> 'a list \<Rightarrow> string + ChildOrder list" where
  "build_orders f i [] = Inr []"
| "build_orders f i (leg # legs) =
     (case f i leg of
        Inl error \<Rightarrow> Inl error
      | Inr order \<Rightarrow>
          (case build_orders f (Suc i) legs of
             Inl error \<Rightarrow> Inl error
           | Inr orders \<Rightarrow> Inr (order # orders)))"

definition intent_order :: "u64 \<Rightarrow> string \<Rightarrow> i64 \<Rightarrow> nat \<Rightarrow> IntentLeg \<Rightarrow> string + ChildOrder" where
  "intent_order plan_id idempotency_key approved_bundle_qty i leg =
     (if il_side leg \<noteq> Buy then Inl ''UnsupportedSide''
      else if il_quantity_lots leg \<le> 0 then Inl ''invalid leg quantity''
      else if multiply_would_overflow approved_bundle_qty (il_quantity_lots leg)
        then Inl ''child order quantity overflow''
      else Inr (default_order\<lparr>co_order_id := of_nat (i + 1), co_plan_id := plan_id,
             co_client_order_id := make_client_order_id plan_id i idempotency_key,
             co_market_id := il_market_id leg, co_asset_id := il_asset_id leg,
             co_asset_index := il_asset_index leg, co_side := OrderBuy,
             co_quantity_lots := wrap_i64 (approved_bundle_qty * il_quantity_lots leg),
             co_limit_price_tick := il_worst_price_tick leg,
             co_estimated_vwap_tick := il_estimated_vwap_tick leg,
             co_worst_allowed_price_tick := il_worst_price_tick leg\<rparr>))"

definition build_intent_plan ::
  "ApprovedIntentEnvelope \<Rightarrow> u64 \<Rightarrow> ExecutionConfig \<Rightarrow> string + OrderPlan" where
  "build_intent_plan envelope now_ns config =
     (let intent = ie_source_intent envelope;
          approval = ie_approval envelope;
          max_orders = min (xc_max_child_orders_per_plan config) kMaxChildOrdersPerPlan
      in
      if xa_decision_id approval = 0 then Inl ''missing decision_id''
      else if xa_reservation_id approval = 0 then Inl ''missing reservation_id''
      else if oi_status intent \<noteq> PaperOpportunity
        then Inl ''source intent is not PaperOpportunity''
      else if oi_expires_at_ns intent \<le> now_ns then Inl ''source intent expired''
      else if oi_idempotency_key intent \<noteq> xa_idempotency_key approval
        then Inl ''idempotency_key mismatch''
      else if oi_bundle_id intent \<noteq> xa_bundle_id approval then Inl ''bundle_id mismatch''
      else if xa_approved_bundle_qty approval \<le> 0 then Inl ''invalid approved_bundle_qty''
      else if oi_leg_count intent = 0 then Inl ''source intent has no legs''
      else if oi_leg_count intent > max_orders then Inl ''too many child orders''
      else
        (let plan_id = make_plan_id envelope in
         case build_orders
                (intent_order plan_id (oi_idempotency_key intent) (xa_approved_bundle_qty approval))
                0 (intent_legs intent) of
           Inl error \<Rightarrow> Inl error
         | Inr orders \<Rightarrow>
             (let plan =
                default_plan\<lparr>op_plan_id := plan_id, op_source_intent_id := oi_intent_id intent,
                  op_approved_intent_id := xa_decision_id approval,
                  op_reservation_id := xa_reservation_id approval,
                  op_bundle_id := oi_bundle_id intent, op_order_count := oi_leg_count intent,
                  op_orders := order_array orders,
                  op_max_total_cost_tick := oi_estimated_cost_tick intent,
                  op_min_expected_edge_tick :=
                    (if oi_total_edge_tick intent \<noteq> 0 then oi_total_edge_tick intent
                     else oi_estimated_edge_tick intent),
                  op_max_slippage_tick := oi_slippage_buffer_tick intent,
                  op_chosen_bundle_qty := xa_approved_bundle_qty approval,
                  op_guaranteed_payout_tick := oi_guaranteed_payout_tick intent,
                  op_expected_terminal_pnl_tick :=
                    wrap_i64 (oi_guaranteed_payout_tick intent - oi_estimated_cost_tick intent),
                  op_created_ts_ns := now_ns, op_expire_after_ns := oi_expires_at_ns intent,
                  op_idempotency_key := oi_idempotency_key intent\<rparr>
              in case validate_plan_structure plan True of
                   Inl error \<Rightarrow> Inl error
                 | Inr _ \<Rightarrow> Inr plan)))"

text \<open>
  The loop of the decision planner reads the market and asset names from the source intent's
  legs, unless the names are skipped.
\<close>

definition decision_order ::
  "ExecutionConfig \<Rightarrow> OpportunityIntent \<Rightarrow> u64 \<Rightarrow> string \<Rightarrow> nat \<Rightarrow> OrderDecisionLegLite
     \<Rightarrow> string + ChildOrder" where
  "decision_order config intent plan_id idempotency_key i leg =
     (let named = \<not> xc_hot_path_skip_order_strings config \<and> oi_leg_count intent > i in
      if ll_side leg \<noteq> Buy then Inl ''UnsupportedSide''
      else if ll_quantity_lots leg \<le> 0 \<or> ll_limit_price_tick leg \<le> 0
        then Inl ''invalid decision leg''
      else Inr (default_order\<lparr>co_order_id := of_nat (i + 1), co_plan_id := plan_id,
             co_market_index := ll_market_index leg, co_asset_index := ll_asset_index leg,
             co_client_order_id :=
               (if \<not> xc_hot_path_skip_order_strings config
                then make_client_order_id plan_id i idempotency_key else []),
             co_market_id := (if named then il_market_id (oi_legs intent ! i) else []),
             co_asset_id := (if named then il_asset_id (oi_legs intent ! i) else []),
             co_side := OrderBuy, co_quantity_lots := ll_quantity_lots leg,
             co_limit_price_tick := ll_limit_price_tick leg,
             co_estimated_vwap_tick := ll_estimated_vwap_tick leg,
             co_worst_allowed_price_tick := ll_limit_price_tick leg\<rparr>))"

text \<open>The checks that precede the plan, in their order.\<close>

definition check_decision_envelope ::
  "ApprovedOrderDecisionEnvelope \<Rightarrow> u64 \<Rightarrow> ExecutionConfig \<Rightarrow> string + unit" where
  "check_decision_envelope envelope now_ns config =
     (let a = ae_approved envelope;
          intent = ai_intent a;
          risk = ai_decision a;
          decision = ae_decision envelope;
          max_orders = min (xc_max_child_orders_per_plan config) kMaxChildOrdersPerPlan
      in
      if \<not> approved_valid a then Inl ''approved intent is invalid''
      else if rd_decision_id risk = 0 then Inl ''missing decision_id''
      else if ai_reservation_id_hash a = 0 \<and> ai_reservation_id a = []
        then Inl ''missing reservation_id''
      else if ol_type decision \<noteq> PaperOrderDecision
        then Inl ''order decision is not PaperOrderDecision''
      else if ol_expires_at_ns decision \<le> now_ns then Inl ''order decision expired''
      else if oi_intent_id intent \<noteq> ol_source_intent_id decision
        then Inl ''decision intent mismatch''
      else if rd_intent_id risk \<noteq> 0 \<and> rd_intent_id risk \<noteq> ol_source_intent_id decision
        then Inl ''decision approval mismatch''
      else if rd_idempotency_hash risk \<noteq> 0 \<and> oi_idempotency_hash intent \<noteq> 0 \<and>
              rd_idempotency_hash risk \<noteq> oi_idempotency_hash intent
        then Inl ''decision approval mismatch''
      else if oi_bundle_id intent \<noteq> ol_bundle_id decision \<or>
              rd_bundle_id risk \<noteq> ol_bundle_id decision \<or>
              ae_bundle_id envelope \<noteq> ol_bundle_id decision
        then Inl ''bundle_id mismatch''
      else if ae_source_intent_id envelope \<noteq> 0 \<and>
              ae_source_intent_id envelope \<noteq> ol_source_intent_id decision
        then Inl ''envelope source_intent_id mismatch''
      else if ae_decision_hash envelope \<noteq> 0 \<and>
              ae_decision_hash envelope \<noteq> ol_decision_hash decision
        then Inl ''envelope decision_hash mismatch''
      else if \<not> xc_hot_path_trust_order_decision_hash config \<and>
              compute_order_decision_hash decision \<noteq> ol_decision_hash decision
        then Inl ''decision hash mismatch''
      else if ae_approval_hash envelope \<noteq> 0 \<and> \<not> xc_hot_path_trust_approval_hash config \<and>
              ae_approval_hash envelope \<noteq> compute_approved_intent_hash a
        then Inl ''approval hash mismatch''
      else if ol_leg_count decision = 0 then Inl ''order decision has no legs''
      else if ol_leg_count decision > max_orders then Inl ''too many child orders''
      else Inr ())"

definition decision_plan_of ::
  "ApprovedOrderDecisionEnvelope \<Rightarrow> u64 \<Rightarrow> u64 \<Rightarrow> string \<Rightarrow> ChildOrder list \<Rightarrow> OrderPlan" where
  "decision_plan_of envelope now_ns plan_id key orders =
     (let decision = ae_decision envelope in
      default_plan\<lparr>op_plan_id := plan_id,
        op_source_intent_id := ol_source_intent_id decision,
        op_approved_intent_id := rd_decision_id (ai_decision (ae_approved envelope)),
        op_reservation_id := ai_reservation_id_hash (ae_approved envelope),
        op_bundle_id := ol_bundle_id decision, op_order_count := ol_leg_count decision,
        op_orders := order_array orders,
        op_max_total_cost_tick := ol_estimated_total_cost_tick decision,
        op_min_expected_edge_tick := ol_total_edge_tick decision,
        op_max_slippage_tick := ol_slippage_buffer_tick decision,
        op_chosen_bundle_qty := ol_chosen_bundle_qty decision,
        op_guaranteed_payout_tick := ol_guaranteed_payout_tick decision,
        op_expected_terminal_pnl_tick :=
          wrap_i64 (ol_guaranteed_payout_tick decision - ol_estimated_total_cost_tick decision),
        op_created_ts_ns := now_ns, op_expire_after_ns := ol_expires_at_ns decision,
        op_idempotency_key := key\<rparr>)"

definition build_decision_plan ::
  "ApprovedOrderDecisionEnvelope \<Rightarrow> u64 \<Rightarrow> ExecutionConfig \<Rightarrow> string + OrderPlan" where
  "build_decision_plan envelope now_ns config =
     (case check_decision_envelope envelope now_ns config of
        Inl error \<Rightarrow> Inl error
      | Inr _ \<Rightarrow>
          (let intent = ai_intent (ae_approved envelope);
               plan_id = (if xc_hot_path_numeric_plan_id config then make_numeric_plan_id envelope
                          else make_decision_plan_id envelope);
               key = (if \<not> xc_hot_path_skip_order_strings config then oi_idempotency_key intent else [])
           in
           case build_orders (decision_order config intent plan_id key) 0
                  (lite_legs (ae_decision envelope)) of
             Inl error \<Rightarrow> Inl error
           | Inr orders \<Rightarrow>
               (let plan = decision_plan_of envelope now_ns plan_id key orders
                in if xc_hot_path_skip_plan_validation config then Inr plan
                   else case validate_plan_structure plan True of
                          Inl error \<Rightarrow> Inl error
                        | Inr _ \<Rightarrow> Inr plan)))"

subsection \<open>What the validator accepts\<close>

definition child_order_valid :: "ChildOrder \<Rightarrow> bool" where
  "child_order_valid order \<longleftrightarrow>
     co_order_id order \<noteq> 0 \<and> co_plan_id order \<noteq> 0 \<and> co_client_order_id order \<noteq> [] \<and>
     co_market_id order \<noteq> [] \<and> co_asset_id order \<noteq> [] \<and> 0 < co_quantity_lots order \<and>
     0 < co_limit_price_tick order \<and> 0 < co_worst_allowed_price_tick order"

lemma validate_child_order_iff: "validate_child_order order = Inr () \<longleftrightarrow> child_order_valid order"
  by (auto simp: validate_child_order_def child_order_valid_def)

lemma validate_orders_iff:
  "validate_orders plan_id seen orders = Inr () \<longleftrightarrow>
     (\<forall>order \<in> set orders. child_order_valid order \<and> co_plan_id order = plan_id \<and>
        co_client_order_id order \<notin> seen) \<and>
     distinct (map co_client_order_id orders)"
proof (induction orders arbitrary: seen)
  case (Cons order orders)
  show ?case
  proof (cases "validate_child_order order")
    case (Inl e)
    then have "\<not> child_order_valid order" by (metis Inl_Inr_False validate_child_order_iff)
    with Inl show ?thesis by simp
  next
    case (Inr u)
    then have "child_order_valid order" by (metis (full_types) old.unit.exhaust validate_child_order_iff)
    with Inr Cons.IH [of "insert (co_client_order_id order) seen"] show ?thesis by (auto simp: image_iff)
  qed
qed simp

definition plan_valid :: "OrderPlan \<Rightarrow> bool" where
  "plan_valid plan \<longleftrightarrow>
     op_plan_id plan \<noteq> 0 \<and> op_source_intent_id plan \<noteq> 0 \<and> op_approved_intent_id plan \<noteq> 0 \<and>
     op_reservation_id plan \<noteq> 0 \<and> 0 < op_order_count plan \<and>
     op_order_count plan \<le> kMaxChildOrdersPerPlan \<and> 0 < op_max_total_cost_tick plan \<and>
     0 \<le> op_max_slippage_tick plan \<and> op_idempotency_key plan \<noteq> [] \<and>
     op_created_ts_ns plan < op_expire_after_ns plan \<and>
     (\<forall>order \<in> set (plan_orders plan). child_order_valid order \<and> co_plan_id order = op_plan_id plan) \<and>
     distinct (map co_client_order_id (plan_orders plan))"

lemma validate_plan_iff:
  "validate_plan plan config = Inr () \<longleftrightarrow>
     plan_valid plan \<and> op_order_count plan \<le> xc_max_child_orders_per_plan config \<and>
     (0 < xc_max_order_age_ns config \<longrightarrow>
        op_expire_after_ns plan - op_created_ts_ns plan \<le> word_of_int (xc_max_order_age_ns config))"
  by (auto simp: validate_plan_def validate_impl_def plan_valid_def Let_def validate_orders_iff not_le not_less)

lemma validate_plan_structure_iff:
  "validate_plan_structure plan True = Inr () \<longleftrightarrow> plan_valid plan"
  by (auto simp: validate_plan_structure_def validate_impl_def plan_valid_def Let_def validate_orders_iff
      not_le not_less default_config_def kMaxChildOrdersPerPlan_def)

subsection \<open>What the planner builds\<close>

lemma build_orders_Inr:
  "build_orders f i legs = Inr orders \<Longrightarrow>
     length orders = length legs \<and> (\<forall>k < length legs. f (i + k) (legs ! k) = Inr (orders ! k))"
proof (induction legs arbitrary: i orders)
  case (Cons leg legs)
  then obtain ord ords where f: "f i leg = Inr ord" and rest: "build_orders f (Suc i) legs = Inr ords"
    and orders: "orders = ord # ords"
    by (auto split: sum.splits)
  show ?case using Cons.IH [OF rest] f by (auto simp: orders nth_Cons' less_Suc_eq_0_disj)
qed simp

lemma plan_orders_array:
  "length orders \<le> kMaxChildOrdersPerPlan \<Longrightarrow>
   plan_orders (plan\<lparr>op_order_count := length orders, op_orders := order_array orders\<rparr>) = orders"
  by (simp add: plan_orders_def order_array_def)

lemma multiply_fits:
  assumes "\<not> multiply_would_overflow x y" "0 < x" "0 < y"
  shows "0 < x * y \<and> x * y \<le> i64_max"
proof -
  have "x \<le> i64_max div y"
    using assms by (simp add: multiply_would_overflow_def sdiv_nonneg i64_bounds split: if_splits)
  then have "x * y \<le> i64_max" using assms(3) by (simp add: le_div_iff_mult_le)
  with assms show ?thesis by simp
qed

definition mirrors_intent_leg :: "u64 \<Rightarrow> i64 \<Rightarrow> IntentLeg \<Rightarrow> ChildOrder \<Rightarrow> bool" where
  "mirrors_intent_leg plan_id qty leg order \<longleftrightarrow>
     il_side leg = Buy \<and> co_side order = OrderBuy \<and> co_plan_id order = plan_id \<and>
     co_quantity_lots order = qty * il_quantity_lots leg \<and>
     0 < co_quantity_lots order \<and> co_quantity_lots order \<le> i64_max \<and>
     co_limit_price_tick order = il_worst_price_tick leg \<and>
     co_market_id order = il_market_id leg \<and> co_asset_id order = il_asset_id leg \<and>
     co_asset_index order = il_asset_index leg"

lemma intent_order_Inr:
  assumes "intent_order plan_id key qty i leg = Inr order" "0 < qty"
  shows "mirrors_intent_leg plan_id qty leg order \<and> co_order_id order = of_nat (i + 1) \<and>
    co_status order = COS_Created"
proof -
  have "\<not> multiply_would_overflow qty (il_quantity_lots leg)" "0 < il_quantity_lots leg" "il_side leg = Buy"
    using assms(1) by (auto simp: intent_order_def split: if_splits)
  moreover from this have "0 < qty * il_quantity_lots leg \<and> qty * il_quantity_lots leg \<le> i64_max"
    using assms(2) by (intro multiply_fits)
  ultimately show ?thesis using assms(1)
    by (auto simp: intent_order_def mirrors_intent_leg_def default_order_def wrap_i64_id in_i64_nonneg
        split: if_splits)
qed

text \<open>Order numbers \<open>1, 2, ...\<close> are distinct within the 16 orders of a plan.\<close>

lemma order_ids_distinct:
  assumes "length orders \<le> kMaxChildOrdersPerPlan"
    and "\<And>k. k < length orders \<Longrightarrow> co_order_id (orders ! k) = of_nat (k + 1)"
  shows "distinct (map co_order_id orders)"
proof -
  have "of_nat (i + 1) \<noteq> (of_nat (j + 1) :: u64)" if "i < 16" "j < 16" "i \<noteq> j" for i j :: nat
  proof
    assume "of_nat (i + 1) = (of_nat (j + 1) :: u64)"
    then have "unat (of_nat (i + 1) :: u64) = unat (of_nat (j + 1) :: u64)" by simp
    with that show False
      by (simp add: unat_of_nat take_bit_nat_eq_self del: of_nat_add of_nat_Suc)
  qed
  with assms show ?thesis
    by (auto simp: distinct_conv_nth kMaxChildOrdersPerPlan_def simp del: of_nat_add of_nat_Suc)
qed

subsection \<open>Properties\<close>

lemma intent_plan_facts:
  assumes "build_intent_plan envelope now_ns config = Inr plan"
    and "oi_leg_count (ie_source_intent envelope) \<le> length (oi_legs (ie_source_intent envelope))"
  shows "plan_valid plan \<and> now_ns < op_expire_after_ns plan \<and>
    op_reservation_id plan = xa_reservation_id (ie_approval envelope) \<and>
    op_plan_id plan = make_plan_id envelope \<and> op_status plan = PS_Created \<and>
    list_all2 (mirrors_intent_leg (op_plan_id plan) (xa_approved_bundle_qty (ie_approval envelope)))
      (intent_legs (ie_source_intent envelope)) (plan_orders plan) \<and>
    distinct (map co_order_id (plan_orders plan)) \<and>
    length (plan_orders plan) = op_order_count plan \<and>
    op_order_count plan \<le> xc_max_child_orders_per_plan config"
proof -
  let ?intent = "ie_source_intent envelope" and ?approval = "ie_approval envelope"
  let ?f = "intent_order (make_plan_id envelope) (oi_idempotency_key ?intent) (xa_approved_bundle_qty ?approval)"
  from assms(1) obtain orders where
    orders: "build_orders ?f 0 (intent_legs ?intent) = Inr orders" and
    guards: "0 < xa_approved_bundle_qty ?approval" "now_ns < oi_expires_at_ns ?intent"
      "oi_leg_count ?intent \<le> min (xc_max_child_orders_per_plan config) kMaxChildOrdersPerPlan" and
    plan: "op_plan_id plan = make_plan_id envelope" "op_orders plan = order_array orders"
      "op_order_count plan = oi_leg_count ?intent" "op_expire_after_ns plan = oi_expires_at_ns ?intent"
      "op_reservation_id plan = xa_reservation_id ?approval" "op_status plan = PS_Created" and
    valid: "validate_plan_structure plan True = Inr ()"
    by (auto simp: build_intent_plan_def Let_def default_plan_def not_le not_less
        split: if_splits sum.splits)
  note each = build_orders_Inr [OF orders]
  have len: "length orders = oi_leg_count ?intent"
    using each assms(2) by (simp add: intent_legs_def)
  have po: "plan_orders plan = orders"
    using len guards(3) by (simp add: plan_orders_def plan order_array_def)
  have one: "mirrors_intent_leg (make_plan_id envelope) (xa_approved_bundle_qty ?approval)
        (intent_legs ?intent ! k) (orders ! k) \<and> co_order_id (orders ! k) = of_nat (k + 1)"
    if "k < length orders" for k
    using intent_order_Inr [OF _ guards(1)] each that by fastforce
  have "distinct (map co_order_id orders)"
    using one len guards(3) by (intro order_ids_distinct) simp_all
  with one each valid guards plan len show ?thesis
    by (auto simp: po list_all2_conv_all_nth validate_plan_structure_iff)
qed

text \<open>
  C23: The plan built from an approved intent mirrors the approval: it is structurally valid
  (every check of the validator), carries the approval's identifiers, expires after it is
  created, and has one buy order per leg of the intent, in order, numbered from one with distinct
  numbers, whose quantity is the mathematical product of the approved bundle quantity and the
  leg's lots (positive and within 64 bits) and whose limit is the leg's worst price.
\<close>
theorem intent_plan_mirrors_approval:
  assumes "build_intent_plan envelope now_ns config = Inr plan"
    and "oi_leg_count (ie_source_intent envelope) \<le> length (oi_legs (ie_source_intent envelope))"
  shows "plan_valid plan \<and> now_ns < op_expire_after_ns plan \<and>
    op_reservation_id plan = xa_reservation_id (ie_approval envelope) \<and>
    op_plan_id plan = make_plan_id envelope \<and> op_status plan = PS_Created \<and>
    list_all2 (mirrors_intent_leg (op_plan_id plan) (xa_approved_bundle_qty (ie_approval envelope)))
      (intent_legs (ie_source_intent envelope)) (plan_orders plan) \<and>
    distinct (map co_order_id (plan_orders plan)) \<and>
    length (plan_orders plan) = op_order_count plan \<and>
    op_order_count plan \<le> xc_max_child_orders_per_plan config"
  using assms by (rule intent_plan_facts)

definition sample_envelope :: ApprovedIntentEnvelope where
  "sample_envelope =
     \<lparr>ie_source_intent = sample_intent,
      ie_approval = \<lparr>xa_decision_id = 21, xa_reservation_id = 22, xa_bundle_id = 9,
        xa_approved_bundle_qty = 2, xa_idempotency_key = ''k''\<rparr>\<rparr>"

lemma make_client_order_id_nonempty [simp]: "make_client_order_id p i k \<noteq> []"
  by (simp add: make_client_order_id_def)

lemma make_plan_id_nonzero [simp]: "make_plan_id envelope \<noteq> 0"
  by (simp add: make_plan_id_def)

lemma sample_envelope_plan:
  "\<exists>plan. build_intent_plan sample_envelope 500 default_config = Inr plan"
  by (simp add: build_intent_plan_def sample_envelope_def sample_intent_def Let_def default_config_def
      kMaxChildOrdersPerPlan_def intent_legs_def sample_leg_def intent_order_def multiply_would_overflow_def
      sdiv_nonneg i64_bounds validate_plan_structure_def validate_impl_def plan_orders_def order_array_def
      validate_child_order_def default_order_def default_plan_def wrap_i64_def)

theorem intent_plan_mirrors_approval_witness:
  "\<exists>plan. build_intent_plan sample_envelope 500 default_config = Inr plan \<and> plan_valid plan"
proof -
  obtain plan where plan: "build_intent_plan sample_envelope 500 default_config = Inr plan"
    using sample_envelope_plan by blast
  have "plan_valid plan"
    using intent_plan_mirrors_approval [OF plan]
    by (simp add: sample_envelope_def sample_intent_def)
  with plan show ?thesis by blast
qed

definition mirrors_decision_leg :: "u64 \<Rightarrow> OrderDecisionLegLite \<Rightarrow> ChildOrder \<Rightarrow> bool" where
  "mirrors_decision_leg plan_id leg order \<longleftrightarrow>
     ll_side leg = Buy \<and> co_side order = OrderBuy \<and> co_plan_id order = plan_id \<and>
     0 < ll_quantity_lots leg \<and> co_quantity_lots order = ll_quantity_lots leg \<and>
     0 < ll_limit_price_tick leg \<and> co_limit_price_tick order = ll_limit_price_tick leg \<and>
     co_worst_allowed_price_tick order = ll_limit_price_tick leg \<and>
     co_market_index order = ll_market_index leg \<and> co_asset_index order = ll_asset_index leg"

lemma decision_order_Inr:
  "decision_order config intent plan_id key i leg = Inr order \<Longrightarrow>
   mirrors_decision_leg plan_id leg order \<and> co_order_id order = of_nat (i + 1)"
  by (auto simp: decision_order_def mirrors_decision_leg_def default_order_def Let_def split: if_splits)

lemma decision_plan_checked:
  assumes "build_decision_plan envelope now_ns config = Inr plan"
  shows "approved_valid (ae_approved envelope) \<and> ol_type (ae_decision envelope) = PaperOrderDecision \<and>
    now_ns < ol_expires_at_ns (ae_decision envelope) \<and>
    oi_intent_id (ai_intent (ae_approved envelope)) = ol_source_intent_id (ae_decision envelope) \<and>
    oi_bundle_id (ai_intent (ae_approved envelope)) = ol_bundle_id (ae_decision envelope) \<and>
    rd_bundle_id (ai_decision (ae_approved envelope)) = ol_bundle_id (ae_decision envelope) \<and>
    (rd_intent_id (ai_decision (ae_approved envelope)) \<noteq> 0 \<longrightarrow>
       rd_intent_id (ai_decision (ae_approved envelope)) = ol_source_intent_id (ae_decision envelope)) \<and>
    (ae_decision_hash envelope \<noteq> 0 \<longrightarrow> ae_decision_hash envelope = ol_decision_hash (ae_decision envelope)) \<and>
    (\<not> xc_hot_path_trust_order_decision_hash config \<longrightarrow>
       ol_decision_hash (ae_decision envelope) = compute_order_decision_hash (ae_decision envelope)) \<and>
    (\<not> xc_hot_path_trust_approval_hash config \<and> ae_approval_hash envelope \<noteq> 0 \<longrightarrow>
       ae_approval_hash envelope = compute_approved_intent_hash (ae_approved envelope)) \<and>
    ol_leg_count (ae_decision envelope) \<le> min (xc_max_child_orders_per_plan config) kMaxChildOrdersPerPlan"
proof -
  have "check_decision_envelope envelope now_ns config = Inr ()"
    using assms by (auto simp: build_decision_plan_def split: sum.splits)
  then show ?thesis unfolding check_decision_envelope_def Let_def
    by (simp add: not_le not_less split: if_splits) auto
qed

lemma decision_plan_built:
  assumes "build_decision_plan envelope now_ns config = Inr plan"
  shows "\<exists>key orders.
    build_orders (decision_order config (ai_intent (ae_approved envelope)) (op_plan_id plan) key) 0
      (lite_legs (ae_decision envelope)) = Inr orders \<and>
    op_orders plan = order_array orders \<and> op_order_count plan = ol_leg_count (ae_decision envelope) \<and>
    op_expire_after_ns plan = ol_expires_at_ns (ae_decision envelope) \<and>
    op_source_intent_id plan = ol_source_intent_id (ae_decision envelope) \<and>
    op_bundle_id plan = ol_bundle_id (ae_decision envelope) \<and>
    (\<not> xc_hot_path_skip_plan_validation config \<longrightarrow> plan_valid plan) \<and>
    op_idempotency_key plan = key \<and> (xc_hot_path_skip_order_strings config \<longrightarrow> key = [])"
proof -
  let ?id = "if xc_hot_path_numeric_plan_id config then make_numeric_plan_id envelope
    else make_decision_plan_id envelope"
  let ?key = "if \<not> xc_hot_path_skip_order_strings config
    then oi_idempotency_key (ai_intent (ae_approved envelope)) else []"
  obtain orders where
    orders: "build_orders (decision_order config (ai_intent (ae_approved envelope)) ?id ?key) 0
      (lite_legs (ae_decision envelope)) = Inr orders" and
    plan: "plan = decision_plan_of envelope now_ns ?id ?key orders" and
    valid: "\<not> xc_hot_path_skip_plan_validation config \<Longrightarrow> validate_plan_structure plan True = Inr ()"
    using assms unfolding build_decision_plan_def Let_def by (simp split: sum.splits if_splits)
  show ?thesis
    by (intro exI [of _ ?key] exI [of _ orders])
       (use orders valid in \<open>simp add: plan decision_plan_of_def Let_def validate_plan_structure_iff\<close>)
qed

lemma decision_plan_facts:
  assumes "build_decision_plan envelope now_ns config = Inr plan"
    and "ol_leg_count (ae_decision envelope) \<le> length (ol_legs (ae_decision envelope))"
  shows "approved (ai_decision (ae_approved envelope)) \<and> has_reservation (ae_approved envelope) \<and>
    ol_type (ae_decision envelope) = PaperOrderDecision \<and>
    now_ns < op_expire_after_ns plan \<and>
    oi_intent_id (ai_intent (ae_approved envelope)) = op_source_intent_id plan \<and>
    oi_bundle_id (ai_intent (ae_approved envelope)) = op_bundle_id plan \<and>
    rd_bundle_id (ai_decision (ae_approved envelope)) = op_bundle_id plan \<and>
    (rd_intent_id (ai_decision (ae_approved envelope)) \<noteq> 0 \<longrightarrow>
       rd_intent_id (ai_decision (ae_approved envelope)) = op_source_intent_id plan) \<and>
    (ae_decision_hash envelope \<noteq> 0 \<longrightarrow> ae_decision_hash envelope = ol_decision_hash (ae_decision envelope)) \<and>
    (\<not> xc_hot_path_trust_order_decision_hash config \<longrightarrow>
       ol_decision_hash (ae_decision envelope) = compute_order_decision_hash (ae_decision envelope)) \<and>
    (\<not> xc_hot_path_trust_approval_hash config \<and> ae_approval_hash envelope \<noteq> 0 \<longrightarrow>
       ae_approval_hash envelope = compute_approved_intent_hash (ae_approved envelope)) \<and>
    list_all2 (mirrors_decision_leg (op_plan_id plan)) (lite_legs (ae_decision envelope)) (plan_orders plan) \<and>
    distinct (map co_order_id (plan_orders plan)) \<and>
    (\<not> xc_hot_path_skip_plan_validation config \<longrightarrow> plan_valid plan)"
proof -
  let ?a = "ae_approved envelope" and ?d = "ae_decision envelope"
  have guards: "approved_valid ?a" "ol_type ?d = PaperOrderDecision" "now_ns < ol_expires_at_ns ?d"
      "oi_intent_id (ai_intent ?a) = ol_source_intent_id ?d" "oi_bundle_id (ai_intent ?a) = ol_bundle_id ?d"
      "rd_bundle_id (ai_decision ?a) = ol_bundle_id ?d"
      "rd_intent_id (ai_decision ?a) \<noteq> 0 \<longrightarrow> rd_intent_id (ai_decision ?a) = ol_source_intent_id ?d"
      "ae_decision_hash envelope \<noteq> 0 \<longrightarrow> ae_decision_hash envelope = ol_decision_hash ?d"
      "\<not> xc_hot_path_trust_order_decision_hash config \<longrightarrow> ol_decision_hash ?d = compute_order_decision_hash ?d"
      "\<not> xc_hot_path_trust_approval_hash config \<and> ae_approval_hash envelope \<noteq> 0 \<longrightarrow>
         ae_approval_hash envelope = compute_approved_intent_hash ?a"
    and bound: "ol_leg_count ?d \<le> min (xc_max_child_orders_per_plan config) kMaxChildOrdersPerPlan"
    using decision_plan_checked [OF assms(1)] by blast+
  obtain key orders where
    orders: "build_orders (decision_order config (ai_intent ?a) (op_plan_id plan) key) 0 (lite_legs ?d) =
      Inr orders" and
    plan: "op_orders plan = order_array orders" "op_order_count plan = ol_leg_count ?d"
      "op_expire_after_ns plan = ol_expires_at_ns ?d" "op_source_intent_id plan = ol_source_intent_id ?d"
      "op_bundle_id plan = ol_bundle_id ?d" and
    valid: "\<not> xc_hot_path_skip_plan_validation config \<longrightarrow> plan_valid plan"
    using decision_plan_built [OF assms(1)] by blast
  note each = build_orders_Inr [OF orders]
  have len: "length orders = ol_leg_count ?d" using each assms(2) by (simp add: lite_legs_def)
  have po: "plan_orders plan = orders"
    using len bound by (simp add: plan_orders_def plan order_array_def)
  have one: "mirrors_decision_leg (op_plan_id plan) (lite_legs ?d ! k) (orders ! k) \<and>
      co_order_id (orders ! k) = of_nat (k + 1)" if "k < length orders" for k
    using decision_order_Inr each that by fastforce
  have "distinct (map co_order_id orders)"
    using one len bound by (intro order_ids_distinct) simp_all
  moreover have "list_all2 (mirrors_decision_leg (op_plan_id plan)) (lite_legs ?d) orders"
    using one each by (simp add: list_all2_conv_all_nth)
  ultimately show ?thesis
    using guards plan valid by (simp add: po approved_valid_def)
qed

text \<open>
  C24: A plan is built from an approved order decision only when the risk layer approved the intent with a
  reservation, the decision is a paper order that has not expired, and the intent, the risk decision and the
  order decision name the same bundle and the same source intent (a risk decision without an intent number is
  not compared). A decision hash the envelope carries is the one the decision carries; unless the configuration
  trusts it, that is the hash of the decision's content; and an approval hash the envelope carries, again unless
  the configuration trusts it, is the hash of the approved intent. A hash of zero counts as not carried and is
  not compared. The plan then has one buy order per decision leg with the leg's quantity, limit price and
  indices, under distinct order numbers.
\<close>
theorem decision_plan_binds_approval:
  assumes "build_decision_plan envelope now_ns config = Inr plan"
    and "ol_leg_count (ae_decision envelope) \<le> length (ol_legs (ae_decision envelope))"
  shows "approved (ai_decision (ae_approved envelope)) \<and> has_reservation (ae_approved envelope) \<and>
    ol_type (ae_decision envelope) = PaperOrderDecision \<and>
    now_ns < op_expire_after_ns plan \<and>
    oi_intent_id (ai_intent (ae_approved envelope)) = op_source_intent_id plan \<and>
    oi_bundle_id (ai_intent (ae_approved envelope)) = op_bundle_id plan \<and>
    rd_bundle_id (ai_decision (ae_approved envelope)) = op_bundle_id plan \<and>
    (rd_intent_id (ai_decision (ae_approved envelope)) \<noteq> 0 \<longrightarrow>
       rd_intent_id (ai_decision (ae_approved envelope)) = op_source_intent_id plan) \<and>
    (ae_decision_hash envelope \<noteq> 0 \<longrightarrow> ae_decision_hash envelope = ol_decision_hash (ae_decision envelope)) \<and>
    (\<not> xc_hot_path_trust_order_decision_hash config \<longrightarrow>
       ol_decision_hash (ae_decision envelope) = compute_order_decision_hash (ae_decision envelope)) \<and>
    (\<not> xc_hot_path_trust_approval_hash config \<and> ae_approval_hash envelope \<noteq> 0 \<longrightarrow>
       ae_approval_hash envelope = compute_approved_intent_hash (ae_approved envelope)) \<and>
    list_all2 (mirrors_decision_leg (op_plan_id plan)) (lite_legs (ae_decision envelope)) (plan_orders plan) \<and>
    distinct (map co_order_id (plan_orders plan)) \<and>
    (\<not> xc_hot_path_skip_plan_validation config \<longrightarrow> plan_valid plan)"
  using assms by (rule decision_plan_facts)

definition sample_decision_body :: OrderDecisionLite where
  "sample_decision_body =
     \<lparr>ol_decision_id = 31, ol_source_intent_id = 3, ol_bundle_id = 9, ol_type = PaperOrderDecision,
      ol_chosen_bundle_qty = 5, ol_guaranteed_payout_tick = 60, ol_estimated_total_cost_tick = 40,
      ol_estimated_fee_tick = 1, ol_latency_buffer_tick = 1, ol_slippage_buffer_tick = 0,
      ol_unit_edge_tick = 3, ol_total_edge_tick = 18, ol_edge_bps = 4500, ol_leg_count = 1,
      ol_legs = [\<lparr>ll_market_index = 1, ll_asset_index = 2, ll_side = Buy, ll_quantity_lots = 5,
        ll_estimated_vwap_tick = 8, ll_limit_price_tick = 8, ll_worst_price_tick = 8,
        ll_estimated_cost_tick = 40\<rparr>],
      ol_snapshot_version_hash = 14, ol_oracle_artifact_hash = 11, ol_bundle_hash = 13,
      ol_policy_hash = 1, ol_created_ts_ns = 100, ol_expires_at_ns = 1000, ol_decision_hash = 0\<rparr>"

definition sample_decision :: OrderDecisionLite where
  "sample_decision = sample_decision_body\<lparr>ol_decision_hash := compute_order_decision_hash sample_decision_body\<rparr>"

definition sample_approved :: ApprovedIntent where
  "sample_approved =
     \<lparr>ai_intent = sample_intent,
      ai_decision = (make_approved_decision 1 1)\<lparr>rd_decision_id := 41, rd_intent_id := 3,
        rd_bundle_id := 9, rd_idempotency_hash := 7\<rparr>,
      ai_reservation_id = ''5'', ai_reservation_id_hash = 5, ai_approved_at_ns = 150,
      ai_expires_at_ns = 1000\<rparr>"

definition sample_decision_envelope :: ApprovedOrderDecisionEnvelope where
  "sample_decision_envelope = make_approved_order_decision_envelope sample_approved sample_decision 160"

lemma hash_ignores_seal:
  "compute_order_decision_hash (d\<lparr>ol_decision_hash := h\<rparr>) = compute_order_decision_hash d"
  by (simp add: compute_order_decision_hash_def lite_legs_def)

lemma sample_decision_seal:
  "compute_order_decision_hash sample_decision = ol_decision_hash sample_decision"
  by (simp add: sample_decision_def hash_ignores_seal)

lemma sample_decision_fields:
  "ol_type sample_decision = PaperOrderDecision" "ol_expires_at_ns sample_decision = 1000"
  "ol_source_intent_id sample_decision = 3" "ol_bundle_id sample_decision = 9"
  "ol_leg_count sample_decision = 1" "lite_legs sample_decision = ol_legs sample_decision_body"
  "ol_legs sample_decision = ol_legs sample_decision_body"
  "ol_estimated_total_cost_tick sample_decision = 40" "ol_slippage_buffer_tick sample_decision = 0"
  by (simp_all add: sample_decision_def sample_decision_body_def lite_legs_def)

lemma sample_decision_checked:
  "check_decision_envelope sample_decision_envelope 500 default_config = Inr ()"
  by (simp add: check_decision_envelope_def Let_def sample_decision_envelope_def
      make_approved_order_decision_envelope_def sample_decision_seal sample_decision_fields
      sample_approved_def sample_intent_def approved_valid_def has_reservation_def approved_def
      make_approved_decision_def default_config_def kMaxChildOrdersPerPlan_def)

lemma make_decision_plan_id_nonzero [simp]: "make_decision_plan_id envelope \<noteq> 0"
  by (simp add: make_decision_plan_id_def)

lemma sample_decision_plan:
  "\<exists>plan. build_decision_plan sample_decision_envelope 500 default_config = Inr plan"
proof -
  define P where "P = make_decision_plan_id sample_decision_envelope"
  have P: "P \<noteq> 0" by (simp add: P_def)
  let ?ord = "default_order\<lparr>co_order_id := 1, co_plan_id := P, co_market_index := 1, co_asset_index := 2,
    co_client_order_id := make_client_order_id P 0 ''k'', co_market_id := ''m'', co_asset_id := ''a'',
    co_quantity_lots := 5, co_limit_price_tick := 8, co_estimated_vwap_tick := 8,
    co_worst_allowed_price_tick := 8\<rparr>"
  have env: "ae_approved sample_decision_envelope = sample_approved"
    "ae_decision sample_decision_envelope = sample_decision"
    by (simp_all add: sample_decision_envelope_def make_approved_order_decision_envelope_def)
  have orders: "build_orders (decision_order default_config (ai_intent sample_approved) P ''k'') 0
      (lite_legs sample_decision) = Inr [?ord]"
    unfolding sample_decision_fields
    by (simp add: sample_decision_body_def sample_approved_def sample_intent_def sample_leg_def
        decision_order_def Let_def default_order_def default_config_def)
  have po: "plan_orders (decision_plan_of sample_decision_envelope 500 P ''k'' [?ord]) = [?ord]"
    by (simp add: decision_plan_of_def Let_def env sample_decision_fields plan_orders_def order_array_def)
  have "plan_valid (decision_plan_of sample_decision_envelope 500 P ''k'' [?ord])"
    unfolding plan_valid_def po
    by (simp add: decision_plan_of_def Let_def env sample_decision_fields P kMaxChildOrdersPerPlan_def
        child_order_valid_def sample_approved_def default_plan_def)
  then have "validate_plan_structure (decision_plan_of sample_decision_envelope 500 P ''k'' [?ord]) True = Inr ()"
    by (simp only: validate_plan_structure_iff)
  moreover have "oi_idempotency_key (ai_intent sample_approved) = ''k''"
    by (simp add: sample_approved_def sample_intent_def)
  moreover have "\<not> xc_hot_path_numeric_plan_id default_config" "\<not> xc_hot_path_skip_order_strings default_config"
    by (simp_all add: default_config_def)
  ultimately show ?thesis
    unfolding build_decision_plan_def sample_decision_checked Let_def env
    using orders by (simp add: P_def [symmetric])
qed

theorem decision_plan_binds_approval_witness:
  "\<exists>plan. build_decision_plan sample_decision_envelope 500 default_config = Inr plan \<and> plan_valid plan"
proof -
  obtain plan where plan: "build_decision_plan sample_decision_envelope 500 default_config = Inr plan"
    using sample_decision_plan by blast
  have "plan_valid plan"
    using decision_plan_binds_approval [OF plan]
    by (simp add: sample_decision_envelope_def make_approved_order_decision_envelope_def
        sample_decision_fields default_config_def)
       (simp add: sample_decision_body_def)
  with plan show ?thesis by blast
qed

text \<open>
  A decision plan without order strings has no idempotency key and no client numbers, so the
  validator rejects it under every configuration.
\<close>

lemma stringless_plan_never_validates:
  assumes "build_decision_plan envelope now_ns config = Inr plan"
    and "xc_hot_path_skip_order_strings config"
  shows "validate_plan plan config' \<noteq> Inr ()"
  using decision_plan_built [OF assms(1)] assms(2) by (auto simp: validate_plan_iff plan_valid_def)

lemma reading_back_decimal: "reservation_id_from_string (to_dec (unat n)) = n"
proof -
  have "unat n < 18446744073709551616" using unsigned_less [of n] by simp
  then show ?thesis by (simp add: reservation_id_from_string_def to_dec_digits)
qed

text \<open>
  Reservation numbers survive their textual form: reading back the decimal text of any
  64-bit number gives the number, and every other non-empty text gives a nonzero number unless it
  is a numeral of value zero.
\<close>
theorem reservation_id_roundtrip:
  "reservation_id_from_string (to_dec (unat n)) = n \<and>
   (reservation_id_from_string s = 0 \<longleftrightarrow> s = [] \<or> (list_all is_digit s \<and> dec_value s = 0))"
proof -
  have "(of_nat k :: u64) = 0 \<longleftrightarrow> k = 0" if "k < 18446744073709551616" for k
    using that by (cases "k = 0") (simp_all add: word_of_nat_eq_0_iff nat_dvd_not_less)
  then show ?thesis using reading_back_decimal [of n] by (auto simp: reservation_id_from_string_def)
qed

end
