(* ===== verification/Gateway.thy ===== *)
theory Gateway
  imports PaperExecution ExecutionPlanning
begin

section \<open>The execution gateway\<close>

text \<open>
  \<open>engine/execution/core\<close>: \<open>ExecutionGateway.cpp\<close>, \<open>ExecutionPlanStore.h\<close>,
  \<open>ExecutionScratch.h\<close>, with \<open>ExecutionResult.h\<close> and \<open>ReservationDisposition.h\<close>. The
  adapter behind \<open>IExecutionAdapter\<close> is a record of its three operations over a state of its
  own; the gateway is generic in it. What the publishers and the plan observer receive is kept
  as a trace in the gateway's state. The two submit handlers of the source differ in the planner
  they call and in the reservation number they publish; everything after the planner is
  \<open>submit_planned\<close>. Lemmas: the locale \<open>execution_adapter\<close> states what the gateway needs of
  an adapter and derives when a reservation is consumed, released or kept; the paper and the
  sandbox adapter are its instances.
\<close>

subsection \<open>State\<close>

record 'a IExecutionAdapter =
  ia_submit_plan :: "'a \<Rightarrow> OrderPlan \<Rightarrow> ExecutionContext \<Rightarrow> 'a \<times> AdapterSubmitResult"
  ia_poll_reports :: "'a \<Rightarrow> ExecutionReport list \<times> 'a"
  ia_cancel_plan :: "'a \<Rightarrow> u64 \<Rightarrow> AdapterCancelResult"

record ExecutionResult =
  er_ok :: bool
  er_plan_id :: u64
  er_status :: PlanStatus
  er_child_orders_submitted :: nat
  er_child_orders_rejected :: nat
  er_error :: string

record CancelResult =
  cr_ok :: bool
  cr_plan_id :: u64
  cr_code :: AdapterResultCode
  cr_reports :: "ExecutionReport list"
  cr_error :: string

datatype ReservationDispositionType = RDT_None | RDT_Release | RDT_Consume | RDT_Expire

record ReservationDisposition =
  rp_reservation_id :: string
  rp_plan_id :: u64
  rp_type :: ReservationDispositionType
  rp_reason :: string

record PlanRuntimeState =
  rt_plan :: OrderPlan
  rt_fill_tracker :: FillTracker
  rt_config :: ExecutionConfig

record ExecutionScratch =
  sc_child_orders :: "ChildOrder list"
  sc_child_reports :: "ExecutionReport list"

record 'a ExecutionGateway =
  gw_adapter :: "'a option"
  gw_has_report_publisher :: bool
  gw_has_reservation_publisher :: bool
  gw_has_plan_observer :: bool
  gw_plan_store :: "u64 \<rightharpoonup> OrderPlan"
  gw_scratch :: ExecutionScratch
  gw_runtime :: "u64 \<rightharpoonup> PlanRuntimeState"
  gw_pending_reports :: "ExecutionReport list"
  gw_published_reports :: "ExecutionReport list"
  gw_published_dispositions :: "ReservationDisposition list"
  gw_observed_plans :: "OrderPlan list"

definition scratch_reset :: "ExecutionScratch \<Rightarrow> ExecutionScratch" where
  "scratch_reset scratch = \<lparr>sc_child_orders = [], sc_child_reports = []\<rparr>"

definition push_child_order :: "ExecutionScratch \<Rightarrow> ChildOrder \<Rightarrow> ExecutionScratch" where
  "push_child_order scratch order =
     (if length (sc_child_orders scratch) \<ge> kMaxChildOrdersPerPlan then scratch
      else scratch\<lparr>sc_child_orders := sc_child_orders scratch @ [order]\<rparr>)"

definition push_child_report :: "ExecutionScratch \<Rightarrow> ExecutionReport \<Rightarrow> ExecutionScratch" where
  "push_child_report scratch report =
     (if length (sc_child_reports scratch) \<ge> kMaxChildOrdersPerPlan then scratch
      else scratch\<lparr>sc_child_reports := sc_child_reports scratch @ [report]\<rparr>)"

subsection \<open>Helpers of the handlers\<close>

definition consume_reservation :: "PlanStatus \<Rightarrow> PlanFillState \<Rightarrow> bool" where
  "consume_reservation status fill_state \<longleftrightarrow> status = PS_Filled \<and> pf_all_filled fill_state"

definition release_reservation :: "PlanStatus \<Rightarrow> bool" where
  "release_reservation status \<longleftrightarrow>
     status = PS_Failed \<or> status = PS_Expired \<or> status = PS_Cancelled"

definition prepare_child_for_adapter :: "ChildOrderStatus \<Rightarrow> ChildOrderStatus" where
  "prepare_child_for_adapter status =
     order_transition (order_transition (order_transition status COS_Planned) COS_Sent) COS_Acked"

definition prepare_plan_for_adapter :: "PlanStatus \<Rightarrow> PlanStatus" where
  "prepare_plan_for_adapter status =
     plan_transition (plan_transition (plan_transition status PS_Planned) PS_Sent) PS_Acked"

definition publish_report :: "'a ExecutionGateway \<Rightarrow> ExecutionReport \<Rightarrow> 'a ExecutionGateway" where
  "publish_report gw report =
     (if gw_has_report_publisher gw
      then gw\<lparr>gw_published_reports := gw_published_reports gw @ [report]\<rparr> else gw)"

definition publish_reservation_disposition ::
  "'a ExecutionGateway \<Rightarrow> string \<Rightarrow> u64 \<Rightarrow> ReservationDispositionType \<Rightarrow> string \<Rightarrow> 'a ExecutionGateway" where
  "publish_reservation_disposition gw reservation_id plan_id type reason =
     (if \<not> gw_has_reservation_publisher gw \<or> type = RDT_None then gw
      else gw\<lparr>gw_published_dispositions := gw_published_dispositions gw @
             [\<lparr>rp_reservation_id = reservation_id, rp_plan_id = plan_id, rp_type = type,
               rp_reason = reason\<rparr>]\<rparr>)"

definition apply_plan_lifecycle :: "AdapterSubmitResult \<Rightarrow> PlanFillState \<Rightarrow> PlanStatus" where
  "apply_plan_lifecycle adapter_result fill_state =
     (let status = PS_Acked in
      if decide fill_state = HedgeRequired
      then plan_transition (plan_transition status PS_PartiallyFilled) PS_HedgeRequired
      else if as_status adapter_result = PS_Filled \<and> pf_all_filled fill_state
      then plan_transition status PS_Filled
      else if as_status adapter_result = PS_PartiallyFilled \<or> pf_any_partial fill_state
      then plan_transition status PS_PartiallyFilled
      else if \<not> as_ok adapter_result \<or> as_status adapter_result = PS_Failed \<or>
              as_child_orders_rejected adapter_result > 0
      then plan_transition status PS_Failed
      else as_status adapter_result)"

text \<open>The inner loop over the orders: the first order with the report's number takes its status.\<close>

fun absorb_report :: "ExecutionReport \<Rightarrow> ChildOrder list \<Rightarrow> ExecutionReport \<times> ChildOrder list" where
  "absorb_report report [] = (report, [])"
| "absorb_report report (order # orders) =
     (if co_order_id order \<noteq> xr_child_order_id report
      then (case absorb_report report orders of (report', orders') \<Rightarrow> (report', order # orders'))
      else (let status = order_transition (co_status order) (xr_status report)
            in (report\<lparr>xr_status := status\<rparr>, order\<lparr>co_status := status\<rparr> # orders)))"

text \<open>The loop over the adapter's reports; the plan's orders and the tracker travel along.\<close>

fun report_loop ::
  "'a ExecutionGateway \<Rightarrow> ChildOrder list \<Rightarrow> FillTracker \<Rightarrow> ExecutionReport list
     \<Rightarrow> 'a ExecutionGateway \<times> ChildOrder list \<times> FillTracker" where
  "report_loop gw orders tracker [] = (gw, orders, tracker)"
| "report_loop gw orders tracker (report # reports) =
     (case absorb_report report orders of (report', orders') \<Rightarrow>
        (let gw1 = gw\<lparr>gw_scratch := push_child_report (gw_scratch gw) report'\<rparr>;
             gw2 = publish_report gw1 report';
             gw3 = gw2\<lparr>gw_pending_reports := gw_pending_reports gw2 @ [report']\<rparr>
         in report_loop gw3 orders' (tracker_apply tracker report') reports))"

definition failed_result :: "u64 \<Rightarrow> string \<Rightarrow> ExecutionResult" where
  "failed_result plan_id error =
     \<lparr>er_ok = False, er_plan_id = plan_id, er_status = PS_Failed, er_child_orders_submitted = 0,
      er_child_orders_rejected = 0, er_error = error\<rparr>"

subsection \<open>Submission\<close>

text \<open>The plan as it goes to the adapter: the statuses of the plan and its orders prepared.\<close>

definition prepared_plan :: "OrderPlan \<Rightarrow> OrderPlan" where
  "prepared_plan plan =
     plan\<lparr>op_status := prepare_plan_for_adapter (op_status plan),
          op_orders :=
            map (\<lambda>order. order\<lparr>co_status := prepare_child_for_adapter (co_status order)\<rparr>)
              (take (op_order_count plan) (op_orders plan)) @
            drop (op_order_count plan) (op_orders plan)\<rparr>"

definition submit_validated ::
  "'a IExecutionAdapter \<Rightarrow> 'a ExecutionGateway \<Rightarrow> 'a \<Rightarrow> string \<Rightarrow> OrderPlan \<Rightarrow> ExecutionContext
     \<Rightarrow> 'a ExecutionGateway \<times> ExecutionResult" where
  "submit_validated ops gw adapter reservation_id plan0 ctx =
     (let plan = prepared_plan plan0;
          gw1 = gw\<lparr>gw_scratch := foldl push_child_order (gw_scratch gw) (plan_orders plan),
                   gw_plan_store := (gw_plan_store gw)(op_plan_id plan \<mapsto> plan),
                   gw_observed_plans :=
                     (if gw_has_plan_observer gw then gw_observed_plans gw @ [plan]
                      else gw_observed_plans gw)\<rparr>;
          (adapter1, adapter_result) = ia_submit_plan ops adapter plan ctx;
          (reports, adapter2) = ia_poll_reports ops adapter1;
          (gw2, orders, tracker) =
            report_loop (gw1\<lparr>gw_adapter := Some adapter2\<rparr>) (plan_orders plan)
              (tracker_reset plan) reports;
          fill_state = tracker_plan_state tracker;
          plan' = plan\<lparr>op_orders := orders @ drop (op_order_count plan) (op_orders plan),
                       op_status := apply_plan_lifecycle adapter_result fill_state\<rparr>;
          gw3 = gw2\<lparr>gw_plan_store := (gw_plan_store gw2)(op_plan_id plan' \<mapsto> plan'),
                    gw_runtime := (gw_runtime gw2)(op_plan_id plan' \<mapsto>
                      \<lparr>rt_plan = plan', rt_fill_tracker = tracker, rt_config = ec_config ctx\<rparr>)\<rparr>;
          gw4 = (if consume_reservation (op_status plan') fill_state
                 then publish_reservation_disposition gw3 reservation_id (op_plan_id plan')
                        RDT_Consume ''paper plan filled''
                 else if release_reservation (op_status plan')
                 then publish_reservation_disposition gw3 reservation_id (op_plan_id plan')
                        RDT_Release
                        (if as_error adapter_result = [] then ''execution failed''
                         else as_error adapter_result)
                 else gw3)
      in (gw4,
          \<lparr>er_ok = (as_ok adapter_result \<and> op_status plan' \<noteq> PS_Failed \<and>
                     op_status plan' \<noteq> PS_Expired \<and> op_status plan' \<noteq> PS_Cancelled),
           er_plan_id = op_plan_id plan', er_status = op_status plan',
           er_child_orders_submitted = as_child_orders_submitted adapter_result,
           er_child_orders_rejected = as_child_orders_rejected adapter_result,
           er_error = as_error adapter_result\<rparr>))"

definition submit_planned ::
  "'a IExecutionAdapter \<Rightarrow> 'a ExecutionGateway \<Rightarrow> string \<Rightarrow> string + OrderPlan \<Rightarrow> ExecutionContext
     \<Rightarrow> 'a ExecutionGateway \<times> ExecutionResult" where
  "submit_planned ops gw reservation_id plan_result ctx =
     (let gw0 = gw\<lparr>gw_scratch := scratch_reset (gw_scratch gw)\<rparr> in
      case gw_adapter gw0 of
        None \<Rightarrow> (gw0, failed_result 0 ''missing execution adapter'')
      | Some adapter \<Rightarrow>
          (case plan_result of
             Inl error \<Rightarrow> (gw0, failed_result 0 error)
           | Inr plan \<Rightarrow>
               (case validate_plan plan (ec_config ctx) of
                  Inl error \<Rightarrow>
                    (publish_reservation_disposition gw0 reservation_id (op_plan_id plan)
                       RDT_Release ''plan validation failed'',
                     failed_result (op_plan_id plan) error)
                | Inr _ \<Rightarrow> submit_validated ops gw0 adapter reservation_id plan ctx)))"

definition submit_approved_intent ::
  "'a IExecutionAdapter \<Rightarrow> 'a ExecutionGateway \<Rightarrow> ApprovedIntentEnvelope \<Rightarrow> ExecutionContext
     \<Rightarrow> 'a ExecutionGateway \<times> ExecutionResult" where
  "submit_approved_intent ops gw envelope ctx =
     submit_planned ops gw (to_dec (unat (xa_reservation_id (ie_approval envelope))))
       (build_intent_plan envelope (ec_now_ns ctx) (ec_config ctx)) ctx"

definition submit_approved_decision ::
  "'a IExecutionAdapter \<Rightarrow> 'a ExecutionGateway \<Rightarrow> ApprovedOrderDecisionEnvelope \<Rightarrow> ExecutionContext
     \<Rightarrow> 'a ExecutionGateway \<times> ExecutionResult" where
  "submit_approved_decision ops gw envelope ctx =
     submit_planned ops gw
       (if ai_reservation_id (ae_approved envelope) \<noteq> [] then ai_reservation_id (ae_approved envelope)
        else to_dec (unat (ai_reservation_id_hash (ae_approved envelope))))
       (build_decision_plan envelope (ec_now_ns ctx) (ec_config ctx)) ctx"

definition submit_plan_directly ::
  "'a IExecutionAdapter \<Rightarrow> 'a ExecutionGateway \<Rightarrow> OrderPlan \<Rightarrow> ExecutionContext
     \<Rightarrow> 'a ExecutionGateway \<times> ExecutionResult" where
  "submit_plan_directly ops gw plan ctx =
     (case gw_adapter gw of
        None \<Rightarrow> (gw, failed_result (op_plan_id plan) ''missing execution adapter'')
      | Some adapter \<Rightarrow>
          (case ia_submit_plan ops adapter plan ctx of (adapter', result) \<Rightarrow>
             (gw\<lparr>gw_adapter := Some adapter'\<rparr>,
              \<lparr>er_ok = as_ok result, er_plan_id = as_plan_id result, er_status = as_status result,
               er_child_orders_submitted = as_child_orders_submitted result,
               er_child_orders_rejected = as_child_orders_rejected result,
               er_error = as_error result\<rparr>)))"

definition gateway_poll :: "'a ExecutionGateway \<Rightarrow> ExecutionReport list \<times> 'a ExecutionGateway" where
  "gateway_poll gw = (gw_pending_reports gw, gw\<lparr>gw_pending_reports := []\<rparr>)"

subsection \<open>Cancellation\<close>

definition push_cancel_report :: "'a ExecutionGateway \<Rightarrow> ExecutionReport \<Rightarrow> 'a ExecutionGateway" where
  "push_cancel_report gw report =
     (let gw1 = publish_report gw report
      in gw1\<lparr>gw_pending_reports := gw_pending_reports gw1 @ [report]\<rparr>)"

definition gateway_cancel_plan ::
  "'a IExecutionAdapter \<Rightarrow> 'a ExecutionGateway \<Rightarrow> u64 \<Rightarrow> 'a ExecutionGateway \<times> CancelResult" where
  "gateway_cancel_plan ops gw plan_id =
     (case gw_runtime gw plan_id of
        None \<Rightarrow>
          (gw, \<lparr>cr_ok = False, cr_plan_id = plan_id, cr_code = AdapterError, cr_reports = [],
                cr_error = ''unknown plan_id''\<rparr>)
      | Some runtime \<Rightarrow>
          (let cancel = cancel_open_orders (map_option (ia_cancel_plan ops) (gw_adapter gw))
                          (rt_plan runtime) (tracker_plan_state (rt_fill_tracker runtime))
                          (rt_config runtime) 0;
               gw1 = foldl push_cancel_report gw (cw_reports cancel);
               gw2 = (if cw_ok cancel
                      then gw1\<lparr>gw_runtime := (gw_runtime gw1)(plan_id \<mapsto>
                             runtime\<lparr>rt_plan := (rt_plan runtime)\<lparr>op_status := PS_Cancelled\<rparr>\<rparr>)\<rparr>
                      else gw1)
           in (gw2, \<lparr>cr_ok = cw_ok cancel, cr_plan_id = cw_plan_id cancel, cr_code = cw_code cancel,
                     cr_reports = cw_reports cancel, cr_error = cw_error cancel\<rparr>)))"

definition find_plan :: "'a ExecutionGateway \<Rightarrow> u64 \<Rightarrow> OrderPlan option" where
  "find_plan gw plan_id = gw_plan_store gw plan_id"

subsection \<open>The report loop keeps the fills\<close>

definition same_fill :: "ExecutionReport \<Rightarrow> ExecutionReport \<Rightarrow> bool" where
  "same_fill r r' \<longleftrightarrow> xr_child_order_id r' = xr_child_order_id r \<and> xr_filled_lots r' = xr_filled_lots r"

lemma absorb_same_fill: "absorb_report r orders = (r', orders') \<Longrightarrow> same_fill r r'"
  by (induction r orders arbitrary: r' orders' rule: absorb_report.induct)
     (auto simp: same_fill_def Let_def split: if_splits prod.splits)

lemma reported_lots_same_fill:
  "list_all2 same_fill reports reports' \<Longrightarrow> reported_lots k reports' = reported_lots k reports"
  by (induction rule: list_all2_induct) (auto simp: same_fill_def)

lemma publish_report_simps [simp]:
  "gw_published_dispositions (publish_report gw r) = gw_published_dispositions gw"
  "gw_has_reservation_publisher (publish_report gw r) = gw_has_reservation_publisher gw"
  "gw_pending_reports (publish_report gw r) = gw_pending_reports gw"
  "gw_plan_store (publish_report gw r) = gw_plan_store gw"
  "gw_runtime (publish_report gw r) = gw_runtime gw"
  "gw_adapter (publish_report gw r) = gw_adapter gw"
  by (simp_all add: publish_report_def)

lemma report_loop_effect:
  "\<exists>gw' orders' reports'. report_loop gw orders t reports = (gw', orders', foldl tracker_apply t reports') \<and>
     list_all2 same_fill reports reports' \<and>
     gw_pending_reports gw' = gw_pending_reports gw @ reports' \<and>
     gw_published_dispositions gw' = gw_published_dispositions gw \<and>
     gw_has_reservation_publisher gw' = gw_has_reservation_publisher gw \<and>
     gw_adapter gw' = gw_adapter gw"
proof (induction reports arbitrary: gw orders t)
  case (Cons r reports)
  obtain r' orders' where absorb: "absorb_report r orders = (r', orders')" by fastforce
  let ?gw1 = "gw\<lparr>gw_scratch := push_child_report (gw_scratch gw) r'\<rparr>"
  let ?gw2 = "publish_report ?gw1 r'"
  let ?gw3 = "?gw2\<lparr>gw_pending_reports := gw_pending_reports ?gw2 @ [r']\<rparr>"
  obtain gw' orders'' reports' where
    rest: "report_loop ?gw3 orders' (tracker_apply t r') reports =
      (gw', orders'', foldl tracker_apply (tracker_apply t r') reports')"
    "list_all2 same_fill reports reports'"
    "gw_pending_reports gw' = gw_pending_reports ?gw3 @ reports'"
    "gw_published_dispositions gw' = gw_published_dispositions ?gw3"
    "gw_has_reservation_publisher gw' = gw_has_reservation_publisher ?gw3"
    "gw_adapter gw' = gw_adapter ?gw3"
    using Cons.IH [of ?gw3 orders' "tracker_apply t r'"] by blast
  show ?case
    by (intro exI [of _ gw'] exI [of _ orders''] exI [of _ "r' # reports'"])
       (use rest absorb absorb_same_fill [OF absorb] in \<open>simp add: Let_def\<close>)
qed simp

subsection \<open>The contract of an adapter\<close>

text \<open>
  How a submission should settle, from the fills alone: all orders filled consumes the
  reservation, no fill at all releases it, and anything between keeps it, with a hedge required
  when there is more than one order.
\<close>

definition all_filled :: "OrderPlan \<Rightarrow> ExecutionReport list \<Rightarrow> bool" where
  "all_filled plan reports \<longleftrightarrow>
     (\<forall>ord \<in> set (plan_orders plan). co_quantity_lots ord \<le> reported_lots (co_order_id ord) reports)"

definition none_filled :: "OrderPlan \<Rightarrow> ExecutionReport list \<Rightarrow> bool" where
  "none_filled plan reports \<longleftrightarrow>
     (\<forall>ord \<in> set (plan_orders plan). reported_lots (co_order_id ord) reports = 0)"

definition settled_status :: "OrderPlan \<Rightarrow> ExecutionReport list \<Rightarrow> PlanStatus" where
  "settled_status plan reports =
     (if all_filled plan reports then PS_Filled
      else if none_filled plan reports then PS_Failed
      else if 1 < length (plan_orders plan) then PS_HedgeRequired
      else PS_PartiallyFilled)"

definition settled_dispositions :: "OrderPlan \<Rightarrow> ExecutionReport list \<Rightarrow> ReservationDispositionType list" where
  "settled_dispositions plan reports =
     (if all_filled plan reports then [RDT_Consume]
      else if none_filled plan reports then [RDT_Release] else [])"

text \<open>Plans an adapter has to treat honestly: quantities that the arithmetic can carry.\<close>

definition order_small :: "ChildOrder \<Rightarrow> bool" where
  "order_small ord \<longleftrightarrow> 0 < co_quantity_lots ord \<and> 2 * co_quantity_lots ord \<le> i64_max \<and>
     co_limit_price_tick ord * co_quantity_lots ord \<le> i64_max"

definition plan_small :: "OrderPlan \<Rightarrow> bool" where
  "plan_small plan \<longleftrightarrow> plan_orders plan \<noteq> [] \<and> op_order_count plan \<le> kMaxChildOrdersPerPlan \<and>
     distinct (map co_order_id (plan_orders plan)) \<and> (\<forall>ord \<in> set (plan_orders plan). order_small ord)"

definition honest_submission :: "OrderPlan \<Rightarrow> AdapterSubmitResult \<Rightarrow> ExecutionReport list \<Rightarrow> bool" where
  "honest_submission plan result reports \<longleftrightarrow>
     (\<forall>r \<in> set reports. \<exists>ord \<in> set (plan_orders plan).
        co_order_id ord = xr_child_order_id r \<and> 0 \<le> xr_filled_lots r \<and>
        xr_filled_lots r \<le> co_quantity_lots ord) \<and>
     (all_filled plan reports \<longrightarrow> as_status result = PS_Filled) \<and>
     (none_filled plan reports \<longrightarrow> as_status result = PS_Failed)"

locale execution_adapter =
  fixes ops :: "'a IExecutionAdapter"
  assumes honest:
    "plan_small plan \<Longrightarrow> ia_submit_plan ops st plan ctx = (st', result) \<Longrightarrow>
       ia_poll_reports ops st' = (reports, st'') \<Longrightarrow> honest_submission plan result reports"

lemma tracked_eq_plan_orders:
  "op_order_count plan \<le> kMaxChildOrdersPerPlan \<Longrightarrow> tracked_orders plan = plan_orders plan"
  by (simp add: tracked_orders_def plan_orders_def min_absorb1)

lemma lifecycle_settles:
  assumes "plan_small plan" "honest_submission plan result reports" "list_all2 same_fill reports reports'"
  defines "fs \<equiv> tracker_plan_state (foldl tracker_apply (tracker_reset plan) reports')"
  shows "apply_plan_lifecycle result fs = settled_status plan reports"
    and "pf_all_filled fs \<longleftrightarrow> all_filled plan reports"
proof -
  have orders: "tracked_orders plan = plan_orders plan" "plan_orders plan \<noteq> []"
    using assms(1) by (simp_all add: tracked_eq_plan_orders plan_small_def)
  have dist: "distinct (map co_order_id (tracked_orders plan))"
    using assms(1) by (simp add: orders plan_small_def)
  have small: "\<forall>ord \<in> set (plan_orders plan). 0 < co_quantity_lots ord \<and> 2 * co_quantity_lots ord \<le> i64_max"
    using assms(1) by (simp add: plan_small_def order_small_def)
  have fill: "2 * max 0 (xr_filled_lots r') \<le> i64_max" if "r' \<in> set reports'" for r'
  proof -
    obtain r where r: "r \<in> set reports" "same_fill r r'"
      using assms(3) \<open>r' \<in> set reports'\<close> by (metis in_set_conv_nth list_all2_conv_all_nth)
    then obtain ord where "ord \<in> set (plan_orders plan)" "0 \<le> xr_filled_lots r"
      "xr_filled_lots r \<le> co_quantity_lots ord"
      using assms(2) by (auto simp: honest_submission_def)
    with r(2) small show ?thesis by (auto simp: same_fill_def)
  qed
  have bounds: "\<forall>ord \<in> set (tracked_orders plan). 0 < co_quantity_lots ord \<and>
      (\<forall>r \<in> set reports'. max 0 (xr_filled_lots r) + co_quantity_lots ord \<le> i64_max)"
    using small fill by (fastforce simp: orders)
  note flags = tracker_flags [OF dist bounds, folded fs_def, unfolded orders
      reported_lots_same_fill [OF assms(3)]]
  have all: "pf_all_filled fs \<longleftrightarrow> all_filled plan reports"
    using flags(2) orders(2) by (simp add: all_filled_def)
  have any: "pf_any_filled fs \<longleftrightarrow> \<not> none_filled plan reports"
    using flags(1) reported_lots_nonneg [of _ reports] by (auto simp: none_filled_def order_less_le)
  show "pf_all_filled fs \<longleftrightarrow> all_filled plan reports" by (rule all)
  have not_both: "\<not> (all_filled plan reports \<and> none_filled plan reports)"
    using small orders(2) by (cases "plan_orders plan") (auto simp: all_filled_def none_filled_def)
  have one: "pf_any_partial fs"
    if some: "\<not> all_filled plan reports" "\<not> none_filled plan reports"
      and short: "\<not> 1 < length (plan_orders plan)"
  proof -
    obtain ord where single: "plan_orders plan = [ord]"
      using short orders(2) by (cases "plan_orders plan") auto
    with some flags(3) reported_lots_nonneg [of "co_order_id ord" reports] show ?thesis
      by (simp add: all_filled_def none_filled_def order_less_le)
  qed
  have none: "\<not> pf_any_partial fs" if "none_filled plan reports"
    using that flags(3) by (auto simp: none_filled_def)
  show "apply_plan_lifecycle result fs = settled_status plan reports"
    using assms(2) all any not_both one none flags(4)
    by (auto simp: apply_plan_lifecycle_def settled_status_def decide_def honest_submission_def
        plan_transition_def plan_can_transition_def plan_is_terminal_def)
qed

lemma prepared_plan_orders:
  "plan_orders (prepared_plan plan) =
     map (\<lambda>order. order\<lparr>co_status := prepare_child_for_adapter (co_status order)\<rparr>) (plan_orders plan)"
  by (auto simp: plan_orders_def prepared_plan_def take_map)

lemma prepared_plan_small: "plan_small plan \<Longrightarrow> plan_small (prepared_plan plan)"
  unfolding plan_small_def prepared_plan_orders
  by (auto simp: order_small_def comp_def prepared_plan_def)

lemma prepared_plan_settles:
  "all_filled (prepared_plan plan) reports = all_filled plan reports"
  "none_filled (prepared_plan plan) reports = none_filled plan reports"
  "settled_status (prepared_plan plan) reports = settled_status plan reports"
  by (simp_all add: all_filled_def none_filled_def settled_status_def prepared_plan_orders)

lemma publish_disposition_simps [simp]:
  "gw_pending_reports (publish_reservation_disposition gw rid pid ty reason) = gw_pending_reports gw"
  "gw_runtime (publish_reservation_disposition gw rid pid ty reason) = gw_runtime gw"
  "gw_has_reservation_publisher (publish_reservation_disposition gw rid pid ty reason) =
     gw_has_reservation_publisher gw"
  "map rp_type (gw_published_dispositions (publish_reservation_disposition gw rid pid ty reason)) =
     map rp_type (gw_published_dispositions gw) @
       (if gw_has_reservation_publisher gw \<and> ty \<noteq> RDT_None then [ty] else [])"
  by (simp_all add: publish_reservation_disposition_def)

context execution_adapter
begin

lemma submission_settles:
  assumes "plan_small plan" "gw_has_reservation_publisher gw"
    and "submit_validated ops gw a rid plan ctx = (gw', result)"
  shows "\<exists>reports. gw_pending_reports gw' = gw_pending_reports gw @ reports \<and>
    er_status result = settled_status plan reports \<and>
    map rp_type (gw_published_dispositions gw') =
      map rp_type (gw_published_dispositions gw) @ settled_dispositions plan reports \<and>
    (\<forall>r \<in> set reports. \<exists>ord \<in> set (plan_orders plan). co_order_id ord = xr_child_order_id r \<and>
       0 \<le> xr_filled_lots r \<and> xr_filled_lots r \<le> co_quantity_lots ord)"
proof -
  let ?plan = "prepared_plan plan"
  let ?gw1 = "gw\<lparr>gw_scratch := foldl push_child_order (gw_scratch gw) (plan_orders ?plan),
     gw_plan_store := (gw_plan_store gw)(op_plan_id ?plan \<mapsto> ?plan),
     gw_observed_plans := (if gw_has_plan_observer gw then gw_observed_plans gw @ [?plan]
       else gw_observed_plans gw)\<rparr>"
  obtain a1 ar where submit: "ia_submit_plan ops a ?plan ctx = (a1, ar)" by fastforce
  obtain reports a2 where poll: "ia_poll_reports ops a1 = (reports, a2)" by fastforce
  let ?gw2 = "?gw1\<lparr>gw_adapter := Some a2\<rparr>"
  obtain gw3 orders' reports' where
    loop: "report_loop ?gw2 (plan_orders ?plan) (tracker_reset ?plan) reports =
      (gw3, orders', foldl tracker_apply (tracker_reset ?plan) reports')" and
    effect: "list_all2 same_fill reports reports'"
      "gw_pending_reports gw3 = gw_pending_reports ?gw2 @ reports'"
      "gw_published_dispositions gw3 = gw_published_dispositions ?gw2"
      "gw_has_reservation_publisher gw3 = gw_has_reservation_publisher ?gw2"
    using report_loop_effect [of ?gw2 "plan_orders ?plan" "tracker_reset ?plan" reports] by blast
  have small: "plan_small ?plan" by (rule prepared_plan_small [OF assms(1)])
  have honest: "honest_submission ?plan ar reports" by (rule honest [OF small submit poll])
  let ?fs = "tracker_plan_state (foldl tracker_apply (tracker_reset ?plan) reports')"
  note settles = lifecycle_settles [OF small honest effect(1), unfolded prepared_plan_settles]
  have same: "settled_status plan reports' = settled_status plan reports"
    "settled_dispositions plan reports' = settled_dispositions plan reports"
    by (simp_all add: settled_status_def settled_dispositions_def all_filled_def none_filled_def
        reported_lots_same_fill [OF effect(1)])
  have legs: "\<forall>r \<in> set reports'. \<exists>ord \<in> set (plan_orders plan). co_order_id ord = xr_child_order_id r \<and>
       0 \<le> xr_filled_lots r \<and> xr_filled_lots r \<le> co_quantity_lots ord"
  proof
    fix r' assume "r' \<in> set reports'"
    then obtain r where "r \<in> set reports" "same_fill r r'"
      using effect(1) by (metis in_set_conv_nth list_all2_conv_all_nth)
    then show "\<exists>ord \<in> set (plan_orders plan). co_order_id ord = xr_child_order_id r' \<and>
       0 \<le> xr_filled_lots r' \<and> xr_filled_lots r' \<le> co_quantity_lots ord"
      using honest by (auto simp: honest_submission_def prepared_plan_orders same_fill_def)
  qed
  have result: "er_status result = settled_status plan reports"
    "gw_pending_reports gw' = gw_pending_reports gw @ reports'"
    using assms(3) effect settles(1)
    by (auto simp: submit_validated_def Let_def submit poll loop split: if_splits)
  have "map rp_type (gw_published_dispositions gw') =
      map rp_type (gw_published_dispositions gw) @ settled_dispositions plan reports"
    using assms(2,3) effect settles
    by (auto simp: submit_validated_def Let_def submit poll loop consume_reservation_def
        release_reservation_def settled_status_def settled_dispositions_def split: if_splits)
  with result same legs show ?thesis by (intro exI [of _ reports']) simp
qed

end

subsection \<open>The adapters keep the contract\<close>

definition paper_ops :: "PaperExecutionAdapter IExecutionAdapter" where
  "paper_ops = \<lparr>ia_submit_plan = paper_submit_plan, ia_poll_reports = paper_poll_reports,
     ia_cancel_plan = (\<lambda>_. paper_cancel_plan)\<rparr>"

definition sandbox_ops :: "unit IExecutionAdapter" where
  "sandbox_ops = \<lparr>ia_submit_plan = (\<lambda>st plan ctx. (st, sandbox_submit_plan plan ctx)),
     ia_poll_reports = (\<lambda>st. (sandbox_poll_reports, st)), ia_cancel_plan = (\<lambda>_. sandbox_cancel_plan)\<rparr>"

lemma reported_lots_absent:
  "\<forall>r \<in> set reports. xr_child_order_id r \<noteq> k \<Longrightarrow> reported_lots k reports = 0"
  by (induction reports) auto

lemma reported_lots_map:
  assumes "distinct (map co_order_id ords)" "\<forall>o' \<in> set ords. xr_child_order_id (R o') = co_order_id o'"
    and "ord \<in> set ords"
  shows "reported_lots (co_order_id ord) (map R ords) = max 0 (xr_filled_lots (R ord))"
  using assms
proof (induction ords)
  case (Cons o' ords)
  show ?case
  proof (cases "ord = o'")
    case True
    have "reported_lots (co_order_id o') (map R ords) = 0"
      using Cons.prems(1,2) by (intro reported_lots_absent) (auto simp: image_iff)
    with True Cons.prems show ?thesis by simp
  next
    case False
    with Cons.prems have "co_order_id o' \<noteq> co_order_id ord" "ord \<in> set ords" by (auto simp: image_iff)
    with Cons show ?thesis by simp
  qed
qed simp

lemma order_small_fits: "order_small ord \<Longrightarrow> order_fits ord \<and> 0 < co_quantity_lots ord"
  by (simp add: order_small_def order_fits_def)

lemma honest_map:
  assumes "plan_small plan"
    and "\<forall>ord \<in> set (plan_orders plan). xr_child_order_id (R ord) = co_order_id ord \<and>
       0 \<le> xr_filled_lots (R ord) \<and> xr_filled_lots (R ord) \<le> co_quantity_lots ord"
    and "(\<forall>ord \<in> set (plan_orders plan). xr_filled_lots (R ord) = co_quantity_lots ord) \<longrightarrow>
       as_status result = PS_Filled"
    and "(\<forall>ord \<in> set (plan_orders plan). xr_filled_lots (R ord) = 0) \<longrightarrow> as_status result = PS_Failed"
  shows "honest_submission plan result (map R (plan_orders plan))"
proof -
  have lots: "reported_lots (co_order_id ord) (map R (plan_orders plan)) = xr_filled_lots (R ord)"
    if "ord \<in> set (plan_orders plan)" for ord
    using reported_lots_map [of "plan_orders plan" R ord] assms(1,2) that by (auto simp: plan_small_def)
  have "all_filled plan (map R (plan_orders plan)) \<longleftrightarrow>
      (\<forall>ord \<in> set (plan_orders plan). xr_filled_lots (R ord) = co_quantity_lots ord)"
    using assms(2) lots by (fastforce simp: all_filled_def)
  moreover have "none_filled plan (map R (plan_orders plan)) \<longleftrightarrow>
      (\<forall>ord \<in> set (plan_orders plan). xr_filled_lots (R ord) = 0)"
    using lots by (simp add: none_filled_def)
  ultimately show ?thesis using assms(2-4) by (auto simp: honest_submission_def)
qed

lemma make_report_fill [simp]:
  "xr_child_order_id (make_report plan order status fill now_ns reason) = co_order_id order"
  "xr_filled_lots (make_report plan order status fill now_ns reason) = fs_filled_lots fill"
  by (simp_all add: make_report_def)

lemma sequential_report_fill:
  assumes "order_fits ord" "0 < co_quantity_lots ord"
  shows "xr_filled_lots (sequential_report plan ctx ord) =
      (if xr_status (sequential_report plan ctx ord) = COS_Filled then co_quantity_lots ord
       else if xr_status (sequential_report plan ctx ord) = COS_PartiallyFilled then available_to ord ctx
       else 0)"
    and "xr_status (sequential_report plan ctx ord) \<in> {COS_Filled, COS_PartiallyFilled, COS_Failed}"
    and "xr_status (sequential_report plan ctx ord) = COS_PartiallyFilled \<Longrightarrow>
      0 < available_to ord ctx \<and> available_to ord ctx < co_quantity_lots ord"
  using assms by (auto simp: sequential_report_def Let_def simulate_order_full simulate_order_partial
      simulate_order_filled split: if_splits)

lemma status_count_zero: "status_count st reports = 0 \<longleftrightarrow> (\<forall>r \<in> set reports. xr_status r \<noteq> st)"
  by (induction reports) auto

lemma sequential_status:
  "xc_paper_mode (ec_config ctx) \<noteq> PaperAtomic \<Longrightarrow> \<not> plan_expired plan (ec_now_ns ctx) \<Longrightarrow>
   as_status (snd (paper_submit_plan adapter plan ctx)) =
     (let reports = map (sequential_report plan ctx) (plan_orders plan) in
      if \<exists>r \<in> set reports. xr_status r = COS_PartiallyFilled then PS_PartiallyFilled
      else if \<exists>r \<in> set reports. xr_status r = COS_Failed then PS_Failed else PS_Filled)"
  using status_count_zero [of COS_PartiallyFilled "map (sequential_report plan ctx) (plan_orders plan)"]
    status_count_zero [of COS_Failed "map (sequential_report plan ctx) (plan_orders plan)"]
  by (auto simp: paper_submit_plan_def submit_sequential_def sequential_loop_eq Let_def)

lemma sequential_report_cases:
  assumes "order_fits ord" "0 < co_quantity_lots ord"
  shows "(xr_status (sequential_report plan ctx ord) = COS_Filled \<and>
       xr_filled_lots (sequential_report plan ctx ord) = co_quantity_lots ord) \<or>
    (xr_status (sequential_report plan ctx ord) = COS_PartiallyFilled \<and>
       0 < xr_filled_lots (sequential_report plan ctx ord) \<and>
       xr_filled_lots (sequential_report plan ctx ord) < co_quantity_lots ord) \<or>
    (xr_status (sequential_report plan ctx ord) = COS_Failed \<and>
       xr_filled_lots (sequential_report plan ctx ord) = 0)"
  using sequential_report_fill [OF assms, of plan ctx] by auto

lemma sequential_honest:
  assumes "plan_small plan" "xc_paper_mode (ec_config ctx) \<noteq> PaperAtomic"
    and "\<not> plan_expired plan (ec_now_ns ctx)"
  shows "honest_submission plan (snd (paper_submit_plan adapter plan ctx))
    (map (sequential_report plan ctx) (plan_orders plan))"
proof (rule honest_map [OF assms(1)])
  let ?R = "sequential_report plan ctx" and ?ords = "set (plan_orders plan)"
  note status = sequential_status [OF assms(2,3), of adapter]
  have each: "0 < co_quantity_lots ord \<and> order_fits ord" if "ord \<in> ?ords" for ord
    using assms(1) that by (auto simp: plan_small_def dest: order_small_fits)
  have ids: "xr_child_order_id (?R ord) = co_order_id ord" for ord
    by (simp add: sequential_report_def Let_def)
  show "\<forall>ord \<in> ?ords. xr_child_order_id (?R ord) = co_order_id ord \<and>
      0 \<le> xr_filled_lots (?R ord) \<and> xr_filled_lots (?R ord) \<le> co_quantity_lots ord"
  proof
    fix ord assume "ord \<in> ?ords"
    from each [OF this] sequential_report_cases [of ord plan ctx] ids
    show "xr_child_order_id (?R ord) = co_order_id ord \<and>
      0 \<le> xr_filled_lots (?R ord) \<and> xr_filled_lots (?R ord) \<le> co_quantity_lots ord" by auto
  qed
  have "xr_status (?R ord) = COS_Filled"
    if "ord \<in> ?ords" "xr_filled_lots (?R ord) = co_quantity_lots ord" for ord
    using each [OF that(1)] sequential_report_cases [of ord plan ctx] that(2) by auto
  then show "(\<forall>ord \<in> ?ords. xr_filled_lots (?R ord) = co_quantity_lots ord) \<longrightarrow>
      as_status (snd (paper_submit_plan adapter plan ctx)) = PS_Filled"
    by (simp add: status Let_def)
  have "xr_status (?R ord) = COS_Failed" if "ord \<in> ?ords" "xr_filled_lots (?R ord) = 0" for ord
    using each [OF that(1)] sequential_report_cases [of ord plan ctx] that(2) by auto
  moreover have "plan_orders plan \<noteq> []" using assms(1) by (simp add: plan_small_def)
  ultimately show "(\<forall>ord \<in> ?ords. xr_filled_lots (?R ord) = 0) \<longrightarrow>
      as_status (snd (paper_submit_plan adapter plan ctx)) = PS_Failed"
    by (auto simp: status Let_def neq_Nil_conv)
qed

lemma paper_honest:
  assumes "plan_small plan"
  shows "honest_submission plan (snd (paper_submit_plan adapter plan ctx))
    (pa_pending_reports (fst (paper_submit_plan adapter plan ctx)))"
proof -
  have orders: "plan_orders plan \<noteq> []" using assms by (simp add: plan_small_def)
  have small: "order_fits ord \<and> 0 < co_quantity_lots ord" if "ord \<in> set (plan_orders plan)" for ord
    using assms that by (auto simp: plan_small_def dest: order_small_fits)
  then have fill: "0 \<le> fs_filled_lots (simulate_order ord ctx) \<and>
      fs_filled_lots (simulate_order ord ctx) \<le> co_quantity_lots ord"
    if "ord \<in> set (plan_orders plan)" for ord
    using that by (simp add: simulate_order_filled order_fits_def)
  consider "plan_expired plan (ec_now_ns ctx)"
    | "\<not> plan_expired plan (ec_now_ns ctx)" "xc_paper_mode (ec_config ctx) = PaperAtomic"
    | "\<not> plan_expired plan (ec_now_ns ctx)" "xc_paper_mode (ec_config ctx) \<noteq> PaperAtomic" by blast
  then show ?thesis
  proof cases
    case 1
    then have "as_status (snd (paper_submit_plan adapter plan ctx)) = PS_Failed"
      by (simp add: paper_submit_plan_def)
    with 1 orders small show ?thesis unfolding submit_reports
      by (auto intro!: honest_map [OF assms] simp: default_fill_def order_fits_def neq_Nil_conv) fastforce
  next
    case 2
    have status: "as_status (snd (paper_submit_plan adapter plan ctx)) =
        (if \<forall>ord \<in> set (plan_orders plan). fs_full (simulate_order ord ctx) then PS_Filled else PS_Failed)"
      using 2 by (auto simp: paper_submit_plan_def submit_atomic_def Let_def list_all_iff)
    show ?thesis
    proof (cases "\<forall>ord \<in> set (plan_orders plan). fs_full (simulate_order ord ctx)")
      case True
      then have "fs_filled_lots (simulate_order ord ctx) = co_quantity_lots ord"
        if "ord \<in> set (plan_orders plan)" for ord
        using that small simulate_order_sound(2) by blast
      with True 2 status small fill orders show ?thesis unfolding submit_reports
        by (auto intro!: honest_map [OF assms] simp: neq_Nil_conv) fastforce
    next
      case False
      with 2 status small orders show ?thesis unfolding submit_reports
        by (auto intro!: honest_map [OF assms] simp: order_fits_def neq_Nil_conv) fastforce+
    qed
  next
    case 3
    with sequential_honest [OF assms, of ctx adapter] show ?thesis by (simp add: submit_reports)
  qed
qed

interpretation paper: execution_adapter paper_ops
proof
  fix plan :: OrderPlan and st st' st'' :: PaperExecutionAdapter and ctx result reports
  assume "plan_small plan" "ia_submit_plan paper_ops st plan ctx = (st', result)"
    "ia_poll_reports paper_ops st' = (reports, st'')"
  then show "honest_submission plan result reports"
    using paper_honest [of plan st ctx] by (simp add: paper_ops_def paper_poll_reports_def)
qed

interpretation sandbox: execution_adapter sandbox_ops
proof
  fix plan :: OrderPlan and st st' st'' :: unit and ctx result reports
  assume small: "plan_small plan"
    and run: "ia_submit_plan sandbox_ops st plan ctx = (st', result)"
      "ia_poll_reports sandbox_ops st' = (reports, st'')"
  have "reports = []" "as_status result = PS_Failed"
    using run by (auto simp: sandbox_ops_def sandbox_submit_plan_def sandbox_poll_reports_def)
  moreover have "\<not> all_filled plan []"
    using small by (cases "plan_orders plan") (auto simp: plan_small_def all_filled_def order_small_def)
  ultimately show "honest_submission plan result reports" by (simp add: honest_submission_def)
qed

subsection \<open>Properties\<close>

lemma intent_plan_small:
  assumes "build_intent_plan envelope now_ns config = Inr plan"
    and "oi_leg_count (ie_source_intent envelope) \<le> length (oi_legs (ie_source_intent envelope))"
    and "\<forall>ord \<in> set (plan_orders plan). order_small ord"
  shows "plan_small plan"
proof -
  note facts = intent_plan_facts [OF assms(1,2)]
  have "plan_orders plan \<noteq> []"
    using facts by (auto simp: plan_valid_def)
  with facts assms(3) show ?thesis by (auto simp: plan_small_def plan_valid_def)
qed

text \<open>
  C1: Reservations follow the fills: submitting an approved intent through the gateway with the
  paper adapter, in either mode, settles by the fills reported for the plan's orders. If every
  order was filled in full the plan is Filled and the reservation consumed; if nothing was filled
  the plan is Failed and the reservation released; otherwise the reservation is kept and the plan
  is HedgeRequired when it has several orders and PartiallyFilled when it has one. No reported
  fill exceeds its order. The plan must pass the configured validation, and each order's doubled
  quantity and its cost at the limit must fit into 64 bits.
\<close>
theorem paper_submission_settles_by_fills:
  assumes "gw_adapter gw = Some adapter" "gw_has_reservation_publisher gw"
    and "build_intent_plan envelope (ec_now_ns ctx) (ec_config ctx) = Inr plan"
    and "validate_plan plan (ec_config ctx) = Inr ()"
    and "oi_leg_count (ie_source_intent envelope) \<le> length (oi_legs (ie_source_intent envelope))"
    and "\<forall>ord \<in> set (plan_orders plan). order_small ord"
    and "submit_approved_intent paper_ops gw envelope ctx = (gw', result)"
  shows "\<exists>reports. gw_pending_reports gw' = gw_pending_reports gw @ reports \<and>
    er_status result = settled_status plan reports \<and>
    map rp_type (gw_published_dispositions gw') =
      map rp_type (gw_published_dispositions gw) @ settled_dispositions plan reports \<and>
    (\<forall>r \<in> set reports. \<exists>ord \<in> set (plan_orders plan). co_order_id ord = xr_child_order_id r \<and>
       0 \<le> xr_filled_lots r \<and> xr_filled_lots r \<le> co_quantity_lots ord)"
proof -
  let ?gw = "gw\<lparr>gw_scratch := scratch_reset (gw_scratch gw)\<rparr>"
  have "submit_validated paper_ops ?gw adapter (to_dec (unat (xa_reservation_id (ie_approval envelope))))
      plan ctx = (gw', result)"
    using assms(1,3,4,7) by (simp add: submit_approved_intent_def submit_planned_def)
  from paper.submission_settles [OF intent_plan_small [OF assms(3,5,6)] _ this] assms(2) show ?thesis
    by simp
qed

definition sample_gateway :: "PaperExecutionAdapter ExecutionGateway" where
  "sample_gateway =
     \<lparr>gw_adapter = Some \<lparr>pa_pending_reports = []\<rparr>, gw_has_report_publisher = True,
      gw_has_reservation_publisher = True, gw_has_plan_observer = False,
      gw_plan_store = Map.empty, gw_scratch = \<lparr>sc_child_orders = [], sc_child_reports = []\<rparr>,
      gw_runtime = Map.empty, gw_pending_reports = [], gw_published_reports = [],
      gw_published_dispositions = [], gw_observed_plans = []\<rparr>"

definition sample_submit_context :: ExecutionContext where
  "sample_submit_context =
     \<lparr>ec_now_ns = 500, ec_snapshots = [], ec_depth_views = None, ec_depth_view_count = 0,
      ec_config = default_config\<rparr>"

lemma sample_plan_validates:
  assumes "build_intent_plan sample_envelope 500 default_config = Inr plan"
  shows "validate_plan plan default_config = Inr ()"
    and "\<forall>ord \<in> set (plan_orders plan). order_small ord"
proof -
  note facts = intent_plan_facts [OF assms]
  have legs: "intent_legs (ie_source_intent sample_envelope) = [sample_leg]"
    "oi_leg_count (ie_source_intent sample_envelope) \<le> length (oi_legs (ie_source_intent sample_envelope))"
    "xa_approved_bundle_qty (ie_approval sample_envelope) = 2"
    by (simp_all add: sample_envelope_def sample_intent_def intent_legs_def)
  have times: "op_created_ts_ns plan = 500" "op_expire_after_ns plan = 1000"
    using assms by (auto simp: build_intent_plan_def Let_def sample_envelope_def sample_intent_def
        split: if_splits sum.splits)
  show "validate_plan plan default_config = Inr ()"
    using facts legs times by (simp add: validate_plan_iff default_config_def)
  show "\<forall>ord \<in> set (plan_orders plan). order_small ord"
    using facts legs by (auto simp: list_all2_Cons1 mirrors_intent_leg_def order_small_def sample_leg_def i64_bounds)
qed

theorem paper_submission_settles_by_fills_witness:
  "\<exists>plan reports. build_intent_plan sample_envelope 500 default_config = Inr plan \<and>
     er_status (snd (submit_approved_intent paper_ops sample_gateway sample_envelope sample_submit_context)) =
       settled_status plan reports"
proof -
  obtain plan where plan: "build_intent_plan sample_envelope 500 default_config = Inr plan"
    using sample_envelope_plan by blast
  obtain gw' result where run:
    "submit_approved_intent paper_ops sample_gateway sample_envelope sample_submit_context = (gw', result)"
    by fastforce
  have ctx: "ec_now_ns sample_submit_context = 500" "ec_config sample_submit_context = default_config"
    by (simp_all add: sample_submit_context_def)
  have "\<exists>reports. gw_pending_reports gw' = gw_pending_reports sample_gateway @ reports \<and>
    er_status result = settled_status plan reports \<and>
    map rp_type (gw_published_dispositions gw') =
      map rp_type (gw_published_dispositions sample_gateway) @ settled_dispositions plan reports \<and>
    (\<forall>r \<in> set reports. \<exists>ord \<in> set (plan_orders plan). co_order_id ord = xr_child_order_id r \<and>
       0 \<le> xr_filled_lots r \<and> xr_filled_lots r \<le> co_quantity_lots ord)"
  proof (rule paper_submission_settles_by_fills [OF _ _ _ _ _ _ run])
    show "gw_adapter sample_gateway = Some \<lparr>pa_pending_reports = []\<rparr>" "gw_has_reservation_publisher sample_gateway"
      by (simp_all add: sample_gateway_def)
    show "build_intent_plan sample_envelope (ec_now_ns sample_submit_context) (ec_config sample_submit_context) = Inr plan"
      "validate_plan plan (ec_config sample_submit_context) = Inr ()"
      using plan sample_plan_validates(1) [OF plan] by (simp_all add: ctx)
    show "oi_leg_count (ie_source_intent sample_envelope) \<le> length (oi_legs (ie_source_intent sample_envelope))"
      by (simp add: sample_envelope_def sample_intent_def)
  qed (rule sample_plan_validates(2) [OF plan])
  with plan run show ?thesis by auto
qed

text \<open>
  C28: Nothing invalid reaches the adapter, whatever the adapter is: when no plan can be built from the
  envelope, or the plan fails the configured validation, the submission fails, and neither the adapter nor the
  reports, the stored plans and the running plans change. No disposition but a release of the envelope's own
  reservation is published, and a plan that was built but did not validate does release it, naming the plan.
  (Nothing is said of the reservation when no plan could be built.)
\<close>
theorem rejected_submission_changes_nothing:
  assumes "plan_result = Inl error \<or> (\<exists>plan. plan_result = Inr plan \<and> validate_plan plan (ec_config ctx) \<noteq> Inr ())"
    and "submit_planned ops gw rid plan_result ctx = (gw', result)"
  shows "er_status result = PS_Failed \<and> \<not> er_ok result \<and> gw_adapter gw' = gw_adapter gw \<and>
    gw_pending_reports gw' = gw_pending_reports gw \<and> gw_published_reports gw' = gw_published_reports gw \<and>
    gw_plan_store gw' = gw_plan_store gw \<and> gw_runtime gw' = gw_runtime gw \<and>
    (\<exists>released. gw_published_dispositions gw' = gw_published_dispositions gw @ released \<and>
       (\<forall>d \<in> set released. rp_type d = RDT_Release \<and> rp_reservation_id d = rid) \<and>
       (gw_adapter gw \<noteq> None \<and> gw_has_reservation_publisher gw \<longrightarrow>
          (\<forall>plan. plan_result = Inr plan \<longrightarrow> map rp_plan_id released = [op_plan_id plan])))"
proof -
  have parts: "er_status result = PS_Failed" "\<not> er_ok result" "gw_adapter gw' = gw_adapter gw"
    "gw_pending_reports gw' = gw_pending_reports gw" "gw_published_reports gw' = gw_published_reports gw"
    "gw_plan_store gw' = gw_plan_store gw" "gw_runtime gw' = gw_runtime gw"
    using assms
    by (auto simp: submit_planned_def failed_result_def publish_reservation_disposition_def Let_def
        split: option.splits sum.splits if_splits)
  let ?released = "case plan_result of
      Inr plan \<Rightarrow> if gw_adapter gw \<noteq> None \<and> gw_has_reservation_publisher gw
        then [\<lparr>rp_reservation_id = rid, rp_plan_id = op_plan_id plan, rp_type = RDT_Release,
               rp_reason = ''plan validation failed''\<rparr>] else []
    | Inl _ \<Rightarrow> []"
  have "gw_published_dispositions gw' = gw_published_dispositions gw @ ?released"
    using assms
    by (auto simp: submit_planned_def publish_reservation_disposition_def Let_def
        split: option.splits sum.splits if_splits)
  then show ?thesis
    using parts by (intro conjI exI [of _ ?released]) (auto split: sum.splits)
qed

text \<open>An envelope no plan can be built from leaves its reservation as it was: nothing is published for it.\<close>

lemma planner_failure_keeps_reservation:
  "submit_planned ops gw rid (Inl error) ctx = (gw', result) \<Longrightarrow>
   gw_published_dispositions gw' = gw_published_dispositions gw"
  by (auto simp: submit_planned_def Let_def split: option.splits)

theorem rejected_submission_changes_nothing_witness:
  "er_status (snd (submit_approved_intent paper_ops sample_gateway sample_envelope
     (sample_submit_context\<lparr>ec_now_ns := 2000\<rparr>))) = PS_Failed"
proof -
  let ?ctx = "sample_submit_context\<lparr>ec_now_ns := 2000\<rparr>"
  have "build_intent_plan sample_envelope (ec_now_ns ?ctx) (ec_config ?ctx) = Inl ''source intent expired''"
    by (simp add: build_intent_plan_def Let_def sample_envelope_def sample_intent_def)
  with rejected_submission_changes_nothing [of
      "build_intent_plan sample_envelope (ec_now_ns ?ctx) (ec_config ?ctx)" _ ?ctx paper_ops sample_gateway
      "to_dec (unat (xa_reservation_id (ie_approval sample_envelope)))"]
  show ?thesis by (metis submit_approved_intent_def prod.collapse)
qed

text \<open>
  Cancelling in paper mode marks the running plan Cancelled whatever its status was, a terminal
  one included, leaves the stored plan as it was and publishes no disposition.
\<close>

lemma push_cancel_report_simps [simp]:
  "gw_runtime (push_cancel_report gw r) = gw_runtime gw"
  "gw_plan_store (push_cancel_report gw r) = gw_plan_store gw"
  "gw_published_dispositions (push_cancel_report gw r) = gw_published_dispositions gw"
  by (simp_all add: push_cancel_report_def Let_def)

lemma push_cancel_reports_simps [simp]:
  "gw_runtime (foldl push_cancel_report gw rs) = gw_runtime gw"
  "gw_plan_store (foldl push_cancel_report gw rs) = gw_plan_store gw"
  "gw_published_dispositions (foldl push_cancel_report gw rs) = gw_published_dispositions gw"
  by (induction rs arbitrary: gw) simp_all

lemma cancel_overwrites_any_status:
  assumes "gw_runtime gw plan_id = Some runtime" "xc_mode (rt_config runtime) = Paper"
    and "gateway_cancel_plan ops gw plan_id = (gw', result)"
  shows "map_option (\<lambda>rt. op_status (rt_plan rt)) (gw_runtime gw' plan_id) = Some PS_Cancelled \<and>
    gw_plan_store gw' = gw_plan_store gw \<and>
    gw_published_dispositions gw' = gw_published_dispositions gw"
  using assms by (auto simp: gateway_cancel_plan_def cancel_open_orders_def Let_def)

end
