(* ===== verification/OracleConstraints.thy ===== *)
theory OracleConstraints
  imports Prelude "HOL-Library.List_Lexorder" "HOL-Library.Char_ord"
begin

section \<open>Rules, boolean constraints and feasible states\<close>

text \<open>
  \<open>oracle/rules\<close> (the rule types, \<open>Rulebook\<close>'s containers, \<open>RuleValidator.cpp\<close>),
  \<open>oracle/compiler\<close> (\<open>Constraint.h\<close>, \<open>BooleanVariable.h\<close>,
  \<open>BooleanConstraintBuilder.cpp\<close>, \<open>ConstraintCompiler.cpp\<close>) and \<open>oracle/enumerate\<close>
  (\<open>StateBitset.h\<close>, \<open>FeasibilityChecker.cpp\<close>, \<open>StateEnumerator.cpp\<close>). A rulebook over
  named boolean variables is compiled into linear constraints over numbered ones; a state is a
  bit set; the checker evaluates the constraints and the enumerator lists the states that
  satisfy them. An unordered map or set is a map or set; \<open>std::sort\<close> by key is the library's
  stable sort, which agrees with it whenever the keys are distinct, and the compiler stops when
  they are not. Lemmas: compiled constraints mean what the rules say, and the enumeration is
  exactly the satisfying states.
\<close>

subsection \<open>Rules\<close>

datatype RuleType =
    MutuallyExclusive | CollectivelyExhaustive | RT_AtMostOne | RT_AtLeastOne | RT_ExactlyOne
  | RT_Implies | Equivalent | Disjoint | Custom

datatype RuleCoverage = ExclusiveOnly | ExhaustiveAndExclusive

record ValidatedRule =
  vr_rule_id :: string
  vr_type :: RuleType
  vr_coverage :: RuleCoverage
  vr_variable_ids :: "string list"
  vr_approved :: bool
  vr_approved_by :: string
  vr_approved_at_ns :: u64
  vr_source_rule_draft_id :: string

type_synonym Rulebook = "ValidatedRule list"

definition rule_is_exhaustive :: "RuleCoverage \<Rightarrow> bool" where
  "rule_is_exhaustive coverage \<longleftrightarrow> coverage = ExhaustiveAndExclusive"

definition add_rule :: "Rulebook \<Rightarrow> ValidatedRule \<Rightarrow> Rulebook" where
  "add_rule rules rule = rules @ [rule]"

definition approved_rules :: "Rulebook \<Rightarrow> ValidatedRule list" where
  "approved_rules rules = filter vr_approved rules"

definition unapproved_rules :: "Rulebook \<Rightarrow> ValidatedRule list" where
  "unapproved_rules rules = filter (\<lambda>rule. \<not> vr_approved rule) rules"

record RulebookValidationResult =
  rv_warnings :: "string list"
  rv_errors :: "string list"
  rv_unapproved_rules :: "string list"

definition compiler_ready :: "RulebookValidationResult \<Rightarrow> bool" where
  "compiler_ready result \<longleftrightarrow> rv_errors result = [] \<and> rv_unapproved_rules result = []"

definition variable_errors :: "string \<Rightarrow> string set \<Rightarrow> string \<Rightarrow> string list" where
  "variable_errors rule_id known_variables variable_id =
     (if variable_id = [] then [''rule '' @ rule_id @ '' has empty variable_id'']
      else if known_variables \<noteq> {} \<and> variable_id \<notin> known_variables
      then [''rule '' @ rule_id @ '' references unknown variable: '' @ variable_id]
      else [])"

definition rule_errors :: "string set \<Rightarrow> string set \<Rightarrow> ValidatedRule \<Rightarrow> string list" where
  "rule_errors seen_rule_ids known_variables rule =
     (if vr_rule_id rule = [] then [''rule missing rule_id'']
      else if vr_rule_id rule \<in> seen_rule_ids then [''duplicate rule_id: '' @ vr_rule_id rule]
      else []) @
     (if vr_variable_ids rule = [] then [''rule '' @ vr_rule_id rule @ '' has empty variable set'']
      else []) @
     concat (map (variable_errors (vr_rule_id rule) known_variables) (vr_variable_ids rule))"

fun validate_rules ::
  "string set \<Rightarrow> string set \<Rightarrow> ValidatedRule list \<Rightarrow> string list \<times> string list" where
  "validate_rules known_variables seen_rule_ids [] = ([], [])"
| "validate_rules known_variables seen_rule_ids (rule # rules) =
     (let (errors, unapproved) =
            validate_rules known_variables
              (if vr_rule_id rule = [] then seen_rule_ids else insert (vr_rule_id rule) seen_rule_ids)
              rules
      in (rule_errors seen_rule_ids known_variables rule @ errors,
          (if \<not> vr_approved rule then [vr_rule_id rule] else []) @ unapproved))"

definition validate_rulebook :: "Rulebook \<Rightarrow> string set \<Rightarrow> RulebookValidationResult" where
  "validate_rulebook rulebook known_variables =
     (case validate_rules known_variables {} rulebook of (errors, unapproved) \<Rightarrow>
        \<lparr>rv_warnings = [], rv_errors = errors, rv_unapproved_rules = unapproved\<rparr>)"

subsection \<open>Constraints\<close>

type_synonym i32 = int

record BooleanVariable =
  bv_var_id :: u32
  bv_variable_key :: string
  bv_market_id :: string
  bv_outcome_id :: string
  bv_asset_id :: string

datatype ConstraintOp = Equal | LessEqual | GreaterEqual

record LinearBooleanConstraint =
  lc_var_ids :: "u32 list"
  lc_coeffs :: "i32 list"
  lc_op :: ConstraintOp
  lc_rhs :: i32

record CompiledConstraintSet =
  cs_variables :: "BooleanVariable list"
  cs_constraints :: "LinearBooleanConstraint list"
  cs_constraint_hash :: u64

definition default_constraint :: LinearBooleanConstraint where
  "default_constraint = \<lparr>lc_var_ids = [], lc_coeffs = [], lc_op = Equal, lc_rhs = 0\<rparr>"

type_synonym VariableIndex = "string \<rightharpoonup> u32"

text \<open>A built constraint and the errors met.\<close>

type_synonym BuildResult = "LinearBooleanConstraint \<times> string list"

definition append_var_id :: "VariableIndex \<Rightarrow> BuildResult \<Rightarrow> string \<Rightarrow> BuildResult" where
  "append_var_id variable_index result variable_key =
     (case result of (constraint, errors) \<Rightarrow>
        (case variable_index variable_key of
           None \<Rightarrow> (constraint, errors @ [''unknown variable: '' @ variable_key])
         | Some var_id \<Rightarrow> (constraint\<lparr>lc_var_ids := lc_var_ids constraint @ [var_id]\<rparr>, errors)))"

definition sum_constraint ::
  "string list \<Rightarrow> VariableIndex \<Rightarrow> ConstraintOp \<Rightarrow> i32 \<Rightarrow> BuildResult" where
  "sum_constraint variable_keys variable_index op rhs =
     (if variable_keys = [] then (default_constraint, [''constraint has empty variable set''])
      else
        (case foldl (append_var_id variable_index) (default_constraint, []) variable_keys of
           (constraint, errors) \<Rightarrow>
             (constraint\<lparr>lc_coeffs := replicate (length (lc_var_ids constraint)) 1,
                         lc_op := op, lc_rhs := rhs\<rparr>, errors)))"

definition exactly_one :: "string list \<Rightarrow> VariableIndex \<Rightarrow> BuildResult" where
  "exactly_one variable_keys variable_index = sum_constraint variable_keys variable_index Equal 1"

definition at_most_one :: "string list \<Rightarrow> VariableIndex \<Rightarrow> BuildResult" where
  "at_most_one variable_keys variable_index = sum_constraint variable_keys variable_index LessEqual 1"

definition at_least_one :: "string list \<Rightarrow> VariableIndex \<Rightarrow> BuildResult" where
  "at_least_one variable_keys variable_index =
     sum_constraint variable_keys variable_index GreaterEqual 1"

definition implies :: "string list \<Rightarrow> VariableIndex \<Rightarrow> BuildResult" where
  "implies variable_keys variable_index =
     (case variable_keys of
        [a, b] \<Rightarrow>
          (case append_var_id variable_index (default_constraint, []) a of (c1, e1) \<Rightarrow>
             if e1 \<noteq> [] then (c1, e1)
             else
               (case append_var_id variable_index (c1, e1) b of (c2, e2) \<Rightarrow>
                  if e2 \<noteq> [] then (c2, e2)
                  else (c2\<lparr>lc_coeffs := [1, -1], lc_op := LessEqual, lc_rhs := 0\<rparr>, e2)))
      | _ \<Rightarrow> (default_constraint, [''Implies requires exactly two variables'']))"

subsection \<open>ConstraintCompiler\<close>

text \<open>The loop over the sorted variables: position, keys seen, variable by variable.\<close>

fun number_variables ::
  "nat \<Rightarrow> string set \<Rightarrow> BooleanVariable list \<Rightarrow> BooleanVariable list \<times> string list" where
  "number_variables i seen [] = ([], [])"
| "number_variables i seen (v # vs) =
     (if bv_variable_key v = []
      then (let (out, errors) = number_variables (Suc i) seen vs
            in (v # out, ''boolean variable missing variable_key'' # errors))
      else
        (let (out, errors) = number_variables (Suc i) (insert (bv_variable_key v) seen) vs
         in (v\<lparr>bv_var_id := of_nat i\<rparr> # out,
             (if bv_variable_key v \<in> seen
              then [''duplicate boolean variable: '' @ bv_variable_key v] else []) @ errors)))"

definition normalize_variables :: "BooleanVariable list \<Rightarrow> BooleanVariable list \<times> string list" where
  "normalize_variables variables = number_variables 0 {} (sort_key bv_variable_key variables)"

definition index_variables :: "BooleanVariable list \<Rightarrow> VariableIndex" where
  "index_variables variables = map_of (map (\<lambda>v. (bv_variable_key v, bv_var_id v)) variables)"

definition hash_u32 :: "u32 \<Rightarrow> u64 \<Rightarrow> u64" where
  "hash_u32 value hash =
     foldl (\<lambda>h shift. fnv_byte h (ucast (drop_bit shift value) AND 0xFF)) hash [0, 8, 16, 24]"

definition hash_i32 :: "i32 \<Rightarrow> u64 \<Rightarrow> u64" where
  "hash_i32 value hash = hash_u32 (word_of_int value) hash"

definition hash_terminated :: "string \<Rightarrow> u64 \<Rightarrow> u64" where
  "hash_terminated value hash = fnv_byte (fnv_string value hash) 0xFF"

fun op_code :: "ConstraintOp \<Rightarrow> u64" where
  "op_code Equal = 0"
| "op_code LessEqual = 1"
| "op_code GreaterEqual = 2"

definition hash_variable :: "u64 \<Rightarrow> BooleanVariable \<Rightarrow> u64" where
  "hash_variable hash v =
     hash_terminated (bv_asset_id v)
     (hash_terminated (bv_outcome_id v)
     (hash_terminated (bv_market_id v)
     (hash_terminated (bv_variable_key v) (hash_u32 (bv_var_id v) hash))))"

definition hash_constraint :: "u64 \<Rightarrow> LinearBooleanConstraint \<Rightarrow> u64" where
  "hash_constraint hash c =
     foldl (\<lambda>h coeff. hash_i32 coeff h)
       (foldl (\<lambda>h var_id. hash_u32 var_id h)
          (hash_u32 (of_nat (length (lc_var_ids c)))
             (hash_i32 (lc_rhs c) (fnv_byte hash (op_code (lc_op c)))))
          (lc_var_ids c))
       (lc_coeffs c)"

definition hash_compiled_constraints :: "CompiledConstraintSet \<Rightarrow> u64" where
  "hash_compiled_constraints compiled =
     foldl hash_constraint (foldl hash_variable fnv_offset (cs_variables compiled))
       (cs_constraints compiled)"

record ConstraintCompilationResult =
  cc_compiled :: CompiledConstraintSet
  cc_warnings :: "string list"
  cc_errors :: "string list"

definition rule_error :: "ValidatedRule \<Rightarrow> string \<Rightarrow> string" where
  "rule_error rule message = ''rule '' @ vr_rule_id rule @ '': '' @ message"

text \<open>One rule: its constraint, or its errors.\<close>

definition compile_rule :: "VariableIndex \<Rightarrow> ValidatedRule \<Rightarrow> string list + LinearBooleanConstraint" where
  "compile_rule variable_index rule =
     (let finish = (\<lambda>(constraint, errors).
            if errors = [] then Inr constraint else Inl (map (rule_error rule) errors));
          keys = vr_variable_ids rule
      in
      if \<not> vr_approved rule then Inl [rule_error rule ''unapproved rule cannot be compiled'']
      else
        (case vr_type rule of
           MutuallyExclusive \<Rightarrow>
             finish (if rule_is_exhaustive (vr_coverage rule) then exactly_one keys variable_index
                     else at_most_one keys variable_index)
         | RT_ExactlyOne \<Rightarrow> finish (exactly_one keys variable_index)
         | RT_AtMostOne \<Rightarrow> finish (at_most_one keys variable_index)
         | RT_AtLeastOne \<Rightarrow> finish (at_least_one keys variable_index)
         | RT_Implies \<Rightarrow> finish (implies keys variable_index)
         | _ \<Rightarrow> Inl [rule_error rule ''unsupported rule type for constraint compiler'']))"

fun compile_rules ::
  "VariableIndex \<Rightarrow> ValidatedRule list \<Rightarrow> LinearBooleanConstraint list \<times> string list" where
  "compile_rules variable_index [] = ([], [])"
| "compile_rules variable_index (rule # rules) =
     (case compile_rules variable_index rules of (constraints, errors) \<Rightarrow>
        (case compile_rule variable_index rule of
           Inl rule_errs \<Rightarrow> (constraints, rule_errs @ errors)
         | Inr constraint \<Rightarrow> (constraint # constraints, errors)))"

definition compile :: "Rulebook \<Rightarrow> BooleanVariable list \<Rightarrow> ConstraintCompilationResult" where
  "compile rulebook variables =
     (case normalize_variables variables of (normalized, errors) \<Rightarrow>
        if errors \<noteq> []
        then \<lparr>cc_compiled = \<lparr>cs_variables = normalized, cs_constraints = [], cs_constraint_hash = 0\<rparr>,
              cc_warnings = [], cc_errors = errors\<rparr>
        else
          (case compile_rules (index_variables normalized) rulebook of (constraints, rule_errs) \<Rightarrow>
             (let compiled = \<lparr>cs_variables = normalized, cs_constraints = constraints,
                              cs_constraint_hash = 0\<rparr>
              in \<lparr>cc_compiled = compiled\<lparr>cs_constraint_hash := hash_compiled_constraints compiled\<rparr>,
                  cc_warnings = [], cc_errors = rule_errs\<rparr>)))"

subsection \<open>States\<close>

type_synonym StateBitset = "u64 list"

definition test_bit :: "StateBitset \<Rightarrow> u32 \<Rightarrow> bool" where
  "test_bit words var_id =
     (let word_index = unat var_id div 64; bit_index = unat var_id mod 64
      in if word_index \<ge> length words then False else bit (words ! word_index) bit_index)"

definition state_bitset_from_mask :: "u64 \<Rightarrow> StateBitset" where
  "state_bitset_from_mask bits = [bits]"

subsection \<open>FeasibilityChecker\<close>

datatype OracleErrorCode =
    OE_None | OE_InvalidInput | OE_MissingField | OE_UnknownMarket | OE_UnknownAsset
  | OE_UnknownVariable | OE_UnapprovedRule | OE_ContradictoryRules | OE_TooManyVariables
  | OE_ArtifactWriteFailed | OE_ArtifactReadFailed | OE_ChecksumMismatch | OE_LlmDisabled
  | OE_MissingApiKey | OE_InternalError

definition wrap_i32 :: "int \<Rightarrow> i32" where
  "wrap_i32 x = (x + 2147483648) mod 4294967296 - 2147483648"

definition evaluate :: "i32 \<Rightarrow> ConstraintOp \<Rightarrow> i32 \<Rightarrow> bool" where
  "evaluate lhs op rhs =
     (case op of Equal \<Rightarrow> lhs = rhs | LessEqual \<Rightarrow> lhs \<le> rhs | GreaterEqual \<Rightarrow> lhs \<ge> rhs)"

definition constraint_lhs :: "StateBitset \<Rightarrow> LinearBooleanConstraint \<Rightarrow> i32" where
  "constraint_lhs state c =
     foldl (\<lambda>lhs (var_id, coeff).
         wrap_i32 (lhs + wrap_i32 (coeff * (if test_bit state var_id then 1 else 0))))
       0 (zip (lc_var_ids c) (lc_coeffs c))"

record FeasibilityCheckResult =
  fc_code :: OracleErrorCode
  fc_feasible :: bool
  fc_errors :: "string list"

fun check_loop :: "StateBitset \<Rightarrow> nat \<Rightarrow> LinearBooleanConstraint list \<Rightarrow> FeasibilityCheckResult" where
  "check_loop state i [] = \<lparr>fc_code = OE_None, fc_feasible = True, fc_errors = []\<rparr>"
| "check_loop state i (c # cs) =
     (if length (lc_var_ids c) \<noteq> length (lc_coeffs c)
      then \<lparr>fc_code = OE_InvalidInput, fc_feasible = False,
            fc_errors = [''constraint '' @ to_dec i @ '' has mismatched var_ids and coeffs'']\<rparr>
      else if \<not> evaluate (constraint_lhs state c) (lc_op c) (lc_rhs c)
      then \<lparr>fc_code = OE_None, fc_feasible = False, fc_errors = []\<rparr>
      else check_loop state (Suc i) cs)"

definition check :: "CompiledConstraintSet \<Rightarrow> StateBitset \<Rightarrow> FeasibilityCheckResult" where
  "check compiled state = check_loop state 0 (cs_constraints compiled)"

definition check_ok :: "FeasibilityCheckResult \<Rightarrow> bool" where
  "check_ok result \<longleftrightarrow> fc_code result = OE_None \<and> fc_errors result = []"

subsection \<open>StateEnumerator\<close>

record FeasibleState =
  st_state_id :: u64
  st_bitset_words :: "u64 list"

record StateEnumerationResult =
  se_code :: OracleErrorCode
  se_feasible_states :: "FeasibleState list"
  se_errors :: "string list"

definition kMaxBruteforceVariables :: nat where
  "kMaxBruteforceVariables = 32"

text \<open>The loop over the masks, with the states found so far.\<close>

fun enumerate_loop ::
  "CompiledConstraintSet \<Rightarrow> FeasibleState list \<Rightarrow> u64 list \<Rightarrow> StateEnumerationResult" where
  "enumerate_loop compiled found [] =
     \<lparr>se_code = OE_None, se_feasible_states = found, se_errors = []\<rparr>"
| "enumerate_loop compiled found (m # ms) =
     (let bitset = state_bitset_from_mask m;
          result = check compiled bitset
      in if \<not> check_ok result
         then \<lparr>se_code = fc_code result, se_feasible_states = found, se_errors = fc_errors result\<rparr>
         else if fc_feasible result
         then enumerate_loop compiled (found @ [\<lparr>st_state_id = m, st_bitset_words = bitset\<rparr>]) ms
         else enumerate_loop compiled found ms)"

definition enumerate_states :: "CompiledConstraintSet \<Rightarrow> StateEnumerationResult" where
  "enumerate_states compiled =
     (let variable_count = length (cs_variables compiled) in
      if variable_count > kMaxBruteforceVariables
      then \<lparr>se_code = OE_TooManyVariables, se_feasible_states = [],
            se_errors = [''state enumeration supports <= 32 variables'']\<rparr>
      else enumerate_loop compiled [] (map of_nat [0..<2 ^ variable_count]))"

subsection \<open>Linear sums stay within 32 bits\<close>

lemma wrap_i32_id: "\<bar>x\<bar> \<le> 2147483647 \<Longrightarrow> wrap_i32 x = x"
  by (simp add: wrap_i32_def)

abbreviation term_value :: "StateBitset \<Rightarrow> u32 \<times> i32 \<Rightarrow> int" where
  "term_value state t \<equiv> (if test_bit state (fst t) then snd t else 0)"

lemma lhs_fold_exact:
  assumes "\<bar>acc\<bar> + (\<Sum>t\<leftarrow>ts. \<bar>snd t\<bar>) \<le> 2147483647"
  shows "foldl (\<lambda>lhs (var_id, coeff).
      wrap_i32 (lhs + wrap_i32 (coeff * (if test_bit state var_id then 1 else 0)))) acc ts =
    acc + (\<Sum>t\<leftarrow>ts. term_value state t)"
  using assms
proof (induction ts arbitrary: acc)
  case (Cons t ts)
  obtain v k where t: "t = (v, k)" by fastforce
  have nn: "0 \<le> (\<Sum>t\<leftarrow>ts. \<bar>snd t\<bar>)" by (intro sum_list_nonneg) auto
  let ?x = "if test_bit state v then k else 0"
  have "wrap_i32 (acc + wrap_i32 (k * (if test_bit state v then 1 else 0))) = acc + ?x"
    using Cons.prems nn by (auto simp: t wrap_i32_id)
  moreover have "\<bar>acc + ?x\<bar> + (\<Sum>t\<leftarrow>ts. \<bar>snd t\<bar>) \<le> 2147483647"
    using Cons.prems by (auto simp: t)
  ultimately show ?case using Cons.IH [of "acc + ?x"] by (simp add: t)
qed simp

lemma sum_true_ones:
  "(\<Sum>t\<leftarrow>zip ids (replicate (length ids) 1). term_value state t) =
     int (length (filter (test_bit state) ids))"
  by (induction ids) auto

lemma sum_abs_ones: "(\<Sum>t\<leftarrow>zip ids (replicate (length ids) (1::int)). \<bar>snd t\<bar>) = int (length ids)"
  by (induction ids) auto

lemma lhs_count:
  assumes "lc_coeffs c = replicate (length (lc_var_ids c)) 1" "length (lc_var_ids c) \<le> 2147483647"
  shows "constraint_lhs state c = int (length (filter (test_bit state) (lc_var_ids c)))"
proof -
  have "\<bar>0::int\<bar> + (\<Sum>t\<leftarrow>zip (lc_var_ids c) (lc_coeffs c). \<bar>snd t\<bar>) \<le> 2147483647"
    using assms by (simp add: sum_abs_ones)
  from lhs_fold_exact [OF this] show ?thesis
    by (simp add: constraint_lhs_def assms(1) sum_true_ones)
qed

subsection \<open>What a compiled rule means\<close>

text \<open>The meaning of a rule over a valuation of its variables.\<close>

definition true_count :: "(string \<Rightarrow> bool) \<Rightarrow> string list \<Rightarrow> nat" where
  "true_count val keys = length (filter val keys)"

definition rule_holds :: "ValidatedRule \<Rightarrow> (string \<Rightarrow> bool) \<Rightarrow> bool" where
  "rule_holds rule val =
     (let keys = vr_variable_ids rule in
      case vr_type rule of
        MutuallyExclusive \<Rightarrow>
          (if rule_is_exhaustive (vr_coverage rule) then true_count val keys = 1
           else true_count val keys \<le> 1)
      | RT_ExactlyOne \<Rightarrow> true_count val keys = 1
      | RT_AtMostOne \<Rightarrow> true_count val keys \<le> 1
      | RT_AtLeastOne \<Rightarrow> 1 \<le> true_count val keys
      | RT_Implies \<Rightarrow> (case keys of [a, b] \<Rightarrow> val a \<longrightarrow> val b | _ \<Rightarrow> False)
      | _ \<Rightarrow> False)"

lemma append_fold:
  "foldl (append_var_id idx) (c, errors) keys =
     (c\<lparr>lc_var_ids := lc_var_ids c @ map (the \<circ> idx) (filter (\<lambda>k. idx k \<noteq> None) keys)\<rparr>,
      errors @ map (\<lambda>k. ''unknown variable: '' @ k) (filter (\<lambda>k. idx k = None) keys))"
  by (induction keys arbitrary: c errors) (auto simp: append_var_id_def split: option.split)

lemma sum_constraint_ok:
  assumes "sum_constraint keys idx op rhs = (c, [])"
  shows "keys \<noteq> [] \<and> (\<forall>k \<in> set keys. idx k \<noteq> None) \<and> lc_var_ids c = map (the \<circ> idx) keys \<and>
    lc_coeffs c = replicate (length keys) 1 \<and> lc_op c = op \<and> lc_rhs c = rhs"
proof -
  have known: "\<forall>k \<in> set keys. idx k \<noteq> None"
    using assms by (auto simp: sum_constraint_def append_fold filter_empty_conv split: if_splits)
  then have "filter (\<lambda>k. idx k \<noteq> None) keys = keys" by simp
  with assms known show ?thesis
    by (auto simp: sum_constraint_def append_fold default_constraint_def split: if_splits)
qed

lemma sum_constraint_lhs:
  assumes "sum_constraint keys idx op rhs = (c, [])" "length keys \<le> 2147483647"
  shows "constraint_lhs state c = int (true_count (\<lambda>k. test_bit state (the (idx k))) keys)"
proof -
  note ok = sum_constraint_ok [OF assms(1)]
  have "constraint_lhs state c = int (length (filter (test_bit state) (lc_var_ids c)))"
    using ok assms(2) by (intro lhs_count) simp_all
  then show ?thesis using ok by (simp add: true_count_def filter_map comp_def)
qed

lemma implies_ok:
  assumes "implies keys idx = (c, [])"
  shows "\<exists>a b i j. keys = [a, b] \<and> idx a = Some i \<and> idx b = Some j \<and>
    c = \<lparr>lc_var_ids = [i, j], lc_coeffs = [1, -1], lc_op = LessEqual, lc_rhs = 0\<rparr>"
  using assms by (auto simp: implies_def append_var_id_def default_constraint_def
      split: list.splits option.splits if_splits)

lemma compile_rule_sound:
  assumes "compile_rule idx rule = Inr c" "length (vr_variable_ids rule) \<le> 2147483647"
  shows "length (lc_var_ids c) = length (lc_coeffs c) \<and>
    (evaluate (constraint_lhs state c) (lc_op c) (lc_rhs c) \<longleftrightarrow>
       rule_holds rule (\<lambda>k. test_bit state (the (idx k)))) \<and>
    (\<forall>k \<in> set (vr_variable_ids rule). idx k \<noteq> None)"
proof (cases "vr_type rule = RT_Implies")
  case True
  then have "implies (vr_variable_ids rule) idx = (c, [])"
    using assms(1) by (auto simp: compile_rule_def Let_def split: if_splits prod.splits)
  from implies_ok [OF this] True show ?thesis
    by (auto simp: rule_holds_def evaluate_def constraint_lhs_def wrap_i32_id split: if_splits)
next
  case False
  then obtain op where sum: "sum_constraint (vr_variable_ids rule) idx op 1 = (c, [])"
    and op: "rule_holds rule = (\<lambda>val. evaluate (int (true_count val (vr_variable_ids rule))) op 1)"
    using assms(1)
    by (auto simp: compile_rule_def Let_def exactly_one_def at_most_one_def at_least_one_def
        rule_holds_def evaluate_def fun_eq_iff split: if_splits prod.splits RuleType.splits)
  with sum_constraint_ok [OF sum] sum_constraint_lhs [OF sum assms(2)] show ?thesis by simp
qed

lemma compile_rule_errors: "compile_rule idx rule \<noteq> Inl []"
  by (cases "vr_type rule") (auto simp: compile_rule_def Let_def split: prod.split)

lemma compile_rules_Cons:
  assumes "compile_rules idx (rule # rules) = (cs, [])"
  obtains c cs' where "compile_rule idx rule = Inr c" "compile_rules idx rules = (cs', [])" "cs = c # cs'"
  using assms compile_rule_errors [of idx rule] by (auto split: prod.splits sum.splits)

lemma compile_rules_sound:
  assumes "compile_rules idx rules = (cs, [])"
    and "\<forall>rule \<in> set rules. length (vr_variable_ids rule) \<le> 2147483647"
  shows "check_ok (check_loop state i cs) \<and>
    (fc_feasible (check_loop state i cs) \<longleftrightarrow>
       (\<forall>rule \<in> set rules. rule_holds rule (\<lambda>k. test_bit state (the (idx k)))))"
  using assms
proof (induction rules arbitrary: cs i)
  case Nil
  then show ?case by (simp add: check_ok_def)
next
  case (Cons rule rules)
  obtain c cs' where c: "compile_rule idx rule = Inr c" and cs': "compile_rules idx rules = (cs', [])"
    and cs: "cs = c # cs'"
    using compile_rules_Cons [OF Cons.prems(1)] .
  note sound = compile_rule_sound [OF c, of state] and IH = Cons.IH [OF cs', of "Suc i"]
  show ?case using sound IH Cons.prems(2) by (auto simp: cs check_ok_def)
qed

subsection \<open>Numbering\<close>

lemma number_variables_ok:
  assumes "number_variables i seen vs = (out, [])"
  shows "map bv_variable_key out = map bv_variable_key vs \<and>
    map bv_var_id out = map of_nat [i..<i + length vs] \<and>
    distinct (map bv_variable_key vs) \<and> bv_variable_key ` set vs \<inter> seen = {} \<and>
    [] \<notin> bv_variable_key ` set vs"
  using assms
proof (induction vs arbitrary: i seen out)
  case (Cons v vs)
  let ?k = "bv_variable_key v"
  obtain out' where rest: "number_variables (Suc i) (insert ?k seen) vs = (out', [])"
    and k: "?k \<noteq> []" "?k \<notin> seen" and out: "out = v\<lparr>bv_var_id := of_nat i\<rparr> # out'"
    using Cons.prems by (auto split: if_splits prod.splits)
  have "[i..<i + length (v # vs)] = i # [Suc i..<Suc i + length vs]"
    by (simp add: upt_conv_Cons del: upt_Suc)
  with Cons.IH [OF rest] k show ?case by (auto simp: out)
qed simp

lemma normalize_ok:
  assumes "normalize_variables variables = (out, [])"
  shows "map bv_variable_key out = map bv_variable_key (sort_key bv_variable_key variables)"
    and "map bv_var_id out = map of_nat [0..<length variables]"
    and "distinct (map bv_variable_key out)" "length out = length variables"
  using number_variables_ok [OF assms [unfolded normalize_variables_def]] by (auto dest: map_eq_imp_length_eq)

lemma index_variables_nth:
  assumes "normalize_variables variables = (out, [])" "index_variables out key = Some var_id"
  shows "\<exists>i < length variables. bv_variable_key (out ! i) = key \<and> var_id = of_nat i"
proof -
  from assms(2) obtain v where v: "v \<in> set out" "bv_variable_key v = key" "bv_var_id v = var_id"
    by (auto simp: index_variables_def dest!: map_of_SomeD)
  then obtain i where i: "i < length out" "v = out ! i" by (metis in_set_conv_nth)
  note ok = normalize_ok [OF assms(1)]
  have "bv_var_id (out ! i) = of_nat i"
    using ok(2,4) i(1) by (metis add_0 diff_zero length_upt nth_map nth_upt)
  with i v ok(4) show ?thesis by auto
qed

subsection \<open>Enumeration\<close>

lemma enumerate_loop_exact:
  assumes "\<forall>m \<in> set ms. check_ok (check compiled [m])"
  shows "enumerate_loop compiled found ms =
    \<lparr>se_code = OE_None,
     se_feasible_states = found @ map (\<lambda>m. \<lparr>st_state_id = m, st_bitset_words = [m]\<rparr>)
       (filter (\<lambda>m. fc_feasible (check compiled [m])) ms),
     se_errors = []\<rparr>"
  using assms by (induction ms arbitrary: found) (simp_all add: Let_def state_bitset_from_mask_def)

lemma test_bit_mask:
  assumes "i < 32"
  shows "test_bit [m] (of_nat i) \<longleftrightarrow> bit m i"
proof -
  have "unat (of_nat i :: u32) = i" using assms by (simp add: unat_of_nat take_bit_nat_eq_self)
  with assms show ?thesis by (simp add: test_bit_def Let_def)
qed

text \<open>The position of a key among the sorted variables.\<close>

definition key_position :: "BooleanVariable list \<Rightarrow> string \<Rightarrow> nat" where
  "key_position variables key =
     length (takeWhile (\<lambda>v. bv_variable_key v \<noteq> key) (sort_key bv_variable_key variables))"

lemma takeWhile_distinct_nth:
  assumes "distinct (map f xs)" "i < length xs"
  shows "length (takeWhile (\<lambda>x. f x \<noteq> f (xs ! i)) xs) = i"
  using assms
proof (induction xs arbitrary: i)
  case (Cons x xs)
  show ?case
  proof (cases i)
    case (Suc j)
    with Cons.prems have "f x \<noteq> f (xs ! j)" by auto
    with Suc Cons show ?thesis by simp
  qed simp
qed simp

lemma key_position_nth:
  assumes "normalize_variables variables = (out, [])" "i < length variables"
  shows "key_position variables (bv_variable_key (out ! i)) = i"
proof -
  let ?s = "sort_key bv_variable_key variables"
  note ok = normalize_ok [OF assms(1)]
  have "bv_variable_key (out ! i) = bv_variable_key (?s ! i)"
    using ok(1,4) assms(2) by (metis length_sort nth_map)
  moreover have "distinct (map bv_variable_key ?s)" using ok(1,3) by simp
  ultimately show ?thesis
    using takeWhile_distinct_nth [of bv_variable_key ?s i] assms(2) by (simp add: key_position_def)
qed

lemma compile_ok_parts:
  assumes "cc_errors (compile rulebook variables) = []"
  obtains out cs where "normalize_variables variables = (out, [])"
    "compile_rules (index_variables out) rulebook = (cs, [])"
    "cs_variables (cc_compiled (compile rulebook variables)) = out"
    "cs_constraints (cc_compiled (compile rulebook variables)) = cs"
  using assms that by (auto simp: compile_def Let_def split: prod.splits if_splits)

lemma compile_rules_known:
  "compile_rules idx rules = (cs, []) \<Longrightarrow>
   \<forall>rule \<in> set rules. length (vr_variable_ids rule) \<le> 2147483647 \<Longrightarrow>
   rule \<in> set rules \<Longrightarrow> key \<in> set (vr_variable_ids rule) \<Longrightarrow> idx key \<noteq> None"
proof (induction rules arbitrary: cs)
  case (Cons r rules)
  obtain c cs' where c: "compile_rule idx r = Inr c" and cs': "compile_rules idx rules = (cs', [])"
    using compile_rules_Cons [OF Cons.prems(1)] .
  show ?case
  proof (cases "rule = r")
    case True
    with compile_rule_sound [OF c] Cons.prems(2,4) show ?thesis by auto
  next
    case False
    with Cons.IH [OF cs'] Cons.prems show ?thesis by simp
  qed
qed simp

lemma rule_holds_cong:
  "(\<And>k. k \<in> set (vr_variable_ids rule) \<Longrightarrow> f k = g k) \<Longrightarrow> rule_holds rule f = rule_holds rule g"
proof -
  assume eq: "\<And>k. k \<in> set (vr_variable_ids rule) \<Longrightarrow> f k = g k"
  then have "true_count f (vr_variable_ids rule) = true_count g (vr_variable_ids rule)"
    by (simp add: true_count_def cong: filter_cong)
  with eq show ?thesis
    by (auto simp: rule_holds_def Let_def split: RuleType.split list.split)
qed

text \<open>
  C14: The states the enumerator lists for a compiled rulebook are exactly the models of the
  rules: when the compiler reports no error and there are at most 32 variables, the enumeration
  succeeds and its states are, in ascending order, the bit masks below \<open>2^n\<close> under which every
  rule holds, the bit of a variable being its position in the order of the keys.
\<close>
theorem enumeration_is_rule_models:
  assumes "cc_errors (compile rulebook variables) = []"
    and "length variables \<le> 32"
    and "\<forall>rule \<in> set rulebook. length (vr_variable_ids rule) \<le> 2147483647"
  shows "enumerate_states (cc_compiled (compile rulebook variables)) =
    \<lparr>se_code = OE_None,
     se_feasible_states = map (\<lambda>m. \<lparr>st_state_id = m, st_bitset_words = [m]\<rparr>)
       (filter (\<lambda>m. \<forall>rule \<in> set rulebook. rule_holds rule (\<lambda>key. bit m (key_position variables key)))
         (map of_nat [0..<2 ^ length variables])),
     se_errors = []\<rparr>"
proof -
  obtain out cs where norm: "normalize_variables variables = (out, [])"
    and rules: "compile_rules (index_variables out) rulebook = (cs, [])"
    and vars: "cs_variables (cc_compiled (compile rulebook variables)) = out"
    and constraints: "cs_constraints (cc_compiled (compile rulebook variables)) = cs"
    using compile_ok_parts [OF assms(1)] by blast
  let ?c = "cc_compiled (compile rulebook variables)"
  have len: "length out = length variables" by (rule normalize_ok(4) [OF norm])
  have each: "check_ok (check ?c [m]) \<and>
      (fc_feasible (check ?c [m]) \<longleftrightarrow>
        (\<forall>rule \<in> set rulebook. rule_holds rule (\<lambda>k. test_bit [m] (the (index_variables out k)))))" for m
    using compile_rules_sound [OF rules assms(3), of "[m]" 0] by (simp add: check_def constraints)
  have same: "rule_holds rule (\<lambda>k. test_bit [m] (the (index_variables out k))) =
      rule_holds rule (\<lambda>k. bit m (key_position variables k))" if "rule \<in> set rulebook" for rule m
  proof (rule rule_holds_cong)
    fix k assume "k \<in> set (vr_variable_ids rule)"
    with compile_rules_known [OF rules assms(3) that] obtain v where v: "index_variables out k = Some v" by auto
    from index_variables_nth [OF norm v] obtain i where "i < length variables" "bv_variable_key (out ! i) = k"
      "v = of_nat i" by blast
    with key_position_nth [OF norm] test_bit_mask [of i m] assms(2) v
    show "test_bit [m] (the (index_variables out k)) = bit m (key_position variables k)" by force
  qed
  show ?thesis
    using enumerate_loop_exact [of "map of_nat [0..<2 ^ length variables]" ?c "[]"] each same assms(2)
    by (simp add: enumerate_states_def Let_def vars len kMaxBruteforceVariables_def cong: filter_cong)
qed

definition sample_variable :: "string \<Rightarrow> BooleanVariable" where
  "sample_variable key =
     \<lparr>bv_var_id = 0, bv_variable_key = key, bv_market_id = ''m'', bv_outcome_id = key,
      bv_asset_id = key\<rparr>"

definition sample_rule :: "RuleType \<Rightarrow> string list \<Rightarrow> ValidatedRule" where
  "sample_rule type keys =
     \<lparr>vr_rule_id = ''r'', vr_type = type, vr_coverage = ExclusiveOnly, vr_variable_ids = keys,
      vr_approved = True, vr_approved_by = ''x'', vr_approved_at_ns = 1,
      vr_source_rule_draft_id = []\<rparr>"

theorem enumeration_is_rule_models_witness:
  "map st_state_id (se_feasible_states (enumerate_states (cc_compiled
     (compile [sample_rule RT_ExactlyOne [''b'', ''a'']] [sample_variable ''b'', sample_variable ''a''])))) = [1, 2]"
proof -
  let ?book = "[sample_rule RT_ExactlyOne [''b'', ''a'']]"
  let ?vars = "[sample_variable ''b'', sample_variable ''a'']"
  have "cc_errors (compile ?book ?vars) = []"
    by (simp add: compile_def normalize_variables_def sample_variable_def sample_rule_def compile_rule_def
        Let_def exactly_one_def sum_constraint_def append_var_id_def index_variables_def
        default_constraint_def less_char_def)
  from enumeration_is_rule_models [OF this] show ?thesis
    by (simp add: sample_variable_def sample_rule_def rule_holds_def true_count_def key_position_def
        less_char_def numeral_2_eq_2 upt_rec bit_simps)
qed

end
