(* ===== verification/WorstCaseOracles.thy ===== *)
theory WorstCaseOracles
  imports OracleConstraints
begin

section \<open>Components and worst-case payoffs\<close>

text \<open>
  \<open>oracle/compiler/CompiledComponent.h\<close>, the classification of
  \<open>oracle/compiler/ComponentPartitioner.cpp\<close>, and the three back ends behind
  \<open>oracle/enumerate/FeasibleStateOracle.h\<close>: \<open>SmallEnumOracle.cpp\<close>,
  \<open>ExactlyOneOracle.cpp\<close> and \<open>AtMostOneOracle.cpp\<close>. A back end computes the smallest profit
  of an objective over the settlements it holds possible. The locale \<open>worst_case_oracle\<close>
  states that contract over a set of possible settlements; the three back ends are its
  instances, and its lemmas say that the positive-profit flag is exact and that two back ends
  for the same settlements agree.
\<close>

subsection \<open>Components\<close>

datatype ComponentKind =
    SmallEnumerable | KindExactlyOne | KindAtMostOne | ImplicationDag | WeightedThreshold
  | GenericLinearBoolean

record CompiledComponent =
  kc_component_id :: u32
  kc_variable_ids :: "u32 list"
  kc_constraint_ids :: "u32 list"
  kc_component_hash :: string
  kc_kind :: ComponentKind

definition all_coeffs_one :: "LinearBooleanConstraint \<Rightarrow> bool" where
  "all_coeffs_one c \<longleftrightarrow> list_all (\<lambda>coeff. coeff = 1) (lc_coeffs c)"

definition is_exactly_one_constraint :: "LinearBooleanConstraint \<Rightarrow> CompiledComponent \<Rightarrow> bool" where
  "is_exactly_one_constraint c component \<longleftrightarrow>
     lc_op c = Equal \<and> lc_rhs c = 1 \<and>
     length (lc_var_ids c) = length (kc_variable_ids component) \<and> all_coeffs_one c"

definition is_at_most_one_constraint :: "LinearBooleanConstraint \<Rightarrow> CompiledComponent \<Rightarrow> bool" where
  "is_at_most_one_constraint c component \<longleftrightarrow>
     lc_op c = LessEqual \<and> lc_rhs c = 1 \<and>
     length (lc_var_ids c) = length (kc_variable_ids component) \<and> all_coeffs_one c"

definition is_large_exactly_one_hyperedge :: "LinearBooleanConstraint \<Rightarrow> bool" where
  "is_large_exactly_one_hyperedge c \<longleftrightarrow>
     lc_op c = Equal \<and> lc_rhs c = 1 \<and> length (lc_var_ids c) > 2 \<and> all_coeffs_one c"

definition is_large_at_most_one_hyperedge :: "LinearBooleanConstraint \<Rightarrow> bool" where
  "is_large_at_most_one_hyperedge c \<longleftrightarrow>
     lc_op c = LessEqual \<and> lc_rhs c = 1 \<and> length (lc_var_ids c) > 2 \<and> all_coeffs_one c"

definition is_binary_complement_constraint :: "LinearBooleanConstraint \<Rightarrow> bool" where
  "is_binary_complement_constraint c \<longleftrightarrow>
     lc_op c = Equal \<and> lc_rhs c = 1 \<and> length (lc_var_ids c) = 2 \<and> all_coeffs_one c"

text \<open>
  The loop of \<open>classify_component\<close>: whether a large exactly-one and a large at-most-one edge
  was seen, and whether every constraint is supported; it stops at an unsupported one.
\<close>

fun classify_loop :: "LinearBooleanConstraint list \<Rightarrow> bool \<times> bool \<Rightarrow> bool \<times> bool \<times> bool" where
  "classify_loop [] (exactly, at_most) = (exactly, at_most, True)"
| "classify_loop (c # cs) (exactly, at_most) =
     (if is_large_exactly_one_hyperedge c then classify_loop cs (True, at_most)
      else if is_large_at_most_one_hyperedge c then classify_loop cs (exactly, True)
      else if \<not> is_binary_complement_constraint c then (exactly, at_most, False)
      else classify_loop cs (exactly, at_most))"

definition component_constraints ::
  "CompiledComponent \<Rightarrow> CompiledConstraintSet \<Rightarrow> LinearBooleanConstraint list" where
  "component_constraints component compiled =
     map (\<lambda>cid. cs_constraints compiled ! unat cid) (kc_constraint_ids component)"

definition classify_component :: "CompiledComponent \<Rightarrow> CompiledConstraintSet \<Rightarrow> ComponentKind" where
  "classify_component component compiled =
     (let constraints = component_constraints component compiled in
      if length (kc_constraint_ids component) = 1 \<and>
         is_exactly_one_constraint (hd constraints) component
      then KindExactlyOne
      else if length (kc_constraint_ids component) = 1 \<and>
         is_at_most_one_constraint (hd constraints) component
      then KindAtMostOne
      else
        (case classify_loop constraints (False, False) of (exactly, at_most, supported) \<Rightarrow>
           (let all_supported = (kc_constraint_ids component \<noteq> [] \<and> supported) in
            if all_supported \<and> exactly then KindExactlyOne
            else if all_supported \<and> at_most then KindAtMostOne
            else if length (kc_variable_ids component) \<le> 32 then SmallEnumerable
            else GenericLinearBoolean)))"

subsection \<open>Objectives\<close>

record BundleObjectiveLeg =
  bo_variable_id :: string
  bo_payout_if_true_tick :: i64
  bo_payout_if_false_tick :: i64
  bo_cost_tick :: i64

record WorstCaseResult =
  wc_min_profit_tick :: i64
  wc_is_guaranteed_positive :: bool
  wc_witness_true_variables :: "string list"
  wc_component_id :: u32

text \<open>The profit of an objective, the two additions of each leg done in 64 bits.\<close>

definition leg_profit_step :: "(string \<Rightarrow> bool) \<Rightarrow> i64 \<Rightarrow> BundleObjectiveLeg \<Rightarrow> i64" where
  "leg_profit_step val profit leg =
     wrap_i64 (wrap_i64 (profit +
        (if val (bo_variable_id leg) then bo_payout_if_true_tick leg
         else bo_payout_if_false_tick leg)) - bo_cost_tick leg)"

definition objective_profit :: "BundleObjectiveLeg list \<Rightarrow> (string \<Rightarrow> bool) \<Rightarrow> i64" where
  "objective_profit objective val = foldl (leg_profit_step val) 0 objective"

text \<open>The comparison every back end makes for a candidate settlement.\<close>

definition keep_worst :: "i64 \<times> string list \<Rightarrow> i64 \<times> string list \<Rightarrow> i64 \<times> string list" where
  "keep_worst best candidate = (if fst candidate < fst best then candidate else best)"

definition finish_worst :: "u32 \<Rightarrow> i64 \<times> string list \<Rightarrow> WorstCaseResult" where
  "finish_worst component_id best =
     (let min_profit = (if fst best = i64_max then 0 else fst best)
      in \<lparr>wc_min_profit_tick = min_profit, wc_is_guaranteed_positive = min_profit > 0,
          wc_witness_true_variables = snd best, wc_component_id = component_id\<rparr>)"

subsection \<open>ExactlyOneOracle and AtMostOneOracle\<close>

record SemanticOracle =
  so_component_id :: u32
  so_var_ids :: "u32 list"
  so_variable_ids :: "string list"

definition make_semantic_oracle :: "CompiledComponent \<Rightarrow> CompiledConstraintSet \<Rightarrow> SemanticOracle" where
  "make_semantic_oracle component compiled =
     \<lparr>so_component_id = kc_component_id component, so_var_ids = kc_variable_ids component,
      so_variable_ids =
        map (\<lambda>v. bv_variable_key (cs_variables compiled ! unat v)) (kc_variable_ids component)\<rparr>"

definition exactly_one_min_payoff :: "SemanticOracle \<Rightarrow> BundleObjectiveLeg list \<Rightarrow> WorstCaseResult" where
  "exactly_one_min_payoff orc objective =
     finish_worst (so_component_id orc)
       (foldl (\<lambda>best v. keep_worst best (objective_profit objective (\<lambda>k. k = v), [v]))
          (i64_max, []) (so_variable_ids orc))"

definition exactly_one_is_feasible :: "SemanticOracle \<Rightarrow> StateBitset \<Rightarrow> bool" where
  "exactly_one_is_feasible orc state \<longleftrightarrow>
     length (filter (test_bit state) (so_var_ids orc)) = 1"

definition at_most_one_min_payoff :: "SemanticOracle \<Rightarrow> BundleObjectiveLeg list \<Rightarrow> WorstCaseResult" where
  "at_most_one_min_payoff orc objective =
     finish_worst (so_component_id orc)
       (foldl (\<lambda>best v. keep_worst best (objective_profit objective (\<lambda>k. k = v), [v]))
          (keep_worst (i64_max, []) (objective_profit objective (\<lambda>k. False), []))
          (so_variable_ids orc))"

definition at_most_one_is_feasible :: "SemanticOracle \<Rightarrow> StateBitset \<Rightarrow> bool" where
  "at_most_one_is_feasible orc state \<longleftrightarrow>
     length (filter (test_bit state) (so_var_ids orc)) \<le> 1"

subsection \<open>SmallEnumOracle\<close>

record SmallEnumOracle =
  sm_component_id :: u32
  sm_compiled :: CompiledConstraintSet
  sm_variable_index :: VariableIndex

text \<open>
  The component's own constraint set, renumbered; \<open>None\<close> is the exception of
  \<open>old_to_new.at\<close> for a variable outside the component.
\<close>

definition renumber :: "(u32 \<rightharpoonup> u32) \<Rightarrow> LinearBooleanConstraint \<Rightarrow> LinearBooleanConstraint option" where
  "renumber old_to_new c =
     (if list_all (\<lambda>v. old_to_new v \<noteq> None) (lc_var_ids c)
      then Some (c\<lparr>lc_var_ids := map (the \<circ> old_to_new) (lc_var_ids c)\<rparr>) else None)"

definition subset_compiled_set ::
  "CompiledComponent \<Rightarrow> CompiledConstraintSet \<Rightarrow> CompiledConstraintSet option" where
  "subset_compiled_set component compiled =
     (let ids = kc_variable_ids component;
          old_to_new = map_of (zip ids (map of_nat [0..<length ids]));
          variables = map (\<lambda>(i, v). (cs_variables compiled ! unat v)\<lparr>bv_var_id := of_nat i\<rparr>)
                        (enumerate 0 ids);
          constraints = map (renumber old_to_new) (component_constraints component compiled)
      in if None \<in> set constraints then None
         else (let out = \<lparr>cs_variables = variables, cs_constraints = map the constraints,
                          cs_constraint_hash = 0\<rparr>
               in Some (out\<lparr>cs_constraint_hash := hash_compiled_constraints out\<rparr>)))"

definition make_small_enum_oracle ::
  "CompiledComponent \<Rightarrow> CompiledConstraintSet \<Rightarrow> SmallEnumOracle option" where
  "make_small_enum_oracle component compiled =
     map_option (\<lambda>sub. \<lparr>sm_component_id = kc_component_id component, sm_compiled = sub,
                        sm_variable_index = index_variables (cs_variables sub)\<rparr>)
       (subset_compiled_set component compiled)"

text \<open>The settlement a state stands for; a leg on a variable outside the component is skipped.\<close>

definition state_value :: "VariableIndex \<Rightarrow> StateBitset \<Rightarrow> string \<Rightarrow> bool" where
  "state_value index state key =
     (case index key of None \<Rightarrow> False | Some var_id \<Rightarrow> test_bit state var_id)"

definition known_legs :: "VariableIndex \<Rightarrow> BundleObjectiveLeg list \<Rightarrow> BundleObjectiveLeg list" where
  "known_legs index objective = filter (\<lambda>leg. index (bo_variable_id leg) \<noteq> None) objective"

definition small_enum_candidate ::
  "SmallEnumOracle \<Rightarrow> BundleObjectiveLeg list \<Rightarrow> FeasibleState \<Rightarrow> i64 \<times> string list" where
  "small_enum_candidate orc objective feasible =
     (let val = state_value (sm_variable_index orc) (st_bitset_words feasible);
          legs = known_legs (sm_variable_index orc) objective
      in (objective_profit legs val, map bo_variable_id (filter (\<lambda>leg. val (bo_variable_id leg)) legs)))"

definition small_enum_min_payoff :: "SmallEnumOracle \<Rightarrow> BundleObjectiveLeg list \<Rightarrow> WorstCaseResult" where
  "small_enum_min_payoff orc objective =
     finish_worst (sm_component_id orc)
       (foldl (\<lambda>best feasible. keep_worst best (small_enum_candidate orc objective feasible))
          (i64_max, []) (se_feasible_states (enumerate_states (sm_compiled orc))))"

definition small_enum_is_feasible :: "SmallEnumOracle \<Rightarrow> StateBitset \<Rightarrow> bool" where
  "small_enum_is_feasible orc state = fc_feasible (check (sm_compiled orc) state)"

subsection \<open>The contract\<close>

definition payoff :: "BundleObjectiveLeg list \<Rightarrow> (string \<Rightarrow> bool) \<Rightarrow> int" where
  "payoff objective val =
     (\<Sum>leg\<leftarrow>objective. (if val (bo_variable_id leg) then bo_payout_if_true_tick leg
                        else bo_payout_if_false_tick leg) - bo_cost_tick leg)"

definition leg_size :: "BundleObjectiveLeg \<Rightarrow> int" where
  "leg_size leg = \<bar>bo_payout_if_true_tick leg\<bar> + \<bar>bo_payout_if_false_tick leg\<bar> + \<bar>bo_cost_tick leg\<bar>"

definition objective_fits :: "BundleObjectiveLeg list \<Rightarrow> bool" where
  "objective_fits objective \<longleftrightarrow> (\<Sum>leg\<leftarrow>objective. leg_size leg) < i64_max"

locale worst_case_oracle =
  fixes settlements :: "(string \<Rightarrow> bool) set"
    and min_payoff :: "BundleObjectiveLeg list \<Rightarrow> WorstCaseResult"
    and admissible :: "BundleObjectiveLeg list \<Rightarrow> bool"
  assumes lower: "admissible obj \<Longrightarrow> val \<in> settlements \<Longrightarrow>
      wc_min_profit_tick (min_payoff obj) \<le> payoff obj val"
    and attained: "admissible obj \<Longrightarrow> settlements \<noteq> {} \<Longrightarrow>
      \<exists>val \<in> settlements. wc_min_profit_tick (min_payoff obj) = payoff obj val"
    and impossible: "settlements = {} \<Longrightarrow> wc_min_profit_tick (min_payoff obj) = 0"
    and flag: "wc_is_guaranteed_positive (min_payoff obj) \<longleftrightarrow> 0 < wc_min_profit_tick (min_payoff obj)"
begin

lemma guarantee_exact:
  assumes "admissible obj"
  shows "wc_is_guaranteed_positive (min_payoff obj) \<longleftrightarrow>
    settlements \<noteq> {} \<and> (\<forall>val \<in> settlements. 0 < payoff obj val)"
proof (cases "settlements = {}")
  case True
  with impossible flag show ?thesis by simp
next
  case False
  from attained [OF assms False] lower [OF assms] show ?thesis
    unfolding flag using False by (metis order_less_le_trans)
qed

end

lemma oracles_agree:
  assumes "worst_case_oracle S f adm_f" "worst_case_oracle S g adm_g" "adm_f obj" "adm_g obj"
  shows "wc_min_profit_tick (f obj) = wc_min_profit_tick (g obj)"
proof (cases "S = {}")
  case True
  with worst_case_oracle.impossible [OF assms(1)] worst_case_oracle.impossible [OF assms(2)]
  show ?thesis by simp
next
  case False
  show ?thesis
  proof (rule antisym)
    show "wc_min_profit_tick (f obj) \<le> wc_min_profit_tick (g obj)"
      using worst_case_oracle.attained [OF assms(2,4) False] worst_case_oracle.lower [OF assms(1,3)] by auto
    show "wc_min_profit_tick (g obj) \<le> wc_min_profit_tick (f obj)"
      using worst_case_oracle.attained [OF assms(1,3) False] worst_case_oracle.lower [OF assms(2,4)] by auto
  qed
qed

subsection \<open>The back ends keep it\<close>

lemma leg_size_nonneg [simp]: "0 \<le> leg_size leg"
  by (simp add: leg_size_def)

lemma profit_fold_exact:
  assumes "\<bar>acc\<bar> + (\<Sum>leg\<leftarrow>obj. leg_size leg) < i64_max"
  shows "foldl (leg_profit_step val) acc obj = acc + payoff obj val \<and> \<bar>acc + payoff obj val\<bar> < i64_max"
  using assms
proof (induction obj arbitrary: acc)
  case Nil
  then show ?case by (simp add: payoff_def)
next
  case (Cons leg obj)
  let ?x = "if val (bo_variable_id leg) then bo_payout_if_true_tick leg else bo_payout_if_false_tick leg"
  let ?acc = "acc + ?x - bo_cost_tick leg"
  have nn: "0 \<le> (\<Sum>leg\<leftarrow>obj. leg_size leg)" by (intro sum_list_nonneg) auto
  have x: "\<bar>?x\<bar> + \<bar>bo_cost_tick leg\<bar> \<le> leg_size leg" by (simp add: leg_size_def)
  have sum: "\<bar>acc\<bar> + leg_size leg + (\<Sum>leg\<leftarrow>obj. leg_size leg) < i64_max" using Cons.prems by simp
  have "\<bar>acc + ?x\<bar> < i64_max" "\<bar>?acc\<bar> + (\<Sum>leg\<leftarrow>obj. leg_size leg) < i64_max" "\<bar>?acc\<bar> < i64_max"
    using sum x nn by linarith+
  moreover have "wrap_i64 y = y" if "\<bar>y\<bar> < i64_max" for y
    using that by (intro wrap_i64_id) (auto simp: in_i64_def i64_bounds)
  ultimately have step: "leg_profit_step val acc leg = ?acc"
    unfolding leg_profit_step_def by (simp only:)
  note IH = Cons.IH [OF \<open>\<bar>?acc\<bar> + (\<Sum>leg\<leftarrow>obj. leg_size leg) < i64_max\<close>]
  have "acc + payoff (leg # obj) val = ?acc + payoff obj val" by (simp add: payoff_def)
  with IH show ?case unfolding foldl_Cons step by (simp only:)
qed

lemma objective_profit_exact:
  assumes "objective_fits obj"
  shows "objective_profit obj val = payoff obj val" "payoff obj val < i64_max"
  using profit_fold_exact [of 0 obj val] assms
  by (simp_all add: objective_profit_def objective_fits_def abs_less_iff)

lemma fold_worst:
  fixes p :: "'a \<Rightarrow> i64" and w :: "'a \<Rightarrow> string list"
  defines "r \<equiv> \<lambda>xs best. fst (foldl (\<lambda>best x. keep_worst best (p x, w x)) best xs)"
  shows "(\<forall>x \<in> set xs. r xs best \<le> p x) \<and> r xs best \<le> fst best \<and>
    (r xs best = fst best \<or> (\<exists>x \<in> set xs. r xs best = p x))"
  unfolding r_def
proof (induction xs arbitrary: best)
  case (Cons x xs)
  have "fst (keep_worst best (p x, w x)) = min (fst best) (p x)" by (simp add: keep_worst_def)
  with Cons.IH [of "keep_worst best (p x, w x)"] show ?case by (auto simp: min_def split: if_splits)
qed simp

text \<open>A back end that walks a list of settlements keeps the contract.\<close>

lemma worst_case_from_list:
  assumes "\<And>obj x. admissible obj \<Longrightarrow> x \<in> set xs \<Longrightarrow> p obj x = payoff obj (v x) \<and> p obj x < i64_max"
    and "\<And>obj. min_payoff obj =
      finish_worst cid (foldl (\<lambda>best x. keep_worst best (p obj x, w obj x)) (i64_max, []) xs)"
    and "settlements = v ` set xs"
  shows "worst_case_oracle settlements min_payoff admissible"
proof
  fix obj val
  let ?r = "fst (foldl (\<lambda>best x. keep_worst best (p obj x, w obj x)) (i64_max, []) xs)"
  have profit: "wc_min_profit_tick (min_payoff obj) = (if ?r = i64_max then 0 else ?r)"
    by (simp add: assms(2) finish_worst_def Let_def)
  note worst = fold_worst [of xs "p obj" "w obj" "(i64_max, [])"]
  have small: "?r < i64_max" if "admissible obj" "x \<in> set xs" for x
    using assms(1) [OF that] worst that(2) by fastforce
  show "wc_min_profit_tick (min_payoff obj) \<le> payoff obj val" if "admissible obj" "val \<in> settlements"
  proof -
    obtain x where x: "x \<in> set xs" "val = v x" using \<open>val \<in> settlements\<close> by (auto simp: assms(3))
    with worst have "?r \<le> p obj x" by blast
    with small [OF \<open>admissible obj\<close> x(1)] assms(1) [OF \<open>admissible obj\<close> x(1)] x show ?thesis
      by (simp add: profit)
  qed
  show "\<exists>val \<in> settlements. wc_min_profit_tick (min_payoff obj) = payoff obj val"
    if "admissible obj" "settlements \<noteq> {}"
  proof -
    obtain x0 where "x0 \<in> set xs" using \<open>settlements \<noteq> {}\<close> unfolding assms(3) by (cases xs) auto
    with small [OF \<open>admissible obj\<close>] have "?r < i64_max" by blast
    with worst obtain x where "x \<in> set xs" "?r = p obj x" by auto
    with assms(1) [OF \<open>admissible obj\<close>] \<open>?r < i64_max\<close> show ?thesis
      by (intro bexI [of _ "v x"]) (auto simp: profit assms(3))
  qed
  show "wc_min_profit_tick (min_payoff obj) = 0" if "settlements = {}"
    using that by (simp add: assms(2,3) finish_worst_def)
  show "wc_is_guaranteed_positive (min_payoff obj) \<longleftrightarrow> 0 < wc_min_profit_tick (min_payoff obj)"
    by (simp add: assms(2) finish_worst_def Let_def)
qed

definition exactly_one_settlements :: "string list \<Rightarrow> (string \<Rightarrow> bool) set" where
  "exactly_one_settlements keys = {val. (\<forall>k. val k \<longrightarrow> k \<in> set keys) \<and> card {k. val k} = 1}"

definition at_most_one_settlements :: "string list \<Rightarrow> (string \<Rightarrow> bool) set" where
  "at_most_one_settlements keys = {val. (\<forall>k. val k \<longrightarrow> k \<in> set keys) \<and> card {k. val k} \<le> 1}"

lemma exactly_one_settlements_eq: "exactly_one_settlements keys = (\<lambda>v k. k = v) ` set keys"
proof (intro set_eqI iffI)
  fix val assume "val \<in> exactly_one_settlements keys"
  then obtain v where "{k. val k} = {v}" "\<forall>k. val k \<longrightarrow> k \<in> set keys"
    by (auto simp: exactly_one_settlements_def card_1_singleton_iff)
  then have "val = (\<lambda>k. k = v)" "v \<in> set keys" by (auto simp: fun_eq_iff set_eq_iff)
  then show "val \<in> (\<lambda>v k. k = v) ` set keys" by blast
qed (auto simp: exactly_one_settlements_def)

lemma at_most_one_settlements_eq:
  "at_most_one_settlements keys = insert (\<lambda>k. False) (exactly_one_settlements keys)"
proof (intro set_eqI iffI)
  fix val assume val: "val \<in> at_most_one_settlements keys"
  then have "finite {k. val k}"
    by (intro finite_subset [OF _ finite_set [of keys]]) (auto simp: at_most_one_settlements_def)
  moreover have "card {k. val k} = 0 \<or> card {k. val k} = 1"
    using val by (auto simp: at_most_one_settlements_def)
  ultimately consider "{k. val k} = {}" | "card {k. val k} = 1" by auto
  then show "val \<in> insert (\<lambda>k. False) (exactly_one_settlements keys)"
  proof cases
    case 1
    then have "val = (\<lambda>k. False)" by auto
    then show ?thesis by simp
  next
    case 2
    with val show ?thesis by (simp add: at_most_one_settlements_def exactly_one_settlements_def)
  qed
qed (auto simp: at_most_one_settlements_def exactly_one_settlements_def)

interpretation exactly_one: worst_case_oracle
  "exactly_one_settlements (so_variable_ids orc)" "exactly_one_min_payoff orc" objective_fits
  for orc
  by (rule worst_case_from_list [where v = "\<lambda>v k. k = v" and xs = "so_variable_ids orc"
        and p = "\<lambda>obj v. objective_profit obj (\<lambda>k. k = v)" and w = "\<lambda>obj v. [v]"])
     (simp_all add: objective_profit_exact exactly_one_min_payoff_def exactly_one_settlements_eq)

definition chosen :: "string option \<Rightarrow> string \<Rightarrow> bool" where
  "chosen choice k \<longleftrightarrow> choice = Some k"

interpretation at_most_one: worst_case_oracle
  "at_most_one_settlements (so_variable_ids orc)" "at_most_one_min_payoff orc" objective_fits
  for orc
proof (rule worst_case_from_list [where v = chosen and xs = "None # map Some (so_variable_ids orc)"
      and p = "\<lambda>obj choice. objective_profit obj (chosen choice)"
      and w = "\<lambda>obj choice. case choice of None \<Rightarrow> [] | Some v \<Rightarrow> [v]"])
  have "chosen None = (\<lambda>k. False)" "chosen (Some v) = (\<lambda>k. k = v)" for v
    by (auto simp: chosen_def fun_eq_iff)
  then show "at_most_one_min_payoff orc obj = finish_worst (so_component_id orc)
      (foldl (\<lambda>best x. keep_worst best (objective_profit obj (chosen x), case x of None \<Rightarrow> [] | Some v \<Rightarrow> [v]))
        (i64_max, []) (None # map Some (so_variable_ids orc)))"
    and "at_most_one_settlements (so_variable_ids orc) = chosen ` set (None # map Some (so_variable_ids orc))"
    for obj
    by (simp_all add: at_most_one_min_payoff_def foldl_map at_most_one_settlements_eq
        exactly_one_settlements_eq image_image)
qed (simp_all add: objective_profit_exact)

definition enumerated_settlements :: "SmallEnumOracle \<Rightarrow> (string \<Rightarrow> bool) set" where
  "enumerated_settlements orc =
     (\<lambda>st. state_value (sm_variable_index orc) (st_bitset_words st)) `
       set (se_feasible_states (enumerate_states (sm_compiled orc)))"

definition legs_known :: "SmallEnumOracle \<Rightarrow> BundleObjectiveLeg list \<Rightarrow> bool" where
  "legs_known orc obj \<longleftrightarrow> objective_fits obj \<and>
     (\<forall>leg \<in> set obj. sm_variable_index orc (bo_variable_id leg) \<noteq> None)"

lemma known_legs_id: "legs_known orc obj \<Longrightarrow> known_legs (sm_variable_index orc) obj = obj"
  unfolding legs_known_def known_legs_def by (intro filter_True) blast

interpretation small_enum: worst_case_oracle
  "enumerated_settlements orc" "small_enum_min_payoff orc" "legs_known orc"
  for orc
proof (rule worst_case_from_list [where xs = "se_feasible_states (enumerate_states (sm_compiled orc))"
      and v = "\<lambda>st. state_value (sm_variable_index orc) (st_bitset_words st)"
      and p = "\<lambda>obj st. fst (small_enum_candidate orc obj st)"
      and w = "\<lambda>obj st. snd (small_enum_candidate orc obj st)"])
  show "fst (small_enum_candidate orc obj st) =
      payoff obj (state_value (sm_variable_index orc) (st_bitset_words st)) \<and>
      fst (small_enum_candidate orc obj st) < i64_max"
    if "legs_known orc obj" for obj st
    using that by (simp add: small_enum_candidate_def Let_def known_legs_id objective_profit_exact
        legs_known_def)
qed (simp_all add: small_enum_min_payoff_def enumerated_settlements_def)

subsection \<open>Properties\<close>

text \<open>
  C21: The guarantee of the semantic back ends is exact: for an objective whose amounts fit into
  64 bits, the exactly-one back end reports a guaranteed positive profit if and only if there is
  a possible settlement and every settlement with exactly one of the component's variables true
  yields a positive profit; the at-most-one back end does so if and only if every settlement with
  at most one of them true does.
\<close>
theorem semantic_guarantee_exact:
  assumes "objective_fits obj"
  shows "(wc_is_guaranteed_positive (exactly_one_min_payoff orc obj) \<longleftrightarrow>
      exactly_one_settlements (so_variable_ids orc) \<noteq> {} \<and>
      (\<forall>val \<in> exactly_one_settlements (so_variable_ids orc). 0 < payoff obj val)) \<and>
    (wc_is_guaranteed_positive (at_most_one_min_payoff orc obj) \<longleftrightarrow>
      (\<forall>val \<in> at_most_one_settlements (so_variable_ids orc). 0 < payoff obj val))"
  using exactly_one.guarantee_exact [OF assms, of orc] at_most_one.guarantee_exact [OF assms, of orc]
  by (simp add: at_most_one_settlements_eq)

definition sample_semantic_oracle :: SemanticOracle where
  "sample_semantic_oracle =
     \<lparr>so_component_id = 1, so_var_ids = [0, 1, 2], so_variable_ids = [''a'', ''b'', ''c'']\<rparr>"

definition sample_basket :: "BundleObjectiveLeg list" where
  "sample_basket = map (\<lambda>k. \<lparr>bo_variable_id = k, bo_payout_if_true_tick = 1000000,
     bo_payout_if_false_tick = 0, bo_cost_tick = 300000\<rparr>) [''a'', ''b'', ''c'']"

theorem semantic_guarantee_exact_witness:
  "exactly_one_settlements [''a'', ''b'', ''c''] \<subseteq> {val. 0 < payoff sample_basket val}"
proof -
  have "objective_fits sample_basket"
    by (simp add: objective_fits_def sample_basket_def leg_size_def i64_bounds)
  moreover have "wc_is_guaranteed_positive (exactly_one_min_payoff sample_semantic_oracle sample_basket)"
    by (simp add: exactly_one_min_payoff_def sample_semantic_oracle_def sample_basket_def finish_worst_def
        keep_worst_def objective_profit_def leg_profit_step_def wrap_i64_def i64_bounds Let_def)
  ultimately show ?thesis
    using semantic_guarantee_exact [of sample_basket sample_semantic_oracle]
    by (auto simp: sample_semantic_oracle_def)
qed

subsection \<open>Specialised back ends against enumeration\<close>

text \<open>
  A numbered constraint set with the single constraint that exactly one of its variables is
  true, and the settlements its enumeration stands for.
\<close>

definition exactly_one_set :: "CompiledConstraintSet \<Rightarrow> LinearBooleanConstraint \<Rightarrow> bool" where
  "exactly_one_set sub c \<longleftrightarrow>
     (let n = length (cs_variables sub) in
      n \<le> kMaxBruteforceVariables \<and> distinct (map bv_variable_key (cs_variables sub)) \<and>
      map bv_var_id (cs_variables sub) = map of_nat [0..<n] \<and>
      cs_constraints sub = [c] \<and> lc_op c = Equal \<and> lc_rhs c = 1 \<and>
      lc_coeffs c = replicate (length (lc_var_ids c)) 1 \<and>
      distinct (lc_var_ids c) \<and> set (lc_var_ids c) = of_nat ` {..<n})"

definition set_keys :: "CompiledConstraintSet \<Rightarrow> string list" where
  "set_keys sub = map bv_variable_key (cs_variables sub)"

lemma exactly_one_set_small: "exactly_one_set sub c \<Longrightarrow> length (cs_variables sub) \<le> 32"
  by (simp add: exactly_one_set_def Let_def kMaxBruteforceVariables_def)

lemma exactly_one_set_index:
  assumes "exactly_one_set sub c"
  shows "index_variables (cs_variables sub) k = Some vid \<longleftrightarrow>
    (\<exists>i < length (cs_variables sub). k = set_keys sub ! i \<and> vid = of_nat i)"
proof -
  let ?vs = "cs_variables sub"
  have d: "distinct (map fst (map (\<lambda>v. (bv_variable_key v, bv_var_id v)) ?vs))"
    using assms by (simp add: exactly_one_set_def Let_def comp_def)
  have vid: "bv_var_id (?vs ! i) = of_nat i" if "i < length ?vs" for i
    using assms that by (metis (no_types, lifting) add_0 diff_zero exactly_one_set_def length_map length_upt
        nth_map nth_upt)
  show ?thesis
    unfolding index_variables_def map_of_eq_Some_iff [OF d]
    by (force simp: set_keys_def in_set_conv_nth vid)
qed

lemma exactly_one_set_value:
  assumes "exactly_one_set sub c"
  shows "state_value (index_variables (cs_variables sub)) [m] k \<longleftrightarrow>
    (\<exists>i < length (cs_variables sub). k = set_keys sub ! i \<and> bit m i)"
proof (cases "index_variables (cs_variables sub) k")
  case None
  then have "\<not> (\<exists>i < length (cs_variables sub). k = set_keys sub ! i)"
    using exactly_one_set_index [OF assms, of k] by auto
  with None show ?thesis by (auto simp: state_value_def)
next
  case (Some vid)
  then obtain i where i: "i < length (cs_variables sub)" "k = set_keys sub ! i" "vid = of_nat i"
    using exactly_one_set_index [OF assms] by blast
  have "distinct (set_keys sub)" using assms by (simp add: exactly_one_set_def set_keys_def Let_def)
  then have same: "j = i" if "j < length (cs_variables sub)" "k = set_keys sub ! j" for j
    using that i by (metis length_map nth_eq_iff_index_eq set_keys_def)
  have "state_value (index_variables (cs_variables sub)) [m] k \<longleftrightarrow> bit m i"
    using Some i(1,3) exactly_one_set_small [OF assms] test_bit_mask [of i m] by (simp add: state_value_def)
  with i(1,2) same show ?thesis by metis
qed

lemma exactly_one_set_check:
  assumes "exactly_one_set sub c"
  shows "check_ok (check sub [m])"
    and "fc_feasible (check sub [m]) \<longleftrightarrow> card {i. i < length (cs_variables sub) \<and> bit m i} = 1"
proof -
  let ?n = "length (cs_variables sub)"
  have n: "?n \<le> 32" by (rule exactly_one_set_small [OF assms])
  have c: "cs_constraints sub = [c]" "lc_op c = Equal" "lc_rhs c = 1"
    "lc_coeffs c = replicate (length (lc_var_ids c)) 1" "distinct (lc_var_ids c)"
    "set (lc_var_ids c) = of_nat ` {..<?n}"
    using assms by (simp_all add: exactly_one_set_def Let_def)
  have inj: "inj_on (of_nat :: nat \<Rightarrow> u32) {..<?n}"
  proof (rule inj_onI)
    fix x y assume "x \<in> {..<?n}" "y \<in> {..<?n}" "(of_nat x :: u32) = of_nat y"
    with n show "x = y" by (auto simp: unsigned_of_nat take_bit_nat_eq_self dest!: arg_cong [where f = unat])
  qed
  have "length (lc_var_ids c) = card (set (lc_var_ids c))" by (simp add: distinct_card c(5))
  also have "\<dots> = ?n" using inj by (simp add: c(6) card_image)
  finally have "constraint_lhs [m] c = int (length (filter (test_bit [m]) (lc_var_ids c)))"
    using n c(4) by (intro lhs_count) simp_all
  also have "length (filter (test_bit [m]) (lc_var_ids c)) = card {v \<in> of_nat ` {..<?n}. test_bit [m] v}"
    using c(5,6) by (metis distinct_card distinct_filter set_filter)
  also have "{v \<in> of_nat ` {..<?n}. test_bit [m] v} = of_nat ` {i. i < ?n \<and> bit m i}"
    using n test_bit_mask [of _ m] by (auto simp: image_iff)
  also have "card (of_nat ` {i. i < ?n \<and> bit m i} :: u32 set) = card {i. i < ?n \<and> bit m i}"
    by (rule card_image [OF inj_on_subset [OF inj]]) auto
  finally have lhs: "constraint_lhs [m] c = int (card {i. i < ?n \<and> bit m i})" .
  show "check_ok (check sub [m])" "fc_feasible (check sub [m]) \<longleftrightarrow> card {i. i < ?n \<and> bit m i} = 1"
    using lhs by (simp_all add: check_def c check_ok_def evaluate_def)
qed

lemma enumerated_exactly_one:
  assumes "exactly_one_set (sm_compiled orc) c"
    and "sm_variable_index orc = index_variables (cs_variables (sm_compiled orc))"
  shows "enumerated_settlements orc = exactly_one_settlements (set_keys (sm_compiled orc))"
proof -
  let ?sub = "sm_compiled orc"
  let ?n = "length (cs_variables ?sub)"
  let ?keys = "set_keys ?sub"
  let ?val = "\<lambda>m. state_value (index_variables (cs_variables ?sub)) [m]"
  have n: "?n \<le> 32" by (rule exactly_one_set_small [OF assms(1)])
  have keys: "distinct ?keys" "length ?keys = ?n"
    using assms(1) by (simp_all add: exactly_one_set_def set_keys_def Let_def)
  have states: "enumerated_settlements orc =
      ?val ` {m \<in> of_nat ` {0..<2 ^ ?n}. card {i. i < ?n \<and> bit m i} = 1}"
    using n exactly_one_set_check [OF assms(1)]
    by (simp add: enumerated_settlements_def enumerate_states_def Let_def kMaxBruteforceVariables_def
        assms(2) enumerate_loop_exact image_image)
  show ?thesis
  proof (intro set_eqI iffI)
    fix val assume "val \<in> enumerated_settlements orc"
    then obtain m where m: "val = ?val m" "card {i. i < ?n \<and> bit m i} = 1" unfolding states by blast
    then obtain i where i: "{i. i < ?n \<and> bit m i} = {i}" by (auto simp: card_1_singleton_iff)
    then have only: "j < ?n \<and> bit m j \<longleftrightarrow> j = i" for j by blast
    have "val k \<longleftrightarrow> k = ?keys ! i" for k
      unfolding m(1) exactly_one_set_value [OF assms(1)] using only by metis
    then have "val = (\<lambda>k. k = ?keys ! i)" by blast
    moreover have "i < ?n" using i by blast
    ultimately show "val \<in> exactly_one_settlements ?keys"
      by (simp add: exactly_one_settlements_eq keys)
  next
    fix val assume "val \<in> exactly_one_settlements ?keys"
    then obtain i where i: "i < ?n" "val = (\<lambda>k. k = ?keys ! i)"
      by (auto simp: exactly_one_settlements_eq in_set_conv_nth keys)
    let ?m = "of_nat (2 ^ i) :: u64"
    have bit: "bit ?m j \<longleftrightarrow> j = i" for j using i(1) n by (auto simp: bit_simps)
    then have "{j. j < ?n \<and> bit ?m j} = {i}" using i(1) by auto
    moreover have "?m \<in> of_nat ` {0..<2 ^ ?n}" using i(1) by (intro imageI) simp
    moreover have "val = ?val ?m"
      unfolding i(2) using bit i(1) by (intro ext) (auto simp: exactly_one_set_value [OF assms(1)])
    ultimately show "val \<in> enumerated_settlements orc" unfolding states by auto
  qed
qed

lemma renumbered_subset:
  assumes "distinct (kc_variable_ids component)" "length (kc_variable_ids component) \<le> 32"
    and "kc_constraint_ids component = [cid]" "c = cs_constraints compiled ! unat cid"
    and "set (lc_var_ids c) = set (kc_variable_ids component)" "distinct (lc_var_ids c)"
    and "is_exactly_one_constraint c component" "length (lc_coeffs c) = length (lc_var_ids c)"
    and "distinct (so_variable_ids (make_semantic_oracle component compiled))"
  shows "\<exists>orc c'. make_small_enum_oracle component compiled = Some orc \<and>
    exactly_one_set (sm_compiled orc) c' \<and>
    sm_variable_index orc = index_variables (cs_variables (sm_compiled orc)) \<and>
    set_keys (sm_compiled orc) = so_variable_ids (make_semantic_oracle component compiled)"
proof -
  let ?ids = "kc_variable_ids component"
  let ?n = "length ?ids"
  let ?new = "map_of (zip ?ids (map of_nat [0..<?n])) :: u32 \<rightharpoonup> u32"
  have new: "?new (?ids ! i) = Some (of_nat i)" if "i < ?n" for i
    using that map_of_zip_nth [of ?ids "map of_nat [0..<?n]" i] assms(1) by simp
  have pos: "\<exists>i < ?n. v = ?ids ! i" if "v \<in> set (lc_var_ids c)" for v
    using that by (metis assms(5) in_set_conv_nth)
  let ?c = "c\<lparr>lc_var_ids := map (the \<circ> ?new) (lc_var_ids c)\<rparr>"
  have ren: "renumber ?new c = Some ?c"
    using pos new by (force simp: renumber_def list_all_iff)
  have inj: "inj_on (the \<circ> ?new) (set (lc_var_ids c))"
  proof (rule inj_onI)
    fix v w assume vw: "v \<in> set (lc_var_ids c)" "w \<in> set (lc_var_ids c)" "(the \<circ> ?new) v = (the \<circ> ?new) w"
    then obtain i j where ij: "i < ?n" "v = ?ids ! i" "j < ?n" "w = ?ids ! j" using pos by blast
    with vw(3) new have "(of_nat i :: u32) = of_nat j" by simp
    with ij assms(2) have "i = j"
      by (auto simp: unsigned_of_nat take_bit_nat_eq_self dest!: arg_cong [where f = unat])
    with ij show "v = w" by simp
  qed
  have "set (lc_var_ids c) = (\<lambda>i. ?ids ! i) ` {..<?n}"
    by (simp add: assms(5) set_conv_nth [of ?ids] image_def) blast
  then have img: "(the \<circ> ?new) ` set (lc_var_ids c) = of_nat ` {..<?n}"
    using new by (simp add: image_image)
  have ones: "lc_coeffs c = replicate (length (lc_var_ids c)) 1"
    using assms(7,8) by (intro replicate_eqI) (auto simp: is_exactly_one_constraint_def all_coeffs_one_def list_all_iff)
  obtain orc where orc: "make_small_enum_oracle component compiled = Some orc"
    "cs_constraints (sm_compiled orc) = [?c]"
    "cs_variables (sm_compiled orc) =
      map (\<lambda>(i, v). (cs_variables compiled ! unat v)\<lparr>bv_var_id := of_nat i\<rparr>) (enumerate 0 ?ids)"
    "sm_variable_index orc = index_variables (cs_variables (sm_compiled orc))"
    using ren by (simp add: make_small_enum_oracle_def subset_compiled_set_def Let_def
        component_constraints_def assms(3) assms(4) [symmetric])
  have keys: "set_keys (sm_compiled orc) = so_variable_ids (make_semantic_oracle component compiled)"
    by (rule nth_equalityI) (simp_all add: set_keys_def orc(3) make_semantic_oracle_def nth_enumerate_eq)
  have vids: "map bv_var_id (cs_variables (sm_compiled orc)) = map of_nat [0..<?n]"
    by (rule nth_equalityI) (simp_all add: orc(3) nth_enumerate_eq)
  have "exactly_one_set (sm_compiled orc) ?c"
    using keys vids assms(2,6,7,9) inj img ones
    by (simp add: exactly_one_set_def Let_def kMaxBruteforceVariables_def orc(2) orc(3) [THEN arg_cong, of length]
        distinct_map is_exactly_one_constraint_def set_keys_def)
  with orc keys show ?thesis by blast
qed

text \<open>
  A component that is one exactly-one constraint over all its variables, as the partitioner
  builds it from a rulebook of distinct variable keys.
\<close>

definition exactly_one_component :: "CompiledComponent \<Rightarrow> CompiledConstraintSet \<Rightarrow> bool" where
  "exactly_one_component component compiled \<longleftrightarrow>
     (case component_constraints component compiled of
        [c] \<Rightarrow> is_exactly_one_constraint c component \<and>
               set (lc_var_ids c) = set (kc_variable_ids component) \<and> distinct (lc_var_ids c) \<and>
               length (lc_coeffs c) = length (lc_var_ids c)
      | _ \<Rightarrow> False) \<and>
     distinct (kc_variable_ids component) \<and>
     distinct (so_variable_ids (make_semantic_oracle component compiled))"

definition objective_over :: "string list \<Rightarrow> BundleObjectiveLeg list \<Rightarrow> bool" where
  "objective_over keys obj \<longleftrightarrow> objective_fits obj \<and> (\<forall>leg \<in> set obj. bo_variable_id leg \<in> set keys)"

lemma exactly_one_component_enumerable:
  assumes "exactly_one_component component compiled" "length (kc_variable_ids component) \<le> 32"
  shows "\<exists>orc c'. make_small_enum_oracle component compiled = Some orc \<and>
    exactly_one_set (sm_compiled orc) c' \<and>
    sm_variable_index orc = index_variables (cs_variables (sm_compiled orc)) \<and>
    set_keys (sm_compiled orc) = so_variable_ids (make_semantic_oracle component compiled)"
proof -
  obtain cid where "kc_constraint_ids component = [cid]"
    using assms(1) by (auto simp: exactly_one_component_def component_constraints_def split: list.splits)
  then show ?thesis
    using assms by (intro renumbered_subset) (auto simp: exactly_one_component_def component_constraints_def)
qed

text \<open>
  C20: The specialised back end is an optimisation and nothing else: a component that is one
  exactly-one constraint over all its variables is classified as such, and when it has at most
  32 variables the brute-force back end can be built for it as well and returns the same minimal
  profit and the same positive-profit flag for every objective over the component's variables
  whose amounts fit into 64 bits.
\<close>
theorem exactly_one_agrees_with_enumeration:
  assumes "exactly_one_component component compiled" "length (kc_variable_ids component) \<le> 32"
  shows "classify_component component compiled = KindExactlyOne \<and>
    (\<exists>orc. make_small_enum_oracle component compiled = Some orc \<and>
      (\<forall>obj. objective_over (so_variable_ids (make_semantic_oracle component compiled)) obj \<longrightarrow>
        wc_min_profit_tick (small_enum_min_payoff orc obj) =
          wc_min_profit_tick (exactly_one_min_payoff (make_semantic_oracle component compiled) obj) \<and>
        wc_is_guaranteed_positive (small_enum_min_payoff orc obj) =
          wc_is_guaranteed_positive (exactly_one_min_payoff (make_semantic_oracle component compiled) obj)))"
proof -
  let ?sem = "make_semantic_oracle component compiled"
  obtain orc c' where orc: "make_small_enum_oracle component compiled = Some orc"
    and set: "exactly_one_set (sm_compiled orc) c'"
    and index: "sm_variable_index orc = index_variables (cs_variables (sm_compiled orc))"
    and keys: "set_keys (sm_compiled orc) = so_variable_ids ?sem"
    using exactly_one_component_enumerable [OF assms] by blast
  note possible = enumerated_exactly_one [OF set index, unfolded keys]
  have "wc_min_profit_tick (small_enum_min_payoff orc obj) = wc_min_profit_tick (exactly_one_min_payoff ?sem obj)"
    if obj: "objective_over (so_variable_ids ?sem) obj" for obj
  proof (rule oracles_agree)
    show "worst_case_oracle (exactly_one_settlements (so_variable_ids ?sem)) (small_enum_min_payoff orc) (legs_known orc)"
      using small_enum.worst_case_oracle_axioms [of orc] by (simp only: possible)
    show "worst_case_oracle (exactly_one_settlements (so_variable_ids ?sem)) (exactly_one_min_payoff ?sem) objective_fits"
      by (rule exactly_one.worst_case_oracle_axioms)
    have "\<exists>vid. index_variables (cs_variables (sm_compiled orc)) k = Some vid"
      if "k \<in> set (so_variable_ids ?sem)" for k
      using that exactly_one_set_index [OF set] unfolding keys [symmetric]
      by (metis in_set_conv_nth length_map set_keys_def)
    then show "legs_known orc obj" using obj by (auto simp: legs_known_def objective_over_def index)
    show "objective_fits obj" using obj by (simp add: objective_over_def)
  qed
  moreover have "classify_component component compiled = KindExactlyOne"
    using assms(1) by (auto simp: exactly_one_component_def classify_component_def component_constraints_def
        Let_def split: list.splits)
  ultimately show ?thesis
    using orc by (auto simp: exactly_one.flag small_enum.flag)
qed

definition sample_one_component :: "nat \<Rightarrow> CompiledComponent" where
  "sample_one_component n =
     \<lparr>kc_component_id = 1, kc_variable_ids = map of_nat [0..<n], kc_constraint_ids = [0],
      kc_component_hash = ''h'', kc_kind = KindExactlyOne\<rparr>"

definition sample_one_set :: CompiledConstraintSet where
  "sample_one_set = cc_compiled (compile [sample_rule RT_ExactlyOne [''c'', ''a'', ''b'']]
     (map sample_variable [''b'', ''c'', ''a'']))"

lemma sample_one_set_simps:
  "cs_constraints sample_one_set =
     [\<lparr>lc_var_ids = [2, 0, 1], lc_coeffs = [1, 1, 1], lc_op = Equal, lc_rhs = 1\<rparr>]"
  "map bv_variable_key (cs_variables sample_one_set) = [''a'', ''b'', ''c'']"
  by (simp_all add: sample_one_set_def compile_def normalize_variables_def sample_variable_def sample_rule_def
      compile_rule_def Let_def exactly_one_def sum_constraint_def append_var_id_def index_variables_def
      default_constraint_def less_char_def)

theorem exactly_one_agrees_with_enumeration_witness:
  "\<exists>orc. make_small_enum_oracle (sample_one_component 3) sample_one_set = Some orc \<and>
     wc_min_profit_tick (small_enum_min_payoff orc sample_basket) = 100000"
proof -
  let ?k = "sample_one_component 3"
  have ids: "kc_variable_ids ?k = [0, 1, 2]" by (simp add: sample_one_component_def upt_rec)
  obtain x y z where vs: "cs_variables sample_one_set = [x, y, z]"
    "bv_variable_key x = ''a''" "bv_variable_key y = ''b''" "bv_variable_key z = ''c''"
    using sample_one_set_simps(2) by auto
  have keys: "so_variable_ids (make_semantic_oracle ?k sample_one_set) = [''a'', ''b'', ''c'']"
    by (simp add: make_semantic_oracle_def ids vs)
  have "kc_constraint_ids ?k = [0]" by (simp add: sample_one_component_def)
  then have one: "exactly_one_component ?k sample_one_set"
    by (simp add: exactly_one_component_def keys ids component_constraints_def
        sample_one_set_simps is_exactly_one_constraint_def all_coeffs_one_def insert_commute)
  have over: "objective_over (so_variable_ids (make_semantic_oracle ?k sample_one_set)) sample_basket"
    unfolding keys
    by (simp add: objective_over_def objective_fits_def sample_basket_def leg_size_def i64_bounds)
  have "wc_min_profit_tick (exactly_one_min_payoff (make_semantic_oracle ?k sample_one_set) sample_basket) = 100000"
    by (simp add: exactly_one_min_payoff_def keys sample_basket_def finish_worst_def
        keep_worst_def objective_profit_def leg_profit_step_def wrap_i64_def i64_bounds Let_def)
  with exactly_one_agrees_with_enumeration [OF one] over show ?thesis by (auto simp: ids)
qed

subsection \<open>Components with complement pairs\<close>

text \<open>
  Three YES outcomes of which exactly one holds, each with the NO outcome of its own market.
  The component is classified as exactly-one, and the back end of that kind then holds the
  component's real settlements infeasible: in the state where the first YES and the other two
  NO variables are true, every compiled constraint holds, three of the six variables are true.
\<close>

definition paired_set :: CompiledConstraintSet where
  "paired_set = cc_compiled (compile
     (sample_rule RT_ExactlyOne [''y0'', ''y1'', ''y2''] #
      map (sample_rule RT_ExactlyOne) [[''y0'', ''n0''], [''y1'', ''n1''], [''y2'', ''n2'']])
     (map sample_variable [''y0'', ''n0'', ''y1'', ''n1'', ''y2'', ''n2'']))"

definition paired_component :: CompiledComponent where
  "paired_component = (sample_one_component 6)\<lparr>kc_constraint_ids := [0, 1, 2, 3]\<rparr>"

lemma paired_constraints:
  "cs_constraints paired_set =
     map (\<lambda>ids. \<lparr>lc_var_ids = ids, lc_coeffs = map (\<lambda>_. 1) ids, lc_op = Equal, lc_rhs = 1\<rparr>)
       [[3, 4, 5], [3, 0], [4, 1], [5, 2]]"
  by (simp add: paired_set_def compile_def normalize_variables_def sample_variable_def sample_rule_def
      compile_rule_def Let_def exactly_one_def sum_constraint_def append_var_id_def index_variables_def
      default_constraint_def less_char_def)

lemma paired_component_misread:
  "classify_component paired_component paired_set = KindExactlyOne \<and>
   fc_feasible (check paired_set (state_bitset_from_mask 14)) \<and>
   \<not> exactly_one_is_feasible (make_semantic_oracle paired_component paired_set) (state_bitset_from_mask 14)"
proof (intro conjI)
  show "classify_component paired_component paired_set = KindExactlyOne"
    by (simp add: classify_component_def paired_component_def sample_one_component_def component_constraints_def
        paired_constraints is_exactly_one_constraint_def is_at_most_one_constraint_def all_coeffs_one_def
        is_large_exactly_one_hyperedge_def is_large_at_most_one_hyperedge_def
        is_binary_complement_constraint_def Let_def)
  show "fc_feasible (check paired_set (state_bitset_from_mask 14))"
    by (simp add: check_def paired_constraints constraint_lhs_def evaluate_def test_bit_def wrap_i32_def
        state_bitset_from_mask_def bit_simps Let_def)
  show "\<not> exactly_one_is_feasible (make_semantic_oracle paired_component paired_set) (state_bitset_from_mask 14)"
    by (simp add: exactly_one_is_feasible_def make_semantic_oracle_def paired_component_def
        sample_one_component_def test_bit_def state_bitset_from_mask_def bit_simps upt_rec Let_def)
qed

end
