(* ===== verification/OrderedMap.thy ===== *)
theory OrderedMap
  imports Prelude
begin

section \<open>Ordered maps\<close>

text \<open>
  The contents of a \<open>std::map\<close> in iteration order: an association list sorted by the comparator
  (\<open>std::less\<close> or \<open>std::greater\<close>). The laws of writing through \<open>operator[]\<close> and of \<open>erase\<close> are
  proved once for any strict total order, and hold for both directions by interpretation.
\<close>

text \<open>\<open>m[key]\<close> overwritten by \<open>f\<close> of what was there, an absent key inserted at its place.\<close>

fun map_update :: "('k \<Rightarrow> 'k \<Rightarrow> bool) \<Rightarrow> 'k \<Rightarrow> ('v option \<Rightarrow> 'v) \<Rightarrow> ('k \<times> 'v) list \<Rightarrow> ('k \<times> 'v) list" where
  "map_update precedes key f [] = [(key, f None)]"
| "map_update precedes key f ((k, v) # xs) =
     (if key = k then (k, f (Some v)) # xs
      else if precedes key k then (key, f None) # (k, v) # xs
      else (k, v) # map_update precedes key f xs)"

definition map_erase :: "'k \<Rightarrow> ('k \<times> 'v) list \<Rightarrow> ('k \<times> 'v) list" where
  "map_erase key xs = filter (\<lambda>e. fst e \<noteq> key) xs"

definition map_sorted :: "('k \<Rightarrow> 'k \<Rightarrow> bool) \<Rightarrow> ('k \<times> 'v) list \<Rightarrow> bool" where
  "map_sorted precedes xs \<longleftrightarrow> sorted_wrt precedes (map fst xs)"

lemma map_sorted_Nil [simp]: "map_sorted precedes []"
  by (simp add: map_sorted_def)

lemma map_sorted_Cons [simp]:
  "map_sorted precedes (e # xs) \<longleftrightarrow> (\<forall>k \<in> fst ` set xs. precedes (fst e) k) \<and> map_sorted precedes xs"
  by (auto simp: map_sorted_def)

lemma map_erase_Nil [simp]: "map_erase key [] = []"
  by (simp add: map_erase_def)

lemma map_erase_Cons [simp]:
  "map_erase key (e # xs) = (if fst e = key then map_erase key xs else e # map_erase key xs)"
  by (simp add: map_erase_def)

lemma map_of_erase [simp]: "map_of (map_erase key xs) = (map_of xs)(key := None)"
  by (induction xs) auto

lemma keys_erase [simp]: "fst ` set (map_erase key xs) = fst ` set xs - {key}"
  by (auto simp: map_erase_def)

lemma sorted_erase [simp]: "map_sorted precedes xs \<Longrightarrow> map_sorted precedes (map_erase key xs)"
  by (induction xs) auto

lemma values_erase: "set (map_erase key xs) \<subseteq> set xs"
  by (auto simp: map_erase_def)

lemma keys_update [simp]: "fst ` set (map_update precedes key f xs) = insert key (fst ` set xs)"
  by (induction precedes key f xs rule: map_update.induct) auto

lemma values_update:
  "set (map_update precedes key f xs) \<subseteq> insert (key, f None) (set xs \<union> {(key, f (Some v)) |v. (key, v) \<in> set xs})"
  by (induction precedes key f xs rule: map_update.induct) auto

lemma update_not_Nil [simp]: "map_update precedes key f xs \<noteq> []"
  by (cases xs) (auto split: if_splits)

locale map_order =
  fixes precedes :: "'k \<Rightarrow> 'k \<Rightarrow> bool"
  assumes irrefl: "\<not> precedes k k"
    and trans: "precedes a b \<Longrightarrow> precedes b c \<Longrightarrow> precedes a c"
    and total: "precedes a b \<or> a = b \<or> precedes b a"
begin

lemma absent_before:
  assumes "map_sorted precedes ((k, v) # xs)" and "precedes key k"
  shows "map_of xs key = None"
proof -
  have "precedes key k'" if "k' \<in> fst ` set xs" for k'
    using assms that by (auto intro: trans)
  then have "key \<notin> fst ` set xs"
    using irrefl by blast
  then show ?thesis
    by (simp add: map_of_eq_None_iff)
qed

lemma lookup_update:
  "map_sorted precedes xs \<Longrightarrow>
     map_of (map_update precedes key f xs) = (map_of xs)(key \<mapsto> f (map_of xs key))"
proof (induction xs)
  case Nil
  then show ?case by simp
next
  case (Cons e xs)
  obtain k v where e: "e = (k, v)"
    by (cases e)
  show ?case
    using Cons absent_before [of k v xs key] unfolding e by (auto simp: fun_eq_iff)
qed

lemma sorted_update: "map_sorted precedes xs \<Longrightarrow> map_sorted precedes (map_update precedes key f xs)"
proof (induction xs)
  case Nil
  then show ?case by simp
next
  case (Cons e xs)
  obtain k v where e: "e = (k, v)"
    by (cases e)
  show ?case
    using Cons total [of key k] trans unfolding e by (auto simp: ball_Un)
qed

lemma distinct_keys: "map_sorted precedes xs \<Longrightarrow> distinct (map fst xs)"
  by (induction xs) (auto simp: irrefl)

lemma lookup_iff: "map_sorted precedes xs \<Longrightarrow> map_of xs key = Some v \<longleftrightarrow> (key, v) \<in> set xs"
  by (simp add: distinct_keys)

lemma first_key: "map_sorted precedes xs \<Longrightarrow> xs \<noteq> [] \<Longrightarrow> k \<in> fst ` set xs \<Longrightarrow> k \<noteq> fst (hd xs) \<Longrightarrow> precedes (fst (hd xs)) k"
  by (cases xs) auto

lemma sum_update:
  fixes g :: "'v \<Rightarrow> int"
  shows "map_sorted precedes xs \<Longrightarrow>
    (\<Sum>e\<leftarrow>map_update precedes key f xs. g (snd e)) =
      (\<Sum>e\<leftarrow>xs. g (snd e)) - (case map_of xs key of None \<Rightarrow> 0 | Some v \<Rightarrow> g v) + g (f (map_of xs key))"
proof (induction xs)
  case Nil
  then show ?case by simp
next
  case (Cons e xs)
  obtain k v where e: "e = (k, v)"
    by (cases e)
  show ?case
    using Cons absent_before [of k v xs key] unfolding e by auto
qed

text \<open>The contents determine the iteration order.\<close>

lemma sorted_canonical:
  "map_sorted precedes xs \<Longrightarrow> map_sorted precedes ys \<Longrightarrow> map_of xs = map_of ys \<Longrightarrow> xs = ys"
proof (induction xs arbitrary: ys)
  case Nil
  then show ?case
    by (metis map_of_eq_empty_iff)
next
  case (Cons e xs)
  obtain e' ys' where ys: "ys = e' # ys'"
    using Cons.prems(3) by (cases ys) (auto simp: fun_eq_iff split: if_splits)
  have sets: "set (e # xs) = set ys"
    using Cons.prems by (metis distinct_keys map_of_inject_set)
  have "e' \<in> set (e # xs)" and "e \<in> set (e' # ys')"
    using sets unfolding ys by (metis list.set_intros(1))+
  then have "e' = e \<or> precedes (fst e) (fst e')" and "e = e' \<or> precedes (fst e') (fst e)"
    using Cons.prems(1,2) unfolding ys by auto
  then have same: "e = e'"
    using trans [of "fst e" "fst e'" "fst e"] irrefl by blast
  have "e \<notin> set xs" "e \<notin> set ys'"
    using Cons.prems(1,2) irrefl unfolding ys same by force+
  then have "set xs = set ys'"
    using sets unfolding ys same by auto
  then have "map_of xs = map_of ys'"
    using Cons.prems(1,2) distinct_keys unfolding ys by (metis map_of_inject_set map_sorted_Cons)
  then show ?case
    using Cons.IH Cons.prems(1,2) same unfolding ys by simp
qed

end

interpretation ascending: map_order "(<) :: 'k::linorder \<Rightarrow> 'k \<Rightarrow> bool"
  by unfold_locales auto

interpretation descending: map_order "(>) :: 'k::linorder \<Rightarrow> 'k \<Rightarrow> bool"
  by unfold_locales auto

end
