(* ===== verification/PaperAccounting.thy ===== *)
theory PaperAccounting
  imports OrderedMap FillTracking MarketView "HOL-Library.Char_ord" "HOL-Library.List_Lexorder"
begin

section \<open>Paper ledgers and profit\<close>

text \<open>
  \<open>engine/paper/ledger\<close> (\<open>FillApplication\<close>, \<open>PositionLedger\<close>, \<open>PaperLedger\<close>,
  \<open>CashLedger.h\<close>), \<open>engine/paper/portfolio\<close> and the profit engines of
  \<open>engine/paper/pnl\<close>. The \<open>std::map\<close> of positions is an association list in ascending order
  of its keys, the sets of applied numbers are sets with the number of their elements.
  Lemmas: the books balance after any sequence of fills, nothing is sold short, a report or
  fill is applied once, equity splits into its parts.
\<close>

subsection \<open>Positions\<close>

record Position =
  po_asset_id :: string
  po_asset_index :: u32
  po_qty_lots :: i64
  po_avg_cost_tick :: i64
  po_cost_basis_tick :: i64
  po_realized_pnl_tick :: i64
  po_unrealized_pnl_mid_tick :: i64
  po_unrealized_pnl_liquidation_tick :: i64

definition default_position :: Position where
  "default_position = \<lparr>po_asset_id = [], po_asset_index = 0, po_qty_lots = 0, po_avg_cost_tick = 0,
     po_cost_basis_tick = 0, po_realized_pnl_tick = 0, po_unrealized_pnl_mid_tick = 0,
     po_unrealized_pnl_liquidation_tick = 0\<rparr>"

type_synonym PositionLedger = "(string \<times> Position) list"

datatype PositionLedgerApplyStatus =
    PL_Applied | PL_InvalidFill | PL_UnsupportedSell | PL_InsufficientPosition

record PositionLedgerApplyResult =
  pa_applied :: bool
  pa_status :: PositionLedgerApplyStatus
  pa_realized_pnl_tick :: i64

record PositionFill =
  fl_asset_id :: string
  fl_asset_index :: u32
  fl_side :: OrderSide
  fl_qty_lots :: i64
  fl_price_tick :: i64

text \<open>\<open>positions_[key]\<close> changed by \<open>f\<close>; a missing entry is inserted with default values first.\<close>

definition update_position :: "string \<Rightarrow> (Position \<Rightarrow> Position) \<Rightarrow> PositionLedger \<Rightarrow> PositionLedger" where
  "update_position key f ps = map_update (<) key (\<lambda>p. f (case p of None \<Rightarrow> default_position | Some p \<Rightarrow> p)) ps"

definition buy_position :: "string \<Rightarrow> u32 \<Rightarrow> i64 \<Rightarrow> i64 \<Rightarrow> Position \<Rightarrow> Position" where
  "buy_position asset_id asset_index qty_lots cost_tick p =
     (let qty = wrap_i64 (po_qty_lots p + qty_lots); basis = wrap_i64 (po_cost_basis_tick p + cost_tick) in
      p\<lparr>po_asset_id := asset_id, po_asset_index := asset_index, po_qty_lots := qty,
        po_cost_basis_tick := basis,
        po_avg_cost_tick := (if qty > 0 then basis sdiv qty else po_avg_cost_tick p)\<rparr>)"

definition apply_buy :: "PositionLedger \<Rightarrow> string \<Rightarrow> u32 \<Rightarrow> i64 \<Rightarrow> i64 \<Rightarrow> PositionLedger" where
  "apply_buy ps asset_id asset_index qty_lots cost_tick =
     update_position asset_id (buy_position asset_id asset_index qty_lots cost_tick) ps"

definition position_apply_fill ::
  "PositionLedger \<Rightarrow> PositionFill \<Rightarrow> PositionLedgerApplyResult \<times> PositionLedger" where
  "position_apply_fill ps fill =
     (if fl_side fill = OrderSell
      then (\<lparr>pa_applied = False, pa_status = PL_UnsupportedSell, pa_realized_pnl_tick = 0\<rparr>, ps)
      else if fl_asset_id fill = [] \<or> fl_qty_lots fill \<le> 0 \<or> fl_price_tick fill < 0
      then (\<lparr>pa_applied = False, pa_status = PL_InvalidFill, pa_realized_pnl_tick = 0\<rparr>, ps)
      else (\<lparr>pa_applied = True, pa_status = PL_Applied, pa_realized_pnl_tick = 0\<rparr>,
            apply_buy ps (fl_asset_id fill) (fl_asset_index fill) (fl_qty_lots fill)
              (wrap_i64 (fl_qty_lots fill * fl_price_tick fill))))"

definition sell_position :: "u32 \<Rightarrow> i64 \<Rightarrow> i64 \<Rightarrow> Position \<Rightarrow> Position" where
  "sell_position asset_index qty_lots realized p =
     (let qty = wrap_i64 (po_qty_lots p - qty_lots);
          basis = wrap_i64 (po_cost_basis_tick p - wrap_i64 (po_avg_cost_tick p * qty_lots))
      in p\<lparr>po_asset_index := (if po_asset_index p = 0 then asset_index else po_asset_index p),
           po_qty_lots := qty,
           po_cost_basis_tick := (if qty = 0 then 0 else basis),
           po_avg_cost_tick := (if qty = 0 then 0 else basis sdiv qty),
           po_realized_pnl_tick := wrap_i64 (po_realized_pnl_tick p + realized)\<rparr>)"

definition sell_profit :: "i64 \<Rightarrow> i64 \<Rightarrow> Position \<Rightarrow> i64" where
  "sell_profit qty_lots sale_tick p = wrap_i64 (wrap_i64 (sale_tick - po_avg_cost_tick p) * qty_lots)"

definition apply_sell ::
  "PositionLedger \<Rightarrow> string \<Rightarrow> u32 \<Rightarrow> i64 \<Rightarrow> i64 \<Rightarrow> PositionLedgerApplyResult \<times> PositionLedger" where
  "apply_sell ps asset_id asset_index qty_lots sale_tick =
     (if asset_id = [] \<or> qty_lots \<le> 0 \<or> sale_tick < 0
      then (\<lparr>pa_applied = False, pa_status = PL_InvalidFill, pa_realized_pnl_tick = 0\<rparr>, ps)
      else
        (case map_of ps asset_id of
           None \<Rightarrow> (\<lparr>pa_applied = False, pa_status = PL_InsufficientPosition, pa_realized_pnl_tick = 0\<rparr>, ps)
         | Some p \<Rightarrow>
             if po_qty_lots p < qty_lots
             then (\<lparr>pa_applied = False, pa_status = PL_InsufficientPosition, pa_realized_pnl_tick = 0\<rparr>, ps)
             else
               (let realized = sell_profit qty_lots sale_tick p
                in (\<lparr>pa_applied = True, pa_status = PL_Applied, pa_realized_pnl_tick = realized\<rparr>,
                    update_position asset_id (sell_position asset_index qty_lots realized) ps))))"

definition mark_mid :: "PositionLedger \<Rightarrow> string \<Rightarrow> i64 \<Rightarrow> PositionLedger" where
  "mark_mid ps asset_id mid_tick =
     (if map_of ps asset_id = None then ps
      else update_position asset_id (\<lambda>p. p\<lparr>po_unrealized_pnl_mid_tick :=
             wrap_i64 (wrap_i64 (mid_tick - po_avg_cost_tick p) * po_qty_lots p)\<rparr>) ps)"

definition mark_liquidation :: "PositionLedger \<Rightarrow> string \<Rightarrow> i64 \<Rightarrow> PositionLedger" where
  "mark_liquidation ps asset_id liquidation_tick =
     (if map_of ps asset_id = None then ps
      else update_position asset_id (\<lambda>p. p\<lparr>po_unrealized_pnl_liquidation_tick :=
             wrap_i64 (wrap_i64 (liquidation_tick - po_avg_cost_tick p) * po_qty_lots p)\<rparr>) ps)"

definition position_lots :: "PositionLedger \<Rightarrow> string \<Rightarrow> i64" where
  "position_lots ps asset_id = (case map_of ps asset_id of None \<Rightarrow> 0 | Some p \<Rightarrow> po_qty_lots p)"

definition position_cost_basis :: "PositionLedger \<Rightarrow> string \<Rightarrow> i64" where
  "position_cost_basis ps asset_id = (case map_of ps asset_id of None \<Rightarrow> 0 | Some p \<Rightarrow> po_cost_basis_tick p)"

definition position_avg_cost :: "PositionLedger \<Rightarrow> string \<Rightarrow> i64" where
  "position_avg_cost ps asset_id = (case map_of ps asset_id of None \<Rightarrow> 0 | Some p \<Rightarrow> po_avg_cost_tick p)"

record ExposureView =
  xv_asset_count :: nat
  xv_total_qty_lots :: i64
  xv_gross_cost_basis_tick :: i64
  xv_unrealized_pnl_mid_tick :: i64
  xv_unrealized_pnl_liquidation_tick :: i64

definition position_exposure :: "PositionLedger \<Rightarrow> ExposureView" where
  "position_exposure ps =
     foldl (\<lambda>out (_, p). out\<lparr>
         xv_total_qty_lots := wrap_i64 (xv_total_qty_lots out + po_qty_lots p),
         xv_gross_cost_basis_tick := wrap_i64 (xv_gross_cost_basis_tick out + po_cost_basis_tick p),
         xv_unrealized_pnl_mid_tick := wrap_i64 (xv_unrealized_pnl_mid_tick out + po_unrealized_pnl_mid_tick p),
         xv_unrealized_pnl_liquidation_tick :=
           wrap_i64 (xv_unrealized_pnl_liquidation_tick out + po_unrealized_pnl_liquidation_tick p)\<rparr>)
       \<lparr>xv_asset_count = length ps, xv_total_qty_lots = 0, xv_gross_cost_basis_tick = 0,
        xv_unrealized_pnl_mid_tick = 0, xv_unrealized_pnl_liquidation_tick = 0\<rparr> ps"

subsection \<open>Fills\<close>

record FillApplication =
  fa_report :: ExecutionReport
  fa_execution_report_id :: u64
  fa_market_id :: string
  fa_asset_id :: string
  fa_asset_index :: u32
  fa_side :: OrderSide
  fa_fee_tick :: i64

definition kFillFnvOffset :: u64 where
  "kFillFnvOffset = 1469598103934665603"

fun order_status_code :: "ChildOrderStatus \<Rightarrow> u64" where
  "order_status_code COS_Created = 0"
| "order_status_code COS_Planned = 1"
| "order_status_code COS_Sent = 2"
| "order_status_code COS_Acked = 3"
| "order_status_code COS_PartiallyFilled = 4"
| "order_status_code COS_Filled = 5"
| "order_status_code COS_CancelRequested = 6"
| "order_status_code COS_Cancelled = 7"
| "order_status_code COS_Failed = 8"
| "order_status_code COS_Expired = 9"

definition derive_execution_report_id :: "FillApplication \<Rightarrow> u64" where
  "derive_execution_report_id fill =
     (if fa_execution_report_id fill \<noteq> 0 then fa_execution_report_id fill
      else let r = fa_report fill in
        foldl (\<lambda>hash v. fnv_u64 v hash) kFillFnvOffset
          [xr_plan_id r, xr_child_order_id r, xr_event_ts_ns r, order_status_code (xr_status r),
           word_of_int (xr_filled_lots r), word_of_int (xr_avg_fill_price_tick r)])"

datatype FillLiquidityRole = RoleMaker | RoleTaker | RoleUnknown

record PaperFill =
  pl_fill_id :: u64
  pl_report_id :: u64
  pl_plan_id :: u64
  pl_order_id :: u64
  pl_quote_id :: u64
  pl_approved_quote_id :: u64
  pl_quote_group_id :: u64
  pl_asset_index :: u32
  pl_asset_id :: string
  pl_side :: OrderSide
  pl_liquidity_role :: FillLiquidityRole
  pl_qty_lots :: i64
  pl_fill_price_tick :: i64
  pl_fee_tick :: i64
  pl_ts_ns :: u64
  pl_idempotency_hash :: u64

subsection \<open>PaperLedger\<close>

record CashLedger =
  cl_starting_cash_tick :: i64
  cl_cash_tick :: i64
  cl_reserved_cash_tick :: i64
  cl_realized_pnl_tick :: i64
  cl_fees_paid_tick :: i64

record PaperLedger =
  pg_cash :: CashLedger
  pg_positions :: PositionLedger
  pg_applied_execution_report_ids :: "u64 list"
  pg_applied_fill_ids :: "u64 list"
  pg_applied_maker_report_ids :: "u64 list"
  pg_maker_fill_count :: u64

datatype PaperLedgerApplyStatus =
    LS_Applied | LS_DuplicateExecutionReport | LS_IgnoredNonFill | LS_UnsupportedSell | LS_InvalidFill
  | LS_DuplicateIgnored | LS_RejectedInvalidFill | LS_RejectedUnsupportedSide
  | LS_RejectedInsufficientPosition

record PaperLedgerSnapshot =
  sn_cash :: CashLedger
  sn_applied_execution_report_count :: nat
  sn_applied_fill_count :: nat
  sn_maker_fill_count :: u64
  sn_position_count :: nat

record PaperLedgerApplyResult =
  lr_applied :: bool
  lr_status :: PaperLedgerApplyStatus
  lr_fill_id :: u64
  lr_reason :: string
  lr_snapshot :: PaperLedgerSnapshot

definition make_paper_ledger :: "i64 \<Rightarrow> PaperLedger" where
  "make_paper_ledger starting_cash_tick =
     \<lparr>pg_cash = \<lparr>cl_starting_cash_tick = starting_cash_tick, cl_cash_tick = starting_cash_tick,
        cl_reserved_cash_tick = 0, cl_realized_pnl_tick = 0, cl_fees_paid_tick = 0\<rparr>,
      pg_positions = [], pg_applied_execution_report_ids = [], pg_applied_fill_ids = [],
      pg_applied_maker_report_ids = [], pg_maker_fill_count = 0\<rparr>"

definition paper_snapshot :: "PaperLedger \<Rightarrow> PaperLedgerSnapshot" where
  "paper_snapshot l =
     \<lparr>sn_cash = pg_cash l, sn_applied_execution_report_count = length (pg_applied_execution_report_ids l),
      sn_applied_fill_count = length (pg_applied_fill_ids l), sn_maker_fill_count = pg_maker_fill_count l,
      sn_position_count = length (pg_positions l)\<rparr>"

definition is_fill_status :: "ChildOrderStatus \<Rightarrow> bool" where
  "is_fill_status status \<longleftrightarrow> status = COS_Filled \<or> status = COS_PartiallyFilled"

text \<open>The cash side of a purchase.\<close>

definition pay :: "i64 \<Rightarrow> i64 \<Rightarrow> CashLedger \<Rightarrow> CashLedger" where
  "pay gross fee c =
     c\<lparr>cl_cash_tick := wrap_i64 (cl_cash_tick c - wrap_i64 (gross + fee)),
       cl_fees_paid_tick := wrap_i64 (cl_fees_paid_tick c + fee)\<rparr>"

definition receive_cash :: "i64 \<Rightarrow> i64 \<Rightarrow> i64 \<Rightarrow> CashLedger \<Rightarrow> CashLedger" where
  "receive_cash gross fee realized c =
     c\<lparr>cl_cash_tick := wrap_i64 (cl_cash_tick c + wrap_i64 (gross - fee)),
       cl_realized_pnl_tick := wrap_i64 (cl_realized_pnl_tick c + wrap_i64 (realized - fee)),
       cl_fees_paid_tick := wrap_i64 (cl_fees_paid_tick c + fee)\<rparr>"

text \<open>Set insertion on the list of the elements of an unordered set.\<close>

definition set_insert :: "u64 \<Rightarrow> u64 list \<Rightarrow> u64 list" where
  "set_insert x xs = (if x \<in> set xs then xs else x # xs)"

definition ledger_result :: "bool \<Rightarrow> PaperLedgerApplyStatus \<Rightarrow> u64 \<Rightarrow> string \<Rightarrow> PaperLedger
     \<Rightarrow> PaperLedgerApplyResult \<times> PaperLedger" where
  "ledger_result applied status fill_id reason l =
     (\<lparr>lr_applied = applied, lr_status = status, lr_fill_id = fill_id, lr_reason = reason,
       lr_snapshot = paper_snapshot l\<rparr>, l)"

definition apply_execution_fill :: "PaperLedger \<Rightarrow> FillApplication \<Rightarrow> PaperLedgerApplyResult \<times> PaperLedger" where
  "apply_execution_fill l fill =
     (let report_id = derive_execution_report_id fill; r = fa_report fill;
          recorded = l\<lparr>pg_applied_execution_report_ids :=
            set_insert report_id (pg_applied_execution_report_ids l)\<rparr>
      in
      if report_id = 0 then ledger_result False LS_InvalidFill 0 ''missing execution report id'' l
      else if report_id \<in> set (pg_applied_execution_report_ids l)
      then ledger_result False LS_DuplicateExecutionReport report_id ''duplicate execution report'' l
      else if \<not> is_fill_status (xr_status r) \<or> xr_filled_lots r = 0
      then ledger_result False LS_IgnoredNonFill report_id ''execution report has no fill'' recorded
      else if xr_filled_lots r < 0 \<or> xr_avg_fill_price_tick r < 0 \<or> fa_fee_tick fill < 0 \<or> fa_asset_id fill = []
      then ledger_result False LS_InvalidFill report_id ''invalid execution fill'' l
      else if fa_side fill = OrderSell
      then ledger_result False LS_UnsupportedSell report_id
             ''sell fills are unsupported for execution reports'' l
      else
        (let gross = wrap_i64 (xr_filled_lots r * xr_avg_fill_price_tick r)
         in ledger_result True LS_Applied report_id []
              (recorded\<lparr>pg_cash := pay gross (fa_fee_tick fill) (pg_cash l),
                 pg_positions := apply_buy (pg_positions l) (fa_asset_id fill) (fa_asset_index fill)
                   (xr_filled_lots r) gross\<rparr>)))"

definition record_paper_fill :: "PaperFill \<Rightarrow> PaperLedger \<Rightarrow> PaperLedger" where
  "record_paper_fill fill l =
     l\<lparr>pg_applied_fill_ids := set_insert (pl_fill_id fill) (pg_applied_fill_ids l),
       pg_applied_maker_report_ids :=
         (if pl_report_id fill \<noteq> 0 then set_insert (pl_report_id fill) (pg_applied_maker_report_ids l)
          else pg_applied_maker_report_ids l),
       pg_maker_fill_count :=
         (if pl_liquidity_role fill = RoleMaker then pg_maker_fill_count l + 1 else pg_maker_fill_count l)\<rparr>"

definition apply_paper_fill :: "PaperLedger \<Rightarrow> PaperFill \<Rightarrow> PaperLedgerApplyResult \<times> PaperLedger" where
  "apply_paper_fill l fill =
     (if pl_fill_id fill = 0 \<or> pl_qty_lots fill \<le> 0 \<or> pl_fill_price_tick fill < 0 \<or> pl_fee_tick fill < 0 \<or>
         pl_asset_id fill = [] \<or> pl_liquidity_role fill = RoleUnknown
      then ledger_result False LS_RejectedInvalidFill (pl_fill_id fill) ''invalid paper fill'' l
      else if pl_fill_id fill \<in> set (pg_applied_fill_ids l) \<or>
              (pl_report_id fill \<noteq> 0 \<and> pl_report_id fill \<in> set (pg_applied_maker_report_ids l))
      then ledger_result False LS_DuplicateIgnored (pl_fill_id fill) ''duplicate paper fill'' l
      else
        (let gross = wrap_i64 (pl_qty_lots fill * pl_fill_price_tick fill) in
         case pl_side fill of
           OrderBuy \<Rightarrow>
             ledger_result True LS_Applied (pl_fill_id fill) []
               (record_paper_fill fill
                  (l\<lparr>pg_cash := pay gross (pl_fee_tick fill) (pg_cash l),
                     pg_positions := apply_buy (pg_positions l) (pl_asset_id fill) (pl_asset_index fill)
                       (pl_qty_lots fill) gross\<rparr>))
         | OrderSell \<Rightarrow>
             (case apply_sell (pg_positions l) (pl_asset_id fill) (pl_asset_index fill) (pl_qty_lots fill)
                     (pl_fill_price_tick fill) of
                (sold, positions') \<Rightarrow>
                  if \<not> pa_applied sold
                  then ledger_result False
                         (if pa_status sold = PL_InsufficientPosition then LS_RejectedInsufficientPosition
                          else LS_RejectedInvalidFill)
                         (pl_fill_id fill) ''paper sell exceeds current position'' (l\<lparr>pg_positions := positions'\<rparr>)
                  else ledger_result True LS_Applied (pl_fill_id fill) []
                         (record_paper_fill fill
                            (l\<lparr>pg_cash := receive_cash gross (pl_fee_tick fill) (pa_realized_pnl_tick sold) (pg_cash l),
                               pg_positions := positions'\<rparr>)))))"

record PaperAccount =
  ac_account_id :: string
  ac_starting_cash_tick :: i64
  ac_cash_balance_tick :: i64
  ac_reserved_cash_tick :: i64
  ac_realized_pnl_tick :: i64
  ac_unrealized_pnl_tick :: i64
  ac_version :: u64
  ac_updated_ts_ns :: u64

definition account_snapshot :: "PaperLedger \<Rightarrow> PaperAccount" where
  "account_snapshot l =
     \<lparr>ac_account_id = [], ac_starting_cash_tick = cl_starting_cash_tick (pg_cash l),
      ac_cash_balance_tick = cl_cash_tick (pg_cash l), ac_reserved_cash_tick = cl_reserved_cash_tick (pg_cash l),
      ac_realized_pnl_tick = cl_realized_pnl_tick (pg_cash l), ac_unrealized_pnl_tick = 0, ac_version = 0,
      ac_updated_ts_ns = 0\<rparr>"

record PaperPnL =
  pn_realized_pnl_tick :: i64
  pn_unrealized_pnl_tick :: i64
  pn_mark_to_market_pnl_tick :: i64
  pn_fees_tick :: i64
  pn_slippage_tick :: i64
  pn_version :: u64
  pn_updated_ts_ns :: u64

definition pnl_snapshot :: "PaperLedger \<Rightarrow> PaperPnL" where
  "pnl_snapshot l =
     \<lparr>pn_realized_pnl_tick = cl_realized_pnl_tick (pg_cash l), pn_unrealized_pnl_tick = 0,
      pn_mark_to_market_pnl_tick = 0, pn_fees_tick = cl_fees_paid_tick (pg_cash l), pn_slippage_tick = 0,
      pn_version = 0, pn_updated_ts_ns = 0\<rparr>"

subsection \<open>Portfolio and marks\<close>

definition portfolio_apply_fill :: "PositionLedger \<Rightarrow> FillApplication \<Rightarrow> PositionLedgerApplyResult \<times> PositionLedger" where
  "portfolio_apply_fill ps fill =
     position_apply_fill ps
       \<lparr>fl_asset_id = fa_asset_id fill, fl_asset_index = fa_asset_index fill, fl_side = fa_side fill,
        fl_qty_lots = xr_filled_lots (fa_report fill), fl_price_tick = xr_avg_fill_price_tick (fa_report fill)\<rparr>"

datatype MarkQuality = MQ_Good | MQ_MissingBid | MQ_MissingAsk | MQ_MissingBook | MQ_Degraded | MQ_NoPosition

record MarkPrice =
  mk_asset_index :: u32
  mk_mid_mark_tick :: i64
  mk_liquidation_mark_tick :: i64
  mk_mid_quality :: MarkQuality
  mk_liquidation_quality :: MarkQuality

definition default_mark :: MarkPrice where
  "default_mark = \<lparr>mk_asset_index = 0, mk_mid_mark_tick = 0, mk_liquidation_mark_tick = 0,
     mk_mid_quality = MQ_MissingBook, mk_liquidation_quality = MQ_MissingBook\<rparr>"

definition degraded :: "MarketDepthView \<Rightarrow> bool" where
  "degraded v \<longleftrightarrow> \<not> dv_usable_for_depth v \<or> dv_recovering v \<or> dv_crossed v \<or> dv_closed v \<or> dv_resolved v"

definition mark_from_depth :: "MarketDepthView \<Rightarrow> MarkPrice" where
  "mark_from_depth v =
     (let bid = PriceLevel.price_tick (dv_bids v ! 0); ask = PriceLevel.price_tick (dv_asks v ! 0);
          quality = (if degraded v then MQ_Degraded else MQ_Good)
      in \<lparr>mk_asset_index = dv_asset_index v,
          mk_mid_mark_tick =
            (if dv_bid_count v = 0 \<or> dv_ask_count v = 0 then 0 else wrap_i64 (bid + ask) sdiv 2),
          mk_liquidation_mark_tick = (if dv_bid_count v = 0 then 0 else bid),
          mk_mid_quality =
            (if dv_bid_count v = 0 \<and> dv_ask_count v = 0 then MQ_MissingBook
             else if dv_bid_count v = 0 then MQ_MissingBid
             else if dv_ask_count v = 0 then MQ_MissingAsk else quality),
          mk_liquidation_quality = (if dv_bid_count v = 0 then MQ_MissingBid else quality)\<rparr>)"

definition find_depth :: "MarketDepthView list \<Rightarrow> u32 \<Rightarrow> MarketDepthView option" where
  "find_depth views asset_index = List.find (\<lambda>v. dv_asset_index v = asset_index) views"

definition mark_of :: "MarketDepthView list \<Rightarrow> Position \<Rightarrow> MarkPrice" where
  "mark_of views p =
     (case find_depth views (po_asset_index p) of Some v \<Rightarrow> mark_from_depth v | None \<Rightarrow> default_mark)"

subsection \<open>Profit engines\<close>

fun mark_quality_code :: "MarkQuality \<Rightarrow> nat" where
  "mark_quality_code MQ_Good = 0"
| "mark_quality_code MQ_MissingBid = 1"
| "mark_quality_code MQ_MissingAsk = 2"
| "mark_quality_code MQ_MissingBook = 3"
| "mark_quality_code MQ_Degraded = 4"
| "mark_quality_code MQ_NoPosition = 5"

fun mark_rank :: "MarkQuality \<Rightarrow> nat" where
  "mark_rank MQ_NoPosition = 0"
| "mark_rank q = mark_quality_code q"

definition worse :: "(MarkQuality \<Rightarrow> nat) \<Rightarrow> MarkQuality \<Rightarrow> MarkQuality \<Rightarrow> MarkQuality" where
  "worse rank lhs rhs = (if rank lhs \<ge> rank rhs then lhs else rhs)"

record EquityCurve =
  eq_ts_ns :: u64
  eq_realized_pnl_tick :: i64
  eq_unrealized_pnl_mid_tick :: i64
  eq_unrealized_pnl_liquidation_tick :: i64
  eq_equity_mid_tick :: i64
  eq_equity_liquidation_tick :: i64

record PaperPnLResult =
  pp_equity :: EquityCurve
  pp_realized_pnl_tick :: i64
  pp_unrealized_pnl_mid_tick :: i64
  pp_unrealized_pnl_liquidation_tick :: i64
  pp_worst_mark_quality :: MarkQuality

text \<open>The accumulators of the loop over the positions: values, unrealised profits, worst quality.\<close>

record ValueSum =
  vs_mid_value :: i64
  vs_liquidation_value :: i64
  vs_unrealized_mid :: i64
  vs_unrealized_liquidation :: i64
  vs_quality :: MarkQuality

definition add_position ::
  "(MarkQuality \<Rightarrow> nat) \<Rightarrow> MarketDepthView list \<Rightarrow> ValueSum \<Rightarrow> Position \<Rightarrow> ValueSum" where
  "add_position rank views acc p =
     (let m = mark_of views p;
          mid_value = wrap_i64 (po_qty_lots p * mk_mid_mark_tick m);
          liquidation_value = wrap_i64 (po_qty_lots p * mk_liquidation_mark_tick m)
      in \<lparr>vs_mid_value = wrap_i64 (vs_mid_value acc + mid_value),
          vs_liquidation_value = wrap_i64 (vs_liquidation_value acc + liquidation_value),
          vs_unrealized_mid =
            wrap_i64 (vs_unrealized_mid acc + wrap_i64 (mid_value - po_cost_basis_tick p)),
          vs_unrealized_liquidation =
            wrap_i64 (vs_unrealized_liquidation acc + wrap_i64 (liquidation_value - po_cost_basis_tick p)),
          vs_quality = worse rank (worse rank (vs_quality acc) (mk_mid_quality m)) (mk_liquidation_quality m)\<rparr>)"

definition value_positions ::
  "(MarkQuality \<Rightarrow> nat) \<Rightarrow> MarketDepthView list \<Rightarrow> Position list \<Rightarrow> ValueSum" where
  "value_positions rank views ps =
     foldl (add_position rank views)
       \<lparr>vs_mid_value = 0, vs_liquidation_value = 0, vs_unrealized_mid = 0, vs_unrealized_liquidation = 0,
        vs_quality = MQ_Good\<rparr> ps"

definition compute_paper_pnl ::
  "PositionLedger \<Rightarrow> CashLedger \<Rightarrow> MarketDepthView list \<Rightarrow> u64 \<Rightarrow> PaperPnLResult" where
  "compute_paper_pnl portfolio cash views ts_ns =
     (let acc = value_positions mark_quality_code views (map snd portfolio)
      in \<lparr>pp_equity =
            \<lparr>eq_ts_ns = ts_ns, eq_realized_pnl_tick = cl_realized_pnl_tick cash,
             eq_unrealized_pnl_mid_tick = vs_unrealized_mid acc,
             eq_unrealized_pnl_liquidation_tick = vs_unrealized_liquidation acc,
             eq_equity_mid_tick = wrap_i64 (cl_cash_tick cash + vs_mid_value acc),
             eq_equity_liquidation_tick = wrap_i64 (cl_cash_tick cash + vs_liquidation_value acc)\<rparr>,
          pp_realized_pnl_tick = cl_realized_pnl_tick cash,
          pp_unrealized_pnl_mid_tick = vs_unrealized_mid acc,
          pp_unrealized_pnl_liquidation_tick = vs_unrealized_liquidation acc,
          pp_worst_mark_quality = vs_quality acc\<rparr>)"

record MakerPnLSnapshot =
  mp_ts_ns :: u64
  mp_maker_realized_pnl_tick :: i64
  mp_maker_unrealized_pnl_mid_tick :: i64
  mp_maker_unrealized_pnl_liquidation_tick :: i64
  mp_equity_mid_tick :: i64
  mp_equity_liquidation_tick :: i64
  mp_cash_tick :: i64
  mp_fees_paid_tick :: i64
  mp_maker_fill_count :: u64
  mp_mark_quality :: MarkQuality

definition open_positions :: "PositionLedger \<Rightarrow> Position list" where
  "open_positions ps = filter (\<lambda>p. 0 < po_qty_lots p) (map snd ps)"

definition compute_maker_pnl :: "PaperLedger \<Rightarrow> MarketDepthView list \<Rightarrow> u64 \<Rightarrow> MakerPnLSnapshot" where
  "compute_maker_pnl l views ts_ns =
     (let open_ps = open_positions (pg_positions l);
          acc = value_positions mark_rank views open_ps;
          cash = pg_cash l
      in \<lparr>mp_ts_ns = ts_ns, mp_maker_realized_pnl_tick = cl_realized_pnl_tick cash,
          mp_maker_unrealized_pnl_mid_tick = (if open_ps = [] then 0 else vs_unrealized_mid acc),
          mp_maker_unrealized_pnl_liquidation_tick =
            (if open_ps = [] then 0 else vs_unrealized_liquidation acc),
          mp_equity_mid_tick =
            (if open_ps = [] then cl_cash_tick cash else wrap_i64 (cl_cash_tick cash + vs_mid_value acc)),
          mp_equity_liquidation_tick =
            (if open_ps = [] then cl_cash_tick cash
             else wrap_i64 (cl_cash_tick cash + vs_liquidation_value acc)),
          mp_cash_tick = cl_cash_tick cash, mp_fees_paid_tick = cl_fees_paid_tick cash,
          mp_maker_fill_count = pg_maker_fill_count l,
          mp_mark_quality = (if open_ps = [] then MQ_NoPosition else vs_quality acc)\<rparr>)"


subsection \<open>Runs of fills\<close>

datatype LedgerEvent = ExecutionFill FillApplication | QuoteFill PaperFill

definition ledger_step :: "PaperLedger \<Rightarrow> LedgerEvent \<Rightarrow> PaperLedgerApplyResult \<times> PaperLedger" where
  "ledger_step l e =
     (case e of ExecutionFill fill \<Rightarrow> apply_execution_fill l fill | QuoteFill fill \<Rightarrow> apply_paper_fill l fill)"

definition run_ledger :: "PaperLedger \<Rightarrow> LedgerEvent list \<Rightarrow> PaperLedger" where
  "run_ledger = foldl (\<lambda>l e. snd (ledger_step l e))"

text \<open>Quantity, price, fee and side of an event, negative quantities, prices and fees counted as 0.\<close>

fun event_lots :: "LedgerEvent \<Rightarrow> int" where
  "event_lots (ExecutionFill fill) = max 0 (xr_filled_lots (fa_report fill))"
| "event_lots (QuoteFill fill) = max 0 (pl_qty_lots fill)"

fun event_gross :: "LedgerEvent \<Rightarrow> int" where
  "event_gross (ExecutionFill fill) =
     max 0 (xr_filled_lots (fa_report fill)) * max 0 (xr_avg_fill_price_tick (fa_report fill))"
| "event_gross (QuoteFill fill) = max 0 (pl_qty_lots fill) * max 0 (pl_fill_price_tick fill)"

fun event_fee :: "LedgerEvent \<Rightarrow> int" where
  "event_fee (ExecutionFill fill) = max 0 (fa_fee_tick fill)"
| "event_fee (QuoteFill fill) = max 0 (pl_fee_tick fill)"

fun event_buys :: "LedgerEvent \<Rightarrow> bool" where
  "event_buys (ExecutionFill fill) \<longleftrightarrow> fa_side fill = OrderBuy"
| "event_buys (QuoteFill fill) \<longleftrightarrow> pl_side fill = OrderBuy"

definition turnover :: "LedgerEvent list \<Rightarrow> int" where
  "turnover events = (\<Sum>e\<leftarrow>events. event_gross e + event_fee e)"

definition bought_lots :: "LedgerEvent list \<Rightarrow> int" where
  "bought_lots events = (\<Sum>e\<leftarrow>events. if event_buys e then event_lots e else 0)"

definition over_positions :: "(Position \<Rightarrow> int) \<Rightarrow> PaperLedger \<Rightarrow> int" where
  "over_positions f l = (\<Sum>e\<leftarrow>pg_positions l. f (snd e))"

text \<open>Two purchases and the sale of everything bought.\<close>

definition sample_fill :: "u64 \<Rightarrow> OrderSide \<Rightarrow> int \<Rightarrow> int \<Rightarrow> PaperFill" where
  "sample_fill fill_id side qty_lots tick =
     \<lparr>pl_fill_id = fill_id, pl_report_id = fill_id, pl_plan_id = 1, pl_order_id = 1, pl_quote_id = 0,
      pl_approved_quote_id = 0, pl_quote_group_id = 0, pl_asset_index = 1, pl_asset_id = ''a'', pl_side = side,
      pl_liquidity_role = RoleMaker, pl_qty_lots = qty_lots, pl_fill_price_tick = tick, pl_fee_tick = 1,
      pl_ts_ns = 0, pl_idempotency_hash = 0\<rparr>"

definition sample_fills :: "LedgerEvent list" where
  "sample_fills = [QuoteFill (sample_fill 1 OrderBuy 2 100), QuoteFill (sample_fill 2 OrderBuy 1 101),
     QuoteFill (sample_fill 2 OrderBuy 1 101), QuoteFill (sample_fill 3 OrderSell 3 110)]"

text \<open>The events of a run that were applied, and the numbers that identify them.\<close>

primrec applied_events :: "PaperLedger \<Rightarrow> LedgerEvent list \<Rightarrow> LedgerEvent list" where
  "applied_events l [] = []"
| "applied_events l (e # events) =
     (if lr_applied (fst (ledger_step l e)) then [e] else []) @ applied_events (snd (ledger_step l e)) events"

definition execution_report_ids :: "LedgerEvent list \<Rightarrow> u64 list" where
  "execution_report_ids events =
     concat (map (\<lambda>e. case e of ExecutionFill f \<Rightarrow> [derive_execution_report_id f] | QuoteFill _ \<Rightarrow> []) events)"

definition quote_fill_ids :: "LedgerEvent list \<Rightarrow> u64 list" where
  "quote_fill_ids events = concat (map (\<lambda>e. case e of ExecutionFill _ \<Rightarrow> [] | QuoteFill f \<Rightarrow> [pl_fill_id f]) events)"

definition quote_report_ids :: "LedgerEvent list \<Rightarrow> u64 list" where
  "quote_report_ids events =
     concat (map (\<lambda>e. case e of ExecutionFill _ \<Rightarrow> []
       | QuoteFill f \<Rightarrow> if pl_report_id f = 0 then [] else [pl_report_id f]) events)"

subsection \<open>The books balance\<close>

text \<open>A position is never short, its average is its basis per lot, and a closed one has no basis left.\<close>

definition position_ok :: "Position \<Rightarrow> bool" where
  "position_ok p \<longleftrightarrow>
     0 \<le> po_qty_lots p \<and> 0 \<le> po_cost_basis_tick p \<and>
     (if po_qty_lots p = 0 then po_cost_basis_tick p = 0 \<and> po_avg_cost_tick p = 0
      else po_avg_cost_tick p = po_cost_basis_tick p div po_qty_lots p)"

text \<open>What the ledger has not accounted for: the remainder of the basis dropped by closing sales.\<close>

definition unaccounted :: "PaperLedger \<Rightarrow> int" where
  "unaccounted l =
     cl_starting_cash_tick (pg_cash l) + over_positions po_realized_pnl_tick l - cl_fees_paid_tick (pg_cash l)
       - cl_cash_tick (pg_cash l) - over_positions po_cost_basis_tick l"

text \<open>An entry of the positions after a turnover of \<open>t\<close>.\<close>

definition entry_ok :: "int \<Rightarrow> string \<Rightarrow> Position \<Rightarrow> bool" where
  "entry_ok t k p \<longleftrightarrow> position_ok p \<and> k \<noteq> [] \<and>
     po_realized_pnl_tick p \<le> t \<and> - t \<le> po_realized_pnl_tick p - po_cost_basis_tick p"

text \<open>The balance after fills of turnover \<open>t\<close> that bought \<open>q\<close> lots, with bounds that exclude overflow.\<close>

definition balanced :: "int \<Rightarrow> int \<Rightarrow> PaperLedger \<Rightarrow> bool" where
  "balanced t q l \<longleftrightarrow>
     map_sorted (<) (pg_positions l) \<and>
     (\<forall>(k, p) \<in> set (pg_positions l). entry_ok t k p) \<and>
     0 \<le> unaccounted l \<and> unaccounted l + over_positions po_qty_lots l \<le> q \<and>
     over_positions po_cost_basis_tick l \<le> t \<and>
     over_positions po_realized_pnl_tick l \<le> t \<and>
     - t \<le> over_positions po_realized_pnl_tick l - over_positions po_cost_basis_tick l - cl_fees_paid_tick (pg_cash l) \<and>
     0 \<le> cl_fees_paid_tick (pg_cash l) \<and> cl_fees_paid_tick (pg_cash l) \<le> t \<and>
     \<bar>cl_cash_tick (pg_cash l) - cl_starting_cash_tick (pg_cash l)\<bar> \<le> t \<and>
     over_positions po_realized_pnl_tick l - cl_fees_paid_tick (pg_cash l) \<le> cl_realized_pnl_tick (pg_cash l) \<and>
     cl_realized_pnl_tick (pg_cash l) \<le> over_positions po_realized_pnl_tick l"

definition position_at :: "PaperLedger \<Rightarrow> string \<Rightarrow> Position" where
  "position_at l key = (case map_of (pg_positions l) key of None \<Rightarrow> default_position | Some p \<Rightarrow> p)"

lemma default_position_fields [simp]:
  "po_qty_lots default_position = 0" "po_cost_basis_tick default_position = 0"
  "po_avg_cost_tick default_position = 0" "po_realized_pnl_tick default_position = 0"
  by (simp_all add: default_position_def)

lemma position_ok_default [simp]: "position_ok default_position"
  by (simp add: position_ok_def)

lemma over_positions_update:
  assumes "map_sorted (<) (pg_positions l)" and "g default_position = 0"
  shows "over_positions g (l\<lparr>pg_positions := update_position key f (pg_positions l)\<rparr>) =
    over_positions g l - g (position_at l key) + g (f (position_at l key))"
  using ascending.sum_update [OF assms(1), of g key] assms(2)
  by (simp add: over_positions_def update_position_def position_at_def split: option.splits)

lemma over_positions_nonneg:
  assumes "\<forall>(k, p) \<in> set (pg_positions l). 0 \<le> g p"
  shows "0 \<le> over_positions g l"
  unfolding over_positions_def using assms by (intro sum_list_nonneg) auto

lemma position_at_le:
  assumes "\<forall>(k, p) \<in> set (pg_positions l). 0 \<le> g p" and "g default_position = 0"
  shows "g (position_at l key) \<le> over_positions g l"
proof (cases "map_of (pg_positions l) key")
  case None
  then show ?thesis
    using over_positions_nonneg [OF assms(1)] assms(2) by (simp add: position_at_def)
next
  case (Some p)
  then have "g p \<in> set (map (\<lambda>e. g (snd e)) (pg_positions l))"
    by (force dest: map_of_SomeD)
  then have "g p \<le> (\<Sum>e\<leftarrow>pg_positions l. g (snd e))"
    by (rule member_le_sum_list) (use assms(1) in auto)
  then show ?thesis
    using Some by (simp add: position_at_def over_positions_def)
qed

lemma positions_after_update:
  assumes "\<forall>(k, p) \<in> set ps. P k p" and "P key (f (case map_of ps key of None \<Rightarrow> default_position | Some p \<Rightarrow> p))"
    and "map_sorted (<) ps"
  shows "\<forall>(k, p) \<in> set (update_position key f ps). P k p"
proof (clarify)
  fix k p
  assume mem: "(k, p) \<in> set (update_position key f ps)"
  have "map_of (update_position key f ps) k = Some p"
    using mem ascending.lookup_iff [OF ascending.sorted_update [OF assms(3)]] by (simp add: update_position_def)
  then have "if k = key then p = f (case map_of ps key of None \<Rightarrow> default_position | Some p \<Rightarrow> p) else map_of ps k = Some p"
    by (simp add: update_position_def ascending.lookup_update [OF assms(3)] split: if_splits)
  then show "P k p"
    using assms(1,2) by (auto split: if_splits dest: map_of_SomeD)
qed

lemma balanced_cong:
  "pg_cash l = pg_cash l' \<Longrightarrow> pg_positions l = pg_positions l' \<Longrightarrow> balanced t q l \<longleftrightarrow> balanced t q l'"
  by (simp add: balanced_def unaccounted_def over_positions_def)

lemma entry_ok_mono: "entry_ok t k p \<Longrightarrow> t \<le> t' \<Longrightarrow> entry_ok t' k p"
  by (simp add: entry_ok_def)

lemma balanced_mono: "balanced t q l \<Longrightarrow> t \<le> t' \<Longrightarrow> q \<le> q' \<Longrightarrow> balanced t' q' l"
  using entry_ok_mono [of t _ _ t'] unfolding balanced_def by fastforce

lemma balanced_initial: "balanced 0 0 (make_paper_ledger start)"
  by (simp add: balanced_def unaccounted_def over_positions_def make_paper_ledger_def)

lemma balanced_position:
  assumes "balanced t q l"
  shows "position_ok (position_at l key)"
    and "po_qty_lots (position_at l key) \<le> q" and "po_cost_basis_tick (position_at l key) \<le> t"
    and "po_realized_pnl_tick (position_at l key) \<le> t"
    and "- t \<le> po_realized_pnl_tick (position_at l key) - po_cost_basis_tick (position_at l key)"
proof -
  have all: "\<forall>(k, p) \<in> set (pg_positions l). position_ok p" and "0 \<le> t"
    using assms by (auto simp: balanced_def entry_ok_def)
  then have "\<forall>(k, p) \<in> set (pg_positions l). 0 \<le> po_qty_lots p" "\<forall>(k, p) \<in> set (pg_positions l). 0 \<le> po_cost_basis_tick p"
    by (auto simp: position_ok_def)
  from position_at_le [OF this(1), of key] position_at_le [OF this(2), of key]
  show "po_qty_lots (position_at l key) \<le> q" "po_cost_basis_tick (position_at l key) \<le> t"
    using assms by (auto simp: balanced_def)
  show "position_ok (position_at l key)" "po_realized_pnl_tick (position_at l key) \<le> t"
    "- t \<le> po_realized_pnl_tick (position_at l key) - po_cost_basis_tick (position_at l key)"
    using assms all \<open>0 \<le> t\<close> by (auto simp: position_at_def balanced_def entry_ok_def split: option.splits dest!: map_of_SomeD)
qed

lemma buy_position_ok:
  assumes "position_ok p" and "0 < n" and "0 \<le> c"
    and "po_qty_lots p + n \<le> i64_max" and "po_cost_basis_tick p + c \<le> i64_max"
  shows "po_qty_lots (buy_position a i n c p) = po_qty_lots p + n"
    and "po_cost_basis_tick (buy_position a i n c p) = po_cost_basis_tick p + c"
    and "po_realized_pnl_tick (buy_position a i n c p) = po_realized_pnl_tick p"
    and "position_ok (buy_position a i n c p)"
proof -
  have nonneg: "0 \<le> po_qty_lots p" "0 \<le> po_cost_basis_tick p"
    using assms(1) by (auto simp: position_ok_def)
  then have "wrap_i64 (po_qty_lots p + n) = po_qty_lots p + n"
    and "wrap_i64 (po_cost_basis_tick p + c) = po_cost_basis_tick p + c"
    using assms by (auto intro!: wrap_i64_id simp: in_i64_nonneg)
  then show "po_qty_lots (buy_position a i n c p) = po_qty_lots p + n"
    and "po_cost_basis_tick (buy_position a i n c p) = po_cost_basis_tick p + c"
    and "po_realized_pnl_tick (buy_position a i n c p) = po_realized_pnl_tick p"
    and "position_ok (buy_position a i n c p)"
    using nonneg assms by (auto simp: buy_position_def position_ok_def Let_def sdiv_nonneg)
qed

text \<open>The totals after one position changed, in terms of that position.\<close>

lemma balanced_update:
  assumes "balanced t q l" and "map_sorted (<) (pg_positions l)"
    and p: "p = position_at l key" and p': "p' = f p" and "position_ok p'" and "key \<noteq> []"
    and basis: "po_cost_basis_tick p' - po_cost_basis_tick p \<le> dt"
    and realized: "po_realized_pnl_tick p' - po_realized_pnl_tick p \<le> dt"
    and basis_after: "po_cost_basis_tick p' - po_cost_basis_tick p + fee \<le> po_realized_pnl_tick p' - po_realized_pnl_tick p + dt"
    and cash: "\<bar>cl_cash_tick c - cl_cash_tick (pg_cash l)\<bar> \<le> dt"
    and fees: "cl_fees_paid_tick c = cl_fees_paid_tick (pg_cash l) + fee" "0 \<le> fee" "fee \<le> dt"
    and start: "cl_starting_cash_tick c = cl_starting_cash_tick (pg_cash l)"
    and cash_realized: "po_realized_pnl_tick p' - po_realized_pnl_tick p - fee \<le> cl_realized_pnl_tick c - cl_realized_pnl_tick (pg_cash l)"
      "cl_realized_pnl_tick c - cl_realized_pnl_tick (pg_cash l) \<le> po_realized_pnl_tick p' - po_realized_pnl_tick p"
    and slack: "lost = po_realized_pnl_tick p' - po_realized_pnl_tick p - fee
        - (cl_cash_tick c - cl_cash_tick (pg_cash l)) - (po_cost_basis_tick p' - po_cost_basis_tick p)"
      "0 \<le> lost" "lost + (po_qty_lots p' - po_qty_lots p) \<le> dq"
  shows "balanced (t + dt) (q + dq)
    (l\<lparr>pg_cash := c, pg_positions := update_position key f (pg_positions l)\<rparr>)"
    (is "balanced _ _ ?l")
proof -
  have sum: "over_positions g ?l = over_positions g l - g p + g p'" if "g default_position = 0" for g
    using over_positions_update [OF assms(2), of g key f] that p p' by (simp add: over_positions_def)
  note sums = sum [of po_qty_lots] sum [of po_cost_basis_tick] sum [of po_realized_pnl_tick]
  have at: "position_ok p" "po_realized_pnl_tick p \<le> t" "- t \<le> po_realized_pnl_tick p - po_cost_basis_tick p"
    using balanced_position [OF assms(1)] p by auto
  have "\<forall>(k, p) \<in> set (pg_positions l). entry_ok (t + dt) k p"
    using balanced_mono [OF assms(1), of "t + dt" q] fees by (simp add: balanced_def)
  moreover have "entry_ok (t + dt) key p'"
    using assms(5,6) at basis realized basis_after fees by (simp add: entry_ok_def)
  ultimately have all: "\<forall>(k, p) \<in> set (pg_positions ?l). entry_ok (t + dt) k p"
    using p p' positions_after_update [OF _ _ assms(2), of "entry_ok (t + dt)" key f] by (simp add: position_at_def)
  have sorted: "map_sorted (<) (pg_positions ?l)"
    by (simp add: update_position_def ascending.sorted_update [OF assms(2)])
  have old: "0 \<le> unaccounted l" "unaccounted l + over_positions po_qty_lots l \<le> q"
     "over_positions po_cost_basis_tick l \<le> t" "over_positions po_realized_pnl_tick l \<le> t"
     "- t \<le> over_positions po_realized_pnl_tick l - over_positions po_cost_basis_tick l - cl_fees_paid_tick (pg_cash l)"
     "0 \<le> cl_fees_paid_tick (pg_cash l)" "cl_fees_paid_tick (pg_cash l) \<le> t"
     "\<bar>cl_cash_tick (pg_cash l) - cl_starting_cash_tick (pg_cash l)\<bar> \<le> t"
     "over_positions po_realized_pnl_tick l - cl_fees_paid_tick (pg_cash l) \<le> cl_realized_pnl_tick (pg_cash l)"
     "cl_realized_pnl_tick (pg_cash l) \<le> over_positions po_realized_pnl_tick l"
    using assms(1) unfolding balanced_def by blast+
  have new_slack: "unaccounted ?l = unaccounted l + lost"
    using sums slack(1) fees(1) start by (simp add: unaccounted_def)
  show ?thesis
    unfolding balanced_def new_slack
    using sorted all old slack fees start cash cash_realized basis realized basis_after sums by simp
qed

lemma balanced_buy:
  assumes "balanced t q l" and "asset \<noteq> []" and "0 < n" and "0 \<le> c" and "0 \<le> fee"
    and fits: "\<bar>cl_starting_cash_tick (pg_cash l)\<bar> + t + c + fee \<le> i64_max" "q + n \<le> i64_max"
  shows "balanced (t + (c + fee)) (q + n)
    (l\<lparr>pg_cash := pay c fee (pg_cash l), pg_positions := apply_buy (pg_positions l) asset i n c\<rparr>)"
proof -
  let ?p = "position_at l asset"
  note at = balanced_position [OF assms(1), of asset]
  have p': "po_qty_lots (buy_position asset i n c ?p) = po_qty_lots ?p + n"
    "po_cost_basis_tick (buy_position asset i n c ?p) = po_cost_basis_tick ?p + c"
    "po_realized_pnl_tick (buy_position asset i n c ?p) = po_realized_pnl_tick ?p"
    "position_ok (buy_position asset i n c ?p)"
    using at fits assms(3-5) by (intro buy_position_ok; simp)+
  have cash: "\<bar>cl_cash_tick (pg_cash l) - cl_starting_cash_tick (pg_cash l)\<bar> \<le> t"
      "0 \<le> cl_fees_paid_tick (pg_cash l)" "cl_fees_paid_tick (pg_cash l) \<le> t"
    using assms(1) by (auto simp: balanced_def)
  have "wrap_i64 (cl_cash_tick (pg_cash l) - (c + fee)) = cl_cash_tick (pg_cash l) - (c + fee)"
    "wrap_i64 (cl_fees_paid_tick (pg_cash l) + fee) = cl_fees_paid_tick (pg_cash l) + fee"
    using cash fits assms(4,5) by (auto intro!: wrap_i64_id simp: in_i64_def i64_bounds)
  then have pay: "cl_cash_tick (pay c fee (pg_cash l)) = cl_cash_tick (pg_cash l) - (c + fee)"
    "cl_fees_paid_tick (pay c fee (pg_cash l)) = cl_fees_paid_tick (pg_cash l) + fee"
    "cl_starting_cash_tick (pay c fee (pg_cash l)) = cl_starting_cash_tick (pg_cash l)"
    "cl_realized_pnl_tick (pay c fee (pg_cash l)) = cl_realized_pnl_tick (pg_cash l)"
    by (simp_all add: pay_def)
  show ?thesis
    unfolding apply_buy_def
    by (rule balanced_update [OF assms(1) _ refl refl, where lost = 0 and fee = fee])
      (use assms p' pay in \<open>simp_all add: balanced_def\<close>)
qed

lemma sell_position_ok:
  fixes i :: u32
  assumes ok: "position_ok p" and n: "0 < n" "n \<le> po_qty_lots p" and s: "0 \<le> s"
    and fits: "- t \<le> po_realized_pnl_tick p - po_cost_basis_tick p" "po_realized_pnl_tick p \<le> t"
      "po_cost_basis_tick p \<le> t" "t + n * s \<le> i64_max" "po_qty_lots p \<le> i64_max"
  defines "sold \<equiv> po_avg_cost_tick p * n" and "p' \<equiv> sell_position i n (sell_profit n s p) p"
  shows "0 \<le> sold" and "sold \<le> po_cost_basis_tick p"
    and "sell_profit n s p = n * s - sold"
    and "po_qty_lots p' = po_qty_lots p - n"
    and "po_realized_pnl_tick p' = po_realized_pnl_tick p + (n * s - sold)"
    and "po_cost_basis_tick p' = (if po_qty_lots p = n then 0 else po_cost_basis_tick p - sold)"
    and "po_qty_lots p = n \<Longrightarrow> po_cost_basis_tick p - sold < n"
    and "position_ok p'"
proof -
  let ?q = "po_qty_lots p" and ?b = "po_cost_basis_tick p" and ?a = "po_avg_cost_tick p"
  have q: "0 < ?q" and b: "0 \<le> ?b" and a: "?a = ?b div ?q"
    using ok n by (auto simp: position_ok_def)
  have a0: "0 \<le> ?a"
    using q b unfolding a by (simp add: pos_imp_zdiv_nonneg_iff)
  have split: "?q * ?a + ?b mod ?q = ?b"
    unfolding a by simp
  then have aq: "?a * ?q \<le> ?b" and mod: "?b - ?a * ?q < ?q"
    using pos_mod_bound [OF q, of ?b] pos_mod_sign [OF q, of ?b] by (simp_all only: mult.commute)
  show sold0: "0 \<le> sold"
    using a0 n by (simp add: sold_def)
  have "sold \<le> ?a * ?q"
    unfolding sold_def using a0 n by (intro mult_left_mono) auto
  then show soldb: "sold \<le> ?b"
    using aq by simp
  show rem: "?b - sold < n" if "?q = n"
    using mod that by (simp add: sold_def)
  have sn: "s \<le> n * s" "?a \<le> sold"
    using n s a0 mult_right_mono [of 1 n s] mult_right_mono [of 1 n ?a] by (simp_all add: sold_def mult.commute)
  have price: "wrap_i64 (s - ?a) = s - ?a"
    using sn soldb fits a0 s b by (intro wrap_i64_id) (simp add: in_i64_def i64_bounds)
  have prod: "(s - ?a) * n = n * s - sold"
    by (simp add: sold_def algebra_simps)
  have "wrap_i64 ((s - ?a) * n) = n * s - sold"
    unfolding prod using sn soldb sold0 fits s b a0 by (intro wrap_i64_id) (simp add: in_i64_def i64_bounds)
  then show profit: "sell_profit n s p = n * s - sold"
    by (simp only: sell_profit_def price)
  have wraps: "wrap_i64 (?q - n) = ?q - n" "wrap_i64 sold = sold" "wrap_i64 (?b - sold) = ?b - sold"
    "wrap_i64 (po_realized_pnl_tick p + (n * s - sold)) = po_realized_pnl_tick p + (n * s - sold)"
    using n q b soldb sold0 fits sn s a0 by (auto intro!: wrap_i64_id simp: in_i64_def i64_bounds)
  show "po_qty_lots p' = ?q - n" and "po_realized_pnl_tick p' = po_realized_pnl_tick p + (n * s - sold)"
    and "po_cost_basis_tick p' = (if ?q = n then 0 else ?b - sold)"
    using wraps by (simp_all add: p'_def sell_position_def Let_def profit flip: sold_def)
  show "position_ok p'"
    using wraps n soldb by (simp add: p'_def sell_position_def Let_def profit position_ok_def sdiv_nonneg flip: sold_def)
qed

lemma apply_sell_applied:
  assumes "apply_sell ps asset i n s = (r, ps')" and "pa_applied r"
  obtains p where "map_of ps asset = Some p" and "n \<le> po_qty_lots p"
    and "ps' = update_position asset (sell_position i n (sell_profit n s p)) ps"
    and "pa_realized_pnl_tick r = sell_profit n s p"
  using assms by (cases "map_of ps asset") (auto simp: apply_sell_def Let_def split: if_splits)

lemma balanced_sell:
  assumes bal: "balanced t q l" and asset: "asset \<noteq> []" and n: "0 < n" and s: "0 \<le> s" and fee: "0 \<le> fee"
    and sale: "apply_sell (pg_positions l) asset i n s = (r, ps)" "pa_applied r"
    and fits: "\<bar>cl_starting_cash_tick (pg_cash l)\<bar> + t + n * s + fee \<le> i64_max" "q \<le> i64_max"
  shows "balanced (t + (n * s + fee)) q
    (l\<lparr>pg_cash := receive_cash (n * s) fee (pa_realized_pnl_tick r) (pg_cash l), pg_positions := ps\<rparr>)"
proof -
  let ?p = "position_at l asset"
  note at = balanced_position [OF bal, of asset]
  obtain p where "map_of (pg_positions l) asset = Some p" and p: "n \<le> po_qty_lots p"
      "ps = update_position asset (sell_position i n (sell_profit n s p)) (pg_positions l)"
      "pa_realized_pnl_tick r = sell_profit n s p"
    by (rule apply_sell_applied [OF sale])
  then have "p = ?p"
    by (simp add: position_at_def)
  note enough = p(1) [unfolded this] and ps = p(2) [unfolded this] and r = p(3) [unfolded this]
  have ns: "0 \<le> n * s"
    using n s by simp
  have "t + n * s \<le> i64_max" "po_qty_lots ?p \<le> i64_max"
    using fits fee at(2) by auto
  note sold = sell_position_ok [OF at(1) n enough s at(5,4,3) this]
  have cash: "\<bar>cl_cash_tick (pg_cash l) - cl_starting_cash_tick (pg_cash l)\<bar> \<le> t"
      "0 \<le> cl_fees_paid_tick (pg_cash l)" "cl_fees_paid_tick (pg_cash l) \<le> t"
      "over_positions po_realized_pnl_tick l - cl_fees_paid_tick (pg_cash l) \<le> cl_realized_pnl_tick (pg_cash l)"
      "cl_realized_pnl_tick (pg_cash l) \<le> over_positions po_realized_pnl_tick l"
      "over_positions po_realized_pnl_tick l \<le> t"
      "- t \<le> over_positions po_realized_pnl_tick l - over_positions po_cost_basis_tick l - cl_fees_paid_tick (pg_cash l)"
    using bal by (auto simp: balanced_def)
  have "\<forall>(k, p) \<in> set (pg_positions l). 0 \<le> po_cost_basis_tick p"
    using bal by (auto simp: balanced_def entry_ok_def position_ok_def)
  then have basis: "po_cost_basis_tick ?p \<le> over_positions po_cost_basis_tick l"
    by (intro position_at_le) auto
  have limits: "\<bar>cl_starting_cash_tick (pg_cash l)\<bar> + t + n * s + fee \<le> 9223372036854775807"
    using fits(1) by (simp add: i64_max_def)
  have "in_i64 (cl_cash_tick (pg_cash l) + (n * s - fee))" "in_i64 (cl_fees_paid_tick (pg_cash l) + fee)"
    "in_i64 (cl_realized_pnl_tick (pg_cash l) + (sell_profit n s ?p - fee))"
    using sold(1-3) cash basis limits fee ns unfolding in_i64_def i64_bounds by linarith+
  note this [THEN wrap_i64_id]
  then have received: "cl_cash_tick (receive_cash (n * s) fee (sell_profit n s ?p) (pg_cash l)) = cl_cash_tick (pg_cash l) + (n * s - fee)"
    "cl_fees_paid_tick (receive_cash (n * s) fee (sell_profit n s ?p) (pg_cash l)) = cl_fees_paid_tick (pg_cash l) + fee"
    "cl_starting_cash_tick (receive_cash (n * s) fee (sell_profit n s ?p) (pg_cash l)) = cl_starting_cash_tick (pg_cash l)"
    "cl_realized_pnl_tick (receive_cash (n * s) fee (sell_profit n s ?p) (pg_cash l)) =
       cl_realized_pnl_tick (pg_cash l) + (sell_profit n s ?p - fee)"
    by (simp_all add: receive_cash_def)
  have "balanced (t + (n * s + fee)) (q + 0)
    (l\<lparr>pg_cash := receive_cash (n * s) fee (sell_profit n s ?p) (pg_cash l),
       pg_positions := update_position asset (sell_position i n (sell_profit n s ?p)) (pg_positions l)\<rparr>)"
    by (rule balanced_update [OF bal _ refl refl, where fee = fee and
          lost = "if po_qty_lots ?p = n then po_cost_basis_tick ?p - po_avg_cost_tick ?p * n else 0"])
      (use bal asset n sold fee ns received at(1) in \<open>auto simp: balanced_def\<close>)
  then show ?thesis
    by (simp add: ps r)
qed

text \<open>What one fill does to cash and positions.\<close>

lemma execution_fill_effect:
  assumes "apply_execution_fill l fill = (r, l')"
  obtains (ignored) "\<not> lr_applied r" "pg_cash l' = pg_cash l" "pg_positions l' = pg_positions l"
  | (bought) "lr_applied r" "fa_side fill = OrderBuy" "0 < xr_filled_lots (fa_report fill)"
      "0 \<le> xr_avg_fill_price_tick (fa_report fill)" "0 \<le> fa_fee_tick fill" "fa_asset_id fill \<noteq> []"
      "pg_cash l' = pay (wrap_i64 (xr_filled_lots (fa_report fill) * xr_avg_fill_price_tick (fa_report fill)))
         (fa_fee_tick fill) (pg_cash l)"
      "pg_positions l' = apply_buy (pg_positions l) (fa_asset_id fill) (fa_asset_index fill)
         (xr_filled_lots (fa_report fill))
         (wrap_i64 (xr_filled_lots (fa_report fill) * xr_avg_fill_price_tick (fa_report fill)))"
proof (cases "lr_applied r")
  case True
  then show ?thesis
    using assms by (intro bought; cases "fa_side fill")
      (auto simp: apply_execution_fill_def ledger_result_def Let_def split: if_splits)
next
  case False
  then show ?thesis
    using assms by (intro ignored)
      (auto simp: apply_execution_fill_def ledger_result_def Let_def split: if_splits)
qed

lemma apply_sell_refused: "apply_sell ps asset i n s = (r, ps') \<Longrightarrow> \<not> pa_applied r \<Longrightarrow> ps' = ps"
  by (cases "map_of ps asset") (auto simp: apply_sell_def Let_def split: if_splits)

lemma record_paper_fill_books [simp]:
  "pg_cash (record_paper_fill fill l) = pg_cash l" "pg_positions (record_paper_fill fill l) = pg_positions l"
  by (simp_all add: record_paper_fill_def)

lemma paper_fill_effect:
  assumes "apply_paper_fill l fill = (r, l')"
  obtains (ignored) "\<not> lr_applied r" "pg_cash l' = pg_cash l" "pg_positions l' = pg_positions l"
  | (bought) "lr_applied r" "pl_side fill = OrderBuy" "0 < pl_qty_lots fill"
      "0 \<le> pl_fill_price_tick fill" "0 \<le> pl_fee_tick fill" "pl_asset_id fill \<noteq> []"
      "pg_cash l' = pay (wrap_i64 (pl_qty_lots fill * pl_fill_price_tick fill)) (pl_fee_tick fill) (pg_cash l)"
      "pg_positions l' = apply_buy (pg_positions l) (pl_asset_id fill) (pl_asset_index fill) (pl_qty_lots fill)
         (wrap_i64 (pl_qty_lots fill * pl_fill_price_tick fill))"
  | (sold) s ps where "lr_applied r" "pl_side fill = OrderSell" "0 < pl_qty_lots fill"
      "0 \<le> pl_fill_price_tick fill" "0 \<le> pl_fee_tick fill" "pl_asset_id fill \<noteq> []"
      "apply_sell (pg_positions l) (pl_asset_id fill) (pl_asset_index fill) (pl_qty_lots fill)
         (pl_fill_price_tick fill) = (s, ps)" "pa_applied s"
      "pg_cash l' = receive_cash (wrap_i64 (pl_qty_lots fill * pl_fill_price_tick fill)) (pl_fee_tick fill)
         (pa_realized_pnl_tick s) (pg_cash l)"
      "pg_positions l' = ps"
proof -
  obtain s ps where sale: "apply_sell (pg_positions l) (pl_asset_id fill) (pl_asset_index fill) (pl_qty_lots fill)
         (pl_fill_price_tick fill) = (s, ps)"
    by fastforce
  note eqs = apply_paper_fill_def ledger_result_def Let_def sale
  consider "\<not> lr_applied r" | "lr_applied r" "pl_side fill = OrderBuy" | "lr_applied r" "pl_side fill = OrderSell"
    by (cases "pl_side fill") auto
  then show ?thesis
  proof cases
    case 1
    then show ?thesis
      using assms apply_sell_refused [OF sale]
      by (intro ignored; cases "pl_side fill") (auto simp: eqs split: if_splits)
  next
    case 2
    then show ?thesis
      using assms by (intro bought) (auto simp: eqs split: if_splits)
  next
    case 3
    then show ?thesis
      using assms by (intro sold [OF _ _ _ _ _ _ sale]) (auto simp: eqs split: if_splits)
  qed
qed

lemma event_nonneg: "0 \<le> event_gross e" "0 \<le> event_fee e" "0 \<le> event_lots e"
  by (cases e; simp)+

lemma balanced_step:
  assumes bal: "balanced t q l"
    and fits: "\<bar>cl_starting_cash_tick (pg_cash l)\<bar> + t + event_gross e + event_fee e \<le> i64_max"
      "q + (if event_buys e then event_lots e else 0) \<le> i64_max"
  shows "balanced (t + (event_gross e + event_fee e)) (q + (if event_buys e then event_lots e else 0))
      (snd (ledger_step l e))"
proof -
  have same: "balanced (t + (event_gross e + event_fee e)) (q + (if event_buys e then event_lots e else 0)) l'"
    if "pg_cash l' = pg_cash l" "pg_positions l' = pg_positions l" for l'
    using balanced_mono [OF bal] event_nonneg [of e] unfolding balanced_cong [OF that] by simp
  have t: "0 \<le> t"
    using bal by (simp add: balanced_def)
  have gross: "wrap_i64 (event_gross e) = event_gross e"
    using fits(1) t event_nonneg [of e] by (intro wrap_i64_id) (simp add: in_i64_nonneg)
  show ?thesis
  proof (cases e)
    case (ExecutionFill fill)
    obtain r l' where step: "apply_execution_fill l fill = (r, l')"
      by fastforce
    from step show ?thesis
    proof (cases rule: execution_fill_effect)
      case ignored
      then show ?thesis
        using same [of l'] by (simp add: ledger_step_def ExecutionFill step)
    next
      case bought
      then show ?thesis
        using balanced_buy [OF bal, of "fa_asset_id fill" "event_lots e" "event_gross e" "event_fee e" "fa_asset_index fill"]
          fits gross event_nonneg [of e] ExecutionFill
        by (subst balanced_cong) (simp_all add: ledger_step_def step)
    qed
  next
    case (QuoteFill fill)
    obtain r l' where step: "apply_paper_fill l fill = (r, l')"
      by fastforce
    from step show ?thesis
    proof (cases rule: paper_fill_effect)
      case ignored
      then show ?thesis
        using same [of l'] by (simp add: ledger_step_def QuoteFill step)
    next
      case bought
      then show ?thesis
        using balanced_buy [OF bal, of "pl_asset_id fill" "event_lots e" "event_gross e" "event_fee e" "pl_asset_index fill"]
          fits gross event_nonneg [of e] QuoteFill
        by (subst balanced_cong) (simp_all add: ledger_step_def step)
    next
      case (sold s ps)
      then show ?thesis
        using balanced_sell [OF bal, of "pl_asset_id fill" "event_lots e" "pl_fill_price_tick fill" "event_fee e"
            "pl_asset_index fill" s ps] fits gross QuoteFill
        by (subst balanced_cong) (simp_all add: ledger_step_def step)
    qed
  qed
qed

lemma starting_cash_step:
  "cl_starting_cash_tick (pg_cash (snd (ledger_step l e))) = cl_starting_cash_tick (pg_cash l)"
proof (cases e)
  case (ExecutionFill fill)
  obtain r l' where step: "apply_execution_fill l fill = (r, l')"
    by fastforce
  then show ?thesis
    by (cases rule: execution_fill_effect) (simp_all add: ledger_step_def ExecutionFill pay_def step)
next
  case (QuoteFill fill)
  obtain r l' where step: "apply_paper_fill l fill = (r, l')"
    by fastforce
  then show ?thesis
    by (cases rule: paper_fill_effect) (simp_all add: ledger_step_def QuoteFill pay_def receive_cash_def step)
qed

lemma turnover_simps [simp]:
  "turnover [] = 0" "turnover (e # events) = event_gross e + event_fee e + turnover events"
  "bought_lots [] = 0" "bought_lots (e # events) = (if event_buys e then event_lots e else 0) + bought_lots events"
  by (simp_all add: turnover_def bought_lots_def)

lemma turnover_nonneg: "0 \<le> turnover events" "0 \<le> bought_lots events"
  using event_nonneg by (induction events) (auto intro!: add_nonneg_nonneg)

lemma balanced_run:
  "balanced t q l \<Longrightarrow> \<bar>cl_starting_cash_tick (pg_cash l)\<bar> + t + turnover events \<le> i64_max \<Longrightarrow>
   q + bought_lots events \<le> i64_max \<Longrightarrow>
   balanced (t + turnover events) (q + bought_lots events) (run_ledger l events) \<and>
   cl_starting_cash_tick (pg_cash (run_ledger l events)) = cl_starting_cash_tick (pg_cash l)"
proof (induction events arbitrary: t q l)
  case Nil
  then show ?case by (simp add: run_ledger_def)
next
  case (Cons e events)
  let ?l = "snd (ledger_step l e)"
  have "balanced (t + (event_gross e + event_fee e)) (q + (if event_buys e then event_lots e else 0)) ?l"
    using Cons.prems turnover_nonneg [of events] by (intro balanced_step) auto
  from Cons.IH [OF this] show ?case
    using Cons.prems by (simp add: starting_cash_step run_ledger_def algebra_simps)
qed

text \<open>C31: Books balance. As long as starting cash, turnover and bought lots fit into 64 bits, after any
  sequence of execution reports and paper fills no position is short, the average cost is the
  basis per lot, and starting cash plus realised profit minus fees is cash plus the basis held
  plus the remainders dropped by closing sales, which stay below the lots bought and sold again.\<close>

theorem books_balance:
  assumes "\<bar>start\<bar> + turnover events \<le> i64_max" and "bought_lots events \<le> i64_max"
  shows "\<exists>dropped. 0 \<le> dropped \<and>
      dropped \<le> bought_lots events - over_positions po_qty_lots (run_ledger (make_paper_ledger start) events) \<and>
      start + over_positions po_realized_pnl_tick (run_ledger (make_paper_ledger start) events)
          - cl_fees_paid_tick (pg_cash (run_ledger (make_paper_ledger start) events)) =
        cl_cash_tick (pg_cash (run_ledger (make_paper_ledger start) events))
          + over_positions po_cost_basis_tick (run_ledger (make_paper_ledger start) events) + dropped \<and>
      (\<forall>(asset, p) \<in> set (pg_positions (run_ledger (make_paper_ledger start) events)). position_ok p)"
proof -
  let ?l = "run_ledger (make_paper_ledger start) events"
  have bal: "balanced (turnover events) (bought_lots events) ?l" and "cl_starting_cash_tick (pg_cash ?l) = start"
    using balanced_run [OF balanced_initial [of start], of events] assms by (simp_all add: make_paper_ledger_def)
  then show ?thesis
    by (intro exI [of _ "unaccounted ?l"]) (auto simp: balanced_def unaccounted_def entry_ok_def)
qed

lemma sample_fills_fit: "turnover sample_fills = 736" "bought_lots sample_fills = 4"
  by (simp_all add: sample_fills_def sample_fill_def)

text \<open>The closing sale reports a profit of 30, yet cash grew by 26 after fees of 3.\<close>

lemma closing_sale_overstates_profit:
  "over_positions po_realized_pnl_tick (run_ledger (make_paper_ledger 1000) sample_fills) = 30"
  "pg_cash (run_ledger (make_paper_ledger 1000) sample_fills) =
     \<lparr>cl_starting_cash_tick = 1000, cl_cash_tick = 1026, cl_reserved_cash_tick = 0,
      cl_realized_pnl_tick = 29, cl_fees_paid_tick = 3\<rparr>"
  by code_simp+

theorem books_balance_witness:
  "\<exists>dropped. 0 \<le> dropped \<and>
      dropped \<le> 4 - over_positions po_qty_lots (run_ledger (make_paper_ledger 1000) sample_fills) \<and>
      1000 + over_positions po_realized_pnl_tick (run_ledger (make_paper_ledger 1000) sample_fills)
          - cl_fees_paid_tick (pg_cash (run_ledger (make_paper_ledger 1000) sample_fills)) =
        cl_cash_tick (pg_cash (run_ledger (make_paper_ledger 1000) sample_fills))
          + over_positions po_cost_basis_tick (run_ledger (make_paper_ledger 1000) sample_fills) + dropped"
  using books_balance [of 1000 sample_fills] by (auto simp: sample_fills_fit i64_max_def)

subsection \<open>Fills apply once\<close>

lemma set_set_insert [simp]: "set (set_insert x xs) = insert x (set xs)"
  by (auto simp: set_insert_def)

text \<open>The sets of applied numbers after a fill: an applied fill was new and is recorded.\<close>

lemma execution_fill_ids:
  assumes "apply_execution_fill l fill = (r, l')"
  shows "set (pg_applied_execution_report_ids l) \<subseteq> set (pg_applied_execution_report_ids l')"
    and "pg_applied_fill_ids l' = pg_applied_fill_ids l" "pg_applied_maker_report_ids l' = pg_applied_maker_report_ids l"
    and "lr_applied r \<Longrightarrow> derive_execution_report_id fill \<in>
      set (pg_applied_execution_report_ids l') - set (pg_applied_execution_report_ids l)"
  using assms by (auto simp: apply_execution_fill_def ledger_result_def Let_def split: if_splits)

lemma paper_fill_ids:
  assumes "apply_paper_fill l fill = (r, l')"
  shows "pg_applied_execution_report_ids l' = pg_applied_execution_report_ids l"
    and "set (pg_applied_fill_ids l) \<subseteq> set (pg_applied_fill_ids l')"
    and "set (pg_applied_maker_report_ids l) \<subseteq> set (pg_applied_maker_report_ids l')"
    and "lr_applied r \<Longrightarrow> pl_fill_id fill \<in> set (pg_applied_fill_ids l') - set (pg_applied_fill_ids l)"
    and "lr_applied r \<Longrightarrow> pl_report_id fill \<noteq> 0 \<Longrightarrow>
      pl_report_id fill \<in> set (pg_applied_maker_report_ids l') - set (pg_applied_maker_report_ids l)"
  using assms by (auto simp: apply_paper_fill_def ledger_result_def record_paper_fill_def Let_def
      split: if_splits OrderSide.splits prod.splits)

lemma id_lists_simps [simp]:
  "execution_report_ids [] = []" "quote_fill_ids [] = []" "quote_report_ids [] = []"
  "execution_report_ids (ExecutionFill f # events) = derive_execution_report_id f # execution_report_ids events"
  "execution_report_ids (QuoteFill g # events) = execution_report_ids events"
  "quote_fill_ids (ExecutionFill f # events) = quote_fill_ids events"
  "quote_fill_ids (QuoteFill g # events) = pl_fill_id g # quote_fill_ids events"
  "quote_report_ids (ExecutionFill f # events) = quote_report_ids events"
  "quote_report_ids (QuoteFill g # events) =
     (if pl_report_id g = 0 then quote_report_ids events else pl_report_id g # quote_report_ids events)"
  by (simp_all add: execution_report_ids_def quote_fill_ids_def quote_report_ids_def)

lemma applied_ids_new:
  defines "new ids seen \<equiv> distinct ids \<and> set ids \<inter> set seen = {}"
  shows "new (execution_report_ids (applied_events l events)) (pg_applied_execution_report_ids l) \<and>
    new (quote_fill_ids (applied_events l events)) (pg_applied_fill_ids l) \<and>
    new (quote_report_ids (applied_events l events)) (pg_applied_maker_report_ids l)"
proof (induction events arbitrary: l)
  case Nil
  then show ?case by (simp add: new_def)
next
  case (Cons e events)
  show ?case
  proof (cases e)
    case (ExecutionFill fill)
    obtain r l' where step: "apply_execution_fill l fill = (r, l')"
      by fastforce
    show ?thesis
      using Cons.IH [of l'] execution_fill_ids [OF step]
      by (auto simp: new_def ExecutionFill ledger_step_def step)
  next
    case (QuoteFill fill)
    obtain r l' where step: "apply_paper_fill l fill = (r, l')"
      by fastforce
    show ?thesis
      using Cons.IH [of l'] paper_fill_ids [OF step]
      by (auto simp: new_def QuoteFill ledger_step_def step)
  qed
qed

text \<open>A ledger with the same books that has seen no more execution reports.\<close>

definition same_books :: "PaperLedger \<Rightarrow> PaperLedger \<Rightarrow> bool" where
  "same_books l m \<longleftrightarrow>
     pg_cash l = pg_cash m \<and> pg_positions l = pg_positions m \<and>
     set (pg_applied_execution_report_ids l) \<subseteq> set (pg_applied_execution_report_ids m) \<and>
     pg_applied_fill_ids l = pg_applied_fill_ids m \<and>
     pg_applied_maker_report_ids l = pg_applied_maker_report_ids m"

lemma same_books_execution_fill:
  assumes "same_books l m"
  shows "if lr_applied (fst (apply_execution_fill m fill))
    then same_books (snd (apply_execution_fill l fill)) (snd (apply_execution_fill m fill))
    else same_books l (snd (apply_execution_fill m fill))"
  using assms by (auto simp: same_books_def apply_execution_fill_def ledger_result_def Let_def)

lemma same_books_paper_fill:
  assumes "same_books l m"
  shows "if lr_applied (fst (apply_paper_fill m fill))
    then same_books (snd (apply_paper_fill l fill)) (snd (apply_paper_fill m fill))
    else same_books l (snd (apply_paper_fill m fill))"
proof -
  obtain s ps where sale: "apply_sell (pg_positions m) (pl_asset_id fill) (pl_asset_index fill) (pl_qty_lots fill)
         (pl_fill_price_tick fill) = (s, ps)"
    by fastforce
  show ?thesis
    using assms apply_sell_refused [OF sale]
    by (cases "pl_side fill")
      (auto simp: same_books_def apply_paper_fill_def ledger_result_def record_paper_fill_def Let_def sale)
qed

lemma same_books_run:
  "same_books l m \<Longrightarrow> same_books (run_ledger l (applied_events m events)) (run_ledger m events)"
proof (induction events arbitrary: l m)
  case Nil
  then show ?case by (simp add: run_ledger_def)
next
  case (Cons e events)
  have "if lr_applied (fst (ledger_step m e))
    then same_books (snd (ledger_step l e)) (snd (ledger_step m e)) else same_books l (snd (ledger_step m e))"
    using same_books_execution_fill [OF Cons.prems] same_books_paper_fill [OF Cons.prems]
    by (cases e) (simp_all only: ledger_step_def LedgerEvent.case)
  then show ?case
    using Cons.IH by (cases "lr_applied (fst (ledger_step m e))") (simp_all add: run_ledger_def)
qed

text \<open>C32: At most once. In any sequence of execution reports and paper fills, no execution report number, no
  fill number and no report number of a paper fill is applied twice, and cash and positions end
  up as if only the applied ones had been delivered, each once.\<close>

theorem fills_apply_once:
  fixes l :: PaperLedger and events :: "LedgerEvent list"
  defines "applied \<equiv> applied_events l events"
  shows "distinct (execution_report_ids applied) \<and> distinct (quote_fill_ids applied) \<and>
    distinct (quote_report_ids applied) \<and>
    pg_cash (run_ledger l events) = pg_cash (run_ledger l applied) \<and>
    pg_positions (run_ledger l events) = pg_positions (run_ledger l applied)"
proof -
  have "same_books (run_ledger l applied) (run_ledger l events)"
    unfolding applied_def by (rule same_books_run) (simp add: same_books_def)
  then show ?thesis
    using applied_ids_new [of l events] by (simp add: same_books_def applied_def)
qed

subsection \<open>Equity\<close>

definition position_value :: "(MarkPrice \<Rightarrow> i64) \<Rightarrow> MarketDepthView list \<Rightarrow> Position \<Rightarrow> int" where
  "position_value mark views p = po_qty_lots p * mark (mark_of views p)"

lemma wrap_i64_add_diff: "wrap_i64 (a + (wrap_i64 x - y)) = wrap_i64 (a + (x - y))"
  by (metis wrap_i64_add_right wrap_i64_diff_left)

lemma value_positions_sums:
  fixes ps rank views
  defines "v \<equiv> value_positions rank views ps"
  shows "vs_mid_value v = wrap_i64 (\<Sum>p\<leftarrow>ps. position_value mk_mid_mark_tick views p)"
    and "vs_liquidation_value v = wrap_i64 (\<Sum>p\<leftarrow>ps. position_value mk_liquidation_mark_tick views p)"
    and "vs_unrealized_mid v = wrap_i64 (\<Sum>p\<leftarrow>ps. position_value mk_mid_mark_tick views p - po_cost_basis_tick p)"
    and "vs_unrealized_liquidation v =
      wrap_i64 (\<Sum>p\<leftarrow>ps. position_value mk_liquidation_mark_tick views p - po_cost_basis_tick p)"
  unfolding v_def value_positions_def
  by (induction ps rule: rev_induct) (simp_all add: add_position_def Let_def position_value_def [abs_def] wrap_i64_id [of 0] wrap_i64_add_diff)

lemma open_positions_sum:
  assumes "\<forall>(k, p) \<in> set ps. position_ok p" and "\<And>p. po_qty_lots p = 0 \<Longrightarrow> po_cost_basis_tick p = 0 \<Longrightarrow> g p = (0::int)"
  shows "(\<Sum>p\<leftarrow>open_positions ps. g p) = (\<Sum>e\<leftarrow>ps. g (snd e))"
  using assms(1)
proof (induction ps)
  case Nil
  then show ?case by (simp add: open_positions_def)
next
  case (Cons e ps)
  have "g (snd e) = 0" if "\<not> 0 < po_qty_lots (snd e)"
    using Cons.prems that by (intro assms(2)) (auto simp: position_ok_def split: prod.splits if_splits)
  then show ?case
    using Cons by (auto simp: open_positions_def)
qed

text \<open>C33: Equity. Equity at mid and at liquidation prices is starting cash plus realised profit minus fees plus
  the unrealised profit, less the dropped remainders, in 64-bit arithmetic; the maker profit engine, which
  leaves out closed positions, reports the same equity and unrealised profit as the paper engine.\<close>

theorem equity_accounts_for_profit:
  fixes events start
  defines "l \<equiv> run_ledger (make_paper_ledger start) events"
  assumes "\<bar>start\<bar> + turnover events \<le> i64_max" and "bought_lots events \<le> i64_max"
  shows "\<exists>dropped. 0 \<le> dropped \<and> dropped \<le> bought_lots events \<and>
    (let r = compute_paper_pnl (pg_positions l) (pg_cash l) views ts_ns; m = compute_maker_pnl l views ts_ns;
         booked = start + over_positions po_realized_pnl_tick l - cl_fees_paid_tick (pg_cash l) - dropped
     in eq_equity_mid_tick (pp_equity r) = wrap_i64 (booked + pp_unrealized_pnl_mid_tick r) \<and>
        eq_equity_liquidation_tick (pp_equity r) = wrap_i64 (booked + pp_unrealized_pnl_liquidation_tick r) \<and>
        mp_equity_mid_tick m = eq_equity_mid_tick (pp_equity r) \<and>
        mp_equity_liquidation_tick m = eq_equity_liquidation_tick (pp_equity r) \<and>
        mp_maker_unrealized_pnl_mid_tick m = pp_unrealized_pnl_mid_tick r \<and>
        mp_maker_unrealized_pnl_liquidation_tick m = pp_unrealized_pnl_liquidation_tick r)"
proof -
  let ?sum = "\<lambda>g. \<Sum>e\<leftarrow>pg_positions l. g (snd e)"
  have bal: "balanced (turnover events) (bought_lots events) l" and start: "cl_starting_cash_tick (pg_cash l) = start"
    using balanced_run [OF balanced_initial [of start], of events] assms(2,3)
    by (simp_all add: make_paper_ledger_def l_def)
  then have ok: "\<forall>(k, p) \<in> set (pg_positions l). position_ok p"
    and drop: "0 \<le> unaccounted l" "unaccounted l + over_positions po_qty_lots l \<le> bought_lots events"
    and cash: "\<bar>cl_cash_tick (pg_cash l) - start\<bar> \<le> turnover events"
    by (auto simp: balanced_def entry_ok_def)
  have "0 \<le> over_positions po_qty_lots l"
    using ok by (intro over_positions_nonneg) (auto simp: position_ok_def)
  then have bound: "unaccounted l \<le> bought_lots events"
    using drop by simp
  have sums: "(\<Sum>p\<leftarrow>open_positions (pg_positions l). position_value mark views p) = ?sum (position_value mark views)"
     "(\<Sum>p\<leftarrow>open_positions (pg_positions l). position_value mark views p - po_cost_basis_tick p) =
        ?sum (position_value mark views) - over_positions po_cost_basis_tick l" 
     "(\<Sum>e\<leftarrow>pg_positions l. position_value mark views (snd e) - po_cost_basis_tick (snd e)) =
        ?sum (position_value mark views) - over_positions po_cost_basis_tick l" for mark
    using ok by (simp_all add: open_positions_sum position_value_def over_positions_def sum_list_subtractf o_def)
  have empty: "?sum (position_value mark views) = 0" "over_positions po_cost_basis_tick l = 0"
    if "open_positions (pg_positions l) = []" for mark
    using sums(1,2) [of mark] that by simp_all
  have cash_fits: "wrap_i64 (cl_cash_tick (pg_cash l)) = cl_cash_tick (pg_cash l)"
    using cash assms(2) unfolding i64_bounds by (intro wrap_i64_id, unfold in_i64_def i64_bounds) linarith
  have books: "start + over_positions po_realized_pnl_tick l - cl_fees_paid_tick (pg_cash l) - unaccounted l =
      cl_cash_tick (pg_cash l) + over_positions po_cost_basis_tick l"
    by (simp add: unaccounted_def start)
  show ?thesis
    by (intro exI [of _ "unaccounted l"])
      (use drop bound empty in \<open>simp add: Let_def compute_paper_pnl_def compute_maker_pnl_def value_positions_sums
          sums books cash_fits wrap_i64_id [of 0] comp_def\<close>)
qed

theorem equity_accounts_for_profit_witness:
  "\<exists>dropped. 0 \<le> dropped \<and> dropped \<le> 4 \<and>
     mp_equity_mid_tick (compute_maker_pnl (run_ledger (make_paper_ledger 1000) sample_fills) [] 0) =
       wrap_i64 (1000 + over_positions po_realized_pnl_tick (run_ledger (make_paper_ledger 1000) sample_fills)
         - cl_fees_paid_tick (pg_cash (run_ledger (make_paper_ledger 1000) sample_fills)) - dropped
         + mp_maker_unrealized_pnl_mid_tick (compute_maker_pnl (run_ledger (make_paper_ledger 1000) sample_fills) [] 0))"
  using equity_accounts_for_profit [of 1000 sample_fills "[]" 0]
  by (auto simp: sample_fills_fit i64_max_def Let_def)

end
