(* ===== verification/MarketBooks.thy ===== *)
theory MarketBooks
  imports OrderedMap MarketView RiskPolicy "HOL-Library.Char_ord" "HOL-Library.List_Lexorder"
begin

section \<open>Market state: entities and their order books\<close>

text \<open>
  \<open>engine/state/EntityStateStore.cpp\<close>, \<open>StateHasher.cpp\<close>, \<open>hash/StateHashCache.cpp\<close> and
  \<open>book/LOBWriter.cpp\<close> with the events of \<open>decode/public/NormalizedEvent.h\<close>: the single writer
  that turns decoded feed events into one order book per entity. The \<open>std::map\<close>s are the ordered
  maps of \<open>OrderedMap\<close>: bids in descending, asks in ascending order of price, entities by name.
  Only valid prices and sizes get into a book, so that books hold rationals where events hold
  doubles. The hash cache is \<open>mutable\<close> in the code and part of the state here; durations measured
  for diagnostics are left out. Lemmas: the type invariant of the store, the refinement of price
  maps, the hashes reported for changed entities.
\<close>

subsection \<open>Normalized events\<close>

datatype NormalizedEventType =
    NE_Unknown | NE_Snapshot | NE_Delta | NE_StatusChange | NE_LifecycleEvent | NE_TradeEvent
  | NE_Heartbeat | NE_DecodeError

datatype NormalizedSide = NS_Unknown | NS_Bid | NS_Ask

record BookLevel =
  bl_price :: dbl
  bl_size :: dbl

record PriceLevelChange =
  lc_side :: NormalizedSide
  lc_price :: dbl
  lc_size :: dbl

datatype SourceId =
    SourceUnknown | PolymarketMarket | PolymarketUser | PolymarketSports | PolymarketRTDS

record NormalizedEvent =
  ne_packet_id :: u64
  ne_recv_wall_ns :: u64
  ne_recv_monotonic_ns :: u64
  ne_source_id :: SourceId
  ne_event_type :: NormalizedEventType
  ne_raw_type :: string
  ne_entity_id :: string
  ne_asset_id :: string
  ne_market_id :: string
  ne_condition_id :: string
  ne_event_ts :: u64
  ne_bids :: "BookLevel list"
  ne_asks :: "BookLevel list"
  ne_changes :: "PriceLevelChange list"
  ne_best_bid :: "dbl option"
  ne_best_ask :: "dbl option"
  ne_tick_size :: "dbl option"
  ne_winning_asset_id :: string
  ne_warnings :: "string list"

subsection \<open>State\<close>

datatype EntityStatus =
    ES_Uninitialized | ES_Live | ES_Recovering | ES_Inconsistent | ES_Stale | ES_Closed

datatype StateApplyCode =
    SA_Applied | SA_IgnoredHeartbeat | SA_IgnoredUnknown | SA_IgnoredTrade | SA_MissingEntityId
  | SA_DeltaBeforeSnapshot | SA_ClosedEntityIgnored | SA_UnknownSide | SA_InvalidValue | SA_Noop

datatype StateMutationKind =
    MU_None | MU_BookSnapshot | MU_BookDelta | MU_ChainFill | MU_ChainRemovedFill | MU_Lifecycle
  | MU_Quality | MU_Heartbeat

record StateMutationFlags =
  mu_state_changed :: bool
  mu_book_changed :: bool
  mu_chain_changed :: bool
  mu_quality_changed :: bool
  mu_lifecycle_changed :: bool
  mu_heartbeat_seen :: bool
  mu_publish_required :: bool
  mu_kind :: StateMutationKind

datatype StateHashMode = HotPathLight | ReplayFull | DebugVerify

record StateRuntimeConfig =
  sc_hash_mode :: StateHashMode
  sc_publish_on_noop :: bool
  sc_publish_on_heartbeat :: bool
  sc_compute_full_hash_on_publish :: bool

definition default_state_config :: StateRuntimeConfig where
  "default_state_config = \<lparr>sc_hash_mode = HotPathLight, sc_publish_on_noop = False,
     sc_publish_on_heartbeat = False, sc_compute_full_hash_on_publish = False\<rparr>"

record StateApplyResult =
  sr_code :: StateApplyCode
  sr_entity_id :: string
  sr_message :: string
  sr_state_changed :: bool
  sr_mutation :: StateMutationFlags
  sr_book_version :: u64
  sr_chain_version :: u64
  sr_quality_version :: u64
  sr_snapshot_version_hash :: u64
  sr_entity_hash :: u64
  sr_global_hash :: u64
  sr_cheap_fingerprint :: u64
  sr_full_hash_computed :: bool
  sr_hash_cache_hits :: u64
  sr_hash_cache_misses :: u64
  sr_snapshot_published :: bool

type_synonym BookSide = "(rat \<times> rat) list"

record OrderBookState =
  bk_bids :: BookSide
  bk_asks :: BookSide
  bk_best_bid :: "rat option"
  bk_best_ask :: "rat option"
  bk_external_best_bid :: "rat option"
  bk_external_best_ask :: "rat option"
  bk_tick_size :: "rat option"
  bk_crossed :: bool
  bk_external_bbo_diverged :: bool
  bk_resolved :: bool
  bk_winning_asset_id :: string

record EntityState =
  et_entity_id :: string
  et_market_id :: string
  et_status :: EntityStatus
  et_initialized :: bool
  et_recovering :: bool
  et_inconsistent :: bool
  et_closed :: bool
  et_snapshot_count :: u64
  et_delta_count :: u64
  et_status_change_count :: u64
  et_lifecycle_count :: u64
  et_ignored_count :: u64
  et_error_count :: u64
  et_first_packet_id :: u64
  et_last_packet_id :: u64
  et_last_snapshot_packet_id :: u64
  et_last_update_monotonic_ns :: u64
  et_book :: OrderBookState

definition empty_order_book :: OrderBookState where
  "empty_order_book = \<lparr>bk_bids = [], bk_asks = [], bk_best_bid = None, bk_best_ask = None,
     bk_external_best_bid = None, bk_external_best_ask = None, bk_tick_size = None, bk_crossed = False,
     bk_external_bbo_diverged = False, bk_resolved = False, bk_winning_asset_id = []\<rparr>"

definition new_entity :: "string \<Rightarrow> EntityState" where
  "new_entity entity_id = \<lparr>et_entity_id = entity_id, et_market_id = [], et_status = ES_Uninitialized,
     et_initialized = False, et_recovering = False, et_inconsistent = False, et_closed = False,
     et_snapshot_count = 0, et_delta_count = 0, et_status_change_count = 0, et_lifecycle_count = 0,
     et_ignored_count = 0, et_error_count = 0, et_first_packet_id = 0, et_last_packet_id = 0,
     et_last_snapshot_packet_id = 0, et_last_update_monotonic_ns = 0, et_book = empty_order_book\<rparr>"

record EntityHashCacheEntry =
  ce_entity_hash :: u64
  ce_book_version :: u64
  ce_chain_version :: u64
  ce_quality_version :: u64
  ce_dirty :: bool

record StateHashCache =
  hc_entity_hashes :: "string \<rightharpoonup> EntityHashCacheEntry"
  hc_global_hash :: u64
  hc_global_dirty :: bool
  hc_hits :: u64
  hc_misses :: u64

type_synonym EntityMap = "(string \<times> EntityState) list"

record EntityStateStore =
  st_entities :: EntityMap
  st_events_seen :: u64
  st_snapshots_applied :: u64
  st_deltas_applied :: u64
  st_status_changes_applied :: u64
  st_lifecycle_events_applied :: u64
  st_heartbeats_ignored :: u64
  st_unknown_events_ignored :: u64
  st_errors :: u64
  st_runtime_config :: StateRuntimeConfig
  st_hash_cache :: StateHashCache

definition empty_hash_cache :: StateHashCache where
  "empty_hash_cache = \<lparr>hc_entity_hashes = Map.empty, hc_global_hash = 0, hc_global_dirty = True,
     hc_hits = 0, hc_misses = 0\<rparr>"

definition make_entity_store :: "StateRuntimeConfig \<Rightarrow> EntityStateStore" where
  "make_entity_store config = \<lparr>st_entities = [], st_events_seen = 0, st_snapshots_applied = 0,
     st_deltas_applied = 0, st_status_changes_applied = 0, st_lifecycle_events_applied = 0,
     st_heartbeats_ignored = 0, st_unknown_events_ignored = 0, st_errors = 0,
     st_runtime_config = config, st_hash_cache = empty_hash_cache\<rparr>"

definition legacy_replay_full_config :: StateRuntimeConfig where
  "legacy_replay_full_config = \<lparr>sc_hash_mode = ReplayFull, sc_publish_on_noop = True,
     sc_publish_on_heartbeat = True, sc_compute_full_hash_on_publish = True\<rparr>"

definition reset_store :: "EntityStateStore \<Rightarrow> EntityStateStore" where
  "reset_store store = make_entity_store (st_runtime_config store)"

subsection \<open>Queries\<close>

definition get_entity :: "EntityStateStore \<Rightarrow> string \<Rightarrow> EntityState option" where
  "get_entity store entity_id = map_of (st_entities store) entity_id"

definition store_contains :: "EntityStateStore \<Rightarrow> string \<Rightarrow> bool" where
  "store_contains store entity_id \<longleftrightarrow> get_entity store entity_id \<noteq> None"

definition entity_status :: "EntityStateStore \<Rightarrow> string \<Rightarrow> EntityStatus" where
  "entity_status store entity_id =
     (case get_entity store entity_id of None \<Rightarrow> ES_Uninitialized | Some e \<Rightarrow> et_status e)"

definition entity_initialized :: "EntityStateStore \<Rightarrow> string \<Rightarrow> bool" where
  "entity_initialized store entity_id =
     (case get_entity store entity_id of None \<Rightarrow> False | Some e \<Rightarrow> et_initialized e)"

definition entity_count :: "EntityStateStore \<Rightarrow> nat" where
  "entity_count store = length (st_entities store)"

subsection \<open>Hashing\<close>

text \<open>The bit pattern of a non-negative finite double; \<open>-0.0\<close> is made \<open>0.0\<close> before hashing.\<close>

definition bits_of_double :: "rat \<Rightarrow> u64" where
  "bits_of_double x =
     (let n = nat \<lfloor>x * 2 ^ 1074\<rfloor>; e = floorlog 2 n
      in if e \<le> 52 then of_nat n else of_nat ((e - 52) * 2 ^ 52 + (n div 2 ^ (e - 53) - 2 ^ 52)))"

definition hash_double :: "rat \<Rightarrow> u64 \<Rightarrow> u64" where
  "hash_double x h = fnv_u64 (bits_of_double x) h"

definition hash_bool :: "bool \<Rightarrow> u64 \<Rightarrow> u64" where
  "hash_bool b h = fnv_byte h (if b then 1 else 0)"

definition hash_string :: "string \<Rightarrow> u64 \<Rightarrow> u64" where
  "hash_string s h = fnv_string s (fnv_u64 (of_nat (length s)) h)"

definition hash_optional_double :: "rat option \<Rightarrow> u64 \<Rightarrow> u64" where
  "hash_optional_double x h =
     (case x of None \<Rightarrow> hash_bool False h | Some v \<Rightarrow> hash_double v (hash_bool True h))"

definition hash_price_levels :: "BookSide \<Rightarrow> u64 \<Rightarrow> u64" where
  "hash_price_levels levels h =
     foldl (\<lambda>h (price, size). hash_double size (hash_double price h)) (fnv_u64 (of_nat (length levels)) h) levels"

definition hash_order_book :: "OrderBookState \<Rightarrow> u64" where
  "hash_order_book book =
     (let h1 = hash_optional_double (bk_best_bid book) fnv_offset;
          h2 = hash_optional_double (bk_best_ask book) h1;
          h3 = hash_optional_double (bk_external_best_bid book) h2;
          h4 = hash_optional_double (bk_external_best_ask book) h3;
          h5 = hash_optional_double (bk_tick_size book) h4;
          h6 = hash_bool (bk_crossed book) h5;
          h7 = hash_bool (bk_external_bbo_diverged book) h6;
          h8 = hash_bool (bk_resolved book) h7;
          h9 = hash_string (bk_winning_asset_id book) h8;
          h10 = hash_price_levels (bk_bids book) h9
      in hash_price_levels (bk_asks book) h10)"

fun entity_status_code :: "EntityStatus \<Rightarrow> u64" where
  "entity_status_code ES_Uninitialized = 0"
| "entity_status_code ES_Live = 1"
| "entity_status_code ES_Recovering = 2"
| "entity_status_code ES_Inconsistent = 3"
| "entity_status_code ES_Stale = 4"
| "entity_status_code ES_Closed = 5"

text \<open>
  The call \<open>hash_string(h, entity.entity_id)\<close> stands inside a comment that is never closed before
  it, so that the entity's name is not hashed.
\<close>

definition hash_entity :: "EntityState \<Rightarrow> u64" where
  "hash_entity entity =
     (let h1 = fnv_u64 (entity_status_code (et_status entity)) fnv_offset;
          h2 = hash_bool (et_initialized entity) h1;
          h3 = hash_bool (et_recovering entity) h2;
          h4 = hash_bool (et_inconsistent entity) h3;
          h5 = hash_bool (et_closed entity) h4;
          h6 = fnv_u64 (et_snapshot_count entity) h5;
          h7 = fnv_u64 (et_delta_count entity) h6;
          h8 = fnv_u64 (et_status_change_count entity) h7;
          h9 = fnv_u64 (et_lifecycle_count entity) h8;
          h10 = fnv_u64 (et_ignored_count entity) h9;
          h11 = fnv_u64 (et_error_count entity) h10
      in fnv_u64 (hash_order_book (et_book entity)) h11)"

definition hash_entity_map :: "EntityMap \<Rightarrow> u64" where
  "hash_entity_map entities =
     foldl (\<lambda>h (entity_id, entity). fnv_u64 (hash_entity entity) (hash_string entity_id h))
       (fnv_u64 (of_nat (length entities)) fnv_offset) entities"

definition default_cache_entry :: EntityHashCacheEntry where
  "default_cache_entry = \<lparr>ce_entity_hash = 0, ce_book_version = 0, ce_chain_version = 0,
     ce_quality_version = 0, ce_dirty = True\<rparr>"

definition mark_dirty :: "string \<Rightarrow> StateHashCache \<Rightarrow> StateHashCache" where
  "mark_dirty entity_id cache =
     (let cache = cache\<lparr>hc_global_dirty := True\<rparr> in
      if entity_id = [] then cache
      else cache\<lparr>hc_entity_hashes := (hc_entity_hashes cache)(entity_id \<mapsto>
        (case hc_entity_hashes cache entity_id of
           None \<Rightarrow> default_cache_entry\<lparr>ce_dirty := True\<rparr> | Some e \<Rightarrow> e\<lparr>ce_dirty := True\<rparr>))\<rparr>)"

definition take_access_stats :: "StateHashCache \<Rightarrow> (u64 \<times> u64) \<times> StateHashCache" where
  "take_access_stats cache = ((hc_hits cache, hc_misses cache), cache\<lparr>hc_hits := 0, hc_misses := 0\<rparr>)"

definition cached_entity_hash :: "string \<Rightarrow> EntityMap \<Rightarrow> StateHashCache \<Rightarrow> u64 \<times> StateHashCache" where
  "cached_entity_hash entity_id entities cache =
     (case map_of entities entity_id of
        None \<Rightarrow>
          (0, cache\<lparr>hc_entity_hashes := (hc_entity_hashes cache)(entity_id := None), hc_misses := hc_misses cache + 1\<rparr>)
      | Some entity \<Rightarrow>
          let fresh = \<lparr>ce_entity_hash = hash_entity entity, ce_book_version = et_last_packet_id entity,
                ce_chain_version = 0, ce_quality_version = 0, ce_dirty = False\<rparr>;
              missed = (ce_entity_hash fresh,
                cache\<lparr>hc_entity_hashes := (hc_entity_hashes cache)(entity_id \<mapsto> fresh),
                      hc_misses := hc_misses cache + 1\<rparr>)
          in (case hc_entity_hashes cache entity_id of
                None \<Rightarrow> missed
              | Some e \<Rightarrow> if \<not> ce_dirty e then (ce_entity_hash e, cache\<lparr>hc_hits := hc_hits cache + 1\<rparr>) else missed))"

definition cached_global_hash :: "EntityMap \<Rightarrow> StateHashCache \<Rightarrow> u64 \<times> StateHashCache" where
  "cached_global_hash entities cache =
     (if \<not> hc_global_dirty cache then (hc_global_hash cache, cache\<lparr>hc_hits := hc_hits cache + 1\<rparr>)
      else let h = hash_entity_map entities in
        (h, cache\<lparr>hc_misses := hc_misses cache + 1, hc_global_hash := h, hc_global_dirty := False\<rparr>))"

definition state_hash :: "string \<Rightarrow> EntityStateStore \<Rightarrow> u64 \<times> EntityStateStore" where
  "state_hash entity_id store =
     (let (h, cache) = cached_entity_hash entity_id (st_entities store) (st_hash_cache store)
      in (h, store\<lparr>st_hash_cache := cache\<rparr>))"

definition global_hash :: "EntityStateStore \<Rightarrow> u64 \<times> EntityStateStore" where
  "global_hash store =
     (let (h, cache) = cached_global_hash (st_entities store) (st_hash_cache store)
      in (h, store\<lparr>st_hash_cache := cache\<rparr>))"

definition debug_recomputed_state_hash :: "EntityStateStore \<Rightarrow> string \<Rightarrow> u64" where
  "debug_recomputed_state_hash store entity_id =
     (case get_entity store entity_id of None \<Rightarrow> 0 | Some e \<Rightarrow> hash_entity e)"

definition debug_recomputed_global_hash :: "EntityStateStore \<Rightarrow> u64" where
  "debug_recomputed_global_hash store = hash_entity_map (st_entities store)"

subsection \<open>Results\<close>

definition status_flags_for :: "EntityState option \<Rightarrow> u64" where
  "status_flags_for entity =
     (case entity of None \<Rightarrow> 0
      | Some e \<Rightarrow>
          (entity_status_code (et_status e) AND 0xFF)
          OR (if et_initialized e then push_bit 8 1 else 0)
          OR (if et_recovering e then push_bit 9 1 else 0)
          OR (if et_inconsistent e then push_bit 10 1 else 0)
          OR (if et_closed e then push_bit 11 1 else 0)
          OR (if bk_crossed (et_book e) then push_bit 12 1 else 0)
          OR (if bk_resolved (et_book e) then push_bit 13 1 else 0))"

definition cheap_snapshot_fingerprint ::
  "string \<Rightarrow> u64 \<Rightarrow> u64 \<Rightarrow> u64 \<Rightarrow> u64 \<Rightarrow> u64 \<Rightarrow> u64 \<Rightarrow> u64" where
  "cheap_snapshot_fingerprint entity_id book_version chain_version quality_version
       last_ws_packet_id last_chain_block status_flags =
     foldl (\<lambda>h v. fnv_u64 v h) (hash_string entity_id fnv_offset)
       [book_version, chain_version, quality_version, last_ws_packet_id, last_chain_block, status_flags]"

definition mutation_kind_for :: "StateApplyCode \<Rightarrow> StateMutationKind" where
  "mutation_kind_for code = (if code = SA_IgnoredHeartbeat then MU_Heartbeat else MU_None)"

definition state_result_ok :: "StateApplyResult \<Rightarrow> bool" where
  "state_result_ok r \<longleftrightarrow> sr_code r \<in> {SA_Applied, SA_IgnoredHeartbeat, SA_IgnoredUnknown, SA_IgnoredTrade,
     SA_ClosedEntityIgnored, SA_Noop}"

definition make_result ::
  "EntityStateStore \<Rightarrow> StateApplyCode \<Rightarrow> string \<Rightarrow> string \<Rightarrow> bool \<Rightarrow> StateApplyResult \<times> EntityStateStore" where
  "make_result store code entity_id message changed =
     (let entity = (if entity_id \<noteq> [] then get_entity store entity_id else None);
          version = (case entity of None \<Rightarrow> 0 | Some e \<Rightarrow> et_last_packet_id e);
          fingerprint = cheap_snapshot_fingerprint entity_id version 0 0 version 0 (status_flags_for entity);
          light = \<lparr>sr_code = code, sr_entity_id = entity_id, sr_message = message, sr_state_changed = changed,
            sr_mutation = \<lparr>mu_state_changed = changed, mu_book_changed = False, mu_chain_changed = False,
              mu_quality_changed = False, mu_lifecycle_changed = False,
              mu_heartbeat_seen = (code = SA_IgnoredHeartbeat), mu_publish_required = False,
              mu_kind = mutation_kind_for code\<rparr>,
            sr_book_version = version, sr_chain_version = 0, sr_quality_version = 0,
            sr_snapshot_version_hash = fingerprint, sr_entity_hash = 0, sr_global_hash = 0,
            sr_cheap_fingerprint = fingerprint, sr_full_hash_computed = False, sr_hash_cache_hits = 0,
            sr_hash_cache_misses = 0, sr_snapshot_published = False\<rparr>;
          store = (if changed \<and> entity_id \<noteq> []
            then store\<lparr>st_hash_cache := mark_dirty entity_id (st_hash_cache store)\<rparr> else store)
      in if \<not> changed \<or> sc_hash_mode (st_runtime_config store) = HotPathLight then (light, store)
         else
           let cleared = store\<lparr>st_hash_cache := snd (take_access_stats (st_hash_cache store))\<rparr>;
               (entity_hash, hashed) = (if entity_id \<noteq> [] then state_hash entity_id cleared else (0, cleared));
               (all_hash, hashed_all) = global_hash hashed;
               ((hits, misses), cache) = take_access_stats (st_hash_cache hashed_all)
           in (light\<lparr>sr_entity_hash := entity_hash, sr_global_hash := all_hash, sr_full_hash_computed := True,
                     sr_hash_cache_hits := hits, sr_hash_cache_misses := misses\<rparr>,
               hashed_all\<lparr>st_hash_cache := cache\<rparr>))"

definition mark_book_snapshot :: "StateApplyResult \<Rightarrow> StateApplyResult" where
  "mark_book_snapshot r =
     r\<lparr>sr_mutation := (sr_mutation r)\<lparr>mu_state_changed := sr_state_changed r, mu_book_changed := sr_state_changed r,
        mu_publish_required := sr_state_changed r,
        mu_kind := (if sr_state_changed r then MU_BookSnapshot else MU_None)\<rparr>\<rparr>"

definition mark_book_delta :: "StateApplyResult \<Rightarrow> StateApplyResult" where
  "mark_book_delta r =
     r\<lparr>sr_mutation := (sr_mutation r)\<lparr>mu_state_changed := sr_state_changed r, mu_book_changed := sr_state_changed r,
        mu_publish_required := sr_state_changed r,
        mu_kind := (if sr_state_changed r then MU_BookDelta else MU_None)\<rparr>\<rparr>"

definition mark_lifecycle :: "StateApplyResult \<Rightarrow> StateApplyResult" where
  "mark_lifecycle r =
     r\<lparr>sr_mutation := (sr_mutation r)\<lparr>mu_state_changed := sr_state_changed r,
        mu_lifecycle_changed := sr_state_changed r, mu_publish_required := sr_state_changed r,
        mu_kind := (if sr_state_changed r then MU_Lifecycle else MU_None)\<rparr>\<rparr>"

subsection \<open>Book operations\<close>

fun valid_price :: "dbl \<Rightarrow> bool" where
  "valid_price (Fin p) \<longleftrightarrow> 0 \<le> p \<and> p \<le> 1"
| "valid_price _ \<longleftrightarrow> False"

fun valid_size :: "dbl \<Rightarrow> bool" where
  "valid_size (Fin s) \<longleftrightarrow> 0 \<le> s"
| "valid_size _ \<longleftrightarrow> False"

fun valid_tick_size :: "dbl \<Rightarrow> bool" where
  "valid_tick_size (Fin s) \<longleftrightarrow> 0 < s"
| "valid_tick_size _ \<longleftrightarrow> False"

fun finite_value :: "dbl \<Rightarrow> rat" where
  "finite_value (Fin x) = x"
| "finite_value _ = 0"

definition kBboEpsilon :: dbl where
  "kBboEpsilon = double_of_bits 0x3D719799812DEA11"

text \<open>
  The double nearest to a non-negative rational, 53 significant bits: exact for what is a multiple of the
  smallest double, as a difference of doubles is, and for every result in the normal range.
\<close>

definition nearest_double :: "rat \<Rightarrow> rat" where
  "nearest_double x = round_double (x * 2 ^ 1074) / 2 ^ 1074"

definition almost_equal :: "rat \<Rightarrow> rat \<Rightarrow> bool" where
  "almost_equal a b \<longleftrightarrow> nearest_double \<bar>a - b\<bar> \<le> finite_value kBboEpsilon"

definition apply_level :: "(rat \<Rightarrow> rat \<Rightarrow> bool) \<Rightarrow> rat \<Rightarrow> rat \<Rightarrow> BookSide \<Rightarrow> BookSide" where
  "apply_level precedes price amount side =
     (if amount = 0 then map_erase price side else map_update precedes price (\<lambda>_. amount) side)"

text \<open>One level of a snapshot; the flag records an invalid one.\<close>

definition load_level :: "(rat \<Rightarrow> rat \<Rightarrow> bool) \<Rightarrow> BookSide \<times> bool \<Rightarrow> BookLevel \<Rightarrow> BookSide \<times> bool" where
  "load_level precedes acc level =
     (if \<not> valid_price (bl_price level) \<or> \<not> valid_size (bl_size level) then (fst acc, True)
      else if 0 < finite_value (bl_size level)
      then (map_update precedes (finite_value (bl_price level)) (\<lambda>_. finite_value (bl_size level)) (fst acc), snd acc)
      else acc)"

definition load_side :: "(rat \<Rightarrow> rat \<Rightarrow> bool) \<Rightarrow> BookLevel list \<Rightarrow> BookSide \<times> bool" where
  "load_side precedes levels = foldl (load_level precedes) ([], False) levels"

definition update_best_bid_ask :: "OrderBookState \<Rightarrow> OrderBookState" where
  "update_best_bid_ask book =
     (let best_bid = (case bk_bids book of [] \<Rightarrow> None | (p, _) # _ \<Rightarrow> Some p);
          best_ask = (case bk_asks book of [] \<Rightarrow> None | (p, _) # _ \<Rightarrow> Some p)
      in book\<lparr>bk_best_bid := best_bid, bk_best_ask := best_ask,
           bk_crossed := (case (best_bid, best_ask) of (Some b, Some a) \<Rightarrow> b > a | _ \<Rightarrow> False)\<rparr>)"

text \<open>The accumulators of the loop over the changes of a delta.\<close>

record DeltaLoop =
  dl_book :: OrderBookState
  dl_changed :: bool
  dl_bad_side :: bool
  dl_invalid :: bool

definition apply_change :: "DeltaLoop \<Rightarrow> PriceLevelChange \<Rightarrow> DeltaLoop" where
  "apply_change acc change =
     (let book = dl_book acc; price = finite_value (lc_price change); size = finite_value (lc_size change) in
      if \<not> valid_price (lc_price change) \<or> \<not> valid_size (lc_size change) then acc\<lparr>dl_invalid := True\<rparr>
      else (case lc_side change of
          NS_Bid \<Rightarrow> acc\<lparr>dl_book := book\<lparr>bk_bids := apply_level (>) price size (bk_bids book)\<rparr>, dl_changed := True\<rparr>
        | NS_Ask \<Rightarrow> acc\<lparr>dl_book := book\<lparr>bk_asks := apply_level (<) price size (bk_asks book)\<rparr>, dl_changed := True\<rparr>
        | NS_Unknown \<Rightarrow> acc\<lparr>dl_bad_side := True\<rparr>))"

definition apply_changes :: "OrderBookState \<Rightarrow> PriceLevelChange list \<Rightarrow> DeltaLoop" where
  "apply_changes book changes =
     foldl apply_change \<lparr>dl_book = book, dl_changed = False, dl_bad_side = False, dl_invalid = False\<rparr> changes"

subsection \<open>Applying events\<close>

definition resolve_entity_id :: "NormalizedEvent \<Rightarrow> string" where
  "resolve_entity_id event =
     (if ne_entity_id event \<noteq> [] then ne_entity_id event
      else if ne_asset_id event \<noteq> [] then ne_asset_id event
      else if ne_condition_id event \<noteq> [] then ne_condition_id event
      else ne_market_id event)"

definition get_or_create_entity :: "EntityStateStore \<Rightarrow> string \<Rightarrow> EntityState" where
  "get_or_create_entity store entity_id =
     (case get_entity store entity_id of None \<Rightarrow> new_entity entity_id | Some e \<Rightarrow> e)"

definition put_entity :: "string \<Rightarrow> EntityState \<Rightarrow> EntityStateStore \<Rightarrow> EntityStateStore" where
  "put_entity entity_id entity store =
     store\<lparr>st_entities := map_update (<) entity_id (\<lambda>_. entity) (st_entities store)\<rparr>"

definition mark_entity_packet :: "NormalizedEvent \<Rightarrow> EntityState \<Rightarrow> EntityState" where
  "mark_entity_packet event entity =
     entity\<lparr>et_market_id := (if ne_market_id event \<noteq> [] then ne_market_id event else et_market_id entity),
       et_first_packet_id :=
         (if et_first_packet_id entity = 0 then ne_packet_id event else et_first_packet_id entity),
       et_last_packet_id := ne_packet_id event,
       et_last_update_monotonic_ns := ne_recv_monotonic_ns event\<rparr>"

definition count_error :: "EntityStateStore \<Rightarrow> EntityStateStore" where
  "count_error store = store\<lparr>st_errors := st_errors store + 1\<rparr>"

definition ignore_entity :: "EntityState \<Rightarrow> EntityState" where
  "ignore_entity entity = entity\<lparr>et_ignored_count := et_ignored_count entity + 1\<rparr>"

definition tick_after :: "NormalizedEvent \<Rightarrow> OrderBookState \<Rightarrow> OrderBookState \<times> bool" where
  "tick_after event book =
     (case ne_tick_size event of
        None \<Rightarrow> (book, False)
      | Some tick \<Rightarrow>
          if valid_tick_size tick then (book\<lparr>bk_tick_size := Some (finite_value tick)\<rparr>, False) else (book, True))"

definition snapshot_entity :: "NormalizedEvent \<Rightarrow> EntityState \<Rightarrow> EntityState \<times> bool" where
  "snapshot_entity event entity =
     (let (bids, bad_bids) = load_side (>) (ne_bids event);
          (asks, bad_asks) = load_side (<) (ne_asks event);
          (ticked, bad_tick) = tick_after event ((et_book entity)\<lparr>bk_bids := bids, bk_asks := asks\<rparr>);
          invalid = (bad_bids \<or> bad_asks \<or> bad_tick);
          book = update_best_bid_ask ticked
      in (mark_entity_packet event
            (entity\<lparr>et_book := book, et_initialized := True, et_recovering := False, et_closed := False,
               et_status := (if bk_crossed book then ES_Inconsistent else ES_Live),
               et_inconsistent := (bk_crossed book \<or> invalid),
               et_snapshot_count := et_snapshot_count entity + 1,
               et_last_snapshot_packet_id := ne_packet_id event\<rparr>), invalid))"

definition apply_snapshot :: "EntityStateStore \<Rightarrow> NormalizedEvent \<Rightarrow> StateApplyResult \<times> EntityStateStore" where
  "apply_snapshot store event =
     (let entity_id = resolve_entity_id event; entity = get_or_create_entity store entity_id in
      if entity_id = []
      then make_result (count_error store) SA_MissingEntityId [] ''snapshot event missing entity id'' False
      else if et_closed entity
      then make_result (put_entity entity_id (ignore_entity entity) store) SA_ClosedEntityIgnored entity_id
             ''snapshot ignored because entity is closed'' False
      else
        (let (loaded, invalid) = snapshot_entity event entity;
             counted = store\<lparr>st_snapshots_applied := st_snapshots_applied store + 1\<rparr>
         in map_prod mark_book_snapshot (\<lambda>s. s)
           (if invalid
            then make_result
                   (put_entity entity_id (loaded\<lparr>et_error_count := et_error_count loaded + 1\<rparr>) (count_error counted))
                   SA_InvalidValue entity_id ''snapshot contained invalid price/size/tick values'' True
            else make_result (put_entity entity_id loaded counted) SA_Applied entity_id ''snapshot applied'' True)))"

definition delta_entity :: "NormalizedEvent \<Rightarrow> EntityState \<Rightarrow> DeltaLoop \<Rightarrow> EntityState" where
  "delta_entity event entity loop =
     (if dl_changed loop
      then (let book = update_best_bid_ask (dl_book loop) in
        mark_entity_packet event
          (entity\<lparr>et_book := book, et_delta_count := et_delta_count entity + 1,
             et_status := (if bk_crossed book then ES_Inconsistent else ES_Live),
             et_inconsistent := bk_crossed book, et_recovering := False\<rparr>))
      else entity\<lparr>et_book := dl_book loop\<rparr>)"

definition apply_delta :: "EntityStateStore \<Rightarrow> NormalizedEvent \<Rightarrow> StateApplyResult \<times> EntityStateStore" where
  "apply_delta store event =
     (let entity_id = resolve_entity_id event; entity = get_or_create_entity store entity_id in
      map_prod mark_book_delta (\<lambda>s. s)
       (if entity_id = []
        then make_result (count_error store) SA_MissingEntityId [] ''delta event missing entity id'' False
        else if et_closed entity
        then make_result (put_entity entity_id (ignore_entity entity) store) SA_ClosedEntityIgnored entity_id
               ''delta ignored because entity is closed'' False
        else if \<not> et_initialized entity
        then make_result
               (put_entity entity_id
                  (mark_entity_packet event
                    (entity\<lparr>et_status := ES_Recovering, et_recovering := True, et_error_count := et_error_count entity + 1\<rparr>))
                  (count_error store))
               SA_DeltaBeforeSnapshot entity_id ''delta arrived before snapshot'' True
        else
          (let loop = apply_changes (et_book entity) (ne_changes event);
               changed = dl_changed loop;
               after = delta_entity event entity loop;
               counted = (if changed then store\<lparr>st_deltas_applied := st_deltas_applied store + 1\<rparr> else store)
           in if dl_bad_side loop \<or> dl_invalid loop
              then make_result
                     (put_entity entity_id (after\<lparr>et_error_count := et_error_count after + 1\<rparr>) (count_error counted))
                     (if dl_bad_side loop then SA_UnknownSide else SA_InvalidValue) entity_id
                     (if dl_bad_side loop then ''delta contained unknown side''
                      else ''delta contained invalid price or size'') changed
              else if \<not> changed
              then make_result (put_entity entity_id (ignore_entity after) counted) SA_Noop entity_id
                     ''delta had no valid changes'' False
              else make_result (put_entity entity_id after counted) SA_Applied entity_id ''delta applied'' True)))"

text \<open>A field of a status change: the stored value, and whether it was set or invalid.\<close>

definition take_field :: "(dbl \<Rightarrow> bool) \<Rightarrow> dbl option \<Rightarrow> rat option \<Rightarrow> rat option \<times> bool \<times> bool" where
  "take_field valid given old =
     (case given of None \<Rightarrow> (old, False, False)
      | Some x \<Rightarrow> if valid x then (Some (finite_value x), True, False) else (old, False, True))"

definition diverged :: "rat option \<Rightarrow> rat option \<Rightarrow> bool" where
  "diverged external_best local_best =
     (case (external_best, local_best) of (Some x, Some y) \<Rightarrow> \<not> almost_equal x y | _ \<Rightarrow> False)"

definition status_entity :: "NormalizedEvent \<Rightarrow> EntityState \<Rightarrow> EntityState \<times> bool \<times> bool" where
  "status_entity event entity =
     (let book = et_book entity;
          (tick, tick_set, tick_bad) = take_field valid_tick_size (ne_tick_size event) (bk_tick_size book);
          (bid, bid_set, bid_bad) = take_field valid_price (ne_best_bid event) (bk_external_best_bid book);
          (ask, ask_set, ask_bad) = take_field valid_price (ne_best_ask event) (bk_external_best_ask book);
          book' = book\<lparr>bk_tick_size := tick, bk_external_best_bid := bid, bk_external_best_ask := ask,
            bk_external_bbo_diverged :=
              (et_initialized entity \<and> (diverged bid (bk_best_bid book) \<or> diverged ask (bk_best_ask book)))\<rparr>
      in (mark_entity_packet event
            (entity\<lparr>et_book := book',
               et_status := (if et_initialized entity then et_status entity else ES_Recovering),
               et_recovering := (if et_initialized entity then et_recovering entity else True),
               et_status_change_count := et_status_change_count entity + 1\<rparr>),
          tick_set \<or> bid_set \<or> ask_set, tick_bad \<or> bid_bad \<or> ask_bad))"

definition apply_status_change :: "EntityStateStore \<Rightarrow> NormalizedEvent \<Rightarrow> StateApplyResult \<times> EntityStateStore" where
  "apply_status_change store event =
     (let entity_id = resolve_entity_id event; entity = get_or_create_entity store entity_id in
      map_prod mark_book_delta (\<lambda>s. s)
       (if entity_id = []
        then make_result (count_error store) SA_MissingEntityId [] ''status change missing entity id'' False
        else if et_closed entity
        then make_result (put_entity entity_id (ignore_entity entity) store) SA_ClosedEntityIgnored entity_id
               ''status change ignored because entity is closed'' False
        else
          (let (after, changed, invalid) = status_entity event entity;
               counted = store\<lparr>st_status_changes_applied := st_status_changes_applied store + 1\<rparr>
           in if invalid
              then make_result
                     (put_entity entity_id (after\<lparr>et_error_count := et_error_count after + 1\<rparr>) (count_error counted))
                     SA_InvalidValue entity_id ''status change contained invalid values'' changed
              else make_result (put_entity entity_id after counted)
                     (if changed then SA_Applied else SA_Noop) entity_id
                     (if changed then ''status change applied'' else ''status change had no state fields'') changed)))"

definition lifecycle_entity :: "NormalizedEvent \<Rightarrow> EntityState \<Rightarrow> EntityState" where
  "lifecycle_entity event entity =
     (let closed = entity\<lparr>et_closed := True, et_status := ES_Closed, et_recovering := False\<rparr>;
          after = (if ne_raw_type event = ''market_resolved''
              then closed\<lparr>et_book := (et_book entity)\<lparr>bk_resolved := True,
                 bk_winning_asset_id := ne_winning_asset_id event\<rparr>\<rparr>
              else if ne_raw_type event = ''market_closed'' then closed else entity)
      in mark_entity_packet event (after\<lparr>et_lifecycle_count := et_lifecycle_count after + 1\<rparr>))"

definition apply_lifecycle_event :: "EntityStateStore \<Rightarrow> NormalizedEvent \<Rightarrow> StateApplyResult \<times> EntityStateStore" where
  "apply_lifecycle_event store event =
     (let entity_id = resolve_entity_id event; entity = get_or_create_entity store entity_id in
      map_prod mark_lifecycle (\<lambda>s. s)
       (if entity_id = []
        then make_result (count_error store) SA_MissingEntityId [] ''lifecycle event missing entity id'' False
        else make_result
               (put_entity entity_id (lifecycle_entity event entity)
                  (store\<lparr>st_lifecycle_events_applied := st_lifecycle_events_applied store + 1\<rparr>))
               SA_Applied entity_id ''lifecycle event applied'' True))"

definition ignore_event :: "EntityStateStore \<Rightarrow> NormalizedEvent \<Rightarrow> EntityStateStore" where
  "ignore_event store event =
     (let entity_id = resolve_entity_id event in
      if entity_id = [] then store
      else put_entity entity_id
             (mark_entity_packet event (ignore_entity (get_or_create_entity store entity_id))) store)"

definition apply_trade_event :: "EntityStateStore \<Rightarrow> NormalizedEvent \<Rightarrow> StateApplyResult \<times> EntityStateStore" where
  "apply_trade_event store event =
     make_result (ignore_event store event) SA_IgnoredTrade (resolve_entity_id event)
       ''trade event ignored by EntityStateStore MVP'' False"

definition apply_heartbeat :: "EntityStateStore \<Rightarrow> StateApplyResult \<times> EntityStateStore" where
  "apply_heartbeat store =
     make_result (store\<lparr>st_heartbeats_ignored := st_heartbeats_ignored store + 1\<rparr>) SA_IgnoredHeartbeat []
       ''heartbeat ignored by entity state'' False"

definition apply_unknown :: "EntityStateStore \<Rightarrow> NormalizedEvent \<Rightarrow> StateApplyResult \<times> EntityStateStore" where
  "apply_unknown store event =
     (let ignored = ignore_event store event in
      make_result (ignored\<lparr>st_unknown_events_ignored := st_unknown_events_ignored ignored + 1\<rparr>) SA_IgnoredUnknown
        (resolve_entity_id event) ''unknown event ignored by entity state'' False)"

definition apply_event :: "EntityStateStore \<Rightarrow> NormalizedEvent \<Rightarrow> StateApplyResult \<times> EntityStateStore" where
  "apply_event store event =
     (let seen = store\<lparr>st_events_seen := st_events_seen store + 1\<rparr> in
      case ne_event_type event of
        NE_Snapshot \<Rightarrow> apply_snapshot seen event
      | NE_Delta \<Rightarrow> apply_delta seen event
      | NE_StatusChange \<Rightarrow> apply_status_change seen event
      | NE_LifecycleEvent \<Rightarrow> apply_lifecycle_event seen event
      | NE_TradeEvent \<Rightarrow> apply_trade_event seen event
      | NE_Heartbeat \<Rightarrow> apply_heartbeat seen
      | NE_Unknown \<Rightarrow> apply_unknown seen event
      | NE_DecodeError \<Rightarrow> apply_unknown seen event)"

definition run_store :: "EntityStateStore \<Rightarrow> NormalizedEvent list \<Rightarrow> EntityStateStore" where
  "run_store = foldl (\<lambda>store event. snd (apply_event store event))"

subsection \<open>The entity an event leaves behind\<close>

text \<open>What an event does to its entity, apart from the store's counters and the hash cache.\<close>

definition next_entity :: "NormalizedEvent \<Rightarrow> EntityState \<Rightarrow> EntityState" where
  "next_entity event entity =
     (case ne_event_type event of
        NE_Snapshot \<Rightarrow>
          if et_closed entity then ignore_entity entity
          else (let (after, invalid) = snapshot_entity event entity
                in if invalid then after\<lparr>et_error_count := et_error_count after + 1\<rparr> else after)
      | NE_Delta \<Rightarrow>
          if et_closed entity then ignore_entity entity
          else if \<not> et_initialized entity
          then mark_entity_packet event
                 (entity\<lparr>et_status := ES_Recovering, et_recovering := True, et_error_count := et_error_count entity + 1\<rparr>)
          else (let loop = apply_changes (et_book entity) (ne_changes event); after = delta_entity event entity loop
                in if dl_bad_side loop \<or> dl_invalid loop then after\<lparr>et_error_count := et_error_count after + 1\<rparr>
                   else if dl_changed loop then after else ignore_entity after)
      | NE_StatusChange \<Rightarrow>
          if et_closed entity then ignore_entity entity
          else (let (after, changed, invalid) = status_entity event entity
                in if invalid then after\<lparr>et_error_count := et_error_count after + 1\<rparr> else after)
      | NE_LifecycleEvent \<Rightarrow> lifecycle_entity event entity
      | _ \<Rightarrow> mark_entity_packet event (ignore_entity entity))"

lemma make_result_keeps [simp]:
  "st_entities (snd (make_result store code entity_id message changed)) = st_entities store"
  "st_runtime_config (snd (make_result store code entity_id message changed)) = st_runtime_config store"
  by (simp_all add: make_result_def Let_def state_hash_def global_hash_def split: prod.splits)

lemma keeps_entities [simp]:
  "st_entities (count_error store) = st_entities store"
  "st_runtime_config (count_error store) = st_runtime_config store"
  "st_entities (put_entity entity_id entity store) = map_update (<) entity_id (\<lambda>_. entity) (st_entities store)"
  "st_runtime_config (put_entity entity_id entity store) = st_runtime_config store"
  by (simp_all add: count_error_def put_entity_def)

lemma get_or_create_cong:
  "st_entities s = st_entities t \<Longrightarrow> get_or_create_entity s entity_id = get_or_create_entity t entity_id"
  by (simp add: get_or_create_entity_def get_entity_def)

lemmas event_handler_defs =
  apply_snapshot_def apply_delta_def apply_status_change_def apply_lifecycle_event_def apply_trade_event_def
  apply_heartbeat_def apply_unknown_def ignore_event_def

lemma apply_event_entities:
  "st_entities (snd (apply_event store event)) =
     (if resolve_entity_id event = [] \<or> ne_event_type event = NE_Heartbeat then st_entities store
      else map_update (<) (resolve_entity_id event)
        (\<lambda>_. next_entity event (get_or_create_entity store (resolve_entity_id event))) (st_entities store))"
  (is "?lhs = ?rhs")
proof -
  have "get_or_create_entity (store\<lparr>st_events_seen := n\<rparr>) i = get_or_create_entity store i" for n i
    by (rule get_or_create_cong) simp
  then show ?thesis
    by (cases "ne_event_type event")
      (simp_all add: apply_event_def event_handler_defs next_entity_def Let_def split: prod.splits)
qed

lemma apply_event_config [simp]: "st_runtime_config (snd (apply_event store event)) = st_runtime_config store"
  by (cases "ne_event_type event") (simp_all add: apply_event_def event_handler_defs Let_def split: prod.splits)

subsection \<open>The type of a store\<close>

definition side_ok :: "(rat \<Rightarrow> rat \<Rightarrow> bool) \<Rightarrow> BookSide \<Rightarrow> bool" where
  "side_ok precedes side \<longleftrightarrow>
     map_sorted precedes side \<and> (\<forall>(price, amount) \<in> set side. 0 \<le> price \<and> price \<le> 1 \<and> 0 < amount)"

definition best_of :: "BookSide \<Rightarrow> rat option" where
  "best_of side = (case side of [] \<Rightarrow> None | (p, _) # _ \<Rightarrow> Some p)"

definition book_ok :: "OrderBookState \<Rightarrow> bool" where
  "book_ok book \<longleftrightarrow>
     side_ok (>) (bk_bids book) \<and> side_ok (<) (bk_asks book) \<and>
     bk_best_bid book = best_of (bk_bids book) \<and> bk_best_ask book = best_of (bk_asks book) \<and>
     bk_crossed book = (\<exists>b a. bk_best_bid book = Some b \<and> bk_best_ask book = Some a \<and> b > a) \<and>
     (\<forall>x. bk_external_best_bid book = Some x \<or> bk_external_best_ask book = Some x \<longrightarrow> 0 \<le> x \<and> x \<le> 1) \<and>
     (\<forall>x. bk_tick_size book = Some x \<longrightarrow> 0 < x)"

text \<open>The status of an entity follows from its flags; only an initialised entity has levels.\<close>

definition entity_ok :: "string \<Rightarrow> EntityState \<Rightarrow> bool" where
  "entity_ok entity_id e \<longleftrightarrow>
     et_entity_id e = entity_id \<and> book_ok (et_book e) \<and>
     et_status e =
       (if et_closed e then ES_Closed
        else if et_initialized e then (if bk_crossed (et_book e) then ES_Inconsistent else ES_Live)
        else if et_recovering e then ES_Recovering else ES_Uninitialized) \<and>
     (et_recovering e \<longrightarrow> \<not> et_initialized e \<and> \<not> et_closed e) \<and>
     (bk_resolved (et_book e) \<longrightarrow> et_closed e) \<and>
     (\<not> et_initialized e \<longrightarrow> bk_bids (et_book e) = [] \<and> bk_asks (et_book e) = [])"

definition store_ok :: "EntityStateStore \<Rightarrow> bool" where
  "store_ok store \<longleftrightarrow>
     map_sorted (<) (st_entities store) \<and> (\<forall>(k, e) \<in> set (st_entities store). k \<noteq> [] \<and> entity_ok k e)"

lemma entity_ok_new [simp]: "entity_ok entity_id (new_entity entity_id)"
  by (simp add: entity_ok_def new_entity_def book_ok_def empty_order_book_def side_ok_def best_of_def)

lemma mark_entity_packet_fields [simp]:
  "et_entity_id (mark_entity_packet event e) = et_entity_id e" "et_book (mark_entity_packet event e) = et_book e"
  "et_status (mark_entity_packet event e) = et_status e" "et_closed (mark_entity_packet event e) = et_closed e"
  "et_initialized (mark_entity_packet event e) = et_initialized e"
  "et_recovering (mark_entity_packet event e) = et_recovering e"
  by (simp_all add: mark_entity_packet_def)

lemma ignore_entity_fields [simp]:
  "et_entity_id (ignore_entity e) = et_entity_id e" "et_book (ignore_entity e) = et_book e"
  "et_status (ignore_entity e) = et_status e" "et_closed (ignore_entity e) = et_closed e"
  "et_initialized (ignore_entity e) = et_initialized e" "et_recovering (ignore_entity e) = et_recovering e"
  by (simp_all add: ignore_entity_def)

lemma entity_ok_simps [simp]:
  "entity_ok i (mark_entity_packet event e) = entity_ok i e" "entity_ok i (ignore_entity e) = entity_ok i e"
  "entity_ok i (e\<lparr>et_error_count := n\<rparr>) = entity_ok i e"
  by (simp_all add: entity_ok_def)

subsection \<open>One side of a book as a map from prices to sizes\<close>

text \<open>The levels of a snapshot as a map: the last valid positive size of each price.\<close>

definition snapshot_map :: "BookLevel list \<Rightarrow> rat \<rightharpoonup> rat" where
  "snapshot_map levels =
     foldl (\<lambda>m l. if valid_price (bl_price l) \<and> valid_size (bl_size l) \<and> 0 < finite_value (bl_size l)
         then m(finite_value (bl_price l) \<mapsto> finite_value (bl_size l)) else m) Map.empty levels"

definition level_map :: "rat \<Rightarrow> rat \<Rightarrow> (rat \<rightharpoonup> rat) \<Rightarrow> (rat \<rightharpoonup> rat)" where
  "level_map price amount m = m(price := if amount = 0 then None else Some amount)"

lemma valid_price_iff: "valid_price x \<longleftrightarrow> (\<exists>p. x = Fin p \<and> 0 \<le> p \<and> p \<le> 1)"
  by (cases x) auto

lemma valid_size_iff: "valid_size x \<longleftrightarrow> (\<exists>s. x = Fin s \<and> 0 \<le> s)"
  by (cases x) auto

lemma valid_tick_size_iff: "valid_tick_size x \<longleftrightarrow> (\<exists>s. x = Fin s \<and> 0 < s)"
  by (cases x) auto

locale book_side = map_order precedes
  for precedes :: "rat \<Rightarrow> rat \<Rightarrow> bool"
begin

lemma update_side:
  assumes "side_ok precedes side" and "0 \<le> price" and "price \<le> 1" and "0 < amount"
  shows "side_ok precedes (map_update precedes price (\<lambda>_. amount) side)"
    and "map_of (map_update precedes price (\<lambda>_. amount) side) = (map_of side)(price \<mapsto> amount)"
  using assms values_update [of precedes price "\<lambda>_. amount" side]
  by (auto simp: side_ok_def sorted_update lookup_update)

lemma apply_level_side:
  assumes "side_ok precedes side" and "0 \<le> price" and "price \<le> 1" and "0 \<le> amount"
  shows "side_ok precedes (apply_level precedes price amount side)"
    and "map_of (apply_level precedes price amount side) = level_map price amount (map_of side)"
  using assms update_side [OF assms(1-3), of amount] values_erase [of price side]
  by (auto simp: apply_level_def level_map_def side_ok_def)

lemma load_side_ok:
  "side_ok precedes (fst (load_side precedes levels)) \<and>
   map_of (fst (load_side precedes levels)) = snapshot_map levels"
proof (induction levels rule: rev_induct)
  case Nil
  then show ?case by (simp add: load_side_def snapshot_map_def side_ok_def)
next
  case (snoc l levels)
  then show ?case
    using update_side [of "fst (load_side precedes levels)" "finite_value (bl_price l)" "finite_value (bl_size l)"]
    by (auto simp: load_side_def snapshot_map_def load_level_def valid_price_iff valid_size_iff)
qed

lemma best_is_first:
  assumes "side_ok precedes side"
  shows "best_of side = Some p \<longleftrightarrow>
    p \<in> dom (map_of side) \<and> (\<forall>q \<in> dom (map_of side). q = p \<or> precedes p q)"
proof (cases side)
  case Nil
  then show ?thesis by (simp add: best_of_def)
next
  case (Cons e rest)
  have dom: "dom (map_of side) = fst ` set side"
    by (simp add: dom_map_of_conv_image_fst)
  have first: "\<forall>q \<in> fst ` set side. q = fst e \<or> precedes (fst e) q"
    using assms Cons by (auto simp: side_ok_def)
  have "p = fst e" if "p \<in> fst ` set side" "\<forall>q \<in> fst ` set side. q = p \<or> precedes p q"
    using first that Cons irrefl trans by (metis image_eqI list.set_intros(1))
  moreover have "best_of side = Some (fst e)" and "fst e \<in> fst ` set side"
    using Cons by (auto simp: best_of_def split: prod.splits)
  ultimately show ?thesis
    unfolding dom using first by (metis option.inject)
qed

end

interpretation bid_side: book_side "(>)"
  by unfold_locales

interpretation ask_side: book_side "(<)"
  by unfold_locales

subsection \<open>Every event keeps the type\<close>

lemma update_best_fields [simp]:
  "bk_bids (update_best_bid_ask b) = bk_bids b" "bk_asks (update_best_bid_ask b) = bk_asks b"
  "bk_resolved (update_best_bid_ask b) = bk_resolved b"
  by (simp_all add: update_best_bid_ask_def Let_def)

lemma update_best_ok:
  assumes "side_ok (>) (bk_bids b)" "side_ok (<) (bk_asks b)"
    "\<forall>x. bk_external_best_bid b = Some x \<or> bk_external_best_ask b = Some x \<longrightarrow> 0 \<le> x \<and> x \<le> 1"
    "\<forall>x. bk_tick_size b = Some x \<longrightarrow> 0 < x"
  shows "book_ok (update_best_bid_ask b)"
  using assms by (auto simp: book_ok_def update_best_bid_ask_def best_of_def Let_def split: list.splits)

lemma snapshot_entity_ok:
  assumes "entity_ok i e" and "\<not> et_closed e"
  shows "entity_ok i (fst (snapshot_entity event e))"
proof -
  obtain bids bad_bids where bids: "load_side (>) (ne_bids event) = (bids, bad_bids)"
    by fastforce
  obtain asks bad_asks where asks: "load_side (<) (ne_asks event) = (asks, bad_asks)"
    by fastforce
  obtain ticked bad_tick where tick: "tick_after event ((et_book e)\<lparr>bk_bids := bids, bk_asks := asks\<rparr>) = (ticked, bad_tick)"
    by fastforce
  have fields: "bk_bids ticked = bids" "bk_asks ticked = asks" "bk_resolved ticked = bk_resolved (et_book e)"
    "bk_external_best_bid ticked = bk_external_best_bid (et_book e)"
    "bk_external_best_ask ticked = bk_external_best_ask (et_book e)"
    "\<forall>x. bk_tick_size ticked = Some x \<longrightarrow> 0 < x"
    using tick assms(1)
    by (auto simp: tick_after_def entity_ok_def book_ok_def valid_tick_size_iff split: option.splits if_splits)
  have "side_ok (>) bids" "side_ok (<) asks"
    using bid_side.load_side_ok [of "ne_bids event"] ask_side.load_side_ok [of "ne_asks event"] bids asks by auto
  then have "book_ok (update_best_bid_ask ticked)"
    using fields assms(1) by (intro update_best_ok) (auto simp: entity_ok_def book_ok_def)
  then show ?thesis
    using assms fields by (simp add: snapshot_entity_def bids asks tick entity_ok_def Let_def)
qed

text \<open>The loop over the changes of a delta.\<close>

lemma apply_changes_simps [simp]:
  "apply_changes book [] = \<lparr>dl_book = book, dl_changed = False, dl_bad_side = False, dl_invalid = False\<rparr>"
  "apply_changes book (changes @ [c]) = apply_change (apply_changes book changes) c"
  by (simp_all add: apply_changes_def)

definition sides_ok :: "OrderBookState \<Rightarrow> bool" where
  "sides_ok b \<longleftrightarrow> side_ok (>) (bk_bids b) \<and> side_ok (<) (bk_asks b)"

definition same_marks :: "OrderBookState \<Rightarrow> OrderBookState \<Rightarrow> bool" where
  "same_marks b b' \<longleftrightarrow>
     bk_external_best_bid b' = bk_external_best_bid b \<and> bk_external_best_ask b' = bk_external_best_ask b \<and>
     bk_tick_size b' = bk_tick_size b \<and> bk_resolved b' = bk_resolved b"

lemma apply_changes_ok:
  assumes "sides_ok book"
  shows "sides_ok (dl_book (apply_changes book changes))"
    and "same_marks book (dl_book (apply_changes book changes))"
    and "\<not> dl_changed (apply_changes book changes) \<Longrightarrow> dl_book (apply_changes book changes) = book"
proof (induction changes rule: rev_induct)
  case Nil
  {
    case 1
    then show ?case using assms by simp
  next
    case 2
    then show ?case by (simp add: same_marks_def)
  next
    case 3
    then show ?case by simp
  }
next
  case (snoc c changes)
  let ?b = "dl_book (apply_changes book changes)"
  have lv: "side_ok (>) (apply_level (>) p s (bk_bids ?b))" "side_ok (<) (apply_level (<) p s (bk_asks ?b))"
    if "0 \<le> p" "p \<le> 1" "0 \<le> s" for p s
    using that snoc.IH(1) by (auto simp: sides_ok_def intro: bid_side.apply_level_side ask_side.apply_level_side)
  {
    case 1
    then show ?case
      using snoc.IH(1) lv
      by (cases "lc_side c") (auto simp: apply_change_def Let_def sides_ok_def valid_price_iff valid_size_iff)
  next
    case 2
    then show ?case
      using snoc.IH(2) by (cases "lc_side c") (auto simp: apply_change_def Let_def same_marks_def)
  next
    case 3
    then show ?case
      using snoc.IH(3) by (cases "lc_side c") (auto simp: apply_change_def Let_def split: if_splits)
  }
qed

lemma delta_entity_ok:
  assumes "entity_ok i e" and "\<not> et_closed e" and "et_initialized e"
  shows "entity_ok i (delta_entity event e (apply_changes (et_book e) changes))"
proof -
  let ?loop = "apply_changes (et_book e) changes"
  have "sides_ok (et_book e)"
    using assms(1) by (simp add: entity_ok_def book_ok_def sides_ok_def)
  note loop = apply_changes_ok [OF this, of changes]
  show ?thesis
  proof (cases "dl_changed ?loop")
    case True
    have "book_ok (update_best_bid_ask (dl_book ?loop))"
      using loop(1,2) assms(1)
      by (intro update_best_ok) (auto simp: entity_ok_def book_ok_def sides_ok_def same_marks_def)
    then show ?thesis
      using assms True loop(2) by (simp add: delta_entity_def Let_def entity_ok_def same_marks_def)
  next
    case False
    then show ?thesis
      using assms(1) loop(3) by (simp add: delta_entity_def entity_ok_def)
  qed
qed

lemma take_field_ok:
  assumes "take_field valid given old = (new, taken, bad)" and "\<forall>x. old = Some x \<longrightarrow> P x"
    and "\<And>x. valid x \<Longrightarrow> P (finite_value x)"
  shows "\<forall>x. new = Some x \<longrightarrow> P x"
  using assms by (auto simp: take_field_def split: option.splits if_splits)

lemma status_entity_ok:
  assumes "entity_ok i e" and "\<not> et_closed e"
  shows "entity_ok i (fst (status_entity event e))"
proof -
  let ?b = "et_book e"
  obtain tick t1 t2 where tick: "take_field valid_tick_size (ne_tick_size event) (bk_tick_size ?b) = (tick, t1, t2)"
    by (cases "take_field valid_tick_size (ne_tick_size event) (bk_tick_size ?b)") auto
  obtain bid b1 b2 where bid: "take_field valid_price (ne_best_bid event) (bk_external_best_bid ?b) = (bid, b1, b2)"
    by (cases "take_field valid_price (ne_best_bid event) (bk_external_best_bid ?b)") auto
  obtain ask a1 a2 where ask: "take_field valid_price (ne_best_ask event) (bk_external_best_ask ?b) = (ask, a1, a2)"
    by (cases "take_field valid_price (ne_best_ask event) (bk_external_best_ask ?b)") auto
  have b: "book_ok ?b"
    using assms(1) by (simp add: entity_ok_def)
  have "\<forall>x. tick = Some x \<longrightarrow> 0 < x" "\<forall>x. bid = Some x \<longrightarrow> 0 \<le> x \<and> x \<le> 1" "\<forall>x. ask = Some x \<longrightarrow> 0 \<le> x \<and> x \<le> 1"
    using b by (intro take_field_ok [OF tick] take_field_ok [OF bid] take_field_ok [OF ask];
        fastforce simp: book_ok_def valid_price_iff valid_tick_size_iff)+
  then show ?thesis
    using assms b by (auto simp: status_entity_def tick bid ask entity_ok_def book_ok_def Let_def)
qed

lemma lifecycle_entity_ok: "entity_ok i e \<Longrightarrow> entity_ok i (lifecycle_entity event e)"
  by (auto simp: lifecycle_entity_def Let_def entity_ok_def book_ok_def)

lemma next_entity_ok:
  assumes "entity_ok i e"
  shows "entity_ok i (next_entity event e)"
proof (cases "ne_event_type event")
  case NE_Snapshot
  then show ?thesis
    using snapshot_entity_ok [OF assms, of event] assms by (auto simp: next_entity_def split: prod.splits)
next
  case NE_Delta
  have "entity_ok i (e\<lparr>et_status := ES_Recovering, et_recovering := True, et_error_count := et_error_count e + 1\<rparr>)"
    if "\<not> et_initialized e" "\<not> et_closed e"
    using assms that by (simp add: entity_ok_def)
  then show ?thesis
    using NE_Delta delta_entity_ok [OF assms, of event "ne_changes event"] assms by (auto simp: next_entity_def Let_def)
next
  case NE_StatusChange
  then show ?thesis
    using status_entity_ok [OF assms, of event] assms by (auto simp: next_entity_def split: prod.splits)
next
  case NE_LifecycleEvent
  then show ?thesis
    using lifecycle_entity_ok [OF assms] by (simp add: next_entity_def)
qed (use assms in \<open>simp_all add: next_entity_def\<close>)

lemma get_or_create_ok: "store_ok store \<Longrightarrow> entity_ok i (get_or_create_entity store i)"
  by (auto simp: get_or_create_entity_def get_entity_def store_ok_def split: option.splits dest!: map_of_SomeD)

lemma apply_event_ok:
  assumes "store_ok store"
  shows "store_ok (snd (apply_event store event))"
proof -
  let ?i = "resolve_entity_id event"
  have sorted: "map_sorted (<) (st_entities store)"
    using assms by (simp add: store_ok_def)
  have "entity_ok ?i (next_entity event (get_or_create_entity store ?i))"
    by (intro next_entity_ok get_or_create_ok assms)
  then show ?thesis
    using assms values_update [of "(<)" ?i "\<lambda>_. next_entity event (get_or_create_entity store ?i)" "st_entities store"]
    by (auto simp: store_ok_def apply_event_entities ascending.sorted_update [OF sorted])
qed

lemma run_store_ok: "store_ok store \<Longrightarrow> store_ok (run_store store events)"
  by (induction events arbitrary: store) (simp_all add: run_store_def apply_event_ok)

lemma store_ok_initial [simp]: "store_ok (make_entity_store config)"
  by (simp add: store_ok_def make_entity_store_def)

text \<open>C37: Types. After any sequence of feed events the store is well typed: entities are sorted and named by
  their keys, bids descend and asks ascend within the prices from 0 to 1 with positive sizes, best
  prices and the crossed flag are those of the levels, and the status is the one its flags determine.\<close>

theorem store_well_typed: "store_ok (run_store (make_entity_store config) events)"
  by (rule run_store_ok) simp

subsection \<open>Refinement: a book is two maps from prices to sizes\<close>

text \<open>
  The specification of an entity: whether it has received a snapshot and is closed, and two maps. A
  snapshot replaces the maps, a change overwrites or removes one price, closing ends all changes.
\<close>

record SpecEntity =
  sp_initialized :: bool
  sp_closed :: bool
  sp_bids :: "rat \<rightharpoonup> rat"
  sp_asks :: "rat \<rightharpoonup> rat"

definition spec_new :: SpecEntity where
  "spec_new = \<lparr>sp_initialized = False, sp_closed = False, sp_bids = Map.empty, sp_asks = Map.empty\<rparr>"

definition spec_change :: "SpecEntity \<Rightarrow> PriceLevelChange \<Rightarrow> SpecEntity" where
  "spec_change x c =
     (let price = finite_value (lc_price c); amount = finite_value (lc_size c) in
      if \<not> valid_price (lc_price c) \<or> \<not> valid_size (lc_size c) then x
      else (case lc_side c of
          NS_Bid \<Rightarrow> x\<lparr>sp_bids := level_map price amount (sp_bids x)\<rparr>
        | NS_Ask \<Rightarrow> x\<lparr>sp_asks := level_map price amount (sp_asks x)\<rparr>
        | NS_Unknown \<Rightarrow> x))"

definition spec_event :: "NormalizedEvent \<Rightarrow> SpecEntity \<Rightarrow> SpecEntity" where
  "spec_event event x =
     (case ne_event_type event of
        NE_Snapshot \<Rightarrow>
          if sp_closed x then x
          else x\<lparr>sp_initialized := True, sp_bids := snapshot_map (ne_bids event), sp_asks := snapshot_map (ne_asks event)\<rparr>
      | NE_Delta \<Rightarrow> if sp_closed x \<or> \<not> sp_initialized x then x else foldl spec_change x (ne_changes event)
      | NE_LifecycleEvent \<Rightarrow>
          if ne_raw_type event \<in> {''market_resolved'', ''market_closed''} then x\<lparr>sp_closed := True\<rparr> else x
      | _ \<Rightarrow> x)"

definition spec_step :: "(string \<Rightarrow> SpecEntity) \<Rightarrow> NormalizedEvent \<Rightarrow> string \<Rightarrow> SpecEntity" where
  "spec_step m event =
     (if resolve_entity_id event = [] then m
      else m(resolve_entity_id event := spec_event event (m (resolve_entity_id event))))"

definition abs_entity :: "EntityState \<Rightarrow> SpecEntity" where
  "abs_entity e = \<lparr>sp_initialized = et_initialized e, sp_closed = et_closed e,
     sp_bids = map_of (bk_bids (et_book e)), sp_asks = map_of (bk_asks (et_book e))\<rparr>"

definition abs_store :: "EntityStateStore \<Rightarrow> string \<Rightarrow> SpecEntity" where
  "abs_store store entity_id = abs_entity (get_or_create_entity store entity_id)"

text \<open>The quoted best prices are the largest bid and the smallest ask of the maps.\<close>

definition quotes_best :: "EntityStateStore \<Rightarrow> (string \<Rightarrow> SpecEntity) \<Rightarrow> bool" where
  "quotes_best store m \<longleftrightarrow>
     (\<forall>entity_id p.
        (bk_best_bid (et_book (get_or_create_entity store entity_id)) = Some p \<longleftrightarrow>
           p \<in> dom (sp_bids (m entity_id)) \<and> (\<forall>q \<in> dom (sp_bids (m entity_id)). q \<le> p)) \<and>
        (bk_best_ask (et_book (get_or_create_entity store entity_id)) = Some p \<longleftrightarrow>
           p \<in> dom (sp_asks (m entity_id)) \<and> (\<forall>q \<in> dom (sp_asks (m entity_id)). p \<le> q)))"

lemma abs_entity_simps [simp]:
  "abs_entity (mark_entity_packet event e) = abs_entity e" "abs_entity (ignore_entity e) = abs_entity e"
  "abs_entity (e\<lparr>et_error_count := n\<rparr>) = abs_entity e"
  by (simp_all add: abs_entity_def)

lemma apply_changes_refine:
  assumes "sides_ok book" and "sp_bids x = map_of (bk_bids book)" and "sp_asks x = map_of (bk_asks book)"
  shows "foldl spec_change x changes =
    x\<lparr>sp_bids := map_of (bk_bids (dl_book (apply_changes book changes))),
      sp_asks := map_of (bk_asks (dl_book (apply_changes book changes)))\<rparr>"
proof (induction changes rule: rev_induct)
  case Nil
  then show ?case using assms by simp
next
  case (snoc c changes)
  let ?b = "dl_book (apply_changes book changes)"
  have "sides_ok ?b"
    by (rule apply_changes_ok(1) [OF assms(1)])
  then have maps: "map_of (apply_level (>) p s (bk_bids ?b)) = level_map p s (map_of (bk_bids ?b))"
    "map_of (apply_level (<) p s (bk_asks ?b)) = level_map p s (map_of (bk_asks ?b))"
    if "0 \<le> p" "p \<le> 1" "0 \<le> s" for p s
    using that by (simp_all add: sides_ok_def bid_side.apply_level_side ask_side.apply_level_side)
  show ?case
    using snoc maps
    by (cases "lc_side c") (auto simp: spec_change_def apply_change_def Let_def valid_price_iff valid_size_iff)
qed

lemma next_entity_refines:
  assumes "entity_ok i e"
  shows "abs_entity (next_entity event e) = spec_event event (abs_entity e)"
proof (cases "ne_event_type event")
  case NE_Snapshot
  have "sp_bids (abs_entity (fst (snapshot_entity event e))) = snapshot_map (ne_bids event)"
    "sp_asks (abs_entity (fst (snapshot_entity event e))) = snapshot_map (ne_asks event)"
    "sp_initialized (abs_entity (fst (snapshot_entity event e)))"
    "\<not> sp_closed (abs_entity (fst (snapshot_entity event e)))"
    using bid_side.load_side_ok [of "ne_bids event"] ask_side.load_side_ok [of "ne_asks event"]
    by (auto simp: snapshot_entity_def abs_entity_def tick_after_def Let_def split: prod.splits option.splits if_splits)
  then show ?thesis
    using NE_Snapshot by (auto simp: next_entity_def spec_event_def abs_entity_def split: prod.splits)
next
  case NE_Delta
  have ok: "sides_ok (et_book e)"
    using assms by (simp add: entity_ok_def book_ok_def sides_ok_def)
  have refine: "foldl spec_change (abs_entity e) (ne_changes event) =
      (abs_entity e)\<lparr>sp_bids := map_of (bk_bids (dl_book (apply_changes (et_book e) (ne_changes event)))),
        sp_asks := map_of (bk_asks (dl_book (apply_changes (et_book e) (ne_changes event))))\<rparr>"
    by (rule apply_changes_refine [OF ok]) (simp_all add: abs_entity_def)
  have "abs_entity (delta_entity event e (apply_changes (et_book e) (ne_changes event))) =
      foldl spec_change (abs_entity e) (ne_changes event)"
    unfolding refine by (simp add: delta_entity_def abs_entity_def Let_def)
  moreover have "abs_entity (e\<lparr>et_status := ES_Recovering, et_recovering := True, et_error_count := n\<rparr>) = abs_entity e" for n
    by (simp add: abs_entity_def)
  moreover have "sp_closed (abs_entity e) = et_closed e" "sp_initialized (abs_entity e) = et_initialized e"
    by (simp_all add: abs_entity_def)
  ultimately show ?thesis
    using NE_Delta by (simp add: next_entity_def spec_event_def Let_def)
next
  case NE_StatusChange
  have "abs_entity (fst (status_entity event e)) = abs_entity e"
    by (simp add: status_entity_def abs_entity_def Let_def split: prod.splits)
  then show ?thesis
    using NE_StatusChange by (auto simp: next_entity_def spec_event_def split: prod.splits)
next
  case NE_LifecycleEvent
  then show ?thesis
    by (simp add: next_entity_def spec_event_def lifecycle_entity_def abs_entity_def Let_def)
qed (simp_all add: next_entity_def spec_event_def)

lemma get_or_create_after:
  assumes "store_ok store"
  shows "get_or_create_entity (snd (apply_event store event)) i =
    (if i = resolve_entity_id event \<and> i \<noteq> [] \<and> ne_event_type event \<noteq> NE_Heartbeat
     then next_entity event (get_or_create_entity store i) else get_or_create_entity store i)"
proof -
  have "map_sorted (<) (st_entities store)"
    using assms by (simp add: store_ok_def)
  from ascending.lookup_update [OF this] show ?thesis
    by (auto simp: get_or_create_entity_def get_entity_def apply_event_entities)
qed

lemma apply_event_refines:
  assumes "store_ok store"
  shows "abs_store (snd (apply_event store event)) = spec_step (abs_store store) event"
proof
  fix i
  have "spec_event event x = x" if "ne_event_type event = NE_Heartbeat" for x
    using that by (simp add: spec_event_def)
  then show "abs_store (snd (apply_event store event)) i = spec_step (abs_store store) event i"
    using next_entity_refines [OF get_or_create_ok [OF assms], of event i]
    by (auto simp: abs_store_def spec_step_def get_or_create_after [OF assms])
qed

lemma run_store_refines:
  "store_ok store \<Longrightarrow> abs_store (run_store store events) = foldl spec_step (abs_store store) events"
  by (induction events arbitrary: store) (simp_all add: run_store_def apply_event_ok apply_event_refines)

lemma abs_store_initial: "abs_store (make_entity_store config) = (\<lambda>_. spec_new)"
  by (simp add: fun_eq_iff abs_store_def get_or_create_entity_def get_entity_def make_entity_store_def
      abs_entity_def new_entity_def empty_order_book_def spec_new_def)

lemma quotes_best_abs:
  assumes "store_ok store"
  shows "quotes_best store (abs_store store)"
proof -
  have "book_ok (et_book (get_or_create_entity store i))" for i
    using get_or_create_ok [OF assms, of i] by (simp add: entity_ok_def)
  moreover have "bk_best_bid b = Some p \<longleftrightarrow>
        p \<in> dom (map_of (bk_bids b)) \<and> (\<forall>q \<in> dom (map_of (bk_bids b)). q \<le> p)"
      "bk_best_ask b = Some p \<longleftrightarrow>
        p \<in> dom (map_of (bk_asks b)) \<and> (\<forall>q \<in> dom (map_of (bk_asks b)). p \<le> q)" if "book_ok b" for b p
    using that bid_side.best_is_first [of "bk_bids b" p] ask_side.best_is_first [of "bk_asks b" p]
    by (simp_all add: book_ok_def le_less disj_commute eq_commute [of p])
  ultimately show ?thesis
    by (simp add: quotes_best_def abs_store_def abs_entity_def)
qed

text \<open>C36: Books are price maps. Over any sequence of feed events the store implements its specification: every entity's bids
  and asks are the maps that the snapshots and changes describe, an entity takes changes only after
  a snapshot and none once it is closed, and the quoted best prices are the extremes of the maps.\<close>

theorem books_refine_price_maps:
  "abs_store (run_store (make_entity_store config) events) = foldl spec_step (\<lambda>_. spec_new) events \<and>
   quotes_best (run_store (make_entity_store config) events) (foldl spec_step (\<lambda>_. spec_new) events)"
proof -
  have ok: "store_ok (run_store (make_entity_store config) events)"
    by (rule run_store_ok) simp
  have abs: "abs_store (run_store (make_entity_store config) events) = foldl spec_step (\<lambda>_. spec_new) events"
    using run_store_refines [of "make_entity_store config" events] by (simp add: abs_store_initial)
  then show ?thesis
    using quotes_best_abs [OF ok] by simp
qed

subsection \<open>Recovery\<close>

definition closes :: "string \<Rightarrow> NormalizedEvent \<Rightarrow> bool" where
  "closes entity_id event \<longleftrightarrow>
     ne_event_type event = NE_LifecycleEvent \<and> resolve_entity_id event = entity_id \<and>
     ne_raw_type event \<in> {''market_resolved'', ''market_closed''}"

definition has_snapshot :: "string \<Rightarrow> NormalizedEvent list \<Rightarrow> bool" where
  "has_snapshot entity_id events \<longleftrightarrow>
     (\<exists>event \<in> set events. ne_event_type event = NE_Snapshot \<and> resolve_entity_id event = entity_id)"

lemma foldl_spec_change_flags [simp]:
  "sp_initialized (foldl spec_change x changes) = sp_initialized x"
  "sp_closed (foldl spec_change x changes) = sp_closed x"
  by (induction changes rule: rev_induct)
    (simp_all add: spec_change_def Let_def split: NormalizedSide.splits)

lemma spec_run_flags:
  assumes "entity_id \<noteq> []" and "\<not> list_ex (closes entity_id) events"
  shows "\<not> sp_closed (foldl spec_step (\<lambda>_. spec_new) events entity_id)"
    and "sp_initialized (foldl spec_step (\<lambda>_. spec_new) events entity_id) \<longleftrightarrow> has_snapshot entity_id events"
proof -
  have "\<not> sp_closed (foldl spec_step (\<lambda>_. spec_new) events entity_id) \<and>
     (sp_initialized (foldl spec_step (\<lambda>_. spec_new) events entity_id) \<longleftrightarrow> has_snapshot entity_id events)"
    using assms(2)
  proof (induction events rule: rev_induct)
    case Nil
    then show ?case by (simp add: spec_new_def has_snapshot_def)
  next
    case (snoc event events)
    then show ?case
      using assms(1) by (auto simp: spec_step_def spec_event_def has_snapshot_def closes_def
          split: NormalizedEventType.splits)
  qed
  then show "\<not> sp_closed (foldl spec_step (\<lambda>_. spec_new) events entity_id)"
    and "sp_initialized (foldl spec_step (\<lambda>_. spec_new) events entity_id) \<longleftrightarrow> has_snapshot entity_id events"
    by auto
qed

text \<open>C38: Recovery. As long as an entity is not closed, one snapshot is enough to make it usable, whatever came before
  it (deltas without a book, invalid values) and whatever follows: from then on its status is Live,
  or Inconsistent exactly while its best bid is above its best ask, and it is never again Recovering.\<close>

theorem snapshot_recovers:
  assumes "entity_id \<noteq> []" and "\<not> list_ex (closes entity_id) events" and "has_snapshot entity_id events"
  shows "entity_initialized (run_store (make_entity_store config) events) entity_id \<and>
    entity_status (run_store (make_entity_store config) events) entity_id =
      (case get_entity (run_store (make_entity_store config) events) entity_id of
         Some e \<Rightarrow> if bk_crossed (et_book e) then ES_Inconsistent else ES_Live | None \<Rightarrow> ES_Recovering)"
proof -
  let ?s = "run_store (make_entity_store config) events" and ?e = "get_or_create_entity (run_store (make_entity_store config) events) entity_id"
  have "store_ok ?s"
    by (rule run_store_ok) simp
  then have "entity_ok entity_id ?e"
    by (rule get_or_create_ok)
  moreover have "abs_entity ?e = foldl spec_step (\<lambda>_. spec_new) events entity_id"
    using run_store_refines [of "make_entity_store config" events, THEN fun_cong, of entity_id]
    by (simp add: abs_store_initial abs_store_def [of ?s])
  moreover have "sp_closed (abs_entity ?e) = et_closed ?e" "sp_initialized (abs_entity ?e) = et_initialized ?e"
    by (simp_all add: abs_entity_def)
  ultimately have e: "\<not> et_closed ?e" "et_initialized ?e"
    "et_status ?e = (if bk_crossed (et_book ?e) then ES_Inconsistent else ES_Live)"
    using spec_run_flags [OF assms(1,2)] assms(3) by (auto simp: entity_ok_def)
  then have "get_entity ?s entity_id = Some ?e"
    by (auto simp: get_or_create_entity_def new_entity_def split: option.splits)
  then show ?thesis
    using e by (simp add: entity_initialized_def entity_status_def)
qed

subsection \<open>Reported hashes\<close>

lemma cached_entity_hash_dirty:
  assumes "map_of entities entity_id = Some e" and "entity_id \<noteq> []"
  shows "fst (cached_entity_hash entity_id entities (snd (take_access_stats (mark_dirty entity_id cache)))) = hash_entity e"
  using assms by (simp add: cached_entity_hash_def take_access_stats_def mark_dirty_def Let_def default_cache_entry_def
      split: option.splits)

lemma cached_hash_keeps_dirty:
  "hc_global_dirty (snd (cached_entity_hash entity_id entities cache)) = hc_global_dirty cache"
  by (simp add: cached_entity_hash_def Let_def split: option.splits)

lemma dirty_after_mark [simp]: "hc_global_dirty (snd (take_access_stats (mark_dirty entity_id cache)))"
  by (simp add: take_access_stats_def mark_dirty_def Let_def)

text \<open>A result that reports a change carries the hashes of the entity and of the whole store.\<close>

definition hashes_fresh :: "StateApplyResult \<times> EntityStateStore \<Rightarrow> bool" where
  "hashes_fresh out \<longleftrightarrow>
     (sr_state_changed (fst out) \<longrightarrow>
        sr_full_hash_computed (fst out) \<and>
        sr_entity_hash (fst out) = debug_recomputed_state_hash (snd out) (sr_entity_id (fst out)) \<and>
        sr_global_hash (fst out) = debug_recomputed_global_hash (snd out))"

lemma make_result_fresh:
  assumes "sc_hash_mode (st_runtime_config store) \<noteq> HotPathLight"
    and "changed \<Longrightarrow> entity_id \<noteq> [] \<and> store_contains store entity_id"
  shows "hashes_fresh (make_result store code entity_id message changed)"
proof (cases changed)
  case False
  then show ?thesis
    by (simp add: hashes_fresh_def make_result_def Let_def)
next
  case True
  then obtain e where e: "map_of (st_entities store) entity_id = Some e" and id: "entity_id \<noteq> []"
    using assms(2) by (auto simp: get_entity_def store_contains_def)
  obtain h cache where c: "cached_entity_hash entity_id (st_entities store)
      (snd (take_access_stats (mark_dirty entity_id (st_hash_cache store)))) = (h, cache)"
    by fastforce
  then have "h = hash_entity e" and "hc_global_dirty cache"
    using cached_entity_hash_dirty [OF e id, of "st_hash_cache store"]
      cached_hash_keeps_dirty [of entity_id "st_entities store" "snd (take_access_stats (mark_dirty entity_id (st_hash_cache store)))"]
    by simp_all
  then show ?thesis
    using True assms(1) id e
    by (simp add: hashes_fresh_def make_result_def Let_def state_hash_def global_hash_def cached_global_hash_def c
        debug_recomputed_state_hash_def debug_recomputed_global_hash_def get_entity_def
        split: prod.splits)
qed

lemma mark_keeps_fresh [simp]:
  "hashes_fresh (map_prod mark_book_snapshot (\<lambda>s. s) out) = hashes_fresh out"
  "hashes_fresh (map_prod mark_book_delta (\<lambda>s. s) out) = hashes_fresh out"
  "hashes_fresh (map_prod mark_lifecycle (\<lambda>s. s) out) = hashes_fresh out"
  by (cases out; simp add: hashes_fresh_def mark_book_snapshot_def mark_book_delta_def mark_lifecycle_def)+

lemma put_entity_present [simp]: "store_contains (put_entity entity_id e store) entity_id"
  by (simp add: store_contains_def get_entity_def map_of_eq_None_iff put_entity_def)

lemma ignore_event_config [simp]: "st_runtime_config (ignore_event store event) = st_runtime_config store"
  by (simp add: ignore_event_def Let_def)

text \<open>C39: Fresh hashes. When full hashes are computed, every event that reports a change also reports the hash of its entity
  and of the whole store as a recomputation from scratch would give them, not a value cached earlier.\<close>

theorem changed_event_hashes_fresh:
  assumes "sc_hash_mode (st_runtime_config store) \<noteq> HotPathLight"
    and "sr_state_changed (fst (apply_event store event))"
  shows "sr_full_hash_computed (fst (apply_event store event)) \<and>
    sr_entity_hash (fst (apply_event store event)) =
      debug_recomputed_state_hash (snd (apply_event store event)) (sr_entity_id (fst (apply_event store event))) \<and>
    sr_global_hash (fst (apply_event store event)) = debug_recomputed_global_hash (snd (apply_event store event))"
proof -
  let ?seen = "store\<lparr>st_events_seen := st_events_seen store + 1\<rparr>"
  have mode: "sc_hash_mode (st_runtime_config ?seen) \<noteq> HotPathLight"
    using assms(1) by simp
  have "hashes_fresh (apply_event store event)"
    using mode by (cases "ne_event_type event")
      (auto simp: apply_event_def event_handler_defs Let_def intro!: make_result_fresh split: prod.splits)
  then show ?thesis
    using assms(2) by (simp add: hashes_fresh_def)
qed

text \<open>A delta for an unknown entity, then a snapshot of it.\<close>

definition sample_event :: "NormalizedEventType \<Rightarrow> NormalizedEvent" where
  "sample_event kind = \<lparr>ne_packet_id = 7, ne_recv_wall_ns = 0, ne_recv_monotonic_ns = 5,
     ne_source_id = PolymarketMarket, ne_event_type = kind, ne_raw_type = ''book'', ne_entity_id = ''a'',
     ne_asset_id = ''a'', ne_market_id = ''m'', ne_condition_id = [], ne_event_ts = 0,
     ne_bids = [\<lparr>bl_price = Fin (2/5), bl_size = Fin 10\<rparr>], ne_asks = [\<lparr>bl_price = Fin (3/5), bl_size = Fin 10\<rparr>],
     ne_changes = [\<lparr>lc_side = NS_Bid, lc_price = Fin (1/2), lc_size = Fin 3\<rparr>], ne_best_bid = None,
     ne_best_ask = None, ne_tick_size = None, ne_winning_asset_id = [], ne_warnings = []\<rparr>"

definition sample_events :: "NormalizedEvent list" where
  "sample_events = [sample_event NE_Delta, sample_event NE_Snapshot, sample_event NE_TradeEvent]"

theorem snapshot_recovers_witness:
  "entity_initialized (run_store (make_entity_store legacy_replay_full_config) sample_events) ''a''"
proof -
  have "\<not> list_ex (closes ''a'') sample_events" and "has_snapshot ''a'' sample_events"
    by (simp_all add: sample_events_def sample_event_def closes_def has_snapshot_def resolve_entity_id_def)
  with snapshot_recovers [of "''a''" sample_events legacy_replay_full_config] show ?thesis
    by simp
qed

theorem changed_event_hashes_fresh_witness:
  "sr_full_hash_computed (fst (apply_event (make_entity_store legacy_replay_full_config) (sample_event NE_Delta)))"
proof -
  have mode: "sc_hash_mode (st_runtime_config (make_entity_store legacy_replay_full_config)) \<noteq> HotPathLight"
    by (simp add: make_entity_store_def legacy_replay_full_config_def)
  have "sr_state_changed (fst (apply_event (make_entity_store legacy_replay_full_config) (sample_event NE_Delta)))"
    by (simp add: apply_event_def apply_delta_def sample_event_def resolve_entity_id_def Let_def
        get_or_create_entity_def get_entity_def make_entity_store_def new_entity_def make_result_def
        mark_book_delta_def split: prod.splits)
  with changed_event_hashes_fresh [OF mode] show ?thesis
    by simp
qed

text \<open>
  A trade changes what \<^const>\<open>hash_entity\<close> reads (the count of ignored events) without marking the cached
  hash, so that \<^const>\<open>state_hash\<close> still answers for the entity as it was before.
\<close>

lemma ignored_event_keeps_cached_hash:
  assumes "store_ok store" and "get_entity store i = Some e"
    and "hc_entity_hashes (st_hash_cache store) i = Some c" and "\<not> ce_dirty c" and "ce_entity_hash c = hash_entity e"
    and "ne_event_type event = NE_TradeEvent" and "resolve_entity_id event = i" and "i \<noteq> []"
  shows "fst (state_hash i (snd (apply_event store event))) = hash_entity e"
    and "get_entity (snd (apply_event store event)) i = Some (mark_entity_packet event (ignore_entity e))"
proof -
  have "map_sorted (<) (st_entities store)"
    using assms(1) by (simp add: store_ok_def)
  note lookup = ascending.lookup_update [OF this]
  have e: "get_or_create_entity store i = e"
    using assms(2) by (simp add: get_or_create_entity_def)
  show after: "get_entity (snd (apply_event store event)) i = Some (mark_entity_packet event (ignore_entity e))"
    using assms(6-8) e by (simp add: get_entity_def apply_event_entities lookup next_entity_def)
  have "st_hash_cache (snd (apply_event store event)) = st_hash_cache store"
    using assms(6-8) by (simp add: apply_event_def apply_trade_event_def ignore_event_def make_result_def Let_def put_entity_def)
  then show "fst (state_hash i (snd (apply_event store event))) = hash_entity e"
    using assms(3-5) after by (simp add: state_hash_def cached_entity_hash_def get_entity_def Let_def)
qed

lemma hash_entity_ignores_name: "hash_entity (e\<lparr>et_entity_id := name, et_market_id := market\<rparr>) = hash_entity e"
  by (simp add: hash_entity_def)

end
