(* ===== verification/ChainState.thy ===== *)
theory ChainState
  imports MarketBooks
begin

section \<open>Market state: confirmed trades, settlement and data quality\<close>

text \<open>
  \<open>engine/state/chain\<close> (\<open>ChainStateWriter\<close>, \<open>ConfirmedTradeWindow\<close>, \<open>SettlementStateWriter\<close>),
  \<open>engine/state/quality\<close> (\<open>DataQualityGate\<close>, \<open>ReconciliationState\<close>), the record of a classified fill
  (\<open>engine/chain_confirm\<close>) and \<open>engine/state/core/MarketStateEvent\<close> with its adapter. The unordered
  maps are maps. Lemmas: the windows count every confirmed fill that was not removed exactly once, and
  the fills the writer holds are those that stand by the history of events alone.
\<close>

subsection \<open>Fills and market state events\<close>

datatype ConfirmedDirection = CD_Unknown | BuyAggressor | SellAggressor

datatype FillMappingStatus = FM_Mapped | FM_UnmappedFill | FM_AmbiguousFill

datatype FillClassification = FC_Unknown | FC_ChainConfirmed | FC_ChainRemoved | FC_UnmappedFill | FC_AmbiguousFill

record ConfirmedFill =
  cf_fill_id :: string
  cf_order_hash :: string
  cf_market_id :: string
  cf_asset_id :: string
  cf_price_tick :: i64
  cf_size_lots :: i64
  cf_direction :: ConfirmedDirection
  cf_mapping_status :: FillMappingStatus
  cf_block_number :: u64
  cf_tx_hash :: string
  cf_log_index :: u32
  cf_chain_seen_monotonic_ns :: u64
  cf_removed :: bool

record ClassifiedFillRecord =
  cr_fill_id :: string
  cr_order_hash :: string
  cr_market_id :: string
  cr_asset_id :: string
  cr_price_tick :: i64
  cr_size_lots :: i64
  cr_direction :: ConfirmedDirection
  cr_mapping_status :: FillMappingStatus
  cr_classification :: FillClassification
  cr_block_number :: u64
  cr_tx_hash :: string
  cr_log_index :: u32
  cr_chain_seen_monotonic_ns :: u64
  cr_source_sequence :: u64
  cr_removed :: bool

definition default_classified_fill :: ClassifiedFillRecord where
  "default_classified_fill = \<lparr>cr_fill_id = [], cr_order_hash = [], cr_market_id = [], cr_asset_id = [],
     cr_price_tick = 0, cr_size_lots = 0, cr_direction = CD_Unknown, cr_mapping_status = FM_UnmappedFill,
     cr_classification = FC_Unknown, cr_block_number = 0, cr_tx_hash = [], cr_log_index = 0,
     cr_chain_seen_monotonic_ns = 0, cr_source_sequence = 0, cr_removed = False\<rparr>"

definition classify_confirmed_fill :: "ConfirmedFill \<Rightarrow> u64 \<Rightarrow> ClassifiedFillRecord" where
  "classify_confirmed_fill fill source_sequence =
     \<lparr>cr_fill_id = cf_fill_id fill, cr_order_hash = cf_order_hash fill, cr_market_id = cf_market_id fill,
      cr_asset_id = cf_asset_id fill, cr_price_tick = cf_price_tick fill, cr_size_lots = cf_size_lots fill,
      cr_direction = cf_direction fill, cr_mapping_status = cf_mapping_status fill,
      cr_classification =
        (if cf_removed fill then FC_ChainRemoved
         else if cf_mapping_status fill = FM_Mapped then FC_ChainConfirmed
         else if cf_mapping_status fill = FM_AmbiguousFill then FC_AmbiguousFill else FC_UnmappedFill),
      cr_block_number = cf_block_number fill, cr_tx_hash = cf_tx_hash fill, cr_log_index = cf_log_index fill,
      cr_chain_seen_monotonic_ns = cf_chain_seen_monotonic_ns fill, cr_source_sequence = source_sequence,
      cr_removed = cf_removed fill\<rparr>"

datatype MarketStateEventType =
    WsBookSnapshot | WsBookDelta | WsHeartbeat | WsLifecycle | ChainConfirmedFill | ChainRemovedFill
  | ChainSettlement | DataQualityUpdate

record MarketStateEvent =
  me_type :: MarketStateEventType
  me_market_id :: string
  me_asset_id :: string
  me_recv_monotonic_ns :: u64
  me_source_sequence :: u64
  me_ws_event :: NormalizedEvent
  me_chain_fill :: ClassifiedFillRecord

definition default_normalized_event :: NormalizedEvent where
  "default_normalized_event = \<lparr>ne_packet_id = 0, ne_recv_wall_ns = 0, ne_recv_monotonic_ns = 0,
     ne_source_id = SourceUnknown, ne_event_type = NE_Unknown, ne_raw_type = [], ne_entity_id = [],
     ne_asset_id = [], ne_market_id = [], ne_condition_id = [], ne_event_ts = 0, ne_bids = [], ne_asks = [],
     ne_changes = [], ne_best_bid = None, ne_best_ask = None, ne_tick_size = None, ne_winning_asset_id = [],
     ne_warnings = []\<rparr>"

fun ws_event_type :: "NormalizedEventType \<Rightarrow> MarketStateEventType" where
  "ws_event_type NE_Snapshot = WsBookSnapshot"
| "ws_event_type NE_Delta = WsBookDelta"
| "ws_event_type NE_Heartbeat = WsHeartbeat"
| "ws_event_type NE_LifecycleEvent = WsLifecycle"
| "ws_event_type _ = DataQualityUpdate"

definition from_normalized_event :: "NormalizedEvent \<Rightarrow> MarketStateEvent" where
  "from_normalized_event event =
     \<lparr>me_type = ws_event_type (ne_event_type event), me_market_id = ne_market_id event,
      me_asset_id = ne_asset_id event, me_recv_monotonic_ns = ne_recv_monotonic_ns event,
      me_source_sequence = ne_packet_id event, me_ws_event = event, me_chain_fill = default_classified_fill\<rparr>"

definition from_normalized_batch :: "NormalizedEvent list \<Rightarrow> MarketStateEvent list" where
  "from_normalized_batch events = map from_normalized_event events"

definition from_classified_fill :: "ClassifiedFillRecord \<Rightarrow> MarketStateEvent" where
  "from_classified_fill fill =
     \<lparr>me_type = (if cr_removed fill \<or> cr_classification fill = FC_ChainRemoved then ChainRemovedFill
        else if cr_classification fill = FC_ChainConfirmed then ChainConfirmedFill else DataQualityUpdate),
      me_market_id = cr_market_id fill, me_asset_id = cr_asset_id fill,
      me_recv_monotonic_ns = cr_chain_seen_monotonic_ns fill, me_source_sequence = cr_source_sequence fill,
      me_ws_event = default_normalized_event, me_chain_fill = fill\<rparr>"

subsection \<open>Confirmed trades\<close>

record ConfirmedTradeState =
  ct_version :: u64
  ct_last_block_number :: u64
  ct_last_chain_seen_ns :: u64
  ct_has_last_trade :: bool
  ct_last_trade_price_tick :: i64
  ct_last_trade_size_lots :: i64
  ct_last_taker_side :: AggressorSide
  ct_confirmed_buy_lots_2s :: i64
  ct_confirmed_sell_lots_2s :: i64
  ct_confirmed_buy_lots_10s :: i64
  ct_confirmed_sell_lots_10s :: i64
  ct_unknown_fill_count_recent :: u32
  ct_ambiguous_fill_count_recent :: u32
  ct_removed_fill_count_recent :: u32

definition default_trade_state :: ConfirmedTradeState where
  "default_trade_state = \<lparr>ct_version = 0, ct_last_block_number = 0, ct_last_chain_seen_ns = 0,
     ct_has_last_trade = False, ct_last_trade_price_tick = 0, ct_last_trade_size_lots = 0,
     ct_last_taker_side = AS_Unknown, ct_confirmed_buy_lots_2s = 0, ct_confirmed_sell_lots_2s = 0,
     ct_confirmed_buy_lots_10s = 0, ct_confirmed_sell_lots_10s = 0, ct_unknown_fill_count_recent = 0,
     ct_ambiguous_fill_count_recent = 0, ct_removed_fill_count_recent = 0\<rparr>"

record WindowEntry =
  we_fill_id :: string
  we_chain_seen_ns :: u64
  we_side :: AggressorSide
  we_size_lots :: i64
  we_removed :: bool

definition window_add :: "string \<Rightarrow> u64 \<Rightarrow> AggressorSide \<Rightarrow> i64 \<Rightarrow> WindowEntry list \<Rightarrow> WindowEntry list" where
  "window_add fill_id chain_seen_ns side size_lots entries =
     entries @ [\<lparr>we_fill_id = fill_id, we_chain_seen_ns = chain_seen_ns, we_side = side,
       we_size_lots = size_lots, we_removed = False\<rparr>]"

definition window_mark_removed :: "string \<Rightarrow> WindowEntry list \<Rightarrow> bool \<times> WindowEntry list" where
  "window_mark_removed fill_id entries =
     (list_ex (\<lambda>e. we_fill_id e = fill_id \<and> \<not> we_removed e) entries,
      map (\<lambda>e. if we_fill_id e = fill_id \<and> \<not> we_removed e then e\<lparr>we_removed := True\<rparr> else e) entries)"

record WindowTotals =
  wt_buy_lots :: i64
  wt_sell_lots :: i64

definition in_window :: "u64 \<Rightarrow> u64 \<Rightarrow> u64 \<Rightarrow> bool" where
  "in_window now_ns window_ns seen_ns \<longleftrightarrow> \<not> seen_ns > now_ns \<and> \<not> now_ns - seen_ns > window_ns"

definition window_totals :: "WindowEntry list \<Rightarrow> u64 \<Rightarrow> u64 \<Rightarrow> WindowTotals" where
  "window_totals entries now_ns window_ns =
     foldl (\<lambda>out e.
         if we_removed e \<or> \<not> in_window now_ns window_ns (we_chain_seen_ns e) then out
         else (case we_side e of
             AS_Buy \<Rightarrow> out\<lparr>wt_buy_lots := wrap_i64 (wt_buy_lots out + we_size_lots e)\<rparr>
           | AS_Sell \<Rightarrow> out\<lparr>wt_sell_lots := wrap_i64 (wt_sell_lots out + we_size_lots e)\<rparr>
           | AS_Unknown \<Rightarrow> out))
       \<lparr>wt_buy_lots = 0, wt_sell_lots = 0\<rparr> entries"

record AppliedFill =
  af_entity_id :: string
  af_side :: AggressorSide
  af_size_lots :: i64
  af_chain_seen_ns :: u64
  af_counted_volume :: bool
  af_removed :: bool

record ChainStateWriter =
  cw_states :: "string \<rightharpoonup> ConfirmedTradeState"
  cw_windows :: "string \<rightharpoonup> WindowEntry list"
  cw_fills :: "string \<rightharpoonup> AppliedFill"

definition empty_chain_writer :: ChainStateWriter where
  "empty_chain_writer = \<lparr>cw_states = Map.empty, cw_windows = Map.empty, cw_fills = Map.empty\<rparr>"

datatype ChainApplyCode =
    CA_Applied | CA_IgnoredNonChainEvent | CA_MissingEntityId | CA_UnknownDirection | CA_AmbiguousFill
  | CA_RemovedFill | CA_DuplicateFill

record ChainApplyResult =
  ca_code :: ChainApplyCode
  ca_entity_id :: string
  ca_fill_id :: string
  ca_state_changed :: bool
  ca_message :: string

definition chain_result_ok :: "ChainApplyResult \<Rightarrow> bool" where
  "chain_result_ok r \<longleftrightarrow> ca_code r \<noteq> CA_MissingEntityId"

definition kTwoSecondsNs :: u64 where
  "kTwoSecondsNs = 2000000000"

definition kTenSecondsNs :: u64 where
  "kTenSecondsNs = 10000000000"

fun map_direction :: "ConfirmedDirection \<Rightarrow> AggressorSide" where
  "map_direction BuyAggressor = AS_Buy"
| "map_direction SellAggressor = AS_Sell"
| "map_direction CD_Unknown = AS_Unknown"

definition is_ambiguous :: "ClassifiedFillRecord \<Rightarrow> bool" where
  "is_ambiguous fill \<longleftrightarrow> cr_classification fill = FC_AmbiguousFill \<or> cr_mapping_status fill = FM_AmbiguousFill"

definition has_chain_fill :: "ClassifiedFillRecord \<Rightarrow> bool" where
  "has_chain_fill fill \<longleftrightarrow> cr_fill_id fill \<noteq> [] \<or> cr_classification fill \<noteq> FC_Unknown \<or>
     cr_mapping_status fill \<noteq> FM_UnmappedFill"

definition chain_entity_id :: "MarketStateEvent \<Rightarrow> string" where
  "chain_entity_id event =
     (if cr_asset_id (me_chain_fill event) \<noteq> [] then cr_asset_id (me_chain_fill event)
      else if me_asset_id event \<noteq> [] then me_asset_id event
      else if cr_market_id (me_chain_fill event) \<noteq> [] then cr_market_id (me_chain_fill event)
      else me_market_id event)"

definition trade_state_at :: "ChainStateWriter \<Rightarrow> string \<Rightarrow> ConfirmedTradeState" where
  "trade_state_at w entity_id = (case cw_states w entity_id of None \<Rightarrow> default_trade_state | Some s \<Rightarrow> s)"

definition window_at :: "ChainStateWriter \<Rightarrow> string \<Rightarrow> WindowEntry list" where
  "window_at w entity_id = (case cw_windows w entity_id of None \<Rightarrow> [] | Some es \<Rightarrow> es)"

definition put_trade_state :: "string \<Rightarrow> ConfirmedTradeState \<Rightarrow> ChainStateWriter \<Rightarrow> ChainStateWriter" where
  "put_trade_state entity_id s w = w\<lparr>cw_states := (cw_states w)(entity_id \<mapsto> s)\<rparr>"

definition put_window :: "string \<Rightarrow> WindowEntry list \<Rightarrow> ChainStateWriter \<Rightarrow> ChainStateWriter" where
  "put_window entity_id es w = w\<lparr>cw_windows := (cw_windows w)(entity_id \<mapsto> es)\<rparr>"

definition refresh_windows :: "string \<Rightarrow> u64 \<Rightarrow> ChainStateWriter \<Rightarrow> ChainStateWriter" where
  "refresh_windows entity_id now_ns w =
     (let es = window_at w entity_id;
          two = window_totals es now_ns kTwoSecondsNs; ten = window_totals es now_ns kTenSecondsNs
      in put_window entity_id es
           (put_trade_state entity_id
              ((trade_state_at w entity_id)\<lparr>ct_confirmed_buy_lots_2s := wt_buy_lots two,
                 ct_confirmed_sell_lots_2s := wt_sell_lots two, ct_confirmed_buy_lots_10s := wt_buy_lots ten,
                 ct_confirmed_sell_lots_10s := wt_sell_lots ten\<rparr>) w))"

definition chain_result ::
  "ChainApplyCode \<Rightarrow> string \<Rightarrow> string \<Rightarrow> bool \<Rightarrow> string \<Rightarrow> ChainApplyResult" where
  "chain_result code entity_id fill_id changed message =
     \<lparr>ca_code = code, ca_entity_id = entity_id, ca_fill_id = fill_id, ca_state_changed = changed, ca_message = message\<rparr>"

definition apply_confirmed :: "ChainStateWriter \<Rightarrow> MarketStateEvent \<Rightarrow> ChainApplyResult \<times> ChainStateWriter" where
  "apply_confirmed w event =
     (let fill = me_chain_fill event; entity_id = chain_entity_id event; fill_id = cr_fill_id fill;
          now = cr_chain_seen_monotonic_ns fill; old = trade_state_at w entity_id;
          seen = old\<lparr>ct_last_block_number := max (ct_last_block_number old) (cr_block_number fill),
                     ct_last_chain_seen_ns := now\<rparr>;
          next = seen\<lparr>ct_version := ct_version seen + 1\<rparr>;
          side = map_direction (cr_direction fill)
      in
      if entity_id = []
      then (chain_result CA_MissingEntityId entity_id fill_id False ''chain fill missing asset_id and market_id'', w)
      else if fill_id \<noteq> [] \<and> (case cw_fills w fill_id of Some f \<Rightarrow> \<not> af_removed f | None \<Rightarrow> False)
      then (chain_result CA_DuplicateFill entity_id fill_id True ''duplicate chain fill ignored'',
            refresh_windows entity_id now (put_trade_state entity_id next w))
      else if is_ambiguous fill
      then (chain_result CA_AmbiguousFill entity_id fill_id True ''ambiguous chain fill counted without direction'',
            refresh_windows entity_id now (put_trade_state entity_id
              (next\<lparr>ct_ambiguous_fill_count_recent := ct_ambiguous_fill_count_recent next + 1\<rparr>) w))
      else if side = AS_Unknown
      then (chain_result CA_UnknownDirection entity_id fill_id True ''unknown chain fill direction counted without volume'',
            refresh_windows entity_id now (put_trade_state entity_id
              (next\<lparr>ct_unknown_fill_count_recent := ct_unknown_fill_count_recent next + 1\<rparr>) w))
      else
        (let traded = put_trade_state entity_id
               (next\<lparr>ct_has_last_trade := True, ct_last_trade_price_tick := cr_price_tick fill,
                     ct_last_trade_size_lots := cr_size_lots fill, ct_last_taker_side := side\<rparr>) w;
             counted = (if fill_id = [] then traded
               else put_window entity_id
                      (window_add fill_id now side (cr_size_lots fill) (window_at traded entity_id))
                      (traded\<lparr>cw_fills := (cw_fills traded)(fill_id \<mapsto>
                        \<lparr>af_entity_id = entity_id, af_side = side, af_size_lots = cr_size_lots fill,
                         af_chain_seen_ns = now, af_counted_volume = True, af_removed = False\<rparr>)\<rparr>))
         in (chain_result CA_Applied entity_id fill_id True ''chain fill applied to confirmed trade state'',
             refresh_windows entity_id now counted)))"

definition apply_removed :: "ChainStateWriter \<Rightarrow> MarketStateEvent \<Rightarrow> ChainApplyResult \<times> ChainStateWriter" where
  "apply_removed w event =
     (let fill = me_chain_fill event; entity_id = chain_entity_id event; fill_id = cr_fill_id fill;
          now = cr_chain_seen_monotonic_ns fill; old = trade_state_at w entity_id;
          counted = put_trade_state entity_id
            (old\<lparr>ct_version := ct_version old + 1,
                 ct_removed_fill_count_recent := ct_removed_fill_count_recent old + 1,
                 ct_last_block_number := max (ct_last_block_number old) (cr_block_number fill),
                 ct_last_chain_seen_ns := now\<rparr>) w
      in
      if entity_id = []
      then (chain_result CA_MissingEntityId entity_id fill_id False ''removed chain fill missing asset_id and market_id'', w)
      else
        (chain_result CA_RemovedFill entity_id fill_id True ''chain fill removed by reorg'',
         refresh_windows entity_id now
           (case cw_fills counted fill_id of
              None \<Rightarrow> counted
            | Some f \<Rightarrow>
                if af_removed f then counted
                else
                  (let marked = counted\<lparr>cw_fills := (cw_fills counted)(fill_id \<mapsto> f\<lparr>af_removed := True\<rparr>)\<rparr>
                   in if af_counted_volume f
                      then put_window (af_entity_id f)
                             (snd (window_mark_removed fill_id (window_at marked (af_entity_id f)))) marked
                      else marked))))"

definition chain_apply :: "ChainStateWriter \<Rightarrow> MarketStateEvent \<Rightarrow> ChainApplyResult \<times> ChainStateWriter" where
  "chain_apply w event =
     (let fill = me_chain_fill event in
      if me_type event = ChainRemovedFill \<or> cr_removed fill \<or> cr_classification fill = FC_ChainRemoved
      then apply_removed w event
      else if me_type event = ChainConfirmedFill \<or> has_chain_fill fill then apply_confirmed w event
      else (chain_result CA_IgnoredNonChainEvent [] [] False ''non-chain event ignored by ChainStateWriter'', w))"

definition chain_get :: "ChainStateWriter \<Rightarrow> string \<Rightarrow> ConfirmedTradeState option" where
  "chain_get w entity_id = cw_states w entity_id"

definition chain_version :: "ChainStateWriter \<Rightarrow> string \<Rightarrow> u64" where
  "chain_version w entity_id = (case chain_get w entity_id of None \<Rightarrow> 0 | Some s \<Rightarrow> ct_version s)"

subsection \<open>Settlement\<close>

datatype SettlementStatus = SS_Unknown | SS_Open | SS_Closed | SS_Resolved

record SettlementState =
  se_status :: SettlementStatus
  se_resolved :: bool
  se_winning_asset_id :: string
  se_last_update_block :: u64
  se_version :: u64

definition default_settlement :: SettlementState where
  "default_settlement = \<lparr>se_status = SS_Open, se_resolved = False, se_winning_asset_id = [],
     se_last_update_block = 0, se_version = 0\<rparr>"

datatype SettlementApplyCode = SC_Applied | SC_MissingMarketId

record SettlementApplyResult =
  sl_code :: SettlementApplyCode
  sl_market_id :: string
  sl_status :: SettlementStatus
  sl_state_changed :: bool
  sl_message :: string

type_synonym SettlementStateWriter = "string \<rightharpoonup> SettlementState"

definition settlement_apply_status ::
  "SettlementStateWriter \<Rightarrow> string \<Rightarrow> SettlementStatus \<Rightarrow> string \<Rightarrow> u64
     \<Rightarrow> SettlementApplyResult \<times> SettlementStateWriter" where
  "settlement_apply_status w market_id status winning_asset_id block_number =
     (if market_id = []
      then (\<lparr>sl_code = SC_MissingMarketId, sl_market_id = market_id, sl_status = status, sl_state_changed = False,
             sl_message = ''settlement update missing market_id''\<rparr>, w)
      else
        (let old = (case w market_id of None \<Rightarrow> default_settlement | Some s \<Rightarrow> s)
         in (\<lparr>sl_code = SC_Applied, sl_market_id = market_id, sl_status = status, sl_state_changed = True,
              sl_message = ''settlement state updated''\<rparr>,
             w(market_id \<mapsto> old\<lparr>se_status := status, se_resolved := (status = SS_Resolved),
               se_winning_asset_id := winning_asset_id, se_last_update_block := block_number,
               se_version := se_version old + 1\<rparr>))))"

definition mark_open :: "SettlementStateWriter \<Rightarrow> string \<Rightarrow> u64 \<Rightarrow> SettlementApplyResult \<times> SettlementStateWriter" where
  "mark_open w market_id block_number = settlement_apply_status w market_id SS_Open [] block_number"

definition mark_closed :: "SettlementStateWriter \<Rightarrow> string \<Rightarrow> u64 \<Rightarrow> SettlementApplyResult \<times> SettlementStateWriter" where
  "mark_closed w market_id block_number = settlement_apply_status w market_id SS_Closed [] block_number"

definition mark_resolved ::
  "SettlementStateWriter \<Rightarrow> string \<Rightarrow> string \<Rightarrow> u64 \<Rightarrow> SettlementApplyResult \<times> SettlementStateWriter" where
  "mark_resolved w market_id winning_asset_id block_number =
     settlement_apply_status w market_id SS_Resolved winning_asset_id block_number"

subsection \<open>Data quality\<close>

record ReconciliationState =
  rc_version :: u64
  rc_last_update_ns :: u64
  rc_chain_ws_match_count_recent :: u32
  rc_chain_ws_mismatch_count_recent :: u32
  rc_ambiguous_count_recent :: u32
  rc_unmatched_count_recent :: u32

definition default_reconciliation :: ReconciliationState where
  "default_reconciliation = \<lparr>rc_version = 0, rc_last_update_ns = 0, rc_chain_ws_match_count_recent = 0,
     rc_chain_ws_mismatch_count_recent = 0, rc_ambiguous_count_recent = 0, rc_unmatched_count_recent = 0\<rparr>"

definition touch_reconciliation :: "u64 \<Rightarrow> ReconciliationState \<Rightarrow> ReconciliationState" where
  "touch_reconciliation now_ns r = r\<lparr>rc_version := rc_version r + 1, rc_last_update_ns := now_ns\<rparr>"

definition record_match :: "u64 \<Rightarrow> ReconciliationState \<Rightarrow> ReconciliationState" where
  "record_match now_ns r =
     (touch_reconciliation now_ns r)\<lparr>rc_chain_ws_match_count_recent := rc_chain_ws_match_count_recent r + 1\<rparr>"

definition record_mismatch :: "u64 \<Rightarrow> ReconciliationState \<Rightarrow> ReconciliationState" where
  "record_mismatch now_ns r =
     (touch_reconciliation now_ns r)\<lparr>rc_chain_ws_mismatch_count_recent := rc_chain_ws_mismatch_count_recent r + 1\<rparr>"

definition record_ambiguous :: "u64 \<Rightarrow> ReconciliationState \<Rightarrow> ReconciliationState" where
  "record_ambiguous now_ns r =
     (touch_reconciliation now_ns r)\<lparr>rc_ambiguous_count_recent := rc_ambiguous_count_recent r + 1\<rparr>"

definition record_unmatched :: "u64 \<Rightarrow> ReconciliationState \<Rightarrow> ReconciliationState" where
  "record_unmatched now_ns r =
     (touch_reconciliation now_ns r)\<lparr>rc_unmatched_count_recent := rc_unmatched_count_recent r + 1\<rparr>"

record BookQualityState =
  bq_quality :: BookQuality
  bq_ws_live :: bool
  bq_chain_live :: bool
  bq_last_ws_recv_ns :: u64
  bq_last_chain_seen_ns :: u64
  bq_ws_decode_errors_recent :: u32
  bq_state_errors_recent :: u32
  bq_chain_decode_errors_recent :: u32
  bq_chain_ws_mismatch_count_recent :: u32
  bq_usable_for_depth :: bool
  bq_usable_for_signal :: bool

definition default_book_quality :: BookQualityState where
  "default_book_quality = \<lparr>bq_quality = BQ_Unknown, bq_ws_live = False, bq_chain_live = False,
     bq_last_ws_recv_ns = 0, bq_last_chain_seen_ns = 0, bq_ws_decode_errors_recent = 0,
     bq_state_errors_recent = 0, bq_chain_decode_errors_recent = 0, bq_chain_ws_mismatch_count_recent = 0,
     bq_usable_for_depth = False, bq_usable_for_signal = False\<rparr>"

record DataQualityGateConfig =
  dg_ws_stale_timeout_ns :: u64
  dg_chain_lag_timeout_ns :: u64

definition default_gate_config :: DataQualityGateConfig where
  "default_gate_config = \<lparr>dg_ws_stale_timeout_ns = 2000000000, dg_chain_lag_timeout_ns = 10000000000\<rparr>"

record DataQualityInput =
  dq_entity :: "EntityState option"
  dq_confirmed_trade_state :: "ConfirmedTradeState option"
  dq_reconciliation :: ReconciliationState
  dq_now_ns :: u64
  dq_ws_decode_errors_recent :: u32
  dq_state_errors_recent :: u32
  dq_chain_decode_errors_recent :: u32

definition age_exceeds :: "u64 \<Rightarrow> u64 \<Rightarrow> u64 \<Rightarrow> bool" where
  "age_exceeds now_ns last_seen_ns timeout_ns \<longleftrightarrow>
     (if now_ns = 0 \<or> last_seen_ns = 0 then False
      else if now_ns < last_seen_ns then False else now_ns - last_seen_ns > timeout_ns)"

definition crossed_book :: "EntityState \<Rightarrow> bool" where
  "crossed_book e \<longleftrightarrow>
     (if bk_crossed (et_book e) then True
      else case (bk_best_bid (et_book e), bk_best_ask (et_book e)) of (Some b, Some a) \<Rightarrow> b > a | _ \<Rightarrow> False)"

definition set_usability :: "BookQualityState \<Rightarrow> BookQualityState" where
  "set_usability s =
     (case bq_quality s of
        BQ_Good \<Rightarrow> s\<lparr>bq_usable_for_depth := True, bq_usable_for_signal := True\<rparr>
      | BQ_ChainLagging \<Rightarrow> s\<lparr>bq_usable_for_depth := True, bq_usable_for_signal := False\<rparr>
      | BQ_ChainMismatch \<Rightarrow> s\<lparr>bq_usable_for_depth := True, bq_usable_for_signal := False\<rparr>
      | _ \<Rightarrow> s\<lparr>bq_usable_for_depth := False, bq_usable_for_signal := False\<rparr>)"

definition gate_ws_live :: "DataQualityGateConfig \<Rightarrow> DataQualityInput \<Rightarrow> bool" where
  "gate_ws_live config input =
     (case dq_entity input of
        None \<Rightarrow> False
      | Some e \<Rightarrow> et_last_update_monotonic_ns e \<noteq> 0 \<and>
          \<not> age_exceeds (dq_now_ns input) (et_last_update_monotonic_ns e) (dg_ws_stale_timeout_ns config))"

definition gate_chain_live :: "DataQualityGateConfig \<Rightarrow> DataQualityInput \<Rightarrow> bool" where
  "gate_chain_live config input =
     (case dq_confirmed_trade_state input of
        None \<Rightarrow> False
      | Some c \<Rightarrow> ct_last_chain_seen_ns c \<noteq> 0 \<and>
          \<not> age_exceeds (dq_now_ns input) (ct_last_chain_seen_ns c) (dg_chain_lag_timeout_ns config))"

definition gate_quality :: "DataQualityGateConfig \<Rightarrow> DataQualityInput \<Rightarrow> BookQuality" where
  "gate_quality config input =
     (case dq_entity input of
        None \<Rightarrow> BQ_Recovering
      | Some e \<Rightarrow>
          if \<not> et_initialized e \<or> et_recovering e \<or> et_status e = ES_Recovering \<or> dq_state_errors_recent input > 0
          then BQ_Recovering
          else if et_closed e \<or> et_status e = ES_Closed then BQ_Closed
          else if bk_resolved (et_book e) then BQ_Resolved
          else if crossed_book e then BQ_Crossed
          else if \<not> gate_ws_live config input then BQ_Stale
          else if \<not> gate_chain_live config input \<or> dq_chain_decode_errors_recent input > 0 then BQ_ChainLagging
          else if rc_chain_ws_mismatch_count_recent (dq_reconciliation input) > 0 then BQ_ChainMismatch
          else BQ_Good)"

definition gate_evaluate :: "DataQualityGateConfig \<Rightarrow> DataQualityInput \<Rightarrow> BookQualityState" where
  "gate_evaluate config input =
     set_usability \<lparr>bq_quality = gate_quality config input, bq_ws_live = gate_ws_live config input,
       bq_chain_live = gate_chain_live config input,
       bq_last_ws_recv_ns = (case dq_entity input of None \<Rightarrow> 0 | Some e \<Rightarrow> et_last_update_monotonic_ns e),
       bq_last_chain_seen_ns = (case dq_confirmed_trade_state input of None \<Rightarrow> 0 | Some c \<Rightarrow> ct_last_chain_seen_ns c),
       bq_ws_decode_errors_recent = dq_ws_decode_errors_recent input,
       bq_state_errors_recent = dq_state_errors_recent input,
       bq_chain_decode_errors_recent = dq_chain_decode_errors_recent input,
       bq_chain_ws_mismatch_count_recent = rc_chain_ws_mismatch_count_recent (dq_reconciliation input),
       bq_usable_for_depth = False, bq_usable_for_signal = False\<rparr>"

subsection \<open>The windows count every fill once\<close>

definition chain_run :: "ChainStateWriter \<Rightarrow> MarketStateEvent list \<Rightarrow> ChainStateWriter" where
  "chain_run = foldl (\<lambda>w event. snd (chain_apply w event))"

text \<open>The fills that stand: confirmed for the entity and not removed.\<close>

definition standing_fill :: "ChainStateWriter \<Rightarrow> string \<Rightarrow> string \<Rightarrow> bool" where
  "standing_fill w entity_id fill_id \<longleftrightarrow>
     (case cw_fills w fill_id of Some f \<Rightarrow> \<not> af_removed f \<and> af_entity_id f = entity_id | None \<Rightarrow> False)"

definition fill_entry :: "ChainStateWriter \<Rightarrow> string \<Rightarrow> WindowEntry" where
  "fill_entry w fill_id =
     (case cw_fills w fill_id of
        Some f \<Rightarrow> \<lparr>we_fill_id = fill_id, we_chain_seen_ns = af_chain_seen_ns f, we_side = af_side f,
          we_size_lots = af_size_lots f, we_removed = False\<rparr>
      | None \<Rightarrow> \<lparr>we_fill_id = fill_id, we_chain_seen_ns = 0, we_side = AS_Unknown, we_size_lots = 0, we_removed = False\<rparr>)"

definition live_entries :: "WindowEntry list \<Rightarrow> WindowEntry list" where
  "live_entries es = filter (\<lambda>e. \<not> we_removed e) es"

text \<open>The live entries of an entity's window are its standing fills, each once.\<close>

definition windows_ok :: "ChainStateWriter \<Rightarrow> bool" where
  "windows_ok w \<longleftrightarrow>
     (\<forall>i. distinct (live_entries (window_at w i)) \<and>
          set (live_entries (window_at w i)) = fill_entry w ` {f. standing_fill w i f}) \<and>
     (\<forall>f a. cw_fills w f = Some a \<longrightarrow> af_counted_volume a)"

lemma window_at_put [simp]:
  "window_at (put_window i es w) j = (if j = i then es else window_at w j)"
  "window_at (put_trade_state i s w) j = window_at w j"
  "window_at (w\<lparr>cw_fills := fs\<rparr>) j = window_at w j"
  by (simp_all add: window_at_def put_window_def put_trade_state_def)

lemma fills_put [simp]:
  "cw_fills (put_window i es w) = cw_fills w" "cw_fills (put_trade_state i s w) = cw_fills w"
  by (simp_all add: put_window_def put_trade_state_def)

lemma refresh_keeps [simp]:
  "window_at (refresh_windows i now w) j = window_at w j" "cw_fills (refresh_windows i now w) = cw_fills w"
  by (simp_all add: refresh_windows_def Let_def)

lemma windows_ok_cong:
  assumes "cw_fills w = cw_fills w'" and "\<And>i. window_at w i = window_at w' i"
  shows "windows_ok w \<longleftrightarrow> windows_ok w'"
  using assms by (simp add: windows_ok_def standing_fill_def fill_entry_def)

lemma live_entries_simps [simp]:
  "live_entries [] = []" "live_entries (es @ fs) = live_entries es @ live_entries fs"
  "live_entries (e # es) = (if we_removed e then live_entries es else e # live_entries es)"
  by (simp_all add: live_entries_def)

lemma live_after_removal:
  "live_entries (snd (window_mark_removed f es)) = filter (\<lambda>e. we_fill_id e \<noteq> f) (live_entries es)"
  by (induction es) (auto simp: window_mark_removed_def)

lemma live_entry_id: "windows_ok w \<Longrightarrow> e \<in> set (live_entries (window_at w i)) \<Longrightarrow> standing_fill w i (we_fill_id e)"
  by (auto simp: windows_ok_def fill_entry_def standing_fill_def split: option.splits)

lemma windows_ok_add:
  assumes ok: "windows_ok w" and new: "\<And>j. \<not> standing_fill w j f"
    and a: "a = \<lparr>af_entity_id = i, af_side = side, af_size_lots = n, af_chain_seen_ns = now,
      af_counted_volume = True, af_removed = False\<rparr>"
    and fills: "cw_fills w' = (cw_fills w)(f \<mapsto> a)"
    and window: "\<And>j. window_at w' j = (if j = i then window_add f now side n (window_at w i) else window_at w j)"
  shows "windows_ok w'"
proof -
  let ?e = "\<lparr>we_fill_id = f, we_chain_seen_ns = now, we_side = side, we_size_lots = n, we_removed = False\<rparr>"
  have live: "live_entries (window_at w' j) = live_entries (window_at w j) @ (if j = i then [?e] else [])" for j
    by (simp add: window_add_def window)
  have "standing_fill w' j g \<longleftrightarrow> standing_fill w j g \<or> (g = f \<and> j = i)" for j g
    using new by (auto simp: standing_fill_def fills a)
  then have standing: "{g. standing_fill w' j g} = {g. standing_fill w j g} \<union> (if j = i then {f} else {})" for j
    by auto
  have other: "fill_entry w' g = fill_entry w g" if "standing_fill w j g" for g j
    using that new by (cases "g = f") (auto simp: fill_entry_def fills)
  have entry: "fill_entry w' f = ?e"
    by (simp add: fill_entry_def fills a)
  have image: "fill_entry w' ` {g. standing_fill w j g} = fill_entry w ` {g. standing_fill w j g}" for j
    using other by (intro image_cong) auto
  have "?e \<notin> set (live_entries (window_at w i))"
    using live_entry_id [OF ok, of ?e i] new by auto
  then show ?thesis
    using ok unfolding windows_ok_def live standing
    by (auto simp: image_Un image entry fills a)
qed

lemma windows_ok_remove:
  assumes ok: "windows_ok w" and f: "cw_fills w f = Some a" "\<not> af_removed a"
    and fills: "cw_fills w' = (cw_fills w)(f \<mapsto> a\<lparr>af_removed := True\<rparr>)"
    and window: "\<And>j. window_at w' j =
      (if j = af_entity_id a then snd (window_mark_removed f (window_at w j)) else window_at w j)"
  shows "windows_ok w'"
proof -
  have id_of: "we_fill_id (fill_entry w g) = g" for g
    by (simp add: fill_entry_def split: option.splits)
  have only: "j = af_entity_id a" if "standing_fill w j f" for j
    using that f by (simp add: standing_fill_def)
  have live: "live_entries (window_at w' j) = filter (\<lambda>e. we_fill_id e \<noteq> f) (live_entries (window_at w j))" for j
  proof (cases "j = af_entity_id a")
    case True
    then show ?thesis by (simp add: live_after_removal window)
  next
    case False
    then have "\<forall>e \<in> set (live_entries (window_at w j)). we_fill_id e \<noteq> f"
      using live_entry_id [OF ok, of _ j] only by auto
    then show ?thesis
      using False by (simp add: window)
  qed
  have standing: "standing_fill w' j g \<longleftrightarrow> standing_fill w j g \<and> g \<noteq> f" for j g
    by (simp add: standing_fill_def fills)
  have same: "fill_entry w' g = fill_entry w g" if "g \<noteq> f" for g
    using that by (simp add: fill_entry_def fills)
  have "fill_entry w' ` {g. standing_fill w' j g} = {e \<in> fill_entry w ` {g. standing_fill w j g}. we_fill_id e \<noteq> f}" for j
    using same by (force simp: standing id_of)
  then show ?thesis
    using ok f by (auto simp: windows_ok_def live fills)
qed

lemma apply_confirmed_effect:
  obtains (same) "cw_fills (snd (apply_confirmed w event)) = cw_fills w"
      "\<And>j. window_at (snd (apply_confirmed w event)) j = window_at w j"
  | (added) f side n now where "\<And>j. \<not> standing_fill w j f"
      "cw_fills (snd (apply_confirmed w event)) = (cw_fills w)(f \<mapsto> \<lparr>af_entity_id = chain_entity_id event,
         af_side = side, af_size_lots = n, af_chain_seen_ns = now, af_counted_volume = True, af_removed = False\<rparr>)"
      "\<And>j. window_at (snd (apply_confirmed w event)) j =
         (if j = chain_entity_id event then window_add f now side n (window_at w j) else window_at w j)"
proof -
  let ?fill = "me_chain_fill event"
  let ?f = "cr_fill_id ?fill"
  let ?dup = "case cw_fills w ?f of Some a \<Rightarrow> \<not> af_removed a | None \<Rightarrow> False"
  show ?thesis
  proof (cases "chain_entity_id event = [] \<or> ?f = [] \<or> ?dup \<or> is_ambiguous ?fill \<or>
      map_direction (cr_direction ?fill) = AS_Unknown")
    case True
    then show ?thesis
      by (intro same) (auto simp: apply_confirmed_def Let_def)
  next
    case False
    then have "\<not> standing_fill w j ?f" for j
      by (auto simp: standing_fill_def split: option.splits)
    then show ?thesis
      using False by (intro added [of ?f "map_direction (cr_direction ?fill)" "cr_size_lots ?fill"
          "cr_chain_seen_monotonic_ns ?fill"]) (auto simp: apply_confirmed_def Let_def)
  qed
qed

lemma apply_removed_effect:
  assumes "windows_ok w"
  obtains (same) "cw_fills (snd (apply_removed w event)) = cw_fills w"
      "\<And>j. window_at (snd (apply_removed w event)) j = window_at w j"
  | (removed) f a where "cw_fills w f = Some a" "\<not> af_removed a"
      "cw_fills (snd (apply_removed w event)) = (cw_fills w)(f \<mapsto> a\<lparr>af_removed := True\<rparr>)"
      "\<And>j. window_at (snd (apply_removed w event)) j =
         (if j = af_entity_id a then snd (window_mark_removed f (window_at w j)) else window_at w j)"
proof -
  let ?f = "cr_fill_id (me_chain_fill event)"
  show ?thesis
  proof (cases "chain_entity_id event = [] \<or> (case cw_fills w ?f of Some a \<Rightarrow> af_removed a | None \<Rightarrow> True)")
    case True
    then show ?thesis
      by (intro same) (auto simp: apply_removed_def Let_def split: option.splits)
  next
    case False
    then obtain a where a: "cw_fills w ?f = Some a" "\<not> af_removed a"
      by (auto split: option.splits)
    moreover have "af_counted_volume a"
      using assms a by (auto simp: windows_ok_def)
    ultimately show ?thesis
      using False by (intro removed [of ?f a]) (auto simp: apply_removed_def Let_def)
  qed
qed

lemma windows_ok_step:
  assumes ok: "windows_ok w"
  shows "windows_ok (snd (chain_apply w event))"
proof -
  have "windows_ok (snd (apply_confirmed w event))"
  proof (cases rule: apply_confirmed_effect [of w event])
    case same
    then show ?thesis using ok windows_ok_cong by blast
  next
    case (added f side n now)
    then show ?thesis
      by (intro windows_ok_add [OF ok added(1) refl added(2)]) auto
  qed
  moreover have "windows_ok (snd (apply_removed w event))"
    using ok
  proof (cases rule: apply_removed_effect [of w event])
    case same
    then show ?thesis using ok windows_ok_cong by blast
  next
    case (removed f a)
    then show ?thesis
      by (intro windows_ok_remove [OF ok removed(1-3)]) auto
  qed
  ultimately show ?thesis
    using ok by (simp add: chain_apply_def Let_def)
qed

lemma windows_ok_run: "windows_ok w \<Longrightarrow> windows_ok (chain_run w events)"
  by (induction events arbitrary: w) (simp_all add: chain_run_def windows_ok_step)

lemma windows_ok_initial [simp]: "windows_ok empty_chain_writer"
  by (simp add: windows_ok_def empty_chain_writer_def window_at_def standing_fill_def)

text \<open>The lots of the standing fills of one side seen within a window.\<close>

definition standing_lots :: "ChainStateWriter \<Rightarrow> string \<Rightarrow> AggressorSide \<Rightarrow> u64 \<Rightarrow> u64 \<Rightarrow> int" where
  "standing_lots w entity_id side now_ns window_ns =
     (\<Sum>f | standing_fill w entity_id f \<and> we_side (fill_entry w f) = side \<and>
             in_window now_ns window_ns (we_chain_seen_ns (fill_entry w f)). we_size_lots (fill_entry w f))"

definition counts_in :: "AggressorSide \<Rightarrow> u64 \<Rightarrow> u64 \<Rightarrow> WindowEntry \<Rightarrow> bool" where
  "counts_in side now_ns window_ns e \<longleftrightarrow> we_side e = side \<and> in_window now_ns window_ns (we_chain_seen_ns e)"

lemma window_totals_sum:
  "wt_buy_lots (window_totals es now width) =
     wrap_i64 (\<Sum>e\<leftarrow>filter (counts_in AS_Buy now width) (live_entries es). we_size_lots e) \<and>
   wt_sell_lots (window_totals es now width) =
     wrap_i64 (\<Sum>e\<leftarrow>filter (counts_in AS_Sell now width) (live_entries es). we_size_lots e)"
proof (induction es rule: rev_induct)
  case Nil
  then show ?case by (simp add: window_totals_def wrap_i64_id)
next
  case (snoc e es)
  then show ?case
    by (cases "we_side e") (auto simp: window_totals_def counts_in_def)
qed

lemma fill_entry_inj: "inj (fill_entry w)"
proof (rule injI)
  fix f g
  assume "fill_entry w f = fill_entry w g"
  then have "we_fill_id (fill_entry w f) = we_fill_id (fill_entry w g)"
    by simp
  then show "f = g"
    by (simp add: fill_entry_def split: option.splits)
qed

lemma live_sum_standing:
  assumes "windows_ok w"
  shows "(\<Sum>e\<leftarrow>filter (counts_in side now width) (live_entries (window_at w i)). we_size_lots e) =
    standing_lots w i side now width"
proof -
  let ?es = "filter (counts_in side now width) (live_entries (window_at w i))"
  let ?F = "{f. standing_fill w i f \<and> counts_in side now width (fill_entry w f)}"
  have "distinct ?es" and "set ?es = fill_entry w ` ?F"
    using assms by (auto simp: windows_ok_def)
  then have "(\<Sum>e\<leftarrow>?es. we_size_lots e) = sum we_size_lots (fill_entry w ` ?F)"
    by (metis sum_list_distinct_conv_sum_set)
  also have "\<dots> = (\<Sum>f \<in> ?F. we_size_lots (fill_entry w f))"
    by (rule sum.reindex [unfolded comp_def]) (meson fill_entry_inj inj_on_subset subset_UNIV)
  finally show ?thesis
    by (simp add: standing_lots_def counts_in_def)
qed

lemma refreshed_state:
  "trade_state_at (refresh_windows i now w) i =
     (trade_state_at w i)\<lparr>ct_confirmed_buy_lots_2s := wt_buy_lots (window_totals (window_at w i) now kTwoSecondsNs),
        ct_confirmed_sell_lots_2s := wt_sell_lots (window_totals (window_at w i) now kTwoSecondsNs),
        ct_confirmed_buy_lots_10s := wt_buy_lots (window_totals (window_at w i) now kTenSecondsNs),
        ct_confirmed_sell_lots_10s := wt_sell_lots (window_totals (window_at w i) now kTenSecondsNs)\<rparr>"
  by (simp add: refresh_windows_def Let_def trade_state_at_def put_window_def put_trade_state_def window_at_def)

subsection \<open>What the history of events says\<close>

text \<open>
  What an event tells of a fill: a removal takes it back, a confirmation with a direction counts it; an event
  that names no entity, an ambiguous fill and one without a number tell nothing.
\<close>

definition is_removal :: "MarketStateEvent \<Rightarrow> bool" where
  "is_removal e \<longleftrightarrow> me_type e = ChainRemovedFill \<or> cr_removed (me_chain_fill e) \<or>
     cr_classification (me_chain_fill e) = FC_ChainRemoved"

definition is_chain_event :: "MarketStateEvent \<Rightarrow> bool" where
  "is_chain_event e \<longleftrightarrow> is_removal e \<or> me_type e = ChainConfirmedFill \<or> has_chain_fill (me_chain_fill e)"

lemma chain_apply_refreshes:
  assumes "chain_entity_id event \<noteq> []" and "is_chain_event event"
  obtains u where "snd (chain_apply w event) =
    refresh_windows (chain_entity_id event) (cr_chain_seen_monotonic_ns (me_chain_fill event)) u"
proof -
  have "\<exists>u. snd (apply_confirmed w event) =
      refresh_windows (chain_entity_id event) (cr_chain_seen_monotonic_ns (me_chain_fill event)) u"
    using assms(1) by (auto simp: apply_confirmed_def Let_def)
  moreover have "\<exists>u. snd (apply_removed w event) =
      refresh_windows (chain_entity_id event) (cr_chain_seen_monotonic_ns (me_chain_fill event)) u"
    using assms(1) by (auto simp: apply_removed_def Let_def)
  ultimately have "\<exists>u. snd (chain_apply w event) =
      refresh_windows (chain_entity_id event) (cr_chain_seen_monotonic_ns (me_chain_fill event)) u"
    using assms(2) by (auto simp: chain_apply_def is_chain_event_def is_removal_def Let_def)
  then show ?thesis
    using that by blast
qed

definition removes :: "string \<Rightarrow> MarketStateEvent \<Rightarrow> bool" where
  "removes f e \<longleftrightarrow> is_removal e \<and> chain_entity_id e \<noteq> [] \<and> cr_fill_id (me_chain_fill e) = f"

definition confirms :: "string \<Rightarrow> MarketStateEvent \<Rightarrow> bool" where
  "confirms f e \<longleftrightarrow> is_chain_event e \<and> \<not> is_removal e \<and> chain_entity_id e \<noteq> [] \<and>
     cr_fill_id (me_chain_fill e) = f \<and> f \<noteq> [] \<and> \<not> is_ambiguous (me_chain_fill e) \<and>
     cr_direction (me_chain_fill e) \<noteq> CD_Unknown"

text \<open>The confirmation a fill stands by: the first one since the last removal of the fill.\<close>

definition standing_confirmation :: "MarketStateEvent list \<Rightarrow> string \<Rightarrow> MarketStateEvent option" where
  "standing_confirmation events f = find (confirms f) (rev (takeWhile (\<lambda>e. \<not> removes f e) (rev events)))"

definition confirmed_lots :: "MarketStateEvent list \<Rightarrow> string \<Rightarrow> AggressorSide \<Rightarrow> u64 \<Rightarrow> u64 \<Rightarrow> int" where
  "confirmed_lots events i side now_ns window_ns =
     (\<Sum>f \<in> set (map (\<lambda>e. cr_fill_id (me_chain_fill e)) events).
        case standing_confirmation events f of
          None \<Rightarrow> 0
        | Some e \<Rightarrow>
            if chain_entity_id e = i \<and> map_direction (cr_direction (me_chain_fill e)) = side \<and>
               in_window now_ns window_ns (cr_chain_seen_monotonic_ns (me_chain_fill e))
            then cr_size_lots (me_chain_fill e) else 0)"

lemma find_snoc: "find p (xs @ [x]) = (case find p xs of Some y \<Rightarrow> Some y | None \<Rightarrow> if p x then Some x else None)"
  by (induction xs) auto

lemma find_member: "find p xs = Some x \<Longrightarrow> x \<in> set xs \<and> p x"
  by (induction xs) (auto split: if_splits)

lemma standing_confirmation_Nil [simp]: "standing_confirmation [] f = None"
  by (simp add: standing_confirmation_def)

lemma standing_confirmation_snoc:
  "standing_confirmation (events @ [e]) f =
     (if removes f e then None
      else case standing_confirmation events f of Some c \<Rightarrow> Some c | None \<Rightarrow> if confirms f e then Some e else None)"
  by (simp add: standing_confirmation_def find_snoc)

lemma standing_confirmation_Some:
  assumes "standing_confirmation events f = Some e"
  shows "e \<in> set events" "confirms f e"
proof -
  have "e \<in> set (takeWhile (\<lambda>e. \<not> removes f e) (rev events))" "confirms f e"
    using find_member [OF assms [unfolded standing_confirmation_def]] by simp_all
  then show "e \<in> set events" "confirms f e"
    using set_takeWhileD by fastforce+
qed

text \<open>What the writer keeps of a confirmation; its live fills are the confirmations that stand.\<close>

definition applied :: "MarketStateEvent \<Rightarrow> AppliedFill" where
  "applied e =
     \<lparr>af_entity_id = chain_entity_id e, af_side = map_direction (cr_direction (me_chain_fill e)),
      af_size_lots = cr_size_lots (me_chain_fill e), af_chain_seen_ns = cr_chain_seen_monotonic_ns (me_chain_fill e),
      af_counted_volume = True, af_removed = False\<rparr>"

definition live_fill :: "ChainStateWriter \<Rightarrow> string \<Rightarrow> AppliedFill option" where
  "live_fill w f = (case cw_fills w f of Some a \<Rightarrow> if af_removed a then None else Some a | None \<Rightarrow> None)"

lemma map_direction_known [simp]: "map_direction d = AS_Unknown \<longleftrightarrow> d = CD_Unknown"
  by (cases d) simp_all

lemma live_fill_confirmed:
  assumes "is_chain_event e" "\<not> is_removal e"
  shows "live_fill (snd (apply_confirmed w e)) f =
    (case live_fill w f of Some a \<Rightarrow> Some a | None \<Rightarrow> if confirms f e then Some (applied e) else None)"
  using assms
  by (auto simp: live_fill_def apply_confirmed_def Let_def confirms_def applied_def split: option.splits if_splits)

lemma live_fill_removed:
  assumes "is_removal e"
  shows "live_fill (snd (apply_removed w e)) f = (if removes f e then None else live_fill w f)"
  using assms by (auto simp: live_fill_def apply_removed_def Let_def removes_def split: option.splits)

lemma live_fill_step:
  "live_fill (snd (chain_apply w e)) f =
     (if removes f e then None
      else case live_fill w f of Some a \<Rightarrow> Some a | None \<Rightarrow> if confirms f e then Some (applied e) else None)"
proof (cases "is_removal e")
  case True
  then have "chain_apply w e = apply_removed w e" "\<not> confirms f e"
    by (auto simp: chain_apply_def is_removal_def Let_def confirms_def)
  then show ?thesis
    using live_fill_removed [OF True, of w f] by (simp split: option.split)
next
  case False
  then have no: "\<not> removes f e"
    by (simp add: removes_def)
  show ?thesis
  proof (cases "is_chain_event e")
    case True
    then have "chain_apply w e = apply_confirmed w e"
      using False by (auto simp: chain_apply_def is_removal_def is_chain_event_def Let_def)
    then show ?thesis
      using live_fill_confirmed [OF True False, of w f] no by simp
  next
    case other: False
    then have "snd (chain_apply w e) = w" "\<not> confirms f e"
      by (auto simp: chain_apply_def is_removal_def is_chain_event_def Let_def confirms_def)
    then show ?thesis
      using no by (simp split: option.split)
  qed
qed

lemma chain_run_snoc: "chain_run w (events @ [e]) = snd (chain_apply (chain_run w events) e)"
  by (simp add: chain_run_def)

lemma live_fill_run: "live_fill (chain_run empty_chain_writer events) f = map_option applied (standing_confirmation events f)"
proof (induction events rule: rev_induct)
  case Nil
  then show ?case by (simp add: chain_run_def live_fill_def empty_chain_writer_def)
next
  case (snoc e events)
  then show ?case
    by (simp add: chain_run_snoc live_fill_step standing_confirmation_snoc split: option.split)
qed

lemma standing_fill_live: "standing_fill w i f \<longleftrightarrow> (\<exists>a. live_fill w f = Some a \<and> af_entity_id a = i)"
  by (auto simp: standing_fill_def live_fill_def split: option.splits)

lemma fill_entry_live:
  "live_fill w f = Some a \<Longrightarrow> fill_entry w f = \<lparr>we_fill_id = f, we_chain_seen_ns = af_chain_seen_ns a,
     we_side = af_side a, we_size_lots = af_size_lots a, we_removed = False\<rparr>"
  by (auto simp: fill_entry_def live_fill_def split: option.splits if_splits)

lemma standing_lots_confirmed:
  "standing_lots (chain_run empty_chain_writer events) i side now width = confirmed_lots events i side now width"
proof -
  let ?w = "chain_run empty_chain_writer events"
  let ?F = "{f. standing_fill ?w i f \<and> we_side (fill_entry ?w f) = side \<and>
    in_window now width (we_chain_seen_ns (fill_entry ?w f))}"
  let ?ids = "set (map (\<lambda>e. cr_fill_id (me_chain_fill e)) events)"
  let ?lots = "\<lambda>f. case standing_confirmation events f of None \<Rightarrow> 0
    | Some e \<Rightarrow> if chain_entity_id e = i \<and> map_direction (cr_direction (me_chain_fill e)) = side \<and>
        in_window now width (cr_chain_seen_monotonic_ns (me_chain_fill e)) then cr_size_lots (me_chain_fill e) else 0"
  note live = live_fill_run [of events]
  have entry: "fill_entry ?w f = \<lparr>we_fill_id = f, we_chain_seen_ns = cr_chain_seen_monotonic_ns (me_chain_fill e),
      we_side = map_direction (cr_direction (me_chain_fill e)), we_size_lots = cr_size_lots (me_chain_fill e), we_removed = False\<rparr>"
    if "standing_confirmation events f = Some e" for f e
    using fill_entry_live [of ?w f "applied e"] that by (simp add: live applied_def)
  have mem: "f \<in> ?F \<longleftrightarrow> (\<exists>e. standing_confirmation events f = Some e \<and> chain_entity_id e = i \<and>
      map_direction (cr_direction (me_chain_fill e)) = side \<and> in_window now width (cr_chain_seen_monotonic_ns (me_chain_fill e)))" for f
  proof (cases "standing_confirmation events f")
    case None
    then show ?thesis by (simp add: standing_fill_live live)
  next
    case (Some e)
    then show ?thesis by (simp add: standing_fill_live live entry [OF Some]) (simp add: applied_def)
  qed
  have lots: "we_size_lots (fill_entry ?w f) = ?lots f" if F: "f \<in> ?F" for f
  proof -
    obtain e where "standing_confirmation events f = Some e" "chain_entity_id e = i"
      "map_direction (cr_direction (me_chain_fill e)) = side" "in_window now width (cr_chain_seen_monotonic_ns (me_chain_fill e))"
      using F mem by blast
    then show ?thesis by (simp add: entry)
  qed
  have "f \<in> ?ids" if "standing_confirmation events f = Some e" for f e
    using standing_confirmation_Some [OF that] by (auto simp: confirms_def)
  then have sub: "?F \<subseteq> ?ids"
    using mem by blast
  have zero: "?lots f = 0" if "f \<notin> ?F" for f
    using that mem [of f] by (auto split: option.split)
  have "standing_lots ?w i side now width = sum ?lots ?F"
    unfolding standing_lots_def by (rule sum.cong [OF refl lots])
  also have "\<dots> = sum ?lots ?ids"
    by (rule sum.mono_neutral_left [OF _ sub]) (use zero in blast)+
  finally show ?thesis
    by (simp add: confirmed_lots_def)
qed

text \<open>An event that names another entity, and one that is no chain event, leaves an entity's state alone.\<close>

lemma trade_state_other:
  assumes "chain_entity_id e \<noteq> i \<or> \<not> is_chain_event e"
  shows "trade_state_at (snd (chain_apply w e)) i = trade_state_at w i"
proof -
  have put: "trade_state_at (put_trade_state j s u) i = (if j = i then s else trade_state_at u i)"
    "trade_state_at (put_window j es u) i = trade_state_at u i"
    "trade_state_at (u\<lparr>cw_fills := fs\<rparr>) i = trade_state_at u i" for j s u es fs
    by (simp_all add: trade_state_at_def put_trade_state_def put_window_def)
  have refresh: "j \<noteq> i \<Longrightarrow> trade_state_at (refresh_windows j now u) i = trade_state_at u i" for j now u
    by (simp add: refresh_windows_def Let_def put)
  show ?thesis
  proof (cases "is_chain_event e")
    case True
    then have "chain_entity_id e \<noteq> i"
      using assms by simp
    then show ?thesis
      by (auto simp: chain_apply_def Let_def apply_removed_def apply_confirmed_def put refresh split: option.split)
  next
    case False
    then show ?thesis
      by (simp add: chain_apply_def is_chain_event_def is_removal_def Let_def)
  qed
qed

lemma trade_state_later:
  "\<forall>e \<in> set later. chain_entity_id e \<noteq> i \<or> \<not> is_chain_event e \<Longrightarrow>
   trade_state_at (chain_run w later) i = trade_state_at w i"
  by (induction later arbitrary: w) (auto simp: chain_run_def trade_state_other)

text \<open>
  C40: Confirmed volume. For every entity, the volumes published after any sequence of events are those of the
  last chain event that named it: the lots, within two and ten seconds of that event, of the fills that the
  events up to it confirmed for the entity and did not remove again. So a fill delivered twice counts once, a
  removed one not at all, and one confirmed again after its removal counts again. (A removal that names another
  entity than the confirmation did therefore shows only at the next event of the confirmed entity.)
\<close>

theorem confirmed_volume_exact:
  fixes events later :: "MarketStateEvent list" and event :: MarketStateEvent
  defines "w \<equiv> chain_run empty_chain_writer (events @ event # later)" and "i \<equiv> chain_entity_id event"
    and "now \<equiv> cr_chain_seen_monotonic_ns (me_chain_fill event)" and "past \<equiv> events @ [event]"
  assumes "chain_entity_id event \<noteq> []" and "is_chain_event event"
    and "\<forall>e \<in> set later. chain_entity_id e \<noteq> chain_entity_id event \<or> \<not> is_chain_event e"
  shows "ct_confirmed_buy_lots_2s (trade_state_at w i) = wrap_i64 (confirmed_lots past i AS_Buy now kTwoSecondsNs) \<and>
    ct_confirmed_sell_lots_2s (trade_state_at w i) = wrap_i64 (confirmed_lots past i AS_Sell now kTwoSecondsNs) \<and>
    ct_confirmed_buy_lots_10s (trade_state_at w i) = wrap_i64 (confirmed_lots past i AS_Buy now kTenSecondsNs) \<and>
    ct_confirmed_sell_lots_10s (trade_state_at w i) = wrap_i64 (confirmed_lots past i AS_Sell now kTenSecondsNs)"
proof -
  let ?v = "chain_run empty_chain_writer past"
  have "w = chain_run ?v later"
    by (simp add: w_def past_def chain_run_def)
  then have state: "trade_state_at w i = trade_state_at ?v i"
    using trade_state_later [OF assms(7) [folded i_def]] by simp
  obtain u where u: "?v = refresh_windows i now u"
    using chain_apply_refreshes [OF assms(5,6), of "chain_run empty_chain_writer events"]
    unfolding past_def i_def now_def chain_run_snoc by metis
  have "windows_ok ?v"
    by (rule windows_ok_run) simp
  note lots = live_sum_standing [OF this, of _ _ _ i, unfolded standing_lots_confirmed, unfolded u, simplified]
  show ?thesis
    unfolding state unfolding u by (simp add: refreshed_state window_totals_sum lots)
qed

text \<open>A fill confirmed twice, removed and confirmed again, and a fill of another entity.\<close>

definition sample_chain_fill :: ClassifiedFillRecord where
  "sample_chain_fill = default_classified_fill\<lparr>cr_fill_id := ''f'', cr_asset_id := ''a'', cr_size_lots := 4,
     cr_direction := BuyAggressor, cr_mapping_status := FM_Mapped, cr_classification := FC_ChainConfirmed,
     cr_chain_seen_monotonic_ns := 9\<rparr>"

definition sample_chain_event :: MarketStateEvent where
  "sample_chain_event = from_classified_fill sample_chain_fill"

definition sample_removal :: MarketStateEvent where
  "sample_removal = from_classified_fill (sample_chain_fill\<lparr>cr_classification := FC_ChainRemoved, cr_removed := True\<rparr>)"

definition sample_other_event :: MarketStateEvent where
  "sample_other_event = from_classified_fill (sample_chain_fill\<lparr>cr_fill_id := ''g'', cr_asset_id := ''b''\<rparr>)"

lemmas sample_chain_defs = sample_chain_event_def sample_removal_def sample_other_event_def sample_chain_fill_def
  from_classified_fill_def default_classified_fill_def

lemma sample_chain_facts:
  "chain_entity_id sample_chain_event = ''a''" "chain_entity_id sample_removal = ''a''" "chain_entity_id sample_other_event = ''b''"
  "is_chain_event sample_chain_event" "is_chain_event sample_removal" "\<not> is_removal sample_chain_event"
  "\<not> is_removal sample_other_event" "is_removal sample_removal"
  "cr_chain_seen_monotonic_ns (me_chain_fill sample_chain_event) = 9" "cr_chain_seen_monotonic_ns (me_chain_fill sample_removal) = 9"
  "cr_fill_id (me_chain_fill sample_chain_event) = ''f''" "cr_fill_id (me_chain_fill sample_removal) = ''f''"
  "cr_direction (me_chain_fill sample_chain_event) = BuyAggressor" "cr_size_lots (me_chain_fill sample_chain_event) = 4"
  "\<not> is_ambiguous (me_chain_fill sample_chain_event)"
  by (simp_all add: sample_chain_defs chain_entity_id_def is_chain_event_def is_removal_def is_ambiguous_def)

theorem confirmed_volume_exact_witness:
  "ct_confirmed_buy_lots_2s (trade_state_at
     (chain_run empty_chain_writer [sample_chain_event, sample_chain_event, sample_other_event]) ''a'') = 4 \<and>
   ct_confirmed_buy_lots_2s (trade_state_at
     (chain_run empty_chain_writer [sample_chain_event, sample_chain_event, sample_removal]) ''a'') = 0"
proof -
  have "confirmed_lots [sample_chain_event, sample_chain_event] ''a'' AS_Buy 9 kTwoSecondsNs = 4"
    "confirmed_lots [sample_chain_event, sample_chain_event, sample_removal] ''a'' AS_Buy 9 kTwoSecondsNs = 0"
    by (simp_all add: confirmed_lots_def standing_confirmation_def confirms_def removes_def in_window_def sample_chain_facts)
  then show ?thesis
    using confirmed_volume_exact [of sample_chain_event "[sample_other_event]" "[sample_chain_event]"]
      confirmed_volume_exact [of sample_removal "[]" "[sample_chain_event, sample_chain_event]"]
    by (simp add: sample_chain_facts wrap_i64_id in_i64_def i64_bounds)
qed

end
