(* ===== verification/MarketShard.thy ===== *)
theory MarketShard
  imports ChainState
begin

section \<open>Market state: shards, published snapshots and queries\<close>

text \<open>
  \<open>engine/state/book/LOBWriter.cpp\<close>, \<open>shard/LOBShard.cpp\<close>, \<open>snapshot/SnapshotPublisher.cpp\<close>,
  \<open>core/MarketStateStore.cpp\<close>, \<open>core/MarketStateEventFilter.cpp\<close> and \<open>MarketStateView.cpp\<close>: a shard
  applies an event to the books, the chain state or the settlement, grades the data, and publishes a
  snapshot of the asset with the depth view that signal, risk and execution read. The double buffer
  of the publisher has one writer; reading it while it is written is left out, as are durations
  measured for diagnostics. Lemmas: what a published view shows.
\<close>

subsection \<open>LOBWriter\<close>

datatype BookApplyCode =
    BA_Applied | BA_IgnoredHeartbeat | BA_IgnoredChainEvent | BA_IgnoredDataQualityUpdate | BA_MissingStore
  | BA_StateRejected

record BookApplyResult =
  br_code :: BookApplyCode
  br_event_type :: MarketStateEventType
  br_state_code :: StateApplyCode
  br_entity_id :: string
  br_message :: string
  br_state_changed :: bool
  br_mutation :: StateMutationFlags
  br_book_version :: u64
  br_chain_version :: u64
  br_quality_version :: u64
  br_snapshot_version_hash :: u64
  br_entity_hash :: u64
  br_global_hash :: u64
  br_cheap_fingerprint :: u64
  br_full_hash_computed :: bool
  br_hash_cache_hits :: u64
  br_hash_cache_misses :: u64
  br_snapshot_published :: bool

definition no_mutation :: StateMutationFlags where
  "no_mutation = \<lparr>mu_state_changed = False, mu_book_changed = False, mu_chain_changed = False,
     mu_quality_changed = False, mu_lifecycle_changed = False, mu_heartbeat_seen = False,
     mu_publish_required = False, mu_kind = MU_None\<rparr>"

definition book_result_ok :: "BookApplyResult \<Rightarrow> bool" where
  "book_result_ok r \<longleftrightarrow> br_code r = BA_Applied \<or> br_code r = BA_IgnoredHeartbeat \<or>
     br_code r = BA_IgnoredChainEvent \<or> br_code r = BA_IgnoredDataQualityUpdate"

definition book_result_ignored :: "BookApplyResult \<Rightarrow> bool" where
  "book_result_ignored r \<longleftrightarrow> br_code r = BA_IgnoredHeartbeat \<or> br_code r = BA_IgnoredChainEvent \<or>
     br_code r = BA_IgnoredDataQualityUpdate"

fun map_state_code :: "StateApplyCode \<Rightarrow> BookApplyCode" where
  "map_state_code SA_IgnoredHeartbeat = BA_IgnoredHeartbeat"
| "map_state_code SA_Applied = BA_Applied"
| "map_state_code SA_ClosedEntityIgnored = BA_Applied"
| "map_state_code SA_IgnoredUnknown = BA_Applied"
| "map_state_code SA_IgnoredTrade = BA_Applied"
| "map_state_code SA_Noop = BA_Applied"
| "map_state_code _ = BA_StateRejected"

definition from_state_result :: "MarketStateEventType \<Rightarrow> StateApplyResult \<Rightarrow> BookApplyResult" where
  "from_state_result event_type r =
     \<lparr>br_code = map_state_code (sr_code r), br_event_type = event_type, br_state_code = sr_code r,
      br_entity_id = sr_entity_id r, br_message = sr_message r, br_state_changed = sr_state_changed r,
      br_mutation = sr_mutation r, br_book_version = sr_book_version r, br_chain_version = sr_chain_version r,
      br_quality_version = sr_quality_version r, br_snapshot_version_hash = sr_snapshot_version_hash r,
      br_entity_hash = sr_entity_hash r, br_global_hash = sr_global_hash r,
      br_cheap_fingerprint = sr_cheap_fingerprint r, br_full_hash_computed = sr_full_hash_computed r,
      br_hash_cache_hits = sr_hash_cache_hits r, br_hash_cache_misses = sr_hash_cache_misses r,
      br_snapshot_published = sr_snapshot_published r\<rparr>"

definition blank_book_result :: "BookApplyCode \<Rightarrow> MarketStateEventType \<Rightarrow> string \<Rightarrow> u64 \<Rightarrow> BookApplyResult" where
  "blank_book_result code event_type message hash =
     \<lparr>br_code = code, br_event_type = event_type, br_state_code = SA_Noop, br_entity_id = [],
      br_message = message, br_state_changed = False, br_mutation = no_mutation, br_book_version = 0,
      br_chain_version = 0, br_quality_version = 0, br_snapshot_version_hash = 0, br_entity_hash = 0,
      br_global_hash = hash, br_cheap_fingerprint = 0, br_full_hash_computed = False,
      br_hash_cache_hits = 0, br_hash_cache_misses = 0, br_snapshot_published = False\<rparr>"

definition ignored_result ::
  "BookApplyCode \<Rightarrow> MarketStateEventType \<Rightarrow> string \<Rightarrow> EntityStateStore \<Rightarrow> BookApplyResult \<times> EntityStateStore" where
  "ignored_result code event_type message store =
     (let (h, store') = global_hash store in (blank_book_result code event_type message h, store'))"

text \<open>A writer without a store refuses every event.\<close>

definition lob_apply ::
  "EntityStateStore option \<Rightarrow> MarketStateEvent \<Rightarrow> BookApplyResult \<times> EntityStateStore option" where
  "lob_apply writer event =
     (case writer of
        None \<Rightarrow> (blank_book_result BA_MissingStore (me_type event) ''LOBWriter has no EntityStateStore'' 0, None)
      | Some store \<Rightarrow>
          map_prod (\<lambda>r. r) Some
            (if me_type event \<in> {WsBookSnapshot, WsBookDelta, WsLifecycle, WsHeartbeat}
             then (let (r, store') = apply_event store (me_ws_event event) in (from_state_result (me_type event) r, store'))
             else if me_type event \<in> {ChainConfirmedFill, ChainRemovedFill, ChainSettlement}
             then ignored_result BA_IgnoredChainEvent (me_type event) ''chain event ignored by LOBWriter'' store
             else ignored_result BA_IgnoredDataQualityUpdate (me_type event)
                    ''data quality event ignored by LOBWriter'' store))"

record BookBatchApplyResult =
  bb_events_seen :: nat
  bb_applied :: nat
  bb_ignored :: nat
  bb_errors :: nat
  bb_state_changed :: nat
  bb_global_hash :: u64
  bb_results :: "BookApplyResult list"

definition count_book_result :: "BookBatchApplyResult \<Rightarrow> BookApplyResult \<Rightarrow> BookBatchApplyResult" where
  "count_book_result out r =
     out\<lparr>bb_applied := bb_applied out + (if book_result_ok r \<and> \<not> book_result_ignored r then 1 else 0),
         bb_ignored := bb_ignored out + (if book_result_ok r \<and> book_result_ignored r then 1 else 0),
         bb_errors := bb_errors out + (if book_result_ok r then 0 else 1),
         bb_state_changed := bb_state_changed out + (if br_state_changed r then 1 else 0),
         bb_global_hash := br_global_hash r, bb_results := bb_results out @ [r]\<rparr>"

definition lob_apply_batch ::
  "EntityStateStore option \<Rightarrow> MarketStateEvent list \<Rightarrow> BookBatchApplyResult \<times> EntityStateStore option" where
  "lob_apply_batch writer events =
     foldl (\<lambda>(out, w) event. let (r, w') = lob_apply w event in (count_book_result out r, w'))
       (\<lparr>bb_events_seen = length events, bb_applied = 0, bb_ignored = 0, bb_errors = 0, bb_state_changed = 0,
         bb_global_hash = 0, bb_results = []\<rparr>, writer) events"

subsection \<open>Publishing snapshots\<close>

datatype StateQueryError =
    QE_None | QE_MissingEntity | QE_Recovering | QE_Closed | QE_Resolved | QE_EmptyBook | QE_MissingBid
  | QE_MissingAsk | QE_CrossedBook | QE_InvalidDepth

text \<open>An error carries a default value, which is \<open>None\<close> here.\<close>

record 'a StateQueryResult =
  qr_ok :: bool
  qr_error :: StateQueryError
  qr_entity_id :: string
  qr_version :: u64
  qr_value :: "'a option"

definition default_snapshot :: MarketStateSnapshot where
  "default_snapshot = \<lparr>ms_entity_id = [], ms_market_id = [], ms_version = 0, ms_last_book_update_ns = 0,
     ms_live = False, ms_recovering = False, ms_closed = False, ms_resolved = False, ms_crossed = False,
     ms_has_bid = False, ms_has_ask = False, ms_best_bid_tick = 0, ms_best_ask_tick = 0, ms_bid_count = 0,
     ms_ask_count = 0, ms_bids = replicate kMaxSnapshotDepth default_level,
     ms_asks = replicate kMaxSnapshotDepth default_level, ms_winning_asset_id = [],
     ms_snapshot_version_hash = 0, ms_state_hash = 0, ms_has_confirmed_trade = False,
     ms_last_trade_price_tick = 0, ms_last_trade_size_lots = 0, ms_last_taker_side = AS_Unknown,
     ms_confirmed_buy_lots_2s = 0, ms_confirmed_sell_lots_2s = 0, ms_confirmed_buy_lots_10s = 0,
     ms_confirmed_sell_lots_10s = 0, ms_quality = BQ_Unknown, ms_usable_for_depth = False,
     ms_usable_for_signal = False\<rparr>"

record SnapshotSlot =
  sk_snapshot :: MarketStateSnapshot
  sk_depth_view :: MarketDepthView

record SnapshotBuffer =
  sb_slot0 :: SnapshotSlot
  sb_slot1 :: SnapshotSlot
  sb_active_one :: bool
  sb_published :: bool

text \<open>The value-initialised view of a fresh slot is never read; the view of a default snapshot stands for it.\<close>

definition empty_slot :: SnapshotSlot where
  "empty_slot = \<lparr>sk_snapshot = default_snapshot, sk_depth_view = market_depth_view_from_snapshot default_snapshot 0\<rparr>"

definition empty_buffer :: SnapshotBuffer where
  "empty_buffer = \<lparr>sb_slot0 = empty_slot, sb_slot1 = empty_slot, sb_active_one = False, sb_published = False\<rparr>"

definition active_slot :: "SnapshotBuffer \<Rightarrow> SnapshotSlot" where
  "active_slot b = (if sb_active_one b then sb_slot1 b else sb_slot0 b)"

type_synonym SnapshotPublisher = "string \<rightharpoonup> SnapshotBuffer"

definition publish_buffer :: "MarketStateSnapshot \<Rightarrow> SnapshotBuffer \<Rightarrow> SnapshotBuffer" where
  "publish_buffer snapshot buffer =
     (let next_version = ms_version (sk_snapshot (active_slot buffer)) + 1;
          published = (if ms_version snapshot < next_version then snapshot\<lparr>ms_version := next_version\<rparr> else snapshot);
          slot = \<lparr>sk_snapshot = published, sk_depth_view = market_depth_view_from_snapshot published 0\<rparr>;
          written = (if sb_active_one buffer then buffer\<lparr>sb_slot0 := slot\<rparr> else buffer\<lparr>sb_slot1 := slot\<rparr>)
      in written\<lparr>sb_published := True, sb_active_one := \<not> sb_active_one buffer\<rparr>)"

definition publish :: "SnapshotPublisher \<Rightarrow> MarketStateSnapshot \<Rightarrow> SnapshotPublisher" where
  "publish p snapshot =
     (if ms_entity_id snapshot = [] then p
      else p(ms_entity_id snapshot \<mapsto>
        publish_buffer snapshot (case p (ms_entity_id snapshot) of None \<Rightarrow> empty_buffer | Some b \<Rightarrow> b)))"

definition published_slot :: "SnapshotPublisher \<Rightarrow> string \<Rightarrow> SnapshotSlot option" where
  "published_slot p asset_id =
     (case p asset_id of None \<Rightarrow> None | Some b \<Rightarrow> if sb_published b then Some (active_slot b) else None)"

definition publisher_read :: "SnapshotPublisher \<Rightarrow> string \<Rightarrow> MarketStateSnapshot StateQueryResult" where
  "publisher_read p asset_id =
     (case published_slot p asset_id of
        None \<Rightarrow> \<lparr>qr_ok = False, qr_error = QE_MissingEntity, qr_entity_id = asset_id, qr_version = 0, qr_value = None\<rparr>
      | Some slot \<Rightarrow> \<lparr>qr_ok = True, qr_error = QE_None, qr_entity_id = ms_entity_id (sk_snapshot slot),
          qr_version = ms_version (sk_snapshot slot), qr_value = Some (sk_snapshot slot)\<rparr>)"

text \<open>
  Null pointers among the asset ids are \<open>None\<close>; the list of what was written to the output array is
  returned. Both functions stop writing at \<open>max_out\<close>; lists longer than the 16-bit counter of the
  second one are not passed.
\<close>

definition read_many :: "SnapshotPublisher \<Rightarrow> string option list \<Rightarrow> nat \<Rightarrow> MarketStateSnapshot list" where
  "read_many p asset_ids max_out =
     foldl (\<lambda>out asset_id.
         case asset_id of None \<Rightarrow> out
         | Some a \<Rightarrow> if length out \<ge> max_out then out
             else (case published_slot p a of None \<Rightarrow> out | Some slot \<Rightarrow> out @ [sk_snapshot slot])) [] asset_ids"

definition read_depth_many ::
  "SnapshotPublisher \<Rightarrow> string option list \<Rightarrow> u32 list \<Rightarrow> nat \<Rightarrow> MarketDepthView list" where
  "read_depth_many p asset_ids asset_indices max_out =
     foldl (\<lambda>out (i, asset_id).
         case asset_id of None \<Rightarrow> out
         | Some a \<Rightarrow> if length out \<ge> max_out then out
             else (case published_slot p a of None \<Rightarrow> out
               | Some slot \<Rightarrow> out @ [(sk_depth_view slot)\<lparr>dv_asset_index :=
                   (if i < length asset_indices then asset_indices ! i else 0)\<rparr>]))
       [] (List.enumerate 0 asset_ids)"

subsection \<open>LOBShard\<close>

record SnapshotBuildContext =
  bc_asset_id :: string
  bc_book_version :: u64
  bc_chain_version :: u64
  bc_quality_version :: u64
  bc_snapshot_version_hash :: u64
  bc_full_entity_hash :: "u64 option"

record LOBShard =
  sh_shard_id :: u32
  sh_runtime_config :: StateRuntimeConfig
  sh_quality_version :: u64
  sh_cached_legacy_book_hash :: "string \<rightharpoonup> u64"
  sh_book_store :: EntityStateStore
  sh_chain_writer :: ChainStateWriter
  sh_settlement_writer :: SettlementStateWriter
  sh_quality :: BookQualityState
  sh_snapshot_publisher :: SnapshotPublisher

definition make_shard :: "u32 \<Rightarrow> StateRuntimeConfig \<Rightarrow> LOBShard" where
  "make_shard shard_id config =
     \<lparr>sh_shard_id = shard_id, sh_runtime_config = config, sh_quality_version = 0,
      sh_cached_legacy_book_hash = Map.empty, sh_book_store = make_entity_store config,
      sh_chain_writer = empty_chain_writer, sh_settlement_writer = Map.empty,
      sh_quality = default_book_quality, sh_snapshot_publisher = Map.empty\<rparr>"

fun book_quality_code :: "BookQuality \<Rightarrow> u64" where
  "book_quality_code BQ_Unknown = 0"
| "book_quality_code BQ_Good = 1"
| "book_quality_code BQ_Stale = 2"
| "book_quality_code BQ_Recovering = 3"
| "book_quality_code BQ_Crossed = 4"
| "book_quality_code BQ_ChainMismatch = 5"
| "book_quality_code BQ_ChainLagging = 6"
| "book_quality_code BQ_Closed = 7"
| "book_quality_code BQ_Resolved = 8"

definition shard_status_flags :: "EntityState option \<Rightarrow> BookQualityState \<Rightarrow> u64" where
  "shard_status_flags entity quality =
     status_flags_for entity
     OR push_bit 16 (book_quality_code (bq_quality quality) AND 0xFF)
     OR (if bq_ws_live quality then push_bit 24 1 else 0)
     OR (if bq_chain_live quality then push_bit 25 1 else 0)
     OR (if bq_usable_for_depth quality then push_bit 26 1 else 0)
     OR (if bq_usable_for_signal quality then push_bit 27 1 else 0)"

definition quality_equal :: "BookQualityState \<Rightarrow> BookQualityState \<Rightarrow> bool" where
  "quality_equal left right \<longleftrightarrow>
     bq_quality left = bq_quality right \<and> bq_ws_live left = bq_ws_live right \<and>
     bq_chain_live left = bq_chain_live right \<and> bq_last_ws_recv_ns left = bq_last_ws_recv_ns right \<and>
     bq_last_chain_seen_ns left = bq_last_chain_seen_ns right \<and>
     bq_ws_decode_errors_recent left = bq_ws_decode_errors_recent right \<and>
     bq_state_errors_recent left = bq_state_errors_recent right \<and>
     bq_chain_decode_errors_recent left = bq_chain_decode_errors_recent right \<and>
     bq_chain_ws_mismatch_count_recent left = bq_chain_ws_mismatch_count_recent right \<and>
     bq_usable_for_depth left = bq_usable_for_depth right \<and>
     bq_usable_for_signal left = bq_usable_for_signal right"

definition make_noop_result :: "string \<Rightarrow> string \<Rightarrow> bool \<Rightarrow> StateApplyResult" where
  "make_noop_result entity_id message changed =
     \<lparr>sr_code = SA_Noop, sr_entity_id = entity_id, sr_message = message, sr_state_changed = changed,
      sr_mutation = no_mutation\<lparr>mu_state_changed := changed, mu_publish_required := changed\<rparr>,
      sr_book_version = 0, sr_chain_version = 0, sr_quality_version = 0, sr_snapshot_version_hash = 0,
      sr_entity_hash = 0, sr_global_hash = 0, sr_cheap_fingerprint = 0, sr_full_hash_computed = False,
      sr_hash_cache_hits = 0, sr_hash_cache_misses = 0, sr_snapshot_published = False\<rparr>"

definition from_book_result :: "BookApplyResult \<Rightarrow> StateApplyResult" where
  "from_book_result r =
     \<lparr>sr_code = br_state_code r, sr_entity_id = br_entity_id r, sr_message = br_message r,
      sr_state_changed = br_state_changed r, sr_mutation = br_mutation r, sr_book_version = br_book_version r,
      sr_chain_version = br_chain_version r, sr_quality_version = br_quality_version r,
      sr_snapshot_version_hash = br_snapshot_version_hash r, sr_entity_hash = br_entity_hash r,
      sr_global_hash = br_global_hash r, sr_cheap_fingerprint = br_cheap_fingerprint r,
      sr_full_hash_computed = br_full_hash_computed r, sr_hash_cache_hits = br_hash_cache_hits r,
      sr_hash_cache_misses = br_hash_cache_misses r, sr_snapshot_published = br_snapshot_published r\<rparr>"

definition kDefaultPriceScale :: rat where
  "kDefaultPriceScale = 1000000"

text \<open>\<open>llround\<close> of the product, which is non-negative: halves are rounded up.\<close>

definition price_to_tick :: "rat \<Rightarrow> i64" where
  "price_to_tick price = \<lfloor>nearest_double (price * kDefaultPriceScale) + 1 / 2\<rfloor>"

definition make_price_level :: "rat \<Rightarrow> rat \<Rightarrow> PriceLevel" where
  "make_price_level price amount = \<lparr>price_tick = price_to_tick price, level_price = Fin price, level_size = Fin amount\<rparr>"

definition asset_id_for_event :: "MarketStateEvent \<Rightarrow> string" where
  "asset_id_for_event event =
     (if me_asset_id event \<noteq> [] then me_asset_id event
      else if ne_asset_id (me_ws_event event) \<noteq> [] then ne_asset_id (me_ws_event event)
      else if ne_entity_id (me_ws_event event) \<noteq> [] then ne_entity_id (me_ws_event event)
      else cr_asset_id (me_chain_fill event))"

definition market_id_for_event :: "MarketStateEvent \<Rightarrow> string" where
  "market_id_for_event event =
     (if me_market_id event \<noteq> [] then me_market_id event
      else if ne_market_id (me_ws_event event) \<noteq> [] then ne_market_id (me_ws_event event)
      else cr_market_id (me_chain_fill event))"

definition apply_book_event :: "LOBShard \<Rightarrow> MarketStateEvent \<Rightarrow> StateApplyResult \<times> LOBShard" where
  "apply_book_event shard event =
     (case lob_apply (Some (sh_book_store shard)) event of
        (r, store) \<Rightarrow> (from_book_result r,
          shard\<lparr>sh_book_store := (case store of Some s \<Rightarrow> s | None \<Rightarrow> sh_book_store shard)\<rparr>))"

definition apply_chain_event :: "LOBShard \<Rightarrow> MarketStateEvent \<Rightarrow> StateApplyResult \<times> LOBShard" where
  "apply_chain_event shard event =
     (let (c, writer) = chain_apply (sh_chain_writer shard) event;
          out = make_noop_result (ca_entity_id c) (ca_message c) (ca_state_changed c)
      in (out\<lparr>sr_chain_version := chain_version writer (ca_entity_id c),
              sr_mutation := (sr_mutation out)\<lparr>mu_chain_changed := ca_state_changed c,
                mu_kind := (if me_type event = ChainRemovedFill then MU_ChainRemovedFill else MU_ChainFill)\<rparr>\<rparr>,
          shard\<lparr>sh_chain_writer := writer\<rparr>))"

definition apply_settlement_event :: "LOBShard \<Rightarrow> MarketStateEvent \<Rightarrow> StateApplyResult \<times> LOBShard" where
  "apply_settlement_event shard event =
     (let market_id = market_id_for_event event; w = sh_settlement_writer shard; ws = me_ws_event event;
          (r, w') =
            (if me_type event = WsLifecycle \<and> ne_winning_asset_id ws \<noteq> []
             then mark_resolved w market_id (ne_winning_asset_id ws) (ne_packet_id ws)
             else if me_type event = WsLifecycle then mark_closed w market_id (ne_packet_id ws)
             else mark_closed w market_id (me_source_sequence event))
      in (make_noop_result market_id (sl_message r) (sl_state_changed r), shard\<lparr>sh_settlement_writer := w'\<rparr>))"

definition dispatch_event :: "LOBShard \<Rightarrow> MarketStateEvent \<Rightarrow> StateApplyResult \<times> LOBShard" where
  "dispatch_event shard event =
     (case me_type event of
        WsLifecycle \<Rightarrow>
          (let (r, booked) = apply_book_event shard event; (s, settled) = apply_settlement_event booked event
           in (if sr_state_changed s
               then r\<lparr>sr_state_changed := True,
                      sr_mutation := (sr_mutation r)\<lparr>mu_state_changed := True, mu_lifecycle_changed := True,
                        mu_publish_required := True, mu_kind := MU_Lifecycle\<rparr>\<rparr>
               else r, settled))
      | ChainConfirmedFill \<Rightarrow> apply_chain_event shard event
      | ChainRemovedFill \<Rightarrow> apply_chain_event shard event
      | ChainSettlement \<Rightarrow> apply_settlement_event shard event
      | DataQualityUpdate \<Rightarrow>
          (make_noop_result (asset_id_for_event event) ''event ignored by LOBShard'' False, shard)
      | _ \<Rightarrow> apply_book_event shard event)"

definition quality_input :: "LOBShard \<Rightarrow> string \<Rightarrow> DataQualityInput" where
  "quality_input shard asset_id =
     (let entity = get_entity (sh_book_store shard) asset_id; chain = chain_get (sh_chain_writer shard) asset_id;
          ws_now = (case entity of None \<Rightarrow> 0 | Some e \<Rightarrow> et_last_update_monotonic_ns e);
          now = (case chain of None \<Rightarrow> ws_now
                 | Some c \<Rightarrow> if ct_last_chain_seen_ns c > ws_now then ct_last_chain_seen_ns c else ws_now)
      in \<lparr>dq_entity = entity, dq_confirmed_trade_state = chain, dq_reconciliation = default_reconciliation,
          dq_now_ns = now, dq_ws_decode_errors_recent = 0, dq_state_errors_recent = 0,
          dq_chain_decode_errors_recent = 0\<rparr>)"

definition refresh_quality :: "string \<Rightarrow> LOBShard \<Rightarrow> LOBShard" where
  "refresh_quality asset_id shard = shard\<lparr>sh_quality := gate_evaluate default_gate_config (quality_input shard asset_id)\<rparr>"

definition quality_step :: "string \<Rightarrow> StateApplyResult \<Rightarrow> LOBShard \<Rightarrow> StateApplyResult \<times> LOBShard" where
  "quality_step asset_id r shard =
     (if asset_id = [] then (r, shard)
      else
        (let refreshed = refresh_quality asset_id shard in
         if \<not> quality_equal (sh_quality shard) (sh_quality refreshed)
         then (let bumped = refreshed\<lparr>sh_quality_version := sh_quality_version refreshed + 1\<rparr> in
            (r\<lparr>sr_quality_version := sh_quality_version bumped, sr_state_changed := True,
               sr_mutation := (sr_mutation r)\<lparr>mu_quality_changed := True, mu_state_changed := True,
                 mu_kind := (if mu_kind (sr_mutation r) = MU_None then MU_Quality else mu_kind (sr_mutation r)),
                 mu_publish_required := True\<rparr>\<rparr>, bumped))
         else (r\<lparr>sr_quality_version := sh_quality_version refreshed\<rparr>, refreshed)))"

definition version_step :: "string \<Rightarrow> StateApplyResult \<Rightarrow> LOBShard \<Rightarrow> StateApplyResult" where
  "version_step asset_id r shard =
     (let entity = (if asset_id = [] then None else get_entity (sh_book_store shard) asset_id);
          chain = (if asset_id = [] then None else chain_get (sh_chain_writer shard) asset_id);
          h = cheap_snapshot_fingerprint (if asset_id \<noteq> [] then asset_id else sr_entity_id r)
                (sr_book_version r) (sr_chain_version r) (sr_quality_version r)
                (case entity of Some e \<Rightarrow> et_last_packet_id e | None \<Rightarrow> sr_book_version r)
                (case chain of Some c \<Rightarrow> ct_last_block_number c | None \<Rightarrow> 0)
                (shard_status_flags entity (sh_quality shard))
      in r\<lparr>sr_snapshot_version_hash := h, sr_cheap_fingerprint := h\<rparr>)"

definition build_snapshot_context :: "LOBShard \<Rightarrow> MarketStateEvent \<Rightarrow> StateApplyResult \<Rightarrow> SnapshotBuildContext" where
  "build_snapshot_context shard event r =
     (let asset_id = (if asset_id_for_event event = [] then sr_entity_id r else asset_id_for_event event)
      in \<lparr>bc_asset_id = asset_id, bc_book_version = sr_book_version r, bc_chain_version = sr_chain_version r,
          bc_quality_version = sr_quality_version r, bc_snapshot_version_hash = sr_snapshot_version_hash r,
          bc_full_entity_hash =
            (if sr_full_hash_computed r \<and> sr_entity_hash r \<noteq> 0 then Some (sr_entity_hash r)
             else sh_cached_legacy_book_hash shard asset_id)\<rparr>)"

text \<open>One side of a snapshot: its first \<open>kMaxSnapshotDepth\<close> levels, padded with default levels.\<close>

definition snapshot_levels :: "BookSide \<Rightarrow> PriceLevel list" where
  "snapshot_levels side =
     copy_levels (min (length side) kMaxSnapshotDepth) (map (\<lambda>(p, s). make_price_level p s) (take kMaxSnapshotDepth side))"

definition build_snapshot :: "LOBShard \<Rightarrow> SnapshotBuildContext \<Rightarrow> EntityState \<Rightarrow> MarketStateSnapshot" where
  "build_snapshot shard ctx e =
     (let book = et_book e; chain = chain_get (sh_chain_writer shard) (bc_asset_id ctx); q = sh_quality shard
      in \<lparr>ms_entity_id = et_entity_id e, ms_market_id = et_market_id e, ms_version = et_last_packet_id e,
          ms_last_book_update_ns = et_last_update_monotonic_ns e, ms_live = (et_status e = ES_Live),
          ms_recovering = (et_recovering e \<or> et_status e = ES_Recovering),
          ms_closed = (et_closed e \<or> et_status e = ES_Closed), ms_resolved = bk_resolved book,
          ms_crossed = bk_crossed book, ms_has_bid = (bk_best_bid book \<noteq> None), ms_has_ask = (bk_best_ask book \<noteq> None),
          ms_best_bid_tick = (case bk_best_bid book of None \<Rightarrow> 0 | Some p \<Rightarrow> price_to_tick p),
          ms_best_ask_tick = (case bk_best_ask book of None \<Rightarrow> 0 | Some p \<Rightarrow> price_to_tick p),
          ms_bid_count = min (length (bk_bids book)) kMaxSnapshotDepth,
          ms_ask_count = min (length (bk_asks book)) kMaxSnapshotDepth,
          ms_bids = snapshot_levels (bk_bids book), ms_asks = snapshot_levels (bk_asks book),
          ms_winning_asset_id = bk_winning_asset_id book,
          ms_snapshot_version_hash = bc_snapshot_version_hash ctx,
          ms_state_hash = (case bc_full_entity_hash ctx of None \<Rightarrow> 0 | Some h \<Rightarrow> h),
          ms_has_confirmed_trade = (case chain of None \<Rightarrow> False | Some c \<Rightarrow> ct_has_last_trade c),
          ms_last_trade_price_tick = (case chain of None \<Rightarrow> 0 | Some c \<Rightarrow> ct_last_trade_price_tick c),
          ms_last_trade_size_lots = (case chain of None \<Rightarrow> 0 | Some c \<Rightarrow> ct_last_trade_size_lots c),
          ms_last_taker_side = (case chain of None \<Rightarrow> AS_Unknown | Some c \<Rightarrow> ct_last_taker_side c),
          ms_confirmed_buy_lots_2s = (case chain of None \<Rightarrow> 0 | Some c \<Rightarrow> ct_confirmed_buy_lots_2s c),
          ms_confirmed_sell_lots_2s = (case chain of None \<Rightarrow> 0 | Some c \<Rightarrow> ct_confirmed_sell_lots_2s c),
          ms_confirmed_buy_lots_10s = (case chain of None \<Rightarrow> 0 | Some c \<Rightarrow> ct_confirmed_buy_lots_10s c),
          ms_confirmed_sell_lots_10s = (case chain of None \<Rightarrow> 0 | Some c \<Rightarrow> ct_confirmed_sell_lots_10s c),
          ms_quality = bq_quality q, ms_usable_for_depth = bq_usable_for_depth q,
          ms_usable_for_signal = bq_usable_for_signal q\<rparr>)"

definition publish_asset_snapshot :: "LOBShard \<Rightarrow> SnapshotBuildContext \<Rightarrow> bool \<times> LOBShard" where
  "publish_asset_snapshot shard ctx =
     (case get_entity (sh_book_store shard) (bc_asset_id ctx) of
        None \<Rightarrow> (False, shard)
      | Some e \<Rightarrow>
          (True, shard\<lparr>sh_snapshot_publisher := publish (sh_snapshot_publisher shard) (build_snapshot shard ctx e)\<rparr>))"

definition remember_hash :: "string \<Rightarrow> StateApplyResult \<Rightarrow> LOBShard \<Rightarrow> LOBShard" where
  "remember_hash asset_id r shard =
     (if asset_id \<noteq> [] \<and> sr_full_hash_computed r \<and> sr_entity_hash r \<noteq> 0
      then shard\<lparr>sh_cached_legacy_book_hash := (sh_cached_legacy_book_hash shard)(asset_id \<mapsto> sr_entity_hash r)\<rparr>
      else shard)"

definition publish_step :: "MarketStateEvent \<Rightarrow> StateApplyResult \<Rightarrow> LOBShard \<Rightarrow> StateApplyResult \<times> LOBShard" where
  "publish_step event r shard =
     (let ctx = build_snapshot_context shard event r in
      if mu_publish_required (sr_mutation r) \<and> bc_asset_id ctx \<noteq> []
      then (let p = publish_asset_snapshot shard ctx in (r\<lparr>sr_snapshot_published := fst p\<rparr>, snd p))
      else (r, shard))"

definition shard_apply :: "LOBShard \<Rightarrow> MarketStateEvent \<Rightarrow> StateApplyResult \<times> LOBShard" where
  "shard_apply shard event =
     (let asset_id = asset_id_for_event event;
          dispatched = dispatch_event shard event;
          graded = quality_step asset_id (fst dispatched) (snd dispatched);
          r = version_step asset_id (fst graded) (snd graded)
      in publish_step event r (remember_hash asset_id r (snd graded)))"

subsection \<open>MarketStateStore\<close>

text \<open>There is one shard, and every asset is routed to it.\<close>

definition kNumShards :: nat where
  "kNumShards = 1"

definition shard_for_asset :: "string \<Rightarrow> nat" where
  "shard_for_asset asset_id = 0"

type_synonym MarketStateStore = "LOBShard list"

definition make_market_state_store :: "StateRuntimeConfig \<Rightarrow> MarketStateStore" where
  "make_market_state_store config = [make_shard 0 config]"

definition market_store_apply :: "MarketStateStore \<Rightarrow> MarketStateEvent \<Rightarrow> StateApplyResult \<times> MarketStateStore" where
  "market_store_apply store event =
     (let i = shard_for_asset (asset_id_for_event event); (r, shard) = shard_apply (store ! i) event
      in (r, store[i := shard]))"

definition market_snapshot :: "MarketStateStore \<Rightarrow> string \<Rightarrow> MarketStateSnapshot StateQueryResult" where
  "market_snapshot store asset_id =
     publisher_read (sh_snapshot_publisher (store ! shard_for_asset asset_id)) asset_id"

definition market_snapshots :: "MarketStateStore \<Rightarrow> string option list \<Rightarrow> nat \<Rightarrow> MarketStateSnapshot list" where
  "market_snapshots store asset_ids max_out = read_many (sh_snapshot_publisher (store ! 0)) asset_ids max_out"

definition market_depth_views ::
  "MarketStateStore \<Rightarrow> string option list \<Rightarrow> u32 list \<Rightarrow> nat \<Rightarrow> MarketDepthView list" where
  "market_depth_views store asset_ids asset_indices max_out =
     read_depth_many (sh_snapshot_publisher (store ! 0)) asset_ids asset_indices max_out"

definition market_exists :: "MarketStateStore \<Rightarrow> string \<Rightarrow> bool" where
  "market_exists store asset_id = qr_ok (market_snapshot store asset_id)"

definition market_state_hash :: "MarketStateStore \<Rightarrow> string \<Rightarrow> u64" where
  "market_state_hash store asset_id =
     (case qr_value (market_snapshot store asset_id) of None \<Rightarrow> 0 | Some s \<Rightarrow> ms_state_hash s)"

definition market_global_hash :: "MarketStateStore \<Rightarrow> u64" where
  "market_global_hash store = foldl (\<lambda>h shard. h XOR fst (global_hash (sh_book_store shard))) 0 store"

subsection \<open>MarketStateView\<close>

definition error_result :: "string \<Rightarrow> u64 \<Rightarrow> StateQueryError \<Rightarrow> 'a StateQueryResult" where
  "error_result entity_id version error =
     \<lparr>qr_ok = False, qr_error = error, qr_entity_id = entity_id, qr_version = version, qr_value = None\<rparr>"

definition ok_result :: "string \<Rightarrow> u64 \<Rightarrow> 'a \<Rightarrow> 'a StateQueryResult" where
  "ok_result entity_id version v =
     \<lparr>qr_ok = True, qr_error = QE_None, qr_entity_id = entity_id, qr_version = version, qr_value = Some v\<rparr>"

definition has_book_levels :: "MarketStateSnapshot \<Rightarrow> bool" where
  "has_book_levels s \<longleftrightarrow> ms_bid_count s > 0 \<or> ms_ask_count s > 0"

definition executable_error :: "MarketStateSnapshot \<Rightarrow> StateQueryError" where
  "executable_error s =
     (if ms_resolved s then QE_Resolved
      else if ms_closed s then QE_Closed
      else if ms_recovering s then QE_Recovering
      else if ms_crossed s \<or> (ms_has_bid s \<and> ms_has_ask s \<and> ms_best_bid_tick s > ms_best_ask_tick s)
      then QE_CrossedBook else QE_None)"

text \<open>The steps the queries share: a published, executable snapshot or an error.\<close>

definition with_executable ::
  "MarketStateStore \<Rightarrow> string \<Rightarrow> (u64 \<Rightarrow> MarketStateSnapshot \<Rightarrow> 'a StateQueryResult) \<Rightarrow> 'a StateQueryResult" where
  "with_executable store entity_id f =
     (let q = market_snapshot store entity_id in
      case qr_value q of
        None \<Rightarrow> error_result entity_id (qr_version q) (qr_error q)
      | Some s \<Rightarrow>
          if executable_error s \<noteq> QE_None then error_result entity_id (qr_version q) (executable_error s)
          else f (qr_version q) s)"

definition get_best_bid :: "MarketStateStore \<Rightarrow> string \<Rightarrow> PriceLevel StateQueryResult" where
  "get_best_bid store entity_id =
     with_executable store entity_id (\<lambda>version s.
       if \<not> ms_has_bid s \<or> ms_bid_count s = 0 then error_result entity_id version QE_MissingBid
       else ok_result entity_id version (ms_bids s ! 0))"

definition get_best_ask :: "MarketStateStore \<Rightarrow> string \<Rightarrow> PriceLevel StateQueryResult" where
  "get_best_ask store entity_id =
     with_executable store entity_id (\<lambda>version s.
       if \<not> ms_has_ask s \<or> ms_ask_count s = 0 then error_result entity_id version QE_MissingAsk
       else ok_result entity_id version (ms_asks s ! 0))"

record BestBidAsk =
  bba_bid :: PriceLevel
  bba_ask :: PriceLevel

definition get_bbo :: "MarketStateStore \<Rightarrow> string \<Rightarrow> BestBidAsk StateQueryResult" where
  "get_bbo store entity_id =
     with_executable store entity_id (\<lambda>version s.
       if \<not> has_book_levels s then error_result entity_id version QE_EmptyBook
       else if \<not> ms_has_bid s \<or> ms_bid_count s = 0 then error_result entity_id version QE_MissingBid
       else if \<not> ms_has_ask s \<or> ms_ask_count s = 0 then error_result entity_id version QE_MissingAsk
       else if ms_best_bid_tick s > ms_best_ask_tick s then error_result entity_id version QE_CrossedBook
       else ok_result entity_id version \<lparr>bba_bid = ms_bids s ! 0, bba_ask = ms_asks s ! 0\<rparr>)"

definition get_mid_tick :: "MarketStateStore \<Rightarrow> string \<Rightarrow> i64 StateQueryResult" where
  "get_mid_tick store entity_id =
     (let bbo = get_bbo store entity_id in
      case qr_value bbo of
        None \<Rightarrow> error_result (qr_entity_id bbo) (qr_version bbo) (qr_error bbo)
      | Some q \<Rightarrow> ok_result entity_id (qr_version bbo)
          (wrap_i64 (PriceLevel.price_tick (bba_bid q) + PriceLevel.price_tick (bba_ask q)) sdiv 2))"

definition get_spread_tick :: "MarketStateStore \<Rightarrow> string \<Rightarrow> i64 StateQueryResult" where
  "get_spread_tick store entity_id =
     (let bbo = get_bbo store entity_id in
      case qr_value bbo of
        None \<Rightarrow> error_result (qr_entity_id bbo) (qr_version bbo) (qr_error bbo)
      | Some q \<Rightarrow>
          (let spread = wrap_i64 (PriceLevel.price_tick (bba_ask q) - PriceLevel.price_tick (bba_bid q)) in
           if spread < 0 then error_result entity_id (qr_version bbo) QE_CrossedBook
           else ok_result entity_id (qr_version bbo) spread))"

definition view_snapshot :: "MarketStateStore \<Rightarrow> string \<Rightarrow> nat \<Rightarrow> MarketStateSnapshot StateQueryResult" where
  "view_snapshot store entity_id max_depth =
     (if max_depth = 0 \<or> max_depth > kMaxSnapshotDepth then error_result entity_id 0 QE_InvalidDepth
      else
        (let q = market_snapshot store entity_id in
         case qr_value q of
           None \<Rightarrow> q
         | Some s \<Rightarrow> q\<lparr>qr_value := Some (s\<lparr>ms_bid_count := min (ms_bid_count s) max_depth,
               ms_ask_count := min (ms_ask_count s) max_depth\<rparr>), qr_version := ms_version s\<rparr>))"

definition kMaxDepthBatchViews :: nat where
  "kMaxDepthBatchViews = 16"

record DepthBatchReadResult =
  db_ok :: bool
  db_count :: nat
  db_combined_snapshot_hash :: u64
  db_views :: "MarketDepthView list"

definition read_depth_batch_by_asset_id :: "MarketStateStore \<Rightarrow> string list \<Rightarrow> DepthBatchReadResult" where
  "read_depth_batch_by_asset_id store asset_ids =
     (if asset_ids = [] then \<lparr>db_ok = False, db_count = 0, db_combined_snapshot_hash = 0, db_views = []\<rparr>
      else
        (let n = min (length asset_ids) kMaxDepthBatchViews;
             views = market_depth_views store (map Some (take n asset_ids)) (map of_nat [0..<n]) kMaxDepthBatchViews
         in \<lparr>db_ok = (length views = n), db_count = length views,
             db_combined_snapshot_hash = hash_depth_views views, db_views = views\<rparr>))"

subsection \<open>MarketStateEventFilter\<close>

record StateUniverse =
  un_active_asset_ids :: "string list"
  un_active_market_ids :: "string list"
  un_allow_heartbeats :: bool
  un_allow_market_lifecycle_for_active_markets :: bool

datatype MarketStateEventFilterDecision = FD_Pass | FD_Filter

datatype MarketStateEventFilterReason =
    FR_None | FR_PairedAssetNotInUniverse | FR_AssetNotInUniverse | FR_MarketNotInUniverse | FR_MissingAssetId
  | FR_MissingMarketId

record MarketStateEventFilterResult =
  fr_decision :: MarketStateEventFilterDecision
  fr_reason :: MarketStateEventFilterReason
  fr_asset_id :: string
  fr_market_id :: string

definition universe_contains :: "string list \<Rightarrow> string \<Rightarrow> bool" where
  "universe_contains values v \<longleftrightarrow> v \<noteq> [] \<and> v \<in> set values"

definition filter_reason :: "StateUniverse \<Rightarrow> MarketStateEvent \<Rightarrow> MarketStateEventFilterReason" where
  "filter_reason universe event =
     (let asset_id = asset_id_for_event event; market_id = market_id_for_event event;
          in_assets = universe_contains (un_active_asset_ids universe) asset_id;
          in_markets = universe_contains (un_active_market_ids universe) market_id;
          book = (if asset_id = [] then FR_MissingAssetId else if in_assets then FR_None
            else if in_markets then FR_PairedAssetNotInUniverse else FR_AssetNotInUniverse);
          fill = (if asset_id = [] then FR_MissingAssetId else if in_assets then FR_None else FR_AssetNotInUniverse)
      in case me_type event of
           WsHeartbeat \<Rightarrow> if un_allow_heartbeats universe then FR_None else FR_AssetNotInUniverse
         | WsLifecycle \<Rightarrow>
             if market_id = [] then FR_MissingMarketId
             else if un_allow_market_lifecycle_for_active_markets universe \<and> in_markets then FR_None
             else FR_MarketNotInUniverse
         | WsBookSnapshot \<Rightarrow> book
         | WsBookDelta \<Rightarrow> book
         | ChainConfirmedFill \<Rightarrow> fill
         | ChainRemovedFill \<Rightarrow> fill
         | ChainSettlement \<Rightarrow>
             if market_id = [] then FR_MissingMarketId else if in_markets then FR_None else FR_MarketNotInUniverse
         | DataQualityUpdate \<Rightarrow> FR_None)"

definition filter_event :: "StateUniverse option \<Rightarrow> MarketStateEvent \<Rightarrow> MarketStateEventFilterResult" where
  "filter_event universe event =
     (let reason = (case universe of None \<Rightarrow> FR_None | Some u \<Rightarrow> filter_reason u event)
      in \<lparr>fr_decision = (if reason = FR_None then FD_Pass else FD_Filter), fr_reason = reason,
          fr_asset_id = asset_id_for_event event, fr_market_id = market_id_for_event event\<rparr>)"

subsection \<open>Ticks keep the order of prices\<close>

lemma round_half_even_bounds: "\<lfloor>q\<rfloor> \<le> round_half_even q" "round_half_even q \<le> \<lfloor>q\<rfloor> + 1"
  by (simp_all add: round_half_even_def Let_def)

lemma round_half_even_mono:
  assumes "a \<le> b"
  shows "round_half_even a \<le> round_half_even b"
proof (cases "\<lfloor>a\<rfloor> = \<lfloor>b\<rfloor>")
  case True
  then show ?thesis
    using assms by (auto simp: round_half_even_def Let_def)
next
  case False
  then have "\<lfloor>a\<rfloor> + 1 \<le> \<lfloor>b\<rfloor>"
    using floor_mono [OF assms] by simp
  then show ?thesis
    using round_half_even_bounds(2) [of a] round_half_even_bounds(1) [of b] by linarith
qed

text \<open>The exponent of the rounding and the binade it belongs to.\<close>

definition double_exponent :: "rat \<Rightarrow> nat" where
  "double_exponent x = floorlog 2 (nat \<lfloor>x\<rfloor>) - 1"

lemma below_next_binade: "0 \<le> x \<Longrightarrow> x < 2 ^ (double_exponent x + 1)"
proof -
  assume x: "0 \<le> x"
  have "nat \<lfloor>x\<rfloor> < 2 ^ (double_exponent x + 1)"
  proof (cases "nat \<lfloor>x\<rfloor> = 0")
    case False
    then have "nat \<lfloor>x\<rfloor> < 2 ^ floorlog 2 (nat \<lfloor>x\<rfloor>)"
      by (intro conjunct2 [OF floorlog_bounds]) auto
    moreover have "double_exponent x + 1 = floorlog 2 (nat \<lfloor>x\<rfloor>)"
      using False by (simp add: double_exponent_def floorlog_def)
    ultimately show ?thesis
      by (simp only:)
  qed simp
  then have "nat \<lfloor>x\<rfloor> + 1 \<le> 2 ^ (double_exponent x + 1)"
    by linarith
  then have "of_nat (nat \<lfloor>x\<rfloor> + 1) \<le> (of_nat (2 ^ (double_exponent x + 1)) :: rat)"
    by (rule of_nat_mono)
  moreover have "x < of_nat (nat \<lfloor>x\<rfloor> + 1)"
    using x floor_correct [of x] by simp
  ultimately show ?thesis
    by (metis dual_order.strict_trans1 not_le of_nat_numeral of_nat_power)
qed

lemma above_binade:
  assumes "0 < double_exponent x" and "0 \<le> x"
  shows "2 ^ double_exponent x \<le> x"
proof -
  have "nat \<lfloor>x\<rfloor> \<noteq> 0"
    using assms(1) by (auto simp: double_exponent_def floorlog_def)
  then have "2 ^ double_exponent x \<le> nat \<lfloor>x\<rfloor>"
    using floorlog_bounds [of "nat \<lfloor>x\<rfloor>" 2] by (simp add: double_exponent_def)
  then have "(of_nat (2 ^ double_exponent x) :: rat) \<le> of_nat (nat \<lfloor>x\<rfloor>)"
    by (rule of_nat_mono)
  moreover have "of_nat (nat \<lfloor>x\<rfloor>) \<le> x"
    using assms(2) by simp
  ultimately have "(of_nat (2 ^ double_exponent x) :: rat) \<le> x"
    by (rule order.trans)
  then show ?thesis
    by simp
qed

lemma round_double_alt:
  "round_double x = of_int (round_half_even (x * 2 ^ 52 / 2 ^ double_exponent x)) * 2 ^ double_exponent x / 2 ^ 52"
  by (simp add: round_double_def double_exponent_def Let_def)

lemma double_exponent_mono: "x \<le> y \<Longrightarrow> double_exponent x \<le> double_exponent y"
  unfolding double_exponent_def by (intro diff_le_mono floorlog_mono nat_mono floor_mono)

lemma round_double_upper:
  assumes "0 \<le> x"
  shows "round_double x \<le> 2 ^ (double_exponent x + 1)"
proof -
  have "x * 2 ^ 52 / 2 ^ double_exponent x \<le> 2 ^ 53"
    using below_next_binade [OF assms] by (simp add: field_simps)
  then have "round_half_even (x * 2 ^ 52 / 2 ^ double_exponent x) \<le> round_half_even (2 ^ 53)"
    by (rule round_half_even_mono)
  also have "round_half_even (2 ^ 53) = 2 ^ 53"
    by (simp add: round_half_even_def)
  finally have "(of_int (round_half_even (x * 2 ^ 52 / 2 ^ double_exponent x)) :: rat) \<le> of_int (2 ^ 53)"
    by (simp only: of_int_le_iff)
  then show ?thesis
    unfolding round_double_alt by (simp add: field_simps)
qed

lemma round_double_lower:
  assumes "0 \<le> x" and "0 < double_exponent x"
  shows "2 ^ double_exponent x \<le> round_double x"
proof -
  have "2 ^ 52 \<le> x * 2 ^ 52 / 2 ^ double_exponent x"
    using above_binade [OF assms(2,1)] by (simp add: field_simps)
  then have "round_half_even (2 ^ 52) \<le> round_half_even (x * 2 ^ 52 / 2 ^ double_exponent x)"
    by (rule round_half_even_mono)
  moreover have "round_half_even (2 ^ 52) = 2 ^ 52"
    by (simp add: round_half_even_def)
  ultimately have "(of_int (2 ^ 52) :: rat) \<le> of_int (round_half_even (x * 2 ^ 52 / 2 ^ double_exponent x))"
    by (simp only: of_int_le_iff)
  then show ?thesis
    unfolding round_double_alt by (simp add: field_simps)
qed

lemma round_double_mono:
  assumes "0 \<le> x" and "x \<le> y"
  shows "round_double x \<le> round_double y"
proof (cases "double_exponent x = double_exponent y")
  case True
  have "round_half_even (x * 2 ^ 52 / 2 ^ double_exponent y) \<le> round_half_even (y * 2 ^ 52 / 2 ^ double_exponent y)"
    using assms by (intro round_half_even_mono) (simp add: divide_right_mono)
  then show ?thesis
    unfolding round_double_alt True by (intro divide_right_mono mult_right_mono) auto
next
  case False
  then have less: "double_exponent x + 1 \<le> double_exponent y"
    using double_exponent_mono [OF assms(2)] by simp
  have "round_double x \<le> 2 ^ (double_exponent x + 1)"
    by (rule round_double_upper [OF assms(1)])
  also have "\<dots> \<le> 2 ^ double_exponent y"
    using less by (intro power_increasing) auto
  also have "\<dots> \<le> round_double y"
    using assms less by (intro round_double_lower) auto
  finally show ?thesis .
qed

lemma price_to_tick_mono: "0 \<le> p \<Longrightarrow> p \<le> q \<Longrightarrow> price_to_tick p \<le> price_to_tick q"
  unfolding price_to_tick_def nearest_double_def kDefaultPriceScale_def
  by (intro floor_mono add_right_mono divide_right_mono round_double_mono mult_right_mono) auto

lemma price_to_tick_upper:
  assumes "0 \<le> p" and "p \<le> 1"
  shows "price_to_tick p \<le> 2 ^ 20"
proof -
  let ?x = "p * 1000000 * 2 ^ 1074 :: rat"
  have x: "0 \<le> ?x" "?x \<le> 1000000 * 2 ^ 1074"
    using assms by (simp_all add: field_simps)
  have "double_exponent ?x \<le> 1093"
  proof (cases "double_exponent ?x = 0")
    case False
    then have "2 ^ double_exponent ?x \<le> ?x"
      using above_binade [of ?x] x by simp
    also have "\<dots> < 2 ^ 1094"
      using x(2) by (rule le_less_trans) simp
    finally have "double_exponent ?x < 1094"
      by (rule power_less_imp_less_exp [rotated]) simp
    then show ?thesis by simp
  qed simp
  have "round_double ?x \<le> 2 ^ (double_exponent ?x + 1)"
    by (rule round_double_upper [OF x(1)])
  also have "\<dots> \<le> 2 ^ 1094"
    by (rule power_increasing) (use \<open>double_exponent ?x \<le> 1093\<close> in simp_all)
  finally have "round_double ?x / 2 ^ 1074 \<le> 2 ^ 1094 / 2 ^ 1074"
    by (rule divide_right_mono) simp
  then have "nearest_double (p * kDefaultPriceScale) \<le> 2 ^ 20"
    by (simp add: nearest_double_def kDefaultPriceScale_def)
  then show ?thesis
    unfolding price_to_tick_def by (simp add: floor_le_iff)
qed

lemma price_to_tick_pos:
  assumes "1 / 2 \<le> p"
  shows "0 < price_to_tick p"
proof -
  let ?x = "p * 1000000 * 2 ^ 1074 :: rat"
  have "500000 * 2 ^ 1074 \<le> ?x"
    using assms by simp
  moreover have "(2 :: rat) ^ 1092 \<le> 500000 * 2 ^ 1074"
    by simp
  ultimately have x: "0 \<le> ?x" "2 ^ 1092 \<le> ?x"
    using assms by auto
  then have "2 ^ 1092 < (2 :: rat) ^ (double_exponent ?x + 1)"
    using below_next_binade [OF x(1)] by linarith
  then have "1092 < double_exponent ?x + 1"
    by (rule power_less_imp_less_exp [rotated]) simp
  then have e: "1092 \<le> double_exponent ?x"
    by simp
  then have "(2 :: rat) ^ 1092 \<le> 2 ^ double_exponent ?x"
    by (rule power_increasing) simp
  also have "\<dots> \<le> round_double ?x"
    using e by (intro round_double_lower [OF x(1)]) simp
  finally have "2 ^ 1092 / 2 ^ 1074 \<le> round_double ?x / 2 ^ 1074"
    by (rule divide_right_mono) simp
  then have "2 ^ 18 \<le> nearest_double (p * kDefaultPriceScale)"
    by (simp add: nearest_double_def kDefaultPriceScale_def)
  then show ?thesis
    unfolding price_to_tick_def by simp
qed

subsection \<open>What a shard publishes\<close>

lemma global_hash_keeps [simp]: "st_entities (snd (global_hash store)) = st_entities store"
  by (simp add: global_hash_def split: prod.splits)

lemma store_ok_cong: "st_entities s = st_entities t \<Longrightarrow> store_ok s = store_ok t"
  by (simp add: store_ok_def)

lemma lob_apply_ok:
  assumes "store_ok store" and "lob_apply (Some store) event = (r, Some store')"
  shows "store_ok store'"
proof -
  have "store' = snd (apply_event store (me_ws_event event)) \<or> store' = snd (global_hash store)"
    using assms(2) by (auto simp: lob_apply_def ignored_result_def map_prod_def split: if_splits prod.splits)
  then show ?thesis
    using apply_event_ok [OF assms(1)] assms(1) store_ok_cong [of "snd (global_hash store)" store] by auto
qed

lemma apply_book_event_ok:
  assumes "store_ok (sh_book_store shard)"
  shows "store_ok (sh_book_store (snd (apply_book_event shard event)))"
  using assms lob_apply_ok [OF assms, of event]
  by (auto simp: apply_book_event_def split: prod.splits option.splits)

lemma apply_event_parts_keep [simp]:
  "sh_book_store (snd (apply_chain_event shard event)) = sh_book_store shard"
  "sh_book_store (snd (apply_settlement_event shard event)) = sh_book_store shard"
  by (simp_all add: apply_chain_event_def apply_settlement_event_def Let_def split: prod.splits)

lemma dispatch_event_ok:
  "store_ok (sh_book_store shard) \<Longrightarrow> store_ok (sh_book_store (snd (dispatch_event shard event)))"
  using apply_book_event_ok [of shard event]
  by (cases "me_type event") (auto simp: dispatch_event_def Let_def split: prod.splits; metis apply_event_parts_keep(2) snd_conv)+

lemma quality_step_keeps [simp]:
  "sh_book_store (snd (quality_step asset_id r shard)) = sh_book_store shard"
  "sh_chain_writer (snd (quality_step asset_id r shard)) = sh_chain_writer shard"
  "sr_snapshot_published (fst (quality_step asset_id r shard)) = sr_snapshot_published r"
  by (simp_all add: quality_step_def refresh_quality_def Let_def)

lemma quality_step_grades:
  assumes "asset_id \<noteq> []"
  shows "sh_quality (snd (quality_step asset_id r shard)) = gate_evaluate default_gate_config (quality_input shard asset_id)"
  using assms by (simp add: quality_step_def refresh_quality_def Let_def)

lemma quality_input_cong:
  "sh_book_store s = sh_book_store t \<Longrightarrow> sh_chain_writer s = sh_chain_writer t \<Longrightarrow> quality_input s = quality_input t"
  by (simp add: fun_eq_iff quality_input_def)

lemma publish_keeps [simp]:
  "sh_book_store (snd (publish_asset_snapshot shard ctx)) = sh_book_store shard"
  "sh_chain_writer (snd (publish_asset_snapshot shard ctx)) = sh_chain_writer shard"
  "sh_quality (snd (publish_asset_snapshot shard ctx)) = sh_quality shard"
  by (simp_all add: publish_asset_snapshot_def split: option.splits)

lemma remember_hash_keeps [simp]:
  "sh_book_store (remember_hash asset_id r shard) = sh_book_store shard"
  "sh_chain_writer (remember_hash asset_id r shard) = sh_chain_writer shard"
  "sh_quality (remember_hash asset_id r shard) = sh_quality shard"
  by (simp_all add: remember_hash_def)

lemma publish_step_keeps [simp]:
  "sh_book_store (snd (publish_step event r shard)) = sh_book_store shard"
  "sh_chain_writer (snd (publish_step event r shard)) = sh_chain_writer shard"
  "sh_quality (snd (publish_step event r shard)) = sh_quality shard"
  by (simp_all add: publish_step_def Let_def)

lemma version_step_fields [simp]:
  "sr_snapshot_published (version_step asset_id r shard) = sr_snapshot_published r"
  "sr_mutation (version_step asset_id r shard) = sr_mutation r"
  by (simp_all add: version_step_def Let_def)

lemma shard_apply_keeps:
  "sh_book_store (snd (shard_apply shard event)) = sh_book_store (snd (dispatch_event shard event))"
  "sh_chain_writer (snd (shard_apply shard event)) = sh_chain_writer (snd (dispatch_event shard event))"
  by (simp_all add: shard_apply_def Let_def)

lemma shard_apply_ok: "store_ok (sh_book_store shard) \<Longrightarrow> store_ok (sh_book_store (snd (shard_apply shard event)))"
  by (simp add: shard_apply_keeps dispatch_event_ok)

lemma shard_apply_grades:
  assumes "asset_id_for_event event \<noteq> []"
  shows "sh_quality (snd (shard_apply shard event)) =
    gate_evaluate default_gate_config (quality_input (snd (shard_apply shard event)) (asset_id_for_event event))"
proof -
  have "quality_input (snd (shard_apply shard event)) = quality_input (snd (dispatch_event shard event))"
    by (rule quality_input_cong) (simp_all add: shard_apply_keeps)
  then show ?thesis
    using assms by (simp add: shard_apply_def Let_def quality_step_grades)
qed

lemma published_after:
  assumes "ms_entity_id s \<noteq> []"
  shows "published_slot (publish p s) (ms_entity_id s) =
    Some (let version = (case p (ms_entity_id s) of None \<Rightarrow> 0 | Some b \<Rightarrow> ms_version (sk_snapshot (active_slot b)));
              s' = (if ms_version s < version + 1 then s\<lparr>ms_version := version + 1\<rparr> else s)
          in \<lparr>sk_snapshot = s', sk_depth_view = market_depth_view_from_snapshot s' 0\<rparr>)"
proof -
  have zero: "ms_version (sk_snapshot (active_slot empty_buffer)) = 0"
    by (simp add: active_slot_def empty_buffer_def empty_slot_def default_snapshot_def)
  have "active_slot (publish_buffer s b) =
      (let version = ms_version (sk_snapshot (active_slot b));
           s' = (if ms_version s < version + 1 then s\<lparr>ms_version := version + 1\<rparr> else s)
       in \<lparr>sk_snapshot = s', sk_depth_view = market_depth_view_from_snapshot s' 0\<rparr>)" for b
    by (simp add: publish_buffer_def active_slot_def Let_def)
  moreover have "sb_published (publish_buffer s b)" for b
    by (simp add: publish_buffer_def Let_def)
  ultimately show ?thesis
    using assms zero by (simp add: publish_def published_slot_def split: option.splits)
qed

lemma published_version:
  assumes "ms_entity_id s \<noteq> []"
  obtains v where "published_slot (publish p s) (ms_entity_id s) =
    Some \<lparr>sk_snapshot = s\<lparr>ms_version := v\<rparr>, sk_depth_view = market_depth_view_from_snapshot (s\<lparr>ms_version := v\<rparr>) 0\<rparr>"
proof -
  define version where
    "version = (case p (ms_entity_id s) of None \<Rightarrow> 0 | Some b \<Rightarrow> ms_version (sk_snapshot (active_slot b)))"
  have eq: "(if ms_version s < version + 1 then s\<lparr>ms_version := version + 1\<rparr> else s) =
      s\<lparr>ms_version := (if ms_version s < version + 1 then version + 1 else ms_version s)\<rparr>"
    by simp
  from published_after [OF assms, of p, folded version_def, unfolded Let_def eq] show ?thesis
    by (rule that)
qed

lemma make_result_unpublished [simp]: "\<not> sr_snapshot_published (fst (make_result store code entity_id message changed))"
  by (simp add: make_result_def Let_def split: prod.splits)

lemma mark_unpublished [simp]:
  "sr_snapshot_published (mark_book_snapshot r) = sr_snapshot_published r"
  "sr_snapshot_published (mark_book_delta r) = sr_snapshot_published r"
  "sr_snapshot_published (mark_lifecycle r) = sr_snapshot_published r"
  by (simp_all add: mark_book_snapshot_def mark_book_delta_def mark_lifecycle_def)

lemma apply_event_unpublished: "\<not> sr_snapshot_published (fst (apply_event store event))"
  by (cases "ne_event_type event") (auto simp: apply_event_def event_handler_defs Let_def split: prod.splits)

lemma apply_book_event_unpublished: "\<not> sr_snapshot_published (fst (apply_book_event shard event))"
  using apply_event_unpublished [of "sh_book_store shard" "me_ws_event event"]
  by (auto simp: apply_book_event_def lob_apply_def ignored_result_def from_book_result_def from_state_result_def
      blank_book_result_def map_prod_def split: prod.splits if_splits)

lemma dispatch_event_unpublished: "\<not> sr_snapshot_published (fst (dispatch_event shard event))"
  using apply_book_event_unpublished [of shard event]
  by (cases "me_type event") (auto simp: dispatch_event_def apply_chain_event_def apply_settlement_event_def
      make_noop_result_def Let_def split: prod.splits)

lemma get_entity_id: "store_ok store \<Longrightarrow> get_entity store i = Some e \<Longrightarrow> entity_ok i e \<and> i \<noteq> []"
  by (auto simp: get_entity_def store_ok_def dest!: map_of_SomeD)

lemma shard_apply_publishes:
  assumes ok: "store_ok (sh_book_store shard)" and asset: "asset_id_for_event event \<noteq> []"
    and "sr_snapshot_published (fst (shard_apply shard event))"
  obtains e ctx v s where "get_entity (sh_book_store (snd (shard_apply shard event))) (asset_id_for_event event) = Some e"
    and "s = (build_snapshot (snd (shard_apply shard event)) ctx e)\<lparr>ms_version := v\<rparr>"
    and "published_slot (sh_snapshot_publisher (snd (shard_apply shard event))) (asset_id_for_event event) =
      Some \<lparr>sk_snapshot = s, sk_depth_view = market_depth_view_from_snapshot s 0\<rparr>"
proof -
  define a where "a = asset_id_for_event event"
  define graded where "graded = quality_step a (fst (dispatch_event shard event)) (snd (dispatch_event shard event))"
  define r where "r = version_step a (fst graded) (snd graded)"
  define s3 where "s3 = remember_hash a r (snd graded)"
  define ctx where "ctx = build_snapshot_context s3 event r"
  have ap: "shard_apply shard event = publish_step event r s3"
    by (simp add: shard_apply_def Let_def a_def graded_def r_def s3_def)
  have "\<not> sr_snapshot_published r"
    by (simp add: r_def graded_def dispatch_event_unpublished)
  moreover have "publish_step event r s3 =
      (if mu_publish_required (sr_mutation r) \<and> bc_asset_id ctx \<noteq> []
       then (r\<lparr>sr_snapshot_published := fst (publish_asset_snapshot s3 ctx)\<rparr>, snd (publish_asset_snapshot s3 ctx))
       else (r, s3))"
    by (simp add: publish_step_def ctx_def Let_def)
  ultimately have step: "publish_step event r s3 =
      (r\<lparr>sr_snapshot_published := fst (publish_asset_snapshot s3 ctx)\<rparr>, snd (publish_asset_snapshot s3 ctx))"
    using assms(3) unfolding ap by (metis fst_conv)
  have pub: "fst (publish_asset_snapshot s3 ctx)"
    using assms(3) unfolding ap step by simp
  have ctx_a: "bc_asset_id ctx = a"
    using asset by (simp add: ctx_def build_snapshot_context_def a_def Let_def)
  from pub obtain e where e: "get_entity (sh_book_store s3) a = Some e"
    by (auto simp: publish_asset_snapshot_def ctx_a split: option.splits)
  have store: "sh_book_store (snd (shard_apply shard event)) = sh_book_store s3"
    unfolding ap by simp
  have e': "get_entity (sh_book_store (snd (shard_apply shard event))) a = Some e"
    using e store by simp
  have name: "et_entity_id e = a"
    using get_entity_id [OF shard_apply_ok [OF ok] e'] by (simp add: entity_ok_def)
  let ?b = "build_snapshot s3 ctx e"
  have id: "ms_entity_id ?b = a"
    by (simp add: build_snapshot_def name Let_def)
  have "build_snapshot (snd (shard_apply shard event)) ctx e = ?b"
    unfolding ap by (simp add: build_snapshot_def Let_def)
  moreover have "sh_snapshot_publisher (snd (shard_apply shard event)) = publish (sh_snapshot_publisher s3) ?b"
    unfolding ap step by (simp add: publish_asset_snapshot_def ctx_a e)
  moreover obtain v where "published_slot (publish (sh_snapshot_publisher s3) ?b) a =
      Some \<lparr>sk_snapshot = ?b\<lparr>ms_version := v\<rparr>, sk_depth_view = market_depth_view_from_snapshot (?b\<lparr>ms_version := v\<rparr>) 0\<rparr>"
    using published_version [of ?b "sh_snapshot_publisher s3"] asset id unfolding a_def by metis
  ultimately have "published_slot (sh_snapshot_publisher (snd (shard_apply shard event))) (asset_id_for_event event) =
      Some \<lparr>sk_snapshot = (build_snapshot (snd (shard_apply shard event)) ctx e)\<lparr>ms_version := v\<rparr>,
        sk_depth_view = market_depth_view_from_snapshot ((build_snapshot (snd (shard_apply shard event)) ctx e)\<lparr>ms_version := v\<rparr>) 0\<rparr>"
    unfolding a_def by simp
  from that [OF e' [unfolded a_def] refl this] show ?thesis .
qed

definition view_bids :: "MarketDepthView \<Rightarrow> PriceLevel list" where
  "view_bids view = take (dv_bid_count view) (dv_bids view)"

definition shown_levels :: "BookSide \<Rightarrow> PriceLevel list" where
  "shown_levels side = map (\<lambda>(p, s). make_price_level p s) (take kMaxSnapshotDepth side)"

lemma take_snapshot_levels:
  "take (min (length side) kMaxSnapshotDepth) (snapshot_levels side) = shown_levels side"
  by (simp add: snapshot_levels_def shown_levels_def copy_levels_def)

lemma view_of_snapshot:
  assumes "v = market_depth_view_from_snapshot ((build_snapshot shard ctx e)\<lparr>ms_version := n\<rparr>) i"
  shows "view_asks v = shown_levels (bk_asks (et_book e))" "view_bids v = shown_levels (bk_bids (et_book e))"
    "dv_usable_for_depth v = bq_usable_for_depth (sh_quality shard)"
    "dv_recovering v = (et_recovering e \<or> et_status e = ES_Recovering)" "dv_crossed v = bk_crossed (et_book e)"
    "dv_closed v = (et_closed e \<or> et_status e = ES_Closed)" "dv_resolved v = bk_resolved (et_book e)"
    "dv_prefix v = build_depth_prefix (dv_bids v) (dv_bid_count v) (dv_asks v) (dv_ask_count v)"
    "length (dv_asks v) = kMaxSnapshotDepth" "dv_ask_count v \<le> kMaxSnapshotDepth"
  using assms
  by (simp_all add: view_asks_def view_bids_def market_depth_view_from_snapshot_def build_snapshot_def Let_def
      take_copy_levels take_snapshot_levels [symmetric] snapshot_levels_def copy_levels_def min_def)

lemma shown_asks_sorted:
  assumes "side_ok (<) side"
  shows "sorted (map PriceLevel.price_tick (shown_levels side))"
proof -
  have "sorted_wrt (\<lambda>x y. fst x < fst y) side" and "\<forall>x \<in> set side. 0 \<le> fst x"
    using assms by (auto simp: side_ok_def map_sorted_def sorted_wrt_map)
  from this(1) have "sorted_wrt (\<lambda>x y. price_to_tick (fst x) \<le> price_to_tick (fst y)) side"
    by (rule sorted_wrt_mono_rel [rotated]) (use \<open>\<forall>x \<in> set side. 0 \<le> fst x\<close> in \<open>auto intro: price_to_tick_mono less_imp_le\<close>)
  then have "sorted_wrt (\<lambda>x y. price_to_tick (fst x) \<le> price_to_tick (fst y)) (take kMaxSnapshotDepth side)"
    by (rule sorted_wrt_take)
  then show ?thesis
    by (simp add: shown_levels_def sorted_wrt_map make_price_level_def case_prod_beta)
qed

lemma shown_bids_sorted:
  assumes "side_ok (>) side"
  shows "sorted_wrt (\<ge>) (map PriceLevel.price_tick (shown_levels side))"
proof -
  have "sorted_wrt (\<lambda>x y. fst x > fst y) side" and "\<forall>x \<in> set side. 0 \<le> fst x"
    using assms by (auto simp: side_ok_def map_sorted_def sorted_wrt_map)
  from this(1) have "sorted_wrt (\<lambda>x y. price_to_tick (fst x) \<ge> price_to_tick (fst y)) side"
    by (rule sorted_wrt_mono_rel [rotated]) (use \<open>\<forall>x \<in> set side. 0 \<le> fst x\<close> in \<open>auto intro: price_to_tick_mono less_imp_le\<close>)
  then have "sorted_wrt (\<lambda>x y. price_to_tick (fst x) \<ge> price_to_tick (fst y)) (take kMaxSnapshotDepth side)"
    by (rule sorted_wrt_take)
  then show ?thesis
    by (simp add: shown_levels_def sorted_wrt_map make_price_level_def case_prod_beta)
qed

lemma usable_quality:
  assumes "bq_usable_for_depth (gate_evaluate config input)"
  obtains e where "dq_entity input = Some e" "et_initialized e" "\<not> et_recovering e" "et_status e \<noteq> ES_Recovering"
    "\<not> et_closed e" "et_status e \<noteq> ES_Closed" "\<not> bk_resolved (et_book e)" "\<not> crossed_book e" "gate_ws_live config input"
  using assms by (auto simp: gate_evaluate_def set_usability_def gate_quality_def split: option.splits if_splits)

definition run_shard :: "LOBShard \<Rightarrow> MarketStateEvent list \<Rightarrow> LOBShard" where
  "run_shard = foldl (\<lambda>shard event. snd (shard_apply shard event))"

lemma run_shard_ok: "store_ok (sh_book_store shard) \<Longrightarrow> store_ok (sh_book_store (run_shard shard events))"
  by (induction events arbitrary: shard) (simp_all add: run_shard_def shard_apply_ok)

lemma make_shard_ok [simp]: "store_ok (sh_book_store (make_shard i config))"
  by (simp add: make_shard_def)

text \<open>The view a reader gets of one asset.\<close>

lemma read_one_view:
  "published_slot p a = Some slot \<Longrightarrow> read_depth_many p [Some a] [i] 1 = [(sk_depth_view slot)\<lparr>dv_asset_index := i\<rparr>]"
  by (simp add: read_depth_many_def)

lemma published_view:
  assumes ok: "store_ok (sh_book_store shard)" and asset: "asset_id_for_event event \<noteq> []"
    and out: "out = shard_apply shard event" and pub: "sr_snapshot_published (fst out)"
  obtains e v where "get_entity (sh_book_store (snd out)) (asset_id_for_event event) = Some e"
    and "market_depth_views [snd out] [Some (asset_id_for_event event)] [index] 1 = [v]" "dv_asset_index v = index"
    and "view_asks v = shown_levels (bk_asks (et_book e))" "view_bids v = shown_levels (bk_bids (et_book e))"
    and "side_ok (<) (bk_asks (et_book e))" "side_ok (>) (bk_bids (et_book e))"
    and "dv_prefix v = build_depth_prefix (dv_bids v) (dv_bid_count v) (dv_asks v) (dv_ask_count v)"
    and "length (dv_asks v) = kMaxSnapshotDepth" "dv_ask_count v \<le> kMaxSnapshotDepth"
    and "dv_usable_for_depth v \<Longrightarrow> et_initialized e \<and>
       \<not> dv_recovering v \<and> \<not> dv_crossed v \<and> \<not> dv_closed v \<and> \<not> dv_resolved v"
proof -
  let ?a = "asset_id_for_event event"
  obtain e ctx n s where e: "get_entity (sh_book_store (snd out)) ?a = Some e"
    and s: "s = (build_snapshot (snd out) ctx e)\<lparr>ms_version := n\<rparr>"
    and slot: "published_slot (sh_snapshot_publisher (snd out)) ?a =
      Some \<lparr>sk_snapshot = s, sk_depth_view = market_depth_view_from_snapshot s 0\<rparr>"
    using shard_apply_publishes [OF ok asset pub [unfolded out]] unfolding out by metis
  define v where "v = (market_depth_view_from_snapshot s 0)\<lparr>dv_asset_index := index\<rparr>"
  have v: "v = market_depth_view_from_snapshot s index"
    by (simp add: v_def market_depth_view_from_snapshot_def Let_def)
  note view = view_of_snapshot [OF this [unfolded s]]
  have "book_ok (et_book e)"
    using get_entity_id [OF shard_apply_ok [OF ok] e [unfolded out]] by (simp add: entity_ok_def)
  then have sides: "side_ok (<) (bk_asks (et_book e))" "side_ok (>) (bk_bids (et_book e))"
    by (simp_all add: book_ok_def)
  have quality: "sh_quality (snd out) = gate_evaluate default_gate_config (quality_input (snd out) ?a)"
    unfolding out by (rule shard_apply_grades [OF asset])
  have input: "dq_entity (quality_input (snd out) ?a) = Some e"
    using e by (simp add: quality_input_def Let_def)
  have usable: "et_initialized e \<and> \<not> dv_recovering v \<and> \<not> dv_crossed v \<and> \<not> dv_closed v \<and> \<not> dv_resolved v"
    if "dv_usable_for_depth v"
    using that input unfolding view(3-7) quality by (elim usable_quality) (auto simp: crossed_book_def split: if_splits)
  have read: "market_depth_views [snd out] [Some ?a] [index] 1 = [v]"
    using read_one_view [OF slot, of index] by (simp add: market_depth_views_def v_def)
  have index: "dv_asset_index v = index"
    by (simp add: v_def)
  show ?thesis
    by (rule that [OF e read index view(1,2) sides view(8-10) usable])
qed

text \<open>C35: Published views. Whenever an event of an asset is published, a reader of that asset gets the first levels of its book
  as it now is, asks by ascending and bids by descending ticks, and the view is marked usable only if
  the book is initialised and neither recovering, crossed, closed nor resolved.\<close>

theorem published_view_sound:
  fixes config events event index
  defines "shard \<equiv> run_shard (make_shard 0 config) events"
  defines "out \<equiv> shard_apply shard event"
  assumes "asset_id_for_event event \<noteq> []" and "sr_snapshot_published (fst out)"
  shows "\<exists>e v. get_entity (sh_book_store (snd out)) (asset_id_for_event event) = Some e \<and>
    market_depth_views [snd out] [Some (asset_id_for_event event)] [index] 1 = [v] \<and> dv_asset_index v = index \<and>
    view_asks v = shown_levels (bk_asks (et_book e)) \<and> sorted (map PriceLevel.price_tick (view_asks v)) \<and>
    view_bids v = shown_levels (bk_bids (et_book e)) \<and> sorted_wrt (\<ge>) (map PriceLevel.price_tick (view_bids v)) \<and>
    (dv_usable_for_depth v \<longrightarrow> et_initialized e \<and>
       \<not> dv_recovering v \<and> \<not> dv_crossed v \<and> \<not> dv_closed v \<and> \<not> dv_resolved v)"
proof -
  have "store_ok (sh_book_store shard)"
    unfolding shard_def by (rule run_shard_ok) simp
  from this assms(3) out_def [THEN meta_eq_to_obj_eq] assms(4) show ?thesis
  proof (cases rule: published_view [of shard event out index])
    case (1 e v)
    then show ?thesis
      by (intro exI [of _ e] exI [of _ v]) (simp add: shown_asks_sorted shown_bids_sorted)
  qed
qed

lemma publish_step_published:
  assumes "mu_publish_required (sr_mutation r)" and "asset_id_for_event event \<noteq> []"
    and "get_entity (sh_book_store shard) (asset_id_for_event event) \<noteq> None"
  shows "sr_snapshot_published (fst (publish_step event r shard))"
  using assms by (auto simp: publish_step_def build_snapshot_context_def publish_asset_snapshot_def Let_def)

lemma quality_step_required:
  "mu_publish_required (sr_mutation r) \<Longrightarrow> mu_publish_required (sr_mutation (fst (quality_step asset_id r shard)))"
  by (simp add: quality_step_def Let_def)

lemma shard_apply_published:
  assumes "mu_publish_required (sr_mutation (fst (dispatch_event shard event)))" and "asset_id_for_event event \<noteq> []"
    and "get_entity (sh_book_store (snd (dispatch_event shard event))) (asset_id_for_event event) \<noteq> None"
  shows "sr_snapshot_published (fst (shard_apply shard event))"
  unfolding shard_apply_def Let_def
  by (rule publish_step_published) (use assms in \<open>simp_all add: quality_step_required\<close>)

definition sample_market_event :: MarketStateEvent where
  "sample_market_event = from_normalized_event (sample_event NE_Snapshot)"

lemma sample_market_event_dispatch:
  "mu_publish_required (sr_mutation (fst (dispatch_event (make_shard 0 default_state_config) sample_market_event)))"
  "get_entity (sh_book_store (snd (dispatch_event (make_shard 0 default_state_config) sample_market_event))) ''a'' \<noteq> None"
  by (simp_all add: dispatch_event_def sample_market_event_def from_normalized_event_def apply_book_event_def
      lob_apply_def apply_event_def apply_snapshot_def sample_event_def resolve_entity_id_def
      get_or_create_entity_def get_entity_def make_shard_def make_entity_store_def new_entity_def Let_def
      make_result_def from_book_result_def from_state_result_def mark_book_snapshot_def
      default_state_config_def count_error_def put_entity_def split: prod.splits)

theorem published_view_sound_witness:
  "\<exists>v. market_depth_views [snd (shard_apply (make_shard 0 default_state_config) sample_market_event)] [Some ''a''] [3] 1 = [v] \<and>
     dv_asset_index v = 3 \<and> sorted (map PriceLevel.price_tick (view_asks v))"
proof -
  have a: "asset_id_for_event sample_market_event = ''a''"
    by (simp add: asset_id_for_event_def sample_market_event_def from_normalized_event_def sample_event_def)
  have "sr_snapshot_published (fst (shard_apply (run_shard (make_shard 0 default_state_config) []) sample_market_event))"
    using sample_market_event_dispatch a by (simp add: run_shard_def shard_apply_published)
  then show ?thesis
    using published_view_sound [of sample_market_event default_state_config "[]" 3] a by (auto simp: run_shard_def)
qed

end
