(* ===== verification/OrderSizing.thy ===== *)
theory OrderSizing
  imports MarketView RiskPolicy
begin

section \<open>The size of an order decision\<close>

text \<open>
  \<open>engine/order_decision/math\<close>, \<open>limits\<close> and \<open>sizing\<close> with the bundles of
  \<open>oracle/bundles/CandidateBundle.h\<close>: the depth of every leg becomes a cost curve, a cursor merges
  the quantities at which some curve changes its price, and \<open>BundleSizeOptimizer\<close> moves from one such
  quantity to the next, paying only for what the step adds, and keeps the one with the best edge. An array
  with a count is the list of its counted entries. Clock readings and the statistics of an evaluation are
  left out; of the latter only the number of candidates decides anything, and it is the number of candidates
  streamed.

  A cursor asked for quantities below one never ends, so its loop is a partial function. Lemmas: the cursor
  ends for quantities from one on and enumerates the price changes of all legs in ascending order without
  repetition; asked for others it never ends.
\<close>

subsection \<open>Bundles\<close>

record BundleLeg =
  bg_market_id :: string
  bg_asset_id :: string
  bg_side :: Side
  bg_quantity_lots :: i64
  bg_max_price_tick :: i64

record CandidateBundle =
  cb_bundle_id :: u64
  cb_required_true_mask :: u64
  cb_required_false_mask :: u64
  cb_invalid_mask :: u64
  cb_guaranteed_payout_tick :: i64
  cb_leg_count :: nat
  cb_legs :: "BundleLeg list"
  cb_min_edge_tick :: i64

definition bundle_legs :: "CandidateBundle \<Rightarrow> BundleLeg list" where
  "bundle_legs bundle = take (cb_leg_count bundle) (cb_legs bundle)"

subsection \<open>OrderDecisionConfig\<close>

datatype OrderDecisionImplMode = Generic | FastFixedShape

record OrderDecisionConfig =
  dc_impl_mode :: OrderDecisionImplMode
  dc_fast_fixed_shape_fallback_to_generic :: bool
  dc_min_bundle_qty :: i64
  dc_max_bundle_qty :: i64
  dc_fee_per_bundle_tick :: i64
  dc_latency_buffer_per_bundle_tick :: i64
  dc_slippage_buffer_per_bundle_tick :: i64
  dc_price_protection_buffer_tick :: i64
  dc_max_allowed_price_tick :: i64
  dc_default_ttl_ns :: u64
  dc_use_prefix_vwap :: bool
  dc_debug_compare_prefix_vs_linear :: bool

definition default_decision_config :: OrderDecisionConfig where
  "default_decision_config =
     \<lparr>dc_impl_mode = Generic, dc_fast_fixed_shape_fallback_to_generic = True, dc_min_bundle_qty = 1,
      dc_max_bundle_qty = 0, dc_fee_per_bundle_tick = 0, dc_latency_buffer_per_bundle_tick = 0,
      dc_slippage_buffer_per_bundle_tick = 0, dc_price_protection_buffer_tick = 0,
      dc_max_allowed_price_tick = 0, dc_default_ttl_ns = 1000000000, dc_use_prefix_vwap = True,
      dc_debug_compare_prefix_vs_linear = False\<rparr>"

subsection \<open>Cost curves\<close>

definition kMaxCostCurveLevels :: nat where
  "kMaxCostCurveLevels = 64"

record CostCurveLevel =
  cl_price_tick :: i64
  cl_size_lots :: i64
  cl_cumulative_qty_lots :: i64
  cl_cumulative_cost_tick :: i64

record CostCurve =
  cv_market_id :: string
  cv_asset_id :: string
  cv_asset_index :: u32
  cv_side :: Side
  cv_levels :: "CostCurveLevel list"
  cv_total_qty_lots :: i64

record CostForQuantityResult =
  cq_ok :: bool
  cq_quantity_lots :: i64
  cq_total_cost_tick :: i64
  cq_vwap_tick :: i64
  cq_worst_price_tick :: i64

definition unpriced :: "i64 \<Rightarrow> CostForQuantityResult" where
  "unpriced quantity_lots =
     \<lparr>cq_ok = False, cq_quantity_lots = quantity_lots, cq_total_cost_tick = 0, cq_vwap_tick = 0,
      cq_worst_price_tick = 0\<rparr>"

fun cost_loop :: "CostCurveLevel list \<Rightarrow> i64 \<Rightarrow> i64 \<Rightarrow> i64 \<Rightarrow> CostForQuantityResult" where
  "cost_loop [] quantity_lots previous_qty previous_cost = unpriced quantity_lots"
| "cost_loop (level # levels) quantity_lots previous_qty previous_cost =
     (if cl_cumulative_qty_lots level < quantity_lots
      then cost_loop levels quantity_lots (cl_cumulative_qty_lots level) (cl_cumulative_cost_tick level)
      else
        (case checked_mul_i64 (quantity_lots - previous_qty) (cl_price_tick level) of
           None \<Rightarrow> unpriced 0
         | Some partial_cost \<Rightarrow>
        (case checked_add_i64 previous_cost partial_cost of
           None \<Rightarrow> unpriced 0
         | Some total_cost \<Rightarrow>
             \<lparr>cq_ok = True, cq_quantity_lots = quantity_lots, cq_total_cost_tick = total_cost,
              cq_vwap_tick = total_cost sdiv quantity_lots, cq_worst_price_tick = cl_price_tick level\<rparr>)))"

definition cost_for_quantity :: "CostCurve \<Rightarrow> i64 \<Rightarrow> CostForQuantityResult" where
  "cost_for_quantity curve quantity_lots =
     (if quantity_lots \<le> 0 \<or> cv_levels curve = [] \<or> quantity_lots > cv_total_qty_lots curve
      then unpriced quantity_lots
      else cost_loop (cv_levels curve) quantity_lots 0 0)"

text \<open>The loop of \<open>build_buy_curve\<close> with its running totals; \<open>None\<close> is an overflow.\<close>

fun curve_loop :: "PriceLevel list \<Rightarrow> i64 \<Rightarrow> i64 \<Rightarrow> nat \<Rightarrow> (CostCurveLevel list \<times> i64) option" where
  "curve_loop [] qty cost room = Some ([], qty)"
| "curve_loop (level # levels) qty cost room =
     (if room = 0 then Some ([], qty)
      else if price_tick level \<le> 0 \<or> price_level_size_lots level \<le> 0 then curve_loop levels qty cost room
      else
        (case checked_mul_i64 (price_tick level) (price_level_size_lots level) of
           None \<Rightarrow> None
         | Some level_cost \<Rightarrow>
        (case checked_add_i64 qty (price_level_size_lots level) of
           None \<Rightarrow> None
         | Some qty' \<Rightarrow>
        (case checked_add_i64 cost level_cost of
           None \<Rightarrow> None
         | Some cost' \<Rightarrow>
             map_option (map_prod (Cons \<lparr>cl_price_tick = price_tick level,
                 cl_size_lots = price_level_size_lots level, cl_cumulative_qty_lots = qty',
                 cl_cumulative_cost_tick = cost'\<rparr>) (\<lambda>total. total))
               (curve_loop levels qty' cost' (room - 1))))))"

definition build_buy_curve ::
  "BundleLeg option \<Rightarrow> MarketDepthView option \<Rightarrow> u32 \<Rightarrow> OrderDecisionType + CostCurve" where
  "build_buy_curve leg_ptr depth_ptr asset_index =
     (case (leg_ptr, depth_ptr) of
        (Some leg, Some view) \<Rightarrow>
          if bg_side leg \<noteq> Buy then Inl OrderDecisionType.RejectUnsupportedSide
          else if dv_ask_count view = 0 then Inl OrderDecisionType.RejectNoDepth
          else
            (case curve_loop (view_asks view) 0 0 kMaxCostCurveLevels of
               None \<Rightarrow> Inl OrderDecisionType.RejectInternalError
             | Some (levels, total_qty) \<Rightarrow>
                 if levels = [] \<or> total_qty \<le> 0 then Inl OrderDecisionType.RejectNoDepth
                 else Inr \<lparr>cv_market_id = bg_market_id leg, cv_asset_id = bg_asset_id leg,
                        cv_asset_index = asset_index, cv_side = Buy, cv_levels = levels,
                        cv_total_qty_lots = total_qty\<rparr>)
      | _ \<Rightarrow> Inl OrderDecisionType.RejectInvalidBundle)"

subsection \<open>Prices from the running totals of a view\<close>

record SizingVwapResult =
  sv_ok :: bool
  sv_qty_lots :: i64
  sv_total_cost_tick :: i64
  sv_vwap_tick :: i64
  sv_worst_price_tick :: i64
  sv_level_index :: nat

definition no_vwap :: "i64 \<Rightarrow> SizingVwapResult" where
  "no_vwap qty_lots =
     \<lparr>sv_ok = False, sv_qty_lots = qty_lots, sv_total_cost_tick = 0, sv_vwap_tick = 0,
      sv_worst_price_tick = 0, sv_level_index = 0\<rparr>"

definition sizing_vwap_from_prefix :: "MarketDepthView \<Rightarrow> i64 \<Rightarrow> SizingVwapResult" where
  "sizing_vwap_from_prefix view qty_lots =
     (let prefix = dv_prefix view; n = ask_count prefix; cums = take n (ask_cum_qty prefix);
          i = first_level_reaching cums qty_lots
      in
      if qty_lots \<le> 0 \<or> dv_ask_count view = 0 \<or> n = 0 \<or> n > dv_ask_count view then no_vwap qty_lots
      else if ask_cum_qty prefix ! (n - 1) < qty_lots then no_vwap qty_lots
      else if i \<ge> n then no_vwap qty_lots
      else
        (let qty_before = (if i = 0 then 0 else ask_cum_qty prefix ! (i - 1));
             cost_before = (if i = 0 then 0 else ask_cum_cost prefix ! (i - 1));
             remaining = qty_lots - qty_before; tick = price_tick (dv_asks view ! i)
         in
         if remaining < 0 \<or> tick \<le> 0 then no_vwap qty_lots
         else
           (case checked_mul_i64 tick remaining of
              None \<Rightarrow> no_vwap qty_lots
            | Some partial_cost \<Rightarrow>
           (case checked_add_i64 cost_before partial_cost of
              None \<Rightarrow> no_vwap qty_lots
            | Some total_cost \<Rightarrow>
                \<lparr>sv_ok = True, sv_qty_lots = qty_lots, sv_total_cost_tick = total_cost,
                 sv_vwap_tick = total_cost sdiv qty_lots, sv_worst_price_tick = tick,
                 sv_level_index = i\<rparr>))))"

definition has_ask_prefix :: "MarketDepthView option \<Rightarrow> bool" where
  "has_ask_prefix depth_ptr =
     (case depth_ptr of
        None \<Rightarrow> False
      | Some view \<Rightarrow>
          (let n = ask_count (dv_prefix view) in
           n > 0 \<and> n \<le> dv_ask_count view \<and> ask_cum_qty (dv_prefix view) ! (n - 1) > 0))"

definition cost_for_quantity_recorded ::
  "CostCurve \<Rightarrow> MarketDepthView option \<Rightarrow> i64 \<Rightarrow> bool \<Rightarrow> CostForQuantityResult" where
  "cost_for_quantity_recorded curve depth_ptr qty_lots use_prefix_vwap =
     (case depth_ptr of
        Some view \<Rightarrow>
          if use_prefix_vwap \<and> has_ask_prefix depth_ptr
          then (let prefix = sizing_vwap_from_prefix view qty_lots in
            \<lparr>cq_ok = sv_ok prefix, cq_quantity_lots = qty_lots,
             cq_total_cost_tick = sv_total_cost_tick prefix, cq_vwap_tick = sv_vwap_tick prefix,
             cq_worst_price_tick = sv_worst_price_tick prefix\<rparr>)
          else cost_for_quantity curve qty_lots
      | None \<Rightarrow> cost_for_quantity curve qty_lots)"

subsection \<open>Candidate quantities\<close>

record SizeCandidateEnumerationInput =
  se_curves :: "CostCurve list"
  se_ratio_qty_lots :: "i64 list"
  se_depth_views :: "MarketDepthView option list"
  se_leg_count :: nat
  se_min_bundle_qty :: i64
  se_max_bundle_qty :: i64
  se_max_total_cost_tick :: i64
  se_use_prefix_vwap :: bool

fun budget_loop :: "SizeCandidateEnumerationInput \<Rightarrow> i64 \<Rightarrow> nat list \<Rightarrow> i64 \<Rightarrow> bool" where
  "budget_loop input bundle_qty [] total_cost \<longleftrightarrow> True"
| "budget_loop input bundle_qty (i # legs) total_cost \<longleftrightarrow>
     (let priced = cost_for_quantity_recorded (se_curves input ! i) (se_depth_views input ! i)
                     (wrap_i64 (se_ratio_qty_lots input ! i * bundle_qty)) (se_use_prefix_vwap input);
          total = wrap_i64 (total_cost + cq_total_cost_tick priced)
      in cq_ok priced \<and> total \<le> se_max_total_cost_tick input \<and> budget_loop input bundle_qty legs total)"

definition candidate_within_budget :: "SizeCandidateEnumerationInput \<Rightarrow> i64 \<Rightarrow> bool" where
  "candidate_within_budget input bundle_qty \<longleftrightarrow>
     se_max_total_cost_tick input \<le> 0 \<or> budget_loop input bundle_qty [0..<se_leg_count input] 0"

definition candidate_at :: "CostCurve \<Rightarrow> i64 \<Rightarrow> i64 \<Rightarrow> nat \<Rightarrow> i64" where
  "candidate_at curve ratio max_bundle_qty level =
     (if ratio \<le> 0 \<or> level \<ge> length (cv_levels curve) then 0
      else
        (let q = cl_cumulative_qty_lots (cv_levels curve ! level) sdiv ratio in
         if q \<le> 0 then 0
         else if max_bundle_qty > 0 \<and> q > max_bundle_qty then max_bundle_qty
         else q))"

definition leg_candidate :: "SizeCandidateEnumerationInput \<Rightarrow> nat \<Rightarrow> nat \<Rightarrow> i64" where
  "leg_candidate input leg level =
     candidate_at (se_curves input ! leg) (se_ratio_qty_lots input ! leg) (se_max_bundle_qty input) level"

text \<open>\<open>while (level < n \&\& p(level)) ++level;\<close>\<close>

function skip_levels :: "(nat \<Rightarrow> bool) \<Rightarrow> nat \<Rightarrow> nat \<Rightarrow> nat" where
  "skip_levels p n level = (if level < n \<and> p level then skip_levels p n (Suc level) else level)"
  by auto
termination
  by (relation "measure (\<lambda>(p, n, level). n - level)") auto

declare skip_levels.simps [simp del]

definition level_count :: "SizeCandidateEnumerationInput \<Rightarrow> nat \<Rightarrow> nat" where
  "level_count input leg = length (cv_levels (se_curves input ! leg))"

definition advance_invalid_candidates :: "SizeCandidateEnumerationInput \<Rightarrow> nat list \<Rightarrow> nat list" where
  "advance_invalid_candidates input levels =
     map (\<lambda>leg. skip_levels (\<lambda>l. leg_candidate input leg l < se_min_bundle_qty input) (level_count input leg)
            (levels ! leg)) [0..<se_leg_count input]"

record KWayCandidateCursor =
  kc_levels :: "nat list"
  kc_last_emitted :: i64
  kc_done :: bool

definition make_cursor :: "SizeCandidateEnumerationInput \<Rightarrow> KWayCandidateCursor" where
  "make_cursor input = \<lparr>kc_levels = replicate (se_leg_count input) 0, kc_last_emitted = 0, kc_done = False\<rparr>"

definition smallest_candidate :: "SizeCandidateEnumerationInput \<Rightarrow> nat list \<Rightarrow> i64" where
  "smallest_candidate input levels =
     foldl (\<lambda>next_q leg.
         (let q = leg_candidate input leg (levels ! leg) in
          if q \<ge> se_min_bundle_qty input \<and> q < next_q then q else next_q))
       i64_max [0..<se_leg_count input]"

definition advance_past :: "SizeCandidateEnumerationInput \<Rightarrow> i64 \<Rightarrow> nat list \<Rightarrow> nat list" where
  "advance_past input next_q levels =
     map (\<lambda>leg. skip_levels (\<lambda>l. leg_candidate input leg l \<le> next_q) (level_count input leg) (levels ! leg))
       [0..<se_leg_count input]"

text \<open>One turn of the loop of \<open>KWayCandidateCursor::next\<close>.\<close>

datatype CursorTurn =
    CursorEnd KWayCandidateCursor
  | CursorAgain KWayCandidateCursor
  | CursorEmit i64 KWayCandidateCursor

definition cursor_turn :: "SizeCandidateEnumerationInput \<Rightarrow> KWayCandidateCursor \<Rightarrow> CursorTurn" where
  "cursor_turn input cursor =
     (let levels = advance_invalid_candidates input (kc_levels cursor);
          next_q = smallest_candidate input levels;
          past = cursor\<lparr>kc_levels := advance_past input next_q levels\<rparr>
      in
      if next_q = i64_max then CursorEnd (cursor\<lparr>kc_levels := levels, kc_done := True\<rparr>)
      else if next_q = kc_last_emitted cursor then CursorAgain past
      else if \<not> candidate_within_budget input next_q then CursorAgain past
      else CursorEmit next_q (past\<lparr>kc_last_emitted := next_q\<rparr>))"

partial_function (option) cursor_next ::
  "SizeCandidateEnumerationInput \<Rightarrow> KWayCandidateCursor \<Rightarrow> (i64 option \<times> KWayCandidateCursor) option" where
  "cursor_next input cursor =
     (if kc_done cursor \<or> se_leg_count input = 0 \<or> length (se_curves input) < se_leg_count input
      then Some (None, cursor)
      else
        (case cursor_turn input cursor of
           CursorEnd cursor' \<Rightarrow> Some (None, cursor')
         | CursorAgain cursor' \<Rightarrow> cursor_next input cursor'
         | CursorEmit q cursor' \<Rightarrow> Some (Some q, cursor')))"

partial_function (option) enumerate_from ::
  "SizeCandidateEnumerationInput \<Rightarrow> KWayCandidateCursor \<Rightarrow> i64 list \<Rightarrow> i64 list option" where
  "enumerate_from input cursor candidates =
     (case cursor_next input cursor of
        None \<Rightarrow> None
      | Some (None, cursor') \<Rightarrow> Some candidates
      | Some (Some q, cursor') \<Rightarrow> enumerate_from input cursor' (candidates @ [q]))"

definition enumerate_candidates :: "SizeCandidateEnumerationInput \<Rightarrow> i64 list option" where
  "enumerate_candidates input =
     (if se_leg_count input = 0 \<or> length (se_curves input) < se_leg_count input then Some []
      else enumerate_from input (make_cursor input) [])"

subsection \<open>Evaluating quantities one after another\<close>

definition ceil_ratio_bps :: "i64 \<Rightarrow> i64 \<Rightarrow> i64" where
  "ceil_ratio_bps val bps =
     (if val \<le> 0 \<or> bps \<le> 10000 then val
      else (case checked_mul_i64 val bps of None \<Rightarrow> val | Some scaled \<Rightarrow> ceil_div_positive scaled 10000))"

text \<open>
  The entry of one leg in the parallel arrays of \<open>IncrementalEvalState\<close>, and the state with the list of
  these entries.
\<close>

record LegEval =
  lv_level_index :: nat
  lv_qty_lots :: i64
  lv_cost_tick :: i64
  lv_worst_price_tick :: i64

record IncrementalEvalState =
  ie_current_q :: i64
  ie_legs :: "LegEval list"
  ie_total_leg_cost_tick :: i64

definition no_leg_eval :: LegEval where
  "no_leg_eval = \<lparr>lv_level_index = 0, lv_qty_lots = 0, lv_cost_tick = 0, lv_worst_price_tick = 0\<rparr>"

definition initial_eval_state :: "nat \<Rightarrow> IncrementalEvalState" where
  "initial_eval_state leg_count =
     \<lparr>ie_current_q = 0, ie_legs = replicate leg_count no_leg_eval, ie_total_leg_cost_tick = 0\<rparr>"

text \<open>The loop of \<open>advance_incremental_leg\<close> that takes lots until the target is reached.\<close>

function fill_leg :: "CostCurveLevel list \<Rightarrow> i64 \<Rightarrow> LegEval \<Rightarrow> i64 \<Rightarrow> (LegEval \<times> i64) option" where
  "fill_leg levels target leg total_cost =
     (if \<not> lv_qty_lots leg < target then Some (leg, total_cost)
      else if lv_level_index leg \<ge> length levels then None
      else
        (let level = levels ! lv_level_index leg;
             remaining_in_level = cl_cumulative_qty_lots level - lv_qty_lots leg;
             needed = target - lv_qty_lots leg; taken = min remaining_in_level needed
         in
         if remaining_in_level \<le> 0 \<or> needed \<le> 0 \<or> cl_price_tick level \<le> 0 then None
         else
           (case checked_mul_i64 (cl_price_tick level) taken of
              None \<Rightarrow> None
            | Some cost_delta \<Rightarrow>
           (case checked_add_i64 (lv_cost_tick leg) cost_delta of
              None \<Rightarrow> None
            | Some cost \<Rightarrow>
           (case checked_add_i64 total_cost cost_delta of
              None \<Rightarrow> None
            | Some total_cost' \<Rightarrow>
                fill_leg levels target
                  \<lparr>lv_level_index = (if lv_qty_lots leg + taken \<ge> cl_cumulative_qty_lots level
                       then Suc (lv_level_index leg) else lv_level_index leg),
                   lv_qty_lots = lv_qty_lots leg + taken, lv_cost_tick = cost,
                   lv_worst_price_tick = cl_price_tick level\<rparr> total_cost')))))"
  by pat_completeness auto
termination
  by (relation "measure (\<lambda>(levels, target, leg, total_cost). nat (target - lv_qty_lots leg))") auto

declare fill_leg.simps [simp del]

definition advance_incremental_leg ::
  "CostCurve \<Rightarrow> i64 \<Rightarrow> i64 \<Rightarrow> i64 \<Rightarrow> LegEval \<Rightarrow> i64 \<Rightarrow> (LegEval \<times> i64) option" where
  "advance_incremental_leg curve ratio_qty_lots bundle_qty current_q leg total_cost =
     (if ratio_qty_lots \<le> 0 \<or> bundle_qty < current_q then None
      else
        (case checked_mul_i64 ratio_qty_lots bundle_qty of
           None \<Rightarrow> None
         | Some target \<Rightarrow>
             if target < lv_qty_lots leg \<or> target > cv_total_qty_lots curve then None
             else fill_leg (cv_levels curve) target
               (leg\<lparr>lv_level_index :=
                  skip_levels (\<lambda>l. lv_qty_lots leg \<ge> cl_cumulative_qty_lots (cv_levels curve ! l))
                    (length (cv_levels curve)) (lv_level_index leg)\<rparr>)
               total_cost))"

text \<open>What \<open>optimize\<close> gathers of one leg before it evaluates quantities.\<close>

record PreparedLeg =
  pl_ratio :: i64
  pl_asset_index :: u32
  pl_depth :: MarketDepthView
  pl_curve :: CostCurve

datatype IncrementalAdvance =
    Advanced "LegEval list" i64
  | AdvancePartialFillRisk
  | AdvanceInvalid

fun advance_legs ::
  "PreparedLeg list \<Rightarrow> i64 \<Rightarrow> i64 \<Rightarrow> i64 \<Rightarrow> LegEval list \<Rightarrow> i64 \<Rightarrow> IncrementalAdvance" where
  "advance_legs (p # ps) margin_bps bundle_qty current_q (leg # legs) total_cost =
     (case checked_mul_i64 (pl_ratio p) bundle_qty of
        None \<Rightarrow> AdvanceInvalid
      | Some leg_qty \<Rightarrow>
          if cv_total_qty_lots (pl_curve p) < ceil_ratio_bps leg_qty margin_bps then AdvancePartialFillRisk
          else
            (case advance_incremental_leg (pl_curve p) (pl_ratio p) bundle_qty current_q leg total_cost of
               None \<Rightarrow> AdvanceInvalid
             | Some (leg', total_cost') \<Rightarrow>
                 (case advance_legs ps margin_bps bundle_qty current_q legs total_cost' of
                    Advanced legs' total_cost'' \<Rightarrow> Advanced (leg' # legs') total_cost''
                  | other \<Rightarrow> other)))"
| "advance_legs _ margin_bps bundle_qty current_q _ total_cost = Advanced [] total_cost"

definition advance_incremental_state ::
  "PreparedLeg list \<Rightarrow> RiskPolicySnapshot \<Rightarrow> i64 \<Rightarrow> IncrementalEvalState
     \<Rightarrow> IncrementalAdvance \<times> IncrementalEvalState" where
  "advance_incremental_state legs policy bundle_qty st =
     (if bundle_qty < ie_current_q st then (AdvanceInvalid, st)
      else
        (case advance_legs legs (rp_min_depth_margin_bps policy) bundle_qty (ie_current_q st) (ie_legs st)
                (ie_total_leg_cost_tick st) of
           Advanced legs' total_cost \<Rightarrow>
             (Advanced legs' total_cost,
              \<lparr>ie_current_q = bundle_qty, ie_legs = legs', ie_total_leg_cost_tick = total_cost\<rparr>)
         | other \<Rightarrow> (other, st)))"

subsection \<open>Edges\<close>

record EdgeCurvePoint =
  ep_bundle_qty :: i64
  ep_total_cost_tick :: i64
  ep_unit_edge_tick :: i64
  ep_total_edge_tick :: i64
  ep_edge_bps :: i64

definition better_edge_candidate :: "EdgeCurvePoint \<Rightarrow> EdgeCurvePoint \<Rightarrow> bool" where
  "better_edge_candidate candidate incumbent \<longleftrightarrow>
     (if ep_total_edge_tick candidate \<noteq> ep_total_edge_tick incumbent
      then ep_total_edge_tick candidate > ep_total_edge_tick incumbent
      else if ep_edge_bps candidate \<noteq> ep_edge_bps incumbent
      then ep_edge_bps candidate > ep_edge_bps incumbent
      else if ep_total_cost_tick candidate \<noteq> ep_total_cost_tick incumbent
      then ep_total_cost_tick candidate < ep_total_cost_tick incumbent
      else ep_bundle_qty candidate < ep_bundle_qty incumbent)"

datatype PointVerdict = PointInvalid | PointOverBudget | PointLowEdge | PointAccepted EdgeCurvePoint

definition edge_verdict ::
  "OrderDecisionConfig \<Rightarrow> RiskPolicySnapshot \<Rightarrow> i64 \<Rightarrow> i64 \<Rightarrow> i64 \<Rightarrow> PointVerdict" where
  "edge_verdict config policy guaranteed_per_bundle total_leg_cost q =
     (case (checked_mul_i64 (dc_fee_per_bundle_tick config) q,
            checked_mul_i64 (dc_latency_buffer_per_bundle_tick config) q,
            checked_mul_i64 (dc_slippage_buffer_per_bundle_tick config) q) of
        (Some fee, Some latency, Some slippage) \<Rightarrow>
     (case checked_add_i64 total_leg_cost fee of
        None \<Rightarrow> PointInvalid
      | Some with_fee \<Rightarrow>
     (case checked_add_i64 with_fee latency of
        None \<Rightarrow> PointInvalid
      | Some with_latency \<Rightarrow>
     (case checked_add_i64 with_latency slippage of
        None \<Rightarrow> PointInvalid
      | Some total_cost \<Rightarrow>
          if rp_max_total_cost_tick policy > 0 \<and> total_cost > rp_max_total_cost_tick policy
          then PointOverBudget
          else
     (case checked_mul_i64 guaranteed_per_bundle q of
        None \<Rightarrow> PointInvalid
      | Some payout \<Rightarrow>
     (case checked_sub_i64 payout total_cost of
        None \<Rightarrow> PointInvalid
      | Some total_edge \<Rightarrow>
          (let unit_edge = total_edge sdiv q; edge_bps = ratio_bps total_edge total_cost in
           if \<not> passes_edge_thresholds unit_edge total_edge edge_bps policy then PointLowEdge
           else PointAccepted \<lparr>ep_bundle_qty = q, ep_total_cost_tick = total_cost,
                  ep_unit_edge_tick = unit_edge, ep_total_edge_tick = total_edge,
                  ep_edge_bps = edge_bps\<rparr>))))))
      | _ \<Rightarrow> PointInvalid)"

text \<open>The variables of \<open>optimize\<close> that \<open>evaluate_candidate\<close> captures.\<close>

record SizingLoop =
  sl_state :: IncrementalEvalState
  sl_best :: "(EdgeCurvePoint \<times> IncrementalEvalState) option"
  sl_saw_budget_reject :: bool
  sl_saw_partial_reject :: bool

definition initial_loop :: "nat \<Rightarrow> SizingLoop" where
  "initial_loop leg_count =
     \<lparr>sl_state = initial_eval_state leg_count, sl_best = None, sl_saw_budget_reject = False,
      sl_saw_partial_reject = False\<rparr>"

definition consider_point :: "EdgeCurvePoint \<Rightarrow> SizingLoop \<Rightarrow> SizingLoop" where
  "consider_point point loop =
     (case sl_best loop of
        None \<Rightarrow> loop\<lparr>sl_best := Some (point, sl_state loop)\<rparr>
      | Some (best, _) \<Rightarrow>
          if better_edge_candidate point best then loop\<lparr>sl_best := Some (point, sl_state loop)\<rparr> else loop)"

definition evaluate_candidate ::
  "PreparedLeg list \<Rightarrow> OrderDecisionConfig \<Rightarrow> RiskPolicySnapshot \<Rightarrow> i64 \<Rightarrow> i64 \<Rightarrow> i64 \<Rightarrow> SizingLoop
     \<Rightarrow> SizingLoop" where
  "evaluate_candidate legs config policy min_bundle_qty guaranteed_per_bundle q loop =
     (if q < min_bundle_qty then loop
      else
        (case advance_incremental_state legs policy q (sl_state loop) of
           (AdvancePartialFillRisk, _) \<Rightarrow> loop\<lparr>sl_saw_partial_reject := True\<rparr>
         | (AdvanceInvalid, _) \<Rightarrow> loop
         | (Advanced _ _, st) \<Rightarrow>
             (let moved = loop\<lparr>sl_state := st\<rparr> in
              case edge_verdict config policy guaranteed_per_bundle (ie_total_leg_cost_tick st) q of
                PointInvalid \<Rightarrow> moved
              | PointOverBudget \<Rightarrow> moved\<lparr>sl_saw_budget_reject := True\<rparr>
              | PointLowEdge \<Rightarrow> moved
              | PointAccepted point \<Rightarrow> consider_point point moved)))"

text \<open>The loop over a candidate set from the cache; \<open>candidates_exhausted\<close> is \<open>saw_partial_reject\<close>.\<close>

fun evaluate_all :: "(i64 \<Rightarrow> SizingLoop \<Rightarrow> SizingLoop) \<Rightarrow> i64 list \<Rightarrow> SizingLoop \<Rightarrow> SizingLoop" where
  "evaluate_all evaluate [] loop = loop"
| "evaluate_all evaluate (q # qs) loop =
     (let loop' = evaluate q loop in
      if sl_saw_partial_reject loop' then loop' else evaluate_all evaluate qs loop')"

text \<open>The loop over the cursor, which collects what it streams; \<open>streamed_candidates\<close> keeps 1024.\<close>

definition kMaxOrderDecisionCandidates :: nat where
  "kMaxOrderDecisionCandidates = kMaxOrderDecisionLegs * kMaxCostCurveLevels"

partial_function (option) stream_candidates ::
  "SizeCandidateEnumerationInput \<Rightarrow> (i64 \<Rightarrow> SizingLoop \<Rightarrow> SizingLoop) \<Rightarrow> KWayCandidateCursor
     \<Rightarrow> i64 list \<Rightarrow> SizingLoop \<Rightarrow> (i64 list \<times> SizingLoop) option" where
  "stream_candidates input evaluate cursor streamed loop =
     (case cursor_next input cursor of
        None \<Rightarrow> None
      | Some (None, cursor') \<Rightarrow> Some (streamed, loop)
      | Some (Some q, cursor') \<Rightarrow>
          (let streamed' = (if length streamed < kMaxOrderDecisionCandidates then streamed @ [q] else streamed);
               loop' = evaluate q loop
           in if sl_saw_partial_reject loop' then Some (streamed', loop')
              else stream_candidates input evaluate cursor' streamed' loop'))"

subsection \<open>BundleSizeOptimizer\<close>

record BundleSizeResult =
  bs_ok :: bool
  bs_best_bundle_qty :: i64
  bs_guaranteed_payout_tick :: i64
  bs_total_cost_tick :: i64
  bs_unit_edge_tick :: i64
  bs_total_edge_tick :: i64
  bs_edge_bps :: i64
  bs_leg_count :: nat
  bs_legs :: "OrderDecisionLegLite list"
  bs_reject_reason :: OrderDecisionType

definition reject_size :: "OrderDecisionType \<Rightarrow> BundleSizeResult" where
  "reject_size reason =
     \<lparr>bs_ok = False, bs_best_bundle_qty = 0, bs_guaranteed_payout_tick = 0, bs_total_cost_tick = 0,
      bs_unit_edge_tick = 0, bs_total_edge_tick = 0, bs_edge_bps = 0, bs_leg_count = 0,
      bs_legs = replicate kMaxOrderDecisionLegs default_leg_lite, bs_reject_reason = reason\<rparr>"

definition ratio_for_leg :: "BundleLeg \<Rightarrow> IntentLeg option \<Rightarrow> i64" where
  "ratio_for_leg bundle_leg intent_leg =
     (if bg_quantity_lots bundle_leg > 0 then bg_quantity_lots bundle_leg
      else (case intent_leg of
          Some leg \<Rightarrow> if il_quantity_lots leg > 0 then il_quantity_lots leg else 1
        | None \<Rightarrow> 1))"

definition sizing_depth_view :: "MarketDepthView list \<Rightarrow> u32 \<Rightarrow> nat \<Rightarrow> MarketDepthView option" where
  "sizing_depth_view depth_views asset_index fallback_index =
     (case filter (\<lambda>view. dv_asset_index view = asset_index) depth_views of
        view # _ \<Rightarrow> Some view
      | [] \<Rightarrow> if fallback_index < length depth_views then Some (depth_views ! fallback_index) else None)"

definition depth_flags_usable :: "MarketDepthView \<Rightarrow> bool" where
  "depth_flags_usable view \<longleftrightarrow>
     dv_usable_for_depth view \<and> \<not> dv_recovering view \<and> \<not> dv_crossed view \<and> \<not> dv_closed view \<and>
     \<not> dv_resolved view"

definition intent_leg_at :: "OpportunityIntent \<Rightarrow> nat \<Rightarrow> IntentLeg option" where
  "intent_leg_at intent i = (if oi_leg_count intent > i then Some (oi_legs intent ! i) else None)"

definition prepare_leg ::
  "OpportunityIntent \<Rightarrow> MarketDepthView list \<Rightarrow> nat \<Rightarrow> BundleLeg \<Rightarrow> OrderDecisionType + PreparedLeg" where
  "prepare_leg intent depth_views i bundle_leg =
     (let intent_leg = intent_leg_at intent i; ratio = ratio_for_leg bundle_leg intent_leg;
          asset_index = (case intent_leg of Some leg \<Rightarrow> il_asset_index leg | None \<Rightarrow> 0)
      in
      if bg_side bundle_leg \<noteq> Buy then Inl OrderDecisionType.RejectUnsupportedSide
      else if ratio \<le> 0 then Inl OrderDecisionType.RejectInvalidBundle
      else
        (case sizing_depth_view depth_views asset_index i of
           None \<Rightarrow> Inl OrderDecisionType.RejectNoDepth
         | Some view \<Rightarrow>
             if \<not> depth_flags_usable view then Inl OrderDecisionType.RejectNoDepth
             else
               (case build_buy_curve (Some bundle_leg) (Some view) (dv_asset_index view) of
                  Inl reason \<Rightarrow> Inl reason
                | Inr curve \<Rightarrow>
                    Inr \<lparr>pl_ratio = ratio, pl_asset_index = dv_asset_index view, pl_depth = view,
                         pl_curve = curve\<rparr>)))"

fun prepare_legs ::
  "OpportunityIntent \<Rightarrow> MarketDepthView list \<Rightarrow> nat \<Rightarrow> BundleLeg list
     \<Rightarrow> OrderDecisionType + PreparedLeg list" where
  "prepare_legs intent depth_views i [] = Inr []"
| "prepare_legs intent depth_views i (leg # legs) =
     (case prepare_leg intent depth_views i leg of
        Inl reason \<Rightarrow> Inl reason
      | Inr p \<Rightarrow>
          (case prepare_legs intent depth_views (Suc i) legs of
             Inl reason \<Rightarrow> Inl reason
           | Inr ps \<Rightarrow> Inr (p # ps)))"

definition enumeration_input ::
  "PreparedLeg list \<Rightarrow> i64 \<Rightarrow> OrderDecisionConfig \<Rightarrow> SizeCandidateEnumerationInput" where
  "enumeration_input legs min_bundle_qty config =
     \<lparr>se_curves = map pl_curve legs, se_ratio_qty_lots = map pl_ratio legs,
      se_depth_views = map (\<lambda>p. Some (pl_depth p)) legs, se_leg_count = length legs,
      se_min_bundle_qty = min_bundle_qty, se_max_bundle_qty = dc_max_bundle_qty config,
      se_max_total_cost_tick = 0, se_use_prefix_vwap = dc_use_prefix_vwap config\<rparr>"

definition best_leg :: "PreparedLeg \<Rightarrow> LegEval \<Rightarrow> OrderDecisionLegLite" where
  "best_leg p leg =
     default_leg_lite\<lparr>ll_asset_index := pl_asset_index p, ll_side := Buy,
       ll_quantity_lots := lv_qty_lots leg,
       ll_estimated_vwap_tick := lv_cost_tick leg sdiv lv_qty_lots leg,
       ll_worst_price_tick := lv_worst_price_tick leg, ll_estimated_cost_tick := lv_cost_tick leg\<rparr>"

definition pad_legs :: "OrderDecisionLegLite list \<Rightarrow> OrderDecisionLegLite list" where
  "pad_legs legs = legs @ replicate (kMaxOrderDecisionLegs - length legs) default_leg_lite"

text \<open>What \<open>optimize\<close> answers after its loop, given whether any candidate was streamed.\<close>

definition size_result :: "PreparedLeg list \<Rightarrow> i64 \<Rightarrow> bool \<Rightarrow> SizingLoop \<Rightarrow> BundleSizeResult" where
  "size_result legs guaranteed_per_bundle any_candidate loop =
     (case sl_best loop of
        None \<Rightarrow>
          reject_size
            (if \<not> any_candidate then OrderDecisionType.RejectNoDepth
             else if sl_saw_budget_reject loop then OrderDecisionType.RejectRiskBudget
             else if sl_saw_partial_reject loop then OrderDecisionType.RejectPartialFillRisk
             else OrderDecisionType.RejectLowEdge)
      | Some (best, best_state) \<Rightarrow>
          if \<exists>leg \<in> set (ie_legs best_state). lv_qty_lots leg \<le> 0 \<or> lv_cost_tick leg < 0
          then reject_size OrderDecisionType.RejectNoDepth
          else
            \<lparr>bs_ok = True, bs_best_bundle_qty = ep_bundle_qty best,
             bs_guaranteed_payout_tick = wrap_i64 (guaranteed_per_bundle * ep_bundle_qty best),
             bs_total_cost_tick = ep_total_cost_tick best, bs_unit_edge_tick = ep_unit_edge_tick best,
             bs_total_edge_tick = ep_total_edge_tick best, bs_edge_bps = ep_edge_bps best,
             bs_leg_count = length legs, bs_legs = pad_legs (map2 best_leg legs (ie_legs best_state)),
             bs_reject_reason = NoTrade\<rparr>)"

definition guaranteed_per_bundle :: "OpportunityIntent \<Rightarrow> CandidateBundle \<Rightarrow> i64" where
  "guaranteed_per_bundle intent bundle =
     (if cb_guaranteed_payout_tick bundle \<noteq> 0 then cb_guaranteed_payout_tick bundle
      else oi_guaranteed_payout_tick intent)"

definition effective_min_qty :: "OrderDecisionConfig \<Rightarrow> i64" where
  "effective_min_qty config = max 1 (dc_min_bundle_qty config)"

text \<open>The evaluation of candidates streamed from a cursor, and of those of a cached set.\<close>

definition size_by_streaming ::
  "PreparedLeg list \<Rightarrow> OrderDecisionConfig \<Rightarrow> RiskPolicySnapshot \<Rightarrow> i64
     \<Rightarrow> (i64 list \<times> BundleSizeResult) option" where
  "size_by_streaming legs config policy guaranteed =
     (let min_bundle_qty = effective_min_qty config; input = enumeration_input legs min_bundle_qty config in
      map_option (\<lambda>(streamed, loop). (streamed, size_result legs guaranteed (streamed \<noteq> []) loop))
        (stream_candidates input (evaluate_candidate legs config policy min_bundle_qty guaranteed)
          (make_cursor input) [] (initial_loop (length legs))))"

definition size_by_cached ::
  "PreparedLeg list \<Rightarrow> OrderDecisionConfig \<Rightarrow> RiskPolicySnapshot \<Rightarrow> i64 \<Rightarrow> i64 list \<Rightarrow> BundleSizeResult" where
  "size_by_cached legs config policy guaranteed candidates =
     (if candidates = [] then reject_size OrderDecisionType.RejectNoDepth
      else size_result legs guaranteed True
        (evaluate_all (evaluate_candidate legs config policy (effective_min_qty config) guaranteed) candidates
          (initial_loop (length legs))))"

subsection \<open>LimitPriceBuilder\<close>

definition build_buy_limit :: "i64 \<Rightarrow> i64 \<Rightarrow> i64 \<Rightarrow> i64 \<Rightarrow> OrderDecisionType + i64" where
  "build_buy_limit worst_consumed_price protection_buffer leg_max_price configured_max_price =
     (if worst_consumed_price \<le> 0 then Inl OrderDecisionType.RejectNoDepth
      else
        (case checked_add_i64 worst_consumed_price protection_buffer of
           None \<Rightarrow> Inl OrderDecisionType.RejectPriceProtection
         | Some protected_price \<Rightarrow>
             (let max_allowed =
                (if leg_max_price > 0 \<and> (configured_max_price \<le> 0 \<or> leg_max_price < configured_max_price)
                 then leg_max_price else configured_max_price)
              in if max_allowed > 0 \<and> protected_price > max_allowed
                 then Inl OrderDecisionType.RejectPriceProtection else Inr protected_price)))"

subsection \<open>The cursor enumerates the price changes\<close>

lemma skip_levels_props:
  assumes "level \<le> n"
  shows "level \<le> skip_levels p n level" "skip_levels p n level \<le> n"
    "level \<le> l \<Longrightarrow> l < skip_levels p n level \<Longrightarrow> p l"
    "skip_levels p n level < n \<Longrightarrow> \<not> p (skip_levels p n level)"
proof -
  have "level \<le> skip_levels p n level \<and> skip_levels p n level \<le> n \<and>
    (\<forall>l. level \<le> l \<longrightarrow> l < skip_levels p n level \<longrightarrow> p l) \<and>
    (skip_levels p n level < n \<longrightarrow> \<not> p (skip_levels p n level))"
    using assms
  proof (induction p n level rule: skip_levels.induct)
    case (1 p n level)
    show ?case
    proof (cases "level < n \<and> p level")
      case True
      then have "skip_levels p n level = skip_levels p n (Suc level)"
        by (subst skip_levels.simps) simp
      with 1 True show ?thesis
        by (auto simp: le_less_Suc_eq Suc_le_eq) (metis le_neq_implies_less)+
    next
      case False
      then have "skip_levels p n level = level"
        by (subst skip_levels.simps) auto
      with 1 False show ?thesis
        by auto
    qed
  qed
  then show "level \<le> skip_levels p n level" "skip_levels p n level \<le> n"
    "level \<le> l \<Longrightarrow> l < skip_levels p n level \<Longrightarrow> p l"
    "skip_levels p n level < n \<Longrightarrow> \<not> p (skip_levels p n level)"
    by blast+
qed

lemma foldl_smallest:
  fixes f :: "'a \<Rightarrow> int" and lo hi and xs :: "'a list"
  defines "m \<equiv> foldl (\<lambda>m x. let q = f x in if q \<ge> lo \<and> q < m then q else m) hi xs"
  shows "m \<le> hi" "m = hi \<or> (\<exists>x \<in> set xs. m = f x \<and> lo \<le> m)" "x \<in> set xs \<Longrightarrow> lo \<le> f x \<Longrightarrow> m \<le> f x"
proof -
  have "m \<le> hi \<and> (m = hi \<or> (\<exists>x \<in> set xs. m = f x \<and> lo \<le> m)) \<and> (\<forall>x \<in> set xs. lo \<le> f x \<longrightarrow> m \<le> f x)"
    unfolding m_def by (induction xs rule: rev_induct) (auto simp: Let_def)
  then show "m \<le> hi" "m = hi \<or> (\<exists>x \<in> set xs. m = f x \<and> lo \<le> m)" "x \<in> set xs \<Longrightarrow> lo \<le> f x \<Longrightarrow> m \<le> f x"
    by blast+
qed

text \<open>The quantities a cursor has still to offer, and the curves a merge needs.\<close>

definition breakpoints :: "SizeCandidateEnumerationInput \<Rightarrow> nat \<Rightarrow> nat \<Rightarrow> int set" where
  "breakpoints input leg from_level =
     {q. \<exists>l. from_level \<le> l \<and> l < level_count input leg \<and> q = leg_candidate input leg l \<and>
         se_min_bundle_qty input \<le> q \<and> q < i64_max}"

definition remaining :: "SizeCandidateEnumerationInput \<Rightarrow> nat list \<Rightarrow> int set" where
  "remaining input levels = (\<Union>leg < se_leg_count input. breakpoints input leg (levels ! leg))"

definition mergeable :: "SizeCandidateEnumerationInput \<Rightarrow> bool" where
  "mergeable input \<longleftrightarrow> 1 \<le> se_min_bundle_qty input \<and> 0 < se_leg_count input \<and>
     se_leg_count input \<le> length (se_curves input) \<and>
     (\<forall>leg < se_leg_count input. sorted (map cl_cumulative_qty_lots (cv_levels (se_curves input ! leg))))"

lemma finite_breakpoints [simp]: "finite (breakpoints input leg n)"
proof -
  have "breakpoints input leg n \<subseteq> leg_candidate input leg ` {..<level_count input leg}"
    by (auto simp: breakpoints_def)
  then show ?thesis by (rule finite_subset) simp
qed

lemma finite_remaining [simp]: "finite (remaining input levels)"
  by (simp add: remaining_def)

lemma sdiv_mono_num: "0 < b \<Longrightarrow> x \<le> y \<Longrightarrow> x sdiv b \<le> y sdiv b" for x y b :: int
proof -
  assume b: "0 < b" and le: "x \<le> y"
  have "- (- x div b) \<le> y div b" if "x < 0" "0 \<le> y"
    using b that pos_imp_zdiv_nonneg_iff [of b "- x"] pos_imp_zdiv_nonneg_iff [of b y] by linarith
  then show ?thesis
    using b le zdiv_mono1 [of x y b] zdiv_mono1 [of "- y" "- x" b] by (auto simp: sdiv_pos_den)
qed

lemma leg_candidate_mono:
  assumes "mergeable input" "leg < se_leg_count input" "l \<le> l'" "l' < level_count input leg"
  shows "leg_candidate input leg l \<le> leg_candidate input leg l'"
proof -
  have "cl_cumulative_qty_lots (cv_levels (se_curves input ! leg) ! l) \<le>
      cl_cumulative_qty_lots (cv_levels (se_curves input ! leg) ! l')"
    using assms sorted_nth_mono [of "map cl_cumulative_qty_lots (cv_levels (se_curves input ! leg))" l l']
    by (simp add: mergeable_def level_count_def)
  then show ?thesis
    using sdiv_mono_num [of "se_ratio_qty_lots input ! leg"] assms(3,4)
    by (fastforce simp: leg_candidate_def candidate_at_def Let_def level_count_def)
qed

lemma leg_candidate_out: "level_count input leg \<le> l \<Longrightarrow> leg_candidate input leg l = 0"
  by (simp add: leg_candidate_def candidate_at_def level_count_def)

lemma breakpoints_skip:
  assumes "level \<le> level_count input leg"
  shows "breakpoints input leg (skip_levels (\<lambda>l. leg_candidate input leg l < se_min_bundle_qty input)
      (level_count input leg) level) = breakpoints input leg level"
proof -
  let ?p = "\<lambda>l. leg_candidate input leg l < se_min_bundle_qty input"
  note sk = skip_levels_props(1,3) [OF assms, where p = ?p]
  have "skip_levels ?p (level_count input leg) level \<le> l \<longleftrightarrow> level \<le> l"
    if "se_min_bundle_qty input \<le> leg_candidate input leg l" for l
    using sk(1) sk(2) [of l] that by (meson le_trans not_le)
  then show ?thesis
    by (auto simp: breakpoints_def)
qed

lemma remaining_skip:
  assumes "length levels = se_leg_count input" "\<forall>leg < se_leg_count input. levels ! leg \<le> level_count input leg"
  shows "remaining input (advance_invalid_candidates input levels) = remaining input levels"
  using assms breakpoints_skip by (auto simp: remaining_def advance_invalid_candidates_def)

definition placed :: "SizeCandidateEnumerationInput \<Rightarrow> nat list \<Rightarrow> bool" where
  "placed input levels \<longleftrightarrow> length levels = se_leg_count input \<and>
     (\<forall>leg < se_leg_count input. levels ! leg \<le> level_count input leg)"

lemma placed_advance:
  assumes "placed input levels"
  shows "placed input (advance_invalid_candidates input levels)" "placed input (advance_past input q levels)"
  using assms skip_levels_props(2) by (simp_all add: placed_def advance_invalid_candidates_def advance_past_def)

lemma smallest_after_skip:
  assumes m: "mergeable input" and pl: "placed input levels"
  defines "levels' \<equiv> advance_invalid_candidates input levels"
  shows "smallest_candidate input levels' = Min (insert i64_max (remaining input levels))"
proof -
  let ?lo = "se_min_bundle_qty input"
  let ?f = "\<lambda>leg. leg_candidate input leg (levels' ! leg)"
  let ?s = "smallest_candidate input levels'"
  have s: "?s = foldl (\<lambda>m x. let q = ?f x in if q \<ge> ?lo \<and> q < m then q else m) i64_max [0..<se_leg_count input]"
    by (simp add: smallest_candidate_def)
  note small = foldl_smallest [where f = ?f and lo = ?lo and hi = i64_max and xs = "[0..<se_leg_count input]", folded s]
  have rem: "remaining input levels = remaining input levels'"
    using remaining_skip pl by (simp add: levels'_def placed_def)
  have pl': "placed input levels'"
    using placed_advance pl by (simp add: levels'_def)
  have lower: "?s \<le> x" if x: "x \<in> remaining input levels'" for x
  proof -
    obtain leg l where l: "leg < se_leg_count input" "levels' ! leg \<le> l" "l < level_count input leg"
      "x = leg_candidate input leg l" "?lo \<le> x" "x < i64_max"
      using x by (auto simp: remaining_def breakpoints_def)
    have "\<not> ?f leg < ?lo"
      using l(1,2,3) pl skip_levels_props(4) [of "levels ! leg" "level_count input leg"]
      by (simp add: levels'_def advance_invalid_candidates_def placed_def) (metis le_less_trans)
    then have "?s \<le> ?f leg"
      using small(3) l(1) by simp
    also have "\<dots> \<le> x"
      using leg_candidate_mono [OF m l(1,2,3)] l(4) by simp
    finally show ?thesis .
  qed
  have member: "?s \<in> insert i64_max (remaining input levels')"
  proof (cases "?s = i64_max")
    case False
    then obtain leg where leg: "leg < se_leg_count input" "?s = ?f leg" "?lo \<le> ?s"
      using small(2) by auto
    moreover have "?s < i64_max"
      using small(1) False by simp
    moreover have "levels' ! leg < level_count input leg"
      using leg leg_candidate_out [of input leg "levels' ! leg"] m by (fastforce simp: mergeable_def)
    ultimately show ?thesis
      by (auto simp: remaining_def breakpoints_def)
  qed simp
  show ?thesis
    unfolding rem using lower member small(1) by (intro Min_eqI [symmetric]) auto
qed

lemma remaining_past:
  assumes m: "mergeable input" and pl: "placed input levels"
  shows "remaining input (advance_past input q levels) = {x \<in> remaining input levels. q < x}"
proof -
  have "breakpoints input leg (skip_levels (\<lambda>l. leg_candidate input leg l \<le> q) (level_count input leg) (levels ! leg)) =
    {x \<in> breakpoints input leg (levels ! leg). q < x}" (is "?A = ?B") if leg: "leg < se_leg_count input" for leg
  proof -
    let ?s = "skip_levels (\<lambda>l. leg_candidate input leg l \<le> q) (level_count input leg) (levels ! leg)"
    have le: "levels ! leg \<le> level_count input leg"
      using pl leg by (simp add: placed_def)
    note sk = skip_levels_props [OF le, where p = "\<lambda>l. leg_candidate input leg l \<le> q"]
    have "q < leg_candidate input leg l" if "?s \<le> l" "l < level_count input leg" for l
      using sk(4) leg_candidate_mono [OF m leg that] that by simp
    then show ?thesis
      using sk(1) sk(3) unfolding breakpoints_def by (auto simp: not_le [symmetric]) (metis le_trans linorder_le_cases not_le)+
  qed
  then show ?thesis
    by (auto simp: remaining_def advance_past_def)
qed

text \<open>
  A cursor in use: nothing it has still to offer is as small as what it offered last. Its next turn offers
  the smallest remaining quantity or, if the budget forbids that, drops it.
\<close>

definition cursor_ok :: "SizeCandidateEnumerationInput \<Rightarrow> KWayCandidateCursor \<Rightarrow> bool" where
  "cursor_ok input c \<longleftrightarrow> placed input (kc_levels c) \<and> \<not> kc_done c \<and>
     (\<forall>x \<in> remaining input (kc_levels c). kc_last_emitted c < x)"

lemma cursor_turn_cases:
  assumes m: "mergeable input" and c: "cursor_ok input c"
  obtains (over) c' where "cursor_turn input c = CursorEnd c'" "remaining input (kc_levels c) = {}"
  | (again) c' where "cursor_turn input c = CursorAgain c'" "cursor_ok input c'"
      "remaining input (kc_levels c) \<noteq> {}" "\<not> candidate_within_budget input (Min (remaining input (kc_levels c)))"
      "remaining input (kc_levels c') = remaining input (kc_levels c) - {Min (remaining input (kc_levels c))}"
  | (emit) c' where "cursor_turn input c = CursorEmit (Min (remaining input (kc_levels c))) c'" "cursor_ok input c'"
      "remaining input (kc_levels c) \<noteq> {}" "candidate_within_budget input (Min (remaining input (kc_levels c)))"
      "remaining input (kc_levels c') = remaining input (kc_levels c) - {Min (remaining input (kc_levels c))}"
proof -
  let ?R = "remaining input (kc_levels c)"
  let ?levels = "advance_invalid_candidates input (kc_levels c)"
  have pl: "placed input (kc_levels c)" "placed input ?levels"
    using c placed_advance by (auto simp: cursor_ok_def)
  have rem: "remaining input ?levels = ?R"
    using remaining_skip pl by (simp add: placed_def)
  have bound: "x < i64_max" if "x \<in> ?R" for x
    using that by (auto simp: remaining_def breakpoints_def)
  have small: "smallest_candidate input ?levels = Min (insert i64_max ?R)"
    by (rule smallest_after_skip [OF m pl(1)])
  show ?thesis
  proof (cases "?R = {}")
    case True
    then show ?thesis
      using small over by (simp add: cursor_turn_def Let_def)
  next
    case False
    then have "Min ?R \<in> ?R"
      by (rule Min_in [OF finite_remaining])
    moreover from bound [OF this] have "Min ?R < i64_max" .
    ultimately have q: "smallest_candidate input ?levels = Min ?R" "Min ?R \<in> ?R" "Min ?R \<noteq> i64_max"
      using small False Min_insert [OF finite_remaining False, of i64_max] by simp_all
    let ?c = "c\<lparr>kc_levels := advance_past input (Min ?R) ?levels\<rparr>"
    have past: "remaining input (advance_past input (Min ?R) ?levels) = ?R - {Min ?R}"
      unfolding remaining_past [OF m pl(2)] rem using Min_le [OF finite_remaining] by (auto simp: less_le)
    have fresh: "Min ?R \<noteq> kc_last_emitted c"
      using c q(2) by (auto simp: cursor_ok_def)
    have ok: "cursor_ok input ?c" "cursor_ok input (?c\<lparr>kc_last_emitted := Min ?R\<rparr>)"
      using c placed_advance [OF pl(2)] Min_le [OF finite_remaining] past
      by (auto simp: cursor_ok_def less_le)
    show ?thesis
    proof (cases "candidate_within_budget input (Min ?R)")
      case True
      then have "cursor_turn input c = CursorEmit (Min ?R) (?c\<lparr>kc_last_emitted := Min ?R\<rparr>)"
        using q fresh by (simp add: cursor_turn_def Let_def)
      then show ?thesis
        using emit ok(2) False True past by simp
    next
      case budget: False
      then have "cursor_turn input c = CursorAgain ?c"
        using q fresh by (simp add: cursor_turn_def Let_def)
      then show ?thesis
        using again ok(1) False budget past by simp
    qed
  qed
qed

definition offers :: "SizeCandidateEnumerationInput \<Rightarrow> KWayCandidateCursor \<Rightarrow> int set" where
  "offers input c = {q \<in> remaining input (kc_levels c). candidate_within_budget input q}"

lemma finite_offers [simp]: "finite (offers input c)"
  by (simp add: offers_def)

lemma cursor_next_cases:
  assumes m: "mergeable input" and "cursor_ok input c"
  obtains (over) c' where "cursor_next input c = Some (None, c')" "offers input c = {}"
  | (emit) c' where "cursor_next input c = Some (Some (Min (offers input c)), c')" "cursor_ok input c'"
      "offers input c \<noteq> {}" "offers input c' = offers input c - {Min (offers input c)}"
proof -
  have "(\<exists>c'. cursor_next input c = Some (None, c') \<and> offers input c = {}) \<or>
    (\<exists>c'. cursor_next input c = Some (Some (Min (offers input c)), c') \<and> cursor_ok input c' \<and>
      offers input c \<noteq> {} \<and> offers input c' = offers input c - {Min (offers input c)})"
    using assms(2)
  proof (induction "card (remaining input (kc_levels c))" arbitrary: c rule: less_induct)
    case less
    let ?R = "remaining input (kc_levels c)"
    have open_cursor: "\<not> kc_done c" "se_leg_count input \<noteq> 0" "\<not> length (se_curves input) < se_leg_count input"
      using m less.prems by (auto simp: mergeable_def cursor_ok_def)
    from m less.prems show ?case
    proof (cases rule: cursor_turn_cases)
      case (over c')
      then show ?thesis
        using open_cursor by (subst (1) cursor_next.simps) (simp add: offers_def)
    next
      case (again c')
      have "card (remaining input (kc_levels c')) < card ?R"
        using again(3,5) by (simp add: card_gt_0_iff)
      from less.hyps [OF this again(2)] have IH: "(\<exists>d. cursor_next input c' = Some (None, d) \<and> offers input c' = {}) \<or>
        (\<exists>d. cursor_next input c' = Some (Some (Min (offers input c')), d) \<and> cursor_ok input d \<and>
        offers input c' \<noteq> {} \<and> offers input d = offers input c' - {Min (offers input c')})" .
      have "cursor_next input c = cursor_next input c'"
        using open_cursor again(1) by (subst (1) cursor_next.simps) simp
      moreover have "offers input c' = offers input c"
        using again(4,5) by (auto simp: offers_def)
      ultimately show ?thesis
        using IH by simp
    next
      case (emit c')
      have "Min ?R \<in> offers input c"
        using emit(3,4) by (simp add: offers_def)
      moreover have "\<forall>x \<in> offers input c. Min ?R \<le> x"
        by (simp add: offers_def)
      ultimately have "Min (offers input c) = Min ?R"
        by (intro Min_eqI) auto
      moreover have "cursor_next input c = Some (Some (Min ?R), c')"
        using open_cursor emit(1) by (subst (1) cursor_next.simps) simp
      moreover have "offers input c' = offers input c - {Min ?R}"
        using emit(5) by (auto simp: offers_def)
      ultimately show ?thesis
        using emit(2) \<open>Min ?R \<in> offers input c\<close> by auto
    qed
  qed
  then show ?thesis
    using over emit by blast
qed

lemma enumerate_from_exact:
  assumes "mergeable input" and "cursor_ok input c"
  shows "enumerate_from input c qs = Some (qs @ sorted_list_of_set (offers input c))"
  using assms(2)
proof (induction "card (offers input c)" arbitrary: c qs rule: less_induct)
  case less
  from assms(1) less.prems show ?case
  proof (cases rule: cursor_next_cases)
    case (over c')
    then show ?thesis
      by (subst enumerate_from.simps) simp
  next
    case (emit c')
    then have "card (offers input c') < card (offers input c)"
      by (simp add: card_gt_0_iff)
    then show ?thesis
      using less.hyps [of c'] emit
      by (subst enumerate_from.simps) (simp add: sorted_list_of_set_nonempty)
  qed
qed


lemma make_cursor_ok: "mergeable input \<Longrightarrow> cursor_ok input (make_cursor input)"
  by (fastforce simp: cursor_ok_def make_cursor_def placed_def mergeable_def remaining_def breakpoints_def)

definition all_candidates :: "SizeCandidateEnumerationInput \<Rightarrow> int set" where
  "all_candidates input =
     {q. \<exists>leg < se_leg_count input. \<exists>l < level_count input leg. q = leg_candidate input leg l \<and>
        se_min_bundle_qty input \<le> q \<and> q < i64_max \<and> candidate_within_budget input q}"

lemma offers_make_cursor: "offers input (make_cursor input) = all_candidates input"
  by (auto simp: offers_def make_cursor_def remaining_def breakpoints_def all_candidates_def)

lemma enumerate_candidates_exact:
  assumes "mergeable input"
  shows "enumerate_candidates input = Some (sorted_list_of_set (all_candidates input))"
  using enumerate_from_exact [OF assms make_cursor_ok [OF assms], of "[]"] assms
  by (simp add: enumerate_candidates_def mergeable_def offers_make_cursor)

lemma stream_candidates_exact:
  assumes "mergeable input" and "cursor_ok input c"
  obtains more where "stream_candidates input f c qs loop =
      Some (more, evaluate_all f (sorted_list_of_set (offers input c)) loop)"
    and "more = [] \<longleftrightarrow> qs = [] \<and> offers input c = {}"
proof -
  have "\<exists>more. stream_candidates input f c qs loop = Some (more, evaluate_all f (sorted_list_of_set (offers input c)) loop) \<and>
    (more = [] \<longleftrightarrow> qs = [] \<and> offers input c = {})"
    using assms(2)
  proof (induction "card (offers input c)" arbitrary: c qs loop rule: less_induct)
    case less
    from assms(1) less.prems show ?case
    proof (cases rule: cursor_next_cases)
      case (over c')
      then show ?thesis
        by (subst stream_candidates.simps) simp
    next
      case (emit c')
      let ?q = "Min (offers input c)"
      let ?qs = "if length qs < kMaxOrderDecisionCandidates then qs @ [?q] else qs"
      have ne: "?qs \<noteq> []"
        by (auto simp: kMaxOrderDecisionCandidates_def kMaxOrderDecisionLegs_def kMaxCostCurveLevels_def)
      have card: "card (offers input c') < card (offers input c)"
        using emit by (simp add: card_gt_0_iff)
      have list: "sorted_list_of_set (offers input c) = ?q # sorted_list_of_set (offers input c')"
        using emit(3,4) by (simp add: sorted_list_of_set_nonempty)
      show ?thesis
      proof (cases "sl_saw_partial_reject (f ?q loop)")
        case True
        then show ?thesis
          using emit(1,3) ne list by (subst stream_candidates.simps) (simp add: Let_def)
      next
        case False
        have "stream_candidates input f c qs loop = stream_candidates input f c' ?qs (f ?q loop)"
          using emit(1) False by (subst stream_candidates.simps) (simp add: Let_def)
        then show ?thesis
          using less.hyps [OF card emit(2), of ?qs "f ?q loop"] False list ne emit(3) by (simp add: Let_def)
      qed
    qed
  qed
  then show ?thesis
    using that by blast
qed

lemma stream_candidates_prefix:
  assumes "mergeable input" and "cursor_ok input c"
    and "length qs + card (offers input c) \<le> kMaxOrderDecisionCandidates"
  obtains pre post where "stream_candidates input f c qs loop =
      Some (qs @ pre, evaluate_all f (sorted_list_of_set (offers input c)) loop)"
    and "sorted_list_of_set (offers input c) = pre @ post"
    and "post \<noteq> [] \<Longrightarrow> sl_saw_partial_reject (evaluate_all f pre loop)"
proof -
  have "\<exists>pre post. stream_candidates input f c qs loop = Some (qs @ pre, evaluate_all f (sorted_list_of_set (offers input c)) loop) \<and>
    sorted_list_of_set (offers input c) = pre @ post \<and> (post \<noteq> [] \<longrightarrow> sl_saw_partial_reject (evaluate_all f pre loop))"
    using assms(2,3)
  proof (induction "card (offers input c)" arbitrary: c qs loop rule: less_induct)
    case less
    from assms(1) less.prems(1) show ?case
    proof (cases rule: cursor_next_cases)
      case (over c')
      then show ?thesis
        by (subst stream_candidates.simps) simp
    next
      case (emit c')
      let ?q = "Min (offers input c)"
      have card: "card (offers input c') < card (offers input c)" "card (offers input c) = Suc (card (offers input c'))"
        using emit by (simp_all add: card_gt_0_iff)
      have room: "length qs < kMaxOrderDecisionCandidates" "length (qs @ [?q]) + card (offers input c') \<le> kMaxOrderDecisionCandidates"
        using less.prems(2) card(2) by simp_all
      have list: "sorted_list_of_set (offers input c) = ?q # sorted_list_of_set (offers input c')"
        using emit(3,4) by (simp add: sorted_list_of_set_nonempty)
      show ?thesis
      proof (cases "sl_saw_partial_reject (f ?q loop)")
        case True
        then show ?thesis
          using emit(1) room(1) list
          by (intro exI [of _ "[?q]"] exI [of _ "sorted_list_of_set (offers input c')"])
             (subst stream_candidates.simps, simp add: Let_def)
      next
        case False
        have "stream_candidates input f c qs loop = stream_candidates input f c' (qs @ [?q]) (f ?q loop)"
          using emit(1) False room(1) by (subst stream_candidates.simps) (simp add: Let_def)
        moreover obtain pre post where
          "stream_candidates input f c' (qs @ [?q]) (f ?q loop) =
             Some ((qs @ [?q]) @ pre, evaluate_all f (sorted_list_of_set (offers input c')) (f ?q loop))"
          "sorted_list_of_set (offers input c') = pre @ post"
          "post \<noteq> [] \<longrightarrow> sl_saw_partial_reject (evaluate_all f pre (f ?q loop))"
          using less.hyps [OF card(1) emit(2) room(2), of "f ?q loop"] by blast
        ultimately show ?thesis
          using False list by (intro exI [of _ "?q # pre"] exI [of _ post]) (simp add: Let_def)
      qed
    qed
  qed
  then show ?thesis
    using that by blast
qed

text \<open>Asked for quantities below one, the enumeration never ends: an exhausted leg offers zero for ever.\<close>

lemma smallest_candidate_below:
  assumes "se_min_bundle_qty input \<le> 0" "0 < se_leg_count input"
    and "\<And>leg l. 0 \<le> leg_candidate input leg l \<and> leg_candidate input leg l < i64_max"
  shows "smallest_candidate input levels < i64_max"
proof -
  let ?f = "\<lambda>leg. leg_candidate input leg (levels ! leg)"
  have "smallest_candidate input levels \<le> ?f 0"
    unfolding smallest_candidate_def
    using foldl_smallest(3) [where f = ?f and lo = "se_min_bundle_qty input" and hi = i64_max
        and xs = "[0..<se_leg_count input]" and x = 0] assms(1,2) assms(3) [of 0 "levels ! 0"] by simp
  then show ?thesis
    using assms(3) [of 0 "levels ! 0"] by linarith
qed

lemma leg_candidate_nonneg: "0 \<le> leg_candidate input leg l"
  by (auto simp: leg_candidate_def candidate_at_def Let_def)

lemma turn_never_over:
  assumes "se_min_bundle_qty input \<le> 0" "0 < se_leg_count input" "\<And>leg l. leg_candidate input leg l < i64_max"
  shows "cursor_turn input c \<noteq> CursorEnd c'"
proof -
  have "smallest_candidate input levels \<noteq> i64_max" for levels
    using smallest_candidate_below [OF assms(1,2), of levels] assms(3) leg_candidate_nonneg by simp
  then show ?thesis
    by (simp add: cursor_turn_def Let_def)
qed

lemma cursor_turn_keeps:
  "cursor_turn input c = CursorAgain c' \<Longrightarrow> kc_done c' = kc_done c"
  "cursor_turn input c = CursorEmit q c' \<Longrightarrow> kc_done c' = kc_done c"
  by (auto simp: cursor_turn_def Let_def split: if_splits)

lemma cursor_next_never_over:
  assumes "se_min_bundle_qty input \<le> 0" "0 < se_leg_count input" "se_leg_count input \<le> length (se_curves input)"
    and "\<And>leg l. leg_candidate input leg l < i64_max"
  shows "cursor_next input c = Some r \<Longrightarrow> \<not> kc_done c \<Longrightarrow> fst r \<noteq> None \<and> \<not> kc_done (snd r)"
proof -
  have "input' = input \<longrightarrow> \<not> kc_done c \<longrightarrow> fst r \<noteq> None \<and> \<not> kc_done (snd r)" if "cursor_next input' c = Some r" for input' c r
  proof (rule cursor_next.raw_induct [OF _ that, where P = "\<lambda>input' c r. input' = input \<longrightarrow> \<not> kc_done c \<longrightarrow> fst r \<noteq> None \<and> \<not> kc_done (snd r)"])
    fix f input' c r
    assume IH: "\<And>input' c r. f input' c = Some r \<Longrightarrow> input' = input \<longrightarrow> \<not> kc_done c \<longrightarrow> fst r \<noteq> None \<and> \<not> kc_done (snd r)"
      and body: "(if kc_done c \<or> se_leg_count input' = 0 \<or> length (se_curves input') < se_leg_count input'
        then Some (None, c) else (case cursor_turn input' c of CursorEnd c' \<Rightarrow> Some (None, c')
          | CursorAgain c' \<Rightarrow> f input' c' | CursorEmit q c' \<Rightarrow> Some (Some q, c'))) = Some r"
    show "input' = input \<longrightarrow> \<not> kc_done c \<longrightarrow> fst r \<noteq> None \<and> \<not> kc_done (snd r)"
    proof (intro impI)
      assume here: "input' = input" "\<not> kc_done c"
      show "fst r \<noteq> None \<and> \<not> kc_done (snd r)"
      proof (cases "cursor_turn input c")
        case (CursorEnd c')
        then show ?thesis
          using turn_never_over [OF assms(1,2,4)] by simp
      next
        case (CursorAgain c')
        then have "f input c' = Some r" "\<not> kc_done c'"
          using body here assms(2,3) cursor_turn_keeps(1) [OF CursorAgain] by (simp_all split: if_splits)
        then show ?thesis
          using IH by blast
      next
        case (CursorEmit q c')
        then show ?thesis
          using body here assms(2,3) cursor_turn_keeps(2) [OF CursorEmit] by (simp split: if_splits) auto
      qed
    qed
  qed
  then show "cursor_next input c = Some r \<Longrightarrow> \<not> kc_done c \<Longrightarrow> fst r \<noteq> None \<and> \<not> kc_done (snd r)"
    by blast
qed

lemma enumeration_never_ends:
  assumes "se_min_bundle_qty input \<le> 0" "0 < se_leg_count input" "se_leg_count input \<le> length (se_curves input)"
    and "\<And>leg l. leg_candidate input leg l < i64_max"
  shows "enumerate_candidates input = None"
proof -
  have "input' = input \<longrightarrow> \<not> kc_done c \<longrightarrow> False" if "enumerate_from input' c qs = Some r" for input' c qs r
  proof (rule enumerate_from.raw_induct [OF _ that, where P = "\<lambda>input' c qs r. input' = input \<longrightarrow> \<not> kc_done c \<longrightarrow> False"])
    fix f input' c qs r
    assume IH: "\<And>input' c qs r. f input' c qs = Some r \<Longrightarrow> input' = input \<longrightarrow> \<not> kc_done c \<longrightarrow> False"
      and body: "(case cursor_next input' c of None \<Rightarrow> None | Some (None, c') \<Rightarrow> Some qs
        | Some (Some q, c') \<Rightarrow> f input' c' (qs @ [q])) = Some r"
    show "input' = input \<longrightarrow> \<not> kc_done c \<longrightarrow> False"
    proof (intro impI)
      assume here: "input' = input" "\<not> kc_done c"
      then obtain q c' where "cursor_next input c = Some (Some q, c')" "\<not> kc_done c'"
        using body cursor_next_never_over [OF assms, of c] by (fastforce split: option.splits)
      then show False
        using body here IH by simp
    qed
  qed
  then have "enumerate_from input (make_cursor input) [] = None"
    by (metis make_cursor_def KWayCandidateCursor.select_convs(3) option.exhaust)
  then show ?thesis
    using assms by (simp add: enumerate_candidates_def)
qed

end
