(* ===== verification/SizeOptimality.thy ===== *)
theory SizeOptimality
  imports OrderSizing
begin

section \<open>The chosen size is the best\<close>

text \<open>
  Lemmas on \<open>OrderSizing\<close>: a cost curve holds the levels of a book with their running totals; a step of the
  incremental evaluation costs what buying the whole quantity level by level costs, and stops only where the
  depth does not cover the quantity or an amount overflows; the evaluation of ascending candidates keeps the
  best of them, exactly priced; a cached candidate set gives what the cursor gives, a streamed one that was cut
  at a depth margin serves every larger margin and legs of the same shape; and with one lot per leg
  and no limit but the total edge the best candidate is the best of all quantities, because the edge is a
  straight line between candidates.
\<close>

subsection \<open>Cost curves are the book\<close>

text \<open>A curve of a side holds the levels with lots to take and their running totals.\<close>

definition takable :: "PriceLevel list \<Rightarrow> PriceLevel list" where
  "takable side = filter (\<lambda>l. 0 < lots l) side"

definition curve_of :: "PriceLevel list \<Rightarrow> CostCurve \<Rightarrow> bool" where
  "curve_of side curve \<longleftrightarrow> (let S = takable side in
     length (cv_levels curve) = length S \<and>
     (\<forall>i < length S. cl_price_tick (cv_levels curve ! i) = price_tick (S ! i) \<and>
        cl_cumulative_qty_lots (cv_levels curve ! i) = depth (take (Suc i) S) \<and>
        cl_cumulative_cost_tick (cv_levels curve ! i) = book_cost (take (Suc i) S)) \<and>
     cv_total_qty_lots curve = depth side \<and> 0 < depth side \<and> depth side \<le> i64_max \<and> book_cost side \<le> i64_max)"

lemma takable_totals: "depth (takable side) = depth side" "book_cost (takable side) = book_cost side"
  by (induction side) (auto simp: takable_def not_less intro: antisym)

lemma takable_walk: "0 \<le> q \<Longrightarrow> walk_cost (takable side) q = walk_cost side q"
proof (induction side arbitrary: q)
  case (Cons l side)
  have "lots l = 0" if "\<not> 0 < lots l"
    using that lots_nonneg [of l] by linarith
  then show ?case
    using Cons by (cases "0 < lots l") (auto simp: takable_def min_def)
qed (simp add: takable_def)

lemma curve_loop_exact:
  assumes "curve_loop side qty cost room = Some (levels, amount)" "length side \<le> room"
    and "0 \<le> qty" "0 \<le> cost" "qty \<le> i64_max" "cost \<le> i64_max"
  defines "S \<equiv> takable side"
  shows "length levels = length S \<and> amount = qty + depth S \<and> qty + depth S \<le> i64_max \<and> cost + book_cost S \<le> i64_max \<and>
    (\<forall>i < length S. cl_price_tick (levels ! i) = price_tick (S ! i) \<and>
       cl_cumulative_qty_lots (levels ! i) = qty + depth (take (Suc i) S) \<and>
       cl_cumulative_cost_tick (levels ! i) = cost + book_cost (take (Suc i) S))"
  using assms(1-6) unfolding S_def
proof (induction side qty cost room arbitrary: levels rule: curve_loop.induct)
  case (1 qty cost room)
  then show ?case by (simp add: takable_def)
next
  case (2 level side qty cost room)
  show ?case
  proof (cases "price_tick level \<le> 0 \<or> price_level_size_lots level \<le> 0")
    case True
    then have "takable (level # side) = takable side"
      using lots_zero_iff [of level] by (simp add: takable_def)
    with 2 True show ?thesis
      by (auto split: if_splits)
  next
    case False
    let ?n = "price_level_size_lots level"
    have lots: "lots level = ?n" "0 < ?n" and S: "takable (level # side) = level # takable side"
      using False by (auto simp: lots_def takable_def)
    have len: "length side \<le> room - 1" and room: "room \<noteq> 0"
      using "2.prems"(2) by auto
    from "2.prems"(1) False room obtain level_cost qty' cost' levels' where
      steps: "checked_mul_i64 (price_tick level) ?n = Some level_cost" "checked_add_i64 qty ?n = Some qty'"
        "checked_add_i64 cost level_cost = Some cost'"
      and rest: "curve_loop side qty' cost' (room - 1) = Some (levels', amount)"
      and levels: "levels = \<lparr>cl_price_tick = price_tick level, cl_size_lots = ?n,
         cl_cumulative_qty_lots = qty', cl_cumulative_cost_tick = cost'\<rparr> # levels'"
      by (auto split: option.splits)
    have vals: "level_cost = price_tick level * ?n" "qty' = qty + ?n" "cost' = cost + price_tick level * ?n"
      "qty' \<le> i64_max" "cost' \<le> i64_max"
      using steps by (auto simp: checked_mul_i64_def checked_add_i64_def Let_def split: if_splits)
    have nn: "0 \<le> qty'" "0 \<le> cost'"
      using vals "2.prems"(3,4) lots False by auto
    have IH: "length levels' = length (takable side) \<and> amount = qty' + depth (takable side) \<and> qty' + depth (takable side) \<le> i64_max \<and>
      cost' + book_cost (takable side) \<le> i64_max \<and>
      (\<forall>i < length (takable side). cl_price_tick (levels' ! i) = price_tick (takable side ! i) \<and>
       cl_cumulative_qty_lots (levels' ! i) = qty' + depth (take (Suc i) (takable side)) \<and>
       cl_cumulative_cost_tick (levels' ! i) = cost' + book_cost (take (Suc i) (takable side)))"
      using "2.IH"(2) [OF room False steps] rest len nn vals(4,5) by blast
    show ?thesis
      unfolding S levels using IH vals lots by (auto simp: nth_Cons' less_Suc_eq_0_disj)
  qed
qed

lemma build_curve_of:
  assumes "build_buy_curve (Some leg) (Some view) i = Inr curve" "length (dv_asks view) = kMaxSnapshotDepth"
  shows "curve_of (view_asks view) curve"
proof -
  obtain levels amount where loop: "curve_loop (view_asks view) 0 0 kMaxCostCurveLevels = Some (levels, amount)"
    and curve: "cv_levels curve = levels" "cv_total_qty_lots curve = amount" "0 < amount"
    using assms(1) by (auto simp: build_buy_curve_def split: if_splits option.splits prod.splits)
  have len: "length (view_asks view) \<le> kMaxCostCurveLevels"
    using assms(2) by (simp add: view_asks_def kMaxSnapshotDepth_def kMaxCostCurveLevels_def)
  show ?thesis
    using curve_loop_exact [OF loop len] curve by (auto simp: curve_of_def Let_def takable_totals)
qed

lemma curve_ofD:
  assumes "curve_of side curve"
  shows "length (cv_levels curve) = length (takable side)"
    "i < length (takable side) \<Longrightarrow> cl_price_tick (cv_levels curve ! i) = price_tick (takable side ! i)"
    "i < length (takable side) \<Longrightarrow> cl_cumulative_qty_lots (cv_levels curve ! i) = depth (take (Suc i) (takable side))"
    "cv_total_qty_lots curve = depth (takable side)" "depth (takable side) \<le> i64_max" "book_cost (takable side) \<le> i64_max"
  using assms by (simp_all add: curve_of_def Let_def takable_totals)

lemma curve_of_sorted:
  assumes "curve_of side curve"
  shows "sorted (map cl_cumulative_qty_lots (cv_levels curve))"
  using curve_ofD [OF assms] by (auto simp: sorted_iff_nth_mono intro: depth_take_mono)

lemma takable_nth: "i < length (takable side) \<Longrightarrow> 0 < lots (takable side ! i) \<and> 0 < price_tick (takable side ! i)"
  using nth_mem [of i "takable side"] by (auto simp: takable_def lots_pos_price)

lemma hit_level_eq:
  assumes "i < length S" "depth (take i S) < q" "q \<le> depth (take (Suc i) S)" "q \<le> i64_max"
  shows "hit_level S q = i"
proof -
  have q: "0 < q" "q \<le> depth S"
    using le_less_trans [OF depth_nonneg assms(2)] order_trans [OF assms(3) depth_take_mono [of "Suc i" "length S" S]] assms(1)
    by (simp_all add: Suc_le_eq)
  note h = hit_level_props [OF q(1) assms(4) q(2)]
  show ?thesis
  proof (rule antisym)
    show "hit_level S q \<le> i"
      using h(2) assms(3) depth_take_mono [of "Suc i" "hit_level S q" S] by (meson leD le_less_trans not_less_eq_eq)
    show "i \<le> hit_level S q"
      using h(3) assms(2) depth_take_mono [of "Suc (hit_level S q)" i S] by (meson leD le_less_trans not_less_eq_eq)
  qed
qed

lemma level_take_mono:
  assumes "0 \<le> q" "q \<le> q'"
  shows "price_tick l * min q (lots l) \<le> price_tick l * min q' (lots l)"
proof (cases "0 < lots l")
  case True
  then show ?thesis
    using assms lots_pos_price [OF True] by (intro mult_left_mono) auto
next
  case False
  then have "lots l = 0"
    using lots_nonneg [of l] by linarith
  then show ?thesis
    using assms by simp
qed

lemma walk_cost_mono: "0 \<le> q \<Longrightarrow> q \<le> q' \<Longrightarrow> walk_cost S q \<le> walk_cost S q'"
proof (induction S arbitrary: q q')
  case (Cons l S)
  have "q - min q (lots l) \<le> q' - min q' (lots l)"
    using Cons.prems by (simp add: min_def)
  with Cons.IH [OF _ this] show ?case
    using level_take_mono [OF Cons.prems, of l] by simp
qed simp

lemma walk_cost_le_book: "0 \<le> q \<Longrightarrow> walk_cost S q \<le> book_cost S"
proof (induction S arbitrary: q)
  case (Cons l S)
  have "price_tick l * min q (lots l) \<le> price_tick l * lots l"
    using level_take_mono [of q "max q (lots l)" l] Cons.prems by simp
  moreover have "walk_cost S (q - min q (lots l)) \<le> book_cost S"
    using Cons by simp
  ultimately show ?case by simp
qed simp

text \<open>A leg of the incremental evaluation stands at a quantity.\<close>

definition leg_at :: "PriceLevel list \<Rightarrow> LegEval \<Rightarrow> int \<Rightarrow> bool" where
  "leg_at S leg q \<longleftrightarrow> lv_qty_lots leg = q \<and> lv_cost_tick leg = walk_cost S q \<and> 0 \<le> q \<and> q \<le> depth S \<and>
     lv_level_index leg \<le> length S \<and> depth (take (lv_level_index leg) S) \<le> q \<and>
     (0 < q \<longrightarrow> lv_worst_price_tick leg = price_tick (S ! hit_level S q))"

lemma leg_at_start: "leg_at S no_leg_eval 0"
  by (simp add: leg_at_def no_leg_eval_def walk_cost_0)

text \<open>One round of the loop takes what the level still has, or what is still needed.\<close>

lemma fill_leg_unfold:
  fixes levels leg target
  defines "level \<equiv> levels ! lv_level_index leg"
  defines "t \<equiv> min (cl_cumulative_qty_lots level - lv_qty_lots leg) (target - lv_qty_lots leg)"
  assumes "lv_qty_lots leg < target" "lv_level_index leg < length levels"
    and "lv_qty_lots leg < cl_cumulative_qty_lots level" "0 < cl_price_tick level"
    and "0 \<le> lv_cost_tick leg" "lv_cost_tick leg + cl_price_tick level * t \<le> i64_max" "0 \<le> amount"
  shows "fill_leg levels target leg amount =
    (if amount + cl_price_tick level * t \<le> i64_max
     then fill_leg levels target
        \<lparr>lv_level_index = (if lv_qty_lots leg + t \<ge> cl_cumulative_qty_lots level then Suc (lv_level_index leg) else lv_level_index leg),
         lv_qty_lots = lv_qty_lots leg + t, lv_cost_tick = lv_cost_tick leg + cl_price_tick level * t,
         lv_worst_price_tick = cl_price_tick level\<rparr> (amount + cl_price_tick level * t)
     else None)"
proof -
  have "0 < t"
    using assms(3,5) by (simp add: t_def)
  then have nn: "0 \<le> cl_price_tick level * t"
    using assms(6) by simp
  have eqs: "checked_mul_i64 (cl_price_tick level) t = Some (cl_price_tick level * t)"
    "checked_add_i64 (lv_cost_tick leg) (cl_price_tick level * t) = Some (lv_cost_tick leg + cl_price_tick level * t)"
    "checked_add_i64 amount (cl_price_tick level * t) =
      (if amount + cl_price_tick level * t \<le> i64_max then Some (amount + cl_price_tick level * t) else None)"
    using nn assms(7,8,9) by (auto simp: in_i64_def i64_bounds)
  then show ?thesis
    unfolding fill_leg.simps [of levels target leg amount] Let_def level_def [symmetric] t_def [symmetric]
    using assms(3-6) by (simp add: eqs)
qed


lemma fill_leg_exact:
  fixes side
  defines "S \<equiv> takable side"
  assumes "curve_of side curve" "leg_at S leg q" "q \<le> target" "target \<le> depth S" "0 \<le> amount" "amount \<le> i64_max"
    and "lv_level_index leg < length S \<Longrightarrow> q < depth (take (Suc (lv_level_index leg)) S)"
  shows "if amount + (walk_cost S target - walk_cost S q) \<le> i64_max
    then \<exists>leg'. fill_leg (cv_levels curve) target leg amount = Some (leg', amount + (walk_cost S target - walk_cost S q)) \<and>
      leg_at S leg' target
    else fill_leg (cv_levels curve) target leg amount = None"
  using assms(3-8)
proof (induction "nat (target - q)" arbitrary: leg q amount rule: less_induct)
  case less
  note curve = curve_ofD [OF assms(2), folded S_def]
  have q: "lv_qty_lots leg = q" "lv_cost_tick leg = walk_cost S q" "0 \<le> q"
    using less.prems(1) by (auto simp: leg_at_def)
  show ?case
  proof (cases "q < target")
    case False
    then have "q = target"
      using less.prems(2) by simp
    then show ?thesis
      using less.prems(1,5) q by (subst (1 2) fill_leg.simps) auto
  next
    case True
    let ?i = "lv_level_index leg"
    have i: "?i < length S"
      using less.prems(1,3) True by (auto simp: leg_at_def intro: ccontr)
    let ?cum = "depth (take (Suc ?i) S)" and ?p = "price_tick (S ! ?i)"
    define t where "t = min (?cum - q) (target - q)"
    have cum: "q < ?cum" "depth (take ?i S) \<le> q"
      using less.prems(1,6) i by (auto simp: leg_at_def)
    have t: "0 < t" "q + t \<le> ?cum" "q + t \<le> target" "q + t < target \<Longrightarrow> q + t = ?cum"
      using True cum by (auto simp: t_def)
    have step: "walk_cost S (q + t) = walk_cost S q + ?p * t"
      using walk_cost_at_level [OF i cum(2)] walk_cost_at_level [OF i, of "q + t"] cum t(1,2) by (simp add: algebra_simps)
    have bounds: "walk_cost S (q + t) \<le> walk_cost S target" "walk_cost S (q + t) \<le> i64_max"
      using walk_cost_mono [of "q + t" target S] walk_cost_le_book [of "q + t" S] q(3) t(1,3) curve(6) by linarith+
    have lvl: "cl_cumulative_qty_lots (cv_levels curve ! ?i) = ?cum" "cl_price_tick (cv_levels curve ! ?i) = ?p"
      "?i < length (cv_levels curve)" "0 < ?p" "0 \<le> walk_cost S q"
      using curve(1,2,3) i takable_nth [of ?i side] q(3) by (auto simp: S_def)
    let ?leg = "\<lparr>lv_level_index = (if q + t \<ge> ?cum then Suc ?i else ?i), lv_qty_lots = q + t,
      lv_cost_tick = walk_cost S (q + t), lv_worst_price_tick = ?p\<rparr>"
    have unfold: "fill_leg (cv_levels curve) target leg amount =
      (if amount + ?p * t \<le> i64_max then fill_leg (cv_levels curve) target ?leg (amount + ?p * t) else None)"
      using fill_leg_unfold [of leg target "cv_levels curve" amount, unfolded lvl(1,2) q(1,2), folded t_def step]
        True lvl(3,4,5) cum(1) bounds(2) less.prems(4) by simp
    have pos: "0 \<le> ?p * t"
      using lvl(4) t(1) by simp
    have at: "leg_at S ?leg (q + t)"
      using i q t(1,2,3) cum less.prems(3) hit_level_eq [OF i, of "q + t"] curve(5) by (auto simp: leg_at_def)
    have strict: "q + t < depth (take (Suc (lv_level_index ?leg)) S)" if "lv_level_index ?leg < length S"
    proof (cases "q + t \<ge> ?cum")
      case True
      with that have "Suc ?i < length S" by simp
      then show ?thesis
        using True t(2) takable_nth [of "Suc ?i" side] by (simp add: take_Suc_conv_app_nth [of "Suc ?i" "takable side"] S_def)
    qed simp
    show ?thesis
    proof (cases "amount + ?p * t \<le> i64_max")
      case fits: True
      have "nat (target - (q + t)) < nat (target - q)"
        using t(1) True by simp
      have nn: "0 \<le> amount + ?p * t"
        using pos less.prems(4) by simp
      note IH = less.hyps [OF \<open>nat (target - (q + t)) < nat (target - q)\<close> at t(3) less.prems(3) nn fits strict]
      have same: "amount + ?p * t + (walk_cost S target - walk_cost S (q + t)) = amount + (walk_cost S target - walk_cost S q)"
        using step by simp
      show ?thesis
        using IH unfolding unfold if_P [OF fits] same .
    next
      case False
      then show ?thesis
        using unfold bounds(1) step by simp
    qed
  qed
qed

subsection \<open>Stepping all legs\<close>

text \<open>
  A prepared leg with its side of the book; what it buys at a bundle quantity and pays for it; and whether
  the depth covers the quantity with the margin of the policy. A margin whose product overflows is ignored.
\<close>

abbreviation leg_side :: "PreparedLeg \<Rightarrow> PriceLevel list" where
  "leg_side p \<equiv> takable (view_asks (pl_depth p))"

definition priced_leg :: "PreparedLeg \<Rightarrow> bool" where
  "priced_leg p \<longleftrightarrow> 0 < pl_ratio p \<and> curve_of (view_asks (pl_depth p)) (pl_curve p)"

definition leg_cost :: "int \<Rightarrow> PreparedLeg \<Rightarrow> int" where
  "leg_cost q p = walk_cost (view_asks (pl_depth p)) (pl_ratio p * q)"

definition covered :: "int \<Rightarrow> int \<Rightarrow> PreparedLeg \<Rightarrow> bool" where
  "covered margin_bps q p \<longleftrightarrow> pl_ratio p * q \<le> depth (view_asks (pl_depth p)) \<and>
     (10000 < margin_bps \<and> pl_ratio p * q * margin_bps \<le> i64_max \<longrightarrow>
        pl_ratio p * q * margin_bps \<le> 10000 * depth (view_asks (pl_depth p)))"

lemma ceil_div_le_iff:
  assumes "0 \<le> n" "n \<le> i64_max" "0 < d"
  shows "ceil_div_positive n d \<le> k \<longleftrightarrow> n \<le> d * k"
proof
  assume "ceil_div_positive n d \<le> k"
  then have "ceil_div_positive n d * d \<le> k * d"
    using assms(3) by simp
  then show "n \<le> d * k"
    using ceil_div_positive_bounds(1) [OF assms] by (simp add: mult.commute)
next
  assume "n \<le> d * k"
  then have "(ceil_div_positive n d - 1) * d < k * d"
    using ceil_div_positive_bounds(2) [OF assms] by (simp add: mult.commute)
  then show "ceil_div_positive n d \<le> k"
    using assms(3) by simp
qed

lemma ceil_ratio_bps_le_iff:
  assumes "0 < v"
  shows "ceil_ratio_bps v m \<le> d \<longleftrightarrow>
    (if 10000 < m \<and> v * m \<le> i64_max then v * m \<le> 10000 * d else v \<le> d)"
proof -
  have "0 \<le> v * m" "in_i64 (v * m) \<longleftrightarrow> v * m \<le> i64_max" if "10000 < m"
    using assms that by (auto simp: in_i64_def i64_bounds intro: order_trans [of _ 0])
  then show ?thesis
    using assms ceil_div_le_iff [of "v * m" 10000 d]
    by (auto simp: ceil_ratio_bps_def checked_mul_i64_def in_i64_def Let_def)
qed

lemma margin_reaches:
  assumes "10000 < m" "v * m \<le> 10000 * d" "0 < v"
  shows "v \<le> (d :: int)"
proof -
  have "v * 10000 \<le> v * m"
    using assms(1,3) by simp
  then show ?thesis
    using assms(2) by linarith
qed

lemma covered_iff:
  assumes "priced_leg p" "0 < q" "in_i64 (pl_ratio p * q)"
  shows "covered m q p \<longleftrightarrow> \<not> cv_total_qty_lots (pl_curve p) < ceil_ratio_bps (pl_ratio p * q) m"
proof -
  have v: "0 < pl_ratio p * q" and d: "cv_total_qty_lots (pl_curve p) = depth (view_asks (pl_depth p))"
    using assms by (auto simp: priced_leg_def curve_of_def Let_def)
  show ?thesis
    unfolding d covered_def not_less ceil_ratio_bps_le_iff [OF v] using margin_reaches [OF _ _ v] by auto
qed

lemma leg_cost_takable: "priced_leg p \<Longrightarrow> 0 \<le> q \<Longrightarrow> leg_cost q p = walk_cost (leg_side p) (pl_ratio p * q)"
  by (simp add: leg_cost_def priced_leg_def takable_walk)

lemma advance_leg_exact:
  assumes "priced_leg p" "leg_at (leg_side p) leg (pl_ratio p * q0)" "0 \<le> q0" "q0 \<le> q" "in_i64 (pl_ratio p * q)"
    and "pl_ratio p * q \<le> depth (view_asks (pl_depth p))" "0 \<le> amount" "amount \<le> i64_max"
  shows "if amount + (leg_cost q p - leg_cost q0 p) \<le> i64_max
    then \<exists>leg'. advance_incremental_leg (pl_curve p) (pl_ratio p) q q0 leg amount =
        Some (leg', amount + (leg_cost q p - leg_cost q0 p)) \<and> leg_at (leg_side p) leg' (pl_ratio p * q)
    else advance_incremental_leg (pl_curve p) (pl_ratio p) q q0 leg amount = None"
proof -
  let ?S = "leg_side p" and ?cs = "cv_levels (pl_curve p)"
  let ?i = "skip_levels (\<lambda>l. lv_qty_lots leg \<ge> cl_cumulative_qty_lots (?cs ! l)) (length ?cs) (lv_level_index leg)"
  let ?leg = "leg\<lparr>lv_level_index := ?i\<rparr>"
  have curve: "curve_of (view_asks (pl_depth p)) (pl_curve p)" and r: "0 < pl_ratio p"
    using assms(1) by (auto simp: priced_leg_def)
  note cv = curve_ofD [OF curve]
  have leg: "lv_qty_lots leg = pl_ratio p * q0" "lv_level_index leg \<le> length ?cs"
    using assms(2) cv(1) by (auto simp: leg_at_def)
  note sk = skip_levels_props [OF leg(2), where p = "\<lambda>l. lv_qty_lots leg \<ge> cl_cumulative_qty_lots (?cs ! l)"]
  have mono: "pl_ratio p * q0 \<le> pl_ratio p * q"
    using r assms(4) by simp
  have "depth (take ?i ?S) \<le> pl_ratio p * q0"
  proof (cases "?i = lv_level_index leg")
    case True
    then show ?thesis
      using assms(2) by (simp add: leg_at_def)
  next
    case False
    then obtain k where k: "?i = Suc k" "lv_level_index leg \<le> k" "k < length ?S"
      using sk(1,2) cv(1) by (cases ?i) auto
    then show ?thesis
      using sk(3) [of k] cv(3) [of k] leg(1) by simp
  qed
  then have at: "leg_at ?S ?leg (pl_ratio p * q0)"
    using assms(2) sk(2) cv(1) by (auto simp: leg_at_def)
  have strict: "pl_ratio p * q0 < depth (take (Suc (lv_level_index ?leg)) ?S)" if "lv_level_index ?leg < length ?S"
    using sk(4) that cv(1,3) leg(1) by simp
  have "advance_incremental_leg (pl_curve p) (pl_ratio p) q q0 leg amount = fill_leg ?cs (pl_ratio p * q) ?leg amount"
    using r assms(4,5,6) mono leg(1) cv(4) by (simp add: advance_incremental_leg_def checked_mul_i64_def in_i64_def Let_def takable_totals)
  then show ?thesis
    using fill_leg_exact [OF curve at mono _ assms(7,8) strict] assms(1,3,4,6)
    by (simp add: leg_cost_takable takable_totals)
qed

definition total_leg_cost :: "PreparedLeg list \<Rightarrow> int \<Rightarrow> int" where
  "total_leg_cost ps q = sum_list (map (leg_cost q) ps)"

definition legs_at :: "PreparedLeg list \<Rightarrow> LegEval list \<Rightarrow> int \<Rightarrow> bool" where
  "legs_at ps legs q \<longleftrightarrow> list_all2 (\<lambda>p leg. leg_at (leg_side p) leg (pl_ratio p * q)) ps legs"

lemma total_leg_cost_simps [simp]:
  "total_leg_cost [] q = 0" "total_leg_cost (p # ps) q = leg_cost q p + total_leg_cost ps q"
  by (simp_all add: total_leg_cost_def)

lemma leg_cost_mono: "priced_leg p \<Longrightarrow> 0 \<le> q0 \<Longrightarrow> q0 \<le> q \<Longrightarrow> leg_cost q0 p \<le> leg_cost q p"
  by (auto simp: leg_cost_def priced_leg_def intro: walk_cost_mono)

lemma total_leg_cost_mono:
  "\<forall>p \<in> set ps. priced_leg p \<Longrightarrow> 0 \<le> q0 \<Longrightarrow> q0 \<le> q \<Longrightarrow> total_leg_cost ps q0 \<le> total_leg_cost ps q"
  by (induction ps) (auto intro: add_mono leg_cost_mono)

lemma advance_legs_exact:
  assumes "\<forall>p \<in> set ps. priced_leg p" "legs_at ps legs q0" "0 \<le> q0" "q0 \<le> q" "0 < q" "0 \<le> amount" "amount \<le> i64_max"
  shows "case advance_legs ps m q q0 legs amount of
      Advanced legs' amount' \<Rightarrow> (\<forall>p \<in> set ps. covered m q p) \<and> legs_at ps legs' q \<and> amount' \<le> i64_max \<and>
        amount' = amount + (total_leg_cost ps q - total_leg_cost ps q0)
    | AdvancePartialFillRisk \<Rightarrow> \<exists>p \<in> set ps. \<not> covered m q p
    | AdvanceInvalid \<Rightarrow> (\<exists>p \<in> set ps. \<not> covered m q p) \<or> i64_max < amount + (total_leg_cost ps q - total_leg_cost ps q0)"
  using assms
proof (induction ps m q q0 legs amount rule: advance_legs.induct)
  case (1 p ps m q q0 leg legs amount)
  have p: "priced_leg p" "\<forall>p \<in> set ps. priced_leg p" "leg_at (leg_side p) leg (pl_ratio p * q0)" "legs_at ps legs q0"
    using "1.prems"(1,2) by (auto simp: legs_at_def)
  let ?d = "leg_cost q p - leg_cost q0 p"
  have mono: "total_leg_cost ps q0 \<le> total_leg_cost ps q" "0 \<le> ?d"
    using total_leg_cost_mono [OF p(2) "1.prems"(3,4)] leg_cost_mono [OF p(1) "1.prems"(3,4)] by auto
  have depth_max: "depth (view_asks (pl_depth p)) \<le> i64_max" "0 \<le> pl_ratio p * q"
    using p(1) "1.prems"(5) by (auto simp: priced_leg_def curve_of_def Let_def)
  show ?case
  proof (cases "in_i64 (pl_ratio p * q)")
    case False
    then have "\<not> covered m q p"
      using depth_max by (auto simp: covered_def in_i64_def i64_bounds)
    with False show ?thesis
      by (auto simp: checked_mul_i64_def in_i64_def Let_def)
  next
    case fits: True
    then have mul: "checked_mul_i64 (pl_ratio p) q = Some (pl_ratio p * q)"
      by simp
    show ?thesis
    proof (cases "covered m q p")
      case False
      then show ?thesis
        using covered_iff [OF p(1) "1.prems"(5) fits, of m] by (simp add: mul)
    next
      case True
      note adv = advance_leg_exact [OF p(1,3) "1.prems"(3,4) fits _ "1.prems"(6,7)]
      have room: "\<not> cv_total_qty_lots (pl_curve p) < ceil_ratio_bps (pl_ratio p * q) m"
        "pl_ratio p * q \<le> depth (view_asks (pl_depth p))"
        using covered_iff [OF p(1) "1.prems"(5) fits, of m] True by (auto simp: covered_def)
      show ?thesis
      proof (cases "amount + ?d \<le> i64_max")
        case False
        then have "advance_incremental_leg (pl_curve p) (pl_ratio p) q q0 leg amount = None"
          using adv room by simp
        with False show ?thesis
          using mono room by (simp add: mul)
      next
        case small: True
        then obtain leg' where leg': "advance_incremental_leg (pl_curve p) (pl_ratio p) q q0 leg amount = Some (leg', amount + ?d)"
          "leg_at (leg_side p) leg' (pl_ratio p * q)"
          using adv room by auto
        have nn: "0 \<le> amount + ?d"
          using "1.prems"(6) mono by simp
        note IH = "1.IH" [OF mul room(1) leg'(1) refl p(2,4) "1.prems"(3,4,5) nn small]
        show ?thesis
          using IH leg' True room
          by (cases "advance_legs ps m q q0 legs (amount + ?d)") (auto simp: mul legs_at_def)
      qed
    qed
  qed
qed (auto simp: legs_at_def)

subsection \<open>The best candidate\<close>

definition stands_at :: "PreparedLeg list \<Rightarrow> IncrementalEvalState \<Rightarrow> int \<Rightarrow> bool" where
  "stands_at ps st q \<longleftrightarrow> ie_current_q st = q \<and> 0 \<le> q \<and> legs_at ps (ie_legs st) q \<and>
     ie_total_leg_cost_tick st = total_leg_cost ps q \<and> total_leg_cost ps q \<le> i64_max"

lemma leg_cost_0 [simp]: "leg_cost 0 p = 0"
  by (simp add: leg_cost_def walk_cost_0)

lemma total_leg_cost_0 [simp]: "total_leg_cost ps 0 = 0"
  by (induction ps) simp_all

lemma stands_at_start: "stands_at ps (initial_eval_state (length ps)) 0"
  using leg_at_start by (simp add: stands_at_def initial_eval_state_def legs_at_def list_all2_conv_all_nth i64_bounds)

lemma total_leg_cost_nonneg: "\<forall>p \<in> set ps. priced_leg p \<Longrightarrow> 0 \<le> q \<Longrightarrow> 0 \<le> total_leg_cost ps q"
  using total_leg_cost_mono [of ps 0 q] by simp

text \<open>
  A quantity is payable when the depth of every leg covers it and its cost fits; its point is the verdict on
  the whole cost of the legs, bought level by level.
\<close>

definition payable :: "PreparedLeg list \<Rightarrow> int \<Rightarrow> int \<Rightarrow> bool" where
  "payable ps m q \<longleftrightarrow> (\<forall>p \<in> set ps. covered m q p) \<and> total_leg_cost ps q \<le> i64_max"

definition point_at ::
  "PreparedLeg list \<Rightarrow> OrderDecisionConfig \<Rightarrow> RiskPolicySnapshot \<Rightarrow> int \<Rightarrow> int \<Rightarrow> EdgeCurvePoint option" where
  "point_at ps config policy guaranteed q =
     (if payable ps (rp_min_depth_margin_bps policy) q
      then (case edge_verdict config policy guaranteed (total_leg_cost ps q) q of
          PointAccepted point \<Rightarrow> Some point | _ \<Rightarrow> None)
      else None)"

lemma advance_state_exact:
  fixes policy
  assumes "\<forall>p \<in> set ps. priced_leg p" "stands_at ps st q0" "q0 \<le> q" "0 < q"
  defines "m \<equiv> rp_min_depth_margin_bps policy"
  shows "case advance_incremental_state ps policy q st of
      (Advanced _ _, st') \<Rightarrow> payable ps m q \<and> stands_at ps st' q
    | (AdvancePartialFillRisk, st') \<Rightarrow> (\<exists>p \<in> set ps. \<not> covered m q p) \<and> st' = st
    | (AdvanceInvalid, st') \<Rightarrow> \<not> payable ps m q \<and> st' = st"
proof -
  have st: "ie_current_q st = q0" "0 \<le> q0" "legs_at ps (ie_legs st) q0" "ie_total_leg_cost_tick st = total_leg_cost ps q0"
    "0 \<le> total_leg_cost ps q0" "total_leg_cost ps q0 \<le> i64_max"
    using assms(2) total_leg_cost_nonneg [OF assms(1), of q0] by (auto simp: stands_at_def)
  note adv = advance_legs_exact [OF assms(1) st(3,2) assms(3,4) st(5,6), of m]
  show ?thesis
    using adv st assms(3,4)
    by (cases "advance_legs ps m q q0 (ie_legs st) (total_leg_cost ps q0)")
      (auto simp: advance_incremental_state_def m_def payable_def stands_at_def)
qed

text \<open>Candidates are compared by a strict order on their points.\<close>

lemma better_edge_order:
  "\<not> better_edge_candidate a a"
  "better_edge_candidate a b \<Longrightarrow> better_edge_candidate b c \<Longrightarrow> better_edge_candidate a c"
  "\<not> better_edge_candidate a b \<Longrightarrow> \<not> better_edge_candidate b c \<Longrightarrow> \<not> better_edge_candidate a c"
  by (auto simp: better_edge_candidate_def split: if_splits)

definition best_of :: "PreparedLeg list \<Rightarrow> (int \<Rightarrow> EdgeCurvePoint option) \<Rightarrow> int set
    \<Rightarrow> (EdgeCurvePoint \<times> IncrementalEvalState) option \<Rightarrow> bool" where
  "best_of ps point qs best \<longleftrightarrow>
     (case best of
        None \<Rightarrow> \<forall>q \<in> qs. point q = None
      | Some (b, st) \<Rightarrow> (\<exists>q \<in> qs. point q = Some b \<and> stands_at ps st q) \<and>
          (\<forall>q \<in> qs. \<forall>b'. point q = Some b' \<longrightarrow> \<not> better_edge_candidate b' b))"

lemma best_of_skip: "point q = None \<Longrightarrow> best_of ps point (insert q qs) best \<longleftrightarrow> best_of ps point qs best"
  by (auto simp: best_of_def split: option.splits prod.splits)

lemma best_of_consider:
  assumes "best_of ps point qs (sl_best loop)" "point q = Some b" "stands_at ps (sl_state loop) q"
  shows "best_of ps point (insert q qs) (sl_best (consider_point b loop))"
proof (cases "sl_best loop")
  case None
  then show ?thesis
    using assms better_edge_order(1) by (auto simp: best_of_def consider_point_def)
next
  case (Some best)
  obtain b0 st where best: "best = (b0, st)"
    by (cases best)
  show ?thesis
  proof (cases "better_edge_candidate b b0")
    case True
    then have "\<not> better_edge_candidate b' b" if "\<not> better_edge_candidate b' b0" for b'
      using that better_edge_order(2) by blast
    then show ?thesis
      using assms True Some best better_edge_order(1) by (auto simp: best_of_def consider_point_def)
  next
    case False
    then show ?thesis
      using assms Some best by (auto simp: best_of_def consider_point_def)
  qed
qed

lemma consider_keeps [simp]:
  "sl_state (consider_point b loop) = sl_state loop"
  "sl_saw_partial_reject (consider_point b loop) = sl_saw_partial_reject loop"
  by (auto simp: consider_point_def split: option.splits prod.splits)

lemma evaluate_candidate_exact:
  fixes ps config policy lo guaranteed q loop
  defines "point \<equiv> point_at ps config policy guaranteed"
  assumes "\<forall>p \<in> set ps. priced_leg p" "stands_at ps (sl_state loop) q0" "q0 \<le> q" "0 < q" "lo \<le> q"
    and "best_of ps point qs (sl_best loop)" "\<not> sl_saw_partial_reject loop"
  defines "loop' \<equiv> evaluate_candidate ps config policy lo guaranteed q loop"
  shows "best_of ps point (insert q qs) (sl_best loop')"
    and "\<exists>q1 \<le> q. stands_at ps (sl_state loop') q1"
    and "sl_saw_partial_reject loop' \<Longrightarrow> \<exists>p \<in> set ps. \<not> covered (rp_min_depth_margin_bps policy) q p"
proof -
  note adv = advance_state_exact [OF assms(2-5), of policy]
  obtain outcome st where step: "advance_incremental_state ps policy q (sl_state loop) = (outcome, st)"
    by (cases "advance_incremental_state ps policy q (sl_state loop)")
  have "best_of ps point (insert q qs) (sl_best loop') \<and> (\<exists>q1 \<le> q. stands_at ps (sl_state loop') q1) \<and>
    (sl_saw_partial_reject loop' \<longrightarrow> (\<exists>p \<in> set ps. \<not> covered (rp_min_depth_margin_bps policy) q p))"
  proof (cases outcome)
    case (Advanced legs amount)
    then have at: "payable ps (rp_min_depth_margin_bps policy) q" "stands_at ps st q"
      using adv step by auto
    let ?v = "edge_verdict config policy guaranteed (total_leg_cost ps q) q"
    have v: "loop' = (let moved = loop\<lparr>sl_state := st\<rparr> in case ?v of PointInvalid \<Rightarrow> moved
        | PointOverBudget \<Rightarrow> moved\<lparr>sl_saw_budget_reject := True\<rparr> | PointLowEdge \<Rightarrow> moved
        | PointAccepted b \<Rightarrow> consider_point b moved)"
      using assms(6) step Advanced at(2) by (simp add: loop'_def evaluate_candidate_def stands_at_def)
    have pt: "point q = (case ?v of PointAccepted b \<Rightarrow> Some b | _ \<Rightarrow> None)"
      using at(1) by (simp add: point_def point_at_def)
    show ?thesis
    proof (cases ?v)
      case (PointAccepted b)
      then show ?thesis
        using best_of_consider [of ps point qs "loop\<lparr>sl_state := st\<rparr>" q b] v pt at(2) assms(7,8) by auto
    qed (use v pt at(2) assms(7,8) in \<open>auto simp: best_of_skip\<close>)
  next
    case AdvancePartialFillRisk
    then have "\<exists>p \<in> set ps. \<not> covered (rp_min_depth_margin_bps policy) q p" and none: "point q = None"
      using adv step by (auto simp: point_def point_at_def payable_def)
    moreover have "loop' = loop\<lparr>sl_saw_partial_reject := True\<rparr>"
      using assms(6) step AdvancePartialFillRisk by (simp add: loop'_def evaluate_candidate_def)
    ultimately show ?thesis
      using assms(3,4,7) best_of_skip [where point = point, OF none] by auto
  next
    case AdvanceInvalid
    then have none: "point q = None"
      using adv step by (simp add: point_def point_at_def)
    have "loop' = loop"
      using assms(6) step AdvanceInvalid by (simp add: loop'_def evaluate_candidate_def)
    then show ?thesis
      using assms(3,4,7,8) best_of_skip [where point = point, OF none] by auto
  qed
  then show "best_of ps point (insert q qs) (sl_best loop')" "\<exists>q1 \<le> q. stands_at ps (sl_state loop') q1"
    "sl_saw_partial_reject loop' \<Longrightarrow> \<exists>p \<in> set ps. \<not> covered (rp_min_depth_margin_bps policy) q p"
    by blast+
qed

text \<open>
  A margin of the policy above one can be multiplied with every depth. A larger quantity is then covered no better
  than a smaller one, so stopping at the first uncovered candidate loses nothing.
\<close>

definition margin_fits :: "PreparedLeg list \<Rightarrow> int \<Rightarrow> bool" where
  "margin_fits ps m \<longleftrightarrow> m \<le> 10000 \<or> (\<forall>p \<in> set ps. depth (view_asks (pl_depth p)) * m \<le> i64_max)"

lemma covered_antimono:
  assumes "priced_leg p" "0 \<le> q" "q \<le> q'" "covered m q' p" "10000 < m \<Longrightarrow> depth (view_asks (pl_depth p)) * m \<le> i64_max"
  shows "covered m q p"
proof -
  have le: "pl_ratio p * q \<le> pl_ratio p * q'"
    using assms(1,3) by (simp add: priced_leg_def)
  have "pl_ratio p * q * m \<le> 10000 * depth (view_asks (pl_depth p))" if m: "10000 < m"
  proof -
    have "pl_ratio p * q' * m \<le> depth (view_asks (pl_depth p)) * m"
      using assms(4) m by (intro mult_right_mono) (auto simp: covered_def)
    with assms(5) [OF m] have "pl_ratio p * q' * m \<le> i64_max"
      by linarith
    then have "pl_ratio p * q' * m \<le> 10000 * depth (view_asks (pl_depth p))"
      using assms(4) m by (auto simp: covered_def)
    moreover have "pl_ratio p * q * m \<le> pl_ratio p * q' * m"
      using le m by (intro mult_right_mono) auto
    ultimately show ?thesis by linarith
  qed
  then show ?thesis
    using le assms(4) by (auto simp: covered_def)
qed

lemma uncovered_later:
  assumes "\<forall>p \<in> set ps. priced_leg p" "margin_fits ps (rp_min_depth_margin_bps policy)" "0 \<le> q" "q \<le> q'"
    and "\<exists>p \<in> set ps. \<not> covered (rp_min_depth_margin_bps policy) q p"
  shows "point_at ps config policy guaranteed q' = None"
proof -
  obtain p where p: "p \<in> set ps" "\<not> covered (rp_min_depth_margin_bps policy) q p"
    using assms(5) by blast
  then have "\<not> covered (rp_min_depth_margin_bps policy) q' p"
    using covered_antimono [of p q q' "rp_min_depth_margin_bps policy"] assms(1-4) by (auto simp: margin_fits_def)
  with p(1) show ?thesis
    by (auto simp: point_at_def payable_def)
qed

lemma evaluate_all_exact:
  fixes ps config policy guaranteed
  defines "point \<equiv> point_at ps config policy guaranteed"
  assumes "\<forall>p \<in> set ps. priced_leg p" "margin_fits ps (rp_min_depth_margin_bps policy)" "1 \<le> lo"
    and "sorted qs" "\<forall>q \<in> set qs. lo \<le> q \<and> q0 \<le> q"
    and "stands_at ps (sl_state loop) q0" "best_of ps point seen (sl_best loop)" "\<not> sl_saw_partial_reject loop"
  shows "best_of ps point (seen \<union> set qs)
    (sl_best (evaluate_all (evaluate_candidate ps config policy lo guaranteed) qs loop))"
  using assms(5-9)
proof (induction qs arbitrary: q0 loop seen)
  case (Cons q qs)
  let ?loop = "evaluate_candidate ps config policy lo guaranteed q loop"
  have q: "q0 \<le> q" "0 < q" "lo \<le> q" "sorted qs" "\<forall>q' \<in> set qs. lo \<le> q' \<and> q \<le> q'"
    using Cons.prems(1,2) assms(4) by auto
  note ev = evaluate_candidate_exact [OF assms(2) Cons.prems(3) q(1,2,3) Cons.prems(4) [unfolded point_def] Cons.prems(5), folded point_def]
  show ?case
  proof (cases "sl_saw_partial_reject ?loop")
    case True
    have none: "point q' = None" if "q' \<in> set qs" for q'
      using uncovered_later [OF assms(2,3) _ _ ev(3) [OF True], of q'] q(2,5) that by (simp add: point_def)
    have "best_of ps point (B \<union> set xs) best \<longleftrightarrow> best_of ps point B best" if "\<forall>x \<in> set xs. point x = None" for xs B best
      using that by (induction xs) (auto simp: best_of_skip)
    from this [of qs "insert q seen" "sl_best ?loop"] show ?thesis
      using True none ev(1) by (simp add: Let_def)
  next
    case False
    obtain q1 where q1: "q1 \<le> q" "stands_at ps (sl_state ?loop) q1"
      using ev(2) by blast
    have "\<forall>q' \<in> set qs. lo \<le> q' \<and> q1 \<le> q'"
      using q(5) q1(1) by fastforce
    from Cons.IH [OF q(4) this q1(2) ev(1) False] show ?thesis
      using False by (simp add: Let_def)
  qed
qed simp

subsection \<open>What the optimizer answers\<close>

lemma prepare_leg_priced:
  assumes "prepare_leg intent views i leg = Inr p" "\<forall>v \<in> set views. length (dv_asks v) = kMaxSnapshotDepth"
  shows "priced_leg p" "pl_depth p \<in> set views" "depth_flags_usable (pl_depth p)" "pl_asset_index p = dv_asset_index (pl_depth p)"
proof -
  obtain view where view: "sizing_depth_view views (case intent_leg_at intent i of Some leg \<Rightarrow> il_asset_index leg | None \<Rightarrow> 0) i = Some view"
    and usable: "depth_flags_usable view" and r: "0 < ratio_for_leg leg (intent_leg_at intent i)"
    and curve: "build_buy_curve (Some leg) (Some view) (dv_asset_index view) = Inr (pl_curve p)"
    and p: "pl_depth p = view" "pl_ratio p = ratio_for_leg leg (intent_leg_at intent i)" "pl_asset_index p = dv_asset_index view"
    using assms(1) by (auto simp: prepare_leg_def Let_def split: if_splits option.splits sum.splits)
  have mem: "view \<in> set views"
    using view filter_is_subset [of _ views]
    by (fastforce simp: sizing_depth_view_def dest: filter_eq_ConsD split: list.splits if_splits)
  then show "priced_leg p"
    using build_curve_of [OF curve] assms(2) r p by (simp add: priced_leg_def)
  show "pl_depth p \<in> set views" "depth_flags_usable (pl_depth p)" "pl_asset_index p = dv_asset_index (pl_depth p)"
    using mem usable p by auto
qed

lemma prepare_legs_priced:
  assumes "prepare_legs intent views i legs = Inr ps" "\<forall>v \<in> set views. length (dv_asks v) = kMaxSnapshotDepth"
  shows "(\<forall>p \<in> set ps. priced_leg p) \<and> length ps = length legs"
  using assms(1)
proof (induction legs arbitrary: i ps)
  case (Cons leg legs)
  then obtain p ps' where "prepare_leg intent views i leg = Inr p" "prepare_legs intent views (Suc i) legs = Inr ps'" "ps = p # ps'"
    by (auto split: sum.splits)
  then show ?case
    using Cons.IH prepare_leg_priced(1) [OF _ assms(2)] by auto
qed simp

definition candidates_of :: "PreparedLeg list \<Rightarrow> OrderDecisionConfig \<Rightarrow> int set" where
  "candidates_of ps config = all_candidates (enumeration_input ps (effective_min_qty config) config)"

lemma candidates_finite [simp]: "finite (candidates_of ps config)"
  unfolding candidates_of_def offers_make_cursor [symmetric] by simp

lemma candidates_min: "q \<in> candidates_of ps config \<Longrightarrow> effective_min_qty config \<le> q"
  by (auto simp: candidates_of_def all_candidates_def enumeration_input_def)

lemma mergeable_legs:
  assumes "\<forall>p \<in> set ps. priced_leg p" "ps \<noteq> []"
  shows "mergeable (enumeration_input ps (effective_min_qty config) config)"
proof -
  have "sorted (map cl_cumulative_qty_lots (cv_levels (pl_curve (ps ! i))))" if "i < length ps" for i
    using bspec [OF assms(1) nth_mem [OF that]] by (auto simp: priced_leg_def intro: curve_of_sorted)
  then show ?thesis
    using assms(2) by (simp add: mergeable_def enumeration_input_def effective_min_qty_def)
qed

lemma streaming_is_evaluation:
  fixes config
  assumes "\<forall>p \<in> set ps. priced_leg p" "ps \<noteq> []"
  defines "C \<equiv> candidates_of ps config"
  shows "\<exists>streamed. (streamed = [] \<longleftrightarrow> C = {}) \<and>
    size_by_streaming ps config policy guaranteed = Some (streamed, size_result ps guaranteed (C \<noteq> {})
      (evaluate_all (evaluate_candidate ps config policy (effective_min_qty config) guaranteed) (sorted_list_of_set C)
        (initial_loop (length ps))))"
proof -
  let ?input = "enumeration_input ps (effective_min_qty config) config"
  let ?f = "evaluate_candidate ps config policy (effective_min_qty config) guaranteed"
  note m = mergeable_legs [OF assms(1,2), of config]
  obtain more where "stream_candidates ?input ?f (make_cursor ?input) [] (initial_loop (length ps)) =
      Some (more, evaluate_all ?f (sorted_list_of_set C) (initial_loop (length ps)))" "more = [] \<longleftrightarrow> C = {}"
    by (rule stream_candidates_exact [OF m make_cursor_ok [OF m], of ?f "[]" "initial_loop (length ps)"]) (simp add: offers_make_cursor C_def candidates_of_def)
  then show ?thesis
    by (intro exI [of _ more]) (simp add: size_by_streaming_def Let_def)
qed

lemma initial_loop_ready:
  "stands_at ps (sl_state (initial_loop (length ps))) 0"
  "best_of ps (point_at ps config policy guaranteed) {} (sl_best (initial_loop (length ps)))"
  "\<not> sl_saw_partial_reject (initial_loop (length ps))"
  using stands_at_start by (simp_all add: initial_loop_def best_of_def)

lemma best_evaluated:
  assumes "\<forall>p \<in> set ps. priced_leg p" "margin_fits ps (rp_min_depth_margin_bps policy)"
  shows "best_of ps (point_at ps config policy guaranteed) (candidates_of ps config)
    (sl_best (evaluate_all (evaluate_candidate ps config policy (effective_min_qty config) guaranteed)
      (sorted_list_of_set (candidates_of ps config)) (initial_loop (length ps))))"
proof -
  have range: "\<forall>q \<in> set (sorted_list_of_set (candidates_of ps config)). effective_min_qty config \<le> q \<and> 0 \<le> q"
    using candidates_min by (fastforce simp: effective_min_qty_def)
  show ?thesis
    using evaluate_all_exact [OF assms _ _ range initial_loop_ready] by (simp add: effective_min_qty_def)
qed

text \<open>The leg a decision should hold: the lots it buys, what they cost level by level and the last price.\<close>

definition last_price :: "PriceLevel list \<Rightarrow> int \<Rightarrow> int" where
  "last_price side q = price_tick (takable side ! hit_level (takable side) q)"

definition bought_leg :: "int \<Rightarrow> PreparedLeg \<Rightarrow> OrderDecisionLegLite" where
  "bought_leg q p =
     (let n = pl_ratio p * q; side = view_asks (pl_depth p) in
      default_leg_lite\<lparr>ll_asset_index := pl_asset_index p, ll_side := Buy, ll_quantity_lots := n,
        ll_estimated_vwap_tick := walk_cost side n sdiv n, ll_worst_price_tick := last_price side n,
        ll_estimated_cost_tick := walk_cost side n\<rparr>)"

lemma legs_at_bought:
  assumes "\<forall>p \<in> set ps. priced_leg p" "legs_at ps legs q" "0 < q"
  shows "map2 best_leg ps legs = map (bought_leg q) ps" "leg \<in> set legs \<Longrightarrow> 0 < lv_qty_lots leg \<and> 0 \<le> lv_cost_tick leg"
proof -
  have one: "best_leg p leg = bought_leg q p \<and> 0 < lv_qty_lots leg \<and> 0 \<le> lv_cost_tick leg"
    if "priced_leg p" "leg_at (leg_side p) leg (pl_ratio p * q)" for p leg
  proof -
    have "0 < pl_ratio p * q"
      using that(1) assms(3) by (simp add: priced_leg_def)
    then show ?thesis
      using that(2) takable_walk [of "pl_ratio p * q" "view_asks (pl_depth p)"]
      by (auto simp: leg_at_def best_leg_def bought_leg_def last_price_def Let_def)
  qed
  have len: "length ps = length legs"
    using assms(2) by (simp add: legs_at_def list_all2_lengthD)
  have nth: "best_leg (ps ! i) (legs ! i) = bought_leg q (ps ! i) \<and> 0 < lv_qty_lots (legs ! i) \<and> 0 \<le> lv_cost_tick (legs ! i)"
    if "i < length ps" for i
    using one [of "ps ! i" "legs ! i"] that assms(1,2) by (simp add: legs_at_def list_all2_conv_all_nth)
  show "map2 best_leg ps legs = map (bought_leg q) ps"
    using len nth by (intro nth_equalityI) auto
  show "leg \<in> set legs \<Longrightarrow> 0 < lv_qty_lots leg \<and> 0 \<le> lv_cost_tick leg"
    using len nth by (auto simp: in_set_conv_nth)
qed

lemma edge_verdict_accepted:
  fixes config
  assumes "edge_verdict config policy guaranteed cost q = PointAccepted b"
  defines "buffers \<equiv> dc_fee_per_bundle_tick config + dc_latency_buffer_per_bundle_tick config + dc_slippage_buffer_per_bundle_tick config"
  shows "ep_bundle_qty b = q \<and> ep_total_cost_tick b = cost + buffers * q \<and>
    ep_total_edge_tick b = guaranteed * q - (cost + buffers * q) \<and>
    ep_unit_edge_tick b = ep_total_edge_tick b sdiv q \<and> ep_edge_bps b = ratio_bps (ep_total_edge_tick b) (ep_total_cost_tick b) \<and>
    (0 < rp_max_total_cost_tick policy \<longrightarrow> ep_total_cost_tick b \<le> rp_max_total_cost_tick policy) \<and>
    passes_edge_thresholds (ep_unit_edge_tick b) (ep_total_edge_tick b) (ep_edge_bps b) policy \<and> in_i64 (guaranteed * q)"
  using assms(1) unfolding edge_verdict_def
  by (auto simp: buffers_def algebra_simps Let_def split: option.splits if_splits)

text \<open>
  What the optimizer promises: the quantity is payable and respects the policy, and it is exactly priced; and
  it is the best of the candidates, or no candidate is admissible.
\<close>

definition priced_result ::
  "PreparedLeg list \<Rightarrow> OrderDecisionConfig \<Rightarrow> RiskPolicySnapshot \<Rightarrow> int \<Rightarrow> BundleSizeResult \<Rightarrow> EdgeCurvePoint \<Rightarrow> bool" where
  "priced_result ps config policy guaranteed r b \<longleftrightarrow>
     effective_min_qty config \<le> bs_best_bundle_qty r \<and>
     point_at ps config policy guaranteed (bs_best_bundle_qty r) = Some b \<and>
     bs_guaranteed_payout_tick r = guaranteed * bs_best_bundle_qty r \<and>
     bs_total_cost_tick r = ep_total_cost_tick b \<and> bs_unit_edge_tick r = ep_unit_edge_tick b \<and>
     bs_total_edge_tick r = ep_total_edge_tick b \<and> bs_edge_bps r = ep_edge_bps b \<and>
     bs_leg_count r = length ps \<and> bs_legs r = pad_legs (map (bought_leg (bs_best_bundle_qty r)) ps)"

definition sized ::
  "PreparedLeg list \<Rightarrow> OrderDecisionConfig \<Rightarrow> RiskPolicySnapshot \<Rightarrow> int \<Rightarrow> BundleSizeResult \<Rightarrow> bool" where
  "sized ps config policy guaranteed r \<longleftrightarrow>
     (let C = candidates_of ps config; point = point_at ps config policy guaranteed in
      if bs_ok r
      then (\<exists>b. bs_best_bundle_qty r \<in> C \<and> priced_result ps config policy guaranteed r b \<and>
          (\<forall>q \<in> C. \<forall>b'. point q = Some b' \<longrightarrow> \<not> better_edge_candidate b' b))
      else \<forall>q \<in> C. point q = None)"

lemma point_at_accepted:
  "point_at ps config policy guaranteed q = Some b \<Longrightarrow> payable ps (rp_min_depth_margin_bps policy) q \<and>
     edge_verdict config policy guaranteed (total_leg_cost ps q) q = PointAccepted b"
  by (auto simp: point_at_def split: if_splits PointVerdict.splits)

lemma size_result_priced:
  assumes "\<forall>p \<in> set ps. priced_leg p" "sl_best loop = Some (b, st)"
    and "point_at ps config policy guaranteed q = Some b" "stands_at ps st q" "effective_min_qty config \<le> q"
  shows "bs_ok (size_result ps guaranteed any loop)" "bs_best_bundle_qty (size_result ps guaranteed any loop) = q"
    "priced_result ps config policy guaranteed (size_result ps guaranteed any loop) b"
proof -
  have pos: "0 < q"
    using assms(5) by (simp add: effective_min_qty_def)
  note b = edge_verdict_accepted [OF conjunct2 [OF point_at_accepted [OF assms(3)]]]
  have legs: "map2 best_leg ps (ie_legs st) = map (bought_leg q) ps"
    "\<not> (\<exists>leg \<in> set (ie_legs st). lv_qty_lots leg \<le> 0 \<or> lv_cost_tick leg < 0)"
    using legs_at_bought [OF assms(1) _ pos, of "ie_legs st"] assms(4) unfolding stands_at_def by (blast, fastforce)
  show "bs_ok (size_result ps guaranteed any loop)" "bs_best_bundle_qty (size_result ps guaranteed any loop) = q"
    "priced_result ps config policy guaranteed (size_result ps guaranteed any loop) b"
    using assms(2,3,5) legs b by (simp_all add: size_result_def priced_result_def wrap_i64_id)
qed

lemma size_result_sized:
  assumes "\<forall>p \<in> set ps. priced_leg p"
    and "best_of ps (point_at ps config policy guaranteed) (candidates_of ps config) (sl_best loop)"
  shows "sized ps config policy guaranteed (size_result ps guaranteed any loop)"
proof (cases "sl_best loop")
  case None
  then show ?thesis
    using assms(2) by (simp add: size_result_def sized_def best_of_def reject_size_def Let_def)
next
  case (Some best)
  obtain b st where best: "best = (b, st)"
    by (cases best)
  then obtain q where q: "q \<in> candidates_of ps config" "point_at ps config policy guaranteed q = Some b" "stands_at ps st q"
    and top: "\<forall>q \<in> candidates_of ps config. \<forall>b'. point_at ps config policy guaranteed q = Some b' \<longrightarrow> \<not> better_edge_candidate b' b"
    using assms(2) Some by (auto simp: best_of_def)
  show ?thesis
    using size_result_priced [OF assms(1) Some [unfolded best] q(2,3) candidates_min [OF q(1)], of any] q(1) top
    by (auto simp: sized_def Let_def)
qed

text \<open>
  Any list of quantities gives a payable result, even one that was cached for another book: a quantity below
  the one the evaluation stands at is passed over.
\<close>

lemma evaluate_all_sound:
  fixes ps config policy guaranteed
  defines "point \<equiv> point_at ps config policy guaranteed"
  assumes "\<forall>p \<in> set ps. priced_leg p" "1 \<le> lo"
    and "stands_at ps (sl_state loop) q0" "best_of ps point seen (sl_best loop)" "seen \<subseteq> {lo..}" "\<not> sl_saw_partial_reject loop"
  shows "\<exists>seen' \<subseteq> {lo..}. best_of ps point seen'
    (sl_best (evaluate_all (evaluate_candidate ps config policy lo guaranteed) qs loop))"
  using assms(4-7)
proof (induction qs arbitrary: q0 loop seen)
  case (Cons q qs)
  let ?loop = "evaluate_candidate ps config policy lo guaranteed q loop"
  show ?case
  proof (cases "lo \<le> q \<and> q0 \<le> q")
    case False
    then have "?loop = loop"
      using Cons.prems(1) by (auto simp: evaluate_candidate_def advance_incremental_state_def stands_at_def)
    then show ?thesis
      using Cons.IH [OF Cons.prems] Cons.prems(4) by (simp add: Let_def)
  next
    case True
    then have q: "q0 \<le> q" "0 < q" "lo \<le> q"
      using assms(3) by auto
    note ev = evaluate_candidate_exact [OF assms(2) Cons.prems(1) q Cons.prems(2) [unfolded point_def] Cons.prems(4), folded point_def]
    obtain q1 where q1: "stands_at ps (sl_state ?loop) q1"
      using ev(2) by blast
    have sub: "insert q seen \<subseteq> {lo..}"
      using Cons.prems(3) q(3) by simp
    show ?thesis
    proof (cases "sl_saw_partial_reject ?loop")
      case True
      with ev(1) sub show ?thesis
        by (intro exI [of _ "insert q seen"]) (simp add: Let_def)
    next
      case False
      with Cons.IH [OF q1 ev(1) sub] show ?thesis
        by (simp add: Let_def)
    qed
  qed
qed auto

lemma evaluated_size_sound:
  assumes "\<forall>p \<in> set ps. priced_leg p"
    and "bs_ok (size_result ps guaranteed any (evaluate_all
      (evaluate_candidate ps config policy (effective_min_qty config) guaranteed) qs (initial_loop (length ps))))" (is "bs_ok ?r")
  shows "\<exists>b. priced_result ps config policy guaranteed ?r b"
proof -
  let ?loop = "evaluate_all (evaluate_candidate ps config policy (effective_min_qty config) guaranteed) qs (initial_loop (length ps))"
  have "1 \<le> effective_min_qty config"
    by (simp add: effective_min_qty_def)
  then obtain seen where seen: "seen \<subseteq> {effective_min_qty config..}" "best_of ps (point_at ps config policy guaranteed) seen (sl_best ?loop)"
    using evaluate_all_sound [OF assms(1) _ initial_loop_ready(1,2) _ initial_loop_ready(3), of "effective_min_qty config" config policy guaranteed qs] by auto
  obtain b st where best: "sl_best ?loop = Some (b, st)"
    using assms(2) by (auto simp: size_result_def reject_size_def split: option.splits)
  then obtain q where "q \<in> seen" "point_at ps config policy guaranteed q = Some b" "stands_at ps st q"
    using seen(2) by (auto simp: best_of_def)
  then show ?thesis
    using size_result_priced(3) [OF assms(1) best] seen(1) by blast
qed

lemma cached_size_sound:
  assumes "\<forall>p \<in> set ps. priced_leg p" "bs_ok (size_by_cached ps config policy guaranteed qs)"
  shows "\<exists>b. priced_result ps config policy guaranteed (size_by_cached ps config policy guaranteed qs) b"
  using assms evaluated_size_sound [of ps guaranteed True config policy qs]
  by (auto simp: size_by_cached_def reject_size_def split: if_splits)

lemma streamed_size_sound:
  assumes "\<forall>p \<in> set ps. priced_leg p" "ps \<noteq> []"
    and "size_by_streaming ps config policy guaranteed = Some (streamed, r)" "bs_ok r"
  shows "\<exists>b. priced_result ps config policy guaranteed r b"
  using streaming_is_evaluation [OF assms(1,2), of config policy guaranteed] assms(3,4)
    evaluated_size_sound [OF assms(1)] by auto

lemma total_cost_positive:
  assumes "\<forall>p \<in> set ps. priced_leg p" "ps \<noteq> []" "payable ps m q" "0 < q"
  shows "0 < total_leg_cost ps q"
proof -
  have one: "0 < leg_cost q p" if "p \<in> set ps" for p
  proof -
    have p: "priced_leg p" "0 < pl_ratio p * q" "pl_ratio p * q \<le> depth (leg_side p)" "depth (leg_side p) \<le> i64_max"
      using assms that curve_ofD(5) by (auto simp: payable_def covered_def priced_leg_def takable_totals)
    let ?n = "pl_ratio p * q" and ?S = "leg_side p"
    have n: "?n \<le> i64_max"
      using p(3,4) by linarith
    note h = hit_level_props [OF p(2) n p(3)] hit_level_valid [OF p(2) n p(3)]
    have "0 < price_tick (?S ! hit_level ?S ?n) * (?n - depth (take (hit_level ?S ?n) ?S))"
      using h by simp
    then show ?thesis
      using walk_cost_at_hit [OF p(2) n p(3)] leg_cost_takable [OF p(1)] assms(4)
      by (simp add: add_nonneg_pos)
  qed
  have "0 \<le> total_leg_cost qs q" if "set qs \<subseteq> set ps" for qs
    using that one by (induction qs) (auto intro: add_nonneg_nonneg less_imp_le)
  then show ?thesis
    using assms(2) one by (cases ps) (force simp: add_pos_nonneg)+
qed

subsection \<open>Candidates that were cached\<close>

text \<open>
  What the candidates and the depth margin depend on: the ratio of a leg and the quantities at which its price
  changes, not the prices. A cached set may be used again for legs of the same shape.
\<close>

definition breakpoint_shape :: "PreparedLeg \<Rightarrow> int \<times> int list" where
  "breakpoint_shape p = (pl_ratio p, map cl_cumulative_qty_lots (cv_levels (pl_curve p)))"

lemma shape_depth:
  assumes "priced_leg p"
  shows "depth (view_asks (pl_depth p)) = last (snd (breakpoint_shape p))"
proof -
  let ?S = "takable (view_asks (pl_depth p))" and ?L = "cv_levels (pl_curve p)"
  have curve: "curve_of (view_asks (pl_depth p)) (pl_curve p)" and pos: "0 < depth ?S"
    using assms by (simp_all add: priced_leg_def curve_of_def Let_def takable_totals)
  then have "?S \<noteq> []"
    by auto
  then have n: "length ?S - 1 < length ?S" "?L \<noteq> []"
    using curve_ofD(1) [OF curve] by auto
  have "last (map cl_cumulative_qty_lots ?L) = cl_cumulative_qty_lots (?L ! (length ?S - 1))"
    using n(2) curve_ofD(1) [OF curve] by (simp add: last_map) (simp add: last_conv_nth)
  also have "\<dots> = depth ?S"
    using curve_ofD(3) [OF curve n(1)] \<open>?S \<noteq> []\<close> by simp
  finally show ?thesis
    by (simp add: breakpoint_shape_def takable_totals)
qed

lemma covered_shape:
  assumes "priced_leg p" "priced_leg p'" "breakpoint_shape p = breakpoint_shape p'"
  shows "covered m q p = covered m q p'"
  using shape_depth [OF assms(1)] shape_depth [OF assms(2)] assms(3) by (simp add: covered_def breakpoint_shape_def)

lemma candidates_shape:
  assumes "map breakpoint_shape ps = map breakpoint_shape ps'"
  shows "candidates_of ps config = candidates_of ps' config"
proof -
  have len: "length ps = length ps'"
    using assms map_eq_imp_length_eq by blast
  have shape: "breakpoint_shape (ps ! i) = breakpoint_shape (ps' ! i)" if "i < length ps" for i
    using arg_cong [OF assms, of "\<lambda>xs. xs ! i"] that len by simp
  have levels: "length (cv_levels (pl_curve (ps ! i))) = length (cv_levels (pl_curve (ps' ! i)))" if "i < length ps" for i
    using shape [OF that] map_eq_imp_length_eq unfolding breakpoint_shape_def by blast
  have same: "candidate_at (pl_curve (ps ! i)) (pl_ratio (ps ! i)) m l = candidate_at (pl_curve (ps' ! i)) (pl_ratio (ps' ! i)) m l"
    if "i < length ps" for i m l
  proof -
    have "cl_cumulative_qty_lots (cv_levels (pl_curve (ps ! i)) ! l) = cl_cumulative_qty_lots (cv_levels (pl_curve (ps' ! i)) ! l)"
      if "l < length (cv_levels (pl_curve (ps ! i)))"
      using arg_cong [OF shape [OF \<open>i < length ps\<close>], of "\<lambda>s. snd s ! l"] that levels [OF \<open>i < length ps\<close>]
      by (simp add: breakpoint_shape_def)
    then show ?thesis
      using shape [OF that] levels [OF that] by (auto simp: candidate_at_def breakpoint_shape_def Let_def)
  qed
  have "candidates_of xs config = {q. \<exists>i < length xs. \<exists>l < length (cv_levels (pl_curve (xs ! i))).
      q = candidate_at (pl_curve (xs ! i)) (pl_ratio (xs ! i)) (dc_max_bundle_qty config) l \<and>
      effective_min_qty config \<le> q \<and> q < i64_max}" for xs
    by (simp add: candidates_of_def all_candidates_def enumeration_input_def level_count_def leg_candidate_def
        candidate_within_budget_def cong: conj_cong)
  then show ?thesis
    using len same levels by (simp cong: conj_cong)
qed

text \<open>The array of streamed candidates is large enough for every leg and level.\<close>

definition legs_bounded :: "PreparedLeg list \<Rightarrow> bool" where
  "legs_bounded ps \<longleftrightarrow> ps \<noteq> [] \<and> length ps \<le> kMaxOrderDecisionLegs \<and>
     (\<forall>p \<in> set ps. priced_leg p \<and> length (cv_levels (pl_curve p)) \<le> kMaxCostCurveLevels)"

lemma candidates_card:
  assumes "legs_bounded ps"
  shows "card (candidates_of ps config) \<le> kMaxOrderDecisionCandidates"
proof -
  let ?input = "enumeration_input ps (effective_min_qty config) config"
  let ?R = "{..<length ps} \<times> {..<kMaxCostCurveLevels}"
  have "length (cv_levels (pl_curve (ps ! i))) \<le> kMaxCostCurveLevels" if "i < length ps" for i
    using assms nth_mem [OF that] unfolding legs_bounded_def by blast
  then have "candidates_of ps config \<subseteq> (\<lambda>(leg, l). leg_candidate ?input leg l) ` ?R"
    by (fastforce simp: candidates_of_def all_candidates_def enumeration_input_def level_count_def)
  then have "card (candidates_of ps config) \<le> card ?R"
    by (meson card_image_le card_mono finite_SigmaI finite_imageI finite_lessThan order_trans)
  also have "\<dots> \<le> kMaxOrderDecisionCandidates"
    using assms by (simp add: legs_bounded_def kMaxOrderDecisionCandidates_def card_cartesian_product)
  finally show ?thesis .
qed

lemma evaluate_all_partial:
  fixes ps config policy guaranteed
  defines "point \<equiv> point_at ps config policy guaranteed"
  assumes "\<forall>p \<in> set ps. priced_leg p" "1 \<le> lo" "sorted qs" "\<forall>q \<in> set qs. lo \<le> q \<and> q0 \<le> q"
    and "stands_at ps (sl_state loop) q0" "best_of ps point seen (sl_best loop)" "\<not> sl_saw_partial_reject loop"
    and "sl_saw_partial_reject (evaluate_all (evaluate_candidate ps config policy lo guaranteed) qs loop)"
  shows "\<exists>q \<in> set qs. \<exists>p \<in> set ps. \<not> covered (rp_min_depth_margin_bps policy) q p"
  using assms(4-9)
proof (induction qs arbitrary: q0 loop seen)
  case (Cons q qs)
  let ?loop = "evaluate_candidate ps config policy lo guaranteed q loop"
  have q: "q0 \<le> q" "0 < q" "lo \<le> q" "sorted qs" "\<forall>q' \<in> set qs. lo \<le> q' \<and> q \<le> q'"
    using Cons.prems(1,2) assms(3) by auto
  note ev = evaluate_candidate_exact [OF assms(2) Cons.prems(3) q(1,2,3) Cons.prems(4) [unfolded point_def] Cons.prems(5), folded point_def]
  show ?case
  proof (cases "sl_saw_partial_reject ?loop")
    case True
    then show ?thesis
      using ev(3) by auto
  next
    case False
    obtain q1 where q1: "q1 \<le> q" "stands_at ps (sl_state ?loop) q1"
      using ev(2) by blast
    have "\<forall>q' \<in> set qs. lo \<le> q' \<and> q1 \<le> q'"
      using q(5) q1(1) by fastforce
    from Cons.IH [OF q(4) this q1(2) ev(1) False] Cons.prems(6) show ?thesis
      using False by (auto simp: Let_def)
  qed
qed simp

text \<open>The streamed candidates are all, or they end at one that the depth does not cover.\<close>

definition cut_at_margin :: "PreparedLeg list \<Rightarrow> OrderDecisionConfig \<Rightarrow> int \<Rightarrow> int list \<Rightarrow> bool" where
  "cut_at_margin ps config m qs \<longleftrightarrow>
     (\<exists>post. sorted_list_of_set (candidates_of ps config) = qs @ post \<and>
        (post \<noteq> [] \<longrightarrow> (\<exists>q \<in> set qs. \<exists>p \<in> set ps. \<not> covered m q p)))"

lemma streamed_cut:
  assumes "legs_bounded ps" "size_by_streaming ps config policy guaranteed = Some (streamed, r)"
  shows "cut_at_margin ps config (rp_min_depth_margin_bps policy) streamed"
proof -
  let ?input = "enumeration_input ps (effective_min_qty config) config"
  let ?f = "evaluate_candidate ps config policy (effective_min_qty config) guaranteed"
  have ps: "\<forall>p \<in> set ps. priced_leg p" "ps \<noteq> []"
    using assms(1) by (auto simp: legs_bounded_def)
  note m = mergeable_legs [OF ps, of config]
  have C: "offers ?input (make_cursor ?input) = candidates_of ps config"
    by (simp add: offers_make_cursor candidates_of_def)
  obtain pre post where run: "stream_candidates ?input ?f (make_cursor ?input) [] (initial_loop (length ps)) =
      Some (pre, evaluate_all ?f (sorted_list_of_set (candidates_of ps config)) (initial_loop (length ps)))"
    and split: "sorted_list_of_set (candidates_of ps config) = pre @ post"
    and stop: "post \<noteq> [] \<Longrightarrow> sl_saw_partial_reject (evaluate_all ?f pre (initial_loop (length ps)))"
    by (rule stream_candidates_prefix [OF m make_cursor_ok [OF m], of "[]" ?f "initial_loop (length ps)"])
       (use candidates_card [OF assms(1), of config] in \<open>auto simp: C\<close>)
  have "streamed = pre"
    using assms(2) run by (simp add: size_by_streaming_def Let_def)
  moreover have "sorted pre"
    using sorted_sorted_list_of_set [of "candidates_of ps config"] by (simp add: split sorted_append)
  moreover have "effective_min_qty config \<le> q \<and> 0 \<le> q" if "q \<in> set pre" for q
    using candidates_min [of q ps config] arg_cong [OF split, of set] that by (auto simp: effective_min_qty_def)
  ultimately show ?thesis
    using split stop evaluate_all_partial [OF ps(1) _ _ _ initial_loop_ready, of "effective_min_qty config" pre config policy guaranteed]
    unfolding cut_at_margin_def by (intro exI [of _ post]) (auto simp: effective_min_qty_def)
qed

lemma uncovered_tighter:
  assumes "priced_leg p" "0 \<le> q" "m \<le> m'" "\<not> covered m q p" "10000 < m' \<Longrightarrow> depth (view_asks (pl_depth p)) * m' \<le> i64_max"
  shows "\<not> covered m' q p"
proof
  assume cov: "covered m' q p"
  let ?d = "depth (view_asks (pl_depth p))" and ?n = "pl_ratio p * q"
  have n: "0 \<le> ?n" "?n \<le> ?d"
    using assms(1,2) cov by (simp_all add: priced_leg_def covered_def)
  then have m: "10000 < m" and over: "10000 * ?d < ?n * m"
    using assms(4) by (auto simp: covered_def)
  then have m': "10000 < m'"
    using assms(3) by simp
  have "?n * m' \<le> ?d * m'"
    using n(2) m' by (intro mult_right_mono) auto
  then have "?n * m' \<le> i64_max"
    using assms(5) [OF m'] by linarith
  then have "?n * m' \<le> 10000 * ?d"
    using cov m' by (simp add: covered_def)
  moreover have "?n * m \<le> ?n * m'"
    using n(1) assms(3) by (intro mult_left_mono) auto
  ultimately show False
    using over by linarith
qed

lemma cached_cut_sized:
  assumes "\<forall>p \<in> set ps. priced_leg p" "margin_fits ps (rp_min_depth_margin_bps policy)"
    and "cut_at_margin ps config m qs" "m \<le> rp_min_depth_margin_bps policy"
  shows "sized ps config policy guaranteed (size_by_cached ps config policy guaranteed qs)"
proof -
  let ?point = "point_at ps config policy guaranteed"
  let ?loop = "evaluate_all (evaluate_candidate ps config policy (effective_min_qty config) guaranteed) qs (initial_loop (length ps))"
  obtain post where split: "sorted_list_of_set (candidates_of ps config) = qs @ post"
    and stop: "post \<noteq> [] \<Longrightarrow> \<exists>q \<in> set qs. \<exists>p \<in> set ps. \<not> covered m q p"
    using assms(3) by (auto simp: cut_at_margin_def)
  have C: "candidates_of ps config = set qs \<union> set post"
    using arg_cong [OF split, of set] by simp
  have sorted: "sorted (qs @ post)"
    using sorted_sorted_list_of_set [of "candidates_of ps config"] by (simp only: split)
  have range: "\<forall>q \<in> set qs. effective_min_qty config \<le> q \<and> 0 \<le> q"
    using candidates_min [of _ ps config] C by (fastforce simp: effective_min_qty_def)
  have best: "best_of ps ?point (set qs) (sl_best ?loop)"
    using evaluate_all_exact [OF assms(1,2) _ _ range initial_loop_ready] sorted
    by (simp add: sorted_append effective_min_qty_def)
  have none: "?point q' = None" if q': "q' \<in> set post" for q'
  proof -
    obtain q p where q: "q \<in> set qs" "p \<in> set ps" "\<not> covered m q p"
      using stop q' by fastforce
    then have le: "q \<le> q'" "0 \<le> q"
      using sorted q' range by (auto simp: sorted_append)
    have "\<not> covered (rp_min_depth_margin_bps policy) q p"
      using uncovered_tighter [OF _ le(2) assms(4) q(3)] assms(1,2) q(2) by (auto simp: margin_fits_def)
    then show ?thesis
      using uncovered_later [OF assms(1,2) le(2,1)] q(2) by blast
  qed
  have skip: "best_of ps ?point (B \<union> set xs) b \<longleftrightarrow> best_of ps ?point B b" if "\<forall>x \<in> set xs. ?point x = None" for xs B b
    using that by (induction xs) (auto simp: best_of_skip)
  have "best_of ps ?point (candidates_of ps config) (sl_best ?loop)"
    unfolding C using best skip [of post] none by blast
  note whole = size_result_sized [OF assms(1) this, of True]
  show ?thesis
  proof (cases "qs = []")
    case True
    then have "candidates_of ps config = {}"
      using stop C by auto
    then show ?thesis
      using True by (simp add: size_by_cached_def sized_def reject_size_def)
  next
    case False
    then show ?thesis
      using whole by (simp add: size_by_cached_def)
  qed
qed

lemma cut_at_margin_shape:
  assumes "legs_bounded ps" "legs_bounded ps'" "map breakpoint_shape ps = map breakpoint_shape ps'" "cut_at_margin ps config m qs"
  shows "cut_at_margin ps' config m qs"
proof -
  have len: "length ps = length ps'"
    using assms(3) map_eq_imp_length_eq by blast
  have "\<exists>p' \<in> set ps'. \<not> covered m q p'" if p: "p \<in> set ps" and "\<not> covered m q p" for p q
  proof -
    obtain i where i: "i < length ps" "p = ps ! i"
      using p by (metis in_set_conv_nth)
    have "breakpoint_shape (ps ! i) = breakpoint_shape (ps' ! i)"
      using arg_cong [OF assms(3), of "\<lambda>xs. xs ! i"] i len by simp
    moreover have "priced_leg (ps ! i)" "priced_leg (ps' ! i)" "ps' ! i \<in> set ps'"
      using assms(1,2) i len nth_mem unfolding legs_bounded_def by metis+
    ultimately show ?thesis
      using that(2) i(2) covered_shape by blast
  qed
  then show ?thesis
    using assms(4) candidates_shape [OF assms(3), of config] unfolding cut_at_margin_def by metis
qed

lemma prepare_legs_bounded:
  assumes "prepare_legs intent views i legs = Inr ps" "\<forall>v \<in> set views. length (dv_asks v) = kMaxSnapshotDepth"
    and "legs \<noteq> []" "length legs \<le> kMaxOrderDecisionLegs"
  shows "legs_bounded ps"
proof -
  have "\<forall>p \<in> set ps. length (cv_levels (pl_curve p)) \<le> kMaxCostCurveLevels"
    using assms(1)
  proof (induction legs arbitrary: i ps)
    case (Cons leg legs)
    then obtain p ps' where p: "prepare_leg intent views i leg = Inr p" "prepare_legs intent views (Suc i) legs = Inr ps'" "ps = p # ps'"
      by (auto split: sum.splits)
    note ok = prepare_leg_priced [OF p(1) assms(2)]
    have "length (cv_levels (pl_curve p)) = length (takable (view_asks (pl_depth p)))"
      using ok(1) curve_ofD(1) by (simp add: priced_leg_def)
    also have "\<dots> \<le> length (dv_asks (pl_depth p))"
      unfolding takable_def view_asks_def by (rule order_trans [OF length_filter_le]) simp
    finally have "length (cv_levels (pl_curve p)) \<le> kMaxCostCurveLevels"
      using ok(2) assms(2) by (simp add: kMaxSnapshotDepth_def kMaxCostCurveLevels_def)
    then show ?case
      using Cons.IH [OF p(2)] p(3) by simp
  qed simp
  then show ?thesis
    using prepare_legs_priced [OF assms(1,2)] assms(3,4) by (auto simp: legs_bounded_def)
qed

subsection \<open>When trying the price changes is enough\<close>

text \<open>
  One lot per leg and bundle, no margin, no budget, no upper bound and no threshold but one on the total
  edge; and no overflow at the candidates.
\<close>

definition bundle_buffers :: "OrderDecisionConfig \<Rightarrow> int" where
  "bundle_buffers config = dc_fee_per_bundle_tick config + dc_latency_buffer_per_bundle_tick config +
     dc_slippage_buffer_per_bundle_tick config"

definition edge_of :: "PreparedLeg list \<Rightarrow> OrderDecisionConfig \<Rightarrow> int \<Rightarrow> int \<Rightarrow> int" where
  "edge_of ps config guaranteed q = guaranteed * q - (total_leg_cost ps q + bundle_buffers config * q)"

definition unit_sizing :: "PreparedLeg list \<Rightarrow> OrderDecisionConfig \<Rightarrow> RiskPolicySnapshot \<Rightarrow> bool" where
  "unit_sizing ps config policy \<longleftrightarrow>
     (\<forall>p \<in> set ps. pl_ratio p = 1 \<and> depth (view_asks (pl_depth p)) < i64_max) \<and>
     dc_min_bundle_qty config \<le> 1 \<and> dc_max_bundle_qty config \<le> 0 \<and> 0 \<le> bundle_buffers config \<and>
     rp_min_depth_margin_bps policy \<le> 10000 \<and> rp_max_total_cost_tick policy \<le> 0 \<and>
     0 \<le> rp_min_post_risk_total_edge_tick policy \<and> rp_min_post_risk_unit_edge_tick policy \<le> 0 \<and>
     rp_min_edge_bps policy \<le> 0"

definition computable ::
  "PreparedLeg list \<Rightarrow> OrderDecisionConfig \<Rightarrow> RiskPolicySnapshot \<Rightarrow> int \<Rightarrow> bool" where
  "computable ps config policy guaranteed \<longleftrightarrow>
     (\<forall>q \<in> candidates_of ps config. total_leg_cost ps q \<le> i64_max \<and>
        edge_verdict config policy guaranteed (total_leg_cost ps q) q \<noteq> PointInvalid)"

lemma walk_cost_straight:
  assumes "0 < x" "x < depth S" "depth S \<le> i64_max" "\<forall>i < length S. x \<noteq> depth (take (Suc i) S)"
  shows "walk_cost S (x + 1) - walk_cost S x = walk_cost S x - walk_cost S (x - 1)"
proof -
  let ?i = "hit_level S x"
  have x: "x \<le> i64_max" "x \<le> depth S"
    using assms(2,3) by auto
  note h = hit_level_props [OF assms(1) x]
  have lt: "x < depth (take (Suc ?i) S)"
    using assms(4) h by (auto simp: order.strict_iff_order)
  show ?thesis
    using walk_cost_at_level [OF h(1), of x] walk_cost_at_level [OF h(1), of "x + 1"] walk_cost_at_level [OF h(1), of "x - 1"] h(2) lt
    by (simp add: algebra_simps)
qed

lemma all_candidatesI:
  "leg < se_leg_count input \<Longrightarrow> l < level_count input leg \<Longrightarrow> leg_candidate input leg l = q \<Longrightarrow>
   se_min_bundle_qty input \<le> q \<Longrightarrow> q < i64_max \<Longrightarrow> candidate_within_budget input q \<Longrightarrow> q \<in> all_candidates input"
  by (auto simp: all_candidates_def)

lemma unit_candidates:
  assumes "\<forall>p \<in> set ps. priced_leg p" "unit_sizing ps config policy"
    and "p \<in> set ps" "i < length (leg_side p)"
  shows "depth (take (Suc i) (leg_side p)) \<in> candidates_of ps config"
proof -
  obtain k where k: "k < length ps" "ps ! k = p"
    using assms(3) by (auto simp: in_set_conv_nth)
  have curve: "curve_of (view_asks (pl_depth p)) (pl_curve p)"
    using assms(1,3) by (auto simp: priced_leg_def)
  note cv = curve_ofD [OF curve]
  let ?d = "depth (take (Suc i) (leg_side p))"
  have pos: "0 < ?d"
    using takable_nth [of i "view_asks (pl_depth p)"] assms(4) by (simp add: take_Suc_conv_app_nth add_nonneg_pos)
  have "?d \<le> depth (leg_side p)"
    using depth_take_mono [of "Suc i" "length (leg_side p)" "leg_side p"] assms(4) by simp
  then have lt: "?d < i64_max"
    using assms(2,3) by (fastforce simp: unit_sizing_def takable_totals)
  let ?input = "enumeration_input ps (effective_min_qty config) config"
  have "leg_candidate ?input k i = ?d"
    using k assms(2,3,4) cv(1,3) pos
    by (auto simp: leg_candidate_def candidate_at_def enumeration_input_def unit_sizing_def Let_def sdiv_nonneg)
  moreover have "effective_min_qty config = 1"
    using assms(2) by (simp add: unit_sizing_def effective_min_qty_def)
  ultimately show ?thesis
    unfolding candidates_of_def using k assms(4) cv(1) pos lt
    by (intro all_candidatesI [of k _ i]) (auto simp: enumeration_input_def level_count_def candidate_within_budget_def)
qed

text \<open>Away from the candidates the edge is a straight line, so its largest value is at one of them or at none.\<close>

lemma edge_straight:
  assumes "\<forall>p \<in> set ps. priced_leg p" "unit_sizing ps config policy"
    and "0 < x" "\<forall>p \<in> set ps. x < depth (leg_side p)" "x \<notin> candidates_of ps config"
  shows "edge_of ps config g (x + 1) - edge_of ps config g x = edge_of ps config g x - edge_of ps config g (x - 1)"
proof -
  have leg: "leg_cost (x + 1) p - leg_cost x p = leg_cost x p - leg_cost (x - 1) p" if p: "p \<in> set ps" for p
  proof -
    have priced: "priced_leg p" and one: "pl_ratio p = 1"
      using assms(1,2) p by (auto simp: unit_sizing_def)
    then have "depth (leg_side p) \<le> i64_max"
      using curve_ofD(5) by (auto simp: priced_leg_def)
    moreover have "\<forall>i < length (leg_side p). x \<noteq> depth (take (Suc i) (leg_side p))"
      using unit_candidates [OF assms(1,2) p] assms(5) by blast
    ultimately show ?thesis
      using walk_cost_straight [of x "leg_side p"] assms(3,4) p priced one by (simp add: leg_cost_takable)
  qed
  have "total_leg_cost qs (x + 1) - total_leg_cost qs x = total_leg_cost qs x - total_leg_cost qs (x - 1)"
    if "set qs \<subseteq> set ps" for qs
    using that leg by (induction qs) (auto simp: algebra_simps)
  from this [of ps] show ?thesis
    by (simp add: edge_of_def algebra_simps)
qed

lemma edge_at_candidate:
  assumes "\<forall>p \<in> set ps. priced_leg p" "unit_sizing ps config policy" "ps \<noteq> []"
    and "1 \<le> q" "\<forall>p \<in> set ps. q \<le> depth (leg_side p)"
  shows "edge_of ps config g q \<le> 0 \<or> (\<exists>c \<in> candidates_of ps config. edge_of ps config g q \<le> edge_of ps config g c \<and>
    (\<forall>p \<in> set ps. c \<le> depth (leg_side p)))"
proof -
  define D where "D = Min ((\<lambda>p. depth (leg_side p)) ` set ps)"
  have D: "\<forall>p \<in> set ps. D \<le> depth (leg_side p)" "q \<le> D"
    using assms(3,5) by (auto simp: D_def)
  have "D \<in> (\<lambda>p. depth (leg_side p)) ` set ps"
    unfolding D_def using assms(3) by (intro Min_in) auto
  then obtain pD where pD: "pD \<in> set ps" "D = depth (leg_side pD)"
    by blast
  have "leg_side pD \<noteq> []"
    using assms(4) D(2) pD(2) by auto
  then have top: "D \<in> candidates_of ps config"
    using unit_candidates [OF assms(1,2) pD(1), of "length (leg_side pD) - 1"] pD(2) by simp
  let ?e = "edge_of ps config g"
  let ?M = "Max (?e ` {0..D})"
  have ne: "{0..D} \<noteq> {}"
    using assms(4) D(2) by simp
  have "?M \<in> ?e ` {0..D}"
    using ne by (intro Max_in) auto
  define X where "X = {x \<in> {0..D}. ?e x = ?M}"
  have X: "finite X"
    by (rule finite_subset [of _ "{0..D}"]) (auto simp: X_def)
  have "X \<noteq> {}"
    using \<open>?M \<in> ?e ` {0..D}\<close> by (auto simp: X_def)
  define x where "x = Max X"
  have "x \<in> X"
    unfolding x_def by (rule Max_in [OF X \<open>X \<noteq> {}\<close>])
  then have x: "0 \<le> x" "x \<le> D" "?e x = ?M" by (auto simp: X_def)
  have best: "?e y \<le> ?e x" if "0 \<le> y" "y \<le> D" for y
    using x(3) that by simp
  have last: "?e y < ?e x" if "x < y" "y \<le> D" for y
  proof (rule ccontr)
    assume "\<not> ?e y < ?e x"
    moreover have "?e y \<le> ?e x"
      using best [of y] that x(1) by simp
    ultimately have "?e y = ?e x" by linarith
    from trans [OF this x(3)] have "y \<in> X"
      using that x(1) by (simp add: X_def)
    then have "y \<le> x"
      unfolding x_def by (rule Max_ge [OF X])
    then show False
      using that by simp
  qed
  show ?thesis
  proof (cases "x \<in> candidates_of ps config \<or> x = 0")
    case True
    then show ?thesis
    proof
      assume "x \<in> candidates_of ps config"
      then show ?thesis
        using best [of q] assms(4) D x(2) by force
    next
      assume "x = 0"
      then show ?thesis
        using best [of q] assms(4) D by (simp add: edge_of_def)
    qed
  next
    case False
    then have inner: "0 < x" "x < D"
      using x top by (auto simp: order.strict_iff_order)
    then have "?e (x + 1) - ?e x = ?e x - ?e (x - 1)"
      using edge_straight [OF assms(1,2) inner(1)] D(1) False by fastforce
    then show ?thesis
      using best [of "x - 1"] last [of "x + 1"] inner by simp
  qed
qed

lemma edge_verdict_refused:
  fixes config
  defines "e \<equiv> \<lambda>cost g q. g * q - (cost + bundle_buffers config * q)"
  shows "edge_verdict config policy g cost q = PointLowEdge \<Longrightarrow>
      \<not> passes_edge_thresholds (e cost g q sdiv q) (e cost g q) (ratio_bps (e cost g q) (cost + bundle_buffers config * q)) policy"
    and "edge_verdict config policy g cost q = PointOverBudget \<Longrightarrow> 0 < rp_max_total_cost_tick policy"
proof -
  have sum: "cost + dc_fee_per_bundle_tick config * q + dc_latency_buffer_per_bundle_tick config * q +
    dc_slippage_buffer_per_bundle_tick config * q = cost + bundle_buffers config * q"
    by (simp add: bundle_buffers_def algebra_simps)
  show "edge_verdict config policy g cost q = PointLowEdge \<Longrightarrow>
      \<not> passes_edge_thresholds (e cost g q sdiv q) (e cost g q) (ratio_bps (e cost g q) (cost + bundle_buffers config * q)) policy"
    and "edge_verdict config policy g cost q = PointOverBudget \<Longrightarrow> 0 < rp_max_total_cost_tick policy"
    unfolding edge_verdict_def e_def by (auto simp: sum Let_def split: option.splits if_splits)
qed

lemma ratio_bps_nonneg: "0 \<le> n \<Longrightarrow> 0 \<le> d \<Longrightarrow> 0 \<le> ratio_bps n d"
proof (cases "d = 0")
  case False
  assume "0 \<le> n" "0 \<le> d"
  with False have "0 \<le> (n * 10000) sdiv d"
    by (simp add: sdiv_nonneg pos_imp_zdiv_nonneg_iff)
  with False show ?thesis
    by (simp add: ratio_bps_def Let_def i64_bounds)
qed (simp add: ratio_bps_def i64_bounds)

lemma unit_point:
  assumes "\<forall>p \<in> set ps. priced_leg p" "unit_sizing ps config policy" "computable ps config policy g"
    and "c \<in> candidates_of ps config" "\<forall>p \<in> set ps. c \<le> depth (leg_side p)"
    and "0 \<le> edge_of ps config g c" "rp_min_post_risk_total_edge_tick policy \<le> edge_of ps config g c"
  obtains b where "point_at ps config policy g c = Some b" "ep_total_edge_tick b = edge_of ps config g c"
proof -
  have c: "0 < c"
    using candidates_min [OF assms(4)] by (simp add: effective_min_qty_def)
  have fits: "total_leg_cost ps c \<le> i64_max" "edge_verdict config policy g (total_leg_cost ps c) c \<noteq> PointInvalid"
    using assms(3,4) by (auto simp: computable_def)
  have pay: "payable ps (rp_min_depth_margin_bps policy) c"
    using assms(2,5) fits by (auto simp: payable_def covered_def unit_sizing_def takable_totals)
  have cost: "0 \<le> total_leg_cost ps c + bundle_buffers config * c"
    using total_leg_cost_nonneg [OF assms(1), of c] assms(2) c by (simp add: unit_sizing_def)
  have "passes_edge_thresholds (edge_of ps config g c sdiv c) (edge_of ps config g c)
    (ratio_bps (edge_of ps config g c) (total_leg_cost ps c + bundle_buffers config * c)) policy"
    using assms(2,6,7) c ratio_bps_nonneg [OF assms(6) cost]
    by (auto simp: passes_edge_thresholds_def unit_sizing_def sdiv_nonneg pos_imp_zdiv_nonneg_iff intro: order_trans [of _ 0])
  then obtain b where "edge_verdict config policy g (total_leg_cost ps c) c = PointAccepted b"
    using edge_verdict_refused [of config policy g "total_leg_cost ps c" c] fits(2) assms(2)
    by (cases "edge_verdict config policy g (total_leg_cost ps c) c") (auto simp: edge_of_def unit_sizing_def)
  then show ?thesis
    using that pay edge_verdict_accepted [of config policy g "total_leg_cost ps c" c b]
    by (simp add: point_at_def edge_of_def bundle_buffers_def)
qed

lemma unit_sizing_best:
  assumes "\<forall>p \<in> set ps. priced_leg p" "unit_sizing ps config policy" "computable ps config policy g" "ps \<noteq> []"
    and "sized ps config policy g r" "1 \<le> q" "\<forall>p \<in> set ps. q \<le> depth (leg_side p)"
  shows "if bs_ok r then edge_of ps config g q \<le> bs_total_edge_tick r
    else edge_of ps config g q \<le> 0 \<or> edge_of ps config g q < rp_min_post_risk_total_edge_tick policy"
proof -
  let ?e = "edge_of ps config g"
  have "(\<exists>c \<in> candidates_of ps config. \<exists>b. point_at ps config policy g c = Some b \<and> ?e q \<le> ep_total_edge_tick b)"
    if pos: "0 < ?e q" "rp_min_post_risk_total_edge_tick policy \<le> ?e q"
  proof -
    obtain c where c: "c \<in> candidates_of ps config" "?e q \<le> ?e c" "\<forall>p \<in> set ps. c \<le> depth (leg_side p)"
      using edge_at_candidate [OF assms(1,2,4,6,7), of g] pos(1) by fastforce
    have "0 \<le> ?e c" "rp_min_post_risk_total_edge_tick policy \<le> ?e c"
      using c(2) pos by auto
    then show ?thesis
      using unit_point [OF assms(1-3) c(1,3)] c(1,2) by metis
  qed
  note attained = this
  show ?thesis
  proof (cases "bs_ok r")
    case True
    then obtain b where b: "point_at ps config policy g (bs_best_bundle_qty r) = Some b" "bs_total_edge_tick r = ep_total_edge_tick b"
      and top: "\<forall>c \<in> candidates_of ps config. \<forall>b'. point_at ps config policy g c = Some b' \<longrightarrow> \<not> better_edge_candidate b' b"
      using assms(5) by (auto simp: sized_def priced_result_def Let_def)
    have "edge_verdict config policy g (total_leg_cost ps (bs_best_bundle_qty r)) (bs_best_bundle_qty r) = PointAccepted b"
      using point_at_accepted [OF b(1)] by blast
    then have low: "rp_min_post_risk_total_edge_tick policy \<le> ep_total_edge_tick b" "0 \<le> rp_min_post_risk_total_edge_tick policy"
      using edge_verdict_accepted assms(2) by (fastforce simp: passes_edge_thresholds_def unit_sizing_def)+
    have "?e q \<le> ep_total_edge_tick b"
    proof (rule ccontr)
      assume "\<not> ?e q \<le> ep_total_edge_tick b"
      then obtain c b' where "c \<in> candidates_of ps config" "point_at ps config policy g c = Some b'"
        "ep_total_edge_tick b < ep_total_edge_tick b'"
        using attained low by fastforce
      then show False
        using top by (auto simp: better_edge_candidate_def)
    qed
    then show ?thesis
      using True b(2) by simp
  next
    case False
    then show ?thesis
      using attained assms(5) by (fastforce simp: sized_def Let_def)
  qed
qed

subsection \<open>The optimizer on prepared legs\<close>

text \<open>
  C10: sizing_unit: With one lot per leg and bundle, no margin and no limit but a threshold on the total
  edge, and no overflow at the price changes, the optimizer returns, and no quantity that the depth covers
  has a larger edge than the size it chose; where it refuses, every covered quantity has no positive edge or
  one below the threshold. So trying only the quantities where some leg changes its price loses nothing.
\<close>
theorem unit_sizing_optimal:
  assumes "prepare_legs intent views 0 legs = Inr ps" "legs \<noteq> []" "\<forall>v \<in> set views. length (dv_asks v) = kMaxSnapshotDepth"
    and "unit_sizing ps config policy" "computable ps config policy g"
  shows "\<exists>streamed r. size_by_streaming ps config policy g = Some (streamed, r) \<and>
    (\<forall>q. 1 \<le> q \<and> (\<forall>p \<in> set ps. q \<le> depth (view_asks (pl_depth p))) \<longrightarrow>
      (if bs_ok r then edge_of ps config g q \<le> bs_total_edge_tick r
       else edge_of ps config g q \<le> 0 \<or> edge_of ps config g q < rp_min_post_risk_total_edge_tick policy))"
proof -
  have ps: "\<forall>p \<in> set ps. priced_leg p" "ps \<noteq> []"
    using prepare_legs_priced [OF assms(1,3)] assms(2) by auto
  have "margin_fits ps (rp_min_depth_margin_bps policy)"
    using assms(4) by (simp add: margin_fits_def unit_sizing_def)
  from size_result_sized [OF ps(1) best_evaluated [OF ps(1) this]] streaming_is_evaluation [OF ps, of config policy g]
  obtain streamed r where r: "size_by_streaming ps config policy g = Some (streamed, r)" "sized ps config policy g r"
    by blast
  show ?thesis
    using r(1) unit_sizing_best [OF ps(1) assms(4,5) ps(2) r(2)] by (auto simp: takable_totals)
qed

text \<open>
  C12: sizing_cached: The candidates enumerated as a set and evaluated from a cache give the result of
  streaming them from the cursor, and both evaluations return.
\<close>
theorem cached_sizing_agrees:
  assumes "prepare_legs intent views 0 legs = Inr ps" "legs \<noteq> []" "\<forall>v \<in> set views. length (dv_asks v) = kMaxSnapshotDepth"
  shows "\<exists>candidates streamed.
    enumerate_candidates (enumeration_input ps (effective_min_qty config) config) = Some candidates \<and>
    size_by_streaming ps config policy g = Some (streamed, size_by_cached ps config policy g candidates)"
proof -
  have ps: "\<forall>p \<in> set ps. priced_leg p" "ps \<noteq> []"
    using prepare_legs_priced [OF assms(1,3)] assms(2) by auto
  have "size_result ps g False (initial_loop (length ps)) = reject_size OrderDecisionType.RejectNoDepth"
    by (simp add: size_result_def initial_loop_def)
  then show ?thesis
    using streaming_is_evaluation [OF ps, of config policy g]
      enumerate_candidates_exact [OF mergeable_legs [OF ps, of config], folded candidates_of_def]
    by (cases "candidates_of ps config = {}") (auto simp: size_by_cached_def)
qed

text \<open>A bundle of one leg on a book with two prices.\<close>

definition sample_sizing_view :: MarketDepthView where
  "sample_sizing_view =
     \<lparr>dv_asset_index = 1, dv_book_version = 1, dv_snapshot_version_hash = 1, dv_last_ws_recv_ns = 1,
      dv_usable_for_depth = True, dv_recovering = False, dv_crossed = False, dv_closed = False,
      dv_resolved = False, dv_bid_count = 0, dv_ask_count = 2, dv_bids = [], dv_asks = sample_asks,
      dv_prefix = build_depth_prefix [] 0 sample_asks 2\<rparr>"

definition sample_bundle_leg :: BundleLeg where
  "sample_bundle_leg = \<lparr>bg_market_id = ''m'', bg_asset_id = ''a'', bg_side = Buy, bg_quantity_lots = 1, bg_max_price_tick = 0\<rparr>"

definition sample_prepared :: PreparedLeg where
  "sample_prepared = \<lparr>pl_ratio = 1, pl_asset_index = 1, pl_depth = sample_sizing_view,
     pl_curve = \<lparr>cv_market_id = ''m'', cv_asset_id = ''a'', cv_asset_index = 1, cv_side = Buy,
       cv_levels = [\<lparr>cl_price_tick = 10, cl_size_lots = 5, cl_cumulative_qty_lots = 5, cl_cumulative_cost_tick = 50\<rparr>,
         \<lparr>cl_price_tick = 20, cl_size_lots = 7, cl_cumulative_qty_lots = 12, cl_cumulative_cost_tick = 190\<rparr>],
       cv_total_qty_lots = 12\<rparr>\<rparr>"

lemma view_asks_sample: "view_asks sample_sizing_view = [sample_level 10 5, sample_level 20 7]"
  by (simp add: view_asks_def sample_sizing_view_def sample_asks_def)

lemma sample_price: "price_tick (sample_level tick sz) = tick"
  by (simp add: sample_level_def)

lemma sample_sizes: "price_level_size_lots (sample_level 10 5) = 5" "price_level_size_lots (sample_level 20 7) = 7"
  by (simp_all add: sample_level_def price_level_size_lots_def)

lemma prepare_sample: "prepare_legs sample_intent [sample_sizing_view] 0 [sample_bundle_leg] = Inr [sample_prepared]"
proof -
  have "curve_loop (view_asks sample_sizing_view) 0 0 kMaxCostCurveLevels = Some (cv_levels (pl_curve sample_prepared), 12)"
    by (simp add: view_asks_sample sample_sizes sample_price kMaxCostCurveLevels_def checked_mul_i64_def checked_add_i64_def
        i64_bounds sample_prepared_def)
  then have curve: "build_buy_curve (Some sample_bundle_leg) (Some sample_sizing_view) 1 = Inr (pl_curve sample_prepared)"
    by (simp add: build_buy_curve_def sample_bundle_leg_def sample_prepared_def) (simp add: sample_sizing_view_def)
  have view: "sizing_depth_view [sample_sizing_view] 1 0 = Some sample_sizing_view" "depth_flags_usable sample_sizing_view"
    "dv_asset_index sample_sizing_view = 1"
    by (simp_all add: sizing_depth_view_def depth_flags_usable_def sample_sizing_view_def)
  have leg: "intent_leg_at sample_intent 0 = Some sample_leg" "il_asset_index sample_leg = 1"
    by (simp_all add: intent_leg_at_def sample_intent_def sample_leg_def)
  have "ratio_for_leg sample_bundle_leg (Some sample_leg) = 1" "bg_side sample_bundle_leg = Buy"
    by (simp_all add: ratio_for_leg_def sample_bundle_leg_def)
  then show ?thesis
    using curve view leg by (simp add: prepare_leg_def Let_def) (simp add: sample_prepared_def)
qed

lemma candidates_sample: "candidates_of [sample_prepared] default_decision_config \<subseteq> {5, 12}"
  by (auto simp: candidates_of_def all_candidates_def enumeration_input_def level_count_def leg_candidate_def
      candidate_at_def sample_prepared_def default_decision_config_def effective_min_qty_def less_Suc_eq_0_disj sdiv_nonneg Let_def
      split: if_splits)

lemma sample_leg_costs: "total_leg_cost [sample_prepared] 5 = 50" "total_leg_cost [sample_prepared] 12 = 190"
  by (simp_all add: total_leg_cost_def leg_cost_def sample_prepared_def view_asks_sample lots_sample sample_price)

definition marginless_policy :: RiskPolicySnapshot where
  "marginless_policy = default_policy\<lparr>rp_min_depth_margin_bps := 10000\<rparr>"

lemma sample_computable: "computable [sample_prepared] default_decision_config marginless_policy 25"
proof -
  have "edge_verdict default_decision_config marginless_policy 25 50 5 \<noteq> PointInvalid"
    "edge_verdict default_decision_config marginless_policy 25 190 12 \<noteq> PointInvalid"
    by (simp_all add: edge_verdict_def default_decision_config_def marginless_policy_def default_policy_def
        checked_mul_i64_def checked_add_i64_def checked_sub_i64_def i64_bounds Let_def)
  then have "total_leg_cost [sample_prepared] q \<le> i64_max \<and>
    edge_verdict default_decision_config marginless_policy 25 (total_leg_cost [sample_prepared] q) q \<noteq> PointInvalid"
    if "q = 5 \<or> q = 12" for q
    using that sample_leg_costs i64_bounds by (elim disjE) (simp_all del: total_leg_cost_simps)
  then show ?thesis
    using candidates_sample unfolding computable_def by blast
qed

lemma sample_unit: "unit_sizing [sample_prepared] default_decision_config marginless_policy"
  by (simp add: unit_sizing_def sample_prepared_def view_asks_sample lots_sample bundle_buffers_def default_decision_config_def
      marginless_policy_def default_policy_def i64_bounds)

theorem unit_sizing_optimal_witness:
  "\<exists>streamed r. size_by_streaming [sample_prepared] default_decision_config marginless_policy 25 = Some (streamed, r) \<and>
     bs_ok r \<and> 110 \<le> bs_total_edge_tick r"
proof -
  have "length (dv_asks sample_sizing_view) = kMaxSnapshotDepth"
    by (simp add: sample_sizing_view_def length_sample_asks)
  then obtain streamed r where r: "size_by_streaming [sample_prepared] default_decision_config marginless_policy 25 = Some (streamed, r)"
    and all: "\<forall>q. 1 \<le> q \<and> (\<forall>p \<in> set [sample_prepared]. q \<le> depth (view_asks (pl_depth p))) \<longrightarrow>
      (if bs_ok r then edge_of [sample_prepared] default_decision_config 25 q \<le> bs_total_edge_tick r
       else edge_of [sample_prepared] default_decision_config 25 q \<le> 0 \<or>
         edge_of [sample_prepared] default_decision_config 25 q < rp_min_post_risk_total_edge_tick marginless_policy)"
    using unit_sizing_optimal [OF prepare_sample _ _ sample_unit sample_computable] by auto
  have "edge_of [sample_prepared] default_decision_config 25 12 = 110"
    by (simp only: edge_of_def sample_leg_costs) (simp add: bundle_buffers_def default_decision_config_def)
  moreover have "12 \<le> depth (view_asks (pl_depth sample_prepared))"
    by (simp add: sample_prepared_def view_asks_sample lots_sample)
  ultimately show ?thesis
    using r all [THEN spec, of 12] by (auto simp: marginless_policy_def default_policy_def split: if_splits)
qed

theorem cached_sizing_agrees_witness:
  "\<exists>candidates streamed.
     enumerate_candidates (enumeration_input [sample_prepared] 1 default_decision_config) = Some candidates \<and>
     size_by_streaming [sample_prepared] default_decision_config default_policy 25 =
       Some (streamed, size_by_cached [sample_prepared] default_decision_config default_policy 25 candidates)"
proof -
  have "length (dv_asks sample_sizing_view) = kMaxSnapshotDepth"
    by (simp add: sample_sizing_view_def length_sample_asks)
  moreover have "effective_min_qty default_decision_config = 1"
    by (simp add: effective_min_qty_def default_decision_config_def)
  ultimately show ?thesis
    using cached_sizing_agrees [OF prepare_sample, of default_decision_config default_policy 25] by simp
qed

end
