(* ===== verification/OrderDecisions.thy ===== *)
theory OrderDecisions
  imports SizeOptimality RiskReprice
begin

section \<open>Order decisions\<close>

text \<open>
  \<open>engine/order_decision/core\<close>: the cache of fixed shapes, candidate sets, leg costs and decisions, the
  optimizer with this cache, the two implementations of a decision and \<open>OrderDecisionEngine\<close>. An
  \<open>unordered_map\<close> is a partial map, a null cache is \<open>None\<close>; the hashers of the keys choose only buckets and
  are left out, as are clock readings and statistics. A decision is an option because the cursor of the
  optimizer is one; lemmas show that every decision returns.

  Lemmas: the optimizer returns the best candidate or the reason of the leg that is unusable; every cached
  candidate set was streamed for an earlier call and ends at the latest where its depth margin failed; a decision of
  either implementation carries the hashes of its intent and policy, the hash of its own fields, limits no
  lower than its worst prices, and respects the policy; what the cache remembers was decided for the same key.
\<close>

subsection \<open>OrderDecisionCache\<close>

record FixedShapeOrderDecisionSpec =
  fs_spec_hash :: u64
  fs_bundle_id :: u64
  fs_oracle_artifact_hash :: u64
  fs_bundle_hash :: u64
  fs_constraint_hash :: u64
  fs_leg_count :: nat
  fs_asset_indices :: "u32 list"
  fs_market_indices :: "u32 list"
  fs_sides :: "Side list"
  fs_ratio_qty_lots :: "i64 list"
  fs_guaranteed_payout_per_bundle_tick :: i64
  fs_min_unit_edge_tick :: i64
  fs_min_total_edge_tick :: i64
  fs_min_edge_bps :: i64
  fs_min_bundle_qty :: i64

record CandidateSetKey =
  ck_bundle_id :: u64
  ck_bundle_hash :: u64
  ck_depth_breakpoint_signature :: u64
  ck_config_hash :: u64

record CandidateSet =
  ca_candidate_set_hash :: u64
  ca_q_values :: "i64 list"

record LegCostKey =
  lk_candidate_set_hash :: u64
  lk_leg_index :: nat
  lk_asset_index :: u32
  lk_book_version :: u64
  lk_snapshot_version_hash :: u64
  lk_depth_price_signature :: u64
  lk_q :: i64
  lk_ratio_qty_lots :: i64
  lk_use_prefix_vwap :: bool

record DecisionMemoKey =
  mk_bundle_id :: u64
  mk_bundle_hash :: u64
  mk_snapshot_version_hash :: u64
  mk_policy_hash :: u64
  mk_source_intent_id :: u64
  mk_intent_expires_at_ns :: u64
  mk_now_ns :: u64
  mk_config_hash :: u64

record OrderDecisionCache =
  oc_specs :: "u64 \<rightharpoonup> FixedShapeOrderDecisionSpec"
  oc_candidate_sets :: "CandidateSetKey \<rightharpoonup> CandidateSet"
  oc_leg_costs :: "LegCostKey \<rightharpoonup> CostForQuantityResult"
  oc_decisions :: "DecisionMemoKey \<rightharpoonup> OrderDecisionLite"

definition empty_cache :: OrderDecisionCache where
  "empty_cache =
     \<lparr>oc_specs = Map.empty, oc_candidate_sets = Map.empty, oc_leg_costs = Map.empty, oc_decisions = Map.empty\<rparr>"

definition clear_cache :: "OrderDecisionCache \<Rightarrow> OrderDecisionCache" where
  "clear_cache cache =
     cache\<lparr>oc_specs := Map.empty, oc_candidate_sets := Map.empty, oc_leg_costs := Map.empty,
       oc_decisions := Map.empty\<rparr>"

definition mix_spec_leg :: "OpportunityIntent \<Rightarrow> u64 \<Rightarrow> nat \<times> BundleLeg \<Rightarrow> u64" where
  "mix_spec_leg intent hash il =
     (case il of (i, leg) \<Rightarrow>
        (let hash = mix_i64 (bg_quantity_lots leg) (fnv_u64 (side_code (bg_side leg)) hash);
             hash = (if oi_leg_count intent > i then fnv_u64 (ucast (il_asset_index (oi_legs intent ! i))) hash
                     else hash)
         in fnv_string (bg_asset_id leg) (fnv_string (bg_market_id leg) hash)))"

definition spec_cache_key :: "OpportunityIntent \<Rightarrow> CandidateBundle \<Rightarrow> u64" where
  "spec_cache_key intent bundle =
     nonzero_hash
      (foldl (mix_spec_leg intent)
        (fnv_u64 (of_nat (cb_leg_count bundle))
        (fnv_u64 (oi_constraint_hash intent)
        (fnv_u64 (oi_oracle_artifact_hash intent)
        (fnv_u64 (oi_bundle_hash intent)
        (fnv_u64 (cb_bundle_id bundle) fnv_offset)))))
        (List.enumerate 0 (bundle_legs bundle)))"

definition hash_candidate_set :: "CandidateSetKey \<Rightarrow> i64 list \<Rightarrow> u64" where
  "hash_candidate_set key q_values =
     nonzero_hash
      (foldl (\<lambda>hash q. mix_i64 q hash)
        (fnv_u64 (of_nat (length q_values))
        (fnv_u64 (ck_config_hash key)
        (fnv_u64 (ck_depth_breakpoint_signature key)
        (fnv_u64 (ck_bundle_hash key)
        (fnv_u64 (ck_bundle_id key) fnv_offset))))) q_values)"

text \<open>\<open>guaranteed_per_bundle\<close> of the optimizer is written again here, and the ratio of a leg.\<close>

definition spec_ratio :: "OpportunityIntent \<Rightarrow> nat \<times> BundleLeg \<Rightarrow> i64" where
  "spec_ratio intent il =
     (case il of (i, leg) \<Rightarrow>
        if oi_leg_count intent > i \<and> il_quantity_lots (oi_legs intent ! i) > 0 \<and> bg_quantity_lots leg \<le> 0
        then il_quantity_lots (oi_legs intent ! i)
        else if bg_quantity_lots leg > 0 then bg_quantity_lots leg else 1)"

definition spec_asset_index :: "OpportunityIntent \<Rightarrow> nat \<Rightarrow> u32" where
  "spec_asset_index intent i = (if oi_leg_count intent > i then il_asset_index (oi_legs intent ! i) else 0)"

definition spec_hash_of :: "FixedShapeOrderDecisionSpec \<Rightarrow> u64" where
  "spec_hash_of spec =
     nonzero_hash
      (foldl (\<lambda>hash i.
          mix_i64 (fs_ratio_qty_lots spec ! i)
            (fnv_u64 (side_code (fs_sides spec ! i))
            (fnv_u64 (ucast (fs_market_indices spec ! i))
            (fnv_u64 (ucast (fs_asset_indices spec ! i)) hash))))
        (mix_i64 (fs_min_bundle_qty spec)
        (mix_i64 (fs_min_edge_bps spec)
        (mix_i64 (fs_min_total_edge_tick spec)
        (mix_i64 (fs_min_unit_edge_tick spec)
        (mix_i64 (fs_guaranteed_payout_per_bundle_tick spec)
        (fnv_u64 (of_nat (fs_leg_count spec))
        (fnv_u64 (fs_constraint_hash spec)
        (fnv_u64 (fs_bundle_hash spec)
        (fnv_u64 (fs_oracle_artifact_hash spec)
        (fnv_u64 (fs_bundle_id spec) fnv_offset))))))))))
        [0..<fs_leg_count spec])"

definition build_spec :: "OpportunityIntent \<Rightarrow> CandidateBundle \<Rightarrow> FixedShapeOrderDecisionSpec" where
  "build_spec intent bundle =
     (let n = min (cb_leg_count bundle) kMaxOrderDecisionLegs; legs = take n (cb_legs bundle);
          spec =
            \<lparr>fs_spec_hash = 0, fs_bundle_id = cb_bundle_id bundle,
             fs_oracle_artifact_hash = oi_oracle_artifact_hash intent, fs_bundle_hash = oi_bundle_hash intent,
             fs_constraint_hash = oi_constraint_hash intent, fs_leg_count = n,
             fs_asset_indices = map (spec_asset_index intent) [0..<n], fs_market_indices = replicate n 0,
             fs_sides = map bg_side legs, fs_ratio_qty_lots = map (spec_ratio intent) (List.enumerate 0 legs),
             fs_guaranteed_payout_per_bundle_tick = guaranteed_per_bundle intent bundle,
             fs_min_unit_edge_tick = oi_min_edge_tick intent, fs_min_total_edge_tick = oi_min_edge_tick intent,
             fs_min_edge_bps = 0,
             fs_min_bundle_qty = (if oi_bundle_qty intent > 0 then oi_bundle_qty intent else 1)\<rparr>
      in spec\<lparr>fs_spec_hash := spec_hash_of spec\<rparr>)"

definition fixed_shape_spec ::
  "OpportunityIntent \<Rightarrow> CandidateBundle \<Rightarrow> OrderDecisionCache
     \<Rightarrow> FixedShapeOrderDecisionSpec \<times> OrderDecisionCache" where
  "fixed_shape_spec intent bundle cache =
     (let key = spec_cache_key intent bundle in
      case oc_specs cache key of
        Some existing \<Rightarrow> (existing, cache)
      | None \<Rightarrow>
          (let spec = build_spec intent bundle in (spec, cache\<lparr>oc_specs := (oc_specs cache)(key \<mapsto> spec)\<rparr>)))"

definition store_candidate_set ::
  "CandidateSetKey \<Rightarrow> i64 list \<Rightarrow> OrderDecisionCache \<Rightarrow> OrderDecisionCache" where
  "store_candidate_set key q_values cache =
     (let qs = take kMaxOrderDecisionCandidates q_values in
      cache\<lparr>oc_candidate_sets := (oc_candidate_sets cache)
        (key \<mapsto> \<lparr>ca_candidate_set_hash = hash_candidate_set key qs, ca_q_values = qs\<rparr>)\<rparr>)"

definition find_leg_cost :: "LegCostKey \<Rightarrow> OrderDecisionCache \<Rightarrow> CostForQuantityResult option" where
  "find_leg_cost key cache = oc_leg_costs cache key"

definition store_leg_cost ::
  "LegCostKey \<Rightarrow> CostForQuantityResult \<Rightarrow> OrderDecisionCache \<Rightarrow> OrderDecisionCache" where
  "store_leg_cost key result cache = cache\<lparr>oc_leg_costs := (oc_leg_costs cache)(key \<mapsto> result)\<rparr>"

definition store_decision ::
  "DecisionMemoKey \<Rightarrow> OrderDecisionLite \<Rightarrow> OrderDecisionCache \<Rightarrow> OrderDecisionCache" where
  "store_decision key decision cache = cache\<lparr>oc_decisions := (oc_decisions cache)(key \<mapsto> decision)\<rparr>"

definition impl_mode_code :: "OrderDecisionImplMode \<Rightarrow> u64" where
  "impl_mode_code mode = (case mode of Generic \<Rightarrow> 0 | FastFixedShape \<Rightarrow> 1)"

definition bool_code :: "bool \<Rightarrow> u64" where
  "bool_code b = (if b then 1 else 0)"

definition order_decision_config_hash :: "OrderDecisionConfig \<Rightarrow> u64" where
  "order_decision_config_hash config =
     nonzero_hash
      (fnv_u64 (bool_code (dc_debug_compare_prefix_vs_linear config))
      (fnv_u64 (bool_code (dc_use_prefix_vwap config))
      (fnv_u64 (dc_default_ttl_ns config)
      (mix_i64 (dc_max_allowed_price_tick config)
      (mix_i64 (dc_price_protection_buffer_tick config)
      (mix_i64 (dc_slippage_buffer_per_bundle_tick config)
      (mix_i64 (dc_latency_buffer_per_bundle_tick config)
      (mix_i64 (dc_fee_per_bundle_tick config)
      (mix_i64 (dc_max_bundle_qty config)
      (mix_i64 (dc_min_bundle_qty config)
      (fnv_u64 (bool_code (dc_fast_fixed_shape_fallback_to_generic config))
      (fnv_u64 (impl_mode_code (dc_impl_mode config)) fnv_offset))))))))))))"

definition mix_breakpoints :: "u64 \<Rightarrow> nat \<times> PreparedLeg \<Rightarrow> u64" where
  "mix_breakpoints hash ip =
     (case ip of (i, p) \<Rightarrow>
        (let view = pl_depth p; prefix = dv_prefix view; n = ask_count prefix;
             hash = mix_i64 (pl_ratio p) (fnv_u64 (of_nat i) hash);
             hash = fnv_u64 (of_nat (dv_ask_count view)) (fnv_u64 (ucast (dv_asset_index view)) hash);
             hash = (if n > 0 then foldl (\<lambda>h q. mix_i64 q h) (fnv_u64 (of_nat n) hash) (take n (ask_cum_qty prefix))
                     else hash);
             levels = cv_levels (pl_curve p)
         in foldl (\<lambda>h l. mix_i64 (cl_cumulative_qty_lots l) h) (fnv_u64 (of_nat (length levels)) hash) levels))"

definition depth_breakpoint_signature :: "PreparedLeg list \<Rightarrow> u64" where
  "depth_breakpoint_signature legs =
     nonzero_hash (foldl mix_breakpoints (fnv_u64 (of_nat (length legs)) fnv_offset) (List.enumerate 0 legs))"

definition depth_price_signature :: "MarketDepthView \<Rightarrow> u64" where
  "depth_price_signature view =
     nonzero_hash
      (foldl (\<lambda>h l. mix_i64 (price_level_size_lots l) (mix_i64 (price_tick l) h))
        (fnv_u64 (of_nat (dv_ask_count view))
        (fnv_u64 (dv_snapshot_version_hash view)
        (fnv_u64 (dv_book_version view)
        (fnv_u64 (ucast (dv_asset_index view)) fnv_offset))))
        (take (min (dv_ask_count view) kMaxSnapshotDepth) (dv_asks view)))"

definition make_candidate_set_key ::
  "OpportunityIntent \<Rightarrow> CandidateBundle \<Rightarrow> u64 \<Rightarrow> OrderDecisionConfig \<Rightarrow> CandidateSetKey" where
  "make_candidate_set_key intent bundle breakpoint_signature config =
     \<lparr>ck_bundle_id = cb_bundle_id bundle, ck_bundle_hash = oi_bundle_hash intent,
      ck_depth_breakpoint_signature = breakpoint_signature,
      ck_config_hash =
        nonzero_hash (mix_i64 (dc_max_bundle_qty config) (mix_i64 (dc_min_bundle_qty config) fnv_offset))\<rparr>"

definition make_decision_memo_key ::
  "OpportunityIntent \<Rightarrow> CandidateBundle \<Rightarrow> RiskPolicySnapshot \<Rightarrow> OrderDecisionConfig \<Rightarrow> u64 \<Rightarrow> DecisionMemoKey" where
  "make_decision_memo_key intent bundle policy config now_ns =
     \<lparr>mk_bundle_id = cb_bundle_id bundle, mk_bundle_hash = oi_bundle_hash intent,
      mk_snapshot_version_hash = oi_snapshot_version_hash intent, mk_policy_hash = policy_hash_for policy,
      mk_source_intent_id = oi_intent_id intent, mk_intent_expires_at_ns = oi_expires_at_ns intent,
      mk_now_ns = now_ns, mk_config_hash = order_decision_config_hash config\<rparr>"

subsection \<open>The optimizer with its cache\<close>

definition optimize ::
  "OpportunityIntent \<Rightarrow> CandidateBundle \<Rightarrow> MarketDepthView list \<Rightarrow> RiskPolicySnapshot \<Rightarrow> OrderDecisionConfig
     \<Rightarrow> OrderDecisionCache option \<Rightarrow> (BundleSizeResult \<times> OrderDecisionCache option) option" where
  "optimize intent bundle depth_views policy config cache =
     (if cb_leg_count bundle = 0 \<or> cb_leg_count bundle > kMaxOrderDecisionLegs
      then Some (reject_size OrderDecisionType.RejectInvalidBundle, cache)
      else if oi_leg_count intent \<noteq> 0 \<and> oi_leg_count intent < cb_leg_count bundle
      then Some (reject_size OrderDecisionType.RejectInvalidBundle, cache)
      else
        (case prepare_legs intent depth_views 0 (bundle_legs bundle) of
           Inl reason \<Rightarrow> Some (reject_size reason, cache)
         | Inr legs \<Rightarrow>
             (let key = make_candidate_set_key intent bundle (depth_breakpoint_signature legs) config;
                  guaranteed = guaranteed_per_bundle intent bundle
              in
              case Option.bind cache (\<lambda>c. oc_candidate_sets c key) of
                Some cached \<Rightarrow> Some (size_by_cached legs config policy guaranteed (ca_q_values cached), cache)
              | None \<Rightarrow>
                  map_option
                    (\<lambda>(streamed, result).
                       (result, if streamed = [] then cache else map_option (store_candidate_set key streamed) cache))
                    (size_by_streaming legs config policy guaranteed))))"

text \<open>The optimizer no longer calls the pricing of one leg through the cache.\<close>

definition leg_cost_key :: "u64 \<Rightarrow> nat \<Rightarrow> MarketDepthView \<Rightarrow> i64 \<Rightarrow> i64 \<Rightarrow> bool \<Rightarrow> LegCostKey" where
  "leg_cost_key candidate_set_hash leg_index view bundle_qty ratio_qty_lots use_prefix_vwap =
     \<lparr>lk_candidate_set_hash = candidate_set_hash, lk_leg_index = leg_index, lk_asset_index = dv_asset_index view,
      lk_book_version = dv_book_version view, lk_snapshot_version_hash = dv_snapshot_version_hash view,
      lk_depth_price_signature = depth_price_signature view, lk_q = bundle_qty,
      lk_ratio_qty_lots = ratio_qty_lots, lk_use_prefix_vwap = use_prefix_vwap\<rparr>"

definition cached_cost_for_quantity_recorded ::
  "OrderDecisionCache option \<Rightarrow> u64 \<Rightarrow> nat \<Rightarrow> CostCurve \<Rightarrow> MarketDepthView option \<Rightarrow> i64 \<Rightarrow> i64 \<Rightarrow> bool
     \<Rightarrow> CostForQuantityResult \<times> OrderDecisionCache option" where
  "cached_cost_for_quantity_recorded cache candidate_set_hash leg_index curve depth_ptr bundle_qty ratio_qty_lots
       use_prefix_vwap =
     (case checked_mul_i64 ratio_qty_lots bundle_qty of
        None \<Rightarrow> (unpriced 0, cache)
      | Some leg_qty \<Rightarrow>
          (let result = cost_for_quantity_recorded curve depth_ptr leg_qty use_prefix_vwap in
           case (cache, depth_ptr) of
             (Some c, Some view) \<Rightarrow>
               (let key = leg_cost_key candidate_set_hash leg_index view bundle_qty ratio_qty_lots use_prefix_vwap in
                case find_leg_cost key c of
                  Some cached \<Rightarrow> (cached, cache)
                | None \<Rightarrow> (result, Some (store_leg_cost key result c)))
           | _ \<Rightarrow> (result, cache)))"

subsection \<open>GenericOrderDecisionImpl\<close>

record OrderDecisionResult =
  dr_ok :: bool
  dr_decision :: OrderDecisionLite
  dr_reject_reason :: OrderDecisionType
  dr_error :: string

definition default_decision_lite :: OrderDecisionLite where
  "default_decision_lite =
     \<lparr>ol_decision_id = 0, ol_source_intent_id = 0, ol_bundle_id = 0, ol_type = NoTrade,
      ol_chosen_bundle_qty = 0, ol_guaranteed_payout_tick = 0, ol_estimated_total_cost_tick = 0,
      ol_estimated_fee_tick = 0, ol_latency_buffer_tick = 0, ol_slippage_buffer_tick = 0,
      ol_unit_edge_tick = 0, ol_total_edge_tick = 0, ol_edge_bps = 0, ol_leg_count = 0,
      ol_legs = replicate kMaxOrderDecisionLegs default_leg_lite, ol_snapshot_version_hash = 0,
      ol_oracle_artifact_hash = 0, ol_bundle_hash = 0, ol_policy_hash = 0, ol_created_ts_ns = 0,
      ol_expires_at_ns = 0, ol_decision_hash = 0\<rparr>"

definition refuse :: "OrderDecisionType \<times> string \<Rightarrow> OrderDecisionResult" where
  "refuse fault =
     \<lparr>dr_ok = False, dr_decision = default_decision_lite\<lparr>ol_type := fst fault\<rparr>, dr_reject_reason = fst fault,
      dr_error = snd fault\<rparr>"

definition decided :: "OrderDecisionLite \<Rightarrow> OrderDecisionResult" where
  "decided decision =
     \<lparr>dr_ok = True, dr_decision = decision, dr_reject_reason = NoTrade, dr_error = []\<rparr>"

fun decision_type_name :: "OrderDecisionType \<Rightarrow> string" where
  "decision_type_name NoTrade = ''NoTrade''"
| "decision_type_name PaperOrderDecision = ''PaperOrderDecision''"
| "decision_type_name OrderDecisionType.RejectNoDepth = ''RejectNoDepth''"
| "decision_type_name OrderDecisionType.RejectLowEdge = ''RejectLowEdge''"
| "decision_type_name OrderDecisionType.RejectInvalidBundle = ''RejectInvalidBundle''"
| "decision_type_name OrderDecisionType.RejectUnsupportedSide = ''RejectUnsupportedSide''"
| "decision_type_name OrderDecisionType.RejectRiskBudget = ''RejectRiskBudget''"
| "decision_type_name OrderDecisionType.RejectPartialFillRisk = ''RejectPartialFillRisk''"
| "decision_type_name OrderDecisionType.RejectExpiredIntent = ''RejectExpiredIntent''"
| "decision_type_name OrderDecisionType.RejectPriceProtection = ''RejectPriceProtection''"
| "decision_type_name OrderDecisionType.RejectInternalError = ''RejectInternalError''"

definition multiply_or_zero :: "i64 \<Rightarrow> i64 \<Rightarrow> i64" where
  "multiply_or_zero lhs rhs = (case checked_mul_i64 lhs rhs of None \<Rightarrow> 0 | Some out \<Rightarrow> out)"

definition request_fault ::
  "OpportunityIntent \<Rightarrow> CandidateBundle \<Rightarrow> u64 \<Rightarrow> (OrderDecisionType \<times> string) option" where
  "request_fault intent bundle now_ns =
     (if oi_expires_at_ns intent \<noteq> 0 \<and> oi_expires_at_ns intent \<le> now_ns
      then Some (OrderDecisionType.RejectExpiredIntent, ''intent expired'')
      else if oi_status intent \<noteq> PaperOpportunity
      then Some (OrderDecisionType.RejectInvalidBundle, ''intent is not PaperOpportunity'')
      else if cb_bundle_id bundle = 0 \<or> oi_bundle_id intent \<noteq> cb_bundle_id bundle \<or> cb_leg_count bundle = 0 \<or>
              cb_leg_count bundle > kMaxOrderDecisionLegs
      then Some (OrderDecisionType.RejectInvalidBundle, ''invalid bundle'')
      else None)"

definition find_memo :: "DecisionMemoKey \<Rightarrow> OrderDecisionCache option \<Rightarrow> OrderDecisionLite option" where
  "find_memo key cache = Option.bind cache (\<lambda>c. oc_decisions c key)"

definition decision_expiry :: "OpportunityIntent \<Rightarrow> OrderDecisionConfig \<Rightarrow> u64 \<Rightarrow> u64" where
  "decision_expiry intent config now_ns =
     (let default_expiry = now_ns + dc_default_ttl_ns config in
      if oi_expires_at_ns intent \<noteq> 0 then min (oi_expires_at_ns intent) default_expiry else default_expiry)"

text \<open>The loop over the limits; the legs of the bundle beyond those of the decision are not looked at.\<close>

fun apply_limits ::
  "OrderDecisionConfig \<Rightarrow> BundleLeg list \<Rightarrow> OrderDecisionLegLite list
     \<Rightarrow> OrderDecisionType + OrderDecisionLegLite list" where
  "apply_limits config (bundle_leg # others) (leg # legs) =
     (case build_buy_limit (ll_worst_price_tick leg) (dc_price_protection_buffer_tick config)
             (bg_max_price_tick bundle_leg) (dc_max_allowed_price_tick config) of
        Inl reason \<Rightarrow> Inl reason
      | Inr limit \<Rightarrow>
          (case apply_limits config others legs of
             Inl reason \<Rightarrow> Inl reason
           | Inr legs' \<Rightarrow> Inr (leg\<lparr>ll_limit_price_tick := limit\<rparr> # legs')))"
| "apply_limits config _ _ = Inr []"

definition limit_legs ::
  "OrderDecisionConfig \<Rightarrow> CandidateBundle \<Rightarrow> OrderDecisionLite \<Rightarrow> OrderDecisionType + OrderDecisionLite" where
  "limit_legs config bundle decision =
     (let n = ol_leg_count decision in
      case apply_limits config (take n (cb_legs bundle)) (take n (ol_legs decision)) of
        Inl reason \<Rightarrow> Inl reason
      | Inr legs \<Rightarrow> Inr (decision\<lparr>ol_legs := legs @ drop n (ol_legs decision)\<rparr>))"

definition seal_decision :: "OrderDecisionLite \<Rightarrow> OrderDecisionLite" where
  "seal_decision decision =
     (let hash = compute_order_decision_hash decision in
      decision\<lparr>ol_decision_hash := hash, ol_decision_id := hash\<rparr>)"

definition sized_decision ::
  "OpportunityIntent \<Rightarrow> CandidateBundle \<Rightarrow> RiskPolicySnapshot \<Rightarrow> u64 \<Rightarrow> OrderDecisionConfig \<Rightarrow> BundleSizeResult
     \<Rightarrow> OrderDecisionLite" where
  "sized_decision intent bundle policy now_ns config sz =
     default_decision_lite\<lparr>ol_source_intent_id := oi_intent_id intent, ol_bundle_id := cb_bundle_id bundle,
       ol_type := PaperOrderDecision, ol_chosen_bundle_qty := bs_best_bundle_qty sz,
       ol_guaranteed_payout_tick := bs_guaranteed_payout_tick sz,
       ol_estimated_total_cost_tick := bs_total_cost_tick sz,
       ol_estimated_fee_tick := multiply_or_zero (dc_fee_per_bundle_tick config) (bs_best_bundle_qty sz),
       ol_latency_buffer_tick :=
         multiply_or_zero (dc_latency_buffer_per_bundle_tick config) (bs_best_bundle_qty sz),
       ol_slippage_buffer_tick :=
         multiply_or_zero (dc_slippage_buffer_per_bundle_tick config) (bs_best_bundle_qty sz),
       ol_unit_edge_tick := bs_unit_edge_tick sz, ol_total_edge_tick := bs_total_edge_tick sz,
       ol_edge_bps := bs_edge_bps sz, ol_leg_count := bs_leg_count sz, ol_legs := bs_legs sz,
       ol_snapshot_version_hash := oi_snapshot_version_hash intent,
       ol_oracle_artifact_hash := oi_oracle_artifact_hash intent, ol_bundle_hash := oi_bundle_hash intent,
       ol_policy_hash := policy_hash_for policy, ol_created_ts_ns := now_ns,
       ol_expires_at_ns := decision_expiry intent config now_ns\<rparr>"

definition finish_decision ::
  "OrderDecisionConfig \<Rightarrow> CandidateBundle \<Rightarrow> DecisionMemoKey \<Rightarrow> OrderDecisionLite \<Rightarrow> OrderDecisionCache option
     \<Rightarrow> OrderDecisionResult \<times> OrderDecisionCache option" where
  "finish_decision config bundle memo_key decision cache =
     (case limit_legs config bundle decision of
        Inl reason \<Rightarrow> (refuse (reason, decision_type_name reason), cache)
      | Inr limited \<Rightarrow>
          (let sealed = seal_decision limited in
           (decided sealed, map_option (store_decision memo_key sealed) cache)))"

definition generic_decide ::
  "OpportunityIntent \<Rightarrow> CandidateBundle \<Rightarrow> MarketDepthView list \<Rightarrow> RiskPolicySnapshot \<Rightarrow> u64
     \<Rightarrow> OrderDecisionConfig \<Rightarrow> OrderDecisionCache option
     \<Rightarrow> (OrderDecisionResult \<times> OrderDecisionCache option) option" where
  "generic_decide intent bundle depth_views policy now_ns config cache =
     (case request_fault intent bundle now_ns of
        Some fault \<Rightarrow> Some (refuse fault, cache)
      | None \<Rightarrow>
          (let memo_key = make_decision_memo_key intent bundle policy config now_ns in
           case find_memo memo_key cache of
             Some memo \<Rightarrow> Some (decided memo, cache)
           | None \<Rightarrow>
               map_option
                 (\<lambda>(sz, cache').
                    if \<not> bs_ok sz
                    then (refuse (bs_reject_reason sz, decision_type_name (bs_reject_reason sz)), cache')
                    else finish_decision config bundle memo_key
                           (sized_decision intent bundle policy now_ns config sz) cache')
                 (optimize intent bundle depth_views policy config cache)))"

subsection \<open>FastFixedShapeOrderDecisionImpl\<close>

definition fast_depth_view :: "MarketDepthView list \<Rightarrow> u32 \<Rightarrow> nat \<Rightarrow> MarketDepthView option" where
  "fast_depth_view depth_views asset_index fallback_index =
     (case (if asset_index \<noteq> 0 then filter (\<lambda>view. dv_asset_index view = asset_index) depth_views else []) of
        view # _ \<Rightarrow> Some view
      | [] \<Rightarrow> if fallback_index < length depth_views then Some (depth_views ! fallback_index) else None)"

definition depth_usable :: "MarketDepthView \<Rightarrow> RiskPolicySnapshot \<Rightarrow> u64 \<Rightarrow> bool" where
  "depth_usable view policy now_ns \<longleftrightarrow>
     (if \<not> dv_usable_for_depth view \<or> dv_recovering view \<or> dv_crossed view \<or> dv_closed view \<or>
         dv_resolved view \<or> dv_ask_count view = 0
      then False
      else if rp_max_book_age_ns policy > 0 \<and> dv_last_ws_recv_ns view \<noteq> 0 \<and> now_ns > dv_last_ws_recv_ns view \<and>
              now_ns - dv_last_ws_recv_ns view > word_of_int (rp_max_book_age_ns policy)
      then False
      else True)"

fun sum_ask_lots :: "PriceLevel list \<Rightarrow> i64 \<Rightarrow> i64" where
  "sum_ask_lots [] so_far = so_far"
| "sum_ask_lots (level # levels) so_far =
     (if price_tick level \<le> 0 then sum_ask_lots levels so_far
      else (case checked_add_i64 so_far (price_level_size_lots level) of
          None \<Rightarrow> i64_max | Some so_far' \<Rightarrow> sum_ask_lots levels so_far'))"

definition executable_ask_qty :: "MarketDepthView \<Rightarrow> i64" where
  "executable_ask_qty view =
     (if ask_count (dv_prefix view) > 0 then ask_depth_from_prefix (dv_prefix view)
      else sum_ask_lots (take (min (dv_ask_count view) kMaxSnapshotDepth) (dv_asks view)) 0)"

definition fast_buy_vwap :: "MarketDepthView \<Rightarrow> i64 \<Rightarrow> VwapMathResult" where
  "fast_buy_vwap view quantity_lots =
     (if ask_count (dv_prefix view) > 0
      then buy_vwap_prefix (dv_prefix view) (Some (dv_asks view)) (dv_ask_count view) quantity_lots
      else buy_vwap_linear (Some (dv_asks view)) (dv_ask_count view) quantity_lots)"

record FastLeg =
  fl_ratio :: i64
  fl_depth :: MarketDepthView
  fl_executable :: i64

definition fast_prepare_leg ::
  "MarketDepthView list \<Rightarrow> RiskPolicySnapshot \<Rightarrow> u64 \<Rightarrow> nat \<times> Side \<times> i64 \<times> u32
     \<Rightarrow> (OrderDecisionType \<times> string) + FastLeg" where
  "fast_prepare_leg depth_views policy now_ns shape =
     (case shape of (i, side, ratio, asset_index) \<Rightarrow>
        if side \<noteq> Buy
        then Inl (OrderDecisionType.RejectUnsupportedSide, ''SELL legs are unsupported in fast fixed-shape v1'')
        else
          (case fast_depth_view depth_views asset_index i of
             None \<Rightarrow> Inl (OrderDecisionType.RejectNoDepth, ''missing or unusable depth'')
           | Some view \<Rightarrow>
               if ratio \<le> 0 \<or> \<not> depth_usable view policy now_ns
               then Inl (OrderDecisionType.RejectNoDepth, ''missing or unusable depth'')
               else if executable_ask_qty view < ratio
               then Inl (OrderDecisionType.RejectNoDepth, ''insufficient executable depth'')
               else Inr \<lparr>fl_ratio = ratio, fl_depth = view, fl_executable = executable_ask_qty view\<rparr>))"

fun fast_prepare_legs ::
  "MarketDepthView list \<Rightarrow> RiskPolicySnapshot \<Rightarrow> u64 \<Rightarrow> (nat \<times> Side \<times> i64 \<times> u32) list
     \<Rightarrow> (OrderDecisionType \<times> string) + FastLeg list" where
  "fast_prepare_legs depth_views policy now_ns [] = Inr []"
| "fast_prepare_legs depth_views policy now_ns (shape # shapes) =
     (case fast_prepare_leg depth_views policy now_ns shape of
        Inl fault \<Rightarrow> Inl fault
      | Inr leg \<Rightarrow>
          (case fast_prepare_legs depth_views policy now_ns shapes of
             Inl fault \<Rightarrow> Inl fault
           | Inr legs \<Rightarrow> Inr (leg # legs)))"

text \<open>The sides, ratios and asset indices of the legs, from the cached shape or from bundle and intent.\<close>

definition bundle_shape :: "OpportunityIntent \<Rightarrow> CandidateBundle \<Rightarrow> (nat \<times> Side \<times> i64 \<times> u32) list" where
  "bundle_shape intent bundle =
     map (\<lambda>(i, leg). (i, bg_side leg, ratio_for_leg leg (intent_leg_at intent i),
            (case intent_leg_at intent i of Some il \<Rightarrow> il_asset_index il | None \<Rightarrow> 0)))
       (List.enumerate 0 (bundle_legs bundle))"

definition spec_shape :: "FixedShapeOrderDecisionSpec \<Rightarrow> (nat \<times> Side \<times> i64 \<times> u32) list" where
  "spec_shape spec =
     map (\<lambda>i. (i, fs_sides spec ! i, fs_ratio_qty_lots spec ! i, fs_asset_indices spec ! i)) [0..<fs_leg_count spec]"

definition fast_bundle_qty :: "FastLeg list \<Rightarrow> OrderDecisionConfig \<Rightarrow> i64" where
  "fast_bundle_qty legs config =
     (let qty = foldl (\<lambda>q leg. min q (fl_executable leg sdiv fl_ratio leg)) i64_max legs in
      if dc_max_bundle_qty config > 0 then min qty (dc_max_bundle_qty config) else qty)"

fun fast_price_legs ::
  "RiskPolicySnapshot \<Rightarrow> i64 \<Rightarrow> FastLeg list \<Rightarrow> i64
     \<Rightarrow> (OrderDecisionType \<times> string) + (OrderDecisionLegLite list \<times> i64)" where
  "fast_price_legs policy bundle_qty [] so_far = Inr ([], so_far)"
| "fast_price_legs policy bundle_qty (leg # legs) so_far =
     (case checked_mul_i64 (fl_ratio leg) bundle_qty of
        None \<Rightarrow> Inl (OrderDecisionType.RejectInternalError, ''quantity overflow'')
      | Some leg_qty \<Rightarrow>
          if fl_executable leg < ceil_ratio_bps leg_qty (rp_min_depth_margin_bps policy)
          then Inl (OrderDecisionType.RejectPartialFillRisk, ''depth margin failed'')
          else
            (let priced = fast_buy_vwap (fl_depth leg) leg_qty in
             if \<not> vm_ok priced
             then Inl (OrderDecisionType.RejectNoDepth, ''failed to price executable depth'')
             else
               (case checked_add_i64 so_far (vm_total_cost_tick priced) of
                  None \<Rightarrow> Inl (OrderDecisionType.RejectNoDepth, ''failed to price executable depth'')
                | Some so_far' \<Rightarrow>
                    map_sum (\<lambda>fault. fault)
                      (\<lambda>(priced_legs, cost).
                         (default_leg_lite\<lparr>ll_asset_index := dv_asset_index (fl_depth leg), ll_side := Buy,
                            ll_quantity_lots := leg_qty, ll_estimated_vwap_tick := vm_vwap_tick priced,
                            ll_worst_price_tick := vm_worst_price_tick priced,
                            ll_estimated_cost_tick := vm_total_cost_tick priced\<rparr> # priced_legs, cost))
                      (fast_price_legs policy bundle_qty legs so_far'))))"

record FastEdge =
  fe_fee :: i64
  fe_latency :: i64
  fe_slippage :: i64
  fe_total_cost :: i64
  fe_payout :: i64
  fe_total_edge :: i64
  fe_unit_edge :: i64
  fe_edge_bps :: i64

definition fast_edge ::
  "OrderDecisionConfig \<Rightarrow> RiskPolicySnapshot \<Rightarrow> i64 \<Rightarrow> i64 \<Rightarrow> i64 \<Rightarrow> (OrderDecisionType \<times> string) + FastEdge" where
  "fast_edge config policy guaranteed bundle_qty legs_cost =
     (let fee = multiply_or_zero (dc_fee_per_bundle_tick config) bundle_qty;
          latency = multiply_or_zero (dc_latency_buffer_per_bundle_tick config) bundle_qty;
          slippage = multiply_or_zero (dc_slippage_buffer_per_bundle_tick config) bundle_qty
      in
      case Option.bind (Option.bind (checked_add_i64 legs_cost fee) (\<lambda>c. checked_add_i64 c latency))
             (\<lambda>c. checked_add_i64 c slippage) of
        None \<Rightarrow> Inl (OrderDecisionType.RejectInternalError, ''cost overflow'')
      | Some total_cost \<Rightarrow>
          if rp_max_total_cost_tick policy > 0 \<and> total_cost > rp_max_total_cost_tick policy
          then Inl (OrderDecisionType.RejectRiskBudget, ''cost exceeds policy budget'')
          else
            (case checked_mul_i64 guaranteed bundle_qty of
               None \<Rightarrow> Inl (OrderDecisionType.RejectInternalError, ''payout overflow'')
             | Some payout \<Rightarrow>
            (case checked_sub_i64 payout total_cost of
               None \<Rightarrow> Inl (OrderDecisionType.RejectInternalError, ''edge overflow'')
             | Some total_edge \<Rightarrow>
                 (let unit_edge = total_edge sdiv bundle_qty; edge_bps = ratio_bps total_edge total_cost in
                  if \<not> passes_edge_thresholds unit_edge total_edge edge_bps policy
                  then Inl (OrderDecisionType.RejectLowEdge, ''edge below policy threshold'')
                  else Inr \<lparr>fe_fee = fee, fe_latency = latency, fe_slippage = slippage,
                         fe_total_cost = total_cost, fe_payout = payout, fe_total_edge = total_edge,
                         fe_unit_edge = unit_edge, fe_edge_bps = edge_bps\<rparr>))))"

definition fast_decision ::
  "OpportunityIntent \<Rightarrow> CandidateBundle \<Rightarrow> MarketDepthView list \<Rightarrow> RiskPolicySnapshot \<Rightarrow> u64
     \<Rightarrow> OrderDecisionConfig \<Rightarrow> i64 \<Rightarrow> OrderDecisionLegLite list \<Rightarrow> FastEdge \<Rightarrow> OrderDecisionLite" where
  "fast_decision intent bundle depth_views policy now_ns config bundle_qty legs edge =
     default_decision_lite\<lparr>ol_source_intent_id := oi_intent_id intent, ol_bundle_id := cb_bundle_id bundle,
       ol_type := PaperOrderDecision, ol_chosen_bundle_qty := bundle_qty,
       ol_guaranteed_payout_tick := fe_payout edge, ol_estimated_total_cost_tick := fe_total_cost edge,
       ol_estimated_fee_tick := fe_fee edge, ol_latency_buffer_tick := fe_latency edge,
       ol_slippage_buffer_tick := fe_slippage edge, ol_unit_edge_tick := fe_unit_edge edge,
       ol_total_edge_tick := fe_total_edge edge, ol_edge_bps := fe_edge_bps edge,
       ol_leg_count := length legs, ol_legs := pad_legs legs,
       ol_snapshot_version_hash :=
         (if oi_snapshot_version_hash intent \<noteq> 0 then oi_snapshot_version_hash intent
          else hash_depth_views depth_views),
       ol_oracle_artifact_hash := oi_oracle_artifact_hash intent, ol_bundle_hash := oi_bundle_hash intent,
       ol_policy_hash := policy_hash_for policy, ol_created_ts_ns := now_ns,
       ol_expires_at_ns := decision_expiry intent config now_ns\<rparr>"

text \<open>The part of \<open>decide\<close> between the lookup of the shape and the limits.\<close>

definition fast_evaluate ::
  "OpportunityIntent \<Rightarrow> CandidateBundle \<Rightarrow> MarketDepthView list \<Rightarrow> RiskPolicySnapshot \<Rightarrow> u64
     \<Rightarrow> OrderDecisionConfig \<Rightarrow> (nat \<times> Side \<times> i64 \<times> u32) list \<Rightarrow> i64
     \<Rightarrow> (OrderDecisionType \<times> string) + OrderDecisionLite" where
  "fast_evaluate intent bundle depth_views policy now_ns config shape guaranteed =
     (case fast_prepare_legs depth_views policy now_ns shape of
        Inl fault \<Rightarrow> Inl fault
      | Inr legs \<Rightarrow>
          (let bundle_qty = fast_bundle_qty legs config in
           if bundle_qty < effective_min_qty config \<or> bundle_qty = i64_max
           then Inl (OrderDecisionType.RejectNoDepth, ''no executable bundle quantity'')
           else
             (case fast_price_legs policy bundle_qty legs 0 of
                Inl fault \<Rightarrow> Inl fault
              | Inr (priced_legs, legs_cost) \<Rightarrow>
             (case fast_edge config policy guaranteed bundle_qty legs_cost of
                Inl fault \<Rightarrow> Inl fault
              | Inr edge \<Rightarrow>
                  Inr (fast_decision intent bundle depth_views policy now_ns config bundle_qty priced_legs edge)))))"

definition fast_decide ::
  "OpportunityIntent \<Rightarrow> CandidateBundle \<Rightarrow> MarketDepthView list \<Rightarrow> RiskPolicySnapshot \<Rightarrow> u64
     \<Rightarrow> OrderDecisionConfig \<Rightarrow> OrderDecisionCache option \<Rightarrow> OrderDecisionResult \<times> OrderDecisionCache option" where
  "fast_decide intent bundle depth_views policy now_ns config cache =
     (case request_fault intent bundle now_ns of
        Some fault \<Rightarrow> (refuse fault, cache)
      | None \<Rightarrow>
          (let memo_key = make_decision_memo_key intent bundle policy config now_ns in
           case find_memo memo_key cache of
             Some memo \<Rightarrow> (decided memo, cache)
           | None \<Rightarrow>
               (let (shape, guaranteed, cache') =
                  (case cache of
                     None \<Rightarrow> (bundle_shape intent bundle, guaranteed_per_bundle intent bundle, None)
                   | Some c \<Rightarrow>
                       (case fixed_shape_spec intent bundle c of (spec, c') \<Rightarrow>
                          (spec_shape spec, fs_guaranteed_payout_per_bundle_tick spec, Some c')))
                in
                case fast_evaluate intent bundle depth_views policy now_ns config shape guaranteed of
                  Inl fault \<Rightarrow> (refuse fault, cache')
                | Inr decision \<Rightarrow> finish_decision config bundle memo_key decision cache')))"

subsection \<open>OrderDecisionEngine\<close>

record OrderDecisionEngine =
  oe_config :: OrderDecisionConfig
  oe_cache :: OrderDecisionCache

definition make_decision_engine :: "OrderDecisionConfig \<Rightarrow> OrderDecisionEngine" where
  "make_decision_engine config = \<lparr>oe_config = config, oe_cache = empty_cache\<rparr>"

definition keep_cache :: "OrderDecisionEngine \<Rightarrow> OrderDecisionCache option \<Rightarrow> OrderDecisionEngine" where
  "keep_cache e cache = (case cache of Some c \<Rightarrow> e\<lparr>oe_cache := c\<rparr> | None \<Rightarrow> e)"

definition engine_generic ::
  "OpportunityIntent \<Rightarrow> CandidateBundle \<Rightarrow> MarketDepthView list \<Rightarrow> RiskPolicySnapshot \<Rightarrow> u64
     \<Rightarrow> OrderDecisionEngine \<Rightarrow> (OrderDecisionResult \<times> OrderDecisionEngine) option" where
  "engine_generic intent bundle depth_views policy now_ns e =
     map_option (\<lambda>(r, cache). (r, keep_cache e cache))
       (generic_decide intent bundle depth_views policy now_ns (oe_config e) (Some (oe_cache e)))"

definition engine_decide ::
  "OpportunityIntent \<Rightarrow> CandidateBundle \<Rightarrow> MarketDepthView list \<Rightarrow> RiskPolicySnapshot \<Rightarrow> u64
     \<Rightarrow> OrderDecisionEngine \<Rightarrow> (OrderDecisionResult \<times> OrderDecisionEngine) option" where
  "engine_decide intent bundle depth_views policy now_ns e =
     (if dc_impl_mode (oe_config e) = FastFixedShape
      then
        (case fast_decide intent bundle depth_views policy now_ns (oe_config e) (Some (oe_cache e)) of
           (fast_result, cache) \<Rightarrow>
             if dr_ok fast_result \<or> \<not> dc_fast_fixed_shape_fallback_to_generic (oe_config e)
             then Some (fast_result, keep_cache e cache)
             else engine_generic intent bundle depth_views policy now_ns (keep_cache e cache))
      else engine_generic intent bundle depth_views policy now_ns e)"

subsection \<open>The optimizer returns the best candidate\<close>

abbreviation sized_views :: "MarketDepthView list \<Rightarrow> bool" where
  "sized_views views \<equiv> \<forall>v \<in> set views. length (dv_asks v) = kMaxSnapshotDepth"

definition kMaxBundleLegs :: nat where
  "kMaxBundleLegs = 16"

definition bundle_fits :: "CandidateBundle \<Rightarrow> bool" where
  "bundle_fits bundle \<longleftrightarrow> length (cb_legs bundle) = kMaxBundleLegs"

lemma prepared_nonempty:
  assumes "prepare_legs intent views 0 (bundle_legs bundle) = Inr ps" "sized_views views" "bundle_fits bundle" "cb_leg_count bundle \<noteq> 0"
  shows "\<forall>p \<in> set ps. priced_leg p" "ps \<noteq> []" "length ps = min (cb_leg_count bundle) kMaxOrderDecisionLegs"
proof -
  have "length (bundle_legs bundle) = min (cb_leg_count bundle) kMaxOrderDecisionLegs" "kMaxOrderDecisionLegs \<noteq> 0"
    using assms(3) by (simp_all add: bundle_legs_def bundle_fits_def kMaxBundleLegs_def kMaxOrderDecisionLegs_def)
  then show "\<forall>p \<in> set ps. priced_leg p" "ps \<noteq> []" "length ps = min (cb_leg_count bundle) kMaxOrderDecisionLegs"
    using prepare_legs_priced [OF assms(1,2)] assms(4) by auto
qed

lemma optimize_returns:
  assumes "sized_views views" "bundle_fits bundle"
  shows "\<exists>sz cache'. optimize intent bundle views policy config cache = Some (sz, cache')"
proof (cases "cb_leg_count bundle = 0")
  case False
  have "size_by_streaming ps config policy g \<noteq> None" if "prepare_legs intent views 0 (bundle_legs bundle) = Inr ps" for ps g
    using streaming_is_evaluation [OF prepared_nonempty(1,2) [OF that assms False], of config policy g] by auto
  then show ?thesis
    by (fastforce simp: optimize_def Let_def split: sum.splits option.splits)
qed (simp add: optimize_def)

lemma optimize_sound:
  assumes "optimize intent bundle views policy config cache = Some (sz, cache')" "bs_ok sz"
    and "sized_views views" "bundle_fits bundle"
  obtains ps b where "prepare_legs intent views 0 (bundle_legs bundle) = Inr ps" "\<forall>p \<in> set ps. priced_leg p" "ps \<noteq> []"
    "length ps \<le> kMaxOrderDecisionLegs" "priced_result ps config policy (guaranteed_per_bundle intent bundle) sz b"
proof -
  have n: "cb_leg_count bundle \<noteq> 0" "cb_leg_count bundle \<le> kMaxOrderDecisionLegs"
    using assms(1,2) by (auto simp: optimize_def reject_size_def split: if_splits)
  then obtain ps where ps: "prepare_legs intent views 0 (bundle_legs bundle) = Inr ps"
    using assms(1,2) by (auto simp: optimize_def reject_size_def split: if_splits sum.splits)
  note ok = prepared_nonempty [OF ps assms(3,4) n(1)]
  let ?g = "guaranteed_per_bundle intent bundle"
  have "(\<exists>qs. sz = size_by_cached ps config policy ?g qs) \<or> (\<exists>streamed. size_by_streaming ps config policy ?g = Some (streamed, sz))"
    using assms(1,2) n ps by (auto simp: optimize_def reject_size_def Let_def split: if_splits option.splits)
  then obtain b where "priced_result ps config policy ?g sz b"
    using cached_size_sound [OF ok(1)] streamed_size_sound [OF ok(1,2)] assms(2) by blast
  then show ?thesis
    using that [OF ps ok(1,2)] ok(3) n(2) by simp
qed

lemma optimize_keeps:
  assumes "optimize intent bundle views policy config (Some c) = Some (sz, cache')"
  obtains c' where "cache' = Some c'" "oc_decisions c' = oc_decisions c" "oc_specs c' = oc_specs c"
  using assms by (auto simp: optimize_def store_candidate_set_def Let_def split: if_splits sum.splits option.splits)

subsection \<open>What a decision promises\<close>

record DecisionCall =
  dq_intent :: OpportunityIntent
  dq_bundle :: CandidateBundle
  dq_views :: "MarketDepthView list"
  dq_policy :: RiskPolicySnapshot
  dq_now :: u64

definition call_fits :: "DecisionCall \<Rightarrow> bool" where
  "call_fits c \<longleftrightarrow> bundle_fits (dq_bundle c) \<and> (\<forall>v \<in> set (dq_views c). wf_view v)"

definition memo_key_of :: "OrderDecisionConfig \<Rightarrow> DecisionCall \<Rightarrow> DecisionMemoKey" where
  "memo_key_of config c = make_decision_memo_key (dq_intent c) (dq_bundle c) (dq_policy c) config (dq_now c)"

definition limit_ok :: "OrderDecisionConfig \<Rightarrow> BundleLeg \<Rightarrow> OrderDecisionLegLite \<Rightarrow> bool" where
  "limit_ok config bundle_leg leg \<longleftrightarrow> 0 < ll_worst_price_tick leg \<and>
     ll_limit_price_tick leg = ll_worst_price_tick leg + dc_price_protection_buffer_tick config \<and>
     (0 < bg_max_price_tick bundle_leg \<longrightarrow> ll_limit_price_tick leg \<le> bg_max_price_tick bundle_leg) \<and>
     (0 < dc_max_allowed_price_tick config \<longrightarrow> ll_limit_price_tick leg \<le> dc_max_allowed_price_tick config)"

definition decision_body_ok :: "OrderDecisionConfig \<Rightarrow> DecisionCall \<Rightarrow> OrderDecisionLite \<Rightarrow> bool" where
  "decision_body_ok config c d \<longleftrightarrow>
     request_fault (dq_intent c) (dq_bundle c) (dq_now c) = None \<and>
     ol_type d = PaperOrderDecision \<and> 1 \<le> ol_chosen_bundle_qty d \<and> 0 < ol_estimated_total_cost_tick d \<and>
     0 < ol_leg_count d \<and> ol_leg_count d \<le> kMaxOrderDecisionLegs \<and> length (ol_legs d) = kMaxOrderDecisionLegs \<and>
     ol_source_intent_id d = oi_intent_id (dq_intent c) \<and> ol_bundle_id d = cb_bundle_id (dq_bundle c) \<and>
     ol_policy_hash d = policy_hash_for (dq_policy c) \<and> ol_created_ts_ns d = dq_now c \<and>
     ol_expires_at_ns d = decision_expiry (dq_intent c) config (dq_now c) \<and>
     (oi_snapshot_version_hash (dq_intent c) \<noteq> 0 \<longrightarrow>
        ol_snapshot_version_hash d = oi_snapshot_version_hash (dq_intent c)) \<and>
     (0 < rp_max_total_cost_tick (dq_policy c) \<longrightarrow>
        ol_estimated_total_cost_tick d \<le> rp_max_total_cost_tick (dq_policy c)) \<and>
     passes_edge_thresholds (ol_unit_edge_tick d) (ol_total_edge_tick d) (ol_edge_bps d) (dq_policy c)"

definition decision_ok :: "OrderDecisionConfig \<Rightarrow> DecisionCall \<Rightarrow> OrderDecisionLite \<Rightarrow> bool" where
  "decision_ok config c d \<longleftrightarrow> decision_body_ok config c d \<and>
     compute_order_decision_hash d = ol_decision_hash d \<and> ol_decision_id d = ol_decision_hash d \<and>
     list_all2 (limit_ok config) (take (ol_leg_count d) (cb_legs (dq_bundle c))) (lite_legs d)"

definition buffers_nonneg :: "OrderDecisionConfig \<Rightarrow> bool" where
  "buffers_nonneg config \<longleftrightarrow> 0 \<le> dc_fee_per_bundle_tick config \<and> 0 \<le> dc_latency_buffer_per_bundle_tick config \<and>
     0 \<le> dc_slippage_buffer_per_bundle_tick config"

lemma sized_decision_ok:
  assumes "request_fault (dq_intent c) (dq_bundle c) (dq_now c) = None" "buffers_nonneg config"
    and "\<forall>p \<in> set ps. priced_leg p" "ps \<noteq> []" "length ps \<le> kMaxOrderDecisionLegs"
    and "priced_result ps config (dq_policy c) g sz b"
  shows "decision_body_ok config c (sized_decision (dq_intent c) (dq_bundle c) (dq_policy c) (dq_now c) config sz)"
proof -
  let ?q = "bs_best_bundle_qty sz"
  have q: "0 < ?q" "point_at ps config (dq_policy c) g ?q = Some b"
    using assms(6) by (auto simp: priced_result_def effective_min_qty_def)
  note pt = point_at_accepted [OF q(2)]
  note b = edge_verdict_accepted [OF conjunct2 [OF pt]]
  have "0 < total_leg_cost ps ?q"
    using total_cost_positive [OF assms(3,4) conjunct1 [OF pt] q(1)] .
  moreover have "0 \<le> (dc_fee_per_bundle_tick config + dc_latency_buffer_per_bundle_tick config + dc_slippage_buffer_per_bundle_tick config) * ?q"
    using assms(2) q(1) by (simp add: buffers_nonneg_def)
  ultimately have "0 < bs_total_cost_tick sz"
    using b assms(6) by (simp add: priced_result_def)
  moreover have "0 < rp_max_total_cost_tick (dq_policy c) \<longrightarrow> ep_total_cost_tick b \<le> rp_max_total_cost_tick (dq_policy c)"
    "passes_edge_thresholds (ep_unit_edge_tick b) (ep_total_edge_tick b) (ep_edge_bps b) (dq_policy c)"
    using b by blast+
  ultimately show ?thesis
    using assms(1,4,5,6) q(1) by (simp add: decision_body_ok_def sized_decision_def priced_result_def pad_legs_def)
qed

lemma hash_ignores_id:
  "compute_order_decision_hash (d\<lparr>ol_decision_hash := h, ol_decision_id := i\<rparr>) = compute_order_decision_hash d"
  by (simp add: compute_order_decision_hash_def lite_legs_def)

lemma decision_body_legs:
  "length legs = length (ol_legs d) \<Longrightarrow> decision_body_ok config c (d\<lparr>ol_legs := legs\<rparr>) = decision_body_ok config c d"
  "decision_body_ok config c (d\<lparr>ol_decision_hash := h, ol_decision_id := i\<rparr>) = decision_body_ok config c d"
  by (simp_all add: decision_body_ok_def)

lemma build_buy_limit_ok:
  assumes "build_buy_limit worst buffer leg_max config_max = Inr limit"
  shows "0 < worst \<and> limit = worst + buffer \<and> (0 < leg_max \<longrightarrow> limit \<le> leg_max) \<and> (0 < config_max \<longrightarrow> limit \<le> config_max)"
  using assms by (auto simp: build_buy_limit_def Let_def split: if_splits option.splits)

lemma apply_limits_ok:
  "apply_limits config bls legs = Inr legs' \<Longrightarrow> length bls = length legs \<Longrightarrow> list_all2 (limit_ok config) bls legs'"
proof (induction config bls legs arbitrary: legs' rule: apply_limits.induct)
  case (1 config bl others leg legs)
  from "1.prems"(1) obtain limit legs'' where limit:
      "build_buy_limit (ll_worst_price_tick leg) (dc_price_protection_buffer_tick config) (bg_max_price_tick bl)
        (dc_max_allowed_price_tick config) = Inr limit"
    and rest: "apply_limits config others legs = Inr legs''" and legs': "legs' = leg\<lparr>ll_limit_price_tick := limit\<rparr> # legs''"
    by (auto split: sum.splits)
  have "limit_ok config bl (leg\<lparr>ll_limit_price_tick := limit\<rparr>)"
    using build_buy_limit_ok [OF limit] by (auto simp: limit_ok_def)
  then show ?case
    using "1.IH" [OF limit rest] "1.prems"(2) by (simp add: legs')
qed auto

lemma limit_legs_ok:
  assumes "limit_legs config bundle d = Inr d'" "length (ol_legs d) = kMaxOrderDecisionLegs"
    and "ol_leg_count d \<le> kMaxOrderDecisionLegs" "bundle_fits bundle"
  obtains legs where "d' = d\<lparr>ol_legs := legs\<rparr>" "length legs = length (ol_legs d)"
    "list_all2 (limit_ok config) (take (ol_leg_count d) (cb_legs bundle)) (take (ol_leg_count d) legs)"
proof -
  let ?n = "ol_leg_count d"
  obtain legs where legs: "apply_limits config (take ?n (cb_legs bundle)) (take ?n (ol_legs d)) = Inr legs"
    "d' = d\<lparr>ol_legs := legs @ drop ?n (ol_legs d)\<rparr>"
    using assms(1) by (auto simp: limit_legs_def Let_def split: sum.splits)
  have lens: "length (cb_legs bundle) = kMaxOrderDecisionLegs"
    using assms(4) by (simp add: bundle_fits_def kMaxBundleLegs_def kMaxOrderDecisionLegs_def)
  have all: "list_all2 (limit_ok config) (take ?n (cb_legs bundle)) legs"
    using apply_limits_ok [OF legs(1)] assms(2) lens by simp
  then have "length legs = ?n"
    using list_all2_lengthD [OF all] lens assms(3) by simp
  then show ?thesis
    using that [OF legs(2)] all assms(2,3) by simp
qed

lemma finish_decision_ok:
  assumes "finish_decision config (dq_bundle c) key d (Some cache) = (r, cache')" "decision_body_ok config c d" "bundle_fits (dq_bundle c)"
  shows "if dr_ok r then decision_ok config c (dr_decision r) \<and> cache' = Some (store_decision key (dr_decision r) cache)
    else cache' = Some cache"
proof (cases "limit_legs config (dq_bundle c) d")
  case (Inl reason)
  then show ?thesis
    using assms(1) by (auto simp: finish_decision_def refuse_def)
next
  case (Inr limited)
  have lens: "length (ol_legs d) = kMaxOrderDecisionLegs" "ol_leg_count d \<le> kMaxOrderDecisionLegs"
    using assms(2) by (auto simp: decision_body_ok_def)
  obtain legs where legs: "limited = d\<lparr>ol_legs := legs\<rparr>" "length legs = length (ol_legs d)"
    "list_all2 (limit_ok config) (take (ol_leg_count d) (cb_legs (dq_bundle c))) (take (ol_leg_count d) legs)"
    using limit_legs_ok [OF Inr lens assms(3)] .
  have body: "decision_body_ok config c (seal_decision limited)"
    using assms(2) legs(1) decision_body_legs(1) [OF legs(2)] by (simp add: seal_decision_def decision_body_legs(2) Let_def)
  have "decision_ok config c (seal_decision limited)"
    unfolding decision_ok_def using body legs
    by (simp add: seal_decision_def hash_ignores_id lite_legs_def Let_def)
  then show ?thesis
    using assms(1) Inr by (auto simp: finish_decision_def decided_def Let_def)
qed

subsection \<open>Both implementations keep the promise\<close>

definition specs_ok :: "OrderDecisionCache \<Rightarrow> bool" where
  "specs_ok cache \<longleftrightarrow> (\<forall>spec \<in> ran (oc_specs cache). 0 < fs_leg_count spec \<and> fs_leg_count spec \<le> kMaxOrderDecisionLegs)"

definition cache_ok :: "OrderDecisionConfig \<Rightarrow> DecisionCall set \<Rightarrow> OrderDecisionCache \<Rightarrow> bool" where
  "cache_ok config calls cache \<longleftrightarrow> specs_ok cache \<and>
     (\<forall>key d. oc_decisions cache key = Some d \<longrightarrow>
        (\<exists>c \<in> calls. key = memo_key_of config c \<and> decision_ok config c d))"

text \<open>What an implementation may answer: a decision for this call, one remembered for the same key, or none.\<close>

definition answer_ok :: "OrderDecisionConfig \<Rightarrow> DecisionCall set \<Rightarrow> DecisionCall \<Rightarrow> OrderDecisionResult \<Rightarrow> bool" where
  "answer_ok config calls c r \<longleftrightarrow>
     (dr_ok r \<longrightarrow> (\<exists>c' \<in> insert c calls. memo_key_of config c' = memo_key_of config c \<and> decision_ok config c' (dr_decision r)) \<and>
        request_fault (dq_intent c) (dq_bundle c) (dq_now c) = None)"

lemma cache_ok_mono: "cache_ok config calls cache \<Longrightarrow> calls \<subseteq> calls' \<Longrightarrow> cache_ok config calls' cache"
  unfolding cache_ok_def by blast

lemma cache_ok_store:
  assumes "cache_ok config calls cache" "decision_ok config c d"
  shows "cache_ok config (insert c calls) (store_decision (memo_key_of config c) d cache)"
  using assms by (auto simp: cache_ok_def store_decision_def specs_ok_def)

lemma cache_ok_same: "oc_decisions c' = oc_decisions c \<Longrightarrow> oc_specs c' = oc_specs c \<Longrightarrow> cache_ok config calls c' = cache_ok config calls c"
  by (simp add: cache_ok_def specs_ok_def)

lemma finish_answer:
  assumes "finish_decision config (dq_bundle c) (memo_key_of config c) d (Some cache) = (r, cache')"
    and "decision_body_ok config c d" "bundle_fits (dq_bundle c)" "cache_ok config calls cache"
  obtains k where "cache' = Some k" "cache_ok config (insert c calls) k" "answer_ok config calls c r"
proof (cases "dr_ok r")
  case True
  then have "decision_ok config c (dr_decision r)" "cache' = Some (store_decision (memo_key_of config c) (dr_decision r) cache)"
    using finish_decision_ok [OF assms(1-3)] by auto
  then show ?thesis
    using that cache_ok_store [OF assms(4)] assms(2) by (auto simp: answer_ok_def decision_body_ok_def)
next
  case False
  then have "cache' = Some cache"
    using finish_decision_ok [OF assms(1-3)] by simp
  then show ?thesis
    using that cache_ok_mono [OF assms(4), of "insert c calls"] False by (auto simp: answer_ok_def)
qed

lemma memo_answer:
  assumes "cache_ok config calls cache" "find_memo (memo_key_of config c) (Some cache) = Some d"
    and "request_fault (dq_intent c) (dq_bundle c) (dq_now c) = None"
  shows "answer_ok config calls c (decided d)"
  using assms by (fastforce simp: cache_ok_def find_memo_def answer_ok_def decided_def)

lemma refuse_answer: "answer_ok config calls c (refuse fault)"
  by (simp add: answer_ok_def refuse_def)

lemma generic_decide_answer:
  assumes "generic_decide (dq_intent c) (dq_bundle c) (dq_views c) (dq_policy c) (dq_now c) config (Some cache) = Some (r, cache')"
    and "cache_ok config calls cache" "call_fits c" "buffers_nonneg config"
  obtains k where "cache' = Some k" "cache_ok config (insert c calls) k" "answer_ok config calls c r"
proof -
  have fits: "bundle_fits (dq_bundle c)" "sized_views (dq_views c)"
    using assms(3) by (auto simp: call_fits_def wf_view_def)
  have keep: "cache_ok config (insert c calls) cache"
    using cache_ok_mono [OF assms(2)] by blast
  show ?thesis
  proof (cases "request_fault (dq_intent c) (dq_bundle c) (dq_now c)")
    case (Some fault)
    then show ?thesis
      using assms(1) that keep refuse_answer [of config calls c fault] by (auto simp: generic_decide_def)
  next
    case None
    show ?thesis
    proof (cases "find_memo (memo_key_of config c) (Some cache)")
      case (Some d)
      then show ?thesis
        using assms(1) None that keep memo_answer [OF assms(2) Some None]
        by (auto simp: generic_decide_def memo_key_of_def)
    next
      case fresh: None
      then obtain sz k where opt: "optimize (dq_intent c) (dq_bundle c) (dq_views c) (dq_policy c) config (Some cache) = Some (sz, k)"
        and res: "(r, cache') = (if \<not> bs_ok sz then (refuse (bs_reject_reason sz, decision_type_name (bs_reject_reason sz)), k)
          else finish_decision config (dq_bundle c) (memo_key_of config c)
            (sized_decision (dq_intent c) (dq_bundle c) (dq_policy c) (dq_now c) config sz) k)"
        using assms(1) None by (auto simp: generic_decide_def memo_key_of_def Let_def split: if_splits)
      obtain k' where k': "k = Some k'" "oc_decisions k' = oc_decisions cache" "oc_specs k' = oc_specs cache"
        using optimize_keeps [OF opt] .
      have kept: "cache_ok config calls k'" "cache_ok config (insert c calls) k'"
        using assms(2) keep by (simp_all add: cache_ok_same [OF k'(2,3)])
      show ?thesis
      proof (cases "bs_ok sz")
        case False
        then show ?thesis
          using res that k'(1) kept(2) refuse_answer by auto
      next
        case True
        obtain ps b where ps: "\<forall>p \<in> set ps. priced_leg p" "ps \<noteq> []" "length ps \<le> kMaxOrderDecisionLegs"
          "priced_result ps config (dq_policy c) (guaranteed_per_bundle (dq_intent c) (dq_bundle c)) sz b"
          using optimize_sound [OF opt True fits(2,1)] by metis
        note body = sized_decision_ok [OF None assms(4) ps]
        have fin: "finish_decision config (dq_bundle c) (memo_key_of config c)
            (sized_decision (dq_intent c) (dq_bundle c) (dq_policy c) (dq_now c) config sz) (Some k') = (r, cache')"
          using res True k'(1) by simp
        show ?thesis
          using finish_answer [OF fin body fits(1) kept(1)] that by blast
      qed
    qed
  qed
qed

definition fast_leg_ok :: "FastLeg \<Rightarrow> bool" where
  "fast_leg_ok leg \<longleftrightarrow> 0 < fl_ratio leg \<and> wf_view (fl_depth leg) \<and> dv_ask_count (fl_depth leg) \<noteq> 0"

lemma fast_prepare_legs_ok:
  assumes "fast_prepare_legs views policy now shapes = Inr legs" "\<forall>v \<in> set views. wf_view v"
  shows "length legs = length shapes \<and> (\<forall>leg \<in> set legs. fast_leg_ok leg)"
  using assms(1)
proof (induction shapes arbitrary: legs)
  case (Cons shape shapes)
  obtain i side ratio asset where shape: "shape = (i, side, ratio, asset)"
    by (cases shape)
  from Cons.prems obtain leg legs' where leg: "fast_prepare_leg views policy now shape = Inr leg"
    and rest: "fast_prepare_legs views policy now shapes = Inr legs'" "legs = leg # legs'"
    by (auto split: sum.splits)
  obtain view where view: "fast_depth_view views asset i = Some view" "fl_depth leg = view" "0 < fl_ratio leg" "depth_usable view policy now"
    using leg by (auto simp: fast_prepare_leg_def shape split: if_splits option.splits)
  have "view \<in> set views"
    using view(1) by (fastforce simp: fast_depth_view_def dest: filter_eq_ConsD split: list.splits if_splits)
  then have "fast_leg_ok leg"
    using assms(2) view by (auto simp: fast_leg_ok_def depth_usable_def split: if_splits)
  then show ?case
    using Cons.IH [OF rest(1)] rest(2) by simp
qed simp

lemma walk_cost_pos:
  assumes "0 < q" "q \<le> i64_max" "q \<le> depth S"
  shows "0 < walk_cost S q"
proof -
  note h = hit_level_props [OF assms] hit_level_valid [OF assms]
  have "0 < price_tick (S ! hit_level S q) * (q - depth (take (hit_level S q) S))"
    using h by simp
  then show ?thesis
    unfolding walk_cost_at_hit [OF assms] by (simp add: add_nonneg_pos)
qed

lemma fast_buy_vwap_cost:
  assumes "wf_view v" "dv_ask_count v \<noteq> 0" "in_i64 q" "0 < q" "vm_ok (fast_buy_vwap v q)"
  shows "0 < vm_total_cost_tick (fast_buy_vwap v q)"
proof -
  have len: "length (dv_asks v) = kMaxSnapshotDepth"
    and pre: "dv_prefix v = build_depth_prefix (dv_bids v) (dv_bid_count v) (dv_asks v) (dv_ask_count v)"
    using assms(1) by (simp_all add: wf_view_def)
  have "0 < ask_count (dv_prefix v)"
    using assms(2) by (simp add: pre build_ask_count kMaxSnapshotDepth_def)
  then have eq: "fast_buy_vwap v q = buy_vwap_prefix (dv_prefix v) (Some (dv_asks v)) (dv_ask_count v) q"
    by (simp add: fast_buy_vwap_def)
  note vwap = buy_vwap_prefix_exact [OF len assms(3,2), of "dv_bids v" "dv_bid_count v", folded pre]
  have "q \<le> i64_max"
    using assms(3) by (simp add: in_i64_def)
  then show ?thesis
    using assms(4,5) walk_cost_pos [of q "snapshot_side (dv_asks v) (dv_ask_count v)"]
    by (auto simp: eq vwap empty_vwap_def split: if_splits)
qed

lemma fast_price_legs_cost:
  assumes "fast_price_legs policy q legs so_far = Inr (priced, cost)" "\<forall>leg \<in> set legs. fast_leg_ok leg" "0 < q"
  shows "length priced = length legs \<and> so_far \<le> cost \<and> (legs \<noteq> [] \<longrightarrow> so_far < cost)"
  using assms(1,2)
proof (induction legs arbitrary: so_far priced cost)
  case (Cons leg legs)
  let ?n = "fl_ratio leg * q"
  let ?c = "vm_total_cost_tick (fast_buy_vwap (fl_depth leg) ?n)"
  have n: "in_i64 ?n" and ok: "vm_ok (fast_buy_vwap (fl_depth leg) ?n)"
    using Cons.prems(1) by (auto simp: Let_def split: option.splits if_splits)
  obtain priced' where rest: "fast_price_legs policy q legs (so_far + ?c) = Inr (priced', cost)"
    and len: "length priced = Suc (length priced')"
    using Cons.prems(1) n
    by (cases "fast_price_legs policy q legs (so_far + ?c)") (auto simp: Let_def split: option.splits if_splits)
  have "0 < ?n"
    using Cons.prems(2) assms(3) by (simp add: fast_leg_ok_def)
  then have "0 < ?c"
    using fast_buy_vwap_cost [of "fl_depth leg" ?n] n ok Cons.prems(2) by (simp add: fast_leg_ok_def)
  then show ?case
    using Cons.IH [OF rest] Cons.prems(2) len by auto
qed simp

lemma fast_edge_ok:
  assumes "fast_edge config policy guaranteed q cost = Inr edge" "buffers_nonneg config" "0 < q"
  shows "cost \<le> fe_total_cost edge \<and>
    (0 < rp_max_total_cost_tick policy \<longrightarrow> fe_total_cost edge \<le> rp_max_total_cost_tick policy) \<and>
    passes_edge_thresholds (fe_unit_edge edge) (fe_total_edge edge) (fe_edge_bps edge) policy"
proof -
  have nn: "0 \<le> multiply_or_zero x q" if "0 \<le> x" for x
    using that assms(3) by (auto simp: multiply_or_zero_def split: option.splits)
  have "0 \<le> multiply_or_zero (dc_fee_per_bundle_tick config) q" "0 \<le> multiply_or_zero (dc_latency_buffer_per_bundle_tick config) q"
    "0 \<le> multiply_or_zero (dc_slippage_buffer_per_bundle_tick config) q"
    using nn assms(2) by (auto simp: buffers_nonneg_def)
  then show ?thesis
    using assms(1) by (auto simp: fast_edge_def Let_def split: option.splits if_splits bind_splits)
qed

lemma fast_evaluate_ok:
  assumes "fast_evaluate (dq_intent c) (dq_bundle c) (dq_views c) (dq_policy c) (dq_now c) config shape guaranteed = Inr d"
    and "request_fault (dq_intent c) (dq_bundle c) (dq_now c) = None" "call_fits c" "buffers_nonneg config"
    and "shape \<noteq> []" "length shape \<le> kMaxOrderDecisionLegs"
  shows "decision_body_ok config c d"
proof -
  obtain legs priced cost edge where legs: "fast_prepare_legs (dq_views c) (dq_policy c) (dq_now c) shape = Inr legs"
    and q: "\<not> fast_bundle_qty legs config < effective_min_qty config"
    and priced: "fast_price_legs (dq_policy c) (fast_bundle_qty legs config) legs 0 = Inr (priced, cost)"
    and edge: "fast_edge config (dq_policy c) guaranteed (fast_bundle_qty legs config) cost = Inr edge"
    and d: "d = fast_decision (dq_intent c) (dq_bundle c) (dq_views c) (dq_policy c) (dq_now c) config
      (fast_bundle_qty legs config) priced edge"
    using assms(1) by (auto simp: fast_evaluate_def Let_def split: sum.splits if_splits)
  have views: "\<forall>v \<in> set (dq_views c). wf_view v"
    using assms(3) by (simp add: call_fits_def)
  note prep = fast_prepare_legs_ok [OF legs views]
  have pos: "0 < fast_bundle_qty legs config"
    using q by (simp add: effective_min_qty_def)
  have "legs \<noteq> []"
    using prep assms(5) by auto
  then have cost: "length priced = length shape" "0 < cost"
    using fast_price_legs_cost [OF priced _ pos] prep by auto
  show ?thesis
    using fast_edge_ok [OF edge assms(4) pos] cost pos assms(2,5,6)
    by (simp add: d decision_body_ok_def fast_decision_def pad_legs_def)
qed

lemma fixed_shape_spec_ok:
  assumes "fixed_shape_spec intent bundle cache = (spec, cache')" "specs_ok cache" "cb_leg_count bundle \<noteq> 0"
  shows "0 < fs_leg_count spec \<and> fs_leg_count spec \<le> kMaxOrderDecisionLegs \<and> specs_ok cache' \<and> oc_decisions cache' = oc_decisions cache"
proof (cases "oc_specs cache (spec_cache_key intent bundle)")
  case None
  have "0 < fs_leg_count (build_spec intent bundle) \<and> fs_leg_count (build_spec intent bundle) \<le> kMaxOrderDecisionLegs"
    using assms(3) by (simp add: build_spec_def Let_def kMaxOrderDecisionLegs_def)
  then show ?thesis
    using assms(1,2) None by (auto simp: fixed_shape_spec_def specs_ok_def Let_def)
next
  case (Some s)
  then show ?thesis
    using assms(1,2) by (auto simp: fixed_shape_spec_def specs_ok_def Let_def intro: ranI)
qed

lemma fast_decide_answer:
  assumes "fast_decide (dq_intent c) (dq_bundle c) (dq_views c) (dq_policy c) (dq_now c) config (Some cache) = (r, cache')"
    and "cache_ok config calls cache" "call_fits c" "buffers_nonneg config"
  obtains k where "cache' = Some k" "cache_ok config (insert c calls) k" "answer_ok config calls c r"
proof -
  have keep: "cache_ok config (insert c calls) cache"
    using cache_ok_mono [OF assms(2)] by blast
  show ?thesis
  proof (cases "request_fault (dq_intent c) (dq_bundle c) (dq_now c)")
    case (Some fault)
    then show ?thesis
      using assms(1) that keep refuse_answer [of config calls c fault] by (auto simp: fast_decide_def)
  next
    case None
    then have n: "cb_leg_count (dq_bundle c) \<noteq> 0"
      by (auto simp: request_fault_def split: if_splits)
    show ?thesis
    proof (cases "find_memo (memo_key_of config c) (Some cache)")
      case (Some d)
      then show ?thesis
        using assms(1) None that keep memo_answer [OF assms(2) Some None]
        by (auto simp: fast_decide_def memo_key_of_def)
    next
      case fresh: None
      obtain spec k where spec: "fixed_shape_spec (dq_intent c) (dq_bundle c) cache = (spec, k)"
        by (cases "fixed_shape_spec (dq_intent c) (dq_bundle c) cache")
      note so = fixed_shape_spec_ok [OF spec _ n]
      have kept: "cache_ok config calls k" "cache_ok config (insert c calls) k"
        using assms(2) keep so by (auto simp: cache_ok_def)
      let ?ev = "fast_evaluate (dq_intent c) (dq_bundle c) (dq_views c) (dq_policy c) (dq_now c) config (spec_shape spec)
        (fs_guaranteed_payout_per_bundle_tick spec)"
      have res: "(case ?ev of Inl fault \<Rightarrow> (refuse fault, Some k)
          | Inr d \<Rightarrow> finish_decision config (dq_bundle c) (memo_key_of config c) d (Some k)) = (r, cache')"
        using assms(1) None fresh spec unfolding fast_decide_def memo_key_of_def by simp
      show ?thesis
      proof (cases ?ev)
        case (Inl fault)
        then show ?thesis
          using res that kept(2) refuse_answer [of config calls c fault] by auto
      next
        case (Inr d)
        have "spec_shape spec \<noteq> []" "length (spec_shape spec) \<le> kMaxOrderDecisionLegs"
          using so assms(2) by (auto simp: spec_shape_def cache_ok_def)
        then have body: "decision_body_ok config c d"
          using fast_evaluate_ok [OF Inr None assms(3,4)] by simp
        have fits: "bundle_fits (dq_bundle c)"
          using assms(3) by (simp add: call_fits_def)
        have fin: "finish_decision config (dq_bundle c) (memo_key_of config c) d (Some k) = (r, cache')"
          using res Inr by simp
        show ?thesis
          using finish_answer [OF fin body fits kept(1)] that by blast
      qed
    qed
  qed
qed

text \<open>
  The key of a shape leaves out the payout of the intent, which the shape remembers: an intent that differs
  from an earlier one only in its payout is sized with the earlier payout.
\<close>

lemma shape_keeps_first_payout:
  assumes "cb_guaranteed_payout_tick bundle = 0"
  shows "fs_guaranteed_payout_per_bundle_tick (fst (fixed_shape_spec (intent\<lparr>oi_guaranteed_payout_tick := g\<rparr>) bundle
    (snd (fixed_shape_spec intent bundle empty_cache)))) = oi_guaranteed_payout_tick intent"
proof -
  have "mix_spec_leg (intent\<lparr>oi_guaranteed_payout_tick := g\<rparr>) = mix_spec_leg intent"
    by (simp add: mix_spec_leg_def fun_eq_iff Let_def)
  then have "spec_cache_key (intent\<lparr>oi_guaranteed_payout_tick := g\<rparr>) bundle = spec_cache_key intent bundle"
    by (simp add: spec_cache_key_def)
  then show ?thesis
    using assms by (simp add: fixed_shape_spec_def empty_cache_def build_spec_def guaranteed_per_bundle_def Let_def)
qed

subsection \<open>The engine\<close>

definition call_decide :: "DecisionCall \<Rightarrow> OrderDecisionEngine \<Rightarrow> (OrderDecisionResult \<times> OrderDecisionEngine) option" where
  "call_decide c e = engine_decide (dq_intent c) (dq_bundle c) (dq_views c) (dq_policy c) (dq_now c) e"

fun run_decisions :: "DecisionCall list \<Rightarrow> OrderDecisionEngine \<Rightarrow> OrderDecisionEngine option" where
  "run_decisions [] e = Some e"
| "run_decisions (c # cs) e = Option.bind (call_decide c e) (\<lambda>(r, e'). run_decisions cs e')"

definition engine_ok :: "DecisionCall set \<Rightarrow> OrderDecisionEngine \<Rightarrow> bool" where
  "engine_ok calls e \<longleftrightarrow> cache_ok (oe_config e) calls (oe_cache e)"

text \<open>
  The contract of an implementation, as the engine relies on it: it returns, keeps what the cache remembers
  true and answers for the call or from the memory of its key.
\<close>

locale decision_maker =
  fixes make :: "DecisionCall \<Rightarrow> OrderDecisionConfig \<Rightarrow> OrderDecisionCache \<Rightarrow> (OrderDecisionResult \<times> OrderDecisionCache) option"
  assumes returns: "call_fits c \<Longrightarrow> make c config cache \<noteq> None"
    and answers: "make c config cache = Some (r, k) \<Longrightarrow> cache_ok config calls cache \<Longrightarrow> call_fits c \<Longrightarrow> buffers_nonneg config \<Longrightarrow>
      cache_ok config (insert c calls) k \<and> answer_ok config calls c r"
begin

lemma engine_step:
  assumes "make c (oe_config e) (oe_cache e) = Some (r, k)" "engine_ok calls e" "call_fits c" "buffers_nonneg (oe_config e)"
  shows "engine_ok (insert c calls) (e\<lparr>oe_cache := k\<rparr>) \<and> answer_ok (oe_config e) calls c r"
  using answers [OF assms(1) assms(2) [unfolded engine_ok_def] assms(3,4)] by (simp add: engine_ok_def)

end

definition generic_make :: "DecisionCall \<Rightarrow> OrderDecisionConfig \<Rightarrow> OrderDecisionCache \<Rightarrow> (OrderDecisionResult \<times> OrderDecisionCache) option" where
  "generic_make c config cache =
     map_option (\<lambda>(r, k). (r, case k of Some k' \<Rightarrow> k' | None \<Rightarrow> cache))
       (generic_decide (dq_intent c) (dq_bundle c) (dq_views c) (dq_policy c) (dq_now c) config (Some cache))"

definition fast_make :: "DecisionCall \<Rightarrow> OrderDecisionConfig \<Rightarrow> OrderDecisionCache \<Rightarrow> (OrderDecisionResult \<times> OrderDecisionCache) option" where
  "fast_make c config cache =
     (case fast_decide (dq_intent c) (dq_bundle c) (dq_views c) (dq_policy c) (dq_now c) config (Some cache) of
        (r, k) \<Rightarrow> Some (r, case k of Some k' \<Rightarrow> k' | None \<Rightarrow> cache))"

lemma generic_decide_returns:
  assumes "call_fits c"
  shows "generic_decide (dq_intent c) (dq_bundle c) (dq_views c) (dq_policy c) (dq_now c) config cache \<noteq> None"
proof -
  have "sized_views (dq_views c)" "bundle_fits (dq_bundle c)"
    using assms by (auto simp: call_fits_def wf_view_def)
  then obtain sz k where "optimize (dq_intent c) (dq_bundle c) (dq_views c) (dq_policy c) config cache = Some (sz, k)"
    using optimize_returns by blast
  then show ?thesis
    by (simp add: generic_decide_def Let_def split: option.split)
qed

interpretation generic: decision_maker generic_make
proof
  show "generic_make c config cache \<noteq> None" if "call_fits c" for c config cache
    using generic_decide_returns [OF that] by (simp add: generic_make_def)
  fix c config cache r k calls
  assume "generic_make c config cache = Some (r, k)" and ok: "cache_ok config calls cache" "call_fits c" "buffers_nonneg config"
  then obtain k' where gen: "generic_decide (dq_intent c) (dq_bundle c) (dq_views c) (dq_policy c) (dq_now c) config (Some cache) = Some (r, k')"
    and k: "k = (case k' of Some k' \<Rightarrow> k' | None \<Rightarrow> cache)"
    by (auto simp: generic_make_def)
  show "cache_ok config (insert c calls) k \<and> answer_ok config calls c r"
    by (rule generic_decide_answer [OF gen ok]) (simp add: k)
qed

interpretation fast: decision_maker fast_make
proof
  show "fast_make c config cache \<noteq> None" if "call_fits c" for c config cache
    by (simp add: fast_make_def split: prod.split)
  fix c config cache r k calls
  assume "fast_make c config cache = Some (r, k)" and ok: "cache_ok config calls cache" "call_fits c" "buffers_nonneg config"
  then obtain k' where dec: "fast_decide (dq_intent c) (dq_bundle c) (dq_views c) (dq_policy c) (dq_now c) config (Some cache) = (r, k')"
    and k: "k = (case k' of Some k' \<Rightarrow> k' | None \<Rightarrow> cache)"
    by (auto simp: fast_make_def split: prod.splits)
  show "cache_ok config (insert c calls) k \<and> answer_ok config calls c r"
    by (rule fast_decide_answer [OF dec ok]) (simp add: k)
qed

text \<open>The engine is its fast maker, if configured and successful, or else its generic one.\<close>

lemma call_decide_makers:
  "call_decide c e =
     (if dc_impl_mode (oe_config e) = FastFixedShape
      then Option.bind (fast_make c (oe_config e) (oe_cache e)) (\<lambda>(r, k).
        if dr_ok r \<or> \<not> dc_fast_fixed_shape_fallback_to_generic (oe_config e) then Some (r, e\<lparr>oe_cache := k\<rparr>)
        else map_option (\<lambda>(r, k'). (r, e\<lparr>oe_cache := k'\<rparr>)) (generic_make c (oe_config e) k))
      else map_option (\<lambda>(r, k). (r, e\<lparr>oe_cache := k\<rparr>)) (generic_make c (oe_config e) (oe_cache e)))"
proof -
  have keep: "keep_cache e' k = e'\<lparr>oe_cache := case k of Some k' \<Rightarrow> k' | None \<Rightarrow> oe_cache e'\<rparr>" for e' k
    by (simp add: keep_cache_def split: option.split)
  have gen: "engine_generic (dq_intent c) (dq_bundle c) (dq_views c) (dq_policy c) (dq_now c) e' =
      map_option (\<lambda>(r, k). (r, e'\<lparr>oe_cache := k\<rparr>)) (generic_make c (oe_config e') (oe_cache e'))" for e'
    by (simp add: engine_generic_def generic_make_def keep option.map_comp comp_def prod.case_distrib split_def)
  show ?thesis
    by (simp add: call_decide_def engine_decide_def fast_make_def gen keep split: prod.split)
qed

lemma answer_ok_mono: "answer_ok config calls c r \<Longrightarrow> answer_ok config (insert c calls) c r"
  by (auto simp: answer_ok_def)

lemma call_decide_answer:
  assumes "call_decide c e = Some (r, e')" "engine_ok calls e" "call_fits c" "buffers_nonneg (oe_config e)"
  shows "engine_ok (insert c calls) e' \<and> oe_config e' = oe_config e \<and> answer_ok (oe_config e) (insert c calls) c r"
proof (cases "dc_impl_mode (oe_config e) = FastFixedShape")
  case False
  then obtain k where "generic_make c (oe_config e) (oe_cache e) = Some (r, k)" "e' = e\<lparr>oe_cache := k\<rparr>"
    using assms(1) by (auto simp: call_decide_makers)
  with generic.engine_step [OF this(1) assms(2-4)] show ?thesis
    using answer_ok_mono by auto
next
  case True
  obtain fr k where fast: "fast_make c (oe_config e) (oe_cache e) = Some (fr, k)"
    using fast.returns [OF assms(3), of "oe_config e" "oe_cache e"] by auto
  note step = fast.engine_step [OF fast assms(2-4)]
  show ?thesis
  proof (cases "dr_ok fr \<or> \<not> dc_fast_fixed_shape_fallback_to_generic (oe_config e)")
    case settled: True
    then have "r = fr" "e' = e\<lparr>oe_cache := k\<rparr>"
      using assms(1) fast True by (auto simp: call_decide_makers)
    then show ?thesis
      using step answer_ok_mono by auto
  next
    case False
    then obtain k' where gen: "generic_make c (oe_config (e\<lparr>oe_cache := k\<rparr>)) (oe_cache (e\<lparr>oe_cache := k\<rparr>)) = Some (r, k')"
      "e' = e\<lparr>oe_cache := k'\<rparr>"
      using assms(1) fast True by (auto simp: call_decide_makers)
    from generic.engine_step [OF gen(1) conjunct1 [OF step] assms(3)] show ?thesis
      using assms(4) gen(2) by simp
  qed
qed

lemma call_decide_returns: "call_fits c \<Longrightarrow> call_decide c e \<noteq> None"
  using generic.returns [of c "oe_config e"] fast.returns [of c "oe_config e" "oe_cache e"]
  by (auto simp: call_decide_makers split: bind_splits)

lemma run_decisions_ok:
  assumes "\<forall>c \<in> set calls. call_fits c" "buffers_nonneg (oe_config e)" "engine_ok seen e"
  shows "\<exists>e'. run_decisions calls e = Some e' \<and> engine_ok (seen \<union> set calls) e' \<and> oe_config e' = oe_config e"
  using assms
proof (induction calls arbitrary: e seen)
  case (Cons c calls)
  obtain r e1 where dec: "call_decide c e = Some (r, e1)"
    using call_decide_returns [of c e] Cons.prems(1) by auto
  have step: "engine_ok (insert c seen) e1" "oe_config e1 = oe_config e"
    using call_decide_answer [OF dec Cons.prems(3) _ Cons.prems(2)] Cons.prems(1) by auto
  show ?case
    using Cons.IH [OF _ _ step(1)] Cons.prems(1,2) step(2) dec by auto
qed simp

lemma engine_ok_initial: "engine_ok {} (make_decision_engine config)"
  by (simp add: engine_ok_def make_decision_engine_def cache_ok_def empty_cache_def specs_ok_def)

subsection \<open>Sizing with what the cache remembers\<close>

lemma optimize_sized:
  assumes "prepare_legs intent views 0 (bundle_legs bundle) = Inr ps" "sized_views views" "bundle_fits bundle"
    and "cb_leg_count bundle \<noteq> 0" "cb_leg_count bundle \<le> kMaxOrderDecisionLegs"
    and "oi_leg_count intent = 0 \<or> cb_leg_count bundle \<le> oi_leg_count intent"
    and "margin_fits ps (rp_min_depth_margin_bps policy)"
    and "\<And>cs. Option.bind cache (\<lambda>c. oc_candidate_sets c
      (make_candidate_set_key intent bundle (depth_breakpoint_signature ps) config)) = Some cs \<Longrightarrow>
      \<exists>m \<le> rp_min_depth_margin_bps policy. cut_at_margin ps config m (ca_q_values cs)"
  obtains sz cache' where "optimize intent bundle views policy config cache = Some (sz, cache')"
    "sized ps config policy (guaranteed_per_bundle intent bundle) sz"
proof -
  let ?g = "guaranteed_per_bundle intent bundle"
  let ?cached = "Option.bind cache (\<lambda>c. oc_candidate_sets c
    (make_candidate_set_key intent bundle (depth_breakpoint_signature ps) config))"
  note ok = prepared_nonempty [OF assms(1-4)]
  show ?thesis
  proof (cases ?cached)
    case None
    obtain streamed sz where "size_by_streaming ps config policy ?g = Some (streamed, sz)" "sized ps config policy ?g sz"
      using streaming_is_evaluation [OF ok(1,2), of config policy ?g] size_result_sized [OF ok(1) best_evaluated [OF ok(1) assms(7)]]
      by blast
    then show ?thesis
      using that assms(1,4,5,6) None by (auto simp: optimize_def Let_def)
  next
    case (Some cs)
    obtain m where "m \<le> rp_min_depth_margin_bps policy" "cut_at_margin ps config m (ca_q_values cs)"
      using assms(8) [OF Some] by blast
    then have "sized ps config policy ?g (size_by_cached ps config policy ?g (ca_q_values cs))"
      using cached_cut_sized [OF ok(1) assms(7)] by blast
    then show ?thesis
      using that assms(1,4,5,6) Some by (auto simp: optimize_def Let_def)
  qed
qed

abbreviation call_legs :: "DecisionCall \<Rightarrow> OrderDecisionType + PreparedLeg list" where
  "call_legs c \<equiv> prepare_legs (dq_intent c) (dq_views c) 0 (bundle_legs (dq_bundle c))"

definition candidate_key :: "OrderDecisionConfig \<Rightarrow> DecisionCall \<Rightarrow> PreparedLeg list \<Rightarrow> CandidateSetKey" where
  "candidate_key config c ps = make_candidate_set_key (dq_intent c) (dq_bundle c) (depth_breakpoint_signature ps) config"

text \<open>Every cached set was streamed for an earlier call: it is whole, or cut at the depth margin of that call.\<close>

definition sets_ok :: "OrderDecisionConfig \<Rightarrow> DecisionCall set \<Rightarrow> OrderDecisionCache \<Rightarrow> bool" where
  "sets_ok config calls cache \<longleftrightarrow>
     (\<forall>key cs. oc_candidate_sets cache key = Some cs \<longrightarrow>
        (\<exists>c \<in> calls. \<exists>ps. call_legs c = Inr ps \<and> key = candidate_key config c ps \<and> legs_bounded ps \<and>
           cut_at_margin ps config (rp_min_depth_margin_bps (dq_policy c)) (ca_q_values cs)))"

lemma sets_ok_mono: "sets_ok config calls cache \<Longrightarrow> calls \<subseteq> calls' \<Longrightarrow> sets_ok config calls' cache"
  unfolding sets_ok_def by (meson subsetD)

lemma sets_ok_same: "oc_candidate_sets k = oc_candidate_sets cache \<Longrightarrow> sets_ok config calls k = sets_ok config calls cache"
  by (simp add: sets_ok_def)

lemma call_legs_bounded:
  assumes "call_fits c" "call_legs c = Inr ps" "cb_leg_count (dq_bundle c) \<noteq> 0"
  shows "legs_bounded ps"
proof (rule prepare_legs_bounded [OF assms(2)])
  have "length (cb_legs (dq_bundle c)) = 16"
    using assms(1) by (simp add: call_fits_def bundle_fits_def kMaxBundleLegs_def)
  then show "bundle_legs (dq_bundle c) \<noteq> []" "length (bundle_legs (dq_bundle c)) \<le> kMaxOrderDecisionLegs"
    using assms(3) by (auto simp: bundle_legs_def kMaxOrderDecisionLegs_def)
qed (use assms(1) in \<open>auto simp: call_fits_def wf_view_def\<close>)

lemma cut_at_margin_length: "legs_bounded ps \<Longrightarrow> cut_at_margin ps config m qs \<Longrightarrow> length qs \<le> kMaxOrderDecisionCandidates"
  using candidates_card [of ps config] unfolding cut_at_margin_def
  by (metis add_leD1 length_append length_sorted_list_of_set order_trans)

lemma optimize_sets:
  assumes "optimize (dq_intent c) (dq_bundle c) (dq_views c) (dq_policy c) config (Some cache) = Some (sz, k)"
    and "call_fits c" "sets_ok config calls cache"
  obtains k' where "k = Some k'" "sets_ok config (insert c calls) k'"
proof -
  have keep: "sets_ok config (insert c calls) cache"
    using sets_ok_mono [OF assms(3)] by blast
  consider "k = Some cache"
    | ps streamed r where "call_legs c = Inr ps" "cb_leg_count (dq_bundle c) \<noteq> 0"
        "size_by_streaming ps config (dq_policy c) (guaranteed_per_bundle (dq_intent c) (dq_bundle c)) = Some (streamed, r)"
        "k = Some (store_candidate_set (candidate_key config c ps) streamed cache)"
    using assms(1) unfolding optimize_def Let_def candidate_key_def
    by (auto split: if_splits sum.splits option.splits)
  then show ?thesis
  proof cases
    case 1
    then show ?thesis using that keep by blast
  next
    case (2 ps streamed r)
    have ps: "legs_bounded ps"
      using call_legs_bounded [OF assms(2) 2(1,2)] .
    note cut = streamed_cut [OF ps 2(3)]
    have "take kMaxOrderDecisionCandidates streamed = streamed"
      using cut_at_margin_length [OF ps cut] by simp
    then have "sets_ok config (insert c calls) (store_candidate_set (candidate_key config c ps) streamed cache)"
      using keep 2(1) ps cut unfolding sets_ok_def store_candidate_set_def Let_def by auto
    then show ?thesis
      using that 2(4) by blast
  qed
qed

lemma finish_sets:
  assumes "finish_decision config bundle key d (Some cache) = (r, k)"
  obtains k' where "k = Some k'" "oc_candidate_sets k' = oc_candidate_sets cache"
  using assms by (auto simp: finish_decision_def store_decision_def Let_def split: sum.splits)

lemma generic_sets:
  assumes "generic_make c config cache = Some (r, k)" "call_fits c" "sets_ok config calls cache"
  shows "sets_ok config (insert c calls) k"
proof -
  have keep: "sets_ok config (insert c calls) cache"
    using sets_ok_mono [OF assms(3)] by blast
  obtain k0 where gen: "generic_decide (dq_intent c) (dq_bundle c) (dq_views c) (dq_policy c) (dq_now c) config (Some cache) = Some (r, k0)"
    and k: "k = (case k0 of Some k' \<Rightarrow> k' | None \<Rightarrow> cache)"
    using assms(1) by (auto simp: generic_make_def)
  consider "k0 = Some cache"
    | sz k1 where "optimize (dq_intent c) (dq_bundle c) (dq_views c) (dq_policy c) config (Some cache) = Some (sz, k1)"
        "k0 = k1 \<or> (\<exists>key d r. finish_decision config (dq_bundle c) key d k1 = (r, k0))"
    using gen unfolding generic_decide_def Let_def by (auto split: option.splits if_splits) blast+
  then show ?thesis
  proof cases
    case 1
    then show ?thesis using keep k by simp
  next
    case (2 sz k1)
    obtain k' where k': "k1 = Some k'" "sets_ok config (insert c calls) k'"
      using optimize_sets [OF 2(1) assms(2,3)] .
    then show ?thesis
      using 2(2) k finish_sets sets_ok_same by (metis option.simps(5))
  qed
qed

lemma fast_sets:
  assumes "fast_make c config cache = Some (r, k)"
  shows "oc_candidate_sets k = oc_candidate_sets cache"
proof -
  obtain k0 where dec: "fast_decide (dq_intent c) (dq_bundle c) (dq_views c) (dq_policy c) (dq_now c) config (Some cache) = (r, k0)"
    and k: "k = (case k0 of Some k' \<Rightarrow> k' | None \<Rightarrow> cache)"
    using assms by (auto simp: fast_make_def split: prod.splits)
  obtain spec cache' where spec: "fixed_shape_spec (dq_intent c) (dq_bundle c) cache = (spec, cache')"
    "oc_candidate_sets cache' = oc_candidate_sets cache"
    by (cases "fixed_shape_spec (dq_intent c) (dq_bundle c) cache")
       (auto simp: fixed_shape_spec_def Let_def split: option.splits)
  consider "k0 = Some cache" | "k0 = Some cache'" | key d r where "finish_decision config (dq_bundle c) key d (Some cache') = (r, k0)"
    using dec unfolding fast_decide_def Let_def by (auto simp: spec(1) split: option.splits sum.splits)
  then show ?thesis
    using k spec(2) by cases (auto elim: finish_sets)
qed

lemma call_decide_sets:
  assumes "call_decide c e = Some (r, e')" "call_fits c" "sets_ok (oe_config e) calls (oe_cache e)"
  shows "sets_ok (oe_config e) (insert c calls) (oe_cache e') \<and> oe_config e' = oe_config e"
proof -
  have generic: "sets_ok (oe_config e) (insert c calls) k'"
    if "generic_make c (oe_config e) k = Some (r, k')" "sets_ok (oe_config e) calls k" for k k'
    using generic_sets [OF that(1) assms(2) that(2)] .
  show ?thesis
  proof (cases "dc_impl_mode (oe_config e) = FastFixedShape")
    case False
    then show ?thesis
      using assms(1,3) generic by (auto simp: call_decide_makers)
  next
    case True
    obtain fr k where fast: "fast_make c (oe_config e) (oe_cache e) = Some (fr, k)"
      using fast.returns [OF assms(2), of "oe_config e" "oe_cache e"] by auto
    have k: "sets_ok (oe_config e) calls k" "sets_ok (oe_config e) (insert c calls) k"
      using assms(3) sets_ok_same [OF fast_sets [OF fast]] sets_ok_mono [of "oe_config e" calls k "insert c calls"] by auto
    show ?thesis
      using assms(1) True fast k generic by (auto simp: call_decide_makers split: if_splits)
  qed
qed

lemma run_decisions_sets:
  assumes "run_decisions calls e = Some e'" "\<forall>c \<in> set calls. call_fits c" "sets_ok (oe_config e) seen (oe_cache e)"
  shows "sets_ok (oe_config e) (seen \<union> set calls) (oe_cache e') \<and> oe_config e' = oe_config e"
  using assms
proof (induction calls arbitrary: e seen)
  case (Cons c calls)
  obtain r e1 where dec: "call_decide c e = Some (r, e1)" and rest: "run_decisions calls e1 = Some e'"
    using Cons.prems(1) by (auto simp: bind_eq_Some_conv)
  note step = call_decide_sets [OF dec _ Cons.prems(3)]
  then show ?case
    using Cons.IH [OF rest, of "insert c seen"] Cons.prems(2) by auto
qed simp

text \<open>
  C9: optimize: With the cache of an engine after any calls, the optimizer returns for a bundle whose legs can
  all be priced the best of the quantities at which some leg changes its price: exactly priced level by level,
  covered by the depth with the margin of the policy, within the budget and above the thresholds; it refuses
  only if no such quantity is admissible. The conditions are arrays as the state component publishes them, 1 to
  16 bundle legs and not more than the intent's, a depth margin whose products with the depths fit into 64 bits,
  and, where the cache holds a candidate set under the key of this call, that the earlier call with this key had
  its price changes at the same quantities (the key only holds a hash of them) and no larger depth margin. A set
  cached under a larger margin is cut too early, and the optimizer then misses quantities.
\<close>
theorem optimize_best_candidate:
  assumes "run_decisions calls (make_decision_engine config) = Some e" "\<forall>c' \<in> set (c # calls). call_fits c'"
    and "call_legs c = Inr ps" "cb_leg_count (dq_bundle c) \<noteq> 0" "cb_leg_count (dq_bundle c) \<le> kMaxOrderDecisionLegs"
    and "oi_leg_count (dq_intent c) = 0 \<or> cb_leg_count (dq_bundle c) \<le> oi_leg_count (dq_intent c)"
    and "margin_fits ps (rp_min_depth_margin_bps (dq_policy c))"
    and "\<forall>c' \<in> set calls. \<forall>ps'. call_legs c' = Inr ps' \<and> candidate_key config c' ps' = candidate_key config c ps \<longrightarrow>
      map breakpoint_shape ps' = map breakpoint_shape ps \<and>
      rp_min_depth_margin_bps (dq_policy c') \<le> rp_min_depth_margin_bps (dq_policy c)"
  shows "\<exists>sz cache'. optimize (dq_intent c) (dq_bundle c) (dq_views c) (dq_policy c) config (Some (oe_cache e)) = Some (sz, cache') \<and>
    sized ps config (dq_policy c) (guaranteed_per_bundle (dq_intent c) (dq_bundle c)) sz"
proof -
  have "sets_ok (oe_config (make_decision_engine config)) {} (oe_cache (make_decision_engine config))"
    by (simp add: sets_ok_def make_decision_engine_def empty_cache_def)
  then have sets: "sets_ok config (set calls) (oe_cache e)"
    using run_decisions_sets [OF assms(1)] assms(2) by (fastforce simp: make_decision_engine_def)
  have ps: "legs_bounded ps"
    using call_legs_bounded [OF _ assms(3,4)] assms(2) by simp
  have cached: "\<exists>m \<le> rp_min_depth_margin_bps (dq_policy c). cut_at_margin ps config m (ca_q_values cs)"
    if hit: "oc_candidate_sets (oe_cache e) (candidate_key config c ps) = Some cs" for cs
  proof -
    obtain c' ps' where c': "c' \<in> set calls" "call_legs c' = Inr ps'" "candidate_key config c ps = candidate_key config c' ps'"
      "legs_bounded ps'" "cut_at_margin ps' config (rp_min_depth_margin_bps (dq_policy c')) (ca_q_values cs)"
      using sets hit unfolding sets_ok_def by blast
    then have "map breakpoint_shape ps' = map breakpoint_shape ps"
      "rp_min_depth_margin_bps (dq_policy c') \<le> rp_min_depth_margin_bps (dq_policy c)"
      using assms(8) by auto
    then show ?thesis
      using cut_at_margin_shape [OF c'(4) ps _ c'(5)] by blast
  qed
  have fits: "sized_views (dq_views c)" "bundle_fits (dq_bundle c)"
    using assms(2) by (auto simp: call_fits_def wf_view_def)
  show ?thesis
    using optimize_sized [OF assms(3) fits assms(4-7), of "Some (oe_cache e)" config] cached
    unfolding candidate_key_def by (metis bind.bind_lunit)
qed

text \<open>
  C13: decisions_return: Whatever the configuration, however small its least quantity and whatever the cache
  remembers, the engine answers every call, and so every sequence of calls.
\<close>
theorem decision_engine_returns:
  assumes "\<forall>c \<in> set calls. call_fits c"
  shows "\<exists>e. run_decisions calls (make_decision_engine config) = Some e"
proof -
  have "run_decisions calls e \<noteq> None" for e
    using assms
  proof (induction calls arbitrary: e)
    case (Cons c calls)
    obtain r e' where "call_decide c e = Some (r, e')"
      using call_decide_returns [of c e] Cons.prems by auto
    then show ?case
      using Cons.IH [of e'] Cons.prems by simp
  qed simp
  then show ?thesis
    by blast
qed

text \<open>A call for the bundle of one leg.\<close>

definition sample_bundle :: CandidateBundle where
  "sample_bundle =
     \<lparr>cb_bundle_id = 9, cb_required_true_mask = 0, cb_required_false_mask = 0, cb_invalid_mask = 0,
      cb_guaranteed_payout_tick = 25, cb_leg_count = 1, cb_legs = replicate 16 sample_bundle_leg, cb_min_edge_tick = 0\<rparr>"

definition sample_call :: DecisionCall where
  "sample_call = \<lparr>dq_intent = sample_intent, dq_bundle = sample_bundle, dq_views = [sample_sizing_view],
     dq_policy = marginless_policy, dq_now = 200\<rparr>"

lemma sample_bundle_fits: "bundle_fits sample_bundle" "cb_leg_count sample_bundle = 1" "bundle_legs sample_bundle = [sample_bundle_leg]"
  by (simp_all add: bundle_fits_def kMaxBundleLegs_def sample_bundle_def bundle_legs_def numeral_eq_Suc)

lemma sample_view_wf: "wf_view sample_sizing_view"
  by (simp add: wf_view_def sample_sizing_view_def length_sample_asks)

lemma sample_call_fits: "call_fits sample_call"
  using sample_bundle_fits sample_view_wf by (simp add: call_fits_def sample_call_def)

text \<open>The second call of the same kind finds the candidates of the first in the cache.\<close>

theorem optimize_best_candidate_witness:
  "\<exists>e sz cache'. run_decisions [sample_call] (make_decision_engine default_decision_config) = Some e \<and>
     optimize sample_intent sample_bundle [sample_sizing_view] marginless_policy default_decision_config (Some (oe_cache e))
       = Some (sz, cache') \<and>
     sized [sample_prepared] default_decision_config marginless_policy (guaranteed_per_bundle sample_intent sample_bundle) sz"
proof -
  obtain e where e: "run_decisions [sample_call] (make_decision_engine default_decision_config) = Some e"
    using call_decide_returns [OF sample_call_fits, of "make_decision_engine default_decision_config"] by auto
  have legs: "call_legs sample_call = Inr [sample_prepared]"
    using prepare_sample sample_bundle_fits by (simp add: sample_call_def)
  have "margin_fits [sample_prepared] (rp_min_depth_margin_bps (dq_policy sample_call))"
    "cb_leg_count (dq_bundle sample_call) \<noteq> 0" "cb_leg_count (dq_bundle sample_call) \<le> kMaxOrderDecisionLegs"
    "cb_leg_count (dq_bundle sample_call) \<le> oi_leg_count (dq_intent sample_call)"
    by (simp_all add: sample_call_def sample_bundle_fits kMaxOrderDecisionLegs_def sample_intent_def margin_fits_def
        marginless_policy_def)
  then have "\<exists>sz cache'. optimize (dq_intent sample_call) (dq_bundle sample_call) (dq_views sample_call) (dq_policy sample_call)
      default_decision_config (Some (oe_cache e)) = Some (sz, cache') \<and>
    sized [sample_prepared] default_decision_config (dq_policy sample_call)
      (guaranteed_per_bundle (dq_intent sample_call) (dq_bundle sample_call)) sz"
    by (intro optimize_best_candidate [OF e]) (use legs sample_call_fits in auto)
  with e show ?thesis
    by (auto simp: sample_call_def)
qed

theorem decision_engine_returns_witness:
  "\<exists>e. run_decisions [sample_call, sample_call] (make_decision_engine (default_decision_config\<lparr>dc_min_bundle_qty := - 5\<rparr>)) = Some e"
  using decision_engine_returns [of "[sample_call, sample_call]"] sample_call_fits by simp

text \<open>The engine sizes the sample and finds a limit for its leg.\<close>

lemma sample_last_price:
  assumes "0 < q" "q \<le> 12"
  shows "last_price (view_asks sample_sizing_view) q \<in> {10, 20}"
proof -
  have side: "takable (view_asks sample_sizing_view) = [sample_level 10 5, sample_level 20 7]"
    by (simp add: takable_def view_asks_sample lots_sample)
  have "hit_level [sample_level 10 5, sample_level 20 7] q < 2"
    using hit_level_props(1) [of q "[sample_level 10 5, sample_level 20 7]"] assms by (simp add: lots_sample i64_bounds)
  then show ?thesis
    by (auto simp: last_price_def side sample_price less_Suc_eq numeral_2_eq_2)
qed

lemma sample_optimized:
  obtains sz cache' q where "optimize sample_intent sample_bundle [sample_sizing_view] marginless_policy default_decision_config
      (Some empty_cache) = Some (sz, cache')" "bs_ok sz" "bs_leg_count sz = 1" "1 \<le> q" "q \<le> 12"
    "bs_legs sz = pad_legs [bought_leg q sample_prepared]"
proof -
  have prep: "prepare_legs sample_intent [sample_sizing_view] 0 (bundle_legs sample_bundle) = Inr [sample_prepared]"
    using prepare_sample sample_bundle_fits by simp
  have views: "sized_views [sample_sizing_view]"
    by (simp add: sample_sizing_view_def length_sample_asks)
  have rest: "cb_leg_count sample_bundle \<noteq> 0" "cb_leg_count sample_bundle \<le> kMaxOrderDecisionLegs"
    "oi_leg_count sample_intent = 0 \<or> cb_leg_count sample_bundle \<le> oi_leg_count sample_intent"
    "margin_fits [sample_prepared] (rp_min_depth_margin_bps marginless_policy)"
    by (simp_all add: sample_bundle_fits kMaxOrderDecisionLegs_def sample_intent_def margin_fits_def marginless_policy_def)
  obtain sz cache' where opt: "optimize sample_intent sample_bundle [sample_sizing_view] marginless_policy default_decision_config
      (Some empty_cache) = Some (sz, cache')"
    and sz: "sized [sample_prepared] default_decision_config marginless_policy (guaranteed_per_bundle sample_intent sample_bundle) sz"
    by (rule optimize_sized [OF prep views sample_bundle_fits(1) rest, of "Some empty_cache" default_decision_config])
      (simp add: empty_cache_def)
  have g: "guaranteed_per_bundle sample_intent sample_bundle = 25"
    by (simp add: guaranteed_per_bundle_def sample_bundle_def)
  have priced: "\<forall>p \<in> set [sample_prepared]. priced_leg p"
    using prepared_nonempty(1) [OF prep views sample_bundle_fits(1) rest(1)] .
  have depth: "depth (takable (view_asks (pl_depth sample_prepared))) = 12" "depth (view_asks (pl_depth sample_prepared)) = 12"
    by (simp_all add: takable_totals sample_prepared_def view_asks_sample lots_sample)
  have "edge_of [sample_prepared] default_decision_config 25 12 = 110"
    by (simp only: edge_of_def sample_leg_costs) (simp add: bundle_buffers_def default_decision_config_def)
  then have ok: "bs_ok sz"
    using unit_sizing_best [OF priced sample_unit sample_computable _ sz [unfolded g], of 12] depth
    by (auto simp: marginless_policy_def default_policy_def split: if_splits)
  then obtain b where b: "priced_result [sample_prepared] default_decision_config marginless_policy 25 sz b"
    using sz g by (auto simp: sized_def Let_def)
  then have "payable [sample_prepared] (rp_min_depth_margin_bps marginless_policy) (bs_best_bundle_qty sz)" "1 \<le> bs_best_bundle_qty sz"
    using point_at_accepted by (auto simp: priced_result_def effective_min_qty_def)
  then have "bs_best_bundle_qty sz \<le> 12"
    using depth(2) by (simp add: payable_def covered_def) (simp add: sample_prepared_def)
  then show ?thesis
    using that [OF opt ok] b \<open>1 \<le> bs_best_bundle_qty sz\<close> by (simp add: priced_result_def)
qed

lemma sample_call_decides:
  obtains r e where "call_decide sample_call (make_decision_engine default_decision_config) = Some (r, e)" "dr_ok r"
proof -
  obtain sz cache' q where opt: "optimize sample_intent sample_bundle [sample_sizing_view] marginless_policy default_decision_config
      (Some empty_cache) = Some (sz, cache')" "bs_ok sz" "bs_leg_count sz = 1" "1 \<le> q" "q \<le> 12"
    "bs_legs sz = pad_legs [bought_leg q sample_prepared]"
    by (rule sample_optimized)
  let ?d = "sized_decision sample_intent sample_bundle marginless_policy 200 default_decision_config sz"
  let ?w = "ll_worst_price_tick (bought_leg q sample_prepared)"
  have w: "?w \<in> {10, 20}"
    using sample_last_price [of q] opt(4,5) by (simp add: bought_leg_def sample_prepared_def Let_def)
  have limit: "build_buy_limit ?w (dc_price_protection_buffer_tick default_decision_config) (bg_max_price_tick sample_bundle_leg)
      (dc_max_allowed_price_tick default_decision_config) = Inr ?w"
    using w by (auto simp: build_buy_limit_def default_decision_config_def sample_bundle_leg_def checked_add_i64_def i64_bounds)
  have "take 1 (cb_legs sample_bundle) = [sample_bundle_leg]" "take 1 (pad_legs [bought_leg q sample_prepared]) = [bought_leg q sample_prepared]"
    by (simp_all add: sample_bundle_def pad_legs_def numeral_eq_Suc)
  then obtain limited where "limit_legs default_decision_config sample_bundle ?d = Inr limited"
    using limit opt(3,6) by (simp add: limit_legs_def sized_decision_def)
  then have fin: "dr_ok (fst (finish_decision default_decision_config sample_bundle key ?d k))" for key k
    by (simp add: finish_decision_def decided_def Let_def)
  have "request_fault sample_intent sample_bundle 200 = None"
    by (simp add: request_fault_def sample_intent_def sample_bundle_def kMaxOrderDecisionLegs_def)
  then obtain r k where gen: "generic_decide sample_intent sample_bundle [sample_sizing_view] marginless_policy 200 default_decision_config
      (Some empty_cache) = Some (r, k)" "dr_ok r"
    using opt(1,2) fin by (auto simp: generic_decide_def find_memo_def empty_cache_def Let_def) (metis fst_conv surj_pair)
  have "dc_impl_mode default_decision_config \<noteq> FastFixedShape"
    by (simp add: default_decision_config_def)
  then show ?thesis
    using gen that
    by (auto simp: call_decide_def sample_call_def engine_decide_def engine_generic_def make_decision_engine_def)
qed

end
