(* ===== verification/Spec2Isabelle.thy ===== *)
theory Spec2Isabelle
  imports RiskRuntime Gateway WorstCaseOracles PaperAccounting MarketShard OrderDecisions
begin

text \<open>
  \<^bold>\<open>Polytope: a trading engine for prediction markets.\<close>

  The program finds combinations of outcome tokens whose settlement value is guaranteed to
  exceed their price, checks such an opportunity against risk limits and executes it. The
  offline part (\<open>oracle/\<close>) compiles rules about markets into constraints and computes what
  a bundle pays in the worst settlement. The online part (\<open>engine/\<close>) keeps order books,
  prices bundles on them, turns an opportunity into an intent, evaluates the intent in the risk
  engine (which reserves its cost), sizes it in an order decision, builds an order plan and
  submits it through the execution gateway, whose reports settle the reservation.

  \<^bold>\<open>Theories and what they model\<close>, in the order of import:
  \<^item> \<open>Prelude\<close>: 64-bit integers with their wrap-around, doubles as rationals or non-finite
    values, FNV hashes, decimal texts, lemma collections.
  \<^item> \<open>FixedPointMath\<close>: \<open>engine/common/math\<close> (checked and saturating arithmetic, edges).
  \<^item> \<open>DepthBook\<close>: \<open>state/book/DepthPrefix.h\<close> and \<open>common/math/VwapMath.h\<close>; the prefix
    lookup computes the cost of the level-by-level walk, which is the cheapest allocation. The
    locale \<open>buy_pricer\<close> is the contract of a pricing routine, interpreted on all three.
  \<^item> \<open>RiskTypes\<close>, \<open>OrderDecisionTypes\<close>: intents, risk decisions, order decisions, their
    hashes, approved intents and envelopes.
  \<^item> \<open>Reservations\<close>: \<open>risk/ledger\<close>; the locale \<open>reservation_ledger\<close> is what a ledger owes
    the book, interpreted on the exposure and the inventory ledger. Reachable books keep the
    ledgers equal to the sums over the active reservations.
  \<^item> \<open>RiskPolicy\<close>, \<open>RiskReprice\<close>, \<open>RiskGuards\<close>, \<open>RiskPipeline\<close>, \<open>RiskRuntime\<close>:
    \<open>risk/public/RiskPolicySnapshot.h\<close>, \<open>risk/reprice\<close>, \<open>risk/guards\<close>,
    \<open>risk/core/RiskPipeline.cpp\<close>, \<open>risk/core/RiskEngine.cpp\<close> and \<open>RiskWorkflow.cpp\<close>. An
    approval rests on every guard and on a reservation, a rejection reserves nothing, no
    idempotency hash (nor a key without hash) is approved twice over any sequence of calls, the
    audit trace explains the verdict. The locale \<open>leg_pricer\<close> is the contract of repricing one leg, interpreted on
    snapshots and on depth views.
  \<^item> \<open>OrderLifecycle\<close>, \<open>FillTracking\<close>: \<open>execution/state\<close> and \<open>execution/cancel\<close>; the locale
    \<open>lifecycle\<close> is the contract of a status machine, interpreted on orders and on plans.
  \<^item> \<open>MarketView\<close>, \<open>PaperExecution\<close>: snapshots and depth views, the paper and the sandbox
    adapter.
  \<^item> \<open>OrderedMap\<close>, \<open>MarketBooks\<close>, \<open>ChainState\<close>, \<open>MarketShard\<close>: \<open>engine/state\<close> (the entity store with
    its books and hashes, confirmed trades, settlement and data quality, shards, publication, queries
    and the event filter). The locale \<open>map_order\<close> is an ordered map as an association list and
    \<open>book_side\<close> a side of a book over it, interpreted on bids and asks; the books refine two maps from
    prices to sizes, a snapshot repairs a book, confirmed volumes are what the history of chain
    events says, a published view prices as its book does.
  \<^item> \<open>OrderSizing\<close>, \<open>SizeOptimality\<close>, \<open>OrderDecisions\<close>: \<open>engine/order_decision\<close> (cost curves, the cursor
    over price changes, the optimizer, both implementations of a decision, their cache and the
    engine). The chosen size is the best candidate, also from a cached set unless an earlier, larger
    depth margin cut it, and, for unit legs, the best quantity; decisions pass the checks of the risk
    engine. The locale \<open>decision_maker\<close> is the contract of an
    implementation, interpreted on both.
  \<^item> \<open>ExecutionPlanning\<close>, \<open>Gateway\<close>: \<open>execution/plan\<close> and \<open>execution/core\<close>; the locale
    \<open>execution_adapter\<close> is what the gateway relies on in an adapter, interpreted on both.
  \<^item> \<open>PaperAccounting\<close>: \<open>engine/paper/ledger\<close>, \<open>portfolio\<close> and \<open>pnl\<close>; cash and positions are the sums
    over the fills, each applied once, and equity accounts for the profit.
  \<^item> \<open>OracleConstraints\<close>, \<open>WorstCaseOracles\<close>: \<open>oracle/rules\<close>, \<open>oracle/compiler\<close> and
    \<open>oracle/enumerate\<close>; the enumerated states are the models of the rules, and the special
    back ends agree with the enumeration. The locale \<open>worst_case_oracle\<close> is the contract of a
    back end, interpreted on all three.

  \<^bold>\<open>Conventions.\<close> A class is a record and its methods take and return it. A null pointer is
  \<open>None\<close>. \<open>std::int64_t\<close> is \<open>int\<close> with \<open>wrap_i64\<close> written at every unchecked operation,
  unsigned integers are words. An enumerator is a constructor, an error code or text a value of
  a sum or option type. Loops over arrays and vectors are structural recursion, and the enumeration
  over states is bounded by the number of variables, so that no definition has fuel. The exception
  is the cursor over candidate sizes, whose loop does not end for a least quantity below one: it is
  a partial function, \<open>None\<close> if it does not return, and lemmas show that it returns wherever the
  engine uses it. Publishers and observers are lists of what they receive. Clock readings, timings,
  statistics and the layout of hash tables are left out.

  \<^bold>\<open>This theory\<close> holds the properties that span components: the number in an approval finds its
  reservation, a view published from events prices like the cheapest allocation of its book, and
  the decisions of the decision engine meet the checks of the risk engine.

  \<^bold>\<open>Not modelled.\<close> The feed, the decoders and the live adapters (network, threads, signing), the
  JSON readers and writers with the artifacts of the oracle, the signal engine and the market
  making strategy with their floating-point scores and fair prices, quote risk, the decision fast
  path (a fused copy of code modelled here), paper trading's event loop and metrics, rewards, the
  matching of chain logs, the language model extraction, tools, tests, front end and research.
\<close>

subsection \<open>From the risk approval to the reservation\<close>

lemma new_reservation_found:
  assumes "book_inv b" "length (reservations b) + 1 < 2 ^ 64"
    and "reservations b' = reservations b @ [r]" "rr_reservation_id r = next_reservation_id b"
  shows "find_reservation (reservations b') (next_reservation_id b) = Some r"
proof -
  have "unat (next_reservation_id b) = Suc (length (reservations b))"
    using assms(1) by (simp add: book_inv_def numbered_next_unat)
  then show ?thesis using assms(3,4) by (auto simp: find_reservation_def nth_append)
qed

text \<open>
  C30: The number an approval carries finds the reservation: when the risk pipeline approves an
  intent on a consistent book, the execution side's reading of the approved intent's reservation
  text is the number of a reservation of the book, which is active, belongs to that intent and
  bundle, holds the intent's cost and expires with it.
\<close>

theorem approval_names_its_reservation:
  assumes "pipeline_evaluate_view st input (Some b) has_publisher full = (r, st', Some b', out)"
    and "approved (pr_decision r)" "book_inv b" "length (reservations b) + 1 < 2 ^ 64"
  shows "\<exists>a reservation. pr_approved_intent r = Some a \<and>
    find_reservation (reservations b') (reservation_id_from_string (ai_reservation_id a)) = Some reservation \<and>
    is_active reservation \<and> key_of reservation = reservation_key_for (ai_intent a) \<and>
    rr_reserved_cost_tick reservation = oi_estimated_cost_tick (ai_intent a) \<and>
    rr_expires_at_ns reservation = ai_expires_at_ns a"
  using assms(1)
proof (cases rule: pipeline_cases)
  case (approval intent policy reserved b0 b1 i)
  let ?x = "(new_reservation b intent (iv_now_ns input)
    (should_track_reservation_ledger_detail policy))\<lparr>rr_ledger_reserved := True\<rparr>"
  from approval(6-8) have "reserves input intent policy (Some b) (b', i)" by simp
  then have res: "i = next_reservation_id b" "reservations b' = reservations b @ [?x]"
    by (auto simp: reserves_def dest: try_reserve_accepted)
  have "find_reservation (reservations b') i = Some ?x"
    unfolding res(1) using new_reservation_fields(2) [of b intent]
    by (intro new_reservation_found [OF assms(3,4) res(2)]) simp
  then show ?thesis
    using approval(9) new_reservation_fields [of b intent]
    by (auto simp: is_approval_def reading_back_decimal key_of_def is_active_def)
next
  case rejection
  then show ?thesis using assms(2) by (simp add: rejected_at_def)
qed

theorem approval_names_its_reservation_witness:
  "\<exists>r st' b' out a. pipeline_evaluate_view make_risk_pipeline sample_input (Some empty_book) False False =
      (r, st', Some b', out) \<and> pr_approved_intent r = Some a \<and>
    find_reservation (reservations b') (reservation_id_from_string (ai_reservation_id a)) \<noteq> None"
proof -
  obtain r st' b' out where
    run: "pipeline_evaluate_view make_risk_pipeline sample_input (Some empty_book) False False = (r, st', Some b', out)"
      "approved (pr_decision r)" by (rule sample_evaluation)
  have "length (reservations empty_book) + 1 < 2 ^ 64" by (simp add: empty_book_def)
  from approval_names_its_reservation [OF run book_inv_empty this] run show ?thesis by fastforce
qed

subsection \<open>From the feed to a price\<close>

lemma sorted_filter_map:
  "sorted (map f xs) \<Longrightarrow> sorted (map f (filter P xs))"
  by (induction xs) auto

lemma published_view_price:
  assumes "asset_id_for_event event \<noteq> []" and out: "out = shard_apply (run_shard (make_shard 0 config) events) event"
    and "sr_snapshot_published (fst out)"
    and read: "market_depth_views [snd out] [Some (asset_id_for_event event)] [index] 1 = [v]" and "in_i64 q"
  shows "ascending (view_asks v)"
    and "pv_ok (buy_vwap_from_view v q) \<longleftrightarrow> 0 < q \<and> q \<le> depth (view_asks v) \<and> walk_cost (view_asks v) q \<le> i64_max"
    and "pv_ok (buy_vwap_from_view v q) \<Longrightarrow> pv_total_cost_tick (buy_vwap_from_view v q) = walk_cost (view_asks v) q"
proof -
  have ok: "store_ok (sh_book_store (run_shard (make_shard 0 config) events))"
    by (rule run_shard_ok) simp
  obtain e :: EntityState where view: "view_asks v = shown_levels (bk_asks (et_book e))" "side_ok (<) (bk_asks (et_book e))"
    "dv_prefix v = build_depth_prefix (dv_bids v) (dv_bid_count v) (dv_asks v) (dv_ask_count v)"
    "length (dv_asks v) = kMaxSnapshotDepth" "dv_ask_count v \<le> kMaxSnapshotDepth"
    using ok assms(1-3)
  proof (cases rule: published_view [of _ event out index])
    case (1 e v')
    then have "v' = v"
      using read by simp
    then show ?thesis
      using that [of e] 1 by simp
  qed
  then have "sorted (map PriceLevel.price_tick (view_asks v))"
    using shown_asks_sorted by simp
  then show "ascending (view_asks v)"
    by (simp add: ascending_def sorted_filter_map)
  have side: "snapshot_side (dv_asks v) (dv_ask_count v) = view_asks v"
    using view by (simp add: snapshot_side_def view_asks_def min_absorb1)
  note exact = buy_vwap_from_prefix_exact [where asks = "dv_asks v" and q = q and na = "dv_ask_count v"
    and bids = "dv_bids v" and nb = "dv_bid_count v", OF view(4) assms(5), folded view(3), unfolded side]
  show "pv_ok (buy_vwap_from_view v q) \<longleftrightarrow> 0 < q \<and> q \<le> depth (view_asks v) \<and> walk_cost (view_asks v) q \<le> i64_max"
    and "pv_ok (buy_vwap_from_view v q) \<Longrightarrow> pv_total_cost_tick (buy_vwap_from_view v q) = walk_cost (view_asks v) q"
    unfolding buy_vwap_from_view_def exact by (auto split: if_splits)
qed

text \<open>C34: The price of a quantity on a view that the state store published after any sequence of feed and chain
  events is at most the cost of any way of taking that quantity from the levels the view shows.\<close>

theorem published_view_best_execution:
  fixes config events event index
  defines "out \<equiv> shard_apply (run_shard (make_shard 0 config) events) event"
  assumes "asset_id_for_event event \<noteq> []" and "sr_snapshot_published (fst out)"
    and "market_depth_views [snd out] [Some (asset_id_for_event event)] [index] 1 = [v]"
    and "in_i64 q" and "pv_ok (buy_vwap_from_view v q)"
    and "allocation (view_asks v) taken" and "sum_list taken = q"
  shows "pv_total_cost_tick (buy_vwap_from_view v q) \<le> allocation_cost (view_asks v) taken"
proof -
  note price = published_view_price [OF assms(2) out_def [THEN meta_eq_to_obj_eq] assms(3-5)]
  show ?thesis
    unfolding price(3) [OF assms(6)] using walk_cost_optimal [OF price(1) assms(7)] assms(8) by simp
qed

lemma sample_dispatch_asks:
  "map_option (\<lambda>e. bk_asks (et_book e))
      (get_entity (sh_book_store (snd (dispatch_event (make_shard 0 default_state_config) sample_market_event))) ''a'') =
    Some [(3/5, 10)]"
proof -
  have "bk_asks (et_book (fst (snapshot_entity (sample_event NE_Snapshot) e))) = [(3/5, 10)]" for e
    by (simp add: snapshot_entity_def sample_event_def load_side_def load_level_def tick_after_def Let_def)
  then have "bk_asks (et_book x) = [(3/5, 10)]" if "snapshot_entity (sample_event NE_Snapshot) e = (x, b)" for x b e
    using that by (metis fst_conv)
  note this [unfolded sample_event_def, simp]
  show ?thesis
    by (simp add: dispatch_event_def sample_market_event_def from_normalized_event_def apply_book_event_def
      lob_apply_def apply_event_def apply_snapshot_def sample_event_def resolve_entity_id_def
      get_or_create_entity_def get_entity_def make_shard_def make_entity_store_def new_entity_def Let_def
      make_result_def from_book_result_def from_state_result_def mark_book_snapshot_def
      default_state_config_def count_error_def put_entity_def split: prod.splits)
qed

lemma sample_view_asks:
  obtains v where "market_depth_views [snd (shard_apply (make_shard 0 default_state_config) sample_market_event)]
      [Some ''a''] [3] 1 = [v]" and "view_asks v = [make_price_level (3/5) 10]"
    and "asset_id_for_event sample_market_event = ''a''"
    and "sr_snapshot_published (fst (shard_apply (make_shard 0 default_state_config) sample_market_event))"
proof -
  have a: "asset_id_for_event sample_market_event = ''a''"
    by (simp add: asset_id_for_event_def sample_market_event_def from_normalized_event_def sample_event_def)
  then have a': "asset_id_for_event sample_market_event \<noteq> []"
    by simp
  have pub: "sr_snapshot_published (fst (shard_apply (make_shard 0 default_state_config) sample_market_event))"
    using sample_market_event_dispatch a by (simp add: shard_apply_published)
  have ok: "store_ok (sh_book_store (make_shard 0 default_state_config))"
    by simp
  obtain e v where "get_entity (sh_book_store (snd (shard_apply (make_shard 0 default_state_config) sample_market_event))) ''a'' = Some e"
    and v: "market_depth_views [snd (shard_apply (make_shard 0 default_state_config) sample_market_event)] [Some ''a''] [3] 1 = [v]"
      "view_asks v = shown_levels (bk_asks (et_book e))"
    using published_view [OF ok a' refl pub, of 3] unfolding a by metis
  then have "bk_asks (et_book e) = [(3/5, 10)]"
    using sample_dispatch_asks by (simp add: shard_apply_keeps)
  then show ?thesis
    using that [OF v(1) _ a pub] v(2) by (simp add: shown_levels_def kMaxSnapshotDepth_def)
qed
lemma sample_order_price:
  assumes "ls = [make_price_level (3/5) 10]"
  shows "walk_cost ls 5 \<le> i64_max" "depth ls = 10" "allocation ls [5]"
  using price_to_tick_upper [of "3/5"] price_to_tick_pos [of "3/5"]
  by (simp_all add: assms make_price_level_def allocation_def i64_bounds
    lots_def price_level_size_lots_def)

theorem published_view_best_execution_witness:
  "\<exists>v. market_depth_views [snd (shard_apply (make_shard 0 default_state_config) sample_market_event)]
      [Some ''a''] [3] 1 = [v] \<and> pv_ok (buy_vwap_from_view v 5) \<and>
     pv_total_cost_tick (buy_vwap_from_view v 5) \<le> allocation_cost (view_asks v) [5]"
proof -
  obtain v where v: "market_depth_views [snd (shard_apply (make_shard 0 default_state_config) sample_market_event)]
      [Some ''a''] [3] 1 = [v]" "view_asks v = [make_price_level (3/5) 10]"
    and a: "asset_id_for_event sample_market_event = ''a''"
    and pub: "sr_snapshot_published (fst (shard_apply (make_shard 0 default_state_config) sample_market_event))"
    by (rule sample_view_asks)
  have run: "run_shard (make_shard 0 default_state_config) [] = make_shard 0 default_state_config"
    by (simp add: run_shard_def)
  have q: "in_i64 5"
    by (simp add: in_i64_def i64_bounds)
  have "pv_ok (buy_vwap_from_view v 5)"
    using published_view_price(2) [of sample_market_event _ default_state_config "[]" 3 v 5, OF _ refl] a v pub run q
      sample_order_price [OF v(2)] by simp
  then show ?thesis
    using published_view_best_execution [of sample_market_event default_state_config "[]" 3 v 5 "[5]"] a v pub run q
      sample_order_price [OF v(2)] by auto
qed

section \<open>Order decisions meet the checks of the risk engine\<close>

text \<open>
  Decisions with the same key agree in everything the risk engine compares: the intent, the bundle, the
  snapshot, the policy and the expiry.
\<close>

lemma same_key_fields:
  assumes "memo_key_of config c = memo_key_of config c'"
  shows "oi_intent_id (dq_intent c) = oi_intent_id (dq_intent c')"
    "cb_bundle_id (dq_bundle c) = cb_bundle_id (dq_bundle c')"
    "oi_snapshot_version_hash (dq_intent c) = oi_snapshot_version_hash (dq_intent c')"
    "policy_hash_for (dq_policy c) = policy_hash_for (dq_policy c')"
    "decision_expiry (dq_intent c) config (dq_now c) = decision_expiry (dq_intent c') config (dq_now c')"
  using assms by (simp_all add: memo_key_of_def make_decision_memo_key_def decision_expiry_def Let_def)

lemma decision_lives:
  assumes "request_fault intent bundle now = None" "now < now + dc_default_ttl_ns config"
  shows "now < decision_expiry intent config now"
  using assms by (auto simp: request_fault_def decision_expiry_def Let_def min_def not_le split: if_splits)

lemma answered_decision_faultless:
  assumes "answer_ok config calls c r" "dr_ok r" "oi_snapshot_version_hash (dq_intent c) \<noteq> 0"
    and "\<forall>c' \<in> calls. policy_hash_for (dq_policy c') = policy_hash_for (dq_policy c) \<longrightarrow> dq_policy c' = dq_policy c"
  shows "dq_now c < dq_now c + dc_default_ttl_ns config \<longrightarrow> dq_now c < ol_expires_at_ns (dr_decision r)"
    and "iv_now_ns input < ol_expires_at_ns (dr_decision r) \<longrightarrow>
      decision_fault (dq_intent c) (dr_decision r) input (dq_policy c) = None"
proof -
  obtain c' where c': "c' \<in> insert c calls" "memo_key_of config c' = memo_key_of config c" "decision_ok config c' (dr_decision r)"
    and req: "request_fault (dq_intent c) (dq_bundle c) (dq_now c) = None"
    using assms(1,2) by (auto simp: answer_ok_def)
  note key = same_key_fields [OF c'(2)]
  have "dq_policy c' = dq_policy c"
    using assms(4) c'(1) key(4) by auto
  moreover have "oi_bundle_id (dq_intent c) = cb_bundle_id (dq_bundle c)"
    using req by (simp add: request_fault_def split: if_splits)
  ultimately show "iv_now_ns input < ol_expires_at_ns (dr_decision r) \<longrightarrow>
      decision_fault (dq_intent c) (dr_decision r) input (dq_policy c) = None"
    using c'(3) key(1,2,3,5) assms(3)
    unfolding decision_fault_def decision_ok_def decision_body_ok_def by (auto simp: not_le)
  have "ol_expires_at_ns (dr_decision r) = decision_expiry (dq_intent c) config (dq_now c)"
    using c'(3) key(5) by (simp add: decision_ok_def decision_body_ok_def)
  then show "dq_now c < dq_now c + dc_default_ttl_ns config \<longrightarrow> dq_now c < ol_expires_at_ns (dr_decision r)"
    using decision_lives [OF req] by simp
qed

text \<open>
  C11: decision_admissible: For an intent that carries a snapshot hash, a decision the engine returns, whichever
  implementation computed it and whatever the caches remembered from earlier calls, passes every check with
  which the risk engine receives it, at any time before it expires: its type and size, the intent, bundle and
  snapshot it names, the hash over its fields, the hash, budget and edge thresholds of the policy; and it has not
  expired at the time it was asked for unless the configured lifetime overflows the clock. The conditions are
  arrays and depth sums as the state component publishes them, configured buffers that are not negative, and
  that no earlier call used another policy with the hash of this one, since the memory of decisions compares
  only the hash. Without a snapshot hash the fast implementation writes one of its own, which the risk engine
  refuses.
\<close>
theorem engine_decisions_admissible:
  assumes "run_decisions calls (make_decision_engine config) = Some e" "call_decide c e = Some (r, e')" "dr_ok r"
    and "\<forall>c' \<in> set (c # calls). call_fits c'" "buffers_nonneg config" "oi_snapshot_version_hash (dq_intent c) \<noteq> 0"
    and "\<forall>c' \<in> set calls. policy_hash_for (dq_policy c') = policy_hash_for (dq_policy c) \<longrightarrow> dq_policy c' = dq_policy c"
  shows "(iv_now_ns input < ol_expires_at_ns (dr_decision r) \<longrightarrow>
      decision_fault (dq_intent c) (dr_decision r) input (dq_policy c) = None) \<and>
    (dq_now c < dq_now c + dc_default_ttl_ns config \<longrightarrow> dq_now c < ol_expires_at_ns (dr_decision r))"
proof -
  have "buffers_nonneg (oe_config (make_decision_engine config))" "\<forall>c' \<in> set calls. call_fits c'"
    using assms(4,5) by (simp_all add: make_decision_engine_def)
  then have e: "engine_ok (set calls) e" "oe_config e = config"
    using run_decisions_ok [OF _ _ engine_ok_initial, of calls config] assms(1) by (auto simp: make_decision_engine_def)
  have "answer_ok config (insert c (set calls)) c r"
    using call_decide_answer [OF assms(2) e(1)] assms(4,5) e(2) by simp
  then show ?thesis
    using answered_decision_faultless [OF _ assms(3,6)] assms(7) by simp
qed

theorem engine_decisions_admissible_witness:
  "\<exists>r e'. call_decide sample_call (make_decision_engine default_decision_config) = Some (r, e') \<and> dr_ok r \<and>
     decision_fault sample_intent (dr_decision r) (sample_input\<lparr>iv_now_ns := 200\<rparr>) marginless_policy = None"
proof -
  obtain r e' where r: "call_decide sample_call (make_decision_engine default_decision_config) = Some (r, e')" "dr_ok r"
    by (rule sample_call_decides)
  moreover have "buffers_nonneg default_decision_config" "dq_now sample_call < dq_now sample_call + dc_default_ttl_ns default_decision_config"
    "oi_snapshot_version_hash (dq_intent sample_call) \<noteq> 0"
    by (simp_all add: buffers_nonneg_def default_decision_config_def sample_call_def sample_intent_def)
  ultimately show ?thesis
    using engine_decisions_admissible [of "[]" default_decision_config "make_decision_engine default_decision_config" sample_call r e'
        "sample_input\<lparr>iv_now_ns := 200\<rparr>"] sample_call_fits
    by (simp add: sample_call_def)
qed

end
